(* ===== verification/Runtime_Prelude.thy ===== *)
theory Runtime_Prelude
  imports Main "HOL-Library.AList" "HOL-Library.Sublist" "HOL-Library.List_Lexorder"
    "HOL-Library.Char_ord"
begin

text \<open>
  Shared vocabulary of the development: results with exceptions, Python values as read from
  JSON, dictionaries as association lists in insertion order, and the string operations the
  runtime uses.

  A Python \<^verbatim>\<open>str\<close> is a \<^typ>\<open>string\<close> that holds its UTF-8 encoding, one \<^typ>\<open>char\<close> per byte, so
  \<^verbatim>\<open>s.encode("utf-8")\<close> is the identity, equality, concatenation, prefix tests and substring
  search agree with Python's, and \<^verbatim>\<open>len(s)\<close> is \<open>py_len\<close>, the number of code points. Case
  mapping and white space are those of ASCII.
\<close>

section \<open>Named collections\<close>

named_theorems dict_simps \<open>look-ups in updated dictionaries\<close>
named_theorems result_simps \<open>results that returned normally\<close>

section \<open>Results\<close>

text \<open>
  An exception is its class and a code: the \<^verbatim>\<open>code\<close> attribute where the class has one, a tag of
  the raise site otherwise. The natural-language messages are not modelled.
\<close>

datatype exn_class =
    ValueError | TypeError | KeyError | OSError | UnicodeDecodeError | RuntimeError
  | SessionStoreError | ProjectionError | ContextNotReady | AtomicEditError
  | PermissionError | PathGuardError | CandidateError | CurrentChangesError
  | GitWorktreeError | GitSnapshotError | GitReadError | WorkspaceAuditError
  | ExecutionConflictError | SandboxUnavailable | AppliedChangesError
  | AttributeError | IndexError | ProductError | ModelClientError | ConfigError | BenchmarkError
  | JSONDecodeError | SubprocessError | RepositorySearchError | FileNotFoundError

datatype exn = Exn (exn_class: exn_class) (exn_code: string)

type_synonym 'a res = "exn + 'a"

definition rbind :: "'e + 'a \<Rightarrow> ('a \<Rightarrow> 'e + 'b) \<Rightarrow> 'e + 'b" where
  "rbind r f = (case r of Inl e \<Rightarrow> Inl e | Inr x \<Rightarrow> f x)"

lemma rbind_Inl [simp, code]: "rbind (Inl e) f = Inl e"
  by (simp add: rbind_def)

lemma rbind_Inr [simp, code]: "rbind (Inr x) f = f x"
  by (simp add: rbind_def)

lemma rbind_eq_Inr [result_simps]: "rbind r f = Inr y \<longleftrightarrow> (\<exists>x. r = Inr x \<and> f x = Inr y)"
  by (cases r) auto

lemma rbind_eq_Inl: "rbind r f = Inl e \<longleftrightarrow> r = Inl e \<or> (\<exists>x. r = Inr x \<and> f x = Inl e)"
  by (cases r) auto

lemma rbind_cong [fundef_cong]:
  "r = s \<Longrightarrow> (\<And>x. s = Inr x \<Longrightarrow> f x = g x) \<Longrightarrow> rbind r f = rbind s g"
  by (cases s) auto

text \<open>A guard: raise unless the condition holds.\<close>

definition require :: "bool \<Rightarrow> 'e \<Rightarrow> 'e + unit" where
  "require b e = (if b then Inr () else Inl e)"

lemma require_eq_Inr [result_simps]: "require b e = Inr u \<longleftrightarrow> b"
  by (simp add: require_def)

lemma require_eq_Inl: "require b e = Inl x \<longleftrightarrow> \<not> b \<and> x = e"
  by (auto simp: require_def)

lemma require_simps [simp]: "require True e = Inr ()" "require False e = Inl e"
  by (simp_all add: require_def)

text \<open>A loop over a list that stops at the first exception.\<close>

fun rfold :: "('s \<Rightarrow> 'a \<Rightarrow> 'e + 's) \<Rightarrow> 's \<Rightarrow> 'a list \<Rightarrow> 'e + 's" where
  "rfold f s [] = Inr s"
| "rfold f s (x # xs) = rbind (f s x) (\<lambda>s'. rfold f s' xs)"

fun rmap :: "('a \<Rightarrow> 'e + 'b) \<Rightarrow> 'a list \<Rightarrow> 'e + 'b list" where
  "rmap f [] = Inr []"
| "rmap f (x # xs) = rbind (f x) (\<lambda>y. rbind (rmap f xs) (\<lambda>ys. Inr (y # ys)))"

lemma rfold_append: "rfold f s (xs @ ys) = rbind (rfold f s xs) (\<lambda>s'. rfold f s' ys)"
proof (induction xs arbitrary: s)
  case Nil
  then show ?case by simp
next
  case (Cons x xs)
  then show ?case by (cases "f s x") simp_all
qed

lemma rfold_invariant:
  assumes "rfold f s xs = Inr s'" and "P s"
    and "\<And>t x t'. x \<in> set xs \<Longrightarrow> P t \<Longrightarrow> f t x = Inr t' \<Longrightarrow> P t'"
  shows "P s'"
  using assms
proof (induction xs arbitrary: s)
  case Nil
  then show ?case by simp
next
  case (Cons x xs)
  then obtain t where t: "f s x = Inr t" "rfold f t xs = Inr s'"
    by (auto simp: result_simps)
  with Cons.prems have "P t" by auto
  with Cons t show ?case by auto
qed

lemma rmap_eq_Inr_length: "rmap f xs = Inr ys \<Longrightarrow> length ys = length xs"
  by (induction xs arbitrary: ys) (auto simp: result_simps)

lemma rmap_eq_Inr_iff: "rmap f xs = Inr ys \<longleftrightarrow> list_all2 (\<lambda>x y. f x = Inr y) xs ys"
proof (induction xs arbitrary: ys)
  case Nil
  then show ?case by auto
next
  case (Cons x xs)
  then show ?case by (cases ys) (auto simp: result_simps)
qed

section \<open>Stateful code with exceptions\<close>

text \<open>
  A method that mutates a state of type \<open>'s\<close> and may raise: an exception keeps every effect made
  before it, as in Python.
\<close>

type_synonym ('s, 'a) prog = "'s \<Rightarrow> (exn + 'a) \<times> 's"

definition ret :: "'a \<Rightarrow> ('s, 'a) prog" where
  "ret x = (\<lambda>s. (Inr x, s))"

definition bnd :: "('s, 'a) prog \<Rightarrow> ('a \<Rightarrow> ('s, 'b) prog) \<Rightarrow> ('s, 'b) prog" where
  "bnd m f = (\<lambda>s. case m s of (Inl e, s') \<Rightarrow> (Inl e, s') | (Inr x, s') \<Rightarrow> f x s')"

definition seq_then :: "('s, 'a) prog \<Rightarrow> ('s, 'b) prog \<Rightarrow> ('s, 'b) prog" where
  "seq_then m n = bnd m (\<lambda>_. n)"

definition raise :: "exn \<Rightarrow> ('s, 'a) prog" where
  "raise e = (\<lambda>s. (Inl e, s))"

definition lift :: "'a res \<Rightarrow> ('s, 'a) prog" where
  "lift r = (\<lambda>s. (r, s))"

definition gets :: "('s \<Rightarrow> 'a) \<Rightarrow> ('s, 'a) prog" where
  "gets f = (\<lambda>s. (Inr (f s), s))"

definition modify :: "('s \<Rightarrow> 's) \<Rightarrow> ('s, unit) prog" where
  "modify f = (\<lambda>s. (Inr (), f s))"

text \<open>\<^verbatim>\<open>try: m except ... : h\<close>; the handler re-raises what it does not catch.\<close>

definition try_catch :: "('s, 'a) prog \<Rightarrow> (exn \<Rightarrow> ('s, 'a) prog) \<Rightarrow> ('s, 'a) prog" where
  "try_catch m h = (\<lambda>s. case m s of (Inl e, s') \<Rightarrow> h e s' | (Inr x, s') \<Rightarrow> (Inr x, s'))"

named_theorems prog_simps \<open>running stateful code\<close>

lemma run_ret [simp, prog_simps]: "ret x s = (Inr x, s)"
  by (simp add: ret_def)

lemma run_raise [simp, prog_simps]: "raise e s = (Inl e, s)"
  by (simp add: raise_def)

lemma run_lift [simp, prog_simps]: "lift r s = (r, s)"
  by (simp add: lift_def)

lemma run_gets [simp, prog_simps]: "gets f s = (Inr (f s), s)"
  by (simp add: gets_def)

lemma run_modify [simp, prog_simps]: "modify f s = (Inr (), f s)"
  by (simp add: modify_def)

lemma run_bnd_Inr [simp, prog_simps]: "m s = (Inr x, s') \<Longrightarrow> bnd m f s = f x s'"
  by (simp add: bnd_def)

lemma run_bnd_Inl [simp, prog_simps]: "m s = (Inl e, s') \<Longrightarrow> bnd m f s = (Inl e, s')"
  by (simp add: bnd_def)

lemma run_seq_Inr [simp, prog_simps]: "m s = (Inr x, s') \<Longrightarrow> seq_then m n s = n s'"
  by (simp add: seq_then_def)

lemma run_seq_Inl [simp, prog_simps]: "m s = (Inl e, s') \<Longrightarrow> seq_then m n s = (Inl e, s')"
  by (simp add: seq_then_def)

lemma run_try_Inr [simp, prog_simps]: "m s = (Inr x, s') \<Longrightarrow> try_catch m h s = (Inr x, s')"
  by (simp add: try_catch_def)

lemma run_try_Inl [simp, prog_simps]: "m s = (Inl e, s') \<Longrightarrow> try_catch m h s = h e s'"
  by (simp add: try_catch_def)

lemma bnd_eq_Inr:
  "bnd m f s = (Inr y, t) \<longleftrightarrow> (\<exists>x s'. m s = (Inr x, s') \<and> f x s' = (Inr y, t))"
  by (auto simp: bnd_def split: prod.splits sum.splits)

lemma seq_then_eq_Inr:
  "seq_then m n s = (Inr y, t) \<longleftrightarrow> (\<exists>x s'. m s = (Inr x, s') \<and> n s' = (Inr y, t))"
  by (simp add: seq_then_def bnd_eq_Inr)

lemma bnd_eq_Inl:
  "bnd m f s = (Inl e, t) \<longleftrightarrow>
     m s = (Inl e, t) \<or> (\<exists>x s'. m s = (Inr x, s') \<and> f x s' = (Inl e, t))"
  by (auto simp: bnd_def split: prod.splits sum.splits)

lemma bnd_cong [fundef_cong]:
  "m s = n t \<Longrightarrow> s = t \<Longrightarrow> (\<And>x s'. n t = (Inr x, s') \<Longrightarrow> f x s' = g x s') \<Longrightarrow> bnd m f s = bnd n g t"
  by (auto simp: bnd_def split: prod.splits sum.splits)

text \<open>\<open>preserves P m\<close>: whatever \<open>m\<close> does, by returning or by raising, it keeps \<open>P\<close>.\<close>

definition preserves :: "('s \<Rightarrow> bool) \<Rightarrow> ('s, 'a) prog \<Rightarrow> bool" where
  "preserves P m \<longleftrightarrow> (\<forall>s. P s \<longrightarrow> P (snd (m s)))"

named_theorems preserves_intros \<open>composing invariants\<close>

lemma preservesI: "(\<And>s. P s \<Longrightarrow> P (snd (m s))) \<Longrightarrow> preserves P m"
  by (simp add: preserves_def)

lemma preservesD: "preserves P m \<Longrightarrow> P s \<Longrightarrow> m s = (r, t) \<Longrightarrow> P t"
  by (metis preserves_def snd_conv)

lemma preserves_ret [preserves_intros, simp]: "preserves P (ret x)"
  by (simp add: preserves_def)

lemma preserves_raise [preserves_intros, simp]: "preserves P (raise e)"
  by (simp add: preserves_def)

lemma preserves_lift [preserves_intros, simp]: "preserves P (lift r)"
  by (simp add: preserves_def)

lemma preserves_gets [preserves_intros, simp]: "preserves P (gets f)"
  by (simp add: preserves_def)

lemma preserves_modify [preserves_intros]: "(\<And>s. P s \<Longrightarrow> P (f s)) \<Longrightarrow> preserves P (modify f)"
  by (simp add: preserves_def)

lemma preserves_bnd [preserves_intros]:
  "preserves P m \<Longrightarrow> (\<And>x. preserves P (f x)) \<Longrightarrow> preserves P (bnd m f)"
  by (auto simp: preserves_def bnd_def split: prod.splits sum.splits)

lemma preserves_seq [preserves_intros]:
  "preserves P m \<Longrightarrow> preserves P n \<Longrightarrow> preserves P (seq_then m n)"
  by (simp add: seq_then_def preserves_bnd)

lemma preserves_try [preserves_intros]:
  "preserves P m \<Longrightarrow> (\<And>e. preserves P (h e)) \<Longrightarrow> preserves P (try_catch m h)"
  by (auto simp: preserves_def try_catch_def split: prod.splits sum.splits)

lemma preserves_if [preserves_intros]:
  "(b \<Longrightarrow> preserves P m) \<Longrightarrow> (\<not> b \<Longrightarrow> preserves P n) \<Longrightarrow> preserves P (if b then m else n)"
  by simp

lemma preserves_case_option [preserves_intros]:
  "preserves P m \<Longrightarrow> (\<And>x. preserves P (f x)) \<Longrightarrow>
     preserves P (case v of None \<Rightarrow> m | Some x \<Rightarrow> f x)"
  by (cases v) simp_all

lemma preserves_case_sum [preserves_intros]:
  "(\<And>x. preserves P (f x)) \<Longrightarrow> (\<And>x. preserves P (g x)) \<Longrightarrow>
     preserves P (case v of Inl x \<Rightarrow> f x | Inr x \<Rightarrow> g x)"
  by (cases v) simp_all

lemma preserves_case_prod [preserves_intros]:
  "(\<And>x y. preserves P (f x y)) \<Longrightarrow> preserves P (case v of (x, y) \<Rightarrow> f x y)"
  by (cases v) simp

section \<open>Python values\<close>

text \<open>
  Values as \<^verbatim>\<open>json.loads\<close> returns them. A float is kept as its decimal text; the runtime only
  stores and truncates floats. A dictionary keeps insertion order.
\<close>

datatype json =
    JNull
  | JBool bool
  | JInt int
  | JFloat string
  | JStr string
  | JArr "json list"
  | JObj "(string \<times> json) list"

type_synonym dict = "(string \<times> json) list"

text \<open>\<^verbatim>\<open>d.get(k, default)\<close>, \<^verbatim>\<open>d[k] = v\<close>, \<^verbatim>\<open>d.pop(k, None)\<close>, \<^verbatim>\<open>d.update(e)\<close> and \<^verbatim>\<open>k in d\<close>.\<close>

definition dget_or :: "dict \<Rightarrow> string \<Rightarrow> json \<Rightarrow> json" where
  "dget_or d k v = (case map_of d k of None \<Rightarrow> v | Some x \<Rightarrow> x)"

abbreviation dget :: "dict \<Rightarrow> string \<Rightarrow> json" where
  "dget d k \<equiv> dget_or d k JNull"

definition dset :: "string \<Rightarrow> json \<Rightarrow> dict \<Rightarrow> dict" where
  "dset k v d = AList.update k v d"

definition dpop :: "string \<Rightarrow> dict \<Rightarrow> dict" where
  "dpop k d = AList.delete k d"

definition dmerge :: "dict \<Rightarrow> dict \<Rightarrow> dict" where
  "dmerge d e = fold (\<lambda>(k, v). dset k v) e d"

definition has_key :: "string \<Rightarrow> dict \<Rightarrow> bool" where
  "has_key k d = (map_of d k \<noteq> None)"

text \<open>\<^verbatim>\<open>d[k]\<close> raises \<^verbatim>\<open>KeyError\<close>.\<close>

definition dindex :: "dict \<Rightarrow> string \<Rightarrow> json res" where
  "dindex d k = (case map_of d k of None \<Rightarrow> Inl (Exn KeyError k) | Some x \<Rightarrow> Inr x)"

lemma map_of_dset [simp, dict_simps]: "map_of (dset k v d) = (map_of d)(k \<mapsto> v)"
  by (simp add: dset_def AList.update_conv')

lemma map_of_dpop [simp, dict_simps]: "map_of (dpop k d) = (map_of d)(k := None)"
  by (simp add: dpop_def AList.delete_conv')

lemma dget_or_dset [simp, dict_simps]:
  "dget_or (dset k v d) k' w = (if k' = k then v else dget_or d k' w)"
  by (simp add: dget_or_def)

lemma dget_or_dpop [simp, dict_simps]:
  "dget_or (dpop k d) k' w = (if k' = k then w else dget_or d k' w)"
  by (simp add: dget_or_def)

lemma has_key_dset [simp, dict_simps]: "has_key k' (dset k v d) \<longleftrightarrow> k' = k \<or> has_key k' d"
  by (simp add: has_key_def)

lemma has_key_dpop [simp, dict_simps]: "has_key k' (dpop k d) \<longleftrightarrow> k' \<noteq> k \<and> has_key k' d"
  by (simp add: has_key_def)

lemma dmerge_Nil [simp, dict_simps]: "dmerge d [] = d"
  by (simp add: dmerge_def)

lemma dmerge_Cons [simp, dict_simps]: "dmerge d ((k, v) # e) = dmerge (dset k v d) e"
  by (simp add: dmerge_def)

lemma dget_or_Nil [simp, dict_simps]: "dget_or [] k w = w"
  by (simp add: dget_or_def)

lemma dget_or_Cons [simp, dict_simps]:
  "dget_or ((k, v) # d) k' w = (if k' = k then v else dget_or d k' w)"
  by (simp add: dget_or_def)

end
