(* ===== verification/Python_Strings.thy ===== *)
theory Python_Strings
  imports Runtime_Prelude
begin

text \<open>
  The string and JSON operations of Python's standard library that the runtime uses: \<^verbatim>\<open>str\<close>,
  \<^verbatim>\<open>int\<close>, \<^verbatim>\<open>bool\<close>, \<^verbatim>\<open>len\<close>, \<^verbatim>\<open>split\<close>, \<^verbatim>\<open>join\<close>, \<^verbatim>\<open>strip\<close>, \<^verbatim>\<open>replace\<close>, \<^verbatim>\<open>count\<close>, UTF-8 decoding and
  \<^verbatim>\<open>json.dumps\<close>. Strings are UTF-8 byte sequences (see \<^theory_text>\<open>Runtime_Prelude\<close>).
\<close>

section \<open>Searching and splitting\<close>

fun split_on :: "char \<Rightarrow> string \<Rightarrow> string list" where
  "split_on c [] = [[]]"
| "split_on c (x # xs) =
     (if x = c then [] # split_on c xs
      else (case split_on c xs of [] \<Rightarrow> [[x]] | h # t \<Rightarrow> (x # h) # t))"

fun join :: "string \<Rightarrow> string list \<Rightarrow> string" where
  "join sep [] = []"
| "join sep [x] = x"
| "join sep (x # y # ys) = x @ sep @ join sep (y # ys)"

definition starts_with :: "string \<Rightarrow> string \<Rightarrow> bool" where
  "starts_with p s = (take (length p) s = p)"

definition ends_with :: "string \<Rightarrow> string \<Rightarrow> bool" where
  "ends_with p s = starts_with (rev p) (rev s)"

fun contains_str :: "string \<Rightarrow> string \<Rightarrow> bool" where
  "contains_str p [] = (p = [])"
| "contains_str p (c # s) = (starts_with p (c # s) \<or> contains_str p s)"

text \<open>
  Scanning for non-overlapping occurrences, left to right, as \<^verbatim>\<open>str.count\<close> and \<^verbatim>\<open>str.replace\<close>
  do for a non-empty pattern.
\<close>

function count_str :: "string \<Rightarrow> string \<Rightarrow> nat" where
  "count_str p s =
     (if s = [] \<or> p = [] then 0
      else if starts_with p s then Suc (count_str p (drop (length p) s))
      else count_str p (tl s))"
  by pat_completeness auto
termination
  by (relation "measure (\<lambda>(p, s). length s)") auto

function replace_str :: "string \<Rightarrow> string \<Rightarrow> string \<Rightarrow> string" where
  "replace_str p r s =
     (if s = [] \<or> p = [] then s
      else if starts_with p s then r @ replace_str p r (drop (length p) s)
      else hd s # replace_str p r (tl s))"
  by pat_completeness auto
termination
  by (relation "measure (\<lambda>(p, r, s). length s)") auto

text \<open>\<^verbatim>\<open>s.replace(p, r, 1)\<close>.\<close>

fun replace_first :: "string \<Rightarrow> string \<Rightarrow> string \<Rightarrow> string" where
  "replace_first p r [] = (if p = [] then r else [])"
| "replace_first p r (c # s) =
     (if starts_with p (c # s) then r @ drop (length p) (c # s)
      else c # replace_first p r s)"

declare count_str.simps [simp del] replace_str.simps [simp del]

lemma count_str_Nil [simp]: "count_str p [] = 0"
  by (simp add: count_str.simps)

lemma count_str_Cons:
  "p \<noteq> [] \<Longrightarrow> count_str p (c # s) =
     (if starts_with p (c # s) then Suc (count_str p (drop (length p) (c # s))) else count_str p s)"
  by (subst count_str.simps) simp

lemma split_on_nonempty [simp]: "split_on c s \<noteq> []"
  by (induction s) (auto split: list.splits)

lemma join_split_on: "join [c] (split_on c s) = s"
proof (induction s)
  case Nil
  then show ?case by simp
next
  case (Cons x xs)
  obtain h t where ht: "split_on c xs = h # t"
    by (meson neq_Nil_conv split_on_nonempty)
  with Cons show ?case by (cases t) auto
qed

lemma split_on_no_sep: "p \<in> set (split_on c s) \<Longrightarrow> c \<notin> set p"
proof (induction s arbitrary: p)
  case Nil
  then show ?case by simp
next
  case (Cons x xs)
  obtain h t where ht: "split_on c xs = h # t"
    by (meson neq_Nil_conv split_on_nonempty)
  with Cons show ?case by (auto split: if_splits)
qed

lemma split_on_plain: "c \<notin> set s \<Longrightarrow> split_on c s = [s]"
  by (induction s) auto

lemma split_on_append_sep: "c \<notin> set p \<Longrightarrow> split_on c (p @ c # s) = p # split_on c s"
  by (induction p) auto

lemma split_on_join:
  "ps \<noteq> [] \<Longrightarrow> (\<forall>p \<in> set ps. c \<notin> set p) \<Longrightarrow> split_on c (join [c] ps) = ps"
proof (induction "[c]" ps rule: join.induct)
  case 1
  then show ?case by simp
next
  case (2 x)
  then show ?case by (simp add: split_on_plain)
next
  case (3 x y ys)
  then show ?case by (simp add: split_on_append_sep)
qed

lemma starts_with_iff: "starts_with p s \<longleftrightarrow> (\<exists>t. s = p @ t)"
  unfolding starts_with_def by (metis append_eq_conv_conj append_take_drop_id)

lemma contains_str_iff: "contains_str p s \<longleftrightarrow> (\<exists>u v. s = u @ p @ v)"
proof (induction s)
  case Nil
  then show ?case by auto
next
  case (Cons c s)
  show ?case
    unfolding contains_str.simps Cons.IH starts_with_iff
    by (metis append_Cons append_Nil list.inject neq_Nil_conv)
qed

lemma count_str_zero_iff:
  "p \<noteq> [] \<Longrightarrow> count_str p s = 0 \<longleftrightarrow> \<not> contains_str p s"
proof (induction s)
  case Nil
  then show ?case by simp
next
  case (Cons c s)
  then show ?case by (simp add: count_str_Cons)
qed

lemma replace_first_absent: "\<not> contains_str p s \<Longrightarrow> replace_first p r s = s"
  by (induction s) (auto split: if_splits)

lemma replace_first_present:
  "contains_str p s \<Longrightarrow>
     \<exists>u v. s = u @ p @ v \<and> replace_first p r s = u @ r @ v"
proof (induction s)
  case Nil
  then show ?case by auto
next
  case (Cons c s)
  show ?case
  proof (cases "starts_with p (c # s)")
    case True
    then obtain t where t: "c # s = p @ t"
      by (auto simp: starts_with_iff)
    then have "drop (length p) (c # s) = t"
      by (metis append_eq_conv_conj)
    with True have "replace_first p r (c # s) = r @ t" by simp
    with t show ?thesis by (metis append_Nil)
  next
    case False
    with Cons.prems have "contains_str p s" by simp
    with Cons.IH obtain u v where "s = u @ p @ v" "replace_first p r s = u @ r @ v"
      by blast
    with False show ?thesis
      by (intro exI [of _ "c # u"] exI [of _ v]) simp
  qed
qed

section \<open>White space and case\<close>

definition is_space :: "char \<Rightarrow> bool" where
  "is_space c = (let n = (of_char c :: nat) in (9 \<le> n \<and> n \<le> 13) \<or> (28 \<le> n \<and> n \<le> 32))"

definition strip :: "string \<Rightarrow> string" where
  "strip s = rev (dropWhile is_space (rev (dropWhile is_space s)))"

definition rstrip :: "string \<Rightarrow> string" where
  "rstrip s = rev (dropWhile is_space (rev s))"

definition lower_char :: "char \<Rightarrow> char" where
  "lower_char c = (let n = (of_char c :: nat) in
     if 65 \<le> n \<and> n \<le> 90 then char_of (n + 32) else c)"

definition lower :: "string \<Rightarrow> string" where
  "lower s = map lower_char s"

text \<open>\<^verbatim>\<open>s.split()\<close>: maximal runs of non-space characters.\<close>

fun split_ws_aux :: "string \<Rightarrow> string \<Rightarrow> string list" where
  "split_ws_aux acc [] = (if acc = [] then [] else [rev acc])"
| "split_ws_aux acc (c # s) =
     (if is_space c then (if acc = [] then split_ws_aux [] s else rev acc # split_ws_aux [] s)
      else split_ws_aux (c # acc) s)"

definition split_ws :: "string \<Rightarrow> string list" where
  "split_ws s = split_ws_aux [] s"

section \<open>UTF-8\<close>

abbreviation byte_of :: "char \<Rightarrow> nat" where
  "byte_of c \<equiv> of_char c"

definition is_cont :: "char \<Rightarrow> bool" where
  "is_cont c = (128 \<le> byte_of c \<and> byte_of c < 192)"

text \<open>\<^verbatim>\<open>len(s)\<close>: the bytes that start a code point.\<close>

definition py_len :: "string \<Rightarrow> nat" where
  "py_len s = length (filter (\<lambda>c. \<not> is_cont c) s)"

text \<open>\<^verbatim>\<open>s[:n]\<close> for \<^verbatim>\<open>n >= 0\<close>.\<close>

fun py_take :: "nat \<Rightarrow> string \<Rightarrow> string" where
  "py_take n [] = []"
| "py_take n (c # s) =
     (if is_cont c then c # py_take n s
      else (case n of 0 \<Rightarrow> [] | Suc m \<Rightarrow> c # py_take m s))"

text \<open>
  The length of the well-formed UTF-8 sequence at the head of a byte string, 0 if there is none
  (no overlong form, no surrogate, nothing past U+10FFFF).
\<close>

fun utf8_head :: "char list \<Rightarrow> nat" where
  "utf8_head [] = 0"
| "utf8_head (a # s) =
     (let n = byte_of a in
      if n < 128 then 1
      else if 194 \<le> n \<and> n < 224 then
        (case s of b # _ \<Rightarrow> if is_cont b then 2 else 0 | _ \<Rightarrow> 0)
      else if 224 \<le> n \<and> n < 240 then
        (case s of b # c # _ \<Rightarrow>
           if is_cont b \<and> is_cont c \<and> (n = 224 \<longrightarrow> 160 \<le> byte_of b) \<and> (n = 237 \<longrightarrow> byte_of b < 160)
           then 3 else 0 | _ \<Rightarrow> 0)
      else if 240 \<le> n \<and> n < 245 then
        (case s of b # c # d # _ \<Rightarrow>
           if is_cont b \<and> is_cont c \<and> is_cont d \<and> (n = 240 \<longrightarrow> 144 \<le> byte_of b)
              \<and> (n = 244 \<longrightarrow> byte_of b < 144)
           then 4 else 0 | _ \<Rightarrow> 0)
      else 0)"

function utf8_valid :: "char list \<Rightarrow> bool" where
  "utf8_valid s =
     (if s = [] then True
      else if utf8_head s = 0 then False else utf8_valid (drop (utf8_head s) s))"
  by pat_completeness auto
termination
  by (relation "measure length") (simp_all, linarith?)

text \<open>\<^verbatim>\<open>b.decode("utf-8")\<close> and \<^verbatim>\<open>b.decode("utf-8", "ignore")\<close>.\<close>

definition utf8_decode :: "char list \<Rightarrow> string res" where
  "utf8_decode s = (if utf8_valid s then Inr s else Inl (Exn UnicodeDecodeError ''utf-8''))"

function utf8_ignore :: "char list \<Rightarrow> string" where
  "utf8_ignore s =
     (if s = [] then []
      else if utf8_head s = 0 then utf8_ignore (tl s)
      else take (utf8_head s) s @ utf8_ignore (drop (utf8_head s) s))"
  by pat_completeness auto
termination
  by (relation "measure length") auto

declare utf8_valid.simps [simp del] utf8_ignore.simps [simp del]

lemma utf8_empty [simp]: "utf8_valid []" "utf8_ignore [] = []"
  by (simp_all add: utf8_valid.simps utf8_ignore.simps)

lemma utf8_head_le: "utf8_head s \<le> length s"
  by (cases s) (auto simp: Let_def split: list.splits)

lemma utf8_ignore_valid: "utf8_valid s \<Longrightarrow> utf8_ignore s = s"
proof (induction s rule: utf8_valid.induct)
  case (1 s)
  then show ?case
    by (cases "s = []") (auto simp: utf8_valid.simps [of s] utf8_ignore.simps [of s] split: if_splits)
qed

lemma length_utf8_ignore: "length (utf8_ignore s) \<le> length s"
proof (induction s rule: utf8_ignore.induct)
  case (1 s)
  then show ?case
    using utf8_head_le [of s]
    by (cases "s = []") (auto simp: utf8_ignore.simps [of s])
qed

end
