(* ===== verification/Session_Store.thy ===== *)
theory Session_Store
  imports Python_Json
begin

text \<open>
  \<^verbatim>\<open>codeagent/session/store.py\<close>, \<^verbatim>\<open>session/events.py\<close> and the data of \<^verbatim>\<open>workspace/workspace.py\<close>: the
  append-only event log of a session with its metadata file, the identities it assigns to
  events, the critical section for derived events, and the workspace-state operations. The two
  files (\<^verbatim>\<open>session.json\<close>, \<^verbatim>\<open>events.jsonl\<close>) are the two fields of a record; the clock is an argument.
\<close>

section \<open>Data\<close>

record session_event =
  ev_seq :: "int option"
  ev_turn :: "string option"
  ev_step :: "string option"
  ev_ts :: string
  ev_type :: string
  ev_payload :: dict

datatype session_workspace_state =
    SourceOnly | PreparingWorkspace | ChangesActive | WorkspaceTainted
  | Accepting | Discarding | RecoveryRequired

fun ws_value :: "session_workspace_state \<Rightarrow> string" where
  "ws_value SourceOnly = ''source_only''"
| "ws_value PreparingWorkspace = ''preparing_workspace''"
| "ws_value ChangesActive = ''changes_active''"
| "ws_value WorkspaceTainted = ''workspace_tainted''"
| "ws_value Accepting = ''accepting''"
| "ws_value Discarding = ''discarding''"
| "ws_value RecoveryRequired = ''recovery_required''"

definition all_ws :: "session_workspace_state list" where
  "all_ws = [SourceOnly, PreparingWorkspace, ChangesActive, WorkspaceTainted, Accepting,
             Discarding, RecoveryRequired]"

text \<open>\<^verbatim>\<open>SessionWorkspaceState(value)\<close>, with \<^verbatim>\<open>ValueError\<close> as \<^const>\<open>None\<close>.\<close>

definition parse_ws :: "json \<Rightarrow> session_workspace_state option" where
  "parse_ws v = find (\<lambda>s. v = JStr (ws_value s)) all_ws"

record workspace_context =
  source_root :: string
  active_root :: string
  workspace_kind :: string
  base_commit :: "string option"
  workspace_revision :: int

definition source_context :: "string \<Rightarrow> workspace_context" where
  "source_context root = \<lparr>source_root = root, active_root = root, workspace_kind = ''source'',
     base_commit = None, workspace_revision = 0\<rparr>"

definition to_metadata :: "workspace_context \<Rightarrow> dict" where
  "to_metadata c = [
     (''source_workspace'', JStr (source_root c)),
     (''active_workspace'', JStr (active_root c)),
     (''workspace_kind'', JStr (workspace_kind c)),
     (''base_commit'', opt_str (base_commit c)),
     (''workspace_revision'', JInt (workspace_revision c))]"

text \<open>
  \<open>canon\<close> is \<^verbatim>\<open>Path(x).expanduser().resolve()\<close> as text. A non-string in a string field is
  the \<^verbatim>\<open>TypeError\<close> of \<^verbatim>\<open>Path\<close>.
\<close>

definition from_metadata :: "(string \<Rightarrow> string) \<Rightarrow> dict \<Rightarrow> workspace_context res" where
  "from_metadata canon meta =
     (let source = jor (dget meta ''source_workspace'') (dget meta ''workspace'');
          active = jor (dget meta ''active_workspace'') source;
          kind = dget_or meta ''workspace_kind'' (JStr ''source'');
          base = dget meta ''base_commit''
      in if \<not> truthy source then Inl (Exn ValueError ''missing source workspace'')
         else rbind (py_int (dget_or meta ''workspace_revision'' (JInt 0))) (\<lambda>rev.
           case (source, active, kind) of
             (JStr s, JStr a, JStr k) \<Rightarrow>
               if k \<in> {''source'', ''git_worktree''} then
                 Inr \<lparr>source_root = canon s, active_root = canon a, workspace_kind = k,
                      base_commit = as_str base, workspace_revision = rev\<rparr>
               else Inl (Exn ValueError ''unsupported workspace kind'')
           | _ \<Rightarrow> Inl (Exn TypeError ''path'')))"

record store =
  st_root :: string
  st_session :: string
  st_meta :: dict
  st_events :: "session_event list"

section \<open>Reading\<close>

type_synonym 'a store_prog = "(store, 'a) prog"

definition check_meta :: "dict \<Rightarrow> dict res" where
  "check_meta meta =
     (if dget meta ''schema_version'' \<in> {JInt 2, JInt 3} then Inr meta
      else Inl (Exn SessionStoreError ''unsupported session schema''))"

definition read_meta :: "dict store_prog" where
  "read_meta = (\<lambda>st. (check_meta (st_meta st), st))"

definition read_events :: "session_event list store_prog" where
  "read_events = gets st_events"

definition write_state :: "dict \<Rightarrow> unit store_prog" where
  "write_state meta = modify (\<lambda>st. st\<lparr>st_meta := meta\<rparr>)"

definition workspace_state :: "session_workspace_state store_prog" where
  "workspace_state = bnd read_meta (\<lambda>meta.
     case parse_ws (dget meta ''workspace_state'') of
       None \<Rightarrow> raise (Exn SessionStoreError ''workspace_state'')
     | Some s \<Rightarrow> ret s)"

definition read_workspace_context :: "(string \<Rightarrow> string) \<Rightarrow> workspace_context store_prog" where
  "read_workspace_context canon = bnd read_meta (\<lambda>meta. lift (from_metadata canon meta))"

text \<open>\<^verbatim>\<open>event.seq or index\<close> for the events of a list, counted from 1.\<close>

definition seq_or :: "int \<Rightarrow> session_event \<Rightarrow> int" where
  "seq_or line e = (case ev_seq e of None \<Rightarrow> line | Some s \<Rightarrow> if s = 0 then line else s)"

fun norm_from :: "int \<Rightarrow> session_event list \<Rightarrow> (int \<times> session_event) list" where
  "norm_from line [] = []"
| "norm_from line (e # es) = (seq_or line e, e) # norm_from (line + 1) es"

definition normalized :: "session_event list \<Rightarrow> (int \<times> session_event) list" where
  "normalized es = norm_from 1 es"

definition max_default :: "int \<Rightarrow> int list \<Rightarrow> int" where
  "max_default d xs = (case xs of [] \<Rightarrow> d | x # r \<Rightarrow> fold max r x)"

definition max_event_seq :: "session_event list \<Rightarrow> int" where
  "max_event_seq es = max_default 0 (map fst (normalized es))"

section \<open>Appending\<close>

definition model_step_types :: "string list" where
  "model_step_types = [''assistant_tool_calls'', ''assistant_message'', ''model_protocol_error'',
     ''model_output_truncated'']"

definition is_model_step :: "session_event \<Rightarrow> bool" where
  "is_model_step e = (ev_type e \<in> set model_step_types)"

text \<open>A \<^verbatim>\<open>str | None\<close> field of the pydantic model.\<close>

definition opt_str_field :: "json \<Rightarrow> string option res" where
  "opt_str_field v = (case v of JNull \<Rightarrow> Inr None | JStr s \<Rightarrow> Inr (Some s)
     | _ \<Rightarrow> Inl (Exn ValueError ''validation''))"

definition untitled :: string where
  "untitled = ''Untitled session''"

text \<open>
  The title is the message with white space collapsed, the leading character U+8BF7 and any
  following U+4F60 or blanks removed, cut to the limit.
\<close>

function drop_you :: "string \<Rightarrow> string" where
  "drop_you s =
     (if starts_with [CHR 0xE4, CHR 0xBD, CHR 0xA0] s then drop_you (drop 3 s)
      else if starts_with '' '' s then drop_you (drop 1 s) else s)"
  by pat_completeness auto
termination
  by (relation "measure length") (auto simp: starts_with_iff)

declare drop_you.simps [simp del]

definition drop_please :: "string \<Rightarrow> string" where
  "drop_please s = (if starts_with [CHR 0xE8, CHR 0xAF, CHR 0xB7] s then drop_you (drop 3 s) else s)"

definition title_from_message :: "string \<Rightarrow> nat \<Rightarrow> string" where
  "title_from_message message limit =
     (let title = drop_please (join '' '' (split_ws message)) in
      if title = [] then untitled
      else if py_len title \<le> limit then title
      else rstrip (py_take (limit - 3) title) @ ''...'')"

definition next_seq :: "dict \<Rightarrow> session_event list \<Rightarrow> int res" where
  "next_seq meta events =
     (if has_key ''event_seq'' meta
      then rbind (py_int (dget meta ''event_seq'')) (\<lambda>n. Inr (n + 1))
      else Inr (max_event_seq events + 1))"

definition event_turn :: "string \<Rightarrow> int \<Rightarrow> dict \<Rightarrow> json" where
  "event_turn ty seq meta =
     (if ty = ''user_message'' then JStr (''turn-'' @ show_int seq) else dget meta ''current_turn_id'')"

definition event_step :: "string \<Rightarrow> int \<Rightarrow> dict \<Rightarrow> json" where
  "event_step ty seq meta =
     (if ty = ''user_message'' then JNull
      else if ty \<in> set model_step_types then JStr (''step-'' @ show_int seq)
      else dget meta ''current_model_step_id'')"

definition build_event :: "string \<Rightarrow> string \<Rightarrow> dict \<Rightarrow> int \<Rightarrow> json \<Rightarrow> json \<Rightarrow> session_event res" where
  "build_event now ty payload seq turn_v step_v =
     rbind (opt_str_field turn_v) (\<lambda>turn. rbind (opt_str_field step_v) (\<lambda>step.
     Inr \<lparr>ev_seq = Some seq, ev_turn = turn, ev_step = step, ev_ts = now, ev_type = ty,
          ev_payload = payload\<rparr>))"

definition retitle :: "session_event \<Rightarrow> dict \<Rightarrow> dict" where
  "retitle e meta =
     (let title = title_from_message (py_str (dget_or (ev_payload e) ''message'' (JStr []))) 48 in
      if ev_type e = ''user_message'' \<and> dget meta ''title'' = JStr untitled \<and> title \<noteq> untitled
      then dset ''title'' (JStr title) meta else meta)"

definition advance_meta :: "session_event \<Rightarrow> int \<Rightarrow> json \<Rightarrow> json \<Rightarrow> dict \<Rightarrow> dict" where
  "advance_meta e seq turn_v step_v meta =
     dset ''last_active_at'' (JStr (ev_ts e)) (dset ''current_model_step_id'' step_v
       (dset ''current_turn_id'' turn_v (dset ''event_seq'' (JInt seq) (retitle e meta))))"

definition log_events :: "session_event list \<Rightarrow> unit store_prog" where
  "log_events es = modify (\<lambda>st. st\<lparr>st_events := st_events st @ es\<rparr>)"

definition append_event :: "string \<Rightarrow> string \<Rightarrow> dict \<Rightarrow> session_event store_prog" where
  "append_event now event_type payload =
     bnd read_meta (\<lambda>meta. bnd read_events (\<lambda>existing.
     bnd (lift (next_seq meta existing)) (\<lambda>seq.
     let turn_v = event_turn event_type seq meta; step_v = event_step event_type seq meta in
     bnd (lift (build_event now event_type payload seq turn_v step_v)) (\<lambda>event.
     seq_then (log_events [event])
     (seq_then (write_state (advance_meta event seq turn_v step_v meta))
     (ret event))))))"

text \<open>
  \<^verbatim>\<open>append_derived_events\<close>: a batch that advances the sequence only, refused when the log has
  moved past \<open>expected\<close>. The batch carries the clock reading of each event.
\<close>

fun derived_events ::
  "int \<Rightarrow> string option \<Rightarrow> (string \<times> string \<times> dict) list \<Rightarrow> session_event list" where
  "derived_events seq turn [] = []"
| "derived_events seq turn ((now, ty, payload) # rest) =
     \<lparr>ev_seq = Some (seq + 1), ev_turn = turn, ev_step = None, ev_ts = now, ev_type = ty,
      ev_payload = payload\<rparr> # derived_events (seq + 1) turn rest"

definition append_derived_events ::
  "(string \<times> string \<times> dict) list \<Rightarrow> string option \<Rightarrow> int option \<Rightarrow> session_event list store_prog" where
  "append_derived_events batch turn expected =
     (if batch = [] then ret []
      else bnd read_meta (\<lambda>meta. bnd read_events (\<lambda>existing.
        bnd (lift (py_int (dget_or meta ''event_seq'' (JInt 0)))) (\<lambda>current0.
        let current = (if current0 = 0 then max_event_seq existing else current0) in
        if expected \<noteq> None \<and> expected \<noteq> Some current
        then raise (Exn SessionStoreError ''derived event frontier changed'')
        else let appended = derived_events current turn batch in
          seq_then (log_events appended)
          (seq_then (write_state (dset ''last_active_at'' (JStr (ev_ts (last appended)))
             (dset ''event_seq'' (JInt (current + int (length batch))) meta)))
          (ret appended))))))"

section \<open>Creating a session\<close>

definition append_unit :: "string \<Rightarrow> string \<Rightarrow> dict \<Rightarrow> unit store_prog" where
  "append_unit now ty payload = seq_then (append_event now ty payload) (ret ())"

text \<open>
  \<^verbatim>\<open>SessionStore.create\<close>; \<open>session_root\<close> and \<open>key\<close> are the directory texts that
  \<^verbatim>\<open>__init__\<close> computed.
\<close>

definition create_session ::
  "string \<Rightarrow> string \<Rightarrow> string \<Rightarrow> string \<Rightarrow> string \<Rightarrow> string \<Rightarrow> string \<Rightarrow> string option \<Rightarrow> dict \<Rightarrow> dict
     \<Rightarrow> (exn + unit) \<times> store" where
  "create_session now root session session_root key provider model title model_options runtime_options =
     (let title' = (case title of None \<Rightarrow> untitled | Some t \<Rightarrow> if t = [] then untitled else t);
          state = dmerge [
            (''schema_version'', JInt 3),
            (''session_id'', JStr session),
            (''title'', JStr title'),
            (''workspace'', JStr root),
            (''session_root'', JStr session_root),
            (''workspace_key'', JStr key),
            (''created_at'', JStr now),
            (''last_active_at'', JStr now),
            (''provider'', JStr provider),
            (''model'', JStr model),
            (''model_options'', JObj model_options),
            (''runtime_options'', JObj runtime_options),
            (''workspace_state'', JStr (ws_value SourceOnly)),
            (''workspace_state_reason'', JStr []),
            (''candidate_revision'', JInt 0),
            (''accepted_candidate_revision'', JInt 0)] (to_metadata (source_context root));
          st = \<lparr>st_root = root, st_session = session, st_meta = state, st_events = []\<rparr>
      in append_unit now ''session_created''
           [(''session_id'', JStr session), (''title'', JStr title'), (''workspace'', JStr root)] st)"

section \<open>Workspace-state operations\<close>

definition set_state :: "session_workspace_state \<Rightarrow> string \<Rightarrow> dict \<Rightarrow> dict" where
  "set_state s reason meta =
     dset ''workspace_state_reason'' (JStr reason) (dset ''workspace_state'' (JStr (ws_value s)) meta)"

definition begin_workspace_upgrade :: "string \<Rightarrow> int \<Rightarrow> unit store_prog" where
  "begin_workspace_upgrade now revision =
     bnd read_meta (\<lambda>meta.
     if dget meta ''workspace_state'' \<noteq> JStr (ws_value SourceOnly)
     then raise (Exn SessionStoreError ''not source_only'')
     else seq_then (write_state (dset ''workspace_state_reason'' (JStr ''preparing'')
            (dset ''pending_workspace_revision'' (JInt revision)
               (dset ''workspace_state'' (JStr (ws_value PreparingWorkspace)) meta))))
       (append_unit now ''workspace_preparing'' [(''workspace_revision'', JInt revision)]))"

definition activate_workspace :: "string \<Rightarrow> workspace_context \<Rightarrow> unit store_prog" where
  "activate_workspace now ctx =
     bnd (gets st_root) (\<lambda>root.
     if source_root ctx \<noteq> root \<or> workspace_kind ctx \<noteq> ''git_worktree''
     then raise (Exn SessionStoreError ''active workspace identity'')
     else bnd read_meta (\<lambda>meta.
       if dget meta ''workspace_state'' \<noteq> JStr (ws_value PreparingWorkspace)
       then raise (Exn SessionStoreError ''not preparing_workspace'')
       else seq_then (write_state (set_state ChangesActive []
              (dpop ''pending_workspace_revision'' (dmerge meta (to_metadata ctx)))))
         (append_unit now ''workspace_activated''
           [(''workspace_revision'', JInt (workspace_revision ctx)),
            (''base_commit'', opt_str (base_commit ctx)),
            (''active_workspace'', JStr (active_root ctx)),
            (''baseline_workspace'', JStr (source_root ctx))])))"

definition cancel_workspace_upgrade :: "string \<Rightarrow> string \<Rightarrow> unit store_prog" where
  "cancel_workspace_upgrade now reason =
     bnd (gets st_root) (\<lambda>root. bnd read_meta (\<lambda>meta.
     seq_then (write_state (set_state SourceOnly reason
        (dpop ''pending_workspace_revision'' (dmerge meta (to_metadata (source_context root))))))
     (append_unit now ''workspace_upgrade_failed'' [(''reason'', JStr reason)])))"

definition begin_resolution :: "session_workspace_state \<Rightarrow> unit store_prog" where
  "begin_resolution s =
     (if s \<notin> {Accepting, Discarding} then raise (Exn SessionStoreError ''resolution state'')
      else bnd read_meta (\<lambda>meta.
        let allowed = (if s = Discarding then {JStr (ws_value ChangesActive), JStr (ws_value WorkspaceTainted)}
                       else {JStr (ws_value ChangesActive)})
        in if dget meta ''workspace_state'' \<notin> allowed
           then raise (Exn SessionStoreError ''nothing to resolve'')
           else write_state (dset ''workspace_state'' (JStr (ws_value s)) meta)))"

definition finish_resolution :: "string \<Rightarrow> string \<Rightarrow> dict \<Rightarrow> unit store_prog" where
  "finish_resolution now result summary =
     bnd (gets st_root) (\<lambda>root. bnd read_meta (\<lambda>meta.
     bnd (lift (py_int (dget_or meta ''workspace_revision'' (JInt 0)))) (\<lambda>revision.
     seq_then (write_state (set_state SourceOnly []
        (dset ''workspace_revision'' (JInt revision)
          (dmerge meta (to_metadata (source_context root))))))
     (append_unit now (''changes_'' @ result)
        (dmerge [(''workspace_revision'', JInt revision)] summary)))))"

definition next_candidate_revision :: "int store_prog" where
  "next_candidate_revision =
     bnd read_meta (\<lambda>meta.
     bnd (lift (py_int (dget_or meta ''candidate_revision'' (JInt 0)))) (\<lambda>n.
     seq_then (write_state (dset ''candidate_revision'' (JInt (n + 1)) meta)) (ret (n + 1))))"

definition finish_accept ::
  "string \<Rightarrow> workspace_context \<Rightarrow> int \<Rightarrow> string \<Rightarrow> string list \<Rightarrow> string \<Rightarrow> unit store_prog" where
  "finish_accept now ctx candidate_revision patch_sha256 changed_files delivery_id =
     bnd read_meta (\<lambda>meta.
     seq_then (write_state (set_state ChangesActive []
        (dset ''accepted_candidate_revision'' (JInt candidate_revision)
          (dmerge meta (to_metadata ctx)))))
     (append_unit now ''changes_accepted''
       [(''workspace_revision'', JInt (workspace_revision ctx)),
        (''candidate_revision'', JInt candidate_revision),
        (''baseline_commit'', opt_str (base_commit ctx)),
        (''patch_sha256'', JStr patch_sha256),
        (''changed_files'', JArr (map JStr changed_files)),
        (''delivery_id'', JStr delivery_id)]))"

definition finish_discard :: "string \<Rightarrow> int \<Rightarrow> unit store_prog" where
  "finish_discard now candidate_revision =
     bnd read_meta (\<lambda>meta.
     let meta1 = set_state ChangesActive []
           (dset ''accepted_candidate_revision'' (JInt candidate_revision) meta)
     in seq_then (write_state meta1)
        (bnd (lift (py_int (dget_or meta1 ''workspace_revision'' (JInt 0)))) (\<lambda>revision.
         append_unit now ''changes_discarded''
           [(''workspace_revision'', JInt revision),
            (''candidate_revision'', JInt candidate_revision)])))"

definition restore_changes_active :: "string \<Rightarrow> unit store_prog" where
  "restore_changes_active reason =
     bnd read_meta (\<lambda>meta. write_state (set_state ChangesActive reason meta))"

definition mark_workspace_tainted :: "string \<Rightarrow> string \<Rightarrow> string list \<Rightarrow> unit store_prog" where
  "mark_workspace_tainted now reason changed_files =
     bnd read_meta (\<lambda>meta.
     seq_then (write_state (set_state WorkspaceTainted reason meta))
     (append_unit now ''workspace_tainted''
       [(''reason'', JStr reason), (''changed_files'', JArr (map JStr (take 100 changed_files)))]))"

definition mark_recovery_required :: "string \<Rightarrow> string \<Rightarrow> unit store_prog" where
  "mark_recovery_required now reason =
     bnd read_meta (\<lambda>meta.
     seq_then (write_state (set_state RecoveryRequired reason meta))
     (append_unit now ''recovery_required'' [(''reason'', JStr reason)]))"

definition update_workspace_state :: "string \<Rightarrow> string \<Rightarrow> string \<Rightarrow> unit store_prog" where
  "update_workspace_state now s reason =
     (if s = ws_value RecoveryRequired then mark_recovery_required now reason
      else bnd read_meta (\<lambda>meta. write_state
        (dset ''workspace_state_reason'' (JStr reason) (dset ''workspace_state'' (JStr s) meta))))"

end
