(* ===== verification/Session_Log.thy ===== *)
theory Session_Log
  imports Session_Store
begin

text \<open>
  What the session store promises: the log is append-only and numbered 1, 2, 3, ...; an event
  carries the identity of the user turn it belongs to; derived events move neither identity;
  and the store operations never raise on a well-formed session. The promise is the interface
  \<open>event_log\<close>, which the turn budget, the runner and the supervisor rely on.
\<close>

section \<open>Well-formed logs\<close>

definition current_turn :: "session_event list \<Rightarrow> string option" where
  "current_turn es =
     (case find (\<lambda>e. ev_type e = ''user_message'') (rev es) of None \<Rightarrow> None | Some e \<Rightarrow> ev_turn e)"

definition turn_name :: "nat \<Rightarrow> string" where
  "turn_name n = ''turn-'' @ show_int (int n)"

fun numbered_from :: "nat \<Rightarrow> session_event list \<Rightarrow> bool" where
  "numbered_from n [] = True"
| "numbered_from n (e # es) = (ev_seq e = Some (int n) \<and> numbered_from (Suc n) es)"

definition known_turn :: "nat \<Rightarrow> string option \<Rightarrow> bool" where
  "known_turn n t \<longleftrightarrow> (case t of None \<Rightarrow> True | Some x \<Rightarrow> \<exists>k \<le> n. 1 \<le> k \<and> x = turn_name k)"

definition log_inv :: "dict \<Rightarrow> session_event list \<Rightarrow> bool" where
  "log_inv meta es \<longleftrightarrow>
     dget meta ''schema_version'' \<in> {JInt 2, JInt 3}
     \<and> dget meta ''event_seq'' = JInt (int (length es))
     \<and> dget meta ''current_turn_id'' = opt_str (current_turn es)
     \<and> (\<exists>s. dget meta ''current_model_step_id'' = opt_str s)
     \<and> numbered_from 1 es
     \<and> (\<forall>e \<in> set es. known_turn (length es) (ev_turn e))"

definition log_ok :: "store \<Rightarrow> bool" where
  "log_ok st \<longleftrightarrow> log_inv (st_meta st) (st_events st)"

lemma numbered_from_append:
  "numbered_from n (es @ fs) \<longleftrightarrow> numbered_from n es \<and> numbered_from (n + length es) fs"
  by (induction es arbitrary: n) auto

lemma numbered_from_nth: "numbered_from n es \<Longrightarrow> i < length es \<Longrightarrow> ev_seq (es ! i) = Some (int (n + i))"
proof (induction es arbitrary: n i)
  case Nil
  then show ?case by simp
next
  case (Cons e es)
  then show ?case by (cases i) auto
qed

lemma known_turn_mono: "known_turn n t \<Longrightarrow> n \<le> m \<Longrightarrow> known_turn m t"
  by (auto simp: known_turn_def split: option.splits intro: order_trans)

lemma opt_str_field_opt_str [simp]: "opt_str_field (opt_str t) = Inr t"
  by (cases t) (simp_all add: opt_str_field_def)

lemma opt_str_field_simps [simp]:
  "opt_str_field (JStr s) = Inr (Some s)" "opt_str_field JNull = Inr None"
  by (simp_all add: opt_str_field_def)

lemma opt_str_simps [simp]:
  "opt_str t = JStr s \<longleftrightarrow> t = Some s" "opt_str t = JNull \<longleftrightarrow> t = None"
  by (cases t; auto)+

lemma current_turn_append_other:
  "ev_type e \<noteq> ''user_message'' \<Longrightarrow> current_turn (es @ [e]) = current_turn es"
  by (simp add: current_turn_def)

lemma current_turn_append_user:
  "ev_type e = ''user_message'' \<Longrightarrow> current_turn (es @ [e]) = ev_turn e"
  by (simp add: current_turn_def)

lemma turn_name_inject [simp]: "turn_name m = turn_name n \<longleftrightarrow> m = n"
  by (simp add: turn_name_def show_int_def show_nat_inject)

lemma log_inv_has_seq: "log_inv meta es \<Longrightarrow> has_key ''event_seq'' meta"
  by (auto simp: log_inv_def has_key_def dget_or_def split: option.splits)

lemma log_inv_schema: "log_inv meta es \<Longrightarrow> check_meta meta = Inr meta"
  by (simp add: log_inv_def check_meta_def)

lemma read_meta_ok [simp, prog_simps]: "log_ok st \<Longrightarrow> read_meta st = (Inr (st_meta st), st)"
  by (simp add: log_ok_def read_meta_def log_inv_schema)

lemma run_read_events [simp, prog_simps]: "read_events st = (Inr (st_events st), st)"
  by (simp add: read_events_def)

lemma run_write_state [simp, prog_simps]: "write_state meta st = (Inr (), st\<lparr>st_meta := meta\<rparr>)"
  by (simp add: write_state_def)

lemma run_log_events [simp, prog_simps]:
  "log_events es st = (Inr (), st\<lparr>st_events := st_events st @ es\<rparr>)"
  by (simp add: log_events_def)

section \<open>The invariant ignores the other metadata\<close>

definition log_keys :: "string list" where
  "log_keys = [''schema_version'', ''event_seq'', ''current_turn_id'', ''current_model_step_id'']"

lemma log_inv_cong:
  "log_inv meta es \<Longrightarrow> (\<forall>k \<in> set log_keys. map_of meta' k = map_of meta k) \<Longrightarrow> log_inv meta' es"
  by (simp add: log_inv_def log_keys_def dget_or_def)

lemma log_inv_agree:
  "(\<And>k. k \<in> set log_keys \<Longrightarrow> map_of meta' k = map_of meta k) \<Longrightarrow>
     log_inv meta' es \<longleftrightarrow> log_inv meta es"
  by (metis log_inv_cong)

lemma log_inv_dset: "k \<notin> set log_keys \<Longrightarrow> log_inv (dset k v meta) es \<longleftrightarrow> log_inv meta es"
  by (rule log_inv_agree) auto

lemma log_inv_dpop: "k \<notin> set log_keys \<Longrightarrow> log_inv (dpop k meta) es \<longleftrightarrow> log_inv meta es"
  by (rule log_inv_agree) auto

lemma log_inv_context: "log_inv (dmerge meta (to_metadata c)) es \<longleftrightarrow> log_inv meta es"
  by (simp add: to_metadata_def log_inv_dset log_keys_def)

lemma log_inv_set_state: "log_inv (set_state s r meta) es \<longleftrightarrow> log_inv meta es"
  by (simp add: set_state_def log_inv_dset log_keys_def)

lemma log_inv_retitle: "log_inv (retitle e meta) es \<longleftrightarrow> log_inv meta es"
  by (simp add: retitle_def log_inv_dset log_keys_def Let_def)

lemmas log_inv_frame = log_inv_context log_inv_set_state log_inv_retitle

section \<open>Appending one event\<close>

definition new_event :: "string \<Rightarrow> string \<Rightarrow> dict \<Rightarrow> store \<Rightarrow> session_event" where
  "new_event now ty payload st =
     (let seq = int (length (st_events st)) + 1 in
      \<lparr>ev_seq = Some seq,
       ev_turn = (if ty = ''user_message'' then Some (''turn-'' @ show_int seq)
                  else current_turn (st_events st)),
       ev_step = as_str (event_step ty seq (st_meta st)),
       ev_ts = now, ev_type = ty, ev_payload = payload\<rparr>)"

definition with_event :: "string \<Rightarrow> string \<Rightarrow> dict \<Rightarrow> store \<Rightarrow> store" where
  "with_event now ty payload st =
     (let e = new_event now ty payload st; seq = int (length (st_events st)) + 1 in
      st\<lparr>st_events := st_events st @ [e],
         st_meta := advance_meta e seq (event_turn ty seq (st_meta st))
                      (event_step ty seq (st_meta st)) (st_meta st)\<rparr>)"

lemma append_event_run:
  assumes "log_ok st"
  shows "append_event now ty payload st = (Inr (new_event now ty payload st), with_event now ty payload st)"
proof -
  have inv: "log_inv (st_meta st) (st_events st)" using assms by (simp add: log_ok_def)
  then obtain s where step: "dget (st_meta st) ''current_model_step_id'' = opt_str s"
    by (auto simp: log_inv_def)
  have seq: "next_seq (st_meta st) (st_events st) = Inr (int (length (st_events st)) + 1)"
    using inv by (simp add: next_seq_def log_inv_has_seq) (simp add: log_inv_def)
  have built: "build_event now ty payload (int (length (st_events st)) + 1)
      (event_turn ty (int (length (st_events st)) + 1) (st_meta st))
      (event_step ty (int (length (st_events st)) + 1) (st_meta st))
    = Inr (new_event now ty payload st)"
    using inv step
    by (cases s) (auto simp: build_event_def event_turn_def event_step_def new_event_def log_inv_def Let_def)
  show ?thesis
    using assms by (simp add: append_event_def seq built with_event_def Let_def)
qed

lemma with_event_simps [simp]:
  "st_events (with_event now ty payload st) = st_events st @ [new_event now ty payload st]"
  "st_root (with_event now ty payload st) = st_root st"
  "st_session (with_event now ty payload st) = st_session st"
  by (simp_all add: with_event_def Let_def)

lemma new_event_simps [simp]:
  "ev_type (new_event now ty payload st) = ty"
  "ev_payload (new_event now ty payload st) = payload"
  "ev_ts (new_event now ty payload st) = now"
  "ev_seq (new_event now ty payload st) = Some (int (length (st_events st)) + 1)"
  by (simp_all add: new_event_def Let_def)

lemma new_event_turn_other [simp]:
  "ty \<noteq> ''user_message'' \<Longrightarrow> ev_turn (new_event now ty payload st) = current_turn (st_events st)"
  by (simp add: new_event_def Let_def)

lemma new_event_turn_user [simp]:
  "ev_turn (new_event now ''user_message'' payload st) = Some (turn_name (Suc (length (st_events st))))"
  by (simp add: new_event_def Let_def turn_name_def add.commute)

lemma find_SomeD: "find P xs = Some x \<Longrightarrow> x \<in> set xs \<and> P x"
  by (induction xs) (auto split: if_splits)

lemma known_turn_current:
  assumes "\<forall>e \<in> set es. known_turn n (ev_turn e)"
  shows "known_turn n (current_turn es)"
proof (cases "find (\<lambda>e. ev_type e = ''user_message'') (rev es)")
  case None
  then show ?thesis by (simp add: current_turn_def known_turn_def)
next
  case (Some e)
  then have "e \<in> set es" using find_SomeD by fastforce
  with Some assms show ?thesis by (simp add: current_turn_def)
qed

lemma with_event_ok:
  assumes "log_ok st"
  shows "log_ok (with_event now ty payload st)"
proof -
  let ?e = "new_event now ty payload st" and ?es = "st_events st" and ?m = "st_meta st"
  let ?seq = "int (length ?es) + 1"
  have inv: "log_inv ?m ?es" using assms by (simp add: log_ok_def)
  then have m: "log_inv (retitle ?e ?m) ?es" by (simp add: log_inv_retitle)
  have "\<forall>e \<in> set (?es @ [?e]). known_turn (Suc (length ?es)) (ev_turn e)"
  proof -
    have "known_turn (Suc (length ?es)) (ev_turn ?e)"
    proof (cases "ty = ''user_message''")
      case True
      then show ?thesis by (auto simp: known_turn_def)
    next
      case False
      have "known_turn (length ?es) (current_turn ?es)"
        using inv by (intro known_turn_current) (simp add: log_inv_def)
      with False show ?thesis by (simp add: known_turn_mono)
    qed
    then show ?thesis
      using inv by (auto simp: log_inv_def intro: known_turn_mono)
  qed
  moreover have "event_turn ty ?seq ?m = opt_str (current_turn (?es @ [?e]))"
    using inv
    by (cases "ty = ''user_message''")
      (auto simp: event_turn_def current_turn_append_user current_turn_append_other log_inv_def
        turn_name_def add.commute)
  moreover have "\<exists>s. event_step ty ?seq ?m = opt_str s"
    using inv by (auto simp: event_step_def log_inv_def intro: exI [of _ None] exI [of _ "Some x" for x])
  ultimately have "log_inv (advance_meta ?e ?seq (event_turn ty ?seq ?m) (event_step ty ?seq ?m) ?m)
      (?es @ [?e])"
    using m inv by (simp add: log_inv_def advance_meta_def numbered_from_append)
  then show ?thesis by (simp add: log_ok_def with_event_def Let_def)
qed

lemma append_unit_run:
  "log_ok st \<Longrightarrow> append_unit now ty payload st = (Inr (), with_event now ty payload st)"
  by (simp add: append_unit_def append_event_run)

section \<open>The interface of the log\<close>

text \<open>A list of events appended one after the other, as a handler does.\<close>

fun append_list ::
  "(string \<Rightarrow> string \<Rightarrow> dict \<Rightarrow> ('s, session_event) prog) \<Rightarrow> (string \<times> string \<times> dict) list
     \<Rightarrow> ('s, unit) prog" where
  "append_list app [] = ret ()"
| "append_list app ((now, ty, payload) # rest) = seq_then (app now ty payload) (append_list app rest)"

locale event_log =
  fixes append :: "string \<Rightarrow> string \<Rightarrow> dict \<Rightarrow> ('s, session_event) prog"
    and log :: "'s \<Rightarrow> session_event list"
    and ok :: "'s \<Rightarrow> bool"
  assumes append_returns:
    "ok s \<Longrightarrow> \<exists>e s'. append now ty payload s = (Inr e, s') \<and> ok s' \<and> log s' = log s @ [e]
       \<and> ev_type e = ty \<and> ev_payload e = payload \<and> ev_seq e = Some (int (length (log s)) + 1)
       \<and> ev_turn e = (if ty = ''user_message'' then Some (turn_name (Suc (length (log s))))
                      else current_turn (log s))"
    and log_turns: "ok s \<Longrightarrow> e \<in> set (log s) \<Longrightarrow> known_turn (length (log s)) (ev_turn e)"
begin

lemma append_preserves: "preserves ok (append now ty payload)"
proof (rule preservesI)
  fix s assume "ok s"
  then obtain e s' where "append now ty payload s = (Inr e, s')" "ok s'"
    using append_returns by blast
  then show "ok (snd (append now ty payload s))" by simp
qed

lemma append_list_returns:
  assumes "ok s"
  shows "\<exists>es s'. append_list append batch s = (Inr (), s') \<and> ok s' \<and> log s' = log s @ es
    \<and> map ev_type es = map (fst \<circ> snd) batch \<and> map ev_payload es = map (snd \<circ> snd) batch"
  using assms
proof (induction batch arbitrary: s)
  case Nil
  then show ?case by simp
next
  case (Cons b batch)
  obtain now ty payload where b: "b = (now, ty, payload)" by (cases b)
  obtain e s1 where e: "append now ty payload s = (Inr e, s1)" "ok s1" "log s1 = log s @ [e]"
      "ev_type e = ty" "ev_payload e = payload"
    using append_returns [OF Cons.prems] by blast
  obtain es s2 where "append_list append batch s1 = (Inr (), s2)" "ok s2" "log s2 = log s1 @ es"
      "map ev_type es = map (fst \<circ> snd) batch" "map ev_payload es = map (snd \<circ> snd) batch"
    using Cons.IH [OF e(2)] by blast
  with b e show ?case by (intro exI [of _ "e # es"] exI [of _ s2]) simp
qed

lemma user_turn_fresh:
  assumes "ok s" and "append now ''user_message'' payload s = (Inr e, s')" and "f \<in> set (log s)"
  shows "ev_turn f \<noteq> ev_turn e"
proof -
  obtain e' where "append now ''user_message'' payload s = (Inr e', s')"
      "ev_turn e' = Some (turn_name (Suc (length (log s))))"
    using append_returns [OF assms(1), of now "''user_message''" payload] assms(2) by auto
  with assms(2) have e: "ev_turn e = Some (turn_name (Suc (length (log s))))" by simp
  have "known_turn (length (log s)) (ev_turn f)" using log_turns assms by blast
  with e show ?thesis by (auto simp: known_turn_def)
qed

lemma other_same_turn:
  assumes "ok s" and "append now ty payload s = (Inr e, s')" and "ty \<noteq> ''user_message''"
  shows "ev_turn e = current_turn (log s) \<and> current_turn (log s') = current_turn (log s)"
proof -
  obtain e' where "append now ty payload s = (Inr e', s')" "log s' = log s @ [e']" "ev_type e' = ty"
      "ev_turn e' = current_turn (log s)"
    using append_returns [OF assms(1), of now ty payload] assms(2,3) by auto
  with assms(2,3) show ?thesis by (auto simp: current_turn_append_other)
qed

end

interpretation session_log: event_log append_event st_events log_ok
proof unfold_locales
  fix s :: store and now ty :: string and payload :: dict
  assume "log_ok s"
  then show "\<exists>e s'. append_event now ty payload s = (Inr e, s') \<and> log_ok s' \<and> st_events s' = st_events s @ [e]
       \<and> ev_type e = ty \<and> ev_payload e = payload \<and> ev_seq e = Some (int (length (st_events s)) + 1)
       \<and> ev_turn e = (if ty = ''user_message'' then Some (turn_name (Suc (length (st_events s))))
                      else current_turn (st_events s))"
    by (simp add: append_event_run with_event_ok)
next
  fix s :: store and e :: session_event
  assume "log_ok s" and "e \<in> set (st_events s)"
  then show "known_turn (length (st_events s)) (ev_turn e)"
    by (simp add: log_ok_def log_inv_def)
qed

section \<open>Derived events\<close>

lemma length_derived_events [simp]: "length (derived_events seq turn batch) = length batch"
  by (induction seq turn batch rule: derived_events.induct) auto

lemma numbered_derived_events:
  "numbered_from (Suc n) (derived_events (int n) turn batch)"
proof (induction "int n" turn batch arbitrary: n rule: derived_events.induct)
  case (1 turn)
  then show ?case by simp
next
  case (2 turn now ty payload rest)
  have "int n + 1 = int (Suc n)" by simp
  with 2 [of "Suc n"] show ?case by (simp add: add.commute)
qed

lemma derived_events_turn: "e \<in> set (derived_events seq turn batch) \<Longrightarrow> ev_turn e = turn \<and> ev_step e = None"
  by (induction seq turn batch rule: derived_events.induct) auto

lemma derived_events_types: "map ev_type (derived_events seq turn batch) = map (fst \<circ> snd) batch"
  by (induction seq turn batch rule: derived_events.induct) auto

lemma current_turn_append_others:
  "''user_message'' \<notin> set (map ev_type fs) \<Longrightarrow> current_turn (es @ fs) = current_turn es"
proof (induction fs rule: rev_induct)
  case Nil
  then show ?case by simp
next
  case (snoc f fs)
  then have "ev_type f \<noteq> ''user_message''" by auto
  with snoc show ?case
    using current_turn_append_other [of f "es @ fs"] by (simp del: append_assoc add: append_assoc [symmetric])
qed

lemma max_event_seq_numbered: "numbered_from 1 es \<Longrightarrow> max_event_seq es = int (length es)"
proof -
  have n: "numbered_from (Suc k) es \<Longrightarrow>
      map fst (norm_from line es) = map int [Suc k..<Suc k + length es]" for k line
  proof (induction es arbitrary: k line)
    case Nil
    then show ?case by simp
  next
    case (Cons e es)
    from Cons.IH [of "Suc k" "line + 1"] Cons.prems
    show ?case by (simp add: seq_or_def upt_conv_Cons del: upt_Suc)
  qed
  have m: "fold max (map int [Suc k..<Suc k + j]) (int i) = int (if j = 0 then i else max i (k + j))" for i j k
    by (induction j) auto
  assume "numbered_from 1 es"
  with n [of 0] have "max_event_seq es = max_default 0 (map int [1..<Suc (length es)])"
    by (simp add: max_event_seq_def normalized_def)
  also have "\<dots> = int (length es)"
  proof (cases "length es")
    case 0
    then show ?thesis by (simp add: max_default_def)
  next
    case (Suc j)
    then have "[1..<Suc (length es)] = 1 # [Suc 1..<Suc 1 + j]"
      by (simp add: upt_conv_Cons del: upt_Suc)
    then show ?thesis using m [of 1 j 1] Suc by (simp add: max_default_def)
  qed
  finally show ?thesis .
qed

lemma append_derived_run:
  assumes "log_ok st" and "batch \<noteq> []"
  shows "append_derived_events batch turn expected st =
    (if expected \<noteq> None \<and> expected \<noteq> Some (int (length (st_events st)))
     then (Inl (Exn SessionStoreError ''derived event frontier changed''), st)
     else let es = derived_events (int (length (st_events st))) turn batch in
       (Inr es, st\<lparr>st_events := st_events st @ es,
          st_meta := dset ''last_active_at'' (JStr (ev_ts (last es)))
            (dset ''event_seq'' (JInt (int (length (st_events st) + length batch))) (st_meta st))\<rparr>))"
proof -
  have inv: "log_inv (st_meta st) (st_events st)" using assms by (simp add: log_ok_def)
  have seq: "py_int (dget_or (st_meta st) ''event_seq'' (JInt 0)) = Inr (int (length (st_events st)))"
    using inv log_inv_has_seq [OF inv]
    by (auto simp: log_inv_def has_key_def dget_or_def split: option.splits)
  have "max_event_seq (st_events st) = int (length (st_events st))"
    using inv by (intro max_event_seq_numbered) (simp add: log_inv_def)
  with assms seq show ?thesis
    by (auto simp: append_derived_events_def Let_def)
qed

end
