(* ===== verification/Session_Machine.thy ===== *)
theory Session_Machine
  imports Session_Log
begin

text \<open>
  The session store as a state machine: every method that changes a session is an operation, a
  session is reachable when it comes from \<^const>\<open>create_session\<close> by operations, each of which may
  return or raise, and the well-formedness of the log is an invariant of reachable sessions.
\<close>

section \<open>Operations\<close>

datatype store_op =
    Append string string dict
  | AppendDerived "(string \<times> string \<times> dict) list" "string option" "int option"
  | BeginUpgrade string int
  | Activate string workspace_context
  | CancelUpgrade string string
  | BeginResolution session_workspace_state
  | FinishResolution string string dict
  | NextRevision
  | FinishAccept string workspace_context int string "string list" string
  | FinishDiscard string int
  | RestoreActive string
  | MarkTainted string string "string list"
  | MarkRecovery string string
  | UpdateState string string string

definition unit_of :: "'a store_prog \<Rightarrow> unit store_prog" where
  "unit_of m = seq_then m (ret ())"

fun run_op :: "store_op \<Rightarrow> unit store_prog" where
  "run_op (Append now ty payload) = unit_of (append_event now ty payload)"
| "run_op (AppendDerived batch turn expected) = unit_of (append_derived_events batch turn expected)"
| "run_op (BeginUpgrade now revn) = begin_workspace_upgrade now revn"
| "run_op (Activate now ctx) = activate_workspace now ctx"
| "run_op (CancelUpgrade now reason) = cancel_workspace_upgrade now reason"
| "run_op (BeginResolution s) = begin_resolution s"
| "run_op (FinishResolution now result summary) = finish_resolution now result summary"
| "run_op NextRevision = unit_of next_candidate_revision"
| "run_op (FinishAccept now ctx revn sha files delivery) = finish_accept now ctx revn sha files delivery"
| "run_op (FinishDiscard now revn) = finish_discard now revn"
| "run_op (RestoreActive reason) = restore_changes_active reason"
| "run_op (MarkTainted now reason files) = mark_workspace_tainted now reason files"
| "run_op (MarkRecovery now reason) = mark_recovery_required now reason"
| "run_op (UpdateState now s reason) = update_workspace_state now s reason"

text \<open>
  The callers of \<^const>\<open>append_derived_events\<close> pass usage and condensation events, tagged with the
  turn of an event of the log.
\<close>

definition proper_op :: "store \<Rightarrow> store_op \<Rightarrow> bool" where
  "proper_op st p = (case p of
     AppendDerived batch turn expected \<Rightarrow>
       ''user_message'' \<notin> set (map (fst \<circ> snd) batch)
       \<and> (turn = None \<or> turn \<in> set (map ev_turn (st_events st)))
   | _ \<Rightarrow> True)"

inductive session_reachable :: "store \<Rightarrow> bool" where
  created: "create_session now root session sroot key provider model title mopts ropts = (Inr (), st)
     \<Longrightarrow> session_reachable st"
| operation: "session_reachable st \<Longrightarrow> proper_op st p \<Longrightarrow> run_op p st = (r, st')
     \<Longrightarrow> session_reachable st'"

section \<open>Every operation keeps the log\<close>

definition grows :: "session_event list \<Rightarrow> store \<Rightarrow> bool" where
  "grows es st \<longleftrightarrow> log_ok st \<and> prefix es (st_events st)"

lemma grows_ok [dest, simp]: "grows es st \<Longrightarrow> log_ok st"
  by (simp add: grows_def)

lemma grows_with_event: "grows es st \<Longrightarrow> grows es (with_event now ty payload st)"
  by (auto simp: grows_def with_event_ok prefix_def)

lemma grows_meta:
  "grows es st \<Longrightarrow> log_inv meta (st_events st) \<Longrightarrow> grows es (st\<lparr>st_meta := meta\<rparr>)"
  by (simp add: grows_def log_ok_def)

lemma grows_append: "preserves (grows es) (append_event now ty payload)"
  by (rule preservesI) (simp add: append_event_run grows_with_event)

lemma grows_append_unit: "preserves (grows es) (append_unit now ty payload)"
  by (rule preservesI) (simp add: append_unit_run grows_with_event)

lemma log_inv_state: "grows es st \<Longrightarrow> log_inv (st_meta st) (st_events st)"
  by (simp add: grows_def log_ok_def)

lemmas meta_frame = log_inv_frame log_inv_dset log_inv_dpop log_keys_def

lemma preserves_app: "preserves P m \<Longrightarrow> P s \<Longrightarrow> P (snd (m s))"
  by (simp add: preserves_def)

lemmas grows_intros = preserves_app [OF grows_append_unit] grows_meta

lemma grows_lift_then:
  "(\<And>x. r = Inr x \<Longrightarrow> grows es (snd (f x st))) \<Longrightarrow> grows es st \<Longrightarrow> grows es (snd (bnd (lift r) f st))"
  by (cases r) (simp_all add: bnd_def)

lemma grows_begin_upgrade: "preserves (grows es) (begin_workspace_upgrade now revn)"
  by (rule preservesI)
    (auto simp: begin_workspace_upgrade_def meta_frame log_inv_state
      intro!: grows_intros)

lemma grows_activate: "preserves (grows es) (activate_workspace now ctx)"
  by (rule preservesI)
    (auto simp: activate_workspace_def meta_frame log_inv_state
      intro!: grows_intros)

lemma grows_cancel_upgrade: "preserves (grows es) (cancel_workspace_upgrade now reason)"
  by (rule preservesI)
    (auto simp: cancel_workspace_upgrade_def meta_frame log_inv_state
      intro!: grows_intros)

lemma grows_begin_resolution: "preserves (grows es) (begin_resolution s)"
  by (rule preservesI)
    (auto simp: begin_resolution_def meta_frame log_inv_state Let_def intro!: grows_meta)

lemma grows_finish_resolution: "preserves (grows es) (finish_resolution now result summary)"
  by (rule preservesI)
    (auto simp: finish_resolution_def meta_frame log_inv_state 
      intro!: grows_intros grows_lift_then)

lemma grows_next_revision: "preserves (grows es) next_candidate_revision"
  by (rule preservesI)
    (auto simp: next_candidate_revision_def meta_frame log_inv_state
      intro!: grows_lift_then grows_intros)

lemma grows_finish_accept: "preserves (grows es) (finish_accept now ctx revn sha files delivery)"
  by (rule preservesI)
    (auto simp: finish_accept_def meta_frame log_inv_state intro!: grows_intros)

lemma grows_finish_discard: "preserves (grows es) (finish_discard now revn)"
  by (rule preservesI)
    (auto simp: finish_discard_def meta_frame log_inv_state Let_def
      intro!: grows_intros grows_lift_then)

lemma grows_restore: "preserves (grows es) (restore_changes_active reason)"
  by (rule preservesI)
    (auto simp: restore_changes_active_def meta_frame log_inv_state intro!: grows_meta)

lemma grows_tainted: "preserves (grows es) (mark_workspace_tainted now reason files)"
  by (rule preservesI)
    (auto simp: mark_workspace_tainted_def meta_frame log_inv_state
      intro!: grows_intros)

lemma grows_recovery: "preserves (grows es) (mark_recovery_required now reason)"
  by (rule preservesI)
    (auto simp: mark_recovery_required_def meta_frame log_inv_state
      intro!: grows_intros)

lemma grows_update_state: "preserves (grows es) (update_workspace_state now s reason)"
  unfolding update_workspace_state_def
  by (intro preserves_if grows_recovery preservesI)
    (auto simp: meta_frame log_inv_state intro!: grows_meta)

lemma log_ok_derived:
  assumes "log_ok st" and "''user_message'' \<notin> set (map (fst \<circ> snd) batch)"
    and "known_turn (length (st_events st)) turn" and "es = derived_events (int (length (st_events st))) turn batch"
  shows "log_ok (st\<lparr>st_events := st_events st @ es,
     st_meta := dset ''last_active_at'' v (dset ''event_seq'' (JInt (int (length (st_events st)) + int (length batch))) (st_meta st))\<rparr>)"
proof -
  let ?n = "length (st_events st)"
  have "numbered_from (Suc ?n) es" using assms(4) numbered_derived_events by simp
  moreover have "current_turn (st_events st @ es) = current_turn (st_events st)"
    using assms(2,4) by (intro current_turn_append_others) (simp add: derived_events_types)
  moreover have "\<forall>e \<in> set es. known_turn (?n + length batch) (ev_turn e)"
    using assms(3,4) by (auto dest: derived_events_turn intro: known_turn_mono)
  moreover have "\<forall>e \<in> set (st_events st). known_turn (?n + length batch) (ev_turn e)"
    using assms(1) by (auto simp: log_ok_def log_inv_def intro: known_turn_mono)
  ultimately show ?thesis
    using assms(1,4) by (auto simp: log_ok_def log_inv_def numbered_from_append)
qed

lemma grows_derived:
  assumes "grows es st" and "proper_op st (AppendDerived batch turn expected)"
  shows "grows es (snd (append_derived_events batch turn expected st))"
proof (cases "batch = []")
  case True
  with assms show ?thesis by (simp add: append_derived_events_def)
next
  case False
  have "known_turn (length (st_events st)) turn"
    using assms by (auto simp: proper_op_def known_turn_def grows_def log_ok_def log_inv_def)
  moreover have "log_ok st" using assms by simp
  moreover have "''user_message'' \<notin> set (map (fst \<circ> snd) batch)"
    using assms by (simp add: proper_op_def)
  ultimately have "log_ok (snd (append_derived_events batch turn expected st))"
    using False by (simp add: append_derived_run Let_def log_ok_derived)
  moreover have "prefix es (st_events (snd (append_derived_events batch turn expected st)))"
    using assms False by (auto simp: append_derived_run Let_def grows_def prefix_def)
  ultimately show ?thesis by (simp add: grows_def)
qed

lemma grows_unit_of: "preserves P m \<Longrightarrow> preserves P (unit_of m)"
  by (simp add: unit_of_def preserves_intros)

lemma snd_unit_of [simp]: "snd (unit_of m st) = snd (m st)"
  by (auto simp: unit_of_def seq_then_def bnd_def split: prod.splits sum.splits)

lemmas grows_ops = grows_append grows_begin_upgrade grows_activate grows_cancel_upgrade
  grows_begin_resolution grows_finish_resolution grows_next_revision grows_finish_accept
  grows_finish_discard grows_restore grows_tainted grows_recovery grows_update_state

lemma grows_run_op:
  assumes "grows es st" and "proper_op st p"
  shows "grows es (snd (run_op p st))"
  using assms grows_derived
  by (cases p) (auto simp: preserves_def [THEN iffD1, OF grows_ops(1), rule_format]
    intro: grows_ops [unfolded preserves_def, rule_format])

section \<open>Reachable sessions\<close>

lemma create_session_ok:
  assumes "create_session now root session sroot key provider model title mopts ropts = (Inr (), st)"
  shows "log_ok st"
proof -
  have "show_int 1 = ''1''" by code_simp
  with assms show ?thesis
    by (auto simp: create_session_def Let_def to_metadata_def source_context_def append_unit_def
        append_event_def read_meta_def check_meta_def next_seq_def has_key_def max_event_seq_def
        normalized_def max_default_def event_turn_def event_step_def build_event_def
        model_step_types_def advance_meta_def retitle_def log_ok_def log_inv_def current_turn_def
        known_turn_def intro: exI [of _ None])
qed

lemma session_reachable_ok: "session_reachable st \<Longrightarrow> log_ok st"
proof (induction rule: session_reachable.induct)
  case (created now root session sroot key provider model title mopts ropts st)
  then show ?case by (rule create_session_ok)
next
  case (operation st p r st')
  then have "grows [] (snd (run_op p st))" by (intro grows_run_op) (simp_all add: grows_def)
  with operation show ?case by simp
qed

section \<open>Properties\<close>

text \<open>
  C2. In every session reachable from its creation by store operations, whether they return or
  raise, the log is numbered 1, 2, 3, ... without a gap, the metadata holds the last number, and
  a further operation only extends the log.
\<close>

theorem session_log_append_only:
  assumes "session_reachable st" and "proper_op st p" and "run_op p st = (r, st')"
  shows "prefix (st_events st) (st_events st')
    \<and> (\<forall>i < length (st_events st'). ev_seq (st_events st' ! i) = Some (int i + 1))
    \<and> dget (st_meta st') ''event_seq'' = JInt (int (length (st_events st')))"
proof -
  have "grows (st_events st) st" using assms(1) by (simp add: grows_def session_reachable_ok)
  then have "grows (st_events st) st'" using assms(2,3) grows_run_op by fastforce
  then have "prefix (st_events st) (st_events st')" and inv: "log_inv (st_meta st') (st_events st')"
    by (simp_all add: grows_def log_ok_def)
  moreover from inv have "\<forall>i < length (st_events st'). ev_seq (st_events st' ! i) = Some (int i + 1)"
    by (auto simp: log_inv_def dest: numbered_from_nth [of "Suc 0"])
  ultimately show ?thesis by (simp add: log_inv_def)
qed

definition demo_created :: "(exn + unit) \<times> store" where
  "demo_created = create_session ''t0'' ''/ws'' ''s1'' ''/home/s'' ''ws-1'' ''fake'' ''fake'' None [] []"

definition demo_session :: store where
  "demo_session = snd demo_created"

lemma demo_session_reachable: "session_reachable demo_session"
proof (rule session_reachable.created)
  show "create_session ''t0'' ''/ws'' ''s1'' ''/home/s'' ''ws-1'' ''fake'' ''fake'' None [] [] = (Inr (), demo_session)"
    unfolding demo_session_def demo_created_def by code_simp
qed

definition demo_turn :: "(exn + session_event) \<times> store" where
  "demo_turn = append_event ''t1'' ''user_message'' [(''message'', JStr ''fix it'')] demo_session"

theorem session_log_append_only_witness:
  "prefix (st_events demo_session) (st_events (snd demo_turn)) \<and> length (st_events (snd demo_turn)) = 2"
proof -
  have "run_op (Append ''t1'' ''user_message'' [(''message'', JStr ''fix it'')]) demo_session = (Inr (), snd demo_turn)"
    unfolding demo_turn_def demo_session_def demo_created_def by code_simp
  from session_log_append_only [OF demo_session_reachable _ this]
  have "prefix (st_events demo_session) (st_events (snd demo_turn))"
    by (simp add: proper_op_def)
  moreover have "length (st_events (snd demo_turn)) = 2"
    unfolding demo_turn_def demo_session_def demo_created_def by code_simp
  ultimately show ?thesis by blast
qed

text \<open>
  A user message opens a turn whose identity no earlier event carries, and every event the
  runtime appends after it (other than a further user message) is attributed to that turn.
\<close>

theorem user_message_opens_fresh_turn:
  assumes "session_reachable st"
    and "append_event now ''user_message'' payload st = (Inr e, st')"
    and "append_event now' ty payload' st' = (Inr f, st'')" and "ty \<noteq> ''user_message''"
  shows "ev_turn e \<noteq> None \<and> ev_turn e \<notin> ev_turn ` set (st_events st)
    \<and> ev_turn f = ev_turn e \<and> current_turn (st_events st'') = ev_turn e"
proof -
  have ok: "log_ok st" using assms(1) by (rule session_reachable_ok)
  have st': "e = new_event now ''user_message'' payload st" "st' = with_event now ''user_message'' payload st"
    using assms(2) ok by (simp_all add: append_event_run)
  then have ok': "log_ok st'" and cur: "current_turn (st_events st') = ev_turn e" "ev_turn e \<noteq> None"
    using ok by (simp_all add: with_event_ok current_turn_append_user)
  have "ev_turn e \<notin> ev_turn ` set (st_events st)"
    using session_log.user_turn_fresh [OF ok assms(2)] by force
  with session_log.other_same_turn [OF ok' assms(3,4)] cur show ?thesis by simp
qed

theorem user_message_opens_fresh_turn_witness:
  "\<exists>e (f :: session_event). fst demo_turn = Inr e \<and> ev_turn e = Some ''turn-2'' \<and> ev_turn f = ev_turn e
     \<and> ev_turn e \<notin> ev_turn ` set (st_events demo_session)"
proof -
  obtain e where e: "append_event ''t1'' ''user_message'' [(''message'', JStr ''fix it'')] demo_session
      = (Inr e, snd demo_turn)" and t: "ev_turn e = Some ''turn-2''"
    and d: "fst demo_turn = Inr e"
  proof
    show "append_event ''t1'' ''user_message'' [(''message'', JStr ''fix it'')] demo_session
      = (Inr (st_events (snd demo_turn) ! 1), snd demo_turn)"
      "ev_turn (st_events (snd demo_turn) ! 1) = Some ''turn-2''"
      "fst demo_turn = Inr (st_events (snd demo_turn) ! 1)"
      unfolding demo_turn_def demo_session_def demo_created_def by code_simp+
  qed
  obtain f s where f: "append_event ''t2'' ''tool_requested'' [] (snd demo_turn) = (Inr f, s)"
  proof
    show "append_event ''t2'' ''tool_requested'' [] (snd demo_turn) =
        (Inr (st_events (snd (append_event ''t2'' ''tool_requested'' [] (snd demo_turn))) ! 2),
         snd (append_event ''t2'' ''tool_requested'' [] (snd demo_turn)))"
      unfolding demo_turn_def demo_session_def demo_created_def by code_simp
  qed
  have "ev_turn f = ev_turn e \<and> ev_turn e \<notin> ev_turn ` set (st_events demo_session)"
    using user_message_opens_fresh_turn [OF demo_session_reachable e f] by auto
  with t d show ?thesis by blast
qed

text \<open>
  C3. Derived events are a compare-and-append: with a stale expected frontier nothing changes and
  \<^verbatim>\<open>SessionStoreError\<close> is raised; otherwise exactly the batch is appended, tagged with the given
  turn and no model step, and neither the current turn nor the current model step moves.
\<close>

theorem derived_events_compare_and_append:
  assumes "session_reachable st" and "batch \<noteq> []"
  shows "let n = int (length (st_events st)); (r, st') = append_derived_events batch turn (Some k) st in
    if k \<noteq> n then r = Inl (Exn SessionStoreError ''derived event frontier changed'') \<and> st' = st
    else (\<exists>es. r = Inr es \<and> st_events st' = st_events st @ es
       \<and> map ev_type es = map (fst \<circ> snd) batch
       \<and> (\<forall>e \<in> set es. ev_turn e = turn \<and> ev_step e = None)
       \<and> dget (st_meta st') ''current_turn_id'' = dget (st_meta st) ''current_turn_id''
       \<and> dget (st_meta st') ''current_model_step_id'' = dget (st_meta st) ''current_model_step_id'')"
  using append_derived_run [OF session_reachable_ok [OF assms(1)] assms(2), of turn "Some k"]
    derived_events_turn [of _ "int (length (st_events st))" turn batch]
  by (auto simp: derived_events_types Let_def)

theorem derived_events_compare_and_append_witness:
  "append_derived_events [(''t1'', ''model_usage'', [])] None (Some 7) demo_session
     = (Inl (Exn SessionStoreError ''derived event frontier changed''), demo_session)
   \<and> length (st_events (snd (append_derived_events [(''t1'', ''model_usage'', [])] None (Some 1) demo_session))) = 2"
proof -
  have n: "length (st_events demo_session) = 1"
    unfolding demo_session_def demo_created_def by code_simp
  have "append_derived_events [(''t1'', ''model_usage'', [])] None (Some 7) demo_session
     = (Inl (Exn SessionStoreError ''derived event frontier changed''), demo_session)"
    using derived_events_compare_and_append [OF demo_session_reachable, of "[(''t1'', ''model_usage'', [])]" None 7] n
    by (auto simp: Let_def split: prod.splits)
  moreover have
    "length (st_events (snd (append_derived_events [(''t1'', ''model_usage'', [])] None (Some 1) demo_session))) = 2"
    unfolding demo_session_def demo_created_def by code_simp
  ultimately show ?thesis by blast
qed

text \<open>
  C3. The guarded workspace transitions: an upgrade begins exactly from \<^verbatim>\<open>source_only\<close>, a worktree
  is activated exactly from \<^verbatim>\<open>preparing_workspace\<close> for this session's source, accepting begins
  exactly from \<^verbatim>\<open>changes_active\<close> and discarding from it or from \<^verbatim>\<open>workspace_tainted\<close>; a refused
  transition raises and leaves the session as it was.
\<close>

definition in_state :: "session_workspace_state \<Rightarrow> store \<Rightarrow> bool" where
  "in_state s st = (dget (st_meta st) ''workspace_state'' = JStr (ws_value s))"

definition guarded_by :: "bool \<Rightarrow> session_workspace_state \<Rightarrow> unit store_prog \<Rightarrow> store \<Rightarrow> bool" where
  "guarded_by b target m st \<longleftrightarrow>
     (if b then \<exists>st'. m st = (Inr (), st') \<and> in_state target st'
      else \<exists>e. m st = (Inl e, st) \<and> exn_class e = SessionStoreError)"

lemma in_state_with_event [simp]: "in_state s (with_event now ty payload st) = in_state s st"
  by (simp add: in_state_def with_event_def Let_def advance_meta_def retitle_def)

lemma in_state_meta [simp]:
  "in_state s (st\<lparr>st_meta := m\<rparr>) \<longleftrightarrow> dget m ''workspace_state'' = JStr (ws_value s)"
  by (simp add: in_state_def)

theorem guarded_transitions:
  assumes "session_reachable st"
  shows "guarded_by (in_state SourceOnly st) PreparingWorkspace (begin_workspace_upgrade now revn) st
    \<and> guarded_by (in_state PreparingWorkspace st \<and> source_root ctx = st_root st
          \<and> workspace_kind ctx = ''git_worktree'') ChangesActive (activate_workspace now ctx) st
    \<and> guarded_by (in_state ChangesActive st) Accepting (begin_resolution Accepting) st
    \<and> guarded_by (in_state ChangesActive st \<or> in_state WorkspaceTainted st) Discarding
          (begin_resolution Discarding) st"
proof -
  have ok: "log_ok st" using assms by (rule session_reachable_ok)
  then have inv: "log_inv (st_meta st) (st_events st)" by (simp add: log_ok_def)
  have upd: "log_inv m (st_events st) \<Longrightarrow> log_ok (st\<lparr>st_meta := m\<rparr>)" for m
    by (simp add: log_ok_def)
  have "guarded_by (in_state SourceOnly st) PreparingWorkspace (begin_workspace_upgrade now revn) st"
    using ok inv
    by (auto simp: guarded_by_def begin_workspace_upgrade_def in_state_def [of _ st]
        append_unit_run upd meta_frame)
  moreover have "guarded_by (in_state PreparingWorkspace st \<and> source_root ctx = st_root st
      \<and> workspace_kind ctx = ''git_worktree'') ChangesActive (activate_workspace now ctx) st"
    using ok inv
    by (auto simp: guarded_by_def activate_workspace_def in_state_def [of _ st] set_state_def
        append_unit_run upd meta_frame)
  moreover have "guarded_by (in_state ChangesActive st) Accepting (begin_resolution Accepting) st"
    using ok by (simp add: guarded_by_def in_state_def [of _ st] begin_resolution_def)
  moreover have "guarded_by (in_state ChangesActive st \<or> in_state WorkspaceTainted st) Discarding
      (begin_resolution Discarding) st"
    using ok by (auto simp: guarded_by_def in_state_def [of _ st] begin_resolution_def)
  ultimately show ?thesis by blast
qed

theorem guarded_transitions_witness:
  "guarded_by True PreparingWorkspace (begin_workspace_upgrade ''t1'' 1) demo_session
   \<and> guarded_by False Accepting (begin_resolution Accepting) demo_session"
proof -
  have "in_state SourceOnly demo_session" "\<not> in_state ChangesActive demo_session"
    unfolding in_state_def demo_session_def demo_created_def by code_simp+
  then show ?thesis
    using guarded_transitions [OF demo_session_reachable, of "''t1''" 1 "source_context []"] by simp
qed

end
