(* ===== verification/Json_Reader.thy ===== *)
theory Json_Reader
  imports Python_Json
begin

text \<open>
  \<^verbatim>\<open>json.loads\<close> as the runtime uses it (event log lines, tool arguments, legacy tool results): a
  reader for JSON texts. A float keeps its text, a repeated key keeps its first place and its
  last value, and an unpaired surrogate escape is encoded as three bytes. \<^const>\<open>None\<close> is
  \<^verbatim>\<open>JSONDecodeError\<close>. The reader inverts \<^const>\<open>dumps\<close>.
\<close>

section \<open>Lexical elements\<close>

definition is_json_ws :: "char \<Rightarrow> bool" where
  "is_json_ws c = (c \<in> {CHR '' '', CHR 0x09, CHR 0x0A, CHR 0x0D})"

definition skip_ws :: "string \<Rightarrow> string" where
  "skip_ws s = dropWhile is_json_ws s"

definition hex_val :: "char \<Rightarrow> nat option" where
  "hex_val c =
     (let b = byte_of c in
      if 48 \<le> b \<and> b < 58 then Some (b - 48)
      else if 97 \<le> b \<and> b < 103 then Some (b - 87)
      else if 65 \<le> b \<and> b < 71 then Some (b - 55) else None)"

definition hex4 :: "string \<Rightarrow> (nat \<times> string) option" where
  "hex4 s = (case s of
     a # b # c # d # r \<Rightarrow>
       (case (hex_val a, hex_val b, hex_val c, hex_val d) of
          (Some a, Some b, Some c, Some d) \<Rightarrow> Some (4096 * a + 256 * b + 16 * c + d, r)
        | _ \<Rightarrow> None)
   | _ \<Rightarrow> None)"

definition utf8_encode :: "nat \<Rightarrow> string" where
  "utf8_encode n =
     (if n < 128 then [char_of n]
      else if n < 2048 then [char_of (192 + n div 64), char_of (128 + n mod 64)]
      else if n < 65536
      then [char_of (224 + n div 4096), char_of (128 + n div 64 mod 64), char_of (128 + n mod 64)]
      else [char_of (240 + n div 262144), char_of (128 + n div 4096 mod 64),
            char_of (128 + n div 64 mod 64), char_of (128 + n mod 64)])"

definition scan_unicode :: "string \<Rightarrow> (string \<times> string) option" where
  "scan_unicode s = (case hex4 s of
     None \<Rightarrow> None
   | Some (u, r) \<Rightarrow>
       if 0xD800 \<le> u \<and> u < 0xDC00 \<and> starts_with [CHR 0x5C, CHR ''u''] r
       then (case hex4 (drop 2 r) of
               None \<Rightarrow> None
             | Some (v, r2) \<Rightarrow>
                 if 0xDC00 \<le> v \<and> v < 0xE000
                 then Some (utf8_encode (0x10000 + (u - 0xD800) * 1024 + (v - 0xDC00)), r2)
                 else Some (utf8_encode u, r))
       else Some (utf8_encode u, r))"

definition scan_escape :: "string \<Rightarrow> (string \<times> string) option" where
  "scan_escape s = (case s of
     [] \<Rightarrow> None
   | e # r \<Rightarrow>
       if e \<in> {CHR 0x22, CHR 0x5C, CHR ''/''} then Some ([e], r)
       else if e = CHR ''b'' then Some ([CHR 0x08], r)
       else if e = CHR ''f'' then Some ([CHR 0x0C], r)
       else if e = CHR ''n'' then Some ([CHR 0x0A], r)
       else if e = CHR ''r'' then Some ([CHR 0x0D], r)
       else if e = CHR ''t'' then Some ([CHR 0x09], r)
       else if e = CHR ''u'' then scan_unicode r
       else None)"

lemma hex4_shrinks: "hex4 s = Some (u, r) \<Longrightarrow> length r < length s"
  by (auto simp: hex4_def split: list.splits option.splits)

lemma scan_unicode_shrinks: "scan_unicode s = Some (t, r) \<Longrightarrow> length r < length s"
  by (auto simp: scan_unicode_def split: option.splits if_splits dest!: hex4_shrinks)

lemma scan_escape_shrinks: "scan_escape s = Some (t, r) \<Longrightarrow> length r < length s"
  by (auto simp: scan_escape_def split: list.splits if_splits dest!: scan_unicode_shrinks)

text \<open>The text of a string literal after its opening quote, and what follows the closing one.\<close>

function scan_string :: "string \<Rightarrow> (string \<times> string) option" where
  "scan_string [] = None"
| "scan_string (c # s) =
     (if c = CHR 0x22 then Some ([], s)
      else if c = CHR 0x5C
      then (case scan_escape s of
              None \<Rightarrow> None
            | Some (t, r) \<Rightarrow> map_option (\<lambda>(u, q). (t @ u, q)) (scan_string r))
      else if byte_of c < 32 then None
      else map_option (\<lambda>(u, q). (c # u, q)) (scan_string s))"
  by pat_completeness auto
termination
  by (relation "measure length") (auto dest: scan_escape_shrinks)

definition scan_frac :: "string \<Rightarrow> string \<times> string" where
  "scan_frac s = (case s of
     c # r \<Rightarrow> if c = CHR ''.'' \<and> takeWhile is_digit r \<noteq> []
             then (c # takeWhile is_digit r, dropWhile is_digit r) else ([], s)
   | [] \<Rightarrow> ([], s))"

definition exp_sign :: "string \<Rightarrow> string" where
  "exp_sign s = (case s of [] \<Rightarrow> [] | d # _ \<Rightarrow> if d \<in> {CHR ''+'', CHR ''-''} then [d] else [])"

definition scan_exp :: "string \<Rightarrow> string \<times> string" where
  "scan_exp s = (case s of
     c # r \<Rightarrow>
       let r' = drop (length (exp_sign r)) r
       in if c \<in> {CHR ''e'', CHR ''E''} \<and> takeWhile is_digit r' \<noteq> []
          then (c # exp_sign r @ takeWhile is_digit r', dropWhile is_digit r') else ([], s)
   | [] \<Rightarrow> ([], s))"

text \<open>\<^verbatim>\<open>(-?(?:0|[1-9]\d*))(\.\d+)?([eE][-+]?\d+)?\<close>.\<close>

definition num_digits :: "string \<Rightarrow> string" where
  "num_digits s = (if starts_with ''0'' s then ''0'' else takeWhile is_digit s)"

definition scan_unsigned :: "bool \<Rightarrow> string \<Rightarrow> (json \<times> string) option" where
  "scan_unsigned neg s =
     (let ds = num_digits s;
          r1 = drop (length ds) s;
          (fr, r2) = scan_frac r1;
          (ex, r3) = scan_exp r2
      in if ds = [] then None
         else if fr = [] \<and> ex = []
         then Some (JInt (if neg then - int (read_digits ds) else int (read_digits ds)), r1)
         else Some (JFloat ((if neg then ''-'' else []) @ ds @ fr @ ex), r3))"

definition scan_number :: "string \<Rightarrow> (json \<times> string) option" where
  "scan_number s = (if starts_with ''-'' s then scan_unsigned True (tl s) else scan_unsigned False s)"

definition json_words :: "(string \<times> json) list" where
  "json_words = [(''null'', JNull), (''true'', JBool True), (''false'', JBool False),
     (''NaN'', JFloat ''NaN''), (''Infinity'', JFloat ''Infinity''), (''-Infinity'', JFloat ''-Infinity'')]"

definition scan_word :: "string \<Rightarrow> (json \<times> string) option" where
  "scan_word s = (case find (\<lambda>(w, v). starts_with w s) json_words of
     None \<Rightarrow> scan_number s
   | Some (w, v) \<Rightarrow> Some (v, drop (length w) s))"

section \<open>Values\<close>

text \<open>
  The readers take fuel: a nested call consumes at most two units for a character read, so twice
  the length of the text suffices.
\<close>

fun read_value :: "nat \<Rightarrow> string \<Rightarrow> (json \<times> string) option"
  and read_elems :: "nat \<Rightarrow> string \<Rightarrow> (json list \<times> string) option"
  and read_members :: "nat \<Rightarrow> dict \<Rightarrow> string \<Rightarrow> (dict \<times> string) option" where
  "read_value 0 s = None"
| "read_value (Suc n) s = (case s of
     [] \<Rightarrow> None
   | c # r \<Rightarrow>
       if c = CHR 0x22 then map_option (\<lambda>(t, q). (JStr t, q)) (scan_string r)
       else if c = CHR ''['' then
         (if starts_with '']'' (skip_ws r) then Some (JArr [], tl (skip_ws r))
          else map_option (\<lambda>(xs, q). (JArr xs, q)) (read_elems n (skip_ws r)))
       else if c = CHR ''{'' then
         (if starts_with ''}'' (skip_ws r) then Some (JObj [], tl (skip_ws r))
          else map_option (\<lambda>(d, q). (JObj d, q)) (read_members n [] (skip_ws r)))
       else scan_word s)"
| "read_elems 0 s = None"
| "read_elems (Suc n) s = (case read_value n s of
     None \<Rightarrow> None
   | Some (v, r) \<Rightarrow>
       if starts_with '','' (skip_ws r)
       then map_option (\<lambda>(xs, q). (v # xs, q)) (read_elems n (skip_ws (tl (skip_ws r))))
       else if starts_with '']'' (skip_ws r) then Some ([v], tl (skip_ws r))
       else None)"
| "read_members 0 d s = None"
| "read_members (Suc n) d s =
     (if \<not> starts_with [CHR 0x22] s then None
      else (case scan_string (tl s) of
        None \<Rightarrow> None
      | Some (k, r) \<Rightarrow>
          (if \<not> starts_with '':'' (skip_ws r) then None
           else (case read_value n (skip_ws (tl (skip_ws r))) of
             None \<Rightarrow> None
           | Some (v, q) \<Rightarrow>
               (if starts_with '','' (skip_ws q)
                then read_members n (dset k v d) (skip_ws (tl (skip_ws q)))
                else if starts_with ''}'' (skip_ws q) then Some (dset k v d, tl (skip_ws q))
                else None)))))"

definition loads :: "string \<Rightarrow> json option" where
  "loads s = (case read_value (2 * length s + 2) (skip_ws s) of
     None \<Rightarrow> None
   | Some (v, r) \<Rightarrow> if skip_ws r = [] then Some v else None)"

section \<open>Reading back what was written\<close>

text \<open>A text that cannot continue a number.\<close>

definition stop :: "string \<Rightarrow> bool" where
  "stop r \<longleftrightarrow> (case r of [] \<Rightarrow> True | c # _ \<Rightarrow>
     \<not> is_digit c \<and> c \<notin> {CHR ''.'', CHR ''e'', CHR ''E'', CHR ''+'', CHR ''-''})"

lemma stop_Nil [simp]: "stop []"
  by (simp add: stop_def)

lemma stop_punct [simp]: "c \<in> {CHR '','', CHR '']'', CHR ''}''} \<Longrightarrow> stop (c # r)"
  by (auto simp: stop_def is_digit_def)

lemma digits_stop [simp]:
  "stop r \<Longrightarrow> takeWhile is_digit (s @ r) = takeWhile is_digit s"
  "stop r \<Longrightarrow> dropWhile is_digit (s @ r) = dropWhile is_digit s @ r"
  by (induction s) (auto simp: stop_def split: list.splits)

lemma scan_frac_stop:
  "stop r \<Longrightarrow> scan_frac (s @ r) = (fst (scan_frac s), snd (scan_frac s) @ r)"
  by (cases s; cases r) (auto simp: scan_frac_def stop_def)

lemma exp_sign_stop: "stop r \<Longrightarrow> exp_sign (s @ r) = exp_sign s"
  by (cases s; cases r) (auto simp: exp_sign_def stop_def)

lemma exp_sign_length: "length (exp_sign s) \<le> length s"
  by (cases s) (auto simp: exp_sign_def)

lemma scan_exp_stop:
  assumes "stop r" shows "scan_exp (s @ r) = (fst (scan_exp s), snd (scan_exp s) @ r)"
proof (cases s)
  case Nil
  with assms show ?thesis by (cases r) (simp_all add: scan_exp_def stop_def Let_def)
next
  case (Cons c t)
  have "drop (length (exp_sign t)) (t @ r) = drop (length (exp_sign t)) t @ r"
    using exp_sign_length [of t] by simp
  with Cons assms show ?thesis
    by (simp add: scan_exp_def Let_def exp_sign_stop)
qed

lemma num_digits_stop: "stop r \<Longrightarrow> num_digits s \<noteq> [] \<Longrightarrow> num_digits (s @ r) = num_digits s"
  by (cases s) (auto simp: num_digits_def starts_with_def)

lemma num_digits_length: "length (num_digits s) \<le> length s"
  by (cases s) (auto simp: num_digits_def starts_with_def length_takeWhile_le le_SucI)

lemma scan_unsigned_stop:
  assumes "scan_unsigned neg s = Some (v, q)" and "stop r"
  shows "scan_unsigned neg (s @ r) = Some (v, q @ r)"
proof -
  have ne: "num_digits s \<noteq> []" using assms(1) by (auto simp: scan_unsigned_def Let_def split: prod.splits)
  have d: "length (num_digits s) - length s = 0"
    using num_digits_length [of s] by simp
  show ?thesis
    using assms(1) ne
    by (auto simp add: scan_unsigned_def Let_def num_digits_stop [OF assms(2) ne] d
        scan_frac_stop [OF assms(2)] scan_exp_stop [OF assms(2)] case_prod_beta split: if_splits)
qed

lemma scan_unsigned_Nil [simp]: "scan_unsigned neg [] = None"
  by (simp add: scan_unsigned_def num_digits_def starts_with_def Let_def case_prod_beta)

lemma scan_number_stop:
  assumes "scan_number s = Some (v, q)" and "stop r"
  shows "scan_number (s @ r) = Some (v, q @ r)"
proof (cases s)
  case Nil
  with assms show ?thesis by (simp add: scan_number_def starts_with_def)
next
  case (Cons c t)
  with assms show ?thesis
    using scan_unsigned_stop [OF _ assms(2)]
    by (fastforce simp: scan_number_def starts_with_def split: if_splits)
qed

definition float_text :: "string \<Rightarrow> bool" where
  "float_text t = (t \<in> {''NaN'', ''Infinity'', ''-Infinity''} \<or> scan_number t = Some (JFloat t, []))"

text \<open>Values that have a JSON text of their own: no repeated key, and floats as Python prints them.\<close>

fun json_ok :: "json \<Rightarrow> bool" where
  "json_ok (JFloat t) = float_text t"
| "json_ok (JArr xs) = list_all json_ok xs"
| "json_ok (JObj d) = (distinct (map fst d) \<and> list_all (\<lambda>(k, v). json_ok v) d)"
| "json_ok _ = True"

fun read_fuel :: "json \<Rightarrow> nat" where
  "read_fuel (JArr xs) = Suc (sum_list (map (\<lambda>x. Suc (read_fuel x)) xs))"
| "read_fuel (JObj d) = Suc (sum_list (map (\<lambda>(k, x). Suc (read_fuel x)) d))"
| "read_fuel _ = 1"

lemma hex_val_hex_digit: "n < 16 \<Longrightarrow> hex_val (hex_digit n) = Some n"
  by (auto simp: hex_val_def hex_digit_def Let_def)

lemma scan_string_char:
  "scan_string (dumps_char c @ s) = map_option (\<lambda>(u, q). (c # u, q)) (scan_string s)"
proof -
  consider "c \<in> {CHR 0x22, CHR 0x5C}" | "c \<in> {CHR 0x0A, CHR 0x0D, CHR 0x09, CHR 0x08, CHR 0x0C}"
    | "c \<notin> {CHR 0x22, CHR 0x5C, CHR 0x0A, CHR 0x0D, CHR 0x09, CHR 0x08, CHR 0x0C}" "byte_of c < 32"
    | "c \<notin> {CHR 0x22, CHR 0x5C}" "\<not> byte_of c < 32"
    by blast
  then show ?thesis
  proof cases
    case 3
    then have d: "dumps_char c = [CHR 0x5C, CHR ''u'', CHR ''0'', CHR ''0'',
                 hex_digit (byte_of c div 16), hex_digit (byte_of c mod 16)]"
      by (simp add: dumps_char_def)
    have z: "hex_val (CHR ''0'') = Some 0" by (simp add: hex_val_def)
    have "hex4 (tl (tl (dumps_char c)) @ s) = Some (byte_of c, s)"
      using 3(2) by (simp add: d hex4_def z hex_val_hex_digit)
    then have "scan_escape (tl (dumps_char c) @ s) = Some ([c], s)"
      using 3(2) by (simp add: d scan_escape_def scan_unicode_def utf8_encode_def)
    then show ?thesis by (simp add: d)
  qed (auto simp: dumps_char_def scan_escape_def)
qed

lemma scan_string_text: "scan_string (concat (map dumps_char s) @ CHR 0x22 # r) = Some (s, r)"
  by (induction s) (simp_all add: scan_string_char)


lemma scan_string_dumps: "scan_string (tl (dumps_str s) @ r) = Some (s, r)"
  by (simp add: dumps_str_def scan_string_text)

definition value_start :: "string \<Rightarrow> bool" where
  "value_start s = (s \<noteq> [] \<and> \<not> is_json_ws (hd s) \<and> hd s \<notin> {CHR '']'', CHR ''}'', CHR '','', CHR '':''})"

lemma value_start_skip [simp]: "value_start s \<Longrightarrow> skip_ws (s @ r) = s @ r"
  by (cases s) (simp_all add: value_start_def skip_ws_def)

lemma value_start_not [simp]:
  "value_start s \<Longrightarrow> c \<in> {CHR '']'', CHR ''}'', CHR '','', CHR '':''} \<Longrightarrow> \<not> starts_with [c] (s @ r)"
  by (cases s) (auto simp: value_start_def starts_with_def)

lemma digit_start: "is_digit (hd s) \<Longrightarrow> s \<noteq> [] \<Longrightarrow> value_start s"
  by (auto simp: value_start_def is_digit_def is_json_ws_def)

lemma scan_unsigned_start: "scan_unsigned neg s = Some (v, q) \<Longrightarrow> s \<noteq> [] \<and> is_digit (hd s)"
  by (cases s) (auto simp: scan_unsigned_def num_digits_def starts_with_def Let_def is_digit_def
      split: prod.splits if_splits)

lemma scan_number_start: "scan_number s = Some (v, q) \<Longrightarrow> value_start s"
  by (cases s)
    (auto simp: scan_number_def starts_with_def value_start_def is_json_ws_def dest!: scan_unsigned_start
      split: if_splits simp: is_digit_def)

lemma show_int_start: "value_start (show_int i)"
proof -
  have "is_digit (hd (show_nat n))" for n
    using show_nat_digits [of n] show_nat_nonempty [of n] by (cases "show_nat n") auto
  then have "value_start (show_nat n)" for n
    by (intro digit_start) simp_all
  then show ?thesis
    by (auto simp: show_int_def value_start_def is_json_ws_def)
qed

lemma dumps_start: "json_ok v \<Longrightarrow> value_start (dumps is ks v)"
  using scan_number_start show_int_start
  by (cases v) (auto simp: dumps_str_def float_text_def value_start_def is_json_ws_def)

lemma show_nat_leading: "starts_with ''0'' (show_nat n) \<longleftrightarrow> n = 0"
proof (induction n rule: show_nat.induct)
  case (1 n)
  have z: "digit_char m = CHR ''0'' \<longleftrightarrow> m = 0" if "m < 10" for m
  proof -
    have "digit_char 0 = CHR ''0''" by code_simp
    then show ?thesis using digit_char_byte [OF that] digit_char_byte [of 0] by auto
  qed
  show ?case
  proof (cases "n < 10")
    case True
    then show ?thesis by (subst show_nat.simps) (simp add: starts_with_def z)
  next
    case False
    with 1 have "starts_with ''0'' (show_nat (n div 10)) \<longleftrightarrow> n div 10 = 0" by simp
    moreover have "show_nat (n div 10) \<noteq> []" by simp
    ultimately show ?thesis using False
      by (subst show_nat.simps) (cases "show_nat (n div 10)"; auto simp: starts_with_def)
  qed
qed

lemma takeWhile_all: "list_all P s \<Longrightarrow> takeWhile P s = s"
  by (induction s) auto

lemma scan_unsigned_show: "scan_unsigned neg (show_nat n) = Some (JInt (if neg then - int n else int n), [])"
proof -
  have "num_digits (show_nat n) = show_nat n"
  proof (cases "n = 0")
    case True
    then show ?thesis by simp code_simp
  next
    case False
    then show ?thesis by (simp add: num_digits_def show_nat_leading takeWhile_all show_nat_digits)
  qed
  then show ?thesis
    by (simp add: scan_unsigned_def scan_frac_def scan_exp_def read_digits_show_nat)
qed

lemma show_nat_no_sign: "\<not> starts_with ''-'' (show_nat n)"
  using show_nat_digits [of n] by (cases "show_nat n") (auto simp: starts_with_def is_digit_def)

lemma scan_number_show: "scan_number (show_int i) = Some (JInt i, [])"
proof (cases "i < 0")
  case True
  then show ?thesis by (simp add: scan_number_def show_int_def starts_with_def scan_unsigned_show)
next
  case False
  then show ?thesis by (simp add: scan_number_def show_int_def show_nat_no_sign scan_unsigned_show)
qed

text \<open>A number is not mistaken for one of the words.\<close>

lemma scan_word_number:
  assumes "scan_number s = Some (v, [])" and "stop r"
  shows "scan_word (s @ r) = Some (v, r)"
proof -
  have "\<not> starts_with w (s @ r)" if "(w, u) \<in> set json_words" for w u
  proof
    assume w: "starts_with w (s @ r)"
    consider "is_digit (hd s)" "s \<noteq> []" | t where "s = CHR ''-'' # t" "is_digit (hd t)" "t \<noteq> []"
      using assms(1) by (cases s) (auto simp: scan_number_def starts_with_def split: if_splits dest!: scan_unsigned_start)
    then show False
      using that w by cases (auto simp: json_words_def starts_with_iff is_digit_def neq_Nil_conv)
  qed
  then have "find (\<lambda>(w, v). starts_with w (s @ r)) json_words = None"
    by (auto simp: find_None_iff)
  then show ?thesis
    using scan_number_stop [OF assms] by (simp add: scan_word_def)
qed

text \<open>Separators: a comma and a colon, each followed by white space only.\<close>

definition separators :: "string \<Rightarrow> string \<Rightarrow> bool" where
  "separators is ks \<longleftrightarrow> (\<exists>w1 w2. is = CHR '','' # w1 \<and> ks = CHR '':'' # w2
     \<and> list_all is_json_ws w1 \<and> list_all is_json_ws w2)"

lemma skip_ws_blank [simp]: "list_all is_json_ws w \<Longrightarrow> skip_ws (w @ s) = skip_ws s"
  by (induction w) (simp_all add: skip_ws_def)

lemma skip_ws_punct [simp]: "\<not> is_json_ws c \<Longrightarrow> skip_ws (c # r) = c # r"
  by (simp add: skip_ws_def)

lemma punct_ws [simp]: "c \<in> {CHR '','', CHR '']'', CHR ''}'', CHR '':'', CHR 0x22} \<Longrightarrow> \<not> is_json_ws c"
  by (auto simp: is_json_ws_def)

lemma starts_punct [simp]: "starts_with [c] (d # s) \<longleftrightarrow> d = c"
  by (auto simp: starts_with_def)

lemma sep_item:
  "separators is ks \<Longrightarrow> stop (is @ t)"
  "separators is ks \<Longrightarrow> starts_with '','' (skip_ws (is @ t))"
  "separators is ks \<Longrightarrow> skip_ws (tl (skip_ws (is @ t))) = skip_ws t"
  by (auto simp: separators_def)

lemma sep_key:
  "separators is ks \<Longrightarrow> starts_with '':'' (skip_ws (ks @ t))"
  "separators is ks \<Longrightarrow> skip_ws (tl (skip_ws (ks @ t))) = skip_ws t"
  by (auto simp: separators_def)

definition reads :: "string \<Rightarrow> string \<Rightarrow> json \<Rightarrow> bool" where
  "reads is ks v \<longleftrightarrow> (\<forall>n r. read_fuel v \<le> n \<longrightarrow> stop r \<longrightarrow>
     read_value n (dumps is ks v @ r) = Some (v, r))"

lemma readsD: "reads is ks v \<Longrightarrow> read_fuel v \<le> n \<Longrightarrow> stop r \<Longrightarrow> read_value n (dumps is ks v @ r) = Some (v, r)"
  by (simp add: reads_def)

lemma read_elems_dumps:
  assumes "separators is ks" and "xs \<noteq> []" and "\<And>x. x \<in> set xs \<Longrightarrow> reads is ks x \<and> json_ok x"
    and "sum_list (map (\<lambda>x. Suc (read_fuel x)) xs) \<le> n"
  shows "read_elems n (join is (map (dumps is ks) xs) @ CHR '']'' # r) = Some (xs, r)"
  using assms(2-4)
proof (induction xs arbitrary: n)
  case Nil
  then show ?case by simp
next
  case (Cons x xs)
  note sep = sep_item [OF assms(1)]
  obtain m where n: "n = Suc m" and m: "read_fuel x \<le> m" "sum_list (map (\<lambda>x. Suc (read_fuel x)) xs) \<le> m"
    using Cons.prems(3) by (cases n) auto
  have x: "reads is ks x" using Cons.prems(2) by simp
  show ?case
  proof (cases xs)
    case Nil
    then show ?thesis by (simp add: n readsD [OF x m(1)])
  next
    case (Cons y ys)
    have "value_start (join is (map (dumps is ks) xs))"
      using Cons Cons.prems(2) dumps_start [of y "is" ks]
      by (cases ys) (auto simp: value_start_def)
    moreover have "read_elems m (join is (map (dumps is ks) xs) @ CHR '']'' # r) = Some (xs, r)"
      using Cons.IH [OF _ _ m(2)] Cons Cons.prems(2) by auto
    moreover have "join is (map (dumps is ks) (x # xs)) = dumps is ks x @ is @ join is (map (dumps is ks) xs)"
      using Cons by simp
    ultimately show ?thesis
      using sep by (simp add: n readsD [OF x m(1)])
  qed
qed


lemma dset_fresh: "k \<notin> set (map fst d) \<Longrightarrow> dset k v d = d @ [(k, v)]"
  by (induction d) (auto simp: dset_def)

lemma read_members_dumps:
  assumes "separators is ks" and "d \<noteq> []" and "\<And>k v. (k, v) \<in> set d \<Longrightarrow> reads is ks v \<and> json_ok v"
    and "distinct (map fst (acc @ d))"
    and "sum_list (map (\<lambda>(k, x). Suc (read_fuel x)) d) \<le> n"
  shows "read_members n acc (join is (map (\<lambda>(k, v). dumps_str k @ ks @ dumps is ks v) d) @ CHR ''}'' # r)
    = Some (acc @ d, r)"
  using assms(2-5)
proof (induction d arbitrary: n acc)
  case Nil
  then show ?case by simp
next
  case (Cons p d)
  obtain k v where p: "p = (k, v)" by fastforce
  note sep = sep_item [OF assms(1)] sep_key [OF assms(1)]
  obtain m where n: "n = Suc m" and m: "read_fuel v \<le> m" "sum_list (map (\<lambda>(k, x). Suc (read_fuel x)) d) \<le> m"
    using Cons.prems(4) by (cases n) (auto simp: p)
  have v: "reads is ks v" "value_start (dumps is ks v)" using Cons.prems(2) [of k v] p by (simp_all add: dumps_start)
  have key: "dumps_str k = CHR 0x22 # tl (dumps_str k)" by (simp add: dumps_str_def)
  have fresh: "dset k v acc = acc @ [(k, v)]" using Cons.prems(3) p by (intro dset_fresh) auto
  have head: "read_members n acc (dumps_str k @ ks @ dumps is ks v @ t) =
      (if starts_with '','' (skip_ws t) then read_members m (acc @ [(k, v)]) (skip_ws (tl (skip_ws t)))
       else if starts_with ''}'' (skip_ws t) then Some (acc @ [(k, v)], tl (skip_ws t)) else None)"
    if "stop t" for t
    using v(2) that by (subst key) (simp add: n sep scan_string_dumps readsD [OF v(1) m(1)] fresh)
  show ?case
  proof (cases d)
    case Nil
    then show ?thesis using head [of "CHR ''}'' # r"] by (simp add: p)
  next
    case (Cons y ys)
    let ?rest = "join is (map (\<lambda>(k, v). dumps_str k @ ks @ dumps is ks v) d)"
    have rest: "read_members m (acc @ [(k, v)]) (?rest @ CHR ''}'' # r) = Some ((acc @ [(k, v)]) @ d, r)"
    proof (rule Cons.IH)
      show "d \<noteq> []" using Cons by simp
    qed (use Cons.prems p m(2) in auto)
    have "value_start ?rest"
      using Cons by (cases y; cases ys) (auto simp: value_start_def dumps_str_def is_json_ws_def)
    then have "skip_ws (?rest @ CHR ''}'' # r) = ?rest @ CHR ''}'' # r" by simp
    moreover have "join is (map (\<lambda>(k, v). dumps_str k @ ks @ dumps is ks v) (p # d)) =
        dumps_str k @ ks @ dumps is ks v @ is @ ?rest"
      using Cons p by simp
    ultimately show ?thesis
      using head [of "is @ ?rest @ CHR ''}'' # r"] rest sep p by simp
  qed
qed

lemma reads_atom:
  assumes "read_fuel v = 1"
    and "\<And>n r. stop r \<Longrightarrow> read_value (Suc n) (dumps is ks v @ r) = Some (v, r)"
  shows "reads is ks v"
  unfolding reads_def
proof (intro allI impI)
  fix n r assume "read_fuel v \<le> n" "stop r"
  then show "read_value n (dumps is ks v @ r) = Some (v, r)"
    using assms by (cases n) simp_all
qed

lemma words_read:
  "read_value (Suc n) (''null'' @ r) = Some (JNull, r)"
  "read_value (Suc n) (''true'' @ r) = Some (JBool True, r)"
  "read_value (Suc n) (''false'' @ r) = Some (JBool False, r)"
  "read_value (Suc n) (''NaN'' @ r) = Some (JFloat ''NaN'', r)"
  "read_value (Suc n) (''Infinity'' @ r) = Some (JFloat ''Infinity'', r)"
  "read_value (Suc n) (''-Infinity'' @ r) = Some (JFloat ''-Infinity'', r)"
  by (simp_all add: scan_word_def json_words_def starts_with_def)

lemma number_read:
  assumes "scan_number s = Some (v, [])" and "stop r"
  shows "read_value (Suc n) (s @ r) = Some (v, r)"
proof -
  have w: "scan_word (s @ r) = Some (v, r)" using assms by (rule scan_word_number)
  have "value_start s" using scan_number_start [OF assms(1)] .
  moreover have "hd s \<notin> {CHR 0x22, CHR ''['', CHR ''{''}"
    using assms(1) by (cases s) (auto simp: scan_number_def starts_with_def is_digit_def
        split: if_splits dest!: scan_unsigned_start)
  ultimately show ?thesis using w by (cases s) (auto simp: value_start_def)
qed

lemma reads_all: "separators is ks \<Longrightarrow> json_ok v \<Longrightarrow> reads is ks v"
proof (induction v)
  case (JArr xs)
  have "read_value n (dumps is ks (JArr xs) @ r) = Some (JArr xs, r)"
    if fuel: "read_fuel (JArr xs) \<le> n" for n r
  proof (cases "xs = []")
    case True
    with fuel show ?thesis by (cases n) simp_all
  next
    case False
    obtain m where m: "n = Suc m" "sum_list (map (\<lambda>x. Suc (read_fuel x)) xs) \<le> m"
      using fuel by (cases n) auto
    have ok: "\<And>x. x \<in> set xs \<Longrightarrow> reads is ks x \<and> json_ok x"
      using JArr by (auto simp: list_all_iff)
    have "value_start (join is (map (dumps is ks) xs))"
      using False ok dumps_start [of "hd xs" "is" ks]
      by (cases xs; cases "tl xs") (auto simp: value_start_def)
    then show ?thesis
      using read_elems_dumps [OF JArr.prems(1) False ok m(2), of r] by (simp add: m(1))
  qed
  then show ?case by (simp add: reads_def)
next
  case (JObj d)
  have "read_value n (dumps is ks (JObj d) @ r) = Some (JObj d, r)"
    if fuel: "read_fuel (JObj d) \<le> n" for n r
  proof (cases "d = []")
    case True
    with fuel show ?thesis by (cases n) simp_all
  next
    case False
    obtain m where m: "n = Suc m" "sum_list (map (\<lambda>(k, x). Suc (read_fuel x)) d) \<le> m"
      using fuel by (cases n) auto
    have ok: "\<And>k v. (k, v) \<in> set d \<Longrightarrow> reads is ks v \<and> json_ok v"
      using JObj by (fastforce simp: list_all_iff)
    have "value_start (join is (map (\<lambda>(k, v). dumps_str k @ ks @ dumps is ks v) d))"
      using False
      by (cases d; cases "hd d"; cases "tl d") (auto simp: value_start_def dumps_str_def is_json_ws_def)
    moreover have "distinct (map fst ([] @ d))" using JObj.prems by simp
    ultimately show ?thesis
      using read_members_dumps [OF JObj.prems(1) False ok _ m(2), where acc = "[]" and r = r] by (simp add: m(1))
  qed
  then show ?case by (simp add: reads_def)
next
  case (JFloat t)
  show ?case
  proof (rule reads_atom)
    fix n r assume r: "stop r"
    show "read_value (Suc n) (dumps is ks (JFloat t) @ r) = Some (JFloat t, r)"
      using JFloat.prems number_read [OF _ r, of t "JFloat t" n] words_read(4-6) [of n r]
      unfolding float_text_def json_ok.simps dumps.simps by blast
  qed simp
next
  case (JInt i)
  show ?case
    by (rule reads_atom) (simp_all add: number_read [OF scan_number_show] del: read_value.simps)
next
  case (JStr s)
  show ?case by (rule reads_atom) (simp_all add: dumps_str_def scan_string_text)
next
  case JNull
  show ?case
  proof (rule reads_atom)
    show "read_value (Suc n) (dumps is ks JNull @ r) = Some (JNull, r)" for n r
      unfolding dumps.simps by (rule words_read)
  qed simp
next
  case (JBool b)
  have "reads is ks (JBool True)"
  proof (rule reads_atom)
    show "read_value (Suc n) (dumps is ks (JBool True) @ r) = Some (JBool True, r)" for n r
      unfolding dumps.simps if_True by (rule words_read)
  qed simp
  moreover have "reads is ks (JBool False)"
  proof (rule reads_atom)
    show "read_value (Suc n) (dumps is ks (JBool False) @ r) = Some (JBool False, r)" for n r
      unfolding dumps.simps if_False by (rule words_read)
  qed simp
  ultimately show ?case by (cases b) simp_all
qed

lemma fuel_join:
  assumes "sep \<noteq> []" and "\<And>x. x \<in> set xs \<Longrightarrow> f x \<le> 2 * length (g x)"
  shows "sum_list (map (\<lambda>x. Suc (f x)) xs) \<le> 2 * length (join sep (map g xs)) + 1"
  using assms(2)
proof (induction xs)
  case Nil
  then show ?case by simp
next
  case (Cons x xs)
  have x: "f x \<le> 2 * length (g x)" using Cons.prems by simp
  have "sum_list (map (\<lambda>x. Suc (f x)) xs) \<le> 2 * length (join sep (map g xs)) + 1"
    using Cons by simp
  moreover have "length sep \<ge> 1" using assms(1) by (cases sep) auto
  ultimately show ?case using x by (cases xs) simp_all
qed

lemma value_start_length: "value_start s \<Longrightarrow> 1 \<le> length s"
  by (cases s) (simp_all add: value_start_def)

lemma read_fuel_bound: "separators is ks \<Longrightarrow> json_ok v \<Longrightarrow> read_fuel v \<le> 2 * length (dumps is ks v)"
proof (induction v)
  case (JArr xs)
  have "is \<noteq> []" using JArr.prems(1) by (auto simp: separators_def)
  from fuel_join [OF this, of xs read_fuel "dumps is ks"] JArr show ?case
    by (auto simp: list_all_iff)
next
  case (JObj d)
  have s: "is \<noteq> []" using JObj.prems(1) by (auto simp: separators_def)
  have "read_fuel v \<le> 2 * length (dumps_str k @ ks @ dumps is ks v)" if "(k, v) \<in> set d" for k v
    using JObj that by (fastforce simp: list_all_iff)
  then have "(case p of (k, v) \<Rightarrow> read_fuel v) \<le>
      2 * length (case p of (k, v) \<Rightarrow> dumps_str k @ ks @ dumps is ks v)" if "p \<in> set d" for p
    using that by (cases p) simp
  from fuel_join [OF s this, of d "\<lambda>x. x"] show ?case
    by (simp add: case_prod_unfold)
qed (use dumps_start value_start_length in \<open>fastforce simp del: dumps.simps\<close>)+

theorem loads_dumps:
  assumes "json_ok v" and "separators is ks"
  shows "loads (dumps is ks v) = Some v"
proof -
  have "skip_ws (dumps is ks v @ []) = dumps is ks v @ []"
    using dumps_start [OF assms(1)] by (rule value_start_skip)
  moreover have "read_value (2 * length (dumps is ks v) + 2) (dumps is ks v @ []) = Some (v, [])"
    using readsD [OF reads_all [OF assms(2,1)], of "2 * length (dumps is ks v) + 2" "[]"]
      read_fuel_bound [OF assms(2,1)] by simp
  ultimately show ?thesis by (simp add: loads_def skip_ws_def)
qed

lemma separators_default: "separators '','' '':''" "separators '', '' '': ''"
  by (auto simp: separators_def is_json_ws_def)

end
