(* ===== verification/Event_File.thy ===== *)
theory Event_File
  imports Session_Machine Json_Reader
begin

text \<open>
  The file format of the session log: \<^verbatim>\<open>events.jsonl\<close>, one \<^verbatim>\<open>model_dump_json\<close> line per event, read
  back with \<^verbatim>\<open>splitlines\<close> and \<^verbatim>\<open>model_validate_json\<close>. Validation is modelled for the JSON types the
  fields declare; the numeric texts pydantic would also coerce are rejected here.
\<close>

section \<open>Lines\<close>

text \<open>
  The length of the line boundary at the head of a UTF-8 text: line feed, carriage return (with
  a following line feed), the ASCII separators, and U+0085, U+2028, U+2029.
\<close>

definition line_break :: "string \<Rightarrow> nat" where
  "line_break s = (case s of
     [] \<Rightarrow> 0
   | c # r \<Rightarrow>
       if starts_with [CHR 0x0D, CHR 0x0A] s then 2
       else if byte_of c \<in> {10, 11, 12, 13, 28, 29, 30} then 1
       else if starts_with [CHR 0xC2, CHR 0x85] s then 2
       else if starts_with [CHR 0xE2, CHR 0x80, CHR 0xA8] s \<or> starts_with [CHR 0xE2, CHR 0x80, CHR 0xA9] s then 3
       else 0)"

fun take_line :: "string \<Rightarrow> string \<times> string" where
  "take_line [] = ([], [])"
| "take_line (c # s) =
     (if line_break (c # s) \<noteq> 0 then ([], drop (line_break (c # s)) (c # s))
      else (case take_line s of (l, r) \<Rightarrow> (c # l, r)))"

lemma take_line_shrinks: "s \<noteq> [] \<Longrightarrow> length (snd (take_line s)) < length s"
proof (induction s)
  case Nil
  then show ?case by simp
next
  case (Cons c s)
  then show ?case
    by (cases "s = []") (auto simp: less_Suc_eq_le split: prod.splits)
qed

function splitlines :: "string \<Rightarrow> string list" where
  "splitlines s = (if s = [] then [] else fst (take_line s) # splitlines (snd (take_line s)))"
  by pat_completeness auto
termination
  by (relation "measure length") (auto simp: take_line_shrinks)

declare splitlines.simps [simp del]

section \<open>Events as lines\<close>

definition encode_event :: "session_event \<Rightarrow> string" where
  "encode_event e = dumps_compact (JObj [
     (''seq'', case ev_seq e of None \<Rightarrow> JNull | Some n \<Rightarrow> JInt n),
     (''turn_id'', opt_str (ev_turn e)),
     (''model_step_id'', opt_str (ev_step e)),
     (''ts'', JStr (ev_ts e)),
     (''type'', JStr (ev_type e)),
     (''payload'', JObj (ev_payload e))])"

definition opt_int_field :: "json \<Rightarrow> int option res" where
  "opt_int_field v = (case v of JNull \<Rightarrow> Inr None | JInt i \<Rightarrow> Inr (Some i)
     | _ \<Rightarrow> Inl (Exn ValueError ''validation''))"

definition str_field :: "json \<Rightarrow> string res" where
  "str_field v = (case v of JStr s \<Rightarrow> Inr s | _ \<Rightarrow> Inl (Exn ValueError ''validation''))"

definition obj_field :: "json \<Rightarrow> dict res" where
  "obj_field v = (case v of JObj d \<Rightarrow> Inr d | _ \<Rightarrow> Inl (Exn ValueError ''validation''))"

text \<open>\<open>now\<close> is the clock, the default of an absent time stamp.\<close>

definition decode_event :: "string \<Rightarrow> string \<Rightarrow> session_event res" where
  "decode_event now line = (case loads line of
     Some (JObj d) \<Rightarrow>
       rbind (opt_int_field (dget d ''seq'')) (\<lambda>s.
       rbind (opt_str_field (dget d ''turn_id'')) (\<lambda>t.
       rbind (opt_str_field (dget d ''model_step_id'')) (\<lambda>m.
       rbind (str_field (dget_or d ''ts'' (JStr now))) (\<lambda>ts.
       rbind (str_field (dget d ''type'')) (\<lambda>ty.
       rbind (obj_field (dget_or d ''payload'' (JObj []))) (\<lambda>p.
       Inr \<lparr>ev_seq = s, ev_turn = t, ev_step = m, ev_ts = ts, ev_type = ty, ev_payload = p\<rparr>))))))
   | _ \<Rightarrow> Inl (Exn ValueError ''validation''))"

definition events_text :: "session_event list \<Rightarrow> string" where
  "events_text es = concat (map (\<lambda>e. encode_event e @ [CHR 0x0A]) es)"

definition read_events_text :: "string \<Rightarrow> string \<Rightarrow> session_event list res" where
  "read_events_text now text =
     rmap (\<lambda>line. case decode_event now line of
         Inl _ \<Rightarrow> Inl (Exn SessionStoreError ''events.jsonl is corrupted'')
       | Inr e \<Rightarrow> Inr e)
       (filter (\<lambda>line. strip line \<noteq> []) (splitlines text))"

section \<open>Texts without line boundaries\<close>

fun no_break :: "string \<Rightarrow> bool" where
  "no_break [] = True"
| "no_break (c # s) = (line_break (c # s) = 0 \<and> no_break s)"


text \<open>No U+0085, U+2028 or U+2029 in a text.\<close>

definition separator_free :: "string \<Rightarrow> bool" where
  "separator_free s \<longleftrightarrow> \<not> contains_str [CHR 0xC2, CHR 0x85] s
     \<and> \<not> contains_str [CHR 0xE2, CHR 0x80, CHR 0xA8] s \<and> \<not> contains_str [CHR 0xE2, CHR 0x80, CHR 0xA9] s"

fun clean_json :: "json \<Rightarrow> bool" where
  "clean_json (JStr s) = separator_free s"
| "clean_json (JArr xs) = list_all clean_json xs"
| "clean_json (JObj d) = list_all (\<lambda>(k, v). separator_free k \<and> clean_json v) d"
| "clean_json (JFloat t) = list_all (\<lambda>c. 32 \<le> byte_of c \<and> byte_of c < 128) t"
| "clean_json _ = True"

lemma line_break_zero:
  "line_break (c # s) = 0 \<longleftrightarrow> byte_of c \<notin> {10, 11, 12, 13, 28, 29, 30}
     \<and> \<not> (c = CHR 0xC2 \<and> s \<noteq> [] \<and> hd s = CHR 0x85)
     \<and> \<not> (c = CHR 0xE2 \<and> length s \<ge> 2 \<and> s ! 0 = CHR 0x80 \<and> s ! 1 \<in> {CHR 0xA8, CHR 0xA9})"
  by (cases s; cases "tl s") (auto simp: line_break_def starts_with_def)

text \<open>Text that ends in an ASCII byte, or is empty, makes no boundary with what follows.\<close>

definition closed_text :: "string \<Rightarrow> bool" where
  "closed_text s \<longleftrightarrow> no_break s \<and> (s = [] \<or> byte_of (last s) < 128)"

lemma closed_no_break: "closed_text a \<Longrightarrow> no_break b \<Longrightarrow> no_break (a @ b)"
proof (induction a)
  case Nil
  then show ?case by simp
next
  case (Cons c a)
  have "closed_text a" using Cons.prems by (cases a) (auto simp: closed_text_def)
  then have "no_break (a @ b)" using Cons by simp
  moreover have "line_break (c # a @ b) = 0"
    using Cons.prems(1)
    by (cases a; cases "tl a") (auto simp: closed_text_def line_break_zero nth_append)
  ultimately show ?case by simp
qed

lemma closed_append: "closed_text a \<Longrightarrow> closed_text b \<Longrightarrow> closed_text (a @ b)"
  using closed_no_break by (auto simp: closed_text_def last_append)

lemma closed_ascii: "list_all (\<lambda>c. 32 \<le> byte_of c \<and> byte_of c < 128) s \<Longrightarrow> closed_text s"
proof (induction s)
  case Nil
  then show ?case by (simp add: closed_text_def)
next
  case (Cons c s)
  then have "c \<noteq> CHR 0xC2" "c \<noteq> CHR 0xE2" by auto
  with Cons show ?case by (auto simp: closed_text_def line_break_zero)
qed

lemma closed_Cons: "32 \<le> byte_of c \<Longrightarrow> byte_of c < 128 \<Longrightarrow> closed_text s \<Longrightarrow> closed_text (c # s)"
  using closed_append [OF closed_ascii, of "[c]" s] by simp

lemma dumps_char_cases:
  "closed_text (dumps_char c) \<or> (dumps_char c = [c] \<and> 32 \<le> byte_of c)"
proof -
  have h: "32 \<le> byte_of (hex_digit n) \<and> byte_of (hex_digit n) < 128" if "n < 16" for n
    using that by (simp add: hex_digit_def)
  have "byte_of c div 16 < 16" by (cases c) (simp add: of_char_def)
  note hs = h [OF this] h [of "byte_of c mod 16"]
  consider "c \<in> {CHR 0x22, CHR 0x5C}" | "c \<in> {CHR 0x0A, CHR 0x0D, CHR 0x09, CHR 0x08, CHR 0x0C}"
    | "c \<notin> {CHR 0x22, CHR 0x5C, CHR 0x0A, CHR 0x0D, CHR 0x09, CHR 0x08, CHR 0x0C}" "byte_of c < 32"
    | "c \<notin> {CHR 0x22, CHR 0x5C}" "\<not> byte_of c < 32"
    by blast
  then show ?thesis
  proof cases
    case 1
    then have "list_all (\<lambda>c. 32 \<le> byte_of c \<and> byte_of c < 128) (dumps_char c)"
      by (auto simp: dumps_char_def)
    then show ?thesis using closed_ascii by blast
  next
    case 2
    then have "list_all (\<lambda>c. 32 \<le> byte_of c \<and> byte_of c < 128) (dumps_char c)"
      by (auto simp: dumps_char_def)
    then show ?thesis using closed_ascii by blast
  next
    case 3
    then have "dumps_char c = [CHR 0x5C, CHR ''u'', CHR ''0'', CHR ''0'',
                 hex_digit (byte_of c div 16), hex_digit (byte_of c mod 16)]"
      by (simp add: dumps_char_def)
    then have "list_all (\<lambda>c. 32 \<le> byte_of c \<and> byte_of c < 128) (dumps_char c)"
      using hs by simp
    then show ?thesis using closed_ascii by blast
  next
    case 4
    then have "dumps_char c = [c]" by (auto simp: dumps_char_def)
    with 4 show ?thesis by simp
  qed
qed

lemma separator_free_tl: "separator_free (c # s) \<Longrightarrow> separator_free s"
  by (simp add: separator_free_def)

lemma dumps_text_head:
  assumes "concat (map dumps_char s) @ CHR 0x22 # r = d # u" and "128 \<le> byte_of d"
  shows "\<exists>s'. s = d # s' \<and> u = concat (map dumps_char s') @ CHR 0x22 # r"
proof (cases s)
  case Nil
  with assms show ?thesis by auto
next
  case (Cons c s')
  have "dumps_char c = [c] \<or> hd (dumps_char c) = CHR 0x5C \<and> dumps_char c \<noteq> []"
    by (simp add: dumps_char_def)
  then show ?thesis
  proof
    assume "dumps_char c = [c]"
    with Cons assms(1) show ?thesis by simp
  next
    assume "hd (dumps_char c) = CHR 0x5C \<and> dumps_char c \<noteq> []"
    with Cons assms have "d = CHR 0x5C" by (cases "dumps_char c") auto
    with assms(2) show ?thesis by simp
  qed
qed

lemma closed_dumps_text: "separator_free s \<Longrightarrow> closed_text (concat (map dumps_char s) @ [CHR 0x22])"
proof (induction s)
  case Nil
  show ?case by (simp add: closed_ascii)
next
  case (Cons c s)
  let ?t = "concat (map dumps_char s) @ [CHR 0x22]"
  have t: "closed_text ?t" using Cons separator_free_tl by blast
  from dumps_char_cases [of c] show ?case
  proof
    assume "closed_text (dumps_char c)"
    with t show ?thesis using closed_append by fastforce
  next
    assume c: "dumps_char c = [c] \<and> 32 \<le> byte_of c"
    have "line_break (c # ?t) = 0"
    proof (rule ccontr)
      assume "line_break (c # ?t) \<noteq> 0"
      then consider u where "c = CHR 0xC2" "?t = CHR 0x85 # u"
        | d u where "c = CHR 0xE2" "?t = CHR 0x80 # d # u" "d \<in> {CHR 0xA8, CHR 0xA9}"
        using c by (cases ?t; cases "tl ?t") (auto simp: line_break_zero)
      then show False
      proof cases
        case 1
        with dumps_text_head [of s "[]" "CHR 0x85" u] Cons.prems show False
          by (auto simp: separator_free_def starts_with_def)
      next
        case 2
        from dumps_text_head [of s "[]" "CHR 0x80" "d # u"] 2 obtain s1 where
          s1: "s = CHR 0x80 # s1" "d # u = concat (map dumps_char s1) @ [CHR 0x22]" by auto
        from dumps_text_head [OF s1(2) [symmetric]] 2(3) obtain s2 where "s1 = d # s2" by auto
        with s1(1) 2(1,3) Cons.prems show False
          by (auto simp: separator_free_def starts_with_def)
      qed
    qed
    with t c show ?thesis by (auto simp: closed_text_def)
  qed
qed

lemma closed_dumps_str: "separator_free s \<Longrightarrow> closed_text (dumps_str s)"
  unfolding dumps_str_def by (intro closed_Cons closed_dumps_text) simp_all

lemma closed_join:
  "closed_text sep \<Longrightarrow> (\<And>x. x \<in> set xs \<Longrightarrow> closed_text x) \<Longrightarrow> closed_text (join sep xs)"
proof (induction sep xs rule: join.induct)
  case (1 sep)
  show ?case by (simp add: closed_text_def)
next
  case (2 sep x)
  then show ?case by simp
next
  case (3 sep x y ys)
  then show ?case by (simp add: closed_append)
qed

lemma show_int_ascii: "list_all (\<lambda>c. 32 \<le> byte_of c \<and> byte_of c < 128) (show_int i)"
proof -
  have "list_all (\<lambda>c. 32 \<le> byte_of c \<and> byte_of c < 128) (show_nat n)" for n
    using show_nat_digits [of n] by (auto simp: list_all_iff is_digit_def)
  then show ?thesis by (simp add: show_int_def)
qed

lemma closed_dumps: "clean_json v \<Longrightarrow> closed_text (dumps_compact v)"
proof (induction v)
  case (JArr xs)
  then have "closed_text (join '','' (map dumps_compact xs))"
    by (intro closed_join) (auto simp: list_all_iff intro: closed_ascii)
  then show ?case
    using closed_append [OF _ closed_ascii [of "'']''"]] by (simp add: closed_Cons)
next
  case (JObj d)
  have "closed_text (dumps_str k @ '':'' @ dumps_compact v)" if "(k, v) \<in> set d" for k v
  proof -
    have "separator_free k" "closed_text (dumps_compact v)"
      using JObj that by (fastforce simp: list_all_iff)+
    then show ?thesis by (simp add: closed_append closed_dumps_str closed_Cons)
  qed
  then have "closed_text (join '','' (map (\<lambda>(k, v). dumps_str k @ '':'' @ dumps_compact v) d))"
    by (intro closed_join) (auto intro: closed_ascii)
  then show ?case
    using closed_append [OF _ closed_ascii [of "''}''"]] by (simp add: closed_Cons)
qed (auto intro!: closed_ascii closed_dumps_str simp: show_int_ascii)

lemma take_line_closed: "closed_text l \<Longrightarrow> take_line (l @ CHR 0x0A # r) = (l, r)"
proof (induction l)
  case Nil
  show ?case by (simp add: line_break_def starts_with_def)
next
  case (Cons c l)
  have l: "closed_text l" using Cons.prems by (cases l) (auto simp: closed_text_def)
  have "line_break (c # l @ CHR 0x0A # r) = 0"
    using Cons.prems
    by (cases l; cases "tl l") (auto simp: closed_text_def line_break_zero nth_append)
  with Cons.IH [OF l] show ?case by simp
qed

section \<open>What is written is read back\<close>

definition storable :: "session_event \<Rightarrow> bool" where
  "storable e \<longleftrightarrow> json_ok (JObj (ev_payload e)) \<and> clean_json (JObj (ev_payload e))
     \<and> separator_free (ev_ts e) \<and> separator_free (ev_type e)
     \<and> (case ev_turn e of None \<Rightarrow> True | Some t \<Rightarrow> separator_free t)
     \<and> (case ev_step e of None \<Rightarrow> True | Some t \<Rightarrow> separator_free t)"

lemma closed_encode: "storable e \<Longrightarrow> closed_text (encode_event e)"
  unfolding encode_event_def
  by (rule closed_dumps)
    (auto simp: storable_def separator_free_def starts_with_def split: option.splits)

lemma decode_encode:
  assumes "json_ok (JObj (ev_payload e))"
  shows "decode_event now (encode_event e) = Inr e"
proof -
  have "loads (encode_event e) = Some (JObj [
     (''seq'', case ev_seq e of None \<Rightarrow> JNull | Some n \<Rightarrow> JInt n),
     (''turn_id'', opt_str (ev_turn e)), (''model_step_id'', opt_str (ev_step e)),
     (''ts'', JStr (ev_ts e)), (''type'', JStr (ev_type e)), (''payload'', JObj (ev_payload e))])"
    unfolding encode_event_def
  proof (rule loads_dumps [OF _ separators_default(1)])
    show "json_ok (JObj [
     (''seq'', case ev_seq e of None \<Rightarrow> JNull | Some n \<Rightarrow> JInt n),
     (''turn_id'', opt_str (ev_turn e)), (''model_step_id'', opt_str (ev_step e)),
     (''ts'', JStr (ev_ts e)), (''type'', JStr (ev_type e)), (''payload'', JObj (ev_payload e))])"
      using assms by (cases "ev_turn e"; cases "ev_step e") (simp_all split: option.splits)
  qed
  then show ?thesis
    by (simp add: decode_event_def opt_int_field_def str_field_def obj_field_def split: option.splits)
qed

lemma splitlines_events:
  "(\<And>e. e \<in> set es \<Longrightarrow> storable e) \<Longrightarrow> splitlines (events_text es) = map encode_event es"
proof (induction es)
  case Nil
  show ?case by (simp add: events_text_def splitlines.simps)
next
  case (Cons e es)
  have "events_text (e # es) = encode_event e @ CHR 0x0A # events_text es"
    by (simp add: events_text_def)
  moreover have "closed_text (encode_event e)" using Cons.prems by (simp add: closed_encode)
  ultimately show ?case
    using Cons by (subst splitlines.simps) (simp add: take_line_closed)
qed

lemma strip_encode: "strip (encode_event e) \<noteq> []"
proof -
  obtain t where t: "encode_event e = CHR ''{'' # t" by (simp add: encode_event_def)
  have "\<not> is_space (CHR ''{'')" by (simp add: is_space_def)
  then have "strip (CHR ''{'' # t) \<noteq> []"
    by (auto simp: strip_def dropWhile_append)
  then show ?thesis by (simp add: t)
qed

text \<open>
  C3. The log file is read back as it was written: for events whose payload has no repeated key and
  whose texts are free of the separators U+0085, U+2028 and U+2029, reading the lines that the
  appends wrote returns exactly these events.
\<close>

theorem events_file_roundtrip:
  assumes "\<And>e. e \<in> set es \<Longrightarrow> storable e"
  shows "read_events_text now (events_text es) = Inr es"
proof -
  have "filter (\<lambda>line. strip line \<noteq> []) (splitlines (events_text es)) = map encode_event es"
    using splitlines_events [OF assms] strip_encode by (simp add: filter_id_conv)
  moreover have "rmap (\<lambda>line. case decode_event now line of
         Inl _ \<Rightarrow> Inl (Exn SessionStoreError ''events.jsonl is corrupted'')
       | Inr e \<Rightarrow> Inr e) (map encode_event es) = Inr es"
    using assms by (auto simp: rmap_eq_Inr_iff list_all2_conv_all_nth decode_encode storable_def)
  ultimately show ?thesis by (simp add: read_events_text_def)
qed

theorem events_file_roundtrip_witness:
  "read_events_text ''t9'' (events_text (st_events (snd demo_turn))) = Inr (st_events (snd demo_turn))
   \<and> length (st_events (snd demo_turn)) = 2"
proof -
  have "list_all storable (st_events (snd demo_turn)) \<and> length (st_events (snd demo_turn)) = 2"
    unfolding demo_turn_def demo_session_def demo_created_def by code_simp
  with events_file_roundtrip [of "st_events (snd demo_turn)" "''t9''"] show ?thesis
    by (simp add: list_all_iff)
qed

text \<open>
  C5. The condition on separators is needed: the JSON writer leaves U+0085, U+2028 and U+2029
  as they are and the reader splits lines at them, so a session that stored a user message with
  one of them raises \<^verbatim>\<open>SessionStoreError\<close> from then on, whenever its log is read.
\<close>

theorem separator_corrupts_log:
  "list_all (\<lambda>sep. read_events_text now (events_text (st_events (snd (append_event ''t1'' ''user_message''
       [(''message'', JStr (''a'' @ sep @ ''b''))] demo_session))))
     = Inl (Exn SessionStoreError ''events.jsonl is corrupted''))
     [[CHR 0xC2, CHR 0x85], [CHR 0xE2, CHR 0x80, CHR 0xA8], [CHR 0xE2, CHR 0x80, CHR 0xA9]]"
  unfolding demo_session_def demo_created_def by code_simp

end
