(* ===== verification/Turn_Budget.thy ===== *)
theory Turn_Budget
  imports Session_Machine
begin

text \<open>
  \<^verbatim>\<open>codeagent/runtime/turn_budget.py\<close>: the model-step budget of the current user turn is a
  projection of the log, and only the user's explicit request raises its limit. Arguments that
  come from the RPC client are JSON values, since the code checks their types.
\<close>

section \<open>The projection\<close>

record turn_budget =
  tb_turn :: "string option"
  tb_used :: int
  tb_limit :: int
  tb_closed :: bool
  tb_waiting :: bool

definition max_user_turn_budget :: int where
  "max_user_turn_budget = 1000"

abbreviation is_user :: "session_event \<Rightarrow> bool" where
  "is_user e \<equiv> ev_type e = ''user_message''"

text \<open>\<^verbatim>\<open>events[start:]\<close> from the last user message on.\<close>

definition last_turn :: "session_event list \<Rightarrow> session_event list" where
  "last_turn es =
     (case dropWhile (\<lambda>e. \<not> is_user e) (rev es) of
        [] \<Rightarrow> []
      | u # _ \<Rightarrow> u # rev (takeWhile (\<lambda>e. \<not> is_user e) (rev es)))"

definition limit_step :: "int \<Rightarrow> session_event \<Rightarrow> int res" where
  "limit_step limit e =
     (if ev_type e = ''turn_budget_exhausted''
      then rbind (dindex (ev_payload e) ''max_model_steps_per_user_turn'') py_int
      else if ev_type e = ''turn_budget_increased''
      then rbind (dindex (ev_payload e) ''new_limit'') py_int
      else Inr limit)"

definition count_steps :: "session_event list \<Rightarrow> int" where
  "count_steps es = int (length (filter is_model_step es))"

definition closes_turn :: "session_event \<Rightarrow> bool" where
  "closes_turn e = (ev_type e \<in> {''assistant_message'', ''turn_terminated''})"

definition current_turn_budget :: "session_event list \<Rightarrow> int \<Rightarrow> turn_budget res" where
  "current_turn_budget events default_limit =
     (case last_turn events of
        [] \<Rightarrow> Inr \<lparr>tb_turn = None, tb_used = 0, tb_limit = default_limit, tb_closed = True,
                  tb_waiting = False\<rparr>
      | first # rest \<Rightarrow>
          rbind (py_int (dget_or (ev_payload first) ''max_model_steps_per_user_turn'' (JInt default_limit)))
            (\<lambda>limit0. rbind (rfold limit_step limit0 (first # rest)) (\<lambda>limit.
             let used = count_steps (first # rest);
                 closed = list_ex closes_turn (first # rest)
             in Inr \<lparr>tb_turn = ev_turn first, tb_used = used, tb_limit = limit, tb_closed = closed,
                     tb_waiting = (\<not> closed \<and> limit \<le> used)\<rparr>)))"

definition store_turn_budget :: "turn_budget store_prog" where
  "store_turn_budget =
     bnd read_meta (\<lambda>meta.
     bnd read_events (\<lambda>events.
     case as_obj (jor (dget meta ''runtime_options'') (JObj [])) of
       None \<Rightarrow> raise (Exn TypeError ''runtime_options'')
     | Some options \<Rightarrow>
         lift (rbind (py_int (dget_or options ''max_model_steps_per_user_turn'' (JInt 48)))
           (current_turn_budget events))))"

section \<open>Raising the limit\<close>

text \<open>\<^verbatim>\<open>type(v) is int\<close>, which a boolean is not.\<close>

fun exact_int :: "json \<Rightarrow> int option" where
  "exact_int (JInt i) = Some i"
| "exact_int _ = None"

definition resolve_limit :: "int \<Rightarrow> json \<Rightarrow> json \<Rightarrow> (int \<times> string) res" where
  "resolve_limit limit new_limit additional_steps =
     (if (new_limit = JNull) = (additional_steps = JNull)
      then Inl (Exn ValueError ''exactly one'')
      else if additional_steps \<noteq> JNull
      then (case exact_int additional_steps of
              None \<Rightarrow> Inl (Exn ValueError ''additional steps'')
            | Some n \<Rightarrow> if n \<le> 0 then Inl (Exn ValueError ''additional steps'')
                        else Inr (limit + n, ''additional_steps''))
      else (case exact_int new_limit of
              None \<Rightarrow> Inl (Exn ValueError ''new limit'')
            | Some n \<Rightarrow> Inr (n, ''total_limit'')))"

definition increase_turn_budget ::
  "string \<Rightarrow> json \<Rightarrow> json \<Rightarrow> json \<Rightarrow> json \<Rightarrow> turn_budget store_prog" where
  "increase_turn_budget now turn_id expected_limit new_limit additional_steps =
     bnd store_turn_budget (\<lambda>budget.
     bnd workspace_state (\<lambda>ws.
     if ws \<notin> {SourceOnly, ChangesActive} then raise (Exn ValueError ''requires recovery'')
     else if \<not> truthy turn_id \<or> opt_str (tb_turn budget) \<noteq> turn_id \<or> tb_closed budget \<or> \<not> tb_waiting budget
     then raise (Exn ValueError ''not waiting'')
     else if exact_int expected_limit \<noteq> Some (tb_limit budget)
     then raise (Exn ValueError ''budget changed'')
     else bnd (lift (resolve_limit (tb_limit budget) new_limit additional_steps)) (\<lambda>(resolved, mode).
       if \<not> (tb_limit budget < resolved \<and> resolved \<le> max_user_turn_budget)
       then raise (Exn ValueError ''limit range'')
       else seq_then (append_event now ''turn_budget_increased''
              [(''previous_limit'', JInt (tb_limit budget)), (''new_limit'', JInt resolved),
               (''additional_steps'', JInt (resolved - tb_limit budget)),
               (''mode'', JStr mode), (''steps_used_in_turn'', JInt (tb_used budget)),
               (''source'', JStr ''user'')])
            store_turn_budget)))"

section \<open>One more event\<close>

lemma last_turn_append_user: "is_user e \<Longrightarrow> last_turn (es @ [e]) = [e]"
  by (simp add: last_turn_def)

lemma last_turn_append_other:
  "\<not> is_user e \<Longrightarrow> last_turn (es @ [e]) = (if last_turn es = [] then [] else last_turn es @ [e])"
  by (cases "dropWhile (\<lambda>e. \<not> is_user e) (rev es)")
    (simp_all add: last_turn_def del: dropWhile_eq_Nil_conv)

lemma count_steps_snoc: "count_steps (es @ [e]) = count_steps es + (if is_model_step e then 1 else 0)"
  by (simp add: count_steps_def)

text \<open>
  How the projection moves when an event other than a user message is appended to a log with a
  turn.
\<close>

lemma budget_snoc:
  assumes "current_turn_budget es d = Inr b" and "tb_turn b \<noteq> None" and "\<not> is_user e"
  shows "current_turn_budget (es @ [e]) d = rbind (limit_step (tb_limit b) e) (\<lambda>limit.
    let used = tb_used b + (if is_model_step e then 1 else 0);
        closed = (tb_closed b \<or> closes_turn e)
    in Inr \<lparr>tb_turn = tb_turn b, tb_used = used, tb_limit = limit, tb_closed = closed,
            tb_waiting = (\<not> closed \<and> limit \<le> used)\<rparr>)"
proof (cases "last_turn es")
  case Nil
  with assms show ?thesis by (auto simp: current_turn_budget_def)
next
  case (Cons first rest)
  from assms Cons obtain l0 where
    l0: "py_int (dget_or (ev_payload first) ''max_model_steps_per_user_turn'' (JInt d)) = Inr l0"
    and l: "rfold limit_step l0 (first # rest) = Inr (tb_limit b)"
    and b: "tb_turn b = ev_turn first" "tb_used b = count_steps (first # rest)"
      "tb_closed b = list_ex closes_turn (first # rest)"
    by (auto simp: current_turn_budget_def result_simps Let_def)
  have "last_turn (es @ [e]) = first # (rest @ [e])"
    using Cons assms(3) by (simp add: last_turn_append_other)
  moreover have "rfold limit_step l0 (first # (rest @ [e])) = rbind (limit_step (tb_limit b) e) Inr"
    using l rfold_append [of limit_step l0 "first # rest" "[e]"] by simp
  moreover have "count_steps (first # (rest @ [e])) = tb_used b + (if is_model_step e then 1 else 0)"
    using b count_steps_snoc [of "first # rest" e] by simp
  ultimately show ?thesis
    using l0 b by (cases "limit_step (tb_limit b) e") (simp_all add: current_turn_budget_def Let_def)
qed

text \<open>The projection of a whole batch of runtime events that leave the limit alone.\<close>

lemma budget_append_steps:
  assumes "current_turn_budget es d = Inr b" and "tb_turn b \<noteq> None"
    and "\<forall>e \<in> set fs. \<not> is_user e \<and> ev_type e \<notin> {''turn_budget_exhausted'', ''turn_budget_increased''}"
  shows "\<exists>b'. current_turn_budget (es @ fs) d = Inr b' \<and> tb_turn b' = tb_turn b \<and> tb_limit b' = tb_limit b
    \<and> tb_used b' = tb_used b + count_steps fs \<and> (tb_closed b' \<longleftrightarrow> tb_closed b \<or> list_ex closes_turn fs)"
  using assms
proof (induction fs arbitrary: es b)
  case Nil
  then show ?case by (simp add: count_steps_def)
next
  case (Cons f fs)
  have "limit_step (tb_limit b) f = Inr (tb_limit b)"
    using Cons.prems(3) by (simp add: limit_step_def)
  then obtain b1 where b1: "current_turn_budget (es @ [f]) d = Inr b1" "tb_turn b1 = tb_turn b"
      "tb_limit b1 = tb_limit b" "tb_used b1 = tb_used b + (if is_model_step f then 1 else 0)"
      "tb_closed b1 \<longleftrightarrow> tb_closed b \<or> closes_turn f"
    using budget_snoc [OF Cons.prems(1,2)] Cons.prems(3) by (simp add: Let_def)
  from Cons.IH [OF b1(1)] b1 Cons.prems obtain b2 where
    "current_turn_budget ((es @ [f]) @ fs) d = Inr b2" "tb_turn b2 = tb_turn b" "tb_limit b2 = tb_limit b"
    "tb_used b2 = tb_used b1 + count_steps fs" "tb_closed b2 \<longleftrightarrow> tb_closed b1 \<or> list_ex closes_turn fs"
    by auto
  with b1 show ?case by (intro exI [of _ b2]) (auto simp: count_steps_def)
qed

section \<open>What the store computes\<close>

definition default_limit :: "store \<Rightarrow> int res" where
  "default_limit st =
     (case as_obj (jor (dget (st_meta st) ''runtime_options'') (JObj [])) of
        None \<Rightarrow> Inl (Exn TypeError ''runtime_options'')
      | Some options \<Rightarrow> py_int (dget_or options ''max_model_steps_per_user_turn'' (JInt 48)))"

lemma store_turn_budget_run:
  "log_ok st \<Longrightarrow> store_turn_budget st =
     (rbind (default_limit st) (current_turn_budget (st_events st)), st)"
  by (auto simp: store_turn_budget_def default_limit_def split: option.splits)

lemma default_limit_with_event [simp]: "default_limit (with_event now ty payload st) = default_limit st"
  by (simp add: default_limit_def with_event_def Let_def advance_meta_def retitle_def)

lemma workspace_state_run:
  "log_ok st \<Longrightarrow> workspace_state st =
     ((case parse_ws (dget (st_meta st) ''workspace_state'') of
         None \<Rightarrow> Inl (Exn SessionStoreError ''workspace_state'') | Some s \<Rightarrow> Inr s), st)"
  by (auto simp: workspace_state_def split: option.splits)

lemma resolve_limit_Inr:
  "resolve_limit l new add = Inr (r, mode) \<longleftrightarrow>
     (new = JNull \<and> (\<exists>n. add = JInt n \<and> 0 < n \<and> r = l + n) \<and> mode = ''additional_steps'')
     \<or> (add = JNull \<and> new = JInt r \<and> mode = ''total_limit'')"
proof -
  have i: "exact_int v = Some n \<longleftrightarrow> v = JInt n" for v n by (cases v) auto
  show ?thesis
    by (auto simp: resolve_limit_def i split: option.splits if_splits)
qed

section \<open>Properties\<close>

text \<open>
  The projection is incremental: appending an event other than a user message keeps the turn,
  adds one to the used count exactly for the four model-step events, closes the turn exactly for a
  final message or a termination, and moves the limit only for the two budget events.
\<close>

theorem budget_projection_incremental:
  assumes "current_turn_budget es d = Inr b" and "tb_turn b \<noteq> None" and "ev_type e \<noteq> ''user_message''"
    and "current_turn_budget (es @ [e]) d = Inr b'"
  shows "tb_turn b' = tb_turn b
    \<and> tb_used b' = tb_used b + (if ev_type e \<in> set model_step_types then 1 else 0)
    \<and> (tb_closed b' \<longleftrightarrow> tb_closed b \<or> ev_type e \<in> {''assistant_message'', ''turn_terminated''})
    \<and> (ev_type e \<notin> {''turn_budget_exhausted'', ''turn_budget_increased''} \<longrightarrow> tb_limit b' = tb_limit b)
    \<and> (tb_waiting b' \<longleftrightarrow> \<not> tb_closed b' \<and> tb_limit b' \<le> tb_used b')"
  using assms budget_snoc [OF assms(1-3)]
  by (auto simp: result_simps Let_def is_model_step_def closes_turn_def limit_step_def)

definition ev0 :: "string \<Rightarrow> dict \<Rightarrow> session_event" where
  "ev0 ty payload = \<lparr>ev_seq = None, ev_turn = Some ''turn-1'', ev_step = None, ev_ts = [], ev_type = ty,
     ev_payload = payload\<rparr>"

definition demo_log :: "session_event list" where
  "demo_log = [ev0 ''user_message'' [(''max_model_steps_per_user_turn'', JInt 2)],
     ev0 ''assistant_tool_calls'' [], ev0 ''tool_result'' []]"

theorem budget_projection_incremental_witness:
  "\<exists>b'. current_turn_budget (demo_log @ [ev0 ''model_output_truncated'' []]) 48 = Inr b'
     \<and> tb_used b' = 2 \<and> tb_limit b' = 2 \<and> tb_waiting b'"
proof -
  have b: "current_turn_budget demo_log 48 = Inr \<lparr>tb_turn = Some ''turn-1'', tb_used = 1, tb_limit = 2,
      tb_closed = False, tb_waiting = False\<rparr>"
    unfolding demo_log_def by code_simp
  have "\<exists>b'. current_turn_budget (demo_log @ [ev0 ''model_output_truncated'' []]) 48 = Inr b'"
    by (simp add: budget_snoc [OF b] ev0_def limit_step_def Let_def)
  then obtain b' where b': "current_turn_budget (demo_log @ [ev0 ''model_output_truncated'' []]) 48 = Inr b'"
    by blast
  from budget_projection_incremental [OF b _ _ b'] have "tb_used b' = 2 \<and> tb_limit b' = 2 \<and> tb_waiting b'"
    by (simp add: ev0_def model_step_types_def)
  with b' show ?thesis by blast
qed

text \<open>
  A budget increase that returns has appended exactly one event; the new limit is the requested
  one, above the old limit and at most 1000; the turn and the used count are those of before (no
  reset), and the turn no longer waits unless the new limit is still not above the used count. It
  returns only for the turn that is open and waiting at the limit the caller expected, in an
  undamaged workspace.
\<close>

theorem increase_turn_budget_returns:
  assumes "session_reachable st"
    and "increase_turn_budget now turn_id expected new additional st = (Inr b', st')"
  shows "\<exists>b e. store_turn_budget st = (Inr b, st)
    \<and> tb_waiting b \<and> turn_id = opt_str (tb_turn b) \<and> expected = JInt (tb_limit b)
    \<and> st_events st' = st_events st @ [e] \<and> ev_type e = ''turn_budget_increased''
    \<and> store_turn_budget st' = (Inr b', st')
    \<and> tb_limit b < tb_limit b' \<and> tb_limit b' \<le> 1000
    \<and> (if new = JNull then additional = JInt (tb_limit b' - tb_limit b) else new = JInt (tb_limit b'))
    \<and> tb_turn b' = tb_turn b \<and> tb_used b' = tb_used b \<and> \<not> tb_closed b'
    \<and> (tb_waiting b' \<longleftrightarrow> tb_limit b' \<le> tb_used b')"
proof -
  have ok: "log_ok st" using assms(1) by (rule session_reachable_ok)
  from assms(2) ok obtain b ws r mode where
    b: "rbind (default_limit st) (current_turn_budget (st_events st)) = Inr b"
    and guard: "truthy turn_id" "opt_str (tb_turn b) = turn_id" "\<not> tb_closed b" "tb_waiting b"
      "exact_int expected = Some (tb_limit b)"
    and r: "resolve_limit (tb_limit b) new additional = Inr (r, mode)" "tb_limit b < r" "r \<le> 1000"
    and tail: "seq_then (append_event now ''turn_budget_increased''
        [(''previous_limit'', JInt (tb_limit b)), (''new_limit'', JInt r),
         (''additional_steps'', JInt (r - tb_limit b)), (''mode'', JStr mode),
         (''steps_used_in_turn'', JInt (tb_used b)), (''source'', JStr ''user'')])
        store_turn_budget st = (Inr b', st')"
    by (auto simp: increase_turn_budget_def bnd_eq_Inr store_turn_budget_run workspace_state_run
        max_user_turn_budget_def split: option.splits if_splits prod.splits)
  obtain d where d: "default_limit st = Inr d" "current_turn_budget (st_events st) d = Inr b"
    using b by (auto simp: result_simps)
  define p where "p = [(''previous_limit'', JInt (tb_limit b)), (''new_limit'', JInt r),
         (''additional_steps'', JInt (r - tb_limit b)), (''mode'', JStr mode),
         (''steps_used_in_turn'', JInt (tb_used b)), (''source'', JStr ''user'')]"
  define e where "e = new_event now ''turn_budget_increased'' p st"
  have st': "st' = with_event now ''turn_budget_increased'' p st"
    and run: "store_turn_budget st' = (Inr b', st')"
    using tail ok by (auto simp: p_def append_event_run seq_then_eq_Inr store_turn_budget_run with_event_ok)
  have events: "st_events st' = st_events st @ [e]" by (simp add: st' e_def)
  have turn: "tb_turn b \<noteq> None" using guard(1,2) by (cases "tb_turn b") auto
  have "limit_step (tb_limit b) e = Inr r"
    by (simp add: limit_step_def e_def p_def dindex_def)
  then have "current_turn_budget (st_events st @ [e]) d = Inr \<lparr>tb_turn = tb_turn b, tb_used = tb_used b,
      tb_limit = r, tb_closed = tb_closed b, tb_waiting = (\<not> tb_closed b \<and> r \<le> tb_used b)\<rparr>"
    using budget_snoc [OF d(2) turn, of e] by (simp add: e_def is_model_step_def model_step_types_def closes_turn_def Let_def)
  then have b': "b' = \<lparr>tb_turn = tb_turn b, tb_used = tb_used b,
      tb_limit = r, tb_closed = tb_closed b, tb_waiting = (\<not> tb_closed b \<and> r \<le> tb_used b)\<rparr>"
    using run ok d(1) events by (simp add: store_turn_budget_run st' with_event_ok)
  have "expected = JInt (tb_limit b)" using guard(5) by (cases expected) auto
  moreover have "if new = JNull then additional = JInt (r - tb_limit b) else new = JInt r"
    using r(1) by (auto simp: resolve_limit_Inr)
  ultimately show ?thesis
    using guard r events run b' ok b
    by (intro exI [of _ b] exI [of _ e]) (simp add: store_turn_budget_run e_def)
qed

text \<open>A session whose turn has used its single model step.\<close>

definition demo_waiting :: store where
  "demo_waiting = snd (run_op (Append ''t2'' ''assistant_tool_calls'' [])
     (snd (run_op (Append ''t1'' ''user_message'' [(''max_model_steps_per_user_turn'', JInt 1)]) demo_session)))"

lemma demo_waiting_reachable: "session_reachable demo_waiting"
proof -
  have "session_reachable (snd (run_op (Append now ty payload) st))" if "session_reachable st" for now ty payload st
    by (rule session_reachable.operation [OF that, of "Append now ty payload", OF _ prod.collapse [symmetric]])
      (simp add: proper_op_def)
  then show ?thesis by (simp add: demo_waiting_def demo_session_reachable)
qed

theorem increase_turn_budget_returns_witness:
  "let (r, st') = increase_turn_budget ''t3'' (JStr ''turn-2'') (JInt 1) JNull (JInt 2) demo_waiting in
     length (st_events st') = 4 \<and> (\<exists>b'. r = Inr b' \<and> tb_limit b' \<le> 1000 \<and> tb_used b' = 1 \<and> \<not> tb_waiting b')"
proof -
  define res where "res = increase_turn_budget ''t3'' (JStr ''turn-2'') (JInt 1) JNull (JInt 2) demo_waiting"
  have "(case fst res of Inl _ \<Rightarrow> False | Inr b \<Rightarrow> tb_used b = 1 \<and> tb_limit b = 3)
      \<and> length (st_events demo_waiting) = 3"
    unfolding res_def demo_waiting_def demo_session_def demo_created_def by code_simp
  then obtain b' st' where r: "res = (Inr b', st')" and b': "tb_used b' = 1" "tb_limit b' = 3"
      and n: "length (st_events demo_waiting) = 3"
    by (cases res) (auto split: sum.splits)
  from increase_turn_budget_returns [OF demo_waiting_reachable r [unfolded res_def]]
  show ?thesis using r b' n by (auto simp: res_def)
qed

end
