(* ===== verification/Context_Projector.thy ===== *)
theory Context_Projector
  imports Event_File Turn_Budget "HOL-Library.Multiset"
begin

text \<open>
  \<^verbatim>\<open>codeagent/context/models.py\<close> and \<^verbatim>\<open>context/projector.py\<close>: the event log read back as user
  turns with model steps and tool exchanges, and as an allow-listed history of atoms that must
  not be split. In the code \<^verbatim>\<open>current\<close>, \<^verbatim>\<open>current_step\<close> and the values of \<^verbatim>\<open>calls\<close> alias parts of
  the last turn; here the last turn is a field of the state, its current step is its last step
  (when the flag says there is one), and a call is looked up in its steps.
\<close>

section \<open>Data\<close>

record tool_exchange =
  te_call_id :: string
  te_tool :: string
  te_arguments :: dict
  te_source_seq :: int
  te_terminal_kind :: "string option"
  te_terminal_seq :: "int option"
  te_result :: "dict option"

record model_step_view =
  ms_id :: string
  ms_seq :: int
  ms_atom :: string
  ms_turn :: string
  ms_message :: string
  ms_reasoning :: "string option"
  ms_exchanges :: "tool_exchange list"
  ms_protocol_error :: "dict option"
  ms_truncated :: bool

definition step_closed :: "model_step_view \<Rightarrow> bool" where
  "step_closed s = (ms_exchanges s = [] \<or> list_all (\<lambda>x. te_terminal_kind x \<noteq> None) (ms_exchanges s))"

record user_turn_view =
  ut_id :: string
  ut_message :: string
  ut_seq :: int
  ut_steps :: "model_step_view list"
  ut_final :: "string option"
  ut_final_reasoning :: "string option"

record history_item =
  hi_seq :: int
  hi_id :: string
  hi_type :: string
  hi_turn :: "string option"
  hi_step :: "string option"
  hi_atom :: string
  hi_payload :: dict

record manipulation_atom =
  at_id :: string
  at_items :: "history_item list"
  at_closed :: bool
  at_reasoning :: "string option"

record context_projection =
  pj_turns :: "user_turn_view list"
  pj_items :: "history_item list"
  pj_atoms :: "manipulation_atom list"

definition cces_event_types :: "string list" where
  "cces_event_types = [''user_message'', ''assistant_tool_calls'', ''tool_result'', ''tool_denied'',
     ''assistant_message'', ''turn_terminated'']"

section \<open>Reading payloads\<close>

definition event_id :: "int \<Rightarrow> string" where
  "event_id seq = ''seq:'' @ show_int seq"

text \<open>\<^verbatim>\<open>x or default\<close> on an optional text, and \<^verbatim>\<open>str(v) if v is not None else None\<close>.\<close>

definition str_or :: "string option \<Rightarrow> string \<Rightarrow> string" where
  "str_or x d = (case x of None \<Rightarrow> d | Some s \<Rightarrow> if s = [] then d else s)"

definition str_unless_none :: "json \<Rightarrow> string option" where
  "str_unless_none v = (if v = JNull then None else Some (py_str v))"

text \<open>\<^verbatim>\<open>dict(v)\<close>, and \<^verbatim>\<open>item.get\<close> for the items of an iterated value.\<close>

definition py_dict :: "json \<Rightarrow> dict res" where
  "py_dict v = (case v of JObj d \<Rightarrow> Inr d | JArr [] \<Rightarrow> Inr [] | JStr [] \<Rightarrow> Inr []
     | JArr _ \<Rightarrow> Inl (Exn TypeError ''dict'') | JStr _ \<Rightarrow> Inl (Exn ValueError ''dict'')
     | _ \<Rightarrow> Inl (Exn TypeError ''dict''))"

definition as_item :: "json \<Rightarrow> dict res" where
  "as_item v = (case v of JObj d \<Rightarrow> Inr d | _ \<Rightarrow> Inl (Exn AttributeError ''get''))"

definition items_of :: "json \<Rightarrow> dict list res" where
  "items_of v = (case v of
     JArr xs \<Rightarrow> rmap as_item xs
   | JObj d \<Rightarrow> if d = [] then Inr [] else Inl (Exn AttributeError ''get'')
   | JStr s \<Rightarrow> if s = [] then Inr [] else Inl (Exn AttributeError ''get'')
   | _ \<Rightarrow> Inl (Exn TypeError ''iterate''))"

definition tool_call_items :: "session_event \<Rightarrow> dict list res" where
  "tool_call_items e = items_of (dget_or (ev_payload e) ''tool_calls'' (JArr []))"

definition str_get :: "dict \<Rightarrow> string \<Rightarrow> string \<Rightarrow> string" where
  "str_get d k dflt = py_str (dget_or d k (JStr dflt))"

definition str_get_or :: "dict \<Rightarrow> string \<Rightarrow> string" where
  "str_get_or d k = py_str (jor (dget d k) (JStr []))"

definition call_arguments :: "dict \<Rightarrow> dict res" where
  "call_arguments item = py_dict (jor (dget item ''arguments'') (JObj []))"

definition result_payload :: "session_event \<Rightarrow> dict" where
  "result_payload e =
     (case dget (ev_payload e) ''result'' of
        JObj d \<Rightarrow> d
      | _ \<Rightarrow>
        if ev_type e = ''tool_denied''
        then [(''ok'', JBool False), (''error'', dget_or (ev_payload e) ''reason'' (JStr ''tool denied'')),
              (''error_code'', JStr ''tool_denied'')]
        else (case loads (py_str (jor (dget (ev_payload e) ''content'') (JStr ''{}''))) of
            None \<Rightarrow> [(''ok'', JBool True), (''content'', JStr (str_get_or (ev_payload e) ''content''))]
          | Some (JObj d) \<Rightarrow> d
          | Some v \<Rightarrow> [(''ok'', JBool True), (''content'', JStr (py_str v))]))"

section \<open>Turns, steps and exchanges\<close>

record turn_state =
  ts_past :: "user_turn_view list"
  ts_current :: "user_turn_view option"
  ts_in_step :: bool

definition no_turns :: turn_state where
  "no_turns = \<lparr>ts_past = [], ts_current = None, ts_in_step = False\<rparr>"

definition turns_of :: "turn_state \<Rightarrow> user_turn_view list" where
  "turns_of s = ts_past s @ (case ts_current s of None \<Rightarrow> [] | Some t \<Rightarrow> [t])"

text \<open>\<^verbatim>\<open>current_step\<close>.\<close>

definition current_step :: "turn_state \<Rightarrow> model_step_view option" where
  "current_step s = (case ts_current s of None \<Rightarrow> None
     | Some t \<Rightarrow> if ts_in_step s \<and> ut_steps t \<noteq> [] then Some (last (ut_steps t)) else None)"

definition require_closed :: "turn_state \<Rightarrow> unit res" where
  "require_closed s = (case current_step s of None \<Rightarrow> Inr ()
     | Some m \<Rightarrow> require (step_closed m) (Exn ContextNotReady (ms_id m)))"

definition turn_exchanges :: "user_turn_view \<Rightarrow> tool_exchange list" where
  "turn_exchanges t = concat (map ms_exchanges (ut_steps t))"

definition add_step :: "model_step_view \<Rightarrow> user_turn_view \<Rightarrow> user_turn_view" where
  "add_step m t = t\<lparr>ut_steps := ut_steps t @ [m]\<rparr>"

text \<open>The exchanges of a new step; \<open>seen\<close> are the keys of \<^verbatim>\<open>calls\<close>.\<close>

fun open_exchanges :: "int \<Rightarrow> string list \<Rightarrow> dict list \<Rightarrow> tool_exchange list res" where
  "open_exchanges seq seen [] = Inr []"
| "open_exchanges seq seen (item # items) =
     (let call_id = str_get item ''call_id'' [] in
      if call_id = [] \<or> call_id \<in> set seen then Inl (Exn ProjectionError ''call_id'')
      else rbind (call_arguments item) (\<lambda>arguments.
           rbind (open_exchanges seq (call_id # seen) items) (\<lambda>rest.
           Inr (\<lparr>te_call_id = call_id, te_tool = str_get item ''name'' [], te_arguments = arguments,
                 te_source_seq = seq, te_terminal_kind = None, te_terminal_seq = None,
                 te_result = None\<rparr> # rest))))"

definition set_terminal ::
  "string \<Rightarrow> string \<Rightarrow> int \<Rightarrow> dict \<Rightarrow> user_turn_view \<Rightarrow> user_turn_view" where
  "set_terminal call_id kind seq result t =
     t\<lparr>ut_steps := map (\<lambda>m. m\<lparr>ms_exchanges := map (\<lambda>x. if te_call_id x = call_id
          then x\<lparr>te_terminal_kind := Some kind, te_terminal_seq := Some seq, te_result := Some result\<rparr>
          else x) (ms_exchanges m)\<rparr>) (ut_steps t)\<rparr>"

definition plain_step :: "int \<Rightarrow> session_event \<Rightarrow> user_turn_view \<Rightarrow> string \<Rightarrow> model_step_view" where
  "plain_step seq e t atom_id =
     \<lparr>ms_id = str_or (ev_step e) (''legacy-step-'' @ show_int seq), ms_seq = seq, ms_atom = atom_id,
      ms_turn = ut_id t, ms_message = [], ms_reasoning = None, ms_exchanges = [],
      ms_protocol_error = None, ms_truncated = False\<rparr>"

definition step_reasoning :: "session_event \<Rightarrow> string option" where
  "step_reasoning e = str_unless_none (dget (ev_payload e) ''reasoning_content'')"

definition project_terminal :: "int \<Rightarrow> session_event \<Rightarrow> user_turn_view \<Rightarrow> turn_state \<Rightarrow> turn_state res" where
  "project_terminal seq e t s =
     (let call_id = str_get (ev_payload e) ''call_id'' [] in
      case find (\<lambda>x. te_call_id x = call_id) (turn_exchanges t) of
        None \<Rightarrow> Inl (Exn ProjectionError ''unknown call_id'')
      | Some x \<Rightarrow>
          if te_terminal_kind x \<noteq> None then Inl (Exn ProjectionError ''duplicate terminal'')
          else if (case (ev_step e, current_step s) of (Some i, Some m) \<Rightarrow> i \<noteq> [] \<and> i \<noteq> ms_id m | _ \<Rightarrow> False)
          then Inl (Exn ProjectionError ''model_step_id'')
          else Inr (s\<lparr>ts_current := Some (set_terminal call_id
                 (if ev_type e = ''tool_result'' then ''result'' else ''denied'') seq (result_payload e) t)\<rparr>))"

definition project_in_turn :: "int \<Rightarrow> session_event \<Rightarrow> user_turn_view \<Rightarrow> turn_state \<Rightarrow> turn_state res" where
  "project_in_turn seq e t s =
     (if ev_type e = ''assistant_tool_calls'' then
        rbind (require_closed s) (\<lambda>_.
        rbind (tool_call_items e) (\<lambda>items.
        rbind (open_exchanges seq (map te_call_id (turn_exchanges t)) items) (\<lambda>exchanges.
        let m = plain_step seq e t [] in
        Inr (s\<lparr>ts_current := Some (add_step (m\<lparr>ms_atom := ''model-step:'' @ ms_id m,
                 ms_message := str_get_or (ev_payload e) ''message'', ms_reasoning := step_reasoning e,
                 ms_exchanges := exchanges\<rparr>) t),
               ts_in_step := True\<rparr>))))
      else if ev_type e \<in> {''tool_result'', ''tool_denied''} then project_terminal seq e t s
      else if ev_type e = ''model_protocol_error'' then
        rbind (require_closed s) (\<lambda>_.
        Inr (s\<lparr>ts_current := Some (add_step ((plain_step seq e t (''protocol:'' @ event_id seq))
                 \<lparr>ms_protocol_error := Some (ev_payload e)\<rparr>) t),
               ts_in_step := True\<rparr>))
      else if ev_type e = ''model_output_truncated'' then
        rbind (require_closed s) (\<lambda>_.
        Inr (s\<lparr>ts_current := Some (add_step ((plain_step seq e t (''truncation:'' @ event_id seq))
                 \<lparr>ms_message := str_get_or (ev_payload e) ''message'', ms_reasoning := step_reasoning e,
                  ms_truncated := True\<rparr>) t),
               ts_in_step := True\<rparr>))
      else if ev_type e = ''assistant_message'' then
        rbind (require_closed s) (\<lambda>_.
        Inr (s\<lparr>ts_current := Some ((add_step ((plain_step seq e t (''event:'' @ event_id seq))
                 \<lparr>ms_message := str_get (ev_payload e) ''message'' [], ms_reasoning := step_reasoning e\<rparr>) t)
                 \<lparr>ut_final := Some (str_get (ev_payload e) ''message'' []),
                  ut_final_reasoning := step_reasoning e\<rparr>),
               ts_in_step := False\<rparr>))
      else if ev_type e = ''turn_terminated'' then
        rbind (require_closed s) (\<lambda>_.
        Inr (s\<lparr>ts_current := Some (t\<lparr>ut_final := Some (str_get (ev_payload e) ''message'' ''UserTurn terminated'')\<rparr>),
               ts_in_step := False\<rparr>))
      else Inr s)"

definition project_event :: "turn_state \<Rightarrow> int \<times> session_event \<Rightarrow> turn_state res" where
  "project_event s = (\<lambda>(seq, e).
     if ev_type e = ''user_message'' then
       rbind (require_closed s) (\<lambda>_.
       Inr \<lparr>ts_past = turns_of s,
            ts_current = Some \<lparr>ut_id = str_or (ev_turn e) (''legacy-turn-'' @ show_int seq),
              ut_message = str_get (ev_payload e) ''message'' [], ut_seq = seq, ut_steps = [],
              ut_final = None, ut_final_reasoning = None\<rparr>,
            ts_in_step = False\<rparr>)
     else (case ts_current s of None \<Rightarrow> Inr s | Some t \<Rightarrow> project_in_turn seq e t s))"

definition project_events :: "session_event list \<Rightarrow> user_turn_view list res" where
  "project_events events =
     rbind (rfold project_event no_turns (normalized events)) (\<lambda>s. Inr (turns_of s))"

section \<open>The allow-listed history\<close>

text \<open>The first pass: the calls, terminals and reasoning of every step.\<close>

record step_index =
  si_calls :: "string \<rightharpoonup> string list"
  si_terminals :: "string \<rightharpoonup> string list"
  si_reasoning :: "string \<rightharpoonup> string option"
  si_call_step :: "string \<rightharpoonup> string"

definition no_index :: step_index where
  "no_index = \<lparr>si_calls = Map.empty, si_terminals = Map.empty, si_reasoning = Map.empty,
     si_call_step = Map.empty\<rparr>"

definition set_default :: "'k \<Rightarrow> 'v \<Rightarrow> ('k \<rightharpoonup> 'v) \<Rightarrow> ('k \<rightharpoonup> 'v)" where
  "set_default k v m = (case m k of None \<Rightarrow> m(k \<mapsto> v) | Some _ \<Rightarrow> m)"

definition step_name :: "int \<Rightarrow> session_event \<Rightarrow> string" where
  "step_name seq e = str_or (ev_step e) (''legacy-step-'' @ show_int seq)"

text \<open>\<^verbatim>\<open>event.model_step_id or call_step.get(call_id)\<close>, where no id and the empty id are false.\<close>

definition terminal_step :: "(string \<rightharpoonup> string) \<Rightarrow> session_event \<Rightarrow> string" where
  "terminal_step call_step e =
     str_or (ev_step e) (case call_step (str_get (ev_payload e) ''call_id'' []) of None \<Rightarrow> [] | Some s \<Rightarrow> s)"

definition index_event :: "step_index \<Rightarrow> int \<times> session_event \<Rightarrow> step_index res" where
  "index_event ix = (\<lambda>(seq, e).
     if ev_type e = ''assistant_tool_calls'' then
       rbind (tool_call_items e) (\<lambda>items.
       let calls = map (\<lambda>item. str_get item ''call_id'' []) items; sid = step_name seq e in
       Inr \<lparr>si_calls = (si_calls ix)(sid \<mapsto> calls),
            si_terminals = set_default sid [] (si_terminals ix),
            si_reasoning = (si_reasoning ix)(sid \<mapsto> step_reasoning e),
            si_call_step = fold (\<lambda>c m. m(c \<mapsto> sid)) calls (si_call_step ix)\<rparr>)
     else if ev_type e \<in> {''tool_result'', ''tool_denied''} then
       (let sid = terminal_step (si_call_step ix) e in
        if sid = [] then Inr ix
        else Inr (ix\<lparr>si_terminals := (si_terminals ix)(sid \<mapsto>
               (case si_terminals ix sid of None \<Rightarrow> [] | Some cs \<Rightarrow> cs)
               @ [str_get (ev_payload e) ''call_id'' []])\<rparr>))
     else Inr ix)"

definition calls_answered :: "step_index \<Rightarrow> string \<Rightarrow> bool" where
  "calls_answered ix sid =
     (case si_calls ix sid of None \<Rightarrow> False
      | Some calls \<Rightarrow> calls \<noteq> [] \<and>
          set calls = set (case si_terminals ix sid of None \<Rightarrow> [] | Some ts \<Rightarrow> ts))"

text \<open>The second pass: the items, grouped by atom in order of first appearance.\<close>

record atom_groups =
  ag_items :: "(string \<times> history_item list) list"
  ag_closed :: "string \<rightharpoonup> bool"
  ag_reasoning :: "string \<rightharpoonup> string option"

fun add_item :: "string \<Rightarrow> 'a \<Rightarrow> (string \<times> 'a list) list \<Rightarrow> (string \<times> 'a list) list" where
  "add_item k x [] = [(k, [x])]"
| "add_item k x ((k', xs) # g) = (if k' = k then (k', xs @ [x]) # g else (k', xs) # add_item k x g)"

definition call_payload :: "dict \<Rightarrow> json res" where
  "call_payload item = rbind (call_arguments item) (\<lambda>arguments.
     Inr (JObj [(''call_id'', JStr (str_get item ''call_id'' [])), (''name'', JStr (str_get item ''name'' [])),
                (''arguments'', JObj arguments)]))"

text \<open>The atom an event belongs to and its payload in the history.\<close>

definition item_of_event :: "step_index \<Rightarrow> int \<Rightarrow> session_event \<Rightarrow> (string \<times> dict) res" where
  "item_of_event ix seq e =
     (if ev_type e = ''user_message'' then
        Inr (''event:'' @ event_id seq, [(''message'', JStr (str_get (ev_payload e) ''message'' []))])
      else if ev_type e = ''assistant_tool_calls'' then
        rbind (tool_call_items e) (\<lambda>items. rbind (rmap call_payload items) (\<lambda>calls.
        Inr (''model-step:'' @ step_name seq e,
             [(''message'', JStr (str_get_or (ev_payload e) ''message'')), (''tool_calls'', JArr calls)])))
      else if ev_type e \<in> {''tool_result'', ''tool_denied''} then
        (let sid = terminal_step (si_call_step ix) e in
         Inr (''model-step:'' @ (if sid = [] then ''orphan-'' @ show_int seq else sid),
              [(''call_id'', JStr (str_get (ev_payload e) ''call_id'' [])),
               (''name'', JStr (str_get (ev_payload e) ''name'' [])),
               (''terminal_kind'', JStr (if ev_type e = ''tool_result'' then ''result'' else ''denied'')),
               (''result'', JObj (result_payload e))]))
      else if ev_type e = ''assistant_message'' then
        Inr (''event:'' @ event_id seq, [(''message'', JStr (str_get (ev_payload e) ''message'' []))])
      else Inr (''event:'' @ event_id seq,
             [(''message'', JStr (str_get (ev_payload e) ''message'' ''UserTurn terminated'')),
              (''reason'', dget (ev_payload e) ''reason'')]))"

definition group_event :: "step_index \<Rightarrow> atom_groups \<Rightarrow> int \<times> session_event \<Rightarrow> atom_groups res" where
  "group_event ix g = (\<lambda>(seq, e).
     if ev_type e \<notin> set cces_event_types then Inr g
     else rbind (item_of_event ix seq e) (\<lambda>(atom_id, payload).
       let item = \<lparr>hi_seq = seq, hi_id = event_id seq, hi_type = ev_type e, hi_turn = ev_turn e,
                   hi_step = ev_step e, hi_atom = atom_id, hi_payload = payload\<rparr>;
           calls = (ev_type e = ''assistant_tool_calls'');
           closed = (if calls then (ag_closed g)(atom_id \<mapsto> calls_answered ix (step_name seq e)) else ag_closed g);
           reasoning = (if calls then (ag_reasoning g)(atom_id \<mapsto>
                (case si_reasoning ix (step_name seq e) of None \<Rightarrow> None | Some r \<Rightarrow> r)) else ag_reasoning g)
       in Inr \<lparr>ag_items = add_item atom_id item (ag_items g),
               ag_closed = set_default atom_id True closed,
               ag_reasoning = reasoning\<rparr>))"

definition atoms_of :: "atom_groups \<Rightarrow> manipulation_atom list" where
  "atoms_of g = map (\<lambda>(aid, items). \<lparr>at_id = aid, at_items = items,
       at_closed = (ag_closed g aid = Some True),
       at_reasoning = (case ag_reasoning g aid of None \<Rightarrow> None | Some r \<Rightarrow> r)\<rparr>) (ag_items g)"

definition index_events :: "session_event list \<Rightarrow> step_index res" where
  "index_events events = rfold index_event no_index (normalized events)"

definition group_events :: "step_index \<Rightarrow> session_event list \<Rightarrow> atom_groups res" where
  "group_events ix events =
     rfold (group_event ix) \<lparr>ag_items = [], ag_closed = Map.empty, ag_reasoning = Map.empty\<rparr>
       (normalized events)"

definition project_context_events :: "session_event list \<Rightarrow> context_projection res" where
  "project_context_events events =
     rbind (project_events events) (\<lambda>turns.
     rbind (index_events events) (\<lambda>ix.
     rbind (group_events ix events) (\<lambda>g.
     let atoms = atoms_of g in
     Inr \<lparr>pj_turns = turns, pj_items = concat (map at_items atoms), pj_atoms = atoms\<rparr>)))"

section \<open>Invariant of the turn projection\<close>

definition call_ids :: "user_turn_view \<Rightarrow> string list" where
  "call_ids t = map te_call_id (turn_exchanges t)"

definition turn_ids_ok :: "user_turn_view \<Rightarrow> bool" where
  "turn_ids_ok t \<longleftrightarrow> distinct (call_ids t) \<and> [] \<notin> set (call_ids t)"

definition steps_closed :: "model_step_view list \<Rightarrow> bool" where
  "steps_closed ms = list_all step_closed ms"

definition turn_inv :: "turn_state \<Rightarrow> bool" where
  "turn_inv s \<longleftrightarrow>
     (\<forall>t \<in> set (ts_past s). turn_ids_ok t \<and> steps_closed (ut_steps t))
     \<and> (case ts_current s of None \<Rightarrow> \<not> ts_in_step s
        | Some t \<Rightarrow> turn_ids_ok t
            \<and> (if ts_in_step s then ut_steps t \<noteq> [] \<and> steps_closed (butlast (ut_steps t))
               else steps_closed (ut_steps t)))"

lemma open_exchanges_ids:
  "open_exchanges seq seen items = Inr xs \<Longrightarrow>
     distinct (map te_call_id xs) \<and> [] \<notin> set (map te_call_id xs) \<and> set (map te_call_id xs) \<inter> set seen = {}"
  by (induction seq seen items arbitrary: xs rule: open_exchanges.induct)
    (fastforce simp: Let_def result_simps split: if_splits)+

lemma require_closed_Inr:
  assumes "turn_inv s" and "ts_current s = Some t" and "require_closed s = Inr u"
  shows "steps_closed (ut_steps t)"
proof (cases "ts_in_step s")
  case True
  then obtain ms m where "ut_steps t = ms @ [m]"
    using assms by (cases "ut_steps t" rule: rev_cases) (auto simp: turn_inv_def)
  with True assms show ?thesis
    by (simp add: turn_inv_def require_closed_def current_step_def steps_closed_def result_simps)
next
  case False
  with assms show ?thesis by (simp add: turn_inv_def)
qed

lemma call_ids_add_step: "call_ids (add_step m t) = call_ids t @ map te_call_id (ms_exchanges m)"
  by (simp add: call_ids_def add_step_def turn_exchanges_def)

lemma call_ids_final [simp]:
  "call_ids (t\<lparr>ut_final := f\<rparr>) = call_ids t"
  "call_ids (t\<lparr>ut_final_reasoning := r\<rparr>) = call_ids t"
  by (simp_all add: call_ids_def turn_exchanges_def)

lemma call_ids_set_terminal [simp]: "call_ids (set_terminal c k q r t) = call_ids t"
  by (simp add: call_ids_def set_terminal_def turn_exchanges_def map_concat comp_def) 
    (simp add: if_distrib cong: if_cong)

lemma step_closed_terminal:
  "step_closed m \<Longrightarrow> step_closed (m\<lparr>ms_exchanges := map (\<lambda>x. if te_call_id x = c
     then x\<lparr>te_terminal_kind := Some k, te_terminal_seq := Some q, te_result := Some r\<rparr> else x)
     (ms_exchanges m)\<rparr>)"
  by (auto simp: step_closed_def list_all_iff)

lemma steps_closed_terminal:
  "steps_closed ms \<Longrightarrow> steps_closed (map (\<lambda>m. m\<lparr>ms_exchanges := map (\<lambda>x. if te_call_id x = c
     then x\<lparr>te_terminal_kind := Some k, te_terminal_seq := Some q, te_result := Some r\<rparr> else x)
     (ms_exchanges m)\<rparr>) ms)"
  using step_closed_terminal by (simp add: steps_closed_def list_all_iff)

lemma turn_inv_add_step:
  assumes "turn_inv s" and "ts_current s = Some t" and "require_closed s = Inr u"
    and "distinct (map te_call_id (ms_exchanges m))" and "[] \<notin> set (map te_call_id (ms_exchanges m))"
    and "set (map te_call_id (ms_exchanges m)) \<inter> set (call_ids t) = {}"
  shows "turn_inv (s\<lparr>ts_current := Some (add_step m t), ts_in_step := True\<rparr>)"
  using assms require_closed_Inr [OF assms(1-3)]
  by (auto simp: turn_inv_def turn_ids_ok_def call_ids_add_step) (simp_all add: add_step_def)

lemma turn_inv_terminal:
  assumes "turn_inv s" and "ts_current s = Some t"
  shows "turn_inv (s\<lparr>ts_current := Some (set_terminal c k q r t)\<rparr>)"
proof -
  have "ut_steps (set_terminal c k q r t) = map (\<lambda>m. m\<lparr>ms_exchanges := map (\<lambda>x. if te_call_id x = c
     then x\<lparr>te_terminal_kind := Some k, te_terminal_seq := Some q, te_result := Some r\<rparr> else x)
     (ms_exchanges m)\<rparr>) (ut_steps t)" by (simp add: set_terminal_def)
  with assms show ?thesis
    by (auto simp: turn_inv_def turn_ids_ok_def map_butlast [symmetric] intro!: steps_closed_terminal)
qed

lemma plain_step_exchanges [simp]: "ms_exchanges (plain_step seq e t a) = []"
  by (simp add: plain_step_def)

lemma turn_inv_in_turn:
  assumes "turn_inv s" and "ts_current s = Some t" and "project_in_turn seq e t s = Inr s'"
  shows "turn_inv s'"
proof -
  consider "ev_type e = ''assistant_tool_calls''" | "ev_type e \<in> {''tool_result'', ''tool_denied''}"
    | "ev_type e \<in> {''model_protocol_error'', ''model_output_truncated''}"
    | "ev_type e = ''assistant_message''" | "ev_type e = ''turn_terminated''"
    | "ev_type e \<notin> {''assistant_tool_calls'', ''tool_result'', ''tool_denied'', ''model_protocol_error'',
         ''model_output_truncated'', ''assistant_message'', ''turn_terminated''}"
    by blast
  then show ?thesis
  proof cases
    case 1
    with assms show ?thesis
      by (auto simp: project_in_turn_def result_simps Let_def call_ids_def
          dest!: open_exchanges_ids intro!: turn_inv_add_step [where u = "()"])
  next
    case 2
    with assms show ?thesis
      by (auto simp: project_in_turn_def project_terminal_def Let_def intro: turn_inv_terminal
          split: option.splits if_splits)
  next
    case 3
    with assms show ?thesis
      by (auto simp: project_in_turn_def result_simps intro!: turn_inv_add_step [where u = "()"])
  next
    case 4
    with assms require_closed_Inr [OF assms(1,2)] show ?thesis
      by (auto simp: project_in_turn_def result_simps turn_inv_def turn_ids_ok_def call_ids_add_step)
        (simp add: add_step_def steps_closed_def step_closed_def)
  next
    case 5
    with assms require_closed_Inr [OF assms(1,2)] show ?thesis
      by (auto simp: project_in_turn_def result_simps turn_inv_def turn_ids_ok_def)
  next
    case 6
    with assms show ?thesis by (simp add: project_in_turn_def)
  qed
qed

lemma turn_ids_ok_fresh [simp]: "ut_steps t = [] \<Longrightarrow> turn_ids_ok t"
  by (simp add: turn_ids_ok_def call_ids_def turn_exchanges_def)

lemma turn_inv_event:
  assumes "turn_inv s" and "project_event s p = Inr s'"
  shows "turn_inv s'"
proof (cases "ev_type (snd p) = ''user_message''")
  case True
  have "turn_inv s'" if "ts_current s = None"
    using True assms that
    by (auto simp: project_event_def turn_inv_def turns_of_def steps_closed_def result_simps
        split: prod.splits)
  moreover have "turn_inv s'" if "ts_current s = Some t" for t
    using True assms that require_closed_Inr [OF assms(1) that]
    by (auto simp: project_event_def turn_inv_def turns_of_def steps_closed_def result_simps
        split: prod.splits if_splits)
  ultimately show ?thesis by (cases "ts_current s") auto
next
  case False
  with assms show ?thesis
    by (auto simp: project_event_def intro: turn_inv_in_turn split: prod.splits option.splits)
qed

lemma turn_inv_project:
  "rfold project_event no_turns es = Inr s \<Longrightarrow> turn_inv s"
proof (erule rfold_invariant [where P = turn_inv])
  show "turn_inv no_turns" by (simp add: turn_inv_def no_turns_def)
qed (rule turn_inv_event)

section \<open>Atoms partition the history\<close>

lemma fst_add_item: "map fst (add_item k x g) = (if k \<in> set (map fst g) then map fst g else map fst g @ [k])"
  by (induction k x g rule: add_item.induct) auto

lemma add_item_distinct: "distinct (map fst g) \<Longrightarrow> distinct (map fst (add_item k x g))"
  by (simp add: fst_add_item del: set_map)

lemma add_item_mset:
  "mset (concat (map snd (add_item k x g))) = mset (concat (map snd g)) + {#x#}"
  by (induction k x g rule: add_item.induct) auto

lemma add_item_entries:
  "(k', xs) \<in> set (add_item k x g) \<Longrightarrow>
     (k', xs) \<in> set g \<or> (k' = k \<and> (xs = [x] \<or> (\<exists>ys. (k, ys) \<in> set g \<and> xs = ys @ [x])))"
  by (induction k x g rule: add_item.induct) (auto split: if_splits)

definition is_cces :: "int \<times> session_event \<Rightarrow> bool" where
  "is_cces p = (ev_type (snd p) \<in> set cces_event_types)"

lemma dom_set_default [simp]: "dom (set_default k v m) = insert k (dom m)"
  by (auto simp: set_default_def split: option.splits)

definition groups_ok :: "(int \<times> session_event) list \<Rightarrow> atom_groups \<Rightarrow> bool" where
  "groups_ok es g \<longleftrightarrow> distinct (map fst (ag_items g))
     \<and> (\<forall>(k, xs) \<in> set (ag_items g). xs \<noteq> [] \<and> (\<forall>x \<in> set xs. hi_atom x = k)
          \<and> subseq (map hi_seq xs) (map fst es))
     \<and> image_mset hi_seq (mset (concat (map snd (ag_items g)))) = mset (map fst (filter is_cces es))
     \<and> dom (ag_closed g) = fst ` set (ag_items g)"

lemma groups_ok_event:
  assumes "groups_ok es g" and "group_event ix g p = Inr g'"
  shows "groups_ok (es @ [p]) g'"
proof (cases "is_cces p")
  case False
  then have "g' = g" using assms(2) by (simp add: group_event_def is_cces_def split: prod.splits)
  with assms(1) False show ?thesis
    by (auto simp: groups_ok_def intro: list_emb_prefix)
next
  case True
  obtain seq e where p: "p = (seq, e)" by fastforce
  from True assms(2) obtain aid payload where a: "item_of_event ix seq e = Inr (aid, payload)"
    by (auto simp: p group_event_def is_cces_def result_simps)
  define item where "item = \<lparr>hi_seq = seq, hi_id = event_id seq, hi_type = ev_type e, hi_turn = ev_turn e,
    hi_step = ev_step e, hi_atom = aid, hi_payload = payload\<rparr>"
  have item: "hi_seq item = seq" "hi_atom item = aid" by (simp_all add: item_def)
  have g': "ag_items g' = add_item aid item (ag_items g)"
    using True assms(2) a by (auto simp: p group_event_def is_cces_def Let_def item_def)
  have cl: "ag_closed g' = set_default aid True (ag_closed g)
      \<or> ag_closed g' = set_default aid True ((ag_closed g)(aid \<mapsto> calls_answered ix (step_name seq e)))"
    using True assms(2) a by (auto simp: p group_event_def is_cces_def Let_def)
  have dom: "dom (ag_closed g') = insert aid (dom (ag_closed g))"
    using cl by (elim disjE) (simp_all only: dom_set_default dom_fun_upd option.distinct if_False insert_absorb2)
  have snoc: "subseq (map hi_seq (ys @ [item])) (map fst (es @ [p]))" if "subseq (map hi_seq ys) (map fst es)" for ys
    using that by (simp add: item p subseq_append)
  have keep: "subseq (map hi_seq ys) (map fst (es @ [p]))" if "subseq (map hi_seq ys) (map fst es)" for ys
    using that by (simp add: list_emb_prefix)
  have old: "ys \<noteq> [] \<and> (\<forall>x \<in> set ys. hi_atom x = k) \<and> subseq (map hi_seq ys) (map fst es)"
    if "(k, ys) \<in> set (ag_items g)" for k ys
    using assms(1) that by (auto simp: groups_ok_def)
  have "xs \<noteq> [] \<and> (\<forall>x \<in> set xs. hi_atom x = k) \<and> subseq (map hi_seq xs) (map fst (es @ [p]))"
    if "(k, xs) \<in> set (ag_items g')" for k xs
    using add_item_entries [OF that [unfolded g']]
  proof (elim disjE conjE exE)
    assume "(k, xs) \<in> set (ag_items g)"
    then show ?thesis using old keep by blast
  next
    assume "k = aid" "xs = [item]"
    then show ?thesis using snoc [of "[]"] item(2) by simp
  next
    fix ys assume "k = aid" "(aid, ys) \<in> set (ag_items g)" "xs = ys @ [item]"
    then show ?thesis using snoc [of ys] old [of aid ys] item(2) by auto
  qed
  moreover have "distinct (map fst (ag_items g'))"
    using assms(1) by (simp add: g' groups_ok_def add_item_distinct)
  moreover have "image_mset hi_seq (mset (concat (map snd (ag_items g')))) = mset (map fst (filter is_cces (es @ [p])))"
    using assms(1) True by (simp add: g' groups_ok_def add_item_mset item p del: mset_concat mset_map)
  moreover have "dom (ag_closed g') = fst ` set (ag_items g')"
    using assms(1) dom fst_add_item [of aid item "ag_items g"] unfolding groups_ok_def g'
    by (metis (no_types, lifting) Un_insert_right insert_absorb list.set(1) list.set_map set_append list.simps(15) sup_bot.right_neutral)
  ultimately show ?thesis by (auto simp: groups_ok_def)
qed

lemma groups_ok_fold:
  "rfold (group_event ix) g fs = Inr g' \<Longrightarrow> groups_ok es g \<Longrightarrow> groups_ok (es @ fs) g'"
proof (induction fs arbitrary: es g)
  case Nil
  then show ?case by simp
next
  case (Cons f fs)
  then obtain g1 where "group_event ix g f = Inr g1" "rfold (group_event ix) g1 fs = Inr g'"
    by (auto simp: result_simps)
  with Cons.IH [OF this(2) groups_ok_event [OF Cons.prems(2) this(1)]] show ?case by simp
qed

text \<open>Every item is made from an event of the log.\<close>

definition item_from :: "int \<times> session_event \<Rightarrow> history_item \<Rightarrow> bool" where
  "item_from p x \<longleftrightarrow> hi_seq x = fst p \<and> hi_id x = event_id (fst p) \<and> hi_type x = ev_type (snd p)
     \<and> hi_turn x = ev_turn (snd p) \<and> hi_step x = ev_step (snd p)"

definition items_from :: "(int \<times> session_event) set \<Rightarrow> atom_groups \<Rightarrow> bool" where
  "items_from P g \<longleftrightarrow> (\<forall>(k, xs) \<in> set (ag_items g). \<forall>x \<in> set xs. \<exists>p \<in> P. item_from p x)"

lemma items_from_event:
  assumes "items_from P g" and "group_event ix g p = Inr g'" and "p \<in> P"
  shows "items_from P g'"
proof -
  obtain seq e where p: "p = (seq, e)" by fastforce
  have "ag_items g' = ag_items g \<or> (\<exists>k x. ag_items g' = add_item k x (ag_items g) \<and> item_from p x)"
  proof (cases "ev_type e \<in> set cces_event_types")
    case True
    with assms(2) obtain aid payload where a: "item_of_event ix seq e = Inr (aid, payload)"
      by (auto simp: p group_event_def result_simps)
    define x where "x = \<lparr>hi_seq = seq, hi_id = event_id seq, hi_type = ev_type e, hi_turn = ev_turn e,
      hi_step = ev_step e, hi_atom = aid, hi_payload = payload\<rparr>"
    have "ag_items g' = add_item aid x (ag_items g)"
      using True assms(2) a by (auto simp: p group_event_def Let_def x_def)
    moreover have "item_from p x" by (simp add: item_from_def x_def p)
    ultimately show ?thesis by blast
  next
    case False
    with assms(2) show ?thesis by (simp add: p group_event_def)
  qed
  then show ?thesis
  proof
    assume "\<exists>k x. ag_items g' = add_item k x (ag_items g) \<and> item_from p x"
    then obtain k x where "ag_items g' = add_item k x (ag_items g)" "item_from p x" by blast
    with assms(1,3) show ?thesis
      unfolding items_from_def by (fastforce dest: add_item_entries)
  qed (use assms(1) in \<open>simp add: items_from_def\<close>)
qed

lemma items_from_fold:
  "rfold (group_event ix) g ps = Inr g' \<Longrightarrow> items_from P g \<Longrightarrow> set ps \<subseteq> P \<Longrightarrow> items_from P g'"
  by (erule rfold_invariant [where P = "items_from P"]) (auto intro: items_from_event)

section \<open>Closed atoms are answered\<close>

definition is_calls :: "int \<times> session_event \<Rightarrow> bool" where
  "is_calls p = (ev_type (snd p) = ''assistant_tool_calls'')"

definition is_terminal :: "int \<times> session_event \<Rightarrow> bool" where
  "is_terminal p = (ev_type (snd p) \<in> {''tool_result'', ''tool_denied''})"

definition event_call_id :: "int \<times> session_event \<Rightarrow> string" where
  "event_call_id p = str_get (ev_payload (snd p)) ''call_id'' []"

text \<open>The call ids an \<^verbatim>\<open>assistant_tool_calls\<close> event announces.\<close>

definition announced :: "int \<times> session_event \<Rightarrow> string list" where
  "announced p = (case tool_call_items (snd p) of Inl _ \<Rightarrow> []
     | Inr items \<Rightarrow> map (\<lambda>item. str_get item ''call_id'' []) items)"

definition step_of :: "int \<times> session_event \<Rightarrow> string" where
  "step_of p = step_name (fst p) (snd p)"

definition index_inv :: "(int \<times> session_event) list \<Rightarrow> step_index \<Rightarrow> bool" where
  "index_inv ps ix \<longleftrightarrow>
     (\<forall>p \<in> set ps. is_calls p \<longrightarrow> (\<exists>q \<in> set ps. is_calls q \<and> step_of q = step_of p
        \<and> si_calls ix (step_of p) = Some (announced q)))
     \<and> (\<forall>sid ts. si_terminals ix sid = Some ts \<longrightarrow>
          (\<forall>c \<in> set ts. \<exists>q \<in> set ps. is_terminal q \<and> event_call_id q = c))"

lemma index_inv_event:
  assumes "index_inv ps ix" and "index_event ix p = Inr ix'"
  shows "index_inv (ps @ [p]) ix'"
proof -
  consider (calls) "is_calls p" | (terminal) "is_terminal p" "\<not> is_calls p"
    | (other) "\<not> is_calls p" "\<not> is_terminal p" by blast
  then show ?thesis
  proof cases
    case calls
    then have "si_calls ix' = (si_calls ix)(step_of p \<mapsto> announced p)"
      and t: "si_terminals ix' = set_default (step_of p) [] (si_terminals ix)"
      using assms(2) by (auto simp: index_event_def is_calls_def result_simps Let_def announced_def step_of_def
          split: prod.splits)
    moreover have "\<exists>q \<in> set (ps @ [p]). is_terminal q \<and> event_call_id q = c"
      if "si_terminals ix' sid = Some ts" "c \<in> set ts" for sid ts c
      using assms(1) that unfolding t index_inv_def set_default_def
      by (fastforce split: option.splits if_splits)
    ultimately show ?thesis
      using assms(1) calls by (auto simp: index_inv_def)
  next
    case terminal
    then have c: "si_calls ix' = si_calls ix"
      using assms(2) by (auto simp: index_event_def is_calls_def is_terminal_def Let_def split: prod.splits if_splits)
    have "ix' = ix \<or> (\<exists>s. si_terminals ix' = (si_terminals ix)(s \<mapsto>
        (case si_terminals ix s of None \<Rightarrow> [] | Some cs \<Rightarrow> cs) @ [event_call_id p]))"
      using assms(2) terminal
      by (auto simp: index_event_def is_calls_def is_terminal_def event_call_id_def Let_def
          split: prod.splits if_splits)
    then have "\<exists>q \<in> set (ps @ [p]). is_terminal q \<and> event_call_id q = c"
      if "si_terminals ix' sid = Some ts" "c \<in> set ts" for sid ts c
      using assms(1) that terminal(1) unfolding index_inv_def
      by (fastforce split: option.splits if_splits)
    then show ?thesis using assms(1) c terminal by (auto simp: index_inv_def)
  next
    case other
    then have "ix' = ix"
      using assms(2) by (auto simp: index_event_def is_calls_def is_terminal_def split: prod.splits)
    then show ?thesis using assms(1) other by (fastforce simp: index_inv_def)
  qed
qed

lemma index_inv_fold:
  "rfold index_event ix qs = Inr ix' \<Longrightarrow> index_inv ps ix \<Longrightarrow> index_inv (ps @ qs) ix'"
proof (induction qs arbitrary: ps ix)
  case Nil
  then show ?case by simp
next
  case (Cons q qs)
  then obtain ix1 where "index_event ix q = Inr ix1" "rfold index_event ix1 qs = Inr ix'"
    by (auto simp: result_simps)
  with Cons.IH [OF this(2) index_inv_event [OF Cons.prems(2) this(1)]] show ?case by simp
qed

lemma group_closed:
  assumes "rfold (group_event ix) g ps = Inr g'"
    and "\<And>p. p \<in> P \<Longrightarrow> is_calls p \<and> ag_closed g (''model-step:'' @ step_of p) = Some (calls_answered ix (step_of p))"
  shows "\<forall>p \<in> P \<union> {p \<in> set ps. is_calls p}.
     ag_closed g' (''model-step:'' @ step_of p) = Some (calls_answered ix (step_of p))"
  using assms
proof (induction ps arbitrary: g P)
  case Nil
  then show ?case by simp
next
  case (Cons q ps)
  then obtain g1 where g1: "group_event ix g q = Inr g1" "rfold (group_event ix) g1 ps = Inr g'"
    by (auto simp: result_simps)
  let ?P = "P \<union> (if is_calls q then {q} else {})"
  have "is_calls p \<and> ag_closed g1 (''model-step:'' @ step_of p) = Some (calls_answered ix (step_of p))"
    if p: "p \<in> ?P" for p
  proof -
    have "ag_closed g1 (''model-step:'' @ step_of p) = Some (calls_answered ix (step_of p))"
      if "is_calls q"
      using g1(1) that p Cons.prems(2) [of p]
      by (auto simp: group_event_def item_of_event_def is_calls_def step_of_def set_default_def result_simps Let_def
          cces_event_types_def split: prod.splits if_splits option.splits)
    moreover have "ag_closed g1 (''model-step:'' @ step_of p) = Some (calls_answered ix (step_of p))"
      if "\<not> is_calls q"
      using g1(1) that p Cons.prems(2) [of p]
      by (auto simp: group_event_def is_calls_def set_default_def result_simps Let_def
          split: prod.splits if_splits option.splits)
    ultimately show ?thesis using p Cons.prems(2) [of p] by (auto split: if_splits)
  qed
  then have "\<forall>p \<in> ?P \<union> {p \<in> set ps. is_calls p}.
     ag_closed g' (''model-step:'' @ step_of p) = Some (calls_answered ix (step_of p))"
    by (rule Cons.IH [OF g1(2)])
  moreover have "P \<union> {p \<in> set (q # ps). is_calls p} \<subseteq> ?P \<union> {p \<in> set ps. is_calls p}" by auto
  ultimately show ?case by blast
qed

lemma atoms_all_closed:
  "\<forall>a \<in> set (atoms_of g). at_closed a \<Longrightarrow> (k, xs) \<in> set (ag_items g) \<Longrightarrow> ag_closed g k = Some True"
  unfolding atoms_of_def by force

lemma project_context_Inr:
  assumes "project_context_events es = Inr p"
  obtains turns ix g where "project_events es = Inr turns"
    and "rfold index_event no_index (normalized es) = Inr ix"
    and "rfold (group_event ix) \<lparr>ag_items = [], ag_closed = Map.empty, ag_reasoning = Map.empty\<rparr>
           (normalized es) = Inr g"
    and "p = \<lparr>pj_turns = turns, pj_items = concat (map at_items (atoms_of g)), pj_atoms = atoms_of g\<rparr>"
    and "groups_ok (normalized es) g" and "index_inv (normalized es) ix"
    and "items_from (set (normalized es)) g"
proof -
  from assms obtain turns ix g where
    t: "project_events es = Inr turns" and ix: "rfold index_event no_index (normalized es) = Inr ix"
    and g: "rfold (group_event ix) \<lparr>ag_items = [], ag_closed = Map.empty, ag_reasoning = Map.empty\<rparr>
           (normalized es) = Inr g"
    and p: "p = \<lparr>pj_turns = turns, pj_items = concat (map at_items (atoms_of g)), pj_atoms = atoms_of g\<rparr>"
    by (auto simp: project_context_events_def index_events_def group_events_def result_simps Let_def)
  have "groups_ok ([] @ normalized es) g"
    by (rule groups_ok_fold [OF g]) (simp add: groups_ok_def)
  moreover have "index_inv ([] @ normalized es) ix"
    by (rule index_inv_fold [OF ix]) (simp add: index_inv_def no_index_def)
  moreover have "items_from (set (normalized es)) g"
    by (rule items_from_fold [OF g]) (simp_all add: items_from_def)
  ultimately show thesis using that [OF t ix g p] by simp
qed

lemma project_items_from:
  assumes "project_context_events es = Inr p" and "x \<in> set (pj_items p)"
  shows "\<exists>q \<in> set (normalized es). item_from q x"
proof -
  from assms(1) obtain g where "pj_items p = concat (map at_items (atoms_of g))"
    and "items_from (set (normalized es)) g" by (elim project_context_Inr) simp
  with assms(2) show ?thesis by (fastforce simp: items_from_def atoms_of_def)
qed

section \<open>Properties\<close>

definition demo_history :: "session_event list" where
  "demo_history = [ev0 ''user_message'' [(''message'', JStr ''fix'')],
     ev0 ''assistant_tool_calls'' [(''tool_calls'', JArr [
       JObj [(''call_id'', JStr ''c1''), (''name'', JStr ''read_file'')],
       JObj [(''call_id'', JStr ''c2''), (''name'', JStr ''run_command'')]])],
     ev0 ''tool_result'' [(''call_id'', JStr ''c1''), (''result'', JObj [(''ok'', JBool True)])],
     ev0 ''model_usage'' [],
     ev0 ''tool_denied'' [(''call_id'', JStr ''c2''), (''reason'', JStr ''no'')],
     ev0 ''assistant_message'' [(''message'', JStr ''done'')]]"

text \<open>
  C4. Protocol recovered from the log: when the projection returns, the call identities of a turn
  are non-empty and distinct, and every model step is closed except possibly the last one of the
  last turn, which is the only step the runtime may still be executing.
\<close>

theorem projected_steps_closed:
  assumes "project_events es = Inr turns"
  shows "(\<forall>t \<in> set turns. distinct (call_ids t) \<and> [] \<notin> set (call_ids t))
    \<and> (\<forall>t \<in> set (butlast turns). list_all step_closed (ut_steps t))
    \<and> (turns \<noteq> [] \<longrightarrow> list_all step_closed (butlast (ut_steps (last turns))))"
proof -
  obtain s where s: "rfold project_event no_turns (normalized es) = Inr s" "turns = turns_of s"
    using assms by (auto simp: project_events_def result_simps)
  have inv: "turn_inv s" by (rule turn_inv_project [OF s(1)])
  have past: "list_all step_closed (butlast (ut_steps t))" if "t \<in> set (ts_past s)" for t
    using inv that by (auto simp: turn_inv_def steps_closed_def list_all_iff dest: in_set_butlastD)
  show ?thesis
  proof (cases "ts_current s")
    case None
    with inv past show ?thesis
      by (auto simp: s(2) turns_of_def turn_inv_def turn_ids_ok_def steps_closed_def dest: in_set_butlastD)
  next
    case (Some t)
    with inv show ?thesis
      by (auto simp: s(2) turns_of_def turn_inv_def turn_ids_ok_def steps_closed_def list_all_iff
          dest: in_set_butlastD split: if_splits)
  qed
qed

theorem projected_steps_closed_witness:
  "\<exists>turns. project_events demo_history = Inr turns \<and> length turns = 1
     \<and> list_all step_closed (butlast (ut_steps (last turns))) \<and> distinct (call_ids (hd turns))"
proof -
  define r where "r = project_events demo_history"
  have "(case r of Inr [t] \<Rightarrow> True | _ \<Rightarrow> False)"
    unfolding r_def demo_history_def ev0_def by code_simp
  then obtain t where t: "project_events demo_history = Inr [t]"
    by (auto simp: r_def split: sum.splits list.splits)
  with projected_steps_closed [OF t] show ?thesis by auto
qed

text \<open>
  The history is partitioned into atoms: atom identities are distinct, an atom holds exactly the
  items that name it, in log order, no atom is empty, and together the atoms hold every event of an
  allow-listed type exactly once and no other event.
\<close>

theorem context_atoms_partition:
  assumes "project_context_events es = Inr p"
  shows "distinct (map at_id (pj_atoms p))
    \<and> pj_items p = concat (map at_items (pj_atoms p))
    \<and> mset (map hi_seq (pj_items p)) = mset (map fst (filter is_cces (normalized es)))
    \<and> (\<forall>a \<in> set (pj_atoms p). at_items a \<noteq> [] \<and> (\<forall>x \<in> set (at_items a). hi_atom x = at_id a)
         \<and> subseq (map hi_seq (at_items a)) (map fst (normalized es)))"
proof -
  from assms obtain g where
    p: "pj_atoms p = atoms_of g" "pj_items p = concat (map at_items (atoms_of g))"
    and ok: "groups_ok (normalized es) g"
    by (elim project_context_Inr) simp
  have ids: "map at_id (atoms_of g) = map fst (ag_items g)"
    and items: "map at_items (atoms_of g) = map snd (ag_items g)"
    by (simp_all add: atoms_of_def comp_def case_prod_unfold)
  have "mset (map hi_seq (concat (map snd (ag_items g)))) = mset (map fst (filter is_cces (normalized es)))"
    using ok by (simp add: groups_ok_def)
  moreover have "at_items a \<noteq> [] \<and> (\<forall>x \<in> set (at_items a). hi_atom x = at_id a)
         \<and> subseq (map hi_seq (at_items a)) (map fst (normalized es))" if "a \<in> set (atoms_of g)" for a
    using that ok by (auto simp: atoms_of_def groups_ok_def)
  ultimately show ?thesis using ok unfolding p ids items groups_ok_def by auto
qed

theorem context_atoms_partition_witness:
  "\<exists>p. project_context_events demo_history = Inr p \<and> length (pj_atoms p) = 3
     \<and> distinct (map at_id (pj_atoms p)) \<and> mset (map hi_seq (pj_items p)) = mset [1, 2, 3, 5, 6]"
proof -
  define r where "r = project_context_events demo_history"
  have "(case r of Inl _ \<Rightarrow> False | Inr p \<Rightarrow> length (pj_atoms p) = 3)
      \<and> map fst (filter is_cces (normalized demo_history)) = [1, 2, 3, 5, 6]"
    unfolding r_def demo_history_def ev0_def by code_simp
  then obtain p where p: "project_context_events demo_history = Inr p" "length (pj_atoms p) = 3"
    "map fst (filter is_cces (normalized demo_history)) = [1, 2, 3, 5, 6]"
    by (auto simp: r_def split: sum.splits)
  with context_atoms_partition [OF p(1)] show ?thesis by auto
qed

text \<open>
  The builder's readiness check is sound: when every atom of the projection is closed and no two
  tool-call events share a step identity, every call the model announced has a terminal event
  (a result or a denial) in the log.
\<close>

theorem closed_atoms_are_answered:
  assumes "project_context_events es = Inr p" and "\<forall>a \<in> set (pj_atoms p). at_closed a"
    and "\<And>q r. q \<in> set (normalized es) \<Longrightarrow> r \<in> set (normalized es) \<Longrightarrow> is_calls q \<Longrightarrow> is_calls r
      \<Longrightarrow> step_of q = step_of r \<Longrightarrow> q = r"
    and "q \<in> set (normalized es)" and "is_calls q" and "c \<in> set (announced q)"
  shows "\<exists>r \<in> set (normalized es). is_terminal r \<and> event_call_id r = c"
proof -
  from assms(1) obtain ix g where
    g: "rfold (group_event ix) \<lparr>ag_items = [], ag_closed = Map.empty, ag_reasoning = Map.empty\<rparr>
           (normalized es) = Inr g"
    and p: "pj_atoms p = atoms_of g"
    and ok: "groups_ok (normalized es) g" and ix: "index_inv (normalized es) ix"
    by (elim project_context_Inr) simp
  define a where "a = ''model-step:'' @ step_of q"
  have "\<forall>p \<in> {} \<union> {p \<in> set (normalized es). is_calls p}.
      ag_closed g (''model-step:'' @ step_of p) = Some (calls_answered ix (step_of p))"
    by (rule group_closed [OF g]) simp
  moreover have "q \<in> {} \<union> {p \<in> set (normalized es). is_calls p}" using assms(4,5) by simp
  ultimately have cl: "ag_closed g a = Some (calls_answered ix (step_of q))"
    unfolding a_def by (rule bspec)
  then have "a \<in> dom (ag_closed g)" by (rule domI)
  also have "dom (ag_closed g) = fst ` set (ag_items g)" using ok by (simp add: groups_ok_def)
  finally obtain xs where "(a, xs) \<in> set (ag_items g)" by auto
  with assms(2) have "ag_closed g a = Some True" unfolding p by (rule atoms_all_closed)
  with cl have ans: "calls_answered ix (step_of q)" by simp
  have "si_calls ix (step_of q) = Some (announced q)"
  proof -
    from ix assms(4,5) obtain q' where q': "q' \<in> set (normalized es)" "is_calls q'" "step_of q' = step_of q"
        "si_calls ix (step_of q) = Some (announced q')"
      unfolding index_inv_def by blast
    then show ?thesis using assms(3) [OF q'(1) assms(4) q'(2) assms(5) q'(3)] by simp
  qed
  with ans assms(6) obtain ts where "si_terminals ix (step_of q) = Some ts" "c \<in> set ts"
    by (cases "si_terminals ix (step_of q)") (auto simp: calls_answered_def)
  with ix show ?thesis unfolding index_inv_def by blast
qed

theorem closed_atoms_are_answered_witness:
  "\<exists>r \<in> set (normalized demo_history). is_terminal r \<and> event_call_id r = ''c2''"
proof -
  define r where "r = project_context_events demo_history"
  have "(case r of Inl _ \<Rightarrow> False | Inr p \<Rightarrow> list_all at_closed (pj_atoms p))"
    unfolding r_def demo_history_def ev0_def by code_simp
  then obtain p where p: "project_context_events demo_history = Inr p" "\<forall>a \<in> set (pj_atoms p). at_closed a"
    by (auto simp: r_def list_all_iff split: sum.splits)
  have ev: "list_all (\<lambda>q. is_calls q \<longrightarrow> fst q = 2) (normalized demo_history)
      \<and> distinct (map fst (normalized demo_history))
      \<and> list_ex (\<lambda>q. is_calls q \<and> ''c2'' \<in> set (announced q)) (normalized demo_history)"
    unfolding demo_history_def ev0_def by code_simp
  then obtain q where q: "q \<in> set (normalized demo_history)" "is_calls q" "''c2'' \<in> set (announced q)"
    by (auto simp: list_ex_iff)
  have "x = y" if "x \<in> set (normalized demo_history)" "y \<in> set (normalized demo_history)"
      "is_calls x" "is_calls y" for x y
  proof -
    have "fst x = fst y" using that ev by (auto simp: list_all_iff)
    moreover have "inj_on fst (set (normalized demo_history))"
      using ev by (simp add: distinct_map)
    ultimately show ?thesis using that(1,2) by (simp add: inj_onD)
  qed
  from closed_atoms_are_answered [OF p this q] show ?thesis by blast
qed

end
