(* ===== verification/Context_Summary.thy ===== *)
theory Context_Summary
  imports Context_Projector
begin

text \<open>
  The rolling-summary chain of \<^verbatim>\<open>context/builder.py\<close>: which \<^verbatim>\<open>context_condensed\<close> events are
  accepted, which one is selected, and what remains uncovered. The SHA-256 of \<^verbatim>\<open>hashlib\<close> is
  the argument \<open>sha\<close>.
\<close>

section \<open>Token estimates and digests\<close>

definition estimate :: "json \<Rightarrow> int" where
  "estimate v = max 1 ((int (length (dumps_compact v)) + 2) div 3 + 8)"

definition ids_digest :: "(string \<Rightarrow> string) \<Rightarrow> string list \<Rightarrow> string" where
  "ids_digest sha ids = sha (dumps_compact (JArr (map JStr ids)))"

definition seq_from_id :: "string \<Rightarrow> int" where
  "seq_from_id v = (if \<not> starts_with ''seq:'' v then -1
     else case parse_int (drop 4 v) of None \<Rightarrow> -1 | Some n \<Rightarrow> n)"

section \<open>Accepted summaries\<close>

record rolling_summary =
  rs_seq :: int
  rs_id :: string
  rs_previous :: "string option"
  rs_covered :: "string list"
  rs_count :: nat
  rs_frontier :: string
  rs_text :: string

definition summary_algorithm_version :: int where
  "summary_algorithm_version = 1"

text \<open>\<^verbatim>\<open>value == n\<close> for a JSON value, where \<^verbatim>\<open>True\<close> is 1 and \<^verbatim>\<open>1.0\<close> is 1.\<close>

fun eq_int :: "json \<Rightarrow> int \<Rightarrow> bool" where
  "eq_int (JInt i) n = (i = n)"
| "eq_int (JBool b) n = (n = (if b then 1 else 0))"
| "eq_int (JFloat t) n = (t = show_int n @ ''.0'')"
| "eq_int _ n = False"

definition atom_ids :: "manipulation_atom \<Rightarrow> string list" where
  "atom_ids a = map hi_id (at_items a)"

definition source_ids :: "manipulation_atom list \<Rightarrow> string list" where
  "source_ids atoms = concat (map atom_ids atoms)"

text \<open>The item counts of the non-empty prefixes of the atoms.\<close>

definition legal_frontiers :: "manipulation_atom list \<Rightarrow> nat list" where
  "legal_frontiers atoms =
     map (\<lambda>i. length (source_ids (take (Suc i) atoms))) [0..<length atoms]"

definition string_items :: "json \<Rightarrow> string list option" where
  "string_items v = (case v of
     JArr xs \<Rightarrow> if xs \<noteq> [] \<and> list_all (\<lambda>x. as_str x \<noteq> None) xs then Some (map (the \<circ> as_str) xs) else None
   | _ \<Rightarrow> None)"

definition valid_extension ::
  "(string \<Rightarrow> string) \<Rightarrow> int \<Rightarrow> manipulation_atom list \<Rightarrow> string list \<Rightarrow> string list \<Rightarrow> dict \<Rightarrow> string \<Rightarrow> bool" where
  "valid_extension sha summary_max atoms prior_ids new_ids payload summary \<longleftrightarrow>
     new_ids = take (length new_ids) (drop (length prior_ids) (source_ids atoms))
     \<and> length prior_ids + length new_ids \<in> set (legal_frontiers atoms)
     \<and> eq_int (dget payload ''newly_covered_from_seq'') (seq_from_id (hd new_ids))
     \<and> eq_int (dget payload ''newly_covered_to_seq'') (seq_from_id (last new_ids))
     \<and> dget payload ''newly_covered_event_ids_sha256'' = JStr (ids_digest sha new_ids)
     \<and> eq_int (dget payload ''logical_covered_event_count'') (int (length prior_ids + length new_ids))
     \<and> dget payload ''logical_frontier_source_event_id'' = JStr (last new_ids)
     \<and> eq_int (dget payload ''algorithm_version'') summary_algorithm_version
     \<and> strip summary \<noteq> []
     \<and> estimate (JStr summary) \<le> summary_max"

text \<open>
  The summary that an event adds to the accepted ones, if it does; \<open>valid\<close> is the dictionary of
  accepted summaries, and every \<^verbatim>\<open>continue\<close> of the loop is a \<^const>\<open>None\<close>.
\<close>

definition predecessor_of :: "(string \<times> rolling_summary) list \<Rightarrow> json \<Rightarrow> rolling_summary option" where
  "predecessor_of valid pid = (if pid = JNull then None else map_of valid (py_str pid))"

definition prior_ids :: "rolling_summary option \<Rightarrow> string list" where
  "prior_ids p = (case p of None \<Rightarrow> [] | Some s \<Rightarrow> rs_covered s)"

definition chain_extension ::
  "(string \<Rightarrow> string) \<Rightarrow> int \<Rightarrow> manipulation_atom list \<Rightarrow> (string \<times> rolling_summary) list
     \<Rightarrow> int \<Rightarrow> dict \<Rightarrow> rolling_summary option" where
  "chain_extension sha summary_max atoms valid seq payload =
     (let pid = dget payload ''previous_summary_event_id'';
          pred = predecessor_of valid pid;
          prior = prior_ids pred
      in if pid \<noteq> JNull \<and> pred = None then None
         else (case (string_items (dget payload ''newly_covered_event_ids''), as_str (dget payload ''summary'')) of
            (Some new_ids, Some summary) \<Rightarrow>
              if valid_extension sha summary_max atoms prior new_ids payload summary
              then Some \<lparr>rs_seq = seq, rs_id = event_id seq,
                 rs_previous = (if pid = JNull then None else Some (py_str pid)),
                 rs_covered = prior @ new_ids,
                 rs_count = length prior + length new_ids,
                 rs_frontier = last new_ids, rs_text = summary\<rparr>
              else None
          | _ \<Rightarrow> None))"

definition chain_step ::
  "(string \<Rightarrow> string) \<Rightarrow> int \<Rightarrow> manipulation_atom list \<Rightarrow> int \<times> session_event
     \<Rightarrow> (string \<times> rolling_summary) list \<Rightarrow> (string \<times> rolling_summary) list" where
  "chain_step sha summary_max atoms = (\<lambda>(seq, e) valid.
     if ev_type e \<noteq> ''context_condensed'' then valid
     else case chain_extension sha summary_max atoms valid seq (ev_payload e) of
            None \<Rightarrow> valid
          | Some s \<Rightarrow> AList.update (event_id seq) s valid)"

definition valid_summary_chain ::
  "(string \<Rightarrow> string) \<Rightarrow> int \<Rightarrow> session_event list \<Rightarrow> manipulation_atom list \<Rightarrow> (string \<times> rolling_summary) list" where
  "valid_summary_chain sha summary_max events atoms =
     fold (chain_step sha summary_max atoms) (normalized events) []"

text \<open>\<^verbatim>\<open>max(values, key=(count, seq), default=None)\<close>: the first of the largest.\<close>

definition summary_less :: "rolling_summary \<Rightarrow> rolling_summary \<Rightarrow> bool" where
  "summary_less a b \<longleftrightarrow> rs_count a < rs_count b \<or> (rs_count a = rs_count b \<and> rs_seq a < rs_seq b)"

fun max_summary :: "rolling_summary list \<Rightarrow> rolling_summary option" where
  "max_summary [] = None"
| "max_summary (x # xs) = Some (fold (\<lambda>y best. if summary_less best y then y else best) xs x)"

definition select_rolling_summary ::
  "(string \<Rightarrow> string) \<Rightarrow> int \<Rightarrow> session_event list \<Rightarrow> manipulation_atom list \<Rightarrow> rolling_summary option" where
  "select_rolling_summary sha summary_max events atoms =
     max_summary (map snd (valid_summary_chain sha summary_max events atoms))"

text \<open>\<^verbatim>\<open>_atoms_after_coverage\<close>; \<open>all\<close> is the whole tuple, returned when a frontier is missed.\<close>

fun atoms_after_from ::
  "manipulation_atom list \<Rightarrow> nat \<Rightarrow> nat \<Rightarrow> manipulation_atom list \<Rightarrow> manipulation_atom list" where
  "atoms_after_from all consumed covered [] = (if covered \<noteq> 0 then [] else all)"
| "atoms_after_from all consumed covered (a # rest) =
     (let consumed' = consumed + length (at_items a) in
      if consumed' = covered then rest
      else if covered < consumed' then all
      else atoms_after_from all consumed' covered rest)"

definition atoms_after_coverage :: "manipulation_atom list \<Rightarrow> nat \<Rightarrow> manipulation_atom list" where
  "atoms_after_coverage atoms covered = atoms_after_from atoms 0 covered atoms"

section \<open>What an accepted summary covers\<close>

lemma source_ids_append [simp]: "source_ids (xs @ ys) = source_ids xs @ source_ids ys"
  by (simp add: source_ids_def)

lemma source_ids_Cons [simp]: "source_ids (a # as) = atom_ids a @ source_ids as" "source_ids [] = []"
  by (simp_all add: source_ids_def)

lemma length_atom_ids [simp]: "length (atom_ids a) = length (at_items a)"
  by (simp add: atom_ids_def)

definition nonempty_atoms :: "manipulation_atom list \<Rightarrow> bool" where
  "nonempty_atoms atoms \<longleftrightarrow> (\<forall>a \<in> set atoms. at_items a \<noteq> [])"

lemma legal_frontier_iff:
  "n \<in> set (legal_frontiers atoms) \<longleftrightarrow>
     (\<exists>k. 0 < k \<and> k \<le> length atoms \<and> n = length (source_ids (take k atoms)))"
proof
  assume "n \<in> set (legal_frontiers atoms)"
  then obtain i where "i < length atoms" "n = length (source_ids (take (Suc i) atoms))"
    by (auto simp: legal_frontiers_def)
  then show "\<exists>k. 0 < k \<and> k \<le> length atoms \<and> n = length (source_ids (take k atoms))"
    by (intro exI [of _ "Suc i"]) simp
next
  assume "\<exists>k. 0 < k \<and> k \<le> length atoms \<and> n = length (source_ids (take k atoms))"
  then obtain k where "0 < k" "k \<le> length atoms" "n = length (source_ids (take k atoms))" by blast
  then show "n \<in> set (legal_frontiers atoms)"
    by (cases k) (auto simp: legal_frontiers_def)
qed

lemma source_ids_take: "source_ids atoms = source_ids (take k atoms) @ source_ids (drop k atoms)"
  by (metis append_take_drop_id source_ids_append)

lemma take_source_ids: "take (length (source_ids (take k atoms))) (source_ids atoms) = source_ids (take k atoms)"
  by (subst source_ids_take [of _ k]) simp

lemma atoms_after_from_prefix:
  "nonempty_atoms (pre @ post) \<Longrightarrow> pre \<noteq> [] \<Longrightarrow>
     atoms_after_from all consumed (consumed + length (source_ids pre)) (pre @ post) = post"
proof (induction pre arbitrary: consumed)
  case Nil
  then show ?case by simp
next
  case (Cons a pre)
  show ?case
  proof (cases pre)
    case Nil
    then show ?thesis by simp
  next
    case (Cons b ps)
    then have "length (at_items b) > 0" using Cons.prems by (auto simp: nonempty_atoms_def)
    moreover have "nonempty_atoms (pre @ post)" using Cons.prems(1) by (simp add: nonempty_atoms_def)
    ultimately show ?thesis
      using Cons.IH [of "consumed + length (at_items a)"] Cons by (simp add: add.assoc)
  qed
qed

lemma atoms_after_coverage_zero: "nonempty_atoms atoms \<Longrightarrow> atoms_after_coverage atoms 0 = atoms"
  by (cases atoms) (auto simp: atoms_after_coverage_def nonempty_atoms_def)

lemma atoms_after_coverage_frontier:
  assumes "nonempty_atoms atoms" and "0 < k" and "k \<le> length atoms"
  shows "atoms_after_coverage atoms (length (source_ids (take k atoms))) = drop k atoms"
proof -
  have "take k atoms \<noteq> []" using assms by auto
  with atoms_after_from_prefix [of "take k atoms" "drop k atoms" atoms 0] assms(1) show ?thesis
    by (simp add: atoms_after_coverage_def)
qed

section \<open>Invariant of the chain\<close>

definition covers :: "manipulation_atom list \<Rightarrow> rolling_summary \<Rightarrow> bool" where
  "covers atoms s \<longleftrightarrow> rs_count s \<in> set (legal_frontiers atoms)
     \<and> rs_covered s = take (rs_count s) (source_ids atoms) \<and> strip (rs_text s) \<noteq> []"

lemma legal_frontier_le: "n \<in> set (legal_frontiers atoms) \<Longrightarrow> n \<le> length (source_ids atoms)"
  by (auto simp: legal_frontier_iff) (metis take_source_ids length_take min.cobounded1)

lemma extension_covers:
  assumes "prior = take (length prior) (source_ids atoms)"
    and "valid_extension sha m atoms prior new payload summary"
  shows "prior @ new = take (length prior + length new) (source_ids atoms)"
  using assms by (metis take_add valid_extension_def)

lemma covers_length: "covers atoms s \<Longrightarrow> length (rs_covered s) = rs_count s"
  by (simp add: covers_def legal_frontier_le min_absorb2)

definition chain_ok :: "manipulation_atom list \<Rightarrow> (string \<times> rolling_summary) list \<Rightarrow> bool" where
  "chain_ok atoms valid \<longleftrightarrow> (\<forall>p \<in> set valid. covers atoms (snd p))"

lemma chain_ok_update: "chain_ok atoms xs \<Longrightarrow> covers atoms v \<Longrightarrow> chain_ok atoms (AList.update k v xs)"
  unfolding chain_ok_def by (induction xs) auto

lemma prior_ids_prefix:
  assumes "chain_ok atoms valid"
  shows "prior_ids (predecessor_of valid pid)
    = take (length (prior_ids (predecessor_of valid pid))) (source_ids atoms)"
proof (cases "predecessor_of valid pid")
  case None
  then show ?thesis by (simp add: prior_ids_def)
next
  case (Some q)
  then have "(py_str pid, q) \<in> set valid"
    by (auto simp: predecessor_of_def split: if_splits dest: map_of_SomeD)
  with assms have q: "covers atoms q" by (auto simp: chain_ok_def)
  then have "rs_covered q = take (length (rs_covered q)) (source_ids atoms)"
    using covers_length [OF q] by (simp add: covers_def)
  with Some show ?thesis by (simp add: prior_ids_def)
qed

lemma chain_extension_covers:
  assumes "chain_ok atoms valid"
    and "chain_extension sha m atoms valid seq payload = Some s"
  shows "covers atoms s"
proof -
  let ?prior = "prior_ids (predecessor_of valid (dget payload ''previous_summary_event_id''))"
  obtain new summary where
    new: "valid_extension sha m atoms ?prior new payload summary"
    and s: "rs_covered s = ?prior @ new" "rs_count s = length ?prior + length new" "rs_text s = summary"
    using assms(2) by (auto simp: chain_extension_def Let_def split: if_splits option.splits)
  from extension_covers [OF prior_ids_prefix [OF assms(1)] new] new s show ?thesis
    by (simp add: covers_def valid_extension_def)
qed

lemma chain_step_ok: "chain_ok atoms valid \<Longrightarrow> chain_ok atoms (chain_step sha m atoms p valid)"
  by (cases "chain_extension sha m atoms valid (fst p) (ev_payload (snd p))")
    (auto simp: chain_step_def case_prod_beta intro: chain_ok_update chain_extension_covers)

lemma chain_fold_ok: "chain_ok atoms valid \<Longrightarrow> chain_ok atoms (fold (chain_step sha m atoms) ps valid)"
  by (induction ps arbitrary: valid) (simp_all add: chain_step_ok)

lemma valid_summary_chain_ok: "chain_ok atoms (valid_summary_chain sha m es atoms)"
  unfolding valid_summary_chain_def by (rule chain_fold_ok) (simp add: chain_ok_def)

subsection \<open>Selection\<close>

lemma fold_max_in: "fold (\<lambda>y best. if summary_less best y then y else best) xs x \<in> insert x (set xs)"
proof (induction xs arbitrary: x)
  case (Cons y ys)
  show ?case using Cons.IH [of y] Cons.IH [of x] by auto
qed simp

lemma max_summary_in: "max_summary xs = Some s \<Longrightarrow> s \<in> set xs"
  using fold_max_in by (cases xs) auto

lemma not_less_trans: "\<not> summary_less a b \<Longrightarrow> \<not> summary_less b c \<Longrightarrow> \<not> summary_less a c"
  by (auto simp: summary_less_def)

lemma fold_max_greatest:
  "y \<in> insert x (set xs) \<Longrightarrow> \<not> summary_less (fold (\<lambda>y best. if summary_less best y then y else best) xs x) y"
proof (induction xs arbitrary: x y)
  case Nil
  then show ?case by (simp add: summary_less_def)
next
  case (Cons z zs)
  let ?x = "if summary_less x z then z else x"
  let ?m = "fold (\<lambda>y best. if summary_less best y then y else best) zs ?x"
  have step: "\<not> summary_less ?m w" if "w \<in> insert ?x (set zs)" for w
    by (rule Cons.IH [OF that])
  have x: "\<not> summary_less ?x x" "\<not> summary_less ?x z"
    by (auto simp: summary_less_def)
  have mx: "\<not> summary_less ?m ?x" by (rule step) simp
  note m = not_less_trans [OF mx x(1)] not_less_trans [OF mx x(2)]
  consider "y = x" | "y = z" | "y \<in> set zs" using Cons.prems by auto
  then have "\<not> summary_less ?m y"
    by cases (use m step in blast)+
  then show ?case by simp
qed

lemma max_summary_greatest: "max_summary xs = Some s \<Longrightarrow> t \<in> set xs \<Longrightarrow> rs_count t \<le> rs_count s"
  using fold_max_greatest [of t _ "tl xs"] by (cases xs) (auto simp: summary_less_def not_less le_less)

lemma select_covers:
  assumes "select_rolling_summary sha m es atoms = Some s" shows "covers atoms s"
proof -
  have "s \<in> snd ` set (valid_summary_chain sha m es atoms)"
    using assms max_summary_in [of "map snd (valid_summary_chain sha m es atoms)" s]
    by (simp add: select_rolling_summary_def)
  with valid_summary_chain_ok [of atoms sha m es] show ?thesis by (auto simp: chain_ok_def)
qed

end
