(* ===== verification/Context_Builder.thy ===== *)
theory Context_Builder
  imports Context_Summary
begin

text \<open>
  \<^verbatim>\<open>ContextManager\<close> of \<^verbatim>\<open>context/builder.py\<close>: the request for the next model step, its token budget,
  and the plan for condensing history when the budget is exceeded. The natural-language prompts
  are the fields of a record; a ratio of the capabilities is a fraction, and \<^verbatim>\<open>int(ratio * n)\<close> its
  floor.
\<close>

section \<open>Data\<close>

record capabilities =
  cap_context_limit :: int
  cap_generation_reserve :: int
  cap_continuation_reserve :: int
  cap_safety_margin :: int
  cap_max_events :: int
  cap_target_events :: int
  cap_soft_ratio :: "int \<times> int"
  cap_target_ratio :: "int \<times> int"
  cap_summary_max_tokens :: int
  cap_condenser_safety_margin :: int
  cap_minimum_progress :: "int \<times> int"

definition default_capabilities :: capabilities where
  "default_capabilities = \<lparr>cap_context_limit = 32000, cap_generation_reserve = 4000,
     cap_continuation_reserve = 4000, cap_safety_margin = 2000, cap_max_events = 80,
     cap_target_events = 40, cap_soft_ratio = (4, 5), cap_target_ratio = (1, 2),
     cap_summary_max_tokens = 2048, cap_condenser_safety_margin = 2000, cap_minimum_progress = (1, 10)\<rparr>"

definition usable_input_budget :: "capabilities \<Rightarrow> int" where
  "usable_input_budget c = cap_context_limit c - cap_generation_reserve c - cap_continuation_reserve c
     - cap_safety_margin c"

definition condenser_usable_input_budget :: "capabilities \<Rightarrow> int" where
  "condenser_usable_input_budget c =
     cap_context_limit c - cap_summary_max_tokens c - cap_condenser_safety_margin c"

record prompt_texts =
  pt_system :: string
  pt_tool_policy :: string
  pt_memory_prefix :: string
  pt_memory_suffix :: string
  pt_condenser :: string
  pt_guidance :: string
  pt_worktree_guidance :: string

record runtime_snapshot =
  sn_workspace_state :: string
  sn_workspace_revision :: int
  sn_candidate_revision :: int
  sn_workspace_kind :: string
  sn_active_workspace :: string
  sn_baseline_workspace :: string
  sn_base_commit :: "string option"
  sn_subject_tree :: "string option"
  sn_changed_paths :: "(string \<times> string) list"
  sn_validation_state :: string
  sn_environment :: dict

record budget_component =
  bc_category :: string
  bc_tokens :: int
  bc_count :: nat

record budget_observation =
  bo_tool :: string
  bo_call_id :: string
  bo_tokens :: int
  bo_path :: "string option"

record budget_report =
  br_estimated :: int
  br_usable :: int
  br_reductions :: "string list"
  br_components :: "budget_component list"
  br_observations :: "budget_observation list"
  br_component_total :: "int option"
  br_residual :: "int option"
  br_fixed :: int
  br_available_history :: int
  br_history :: int
  br_soft_limit :: int
  br_target_history :: int
  br_uncovered_count :: nat
  br_chain_tip :: "string option"
  br_anchor :: "string option"
  br_retained :: "string list"
  br_mandatory_atom :: "string option"

record condensation_plan =
  pl_id :: string
  pl_previous_summary :: "string option"
  pl_previous_count :: nat
  pl_source_ids :: "string list"
  pl_atoms :: "manipulation_atom list"
  pl_messages :: "json list"
  pl_digest :: string
  pl_expected_seq :: int
  pl_turn :: "string option"
  pl_trigger :: "string list"
  pl_hard :: bool
  pl_input_tokens :: int
  pl_request_tokens_before :: int
  pl_desired_atoms :: int

datatype build_result =
    Ready "json list" budget_report
  | Condense condensation_plan "string list" budget_report
  | Exceeded budget_report string

section \<open>Rendering\<close>

definition message :: "string \<Rightarrow> string \<Rightarrow> json" where
  "message role content = JObj [(''role'', JStr role), (''content'', JStr content)]"

definition render_snapshot :: "prompt_texts \<Rightarrow> runtime_snapshot \<Rightarrow> string" where
  "render_snapshot tx sn =
     (let data = JObj [(''runtime_snapshot'', JObj [
            (''workspace_state'', JStr (sn_workspace_state sn)),
            (''workspace_revision'', JInt (sn_workspace_revision sn)),
            (''candidate_revision'', JInt (sn_candidate_revision sn)),
            (''workspace_kind'', JStr (sn_workspace_kind sn)),
            (''active_workspace'', JStr (sn_active_workspace sn)),
            (''baseline_workspace'', JStr (sn_baseline_workspace sn)),
            (''base_commit'', opt_str (sn_base_commit sn)),
            (''subject_tree'', opt_str (sn_subject_tree sn)),
            (''changed_paths'', JArr (map (\<lambda>(p, k). JObj [(''path'', JStr p), (''kind'', JStr k)])
               (sn_changed_paths sn))),
            (''validation_state'', JStr (sn_validation_state sn)),
            (''execution_environment'', JObj (sn_environment sn))])];
          guidance = pt_guidance tx @
            (if sn_workspace_kind sn = ''git_worktree'' then pt_worktree_guidance tx else [])
      in guidance @ [CHR 0x0A] @ dumps_default data)"

definition memory_message :: "prompt_texts \<Rightarrow> string \<Rightarrow> json" where
  "memory_message tx summary = message ''user'' (pt_memory_prefix tx @ summary @ pt_memory_suffix tx)"

definition context_marker :: string where
  "context_marker = CHR 0x0A # ''...[context truncated]''"

text \<open>\<^verbatim>\<open>_bounded_item_payload\<close>: a long tool result is cut to the byte limit.\<close>

definition bounded_result :: "nat \<Rightarrow> dict \<Rightarrow> dict" where
  "bounded_result limit result =
     (let content = str_get_or result ''content'' in
      if length content \<le> limit then result
      else
        let bounded = utf8_ignore (take (limit - length context_marker) content);
            metadata = (case jor (dget result ''metadata'') (JObj []) of JObj d \<Rightarrow> d | _ \<Rightarrow> [])
        in dset ''metadata'' (JObj (dset ''context_limit_bytes'' (JInt (int limit)) metadata))
             (dset ''context_truncated'' (JBool True)
               (dset ''content'' (JStr (bounded @ context_marker)) result)))"

definition bounded_item_payload :: "history_item \<Rightarrow> dict" where
  "bounded_item_payload item =
     (if hi_type item \<notin> {''tool_result'', ''tool_denied''} then hi_payload item
      else dset ''result''
             (JObj (bounded_result 16000
               (case jor (dget (hi_payload item) ''result'') (JObj []) of JObj d \<Rightarrow> d | _ \<Rightarrow> [])))
             (hi_payload item))"

definition render_call :: "json \<Rightarrow> json" where
  "render_call call = (case call of
     JObj d \<Rightarrow> JObj [(''id'', dget d ''call_id''), (''type'', JStr ''function''),
       (''function'', JObj [(''name'', dget d ''name''), (''arguments'', JStr (dumps_default (dget d ''arguments'')))])]
   | _ \<Rightarrow> JNull)"

definition render_tool_result :: "history_item \<Rightarrow> json" where
  "render_tool_result item = JObj [(''role'', JStr ''tool''),
     (''tool_call_id'', dget (hi_payload item) ''call_id''),
     (''content'', JStr (dumps_default (dget (bounded_item_payload item) ''result'')))]"

definition render_atom :: "bool \<Rightarrow> manipulation_atom \<Rightarrow> json list" where
  "render_atom include_reasoning a =
     (case at_items a of
        [] \<Rightarrow> []
      | first # rest \<Rightarrow>
        (if hi_type first = ''user_message'' then
           [JObj [(''role'', JStr ''user''), (''content'', dget (hi_payload first) ''message'')]]
         else if hi_type first = ''assistant_tool_calls'' then
           JObj ([(''role'', JStr ''assistant''),
             (''content'', jor (dget (hi_payload first) ''message'')
                (if include_reasoning then JStr [] else JNull)),
             (''tool_calls'', JArr (map render_call
                (case dget_or (hi_payload first) ''tool_calls'' (JArr []) of JArr xs \<Rightarrow> xs | _ \<Rightarrow> [])))]
             @ (case (include_reasoning, at_reasoning a) of
                  (True, Some r) \<Rightarrow> [(''reasoning_content'', JStr r)] | _ \<Rightarrow> []))
           # map render_tool_result rest
         else [JObj [(''role'', JStr ''assistant''),
                (''content'', dget_or (hi_payload first) ''message'' (JStr []))]]))"

definition holds_item :: "history_item option \<Rightarrow> manipulation_atom \<Rightarrow> bool" where
  "holds_item anchor a = (case anchor of None \<Rightarrow> False
     | Some x \<Rightarrow> list_ex (\<lambda>item. hi_id item = hi_id x) (at_items a))"

definition render_history ::
  "history_item option \<Rightarrow> manipulation_atom option \<Rightarrow> manipulation_atom list \<Rightarrow> json list" where
  "render_history anchor mandatory atoms =
     concat (map (\<lambda>a. if holds_item anchor a then []
       else render_atom (case mandatory of None \<Rightarrow> False | Some m \<Rightarrow> at_id a = at_id m) a) atoms)"

definition render_atom_message_count :: "manipulation_atom \<Rightarrow> nat" where
  "render_atom_message_count a = (case at_items a of [] \<Rightarrow> 0
     | first # _ \<Rightarrow> if hi_type first = ''assistant_tool_calls'' then length (at_items a) else 1)"

definition atom_last_seq :: "manipulation_atom \<Rightarrow> int" where
  "atom_last_seq a = (case at_items a of [] \<Rightarrow> 0 | xs \<Rightarrow> hi_seq (last xs))"

definition split_history ::
  "json list \<Rightarrow> manipulation_atom list \<Rightarrow> history_item option \<Rightarrow> json list \<times> json list" where
  "split_history messages atoms anchor =
     (case anchor of
        None \<Rightarrow> (messages, [])
      | Some x \<Rightarrow>
          let pre = sum_list (map (\<lambda>a. if \<not> holds_item anchor a \<and> atom_last_seq a < hi_seq x
                       then render_atom_message_count a else 0) atoms)
          in (take pre messages, drop pre messages))"

section \<open>What must stay\<close>

definition anchor_item :: "history_item list \<Rightarrow> history_item option" where
  "anchor_item items = find (\<lambda>i. hi_type i = ''user_message'') (rev items)"

definition mandatory_atom :: "manipulation_atom list \<Rightarrow> history_item option \<Rightarrow> manipulation_atom option" where
  "mandatory_atom atoms anchor =
     (case anchor of
        None \<Rightarrow> None
      | Some x \<Rightarrow>
          (case find (\<lambda>a. case at_items a of [] \<Rightarrow> False | first # _ \<Rightarrow>
                hi_turn first = hi_turn x \<and> hi_type first = ''assistant_tool_calls'') (rev atoms) of
             None \<Rightarrow> None
           | Some a \<Rightarrow> if at_reasoning a \<noteq> None then Some a else None))"

definition has_omitted_reasoning :: "manipulation_atom list \<Rightarrow> manipulation_atom option \<Rightarrow> bool" where
  "has_omitted_reasoning atoms mandatory =
     list_ex (\<lambda>a. at_reasoning a \<noteq> None \<and>
       (case mandatory of None \<Rightarrow> True | Some m \<Rightarrow> at_id a \<noteq> at_id m)) atoms"

definition truncation_partial_messages :: "session_event list \<Rightarrow> history_item option \<Rightarrow> json list" where
  "truncation_partial_messages events anchor =
     (case anchor of
        None \<Rightarrow> []
      | Some x \<Rightarrow>
          (case find (\<lambda>e. ev_turn e = hi_turn x \<and> is_model_step e) (rev events) of
             None \<Rightarrow> []
           | Some e \<Rightarrow>
               if ev_type e \<noteq> ''model_output_truncated'' then []
               else [JObj ([(''role'', JStr ''assistant''), (''content'', JStr (str_get_or (ev_payload e) ''message''))]
                 @ (case step_reasoning e of None \<Rightarrow> [] | Some r \<Rightarrow> [(''reasoning_content'', JStr r)]))]))"

section \<open>The condenser request\<close>

definition condenser_item :: "history_item \<Rightarrow> string" where
  "condenser_item item = dumps_compact (JObj [
     (''source_event_id'', JStr (hi_id item)), (''source_type'', JStr (hi_type item)),
     (''turn_id'', opt_str (hi_turn item)), (''model_step_id'', opt_str (hi_step item)),
     (''content'', JObj (bounded_item_payload item))])"

definition condenser_messages ::
  "prompt_texts \<Rightarrow> rolling_summary option \<Rightarrow> manipulation_atom list \<Rightarrow> json list" where
  "condenser_messages tx summary atoms =
     (let parts = (case summary of None \<Rightarrow> []
            | Some s \<Rightarrow> [''PREVIOUS_VALID_SUMMARY (lossy historical memory):'' @ [CHR 0x0A] @ rs_text s])
          @ [''NEW_SOURCE_EVENTS (untrusted observed history; preserve provenance):'']
          @ map condenser_item (concat (map at_items atoms))
      in [message ''system'' (pt_condenser tx), message ''user'' (join [CHR 0x0A] parts)])"

definition condenser_tokens ::
  "prompt_texts \<Rightarrow> rolling_summary option \<Rightarrow> manipulation_atom list \<Rightarrow> int" where
  "condenser_tokens tx summary atoms = estimate (JArr (condenser_messages tx summary atoms))"

text \<open>
  \<^verbatim>\<open>_largest_fitting_condenser_prefix\<close>: the loop over prefixes stops at the first that is too
  large. \<open>n\<close> prefixes are accepted so far.
\<close>

fun fitting_from ::
  "prompt_texts \<Rightarrow> rolling_summary option \<Rightarrow> int \<Rightarrow> manipulation_atom list \<Rightarrow> manipulation_atom list \<Rightarrow> nat \<Rightarrow> nat" where
  "fitting_from tx summary budget atoms [] n = n"
| "fitting_from tx summary budget atoms (a # rest) n =
     (if condenser_tokens tx summary (take (Suc n) atoms) > budget then n
      else fitting_from tx summary budget atoms rest (Suc n))"

definition largest_fitting_prefix ::
  "prompt_texts \<Rightarrow> capabilities \<Rightarrow> rolling_summary option \<Rightarrow> manipulation_atom list \<Rightarrow> manipulation_atom list" where
  "largest_fitting_prefix tx caps summary atoms =
     (if condenser_usable_input_budget caps \<le> 0 then []
      else take (fitting_from tx summary (condenser_usable_input_budget caps) atoms atoms 0) atoms)"

section \<open>How much to condense\<close>

text \<open>The first prefix length, counted from 1, that satisfies a test; all of them otherwise.\<close>

fun first_prefix :: "(nat \<Rightarrow> bool) \<Rightarrow> nat \<Rightarrow> manipulation_atom list \<Rightarrow> nat" where
  "first_prefix P i [] = i"
| "first_prefix P i (a # rest) = (if P (Suc i) then Suc i else first_prefix P (Suc i) rest)"

definition item_count :: "manipulation_atom list \<Rightarrow> nat" where
  "item_count atoms = length (concat (map at_items atoms))"

definition estimate_messages :: "json list \<Rightarrow> int" where
  "estimate_messages ms = (if ms = [] then 0 else estimate (JArr ms))"

definition desired_atom_count ::
  "prompt_texts \<Rightarrow> capabilities \<Rightarrow> manipulation_atom list \<Rightarrow> manipulation_atom list
     \<Rightarrow> history_item option \<Rightarrow> manipulation_atom option \<Rightarrow> int \<Rightarrow> bool \<Rightarrow> bool \<Rightarrow> nat" where
  "desired_atom_count tx caps uncovered eligible anchor mandatory target_history by_events by_tokens =
     (let need = max 1 (int (item_count uncovered) - cap_target_events caps);
          event_cut = (if by_events
            then first_prefix (\<lambda>i. need \<le> int (item_count (take i eligible))) 0 eligible else 0);
          memory_reserve = cap_summary_max_tokens caps + estimate (memory_message tx []);
          token_cut = (if by_tokens
            then first_prefix (\<lambda>i. memory_reserve
                   + estimate_messages (render_history anchor mandatory (drop i uncovered)) \<le> target_history) 0 eligible
            else 0)
      in max event_cut token_cut)"

section \<open>The breakdown of a request that does not fit\<close>

definition get_str :: "json \<Rightarrow> string \<Rightarrow> json" where
  "get_str v k = (case v of JObj d \<Rightarrow> dget d k | _ \<Rightarrow> JNull)"

definition latest_user_index :: "json list \<Rightarrow> int" where
  "latest_user_index messages =
     (case filter (\<lambda>i. get_str (messages ! i) ''role'' = JStr ''user'') [0..<length messages] of
        [] \<Rightarrow> -1 | is \<Rightarrow> int (last is))"

definition message_category :: "json list \<Rightarrow> nat \<Rightarrow> nat \<Rightarrow> json \<Rightarrow> string" where
  "message_category messages transient_count index m =
     (let role = get_str m ''role'' in
      if index < 2 then ''system_prompt''
      else if index = 2 then ''runtime_snapshot''
      else if int index = latest_user_index messages then ''current_user_message''
      else if transient_count \<noteq> 0 \<and> length messages - transient_count \<le> index then ''transient_control_messages''
      else if role = JStr ''tool'' then ''recent_tool_observations''
      else if role = JStr ''assistant'' \<and> truthy (get_str m ''tool_calls'') then ''recent_tool_arguments''
      else ''history_messages'')"

definition call_target :: "json \<Rightarrow> string \<times> (string \<times> json)" where
  "call_target call =
     (let f = jor (get_str call ''function'') (JObj []);
          arguments = loads (py_str (jor (get_str f ''arguments'') (JStr ''{}'')));
          path = (case arguments of Some (JObj d) \<Rightarrow> dget d ''path'' | _ \<Rightarrow> JNull)
      in (case get_str call ''id'' of JNull \<Rightarrow> [] | v \<Rightarrow> py_str v,
          (case get_str f ''name'' of JNull \<Rightarrow> [] | v \<Rightarrow> py_str v, path)))"

record breakdown_state =
  bs_totals :: "(string \<times> int list) list"
  bs_calls :: "(string \<times> (string \<times> json)) list"
  bs_observations :: "budget_observation list"

definition breakdown_step ::
  "json list \<Rightarrow> nat \<Rightarrow> nat \<times> json \<Rightarrow> breakdown_state \<Rightarrow> breakdown_state" where
  "breakdown_step messages transient_count = (\<lambda>(index, m) st.
     let tokens = estimate m;
         totals = add_item (message_category messages transient_count index m) tokens (bs_totals st);
         role = get_str m ''role''
     in if role = JStr ''assistant'' then
          st\<lparr>bs_totals := totals,
             bs_calls := fold (\<lambda>c m. case call_target c of (k, v) \<Rightarrow> AList.update k v m)
               (case jor (get_str m ''tool_calls'') (JArr []) of JArr cs \<Rightarrow> cs | _ \<Rightarrow> []) (bs_calls st)\<rparr>
        else if role = JStr ''tool'' then
          (let call_id = (case get_str m ''tool_call_id'' of JNull \<Rightarrow> [] | v \<Rightarrow> py_str v);
               (tool, path) = (case map_of (bs_calls st) call_id of None \<Rightarrow> (''unknown'', JNull) | Some v \<Rightarrow> v)
           in st\<lparr>bs_totals := totals,
                 bs_observations := bs_observations st @
                   [\<lparr>bo_tool = tool, bo_call_id = call_id, bo_tokens = tokens,
                     bo_path = (if truthy path then Some (py_str path) else None)\<rparr>]\<rparr>)
        else st\<lparr>bs_totals := totals\<rparr>)"

definition minimum_set_breakdown ::
  "json list \<Rightarrow> json list \<Rightarrow> nat \<Rightarrow> budget_component list \<times> budget_observation list \<times> int" where
  "minimum_set_breakdown messages schemas transient_count =
     (let st = fold (breakdown_step messages transient_count) (zip [0..<length messages] messages)
            \<lparr>bs_totals = [], bs_calls = [], bs_observations = []\<rparr>;
          totals = AList.update ''tool_definitions'' [estimate (JArr schemas)] (bs_totals st);
          components = map (\<lambda>(k, xs). \<lparr>bc_category = k, bc_tokens = sum_list xs, bc_count = length xs\<rparr>)
            (sort_key fst totals);
          largest = take 10 (sort_key (\<lambda>x. - bo_tokens x) (bs_observations st))
      in (components, largest, sum_list (map bc_tokens components)))"

definition exceeded :: "budget_report \<Rightarrow> json list \<Rightarrow> json list \<Rightarrow> nat \<Rightarrow> string \<Rightarrow> build_result" where
  "exceeded report messages schemas transient_count reason =
     (case minimum_set_breakdown messages schemas transient_count of (components, observations, tokens) \<Rightarrow>
        Exceeded (report\<lparr>br_reductions := br_reductions report @ [''minimum_set''],
          br_components := components, br_observations := observations,
          br_component_total := Some tokens, br_residual := Some (br_estimated report - tokens)\<rparr>) reason)"

section \<open>Assembling the request\<close>

record request_view =
  rv_anchor :: "history_item option"
  rv_mandatory :: "manipulation_atom option"
  rv_summary :: "rolling_summary option"
  rv_uncovered :: "manipulation_atom list"
  rv_messages :: "json list"
  rv_transient_count :: nat
  rv_report :: budget_report

definition item_index :: "(history_item \<Rightarrow> bool) \<Rightarrow> history_item list \<Rightarrow> nat" where
  "item_index P items = length (takeWhile (\<lambda>i. \<not> P i) items)"

text \<open>The summary in use: dropped when it would cover the mandatory protocol atom.\<close>

definition usable_summary ::
  "history_item list \<Rightarrow> manipulation_atom option \<Rightarrow> rolling_summary option \<Rightarrow> rolling_summary option" where
  "usable_summary items mandatory summary =
     (case (summary, mandatory) of
        (Some s, Some m) \<Rightarrow> if item_index (\<lambda>i. hi_atom i = at_id m) items < rs_count s then None else Some s
      | _ \<Rightarrow> summary)"

definition ratio_limit :: "int \<times> int \<Rightarrow> int \<Rightarrow> int" where
  "ratio_limit r n = max 0 (fst r * n div snd r)"

definition request_view ::
  "(string \<Rightarrow> string) \<Rightarrow> prompt_texts \<Rightarrow> capabilities \<Rightarrow> json list \<Rightarrow> runtime_snapshot
     \<Rightarrow> session_event list \<Rightarrow> json list \<Rightarrow> context_projection \<Rightarrow> request_view" where
  "request_view sha tx caps schemas snapshot events transient pj =
     (let anchor = anchor_item (pj_items pj);
          mandatory = mandatory_atom (pj_atoms pj) anchor;
          summary = usable_summary (pj_items pj) mandatory
             (select_rolling_summary sha (cap_summary_max_tokens caps) events (pj_atoms pj));
          uncovered = atoms_after_coverage (pj_atoms pj) (case summary of None \<Rightarrow> 0 | Some s \<Rightarrow> rs_count s);
          uncovered_items = concat (map at_items uncovered);
          partials = truncation_partial_messages events anchor;
          transients = partials @ transient;
          history = render_history anchor mandatory uncovered;
          memory = (case summary of None \<Rightarrow> [] | Some s \<Rightarrow> [memory_message tx (rs_text s)]);
          anchor_message = (case anchor of None \<Rightarrow> []
             | Some x \<Rightarrow> [JObj [(''role'', JStr ''user''), (''content'', dget (hi_payload x) ''message'')]]);
          instructions = [message ''system'' (pt_system tx), message ''system'' (pt_tool_policy tx),
             message ''system'' (render_snapshot tx snapshot)];
          (pre, post) = split_history history uncovered anchor;
          messages = instructions @ memory @ pre @ anchor_message @ post @ transients;
          schema_tokens = estimate (JArr schemas);
          total_tokens = estimate (JArr messages) + schema_tokens;
          fixed_tokens = estimate (JArr (instructions @ anchor_message @ transients)) + schema_tokens;
          history_tokens = estimate_messages (memory @ history);
          available = usable_input_budget caps - fixed_tokens;
          omitted = has_omitted_reasoning (pj_atoms pj) mandatory
             \<or> list_ex (\<lambda>t. ut_final_reasoning t \<noteq> None) (pj_turns pj);
          reductions = (if omitted then [''reasoning_history_omitted''] else [])
             @ (if summary \<noteq> None then [''rolling_summary_reused''] else [])
             @ (if partials \<noteq> [] then [''output_truncation_partial_replayed''] else [])
      in \<lparr>rv_anchor = anchor, rv_mandatory = mandatory, rv_summary = summary, rv_uncovered = uncovered,
          rv_messages = messages, rv_transient_count = length transients,
          rv_report = \<lparr>br_estimated = total_tokens, br_usable = usable_input_budget caps,
            br_reductions = reductions, br_components = [], br_observations = [],
            br_component_total = None, br_residual = None, br_fixed = fixed_tokens,
            br_available_history = available, br_history = history_tokens,
            br_soft_limit = ratio_limit (cap_soft_ratio caps) available,
            br_target_history = ratio_limit (cap_target_ratio caps) available,
            br_uncovered_count = length uncovered_items,
            br_chain_tip = map_option rs_id summary, br_anchor = map_option hi_id anchor,
            br_retained = map hi_id (filter (\<lambda>i. case anchor of None \<Rightarrow> True | Some x \<Rightarrow> hi_id i \<noteq> hi_id x)
               uncovered_items),
            br_mandatory_atom = map_option at_id mandatory\<rparr>\<rparr>)"

section \<open>Building\<close>

definition eligible_atoms :: "request_view \<Rightarrow> manipulation_atom list" where
  "eligible_atoms v = (case rv_mandatory v of None \<Rightarrow> rv_uncovered v
     | Some m \<Rightarrow> takeWhile (\<lambda>a. at_id a \<noteq> at_id m) (rv_uncovered v))"

definition triggers_of :: "capabilities \<Rightarrow> budget_report \<Rightarrow> string list" where
  "triggers_of caps r =
     (if cap_max_events caps < int (br_uncovered_count r) then [''events''] else [])
     @ (if br_soft_limit r < br_history r then [''tokens''] else [])
     @ (if br_usable r < br_estimated r then [''hard''] else [])"

definition make_plan ::
  "(string \<Rightarrow> string) \<Rightarrow> prompt_texts \<Rightarrow> session_event list \<Rightarrow> request_view \<Rightarrow> string list \<Rightarrow> bool \<Rightarrow> int
     \<Rightarrow> manipulation_atom list \<Rightarrow> condensation_plan" where
  "make_plan sha tx events v triggers hard desired fitting =
     (let ids = source_ids fitting; digest = ids_digest sha ids; expected = max_event_seq events;
          summary = rv_summary v;
          seed = (case summary of None \<Rightarrow> ''root'' | Some s \<Rightarrow> rs_id s) @ '':'' @ digest @ '':'' @ show_int expected
      in \<lparr>pl_id = ''cond-plan-'' @ take 16 (sha seed),
          pl_previous_summary = map_option rs_id summary,
          pl_previous_count = (case summary of None \<Rightarrow> 0 | Some s \<Rightarrow> rs_count s),
          pl_source_ids = ids, pl_atoms = fitting,
          pl_messages = condenser_messages tx summary fitting,
          pl_digest = digest, pl_expected_seq = expected,
          pl_turn = (case rv_anchor v of None \<Rightarrow> None | Some x \<Rightarrow> hi_turn x),
          pl_trigger = triggers, pl_hard = hard,
          pl_input_tokens = condenser_tokens tx summary fitting,
          pl_request_tokens_before = br_estimated (rv_report v), pl_desired_atoms = desired\<rparr>)"

text \<open>\<^verbatim>\<open>desired_item_count / max(1, len(uncovered_items)) < minimum_progress\<close>.\<close>

definition too_little_progress :: "capabilities \<Rightarrow> nat \<Rightarrow> nat \<Rightarrow> bool" where
  "too_little_progress caps desired uncovered =
     (int desired * snd (cap_minimum_progress caps) < fst (cap_minimum_progress caps) * max 1 (int uncovered))"

definition plan_count ::
  "prompt_texts \<Rightarrow> capabilities \<Rightarrow> int option \<Rightarrow> request_view \<Rightarrow> string list \<Rightarrow> bool \<Rightarrow> int" where
  "plan_count tx caps max_atoms v triggers hard =
     (let count = int (desired_atom_count tx caps (rv_uncovered v) (eligible_atoms v) (rv_anchor v)
             (rv_mandatory v) (br_target_history (rv_report v))
             (''events'' \<in> set triggers) (''tokens'' \<in> set triggers \<or> hard))
      in case max_atoms of None \<Rightarrow> count | Some k \<Rightarrow> min count (max 0 k))"

definition plan_request ::
  "(string \<Rightarrow> string) \<Rightarrow> prompt_texts \<Rightarrow> capabilities \<Rightarrow> json list \<Rightarrow> session_event list \<Rightarrow> int option
     \<Rightarrow> request_view \<Rightarrow> string list \<Rightarrow> bool \<Rightarrow> build_result" where
  "plan_request sha tx caps schemas events max_atoms v triggers hard =
     (let report = rv_report v;
          ready = Ready (rv_messages v) report;
          fail = (\<lambda>reason. if hard then exceeded report (rv_messages v) schemas (rv_transient_count v) reason else ready);
          desired = plan_count tx caps max_atoms v triggers hard;
          atoms = take (nat desired) (eligible_atoms v);
          fitting = largest_fitting_prefix tx caps (rv_summary v) atoms
      in if desired \<le> 0 then fail ''minimum_history''
         else if \<not> hard \<and> too_little_progress caps (item_count atoms) (item_count (rv_uncovered v)) then ready
         else if condenser_usable_input_budget caps \<le> condenser_tokens tx (rv_summary v) []
         then fail ''condenser_fixed_input_exceeded''
         else if fitting = [] then fail ''condenser_atom_too_large''
         else Condense (make_plan sha tx events v triggers hard desired fitting) triggers report)"

definition build_context ::
  "(string \<Rightarrow> string) \<Rightarrow> prompt_texts \<Rightarrow> capabilities \<Rightarrow> json list \<Rightarrow> runtime_snapshot
     \<Rightarrow> session_event list \<Rightarrow> json list \<Rightarrow> bool \<Rightarrow> int option \<Rightarrow> build_result res" where
  "build_context sha tx caps schemas snapshot events transient suppress_soft max_atoms =
     rbind (project_context_events events) (\<lambda>pj.
     case find (\<lambda>a. \<not> at_closed a) (pj_atoms pj) of
       Some a \<Rightarrow> Inl (Exn ContextNotReady (at_id a))
     | None \<Rightarrow>
         let v = request_view sha tx caps schemas snapshot events transient pj;
             report = rv_report v;
             hard = (br_usable report < br_estimated report);
             triggers = triggers_of caps report
         in Inr (if br_usable report \<le> br_fixed report
                 then exceeded report (rv_messages v) schemas (rv_transient_count v) ''fixed_set''
                 else if triggers = [] \<or> (suppress_soft \<and> \<not> hard) then Ready (rv_messages v) report
                 else plan_request sha tx caps schemas events max_atoms v triggers hard))"

section \<open>What a result guarantees\<close>

lemma exceeded_not [simp]:
  "exceeded r ms ss n why \<noteq> Ready ms' r'" "exceeded r ms ss n why \<noteq> Condense p t r'"
  by (simp_all add: exceeded_def split: prod.splits)

lemmas exceeded_distinct [simp] = exceeded_not [THEN not_sym]

lemma fitting_from_le: "fitting_from tx s b atoms rest n \<le> n + length rest"
proof (induction rest arbitrary: n)
  case (Cons a rest)
  show ?case using Cons.IH [of "Suc n"] by simp
qed simp

lemma fitting_from_fits:
  "0 < n \<longrightarrow> condenser_tokens tx s (take n atoms) \<le> b \<Longrightarrow>
   0 < fitting_from tx s b atoms rest n \<Longrightarrow>
     condenser_tokens tx s (take (fitting_from tx s b atoms rest n) atoms) \<le> b"
proof (induction rest arbitrary: n)
  case Nil
  then show ?case by simp
next
  case (Cons a rest)
  show ?case
  proof (cases "condenser_tokens tx s (take (Suc n) atoms) > b")
    case True
    then show ?thesis using Cons.prems by simp
  next
    case False
    then show ?thesis using Cons.IH [of "Suc n"] Cons.prems(2) by simp
  qed
qed

lemma largest_fitting_prefix_fits:
  assumes "largest_fitting_prefix tx caps s atoms \<noteq> []"
  shows "condenser_tokens tx s (largest_fitting_prefix tx caps s atoms) \<le> condenser_usable_input_budget caps"
    and "prefix (largest_fitting_prefix tx caps s atoms) atoms"
proof -
  let ?b = "condenser_usable_input_budget caps"
  have b: "\<not> ?b \<le> 0" and p: "largest_fitting_prefix tx caps s atoms = take (fitting_from tx s ?b atoms atoms 0) atoms"
    using assms by (auto simp: largest_fitting_prefix_def split: if_splits)
  then have "0 < fitting_from tx s ?b atoms atoms 0" using assms by (cases "fitting_from tx s ?b atoms atoms 0") auto
  then show "condenser_tokens tx s (largest_fitting_prefix tx caps s atoms) \<le> ?b"
    unfolding p by (intro fitting_from_fits) simp_all
  show "prefix (largest_fitting_prefix tx caps s atoms) atoms"
    by (simp add: p take_is_prefix)
qed

lemma plan_request_cases:
  fixes v triggers hard max_atoms tx caps
  defines "desired \<equiv> plan_count tx caps max_atoms v triggers hard"
  defines "fitting \<equiv> largest_fitting_prefix tx caps (rv_summary v) (take (nat desired) (eligible_atoms v))"
  obtains (ready) "plan_request sha tx caps schemas events max_atoms v triggers hard = Ready (rv_messages v) (rv_report v)"
      "\<not> hard"
  | (exceeded) reason where "plan_request sha tx caps schemas events max_atoms v triggers hard
      = exceeded (rv_report v) (rv_messages v) schemas (rv_transient_count v) reason" "hard"
  | (condense) "plan_request sha tx caps schemas events max_atoms v triggers hard
      = Condense (make_plan sha tx events v triggers hard desired fitting) triggers (rv_report v)"
      "fitting \<noteq> []" "0 < desired"
proof -
  let ?r = "plan_request sha tx caps schemas events max_atoms v triggers hard"
  let ?fail = "\<lambda>reason. if hard then exceeded (rv_report v) (rv_messages v) schemas (rv_transient_count v) reason
    else Ready (rv_messages v) (rv_report v)"
  let ?ready = "Ready (rv_messages v) (rv_report v)"
  let ?plan = "Condense (make_plan sha tx events v triggers hard desired fitting) triggers (rv_report v)"
  define little where "little = (\<not> hard \<and> too_little_progress caps
    (item_count (take (nat desired) (eligible_atoms v))) (item_count (rv_uncovered v)))"
  define fixed where "fixed = (condenser_usable_input_budget caps \<le> condenser_tokens tx (rv_summary v) [])"
  have r: "?r = (if desired \<le> 0 then ?fail ''minimum_history'' else if little then ?ready
      else if fixed then ?fail ''condenser_fixed_input_exceeded''
      else if fitting = [] then ?fail ''condenser_atom_too_large'' else ?plan)"
    unfolding plan_request_def Let_def desired_def fitting_def little_def fixed_def by (rule refl)
  consider (fail) reason where "?r = ?fail reason" | (little) "?r = ?ready" "\<not> hard"
    | (plan) "?r = ?plan" "fitting \<noteq> []" "0 < desired"
  proof (cases "desired \<le> 0")
    case True
    then have "?r = ?fail ''minimum_history''" unfolding r by (simp only: if_True)
    then show thesis by (rule that(1))
  next
    case desired: False
    show thesis
    proof (cases little)
      case True
      then have "?r = ?ready" unfolding r using desired by (simp only: if_True if_False)
      then show thesis using True by (intro that(2)) (simp_all add: little_def)
    next
      case little: False
      show thesis
      proof (cases "fixed \<or> fitting = []")
        case True
        then have "?r = ?fail ''condenser_fixed_input_exceeded'' \<or> ?r = ?fail ''condenser_atom_too_large''"
          unfolding r using desired little by (cases fixed) (simp_all only: if_True if_False simp_thms)
        then show thesis using that(1) by blast
      next
        case False
        then have "?r = ?plan" unfolding r using desired little by (simp only: if_True if_False simp_thms de_Morgan_disj)
        then show thesis using False desired by (intro that(3)) simp_all
      qed
    qed
  qed
  then show thesis
    by cases (use ready exceeded condense in \<open>cases hard; simp\<close>)+
qed

lemma plan_count_max: "plan_count tx caps (Some k) v triggers hard \<le> max 0 k"
  by (simp add: plan_count_def Let_def)

text \<open>The three ways a build returns.\<close>

lemma build_context_outcome:
  assumes "build_context sha tx caps schemas snapshot events transient suppress_soft max_atoms = Inr r"
  obtains pj v hard tr desired fitting where "project_context_events events = Inr pj"
    and "list_all at_closed (pj_atoms pj)"
    and "v = request_view sha tx caps schemas snapshot events transient pj"
    and "hard = (br_usable (rv_report v) < br_estimated (rv_report v))"
    and "desired = plan_count tx caps max_atoms v tr hard"
    and "fitting = largest_fitting_prefix tx caps (rv_summary v) (take (nat desired) (eligible_atoms v))"
    and "(\<exists>reason. r = exceeded (rv_report v) (rv_messages v) schemas (rv_transient_count v) reason)
      \<or> (r = Ready (rv_messages v) (rv_report v) \<and> \<not> hard)
      \<or> (r = Condense (make_plan sha tx events v tr hard desired fitting) tr (rv_report v)
          \<and> fitting \<noteq> [] \<and> 0 < desired \<and> (suppress_soft \<longrightarrow> hard))"
proof -
  from assms obtain pj where pj: "project_context_events events = Inr pj"
    by (auto simp: build_context_def result_simps)
  define v where "v = request_view sha tx caps schemas snapshot events transient pj"
  define hard where "hard = (br_usable (rv_report v) < br_estimated (rv_report v))"
  define tr where "tr = triggers_of caps (rv_report v)"
  have closed: "list_all at_closed (pj_atoms pj)"
    using assms pj by (auto simp: build_context_def find_None_iff list_all_iff split: option.splits)
  have tr_hard: "tr = [] \<Longrightarrow> \<not> hard" by (auto simp: tr_def hard_def triggers_of_def split: if_splits)
  have open_none: "find (\<lambda>a. \<not> at_closed a) (pj_atoms pj) = None"
    using closed by (auto simp: find_None_iff list_all_iff)
  have "build_context sha tx caps schemas snapshot events transient suppress_soft max_atoms
    = Inr (if br_usable (rv_report v) \<le> br_fixed (rv_report v)
           then exceeded (rv_report v) (rv_messages v) schemas (rv_transient_count v) ''fixed_set''
           else if tr = [] \<or> (suppress_soft \<and> \<not> hard) then Ready (rv_messages v) (rv_report v)
           else plan_request sha tx caps schemas events max_atoms v tr hard)"
    unfolding build_context_def pj rbind_Inr open_none option.case Let_def v_def hard_def tr_def by (rule refl)
  with assms have r: "r = (if br_usable (rv_report v) \<le> br_fixed (rv_report v)
           then exceeded (rv_report v) (rv_messages v) schemas (rv_transient_count v) ''fixed_set''
           else if tr = [] \<or> (suppress_soft \<and> \<not> hard) then Ready (rv_messages v) (rv_report v)
           else plan_request sha tx caps schemas events max_atoms v tr hard)"
    by (simp only: sum.inject)
  show thesis
  proof (rule that [OF pj closed v_def hard_def refl refl])
    show "(\<exists>reason. r = exceeded (rv_report v) (rv_messages v) schemas (rv_transient_count v) reason)
      \<or> (r = Ready (rv_messages v) (rv_report v) \<and> \<not> hard)
      \<or> (r = Condense (make_plan sha tx events v tr hard (plan_count tx caps max_atoms v tr hard)
            (largest_fitting_prefix tx caps (rv_summary v) (take (nat (plan_count tx caps max_atoms v tr hard)) (eligible_atoms v)))) tr (rv_report v)
          \<and> largest_fitting_prefix tx caps (rv_summary v) (take (nat (plan_count tx caps max_atoms v tr hard)) (eligible_atoms v)) \<noteq> []
          \<and> 0 < plan_count tx caps max_atoms v tr hard \<and> (suppress_soft \<longrightarrow> hard))"
    proof (cases "br_usable (rv_report v) \<le> br_fixed (rv_report v)")
      case True
      with r show ?thesis by auto
    next
      case fixed: False
      show ?thesis
      proof (cases "tr = [] \<or> (suppress_soft \<and> \<not> hard)")
        case True
        with r fixed tr_hard show ?thesis by auto
      next
        case False
        with r fixed have r: "r = plan_request sha tx caps schemas events max_atoms v tr hard" by simp
        with False show ?thesis
          by (cases rule: plan_request_cases [of sha tx caps schemas events max_atoms v tr hard]) auto
      qed
    qed
  qed
qed

lemma project_atoms_ok:
  assumes "project_context_events es = Inr pj"
  shows "nonempty_atoms (pj_atoms pj)" and "distinct (map at_id (pj_atoms pj))"
proof -
  from assms obtain g where g: "pj_atoms pj = atoms_of g" "groups_ok (normalized es) g"
    by (elim project_context_Inr) simp
  then show "nonempty_atoms (pj_atoms pj)"
    by (auto simp: nonempty_atoms_def groups_ok_def atoms_of_def)
  from g show "distinct (map at_id (pj_atoms pj))"
    by (simp add: groups_ok_def atoms_of_def comp_def case_prod_unfold)
qed

lemma view_simps:
  assumes "v = request_view sha tx caps schemas snapshot events transient pj"
  shows "rv_anchor v = anchor_item (pj_items pj)"
    and "rv_mandatory v = mandatory_atom (pj_atoms pj) (anchor_item (pj_items pj))"
    and "rv_summary v = usable_summary (pj_items pj) (mandatory_atom (pj_atoms pj) (anchor_item (pj_items pj)))
      (select_rolling_summary sha (cap_summary_max_tokens caps) events (pj_atoms pj))"
    and "rv_uncovered v = atoms_after_coverage (pj_atoms pj)
      (case rv_summary v of None \<Rightarrow> 0 | Some s \<Rightarrow> rs_count s)"
    and "br_estimated (rv_report v) = estimate (JArr (rv_messages v)) + estimate (JArr schemas)"
    and "br_usable (rv_report v) = usable_input_budget caps"
  unfolding assms by (simp_all add: request_view_def Let_def case_prod_beta)

lemma usable_summary_Some:
  "usable_summary items m s = Some x \<Longrightarrow>
     s = Some x \<and> (\<forall>a. m = Some a \<longrightarrow> rs_count x \<le> item_index (\<lambda>i. hi_atom i = at_id a) items)"
  by (auto simp: usable_summary_def split: option.splits if_splits)

text \<open>What the view leaves uncovered is what follows the atoms of the summary in use.\<close>

lemma view_uncovered:
  assumes "project_context_events events = Inr pj"
    and v: "v = request_view sha tx caps schemas snapshot events transient pj"
  obtains k where "k \<le> length (pj_atoms pj)" and "rv_uncovered v = drop k (pj_atoms pj)"
    and "(case rv_summary v of None \<Rightarrow> k = 0
      | Some s \<Rightarrow> rs_covered s = source_ids (take k (pj_atoms pj)) \<and> rs_count s = length (source_ids (take k (pj_atoms pj))))"
proof (cases "rv_summary v")
  case None
  then have "rv_uncovered v = drop 0 (pj_atoms pj)"
    using project_atoms_ok(1) [OF assms(1)] by (simp add: view_simps(4) [OF v] atoms_after_coverage_zero)
  with None show thesis by (intro that [of 0]) simp_all
next
  case (Some s)
  then have "select_rolling_summary sha (cap_summary_max_tokens caps) events (pj_atoms pj) = Some s"
    by (auto simp: view_simps(3) [OF v] dest: usable_summary_Some)
  then have cov: "covers (pj_atoms pj) s" by (rule select_covers)
  then obtain k where k: "0 < k" "k \<le> length (pj_atoms pj)" "rs_count s = length (source_ids (take k (pj_atoms pj)))"
    by (auto simp: covers_def legal_frontier_iff)
  have "rv_uncovered v = drop k (pj_atoms pj)"
    using Some k atoms_after_coverage_frontier [OF project_atoms_ok(1) [OF assms(1)] k(1,2)]
    by (simp add: view_simps(4) [OF v])
  moreover have "rs_covered s = source_ids (take k (pj_atoms pj))"
    using cov k(3) take_source_ids by (simp add: covers_def)
  ultimately show thesis using Some k by (intro that [of k]) simp_all
qed

lemma eligible_prefix: "prefix (eligible_atoms v) (rv_uncovered v)"
  by (auto simp: eligible_atoms_def takeWhile_is_prefix split: option.splits)

lemma eligible_no_mandatory: "rv_mandatory v = Some m \<Longrightarrow> a \<in> set (eligible_atoms v) \<Longrightarrow> at_id a \<noteq> at_id m"
  by (auto simp: eligible_atoms_def dest: set_takeWhileD)

lemma plan_parts:
  assumes "project_context_events events = Inr pj"
    and "build_context sha tx caps schemas snapshot events transient suppress_soft max_atoms
     = Inr (Condense plan triggers report)"
  shows "\<exists>covered rest. pj_atoms pj = covered @ pl_atoms plan @ rest
    \<and> pl_previous_count plan = length (source_ids covered)
    \<and> pl_atoms plan \<noteq> [] \<and> pl_source_ids plan = source_ids (pl_atoms plan)
    \<and> (\<forall>m. mandatory_atom (pj_atoms pj) (anchor_item (pj_items pj)) = Some m
          \<longrightarrow> at_id m \<notin> at_id ` set (pl_atoms plan))
    \<and> pl_input_tokens plan \<le> condenser_usable_input_budget caps
    \<and> (\<forall>k. max_atoms = Some k \<longrightarrow> int (length (pl_atoms plan)) \<le> max 0 k)
    \<and> (pl_hard plan \<longleftrightarrow> br_usable report < br_estimated report)
    \<and> (suppress_soft \<longrightarrow> pl_hard plan)
    \<and> pl_digest plan = ids_digest sha (pl_source_ids plan)
    \<and> (\<exists>summary. pl_previous_summary plan = map_option rs_id summary
          \<and> (case summary of None \<Rightarrow> covered = []
             | Some s \<Rightarrow> select_rolling_summary sha (cap_summary_max_tokens caps) events (pj_atoms pj) = Some s
                 \<and> rs_covered s = source_ids covered))"
proof -
  from assms(2) obtain pj' v hard tr desired fitting where pj': "project_context_events events = Inr pj'"
    and v': "v = request_view sha tx caps schemas snapshot events transient pj'"
    and hard: "hard = (br_usable (rv_report v) < br_estimated (rv_report v))"
    and desired: "desired = plan_count tx caps max_atoms v tr hard"
    and fitting: "fitting = largest_fitting_prefix tx caps (rv_summary v) (take (nat desired) (eligible_atoms v))"
    and plan: "plan = make_plan sha tx events v tr hard desired fitting" "report = rv_report v"
    and ne: "fitting \<noteq> []" and pos: "0 < desired" and soft: "suppress_soft \<longrightarrow> hard"
    by (elim build_context_outcome) auto
  with assms(1) have v: "v = request_view sha tx caps schemas snapshot events transient pj" by simp
  obtain k where k: "rv_uncovered v = drop k (pj_atoms pj)"
    and cov: "case rv_summary v of None \<Rightarrow> k = 0
      | Some s \<Rightarrow> rs_covered s = source_ids (take k (pj_atoms pj)) \<and> rs_count s = length (source_ids (take k (pj_atoms pj)))"
    by (rule view_uncovered [OF assms(1) v])
  have fp: "prefix fitting (take (nat desired) (eligible_atoms v))"
    and tok: "condenser_tokens tx (rv_summary v) fitting \<le> condenser_usable_input_budget caps"
    using largest_fitting_prefix_fits [OF ne [unfolded fitting]] by (simp_all add: fitting)
  have fe: "prefix fitting (eligible_atoms v)"
    using fp take_is_prefix prefix_order.trans by blast
  then obtain rest where rest: "drop k (pj_atoms pj) = fitting @ rest"
    using eligible_prefix [of v] unfolding k by (metis prefix_order.trans prefixE)
  then have cut: "pj_atoms pj = take k (pj_atoms pj) @ fitting @ rest"
    by (metis append_take_drop_id)
  have atoms: "pl_atoms plan = fitting" "pl_source_ids plan = source_ids fitting" "pl_hard plan = hard"
    "pl_input_tokens plan = condenser_tokens tx (rv_summary v) fitting"
    "pl_previous_count plan = (case rv_summary v of None \<Rightarrow> 0 | Some s \<Rightarrow> rs_count s)"
    "pl_digest plan = ids_digest sha (source_ids fitting)" "pl_previous_summary plan = map_option rs_id (rv_summary v)"
    by (simp_all add: plan make_plan_def Let_def)
  have sel: "case rv_summary v of None \<Rightarrow> take k (pj_atoms pj) = []
      | Some s \<Rightarrow> select_rolling_summary sha (cap_summary_max_tokens caps) events (pj_atoms pj) = Some s
          \<and> rs_covered s = source_ids (take k (pj_atoms pj))"
    using cov by (auto simp: view_simps(3) [OF v] split: option.splits dest: usable_summary_Some)
  have "at_id m \<notin> at_id ` set fitting"
    if "mandatory_atom (pj_atoms pj) (anchor_item (pj_items pj)) = Some m" for m
  proof -
    have "rv_mandatory v = Some m" using that by (simp add: view_simps(2) [OF v])
    then have "\<forall>a \<in> set (eligible_atoms v). at_id a \<noteq> at_id m" using eligible_no_mandatory by blast
    then show ?thesis using set_mono_prefix [OF fe] by auto
  qed
  moreover have "pl_previous_count plan = length (source_ids (take k (pj_atoms pj)))"
    using cov by (cases "rv_summary v") (simp_all add: atoms)
  moreover have "int (length fitting) \<le> max 0 q" if "max_atoms = Some q" for q
  proof -
    have "length fitting \<le> nat desired" using prefix_length_le [OF fp] by simp
    then have "int (length fitting) \<le> desired" using pos by simp
    also have "desired \<le> max 0 q" using plan_count_max [of tx caps q v tr hard] that by (simp add: desired)
    finally show ?thesis .
  qed
  ultimately show ?thesis
    using cut ne tok soft sel
    by (intro exI [of _ "take k (pj_atoms pj)"] exI [of _ rest] conjI exI [of _ "rv_summary v"])
      (simp_all add: atoms plan(2) hard)
qed

section \<open>Properties\<close>

definition demo_texts :: prompt_texts where
  "demo_texts = \<lparr>pt_system = ''S'', pt_tool_policy = ''P'', pt_memory_prefix = ''<m>'', pt_memory_suffix = ''</m>'',
     pt_condenser = ''C'', pt_guidance = ''G'', pt_worktree_guidance = ''W''\<rparr>"

definition demo_snapshot :: runtime_snapshot where
  "demo_snapshot = \<lparr>sn_workspace_state = ''source_only'', sn_workspace_revision = 0, sn_candidate_revision = 0,
     sn_workspace_kind = ''source'', sn_active_workspace = ''/ws'', sn_baseline_workspace = ''/ws'',
     sn_base_commit = None, sn_subject_tree = None, sn_changed_paths = [],
     sn_validation_state = ''none_or_stale'', sn_environment = []\<rparr>"

definition demo_sha :: "string \<Rightarrow> string" where
  "demo_sha s = show_nat (sum_list (map byte_of s))"

definition tiny_history :: "session_event list" where
  "tiny_history = [ev0 ''user_message'' [(''message'', JStr ''a'')],
     ev0 ''assistant_message'' [(''message'', JStr ''b'')],
     ev0 ''user_message'' [(''message'', JStr ''c'')]]"

definition tiny_caps :: capabilities where
  "tiny_caps = default_capabilities\<lparr>cap_max_events := 2, cap_target_events := 1\<rparr>"

lemma condense_outcome:
  "(case r of Inr (Condense p tr report) \<Rightarrow> \<not> pl_hard p | _ \<Rightarrow> False)
   \<Longrightarrow> \<exists>p tr report. r = Inr (Condense p tr report) \<and> \<not> pl_hard p"
  by (cases r) (auto split: build_result.splits)

text \<open>
  C5. A request that is returned as ready fits: its estimate is that of exactly the messages and tool
  schemas it carries, and is at most the usable input budget of the model.
\<close>

theorem ready_fits_budget:
  assumes "build_context sha tx caps schemas snapshot events transient suppress_soft max_atoms
     = Inr (Ready messages report)"
  shows "br_estimated report = estimate (JArr messages) + estimate (JArr schemas)
    \<and> br_usable report = usable_input_budget caps \<and> br_estimated report \<le> br_usable report"
proof -
  from assms obtain pj v where v: "v = request_view sha tx caps schemas snapshot events transient pj"
    and "messages = rv_messages v" "report = rv_report v"
    and "\<not> br_usable (rv_report v) < br_estimated (rv_report v)"
    by (elim build_context_outcome) auto
  then show ?thesis using view_simps(5,6) [OF v] by simp
qed

theorem ready_fits_budget_witness:
  "\<exists>messages report. build_context demo_sha demo_texts default_capabilities [] demo_snapshot tiny_history [] False None
     = Inr (Ready messages report) \<and> br_estimated report \<le> 22000"
proof -
  define r where "r = build_context demo_sha demo_texts default_capabilities [] demo_snapshot tiny_history [] False None"
  have "(case r of Inr (Ready ms report) \<Rightarrow> True | _ \<Rightarrow> False)"
    unfolding r_def tiny_history_def ev0_def by code_simp
  then obtain ms report where r: "build_context demo_sha demo_texts default_capabilities [] demo_snapshot tiny_history [] False None
      = Inr (Ready ms report)"
    by (auto simp: r_def split: sum.splits build_result.splits)
  from ready_fits_budget [OF r] r show ?thesis
    by (auto simp: usable_input_budget_def default_capabilities_def)
qed

text \<open>
  C6. A condensation plan is sound: the history is cut into what the summary in use covers, the
  planned atoms, and the rest; the plan is not empty, holds whole atoms, never the mandatory
  protocol atom or anything after it, fits the condenser's own budget and the caller's limit on
  atoms, and is a hard plan exactly when the request exceeds the model's budget; a caller that
  suppresses the soft trigger gets a hard plan only.
\<close>

theorem condensation_plan_sound:
  assumes "project_context_events events = Inr pj"
    and "build_context sha tx caps schemas snapshot events transient suppress_soft max_atoms
     = Inr (Condense plan triggers report)"
  shows "\<exists>covered rest. pj_atoms pj = covered @ pl_atoms plan @ rest
    \<and> pl_previous_count plan = length (source_ids covered)
    \<and> pl_atoms plan \<noteq> [] \<and> pl_source_ids plan = source_ids (pl_atoms plan)
    \<and> (\<forall>m. mandatory_atom (pj_atoms pj) (anchor_item (pj_items pj)) = Some m
          \<longrightarrow> at_id m \<notin> at_id ` set (pl_atoms plan))
    \<and> pl_input_tokens plan \<le> condenser_usable_input_budget caps
    \<and> (\<forall>k. max_atoms = Some k \<longrightarrow> int (length (pl_atoms plan)) \<le> max 0 k)
    \<and> (pl_hard plan \<longleftrightarrow> br_usable report < br_estimated report)
    \<and> (suppress_soft \<longrightarrow> pl_hard plan)"
  using plan_parts [OF assms] by blast

theorem condensation_plan_sound_witness:
  "\<exists>pj plan triggers report. project_context_events tiny_history = Inr pj
     \<and> build_context demo_sha demo_texts tiny_caps [] demo_snapshot tiny_history [] False None
       = Inr (Condense plan triggers report)
     \<and> pl_atoms plan \<noteq> [] \<and> pl_source_ids plan = source_ids (pl_atoms plan) \<and> \<not> pl_hard plan"
proof -
  define r where "r = build_context demo_sha demo_texts tiny_caps [] demo_snapshot tiny_history [] False None"
  define q where "q = project_context_events tiny_history"
  have "(case r of Inr (Condense p tr report) \<Rightarrow> \<not> pl_hard p | _ \<Rightarrow> False)"
    unfolding r_def tiny_history_def ev0_def by code_simp
  from condense_outcome [OF this] obtain plan tr report where
    r: "build_context demo_sha demo_texts tiny_caps [] demo_snapshot tiny_history [] False None
      = Inr (Condense plan tr report)" "\<not> pl_hard plan"
    unfolding r_def by blast
  have "\<not> Option.is_none (case q of Inr p \<Rightarrow> Some p | Inl _ \<Rightarrow> None)"
    unfolding q_def tiny_history_def ev0_def by code_simp
  then obtain pj where pj: "project_context_events tiny_history = Inr pj"
    unfolding q_def by (cases "project_context_events tiny_history") simp_all
  from condensation_plan_sound [OF pj r(1)] r pj show ?thesis by blast
qed

end
