(* ===== verification/Model_Gateway.thy ===== *)
theory Model_Gateway
  imports Context_Builder
begin

text \<open>
  The interface of \<^verbatim>\<open>codeagent/model_gateway/base.py\<close>, the model configuration of \<^verbatim>\<open>config.py\<close>, and
  the world the agent runs in. The provider is code outside the repository: a completion is a
  function of the request and of a step counter, as are the clock, fresh identifiers and the
  user's stop request.
\<close>

section \<open>Requests and responses\<close>

record tool_call =
  tc_id :: string
  tc_name :: string
  tc_arguments :: dict

definition call_dump :: "tool_call \<Rightarrow> json" where
  "call_dump c = JObj [(''call_id'', JStr (tc_id c)), (''name'', JStr (tc_name c)), (''arguments'', JObj (tc_arguments c))]"

record token_usage =
  tu_input :: "int option"
  tu_output :: "int option"
  tu_total :: "int option"
  tu_cached_input :: "int option"
  tu_cache_miss_input :: "int option"
  tu_reasoning :: "int option"

definition opt_int :: "int option \<Rightarrow> json" where
  "opt_int v = (case v of None \<Rightarrow> JNull | Some i \<Rightarrow> JInt i)"

definition usage_dump :: "token_usage option \<Rightarrow> json" where
  "usage_dump u = (case u of None \<Rightarrow> JNull | Some u \<Rightarrow> JObj [
     (''input_tokens'', opt_int (tu_input u)), (''output_tokens'', opt_int (tu_output u)),
     (''total_tokens'', opt_int (tu_total u)), (''cached_input_tokens'', opt_int (tu_cached_input u)),
     (''cache_miss_input_tokens'', opt_int (tu_cache_miss_input u)),
     (''reasoning_tokens'', opt_int (tu_reasoning u))])"

record llm_response =
  lr_text :: "string option"
  lr_reasoning :: "string option"
  lr_calls :: "tool_call list"
  lr_usage :: "token_usage option"
  lr_request_id :: "string option"
  lr_finish :: "string option"

record model_request =
  mq_messages :: "json list"
  mq_tools :: "json list"
  mq_tool_choice :: string
  mq_model :: "string option"
  mq_temperature :: "string option"
  mq_max_tokens :: "int option"
  mq_purpose :: string
  mq_effort :: "string option"

record malformed_arguments =
  ma_tool :: string
  ma_message :: string
  ma_line :: int
  ma_column :: int
  ma_raw :: string
  ma_usage :: "token_usage option"
  ma_request_id :: "string option"
  ma_finish :: "string option"
  ma_text :: "string option"
  ma_reasoning :: "string option"

text \<open>\<^verbatim>\<open>complete\<close> returns, raises \<^verbatim>\<open>MalformedToolArgumentsError\<close>, or raises something else (its class name).\<close>

datatype completion =
    Completed llm_response
  | Malformed malformed_arguments
  | Raised string

section \<open>Configuration\<close>

record runtime_config =
  rc_max_steps_per_turn :: int
  rc_max_model_steps :: int

record model_config =
  mc_provider :: string
  mc_model :: "string option"
  mc_temperature :: "string option"
  mc_max_tokens :: "int option"
  mc_reasoning_enabled :: bool
  mc_reasoning_effort :: "string option"

definition reasoning_efforts :: "string \<Rightarrow> string list" where
  "reasoning_efforts p = (if p = ''glm'' then [''high'', ''max'']
     else if p = ''deepseek'' then [''low'', ''high'', ''max''] else [])"

definition reasoning_models :: "string \<Rightarrow> string list option" where
  "reasoning_models p = (if p = ''glm'' then Some [''glm-5.2'', ''glm-5.3'']
     else if p = ''deepseek'' then Some [''deepseek-v4-flash'', ''deepseek-v4-pro''] else None)"

definition reasoning_model_efforts :: "string \<Rightarrow> string \<Rightarrow> string list option" where
  "reasoning_model_efforts p m = (if p = ''glm'' \<and> m = ''glm-5.2'' then Some [''high'', ''max'']
     else if p = ''glm'' \<and> m = ''glm-5.3'' then Some [''low'', ''high'', ''max''] else None)"

definition always_reasoning :: "string \<Rightarrow> string \<Rightarrow> bool" where
  "always_reasoning p m = (p = ''glm'' \<and> m = ''glm-5.3'')"

definition resolved_model :: "model_config \<Rightarrow> string" where
  "resolved_model c = (case mc_model c of
     Some (ch # m) \<Rightarrow> ch # m
   | _ \<Rightarrow> if mc_provider c = ''deepseek'' then ''deepseek-v4-flash''
          else if mc_provider c = ''glm'' then ''glm-5.2'' else ''fake'')"

definition model_context_limit :: "model_config \<Rightarrow> int" where
  "model_context_limit c = (if mc_provider c = ''glm'' then 128000 else 32000)"

definition resolved_reasoning_effort :: "model_config \<Rightarrow> string option" where
  "resolved_reasoning_effort c = (if \<not> mc_reasoning_enabled c then None
     else Some (str_or (mc_reasoning_effort c) ''high''))"

text \<open>\<^verbatim>\<open>__post_init__\<close>: which configurations can be constructed.\<close>

definition check_model_config :: "model_config \<Rightarrow> model_config res" where
  "check_model_config c =
     (let p = mc_provider c; m = resolved_model c;
          allowed = (case reasoning_model_efforts p m of Some es \<Rightarrow> es | None \<Rightarrow> reasoning_efforts p)
      in if always_reasoning p m \<and> \<not> mc_reasoning_enabled c
         then Inl (Exn ValueError ''reasoning cannot be disabled'')
         else if (case mc_reasoning_effort c of None \<Rightarrow> False | Some e \<Rightarrow> e \<notin> set allowed)
         then Inl (Exn ValueError ''reasoning_effort'')
         else if mc_reasoning_enabled c \<and> reasoning_models p = None
         then Inl (Exn ValueError ''provider'')
         else if mc_reasoning_enabled c \<and> m \<notin> set (case reasoning_models p of None \<Rightarrow> [] | Some ms \<Rightarrow> ms)
         then Inl (Exn ValueError ''model'')
         else Inr c)"

section \<open>The world\<close>

record world =
  wo_now :: "nat \<Rightarrow> string"
  wo_fresh :: "nat \<Rightarrow> string"
  wo_latency :: "nat \<Rightarrow> string"
  wo_complete :: "nat \<Rightarrow> model_request \<Rightarrow> completion"
  wo_cancelled :: "nat \<Rightarrow> bool"
  wo_sha :: "string \<Rightarrow> string"

text \<open>
  The mutable state of the runner: the session, the step counter of the world, the refused
  workspace upgrade of the turn, the last budget report, and the workspace whose bundle of tools
  the runner has put in place of the initial one.
\<close>

record runner_state =
  ru_store :: store
  ru_clock :: nat
  ru_upgrade_denied :: bool
  ru_report :: "budget_report option"
  ru_workspace :: "workspace_context option"

type_synonym 'a runner_prog = "(runner_state, 'a) prog"

definition on_store :: "'a store_prog \<Rightarrow> 'a runner_prog" where
  "on_store m = (\<lambda>s. case m (ru_store s) of (r, st) \<Rightarrow> (r, s\<lparr>ru_store := st\<rparr>))"

text \<open>Ask the world something: the counter moves on.\<close>

definition ask :: "(nat \<Rightarrow> 'a) \<Rightarrow> 'a runner_prog" where
  "ask f = (\<lambda>s. (Inr (f (ru_clock s)), s\<lparr>ru_clock := Suc (ru_clock s)\<rparr>))"

definition log_event :: "world \<Rightarrow> string \<Rightarrow> dict \<Rightarrow> session_event runner_prog" where
  "log_event w ty payload = bnd (ask (wo_now w)) (\<lambda>now. on_store (append_event now ty payload))"

definition store_events :: "session_event list runner_prog" where
  "store_events = on_store read_events"

lemma run_ask [simp, prog_simps]: "ask f s = (Inr (f (ru_clock s)), s\<lparr>ru_clock := Suc (ru_clock s)\<rparr>)"
  by (simp add: ask_def)

lemma run_on_store:
  "m (ru_store s) = (r, st) \<Longrightarrow> on_store m s = (r, s\<lparr>ru_store := st\<rparr>)"
  by (simp add: on_store_def)

lemma run_store_events [simp, prog_simps]: "store_events s = (Inr (st_events (ru_store s)), s)"
  by (simp add: store_events_def on_store_def)

lemma run_log_event:
  "log_ok (ru_store s) \<Longrightarrow> log_event w ty payload s =
     (Inr (new_event (wo_now w (ru_clock s)) ty payload (ru_store s)),
      s\<lparr>ru_clock := Suc (ru_clock s), ru_store := with_event (wo_now w (ru_clock s)) ty payload (ru_store s)\<rparr>)"
  by (simp add: log_event_def on_store_def append_event_run)

section \<open>A world for examples\<close>

definition demo_world :: world where
  "demo_world = \<lparr>wo_now = (\<lambda>_. ''t5''), wo_fresh = (\<lambda>_. ''f1''), wo_latency = (\<lambda>_. ''0.1''),
     wo_complete = (\<lambda>_ _. Completed \<lparr>lr_text = Some ''did a'', lr_reasoning = None, lr_calls = [], lr_usage = None,
       lr_request_id = None, lr_finish = Some ''stop''\<rparr>),
     wo_cancelled = (\<lambda>_. False), wo_sha = demo_sha\<rparr>"

definition demo_model :: model_config where
  "demo_model = \<lparr>mc_provider = ''fake'', mc_model = None, mc_temperature = None, mc_max_tokens = None,
     mc_reasoning_enabled = False, mc_reasoning_effort = None\<rparr>"

end
