(* ===== verification/Condensation.thy ===== *)
theory Condensation
  imports Model_Gateway
begin

text \<open>
  The condensation part of \<^verbatim>\<open>runtime/runner.py\<close>: one call of the condenser with the events it
  leaves in the log, and the loop that prepares the context of the next model step. The loop
  builds the context through the interface \<open>context_renderer\<close>, interpreted on the context builder.
\<close>

section \<open>One call of the condenser\<close>

datatype condenser_status = RequestFailed string | InvalidCompletion string | ValidCompletion

definition condenser_reasoning_effort :: "model_config \<Rightarrow> string option" where
  "condenser_reasoning_effort c =
     (if \<not> mc_reasoning_enabled c then None
      else if mc_provider c = ''glm'' \<and> resolved_model c = ''glm-5.3'' then Some ''low''
      else if mc_provider c = ''deepseek'' then Some ''low'' else Some ''high'')"

definition invalid_summary_reason :: "llm_response \<Rightarrow> capabilities \<Rightarrow> string option" where
  "invalid_summary_reason r caps =
     (let text = strip (case lr_text r of None \<Rightarrow> [] | Some t \<Rightarrow> t) in
      case lr_finish r of
        None \<Rightarrow> Some ''missing_finish_reason''
      | Some f \<Rightarrow>
          if f \<noteq> ''stop'' then Some (''finish_reason_'' @ f)
          else if lr_calls r \<noteq> [] then Some ''tool_calls''
          else if text = [] then Some ''empty_summary''
          else if cap_summary_max_tokens caps < estimate (JStr text) then Some ''summary_too_large''
          else None)"

definition usage_event_payload ::
  "model_config \<Rightarrow> token_usage option \<Rightarrow> string option \<Rightarrow> string option \<Rightarrow> string \<Rightarrow> dict" where
  "usage_event_payload c usage request_id finish latency =
     [(''provider'', JStr (mc_provider c)), (''model'', JStr (resolved_model c)),
      (''purpose'', JStr ''context_condenser''), (''provider_request_id'', opt_str request_id),
      (''finish_reason'', opt_str finish), (''usage'', usage_dump usage), (''latency_seconds'', JFloat latency),
      (''context_reductions'', JArr [JStr ''semantic_condensation_applied''])]"

definition attempt_payload ::
  "(string \<Rightarrow> string) \<Rightarrow> model_config \<Rightarrow> condensation_plan \<Rightarrow> string \<Rightarrow> int \<Rightarrow> string \<Rightarrow> string option \<Rightarrow> string
     \<Rightarrow> token_usage option \<Rightarrow> string option \<Rightarrow> string option \<Rightarrow> string option \<Rightarrow> string option \<Rightarrow> dict" where
  "attempt_payload sha c plan attempt_id call_index status failure latency usage request_id finish output reasoning =
     (let text = (case output of None \<Rightarrow> [] | Some t \<Rightarrow> t) in
      [(''attempt_id'', JStr attempt_id), (''plan_id'', JStr (pl_id plan)),
       (''call_index_for_next_model_step'', JInt call_index),
       (''previous_summary_event_id'', opt_str (pl_previous_summary plan)),
       (''candidate_source_event_ids_sha256'', JStr (pl_digest plan)),
       (''candidate_source_event_ids'', JArr (map JStr (pl_source_ids plan))),
       (''trigger'', JArr (map JStr (pl_trigger plan))), (''hard'', JBool (pl_hard plan)),
       (''request_estimated_tokens_before'', JInt (pl_request_tokens_before plan)),
       (''condenser_input_estimated_tokens'', JInt (pl_input_tokens plan)),
       (''status'', JStr status), (''failure_code'', opt_str failure),
       (''provider'', JStr (mc_provider c)), (''model'', JStr (resolved_model c)),
       (''provider_request_id'', opt_str request_id), (''finish_reason'', opt_str finish),
       (''usage'', usage_dump usage), (''latency_seconds'', JFloat latency),
       (''output_text_sha256'', if text = [] then JNull else JStr (sha text)),
       (''output_chars'', JInt (int (py_len text)))]
      @ (case reasoning of None \<Rightarrow> [] | Some r \<Rightarrow> [(''reasoning_content'', JStr r)]))"

text \<open>\<^verbatim>\<open>int(value.split(":", 1)[1])\<close>.\<close>

definition seq_from_event_id :: "string \<Rightarrow> int res" where
  "seq_from_event_id v =
     (case tl (split_on (CHR '':'') v) of
        [] \<Rightarrow> Inl (Exn IndexError ''split'')
      | p # ps \<Rightarrow> py_int (JStr (join '':'' (p # ps))))"

definition success_payload :: "condensation_plan \<Rightarrow> string \<Rightarrow> int \<Rightarrow> int \<Rightarrow> string \<Rightarrow> dict" where
  "success_payload plan attempt_id from_seq to_seq summary =
     [(''attempt_id'', JStr attempt_id),
      (''previous_summary_event_id'', opt_str (pl_previous_summary plan)),
      (''newly_covered_from_seq'', JInt from_seq), (''newly_covered_to_seq'', JInt to_seq),
      (''newly_covered_event_ids'', JArr (map JStr (pl_source_ids plan))),
      (''newly_covered_event_ids_sha256'', JStr (pl_digest plan)),
      (''logical_covered_event_count'', JInt (int (pl_previous_count plan + length (pl_source_ids plan)))),
      (''logical_frontier_source_event_id'', JStr (last (pl_source_ids plan))),
      (''summary'', JStr summary), (''reason'', JArr (map JStr (pl_trigger plan))),
      (''algorithm_version'', JInt summary_algorithm_version),
      (''input_estimated_tokens'', JInt (pl_input_tokens plan)),
      (''summary_estimated_tokens'', JInt (estimate (JStr summary)))]"

text \<open>\<^verbatim>\<open>except SessionStoreError\<close>.\<close>

definition on_store_error :: "'a runner_prog \<Rightarrow> 'a runner_prog \<Rightarrow> 'a runner_prog" where
  "on_store_error m h = try_catch m (\<lambda>e. if exn_class e = SessionStoreError then h else raise e)"

definition append_condensation_failure ::
  "world \<Rightarrow> condensation_plan \<Rightarrow> int option \<Rightarrow> dict \<Rightarrow> dict \<Rightarrow> unit runner_prog" where
  "append_condensation_failure w plan expected usage attempt =
     bnd (ask (wo_now w)) (\<lambda>t1. bnd (ask (wo_now w)) (\<lambda>t2.
     seq_then (on_store_error
       (on_store (append_derived_events [(t1, ''model_usage'', usage), (t2, ''context_condensation_attempt'', attempt)]
          (pl_turn plan) expected))
       (on_store (append_derived_events [(t1, ''model_usage'', usage),
          (t2, ''context_condensation_attempt'', dset ''failure_code'' (JStr ''stale_frontier'') attempt)]
          (pl_turn plan) None)))
     (ret ())))"

definition stored_event_seq :: "int runner_prog" where
  "stored_event_seq = bnd (on_store read_meta) (\<lambda>meta. lift (py_int (dget_or meta ''event_seq'' (JInt 0))))"

definition condenser_request :: "model_config \<Rightarrow> capabilities \<Rightarrow> condensation_plan \<Rightarrow> model_request" where
  "condenser_request c caps plan = \<lparr>mq_messages = pl_messages plan, mq_tools = [], mq_tool_choice = ''none'',
     mq_model = Some (resolved_model c), mq_temperature = Some ''0'', mq_max_tokens = Some (cap_summary_max_tokens caps),
     mq_purpose = ''context_condenser'', mq_effort = condenser_reasoning_effort c\<rparr>"

definition record_summary ::
  "world \<Rightarrow> model_config \<Rightarrow> condensation_plan \<Rightarrow> string \<Rightarrow> int \<Rightarrow> string \<Rightarrow> llm_response \<Rightarrow> condenser_status runner_prog" where
  "record_summary w c plan attempt_id call_index latency r =
     (let summary = strip (case lr_text r of None \<Rightarrow> [] | Some t \<Rightarrow> t);
          usage = usage_event_payload c (lr_usage r) (lr_request_id r) (lr_finish r) latency;
          attempt = (\<lambda>status failure. attempt_payload (wo_sha w) c plan attempt_id call_index status failure latency
            (lr_usage r) (lr_request_id r) (lr_finish r) (Some summary) (lr_reasoning r))
      in bnd (lift (seq_from_event_id (hd (pl_source_ids plan)))) (\<lambda>from_seq.
         bnd (lift (seq_from_event_id (last (pl_source_ids plan)))) (\<lambda>to_seq.
         bnd (ask (wo_now w)) (\<lambda>t1. bnd (ask (wo_now w)) (\<lambda>t2. bnd (ask (wo_now w)) (\<lambda>t3.
         on_store_error
           (seq_then (on_store (append_derived_events
               [(t1, ''model_usage'', usage),
                (t2, ''context_condensation_attempt'', attempt ''valid_completion'' None),
                (t3, ''context_condensed'', success_payload plan attempt_id from_seq to_seq summary)]
               (pl_turn plan) (Some (pl_expected_seq plan))))
             (ret ValidCompletion))
           (bnd stored_event_seq (\<lambda>current.
             seq_then (append_condensation_failure w plan (Some current) usage
               (attempt ''invalid_completion'' (Some ''stale_frontier'')))
             (ret (InvalidCompletion ''stale_frontier''))))))))))"

definition call_condenser ::
  "world \<Rightarrow> model_config \<Rightarrow> capabilities \<Rightarrow> condensation_plan \<Rightarrow> int \<Rightarrow> condenser_status runner_prog" where
  "call_condenser w c caps plan call_index =
     bnd (ask (wo_fresh w)) (\<lambda>fresh.
     let attempt_id = ''cond-attempt-'' @ take 16 fresh in
     bnd (ask (\<lambda>n. wo_complete w n (condenser_request c caps plan))) (\<lambda>completion.
     bnd (ask (wo_latency w)) (\<lambda>latency.
     case completion of
       Completed r \<Rightarrow>
         (case invalid_summary_reason r caps of
            Some why \<Rightarrow>
              seq_then (append_condensation_failure w plan (Some (pl_expected_seq plan))
                (usage_event_payload c (lr_usage r) (lr_request_id r) (lr_finish r) latency)
                (attempt_payload (wo_sha w) c plan attempt_id call_index ''invalid_completion'' (Some why) latency
                  (lr_usage r) (lr_request_id r) (lr_finish r) (lr_text r) (lr_reasoning r)))
              (ret (InvalidCompletion why))
          | None \<Rightarrow> record_summary w c plan attempt_id call_index latency r)
     | failed \<Rightarrow>
         let why = (case failed of Malformed m \<Rightarrow> ''MalformedToolArgumentsError''
                      | Raised name \<Rightarrow> name | Completed r \<Rightarrow> []) in
         seq_then (append_condensation_failure w plan (Some (pl_expected_seq plan))
           (usage_event_payload c None None None latency)
           (attempt_payload (wo_sha w) c plan attempt_id call_index ''request_failed'' (Some why) latency
              None None None None None))
         (ret (RequestFailed why)))))"

section \<open>Preparing the context of a model step\<close>

definition max_condenser_calls :: nat where
  "max_condenser_calls = 4"

definition max_soft_condenser_calls :: nat where
  "max_soft_condenser_calls = 1"

datatype prepared =
    PreparedReady "json list" budget_report
  | PreparedExceeded budget_report string

text \<open>The local variables of \<^verbatim>\<open>_prepare_context\<close>.\<close>

record prepare_vars =
  pv_calls :: nat
  pv_soft_calls :: nat
  pv_suppress_soft :: bool
  pv_max_atoms :: "int option"
  pv_invalid :: nat
  pv_failures :: "string \<Rightarrow> nat"
  pv_retry :: "condensation_plan option"
  pv_before :: "int option"

definition prepare_start :: prepare_vars where
  "prepare_start = \<lparr>pv_calls = 0, pv_soft_calls = 0, pv_suppress_soft = False, pv_max_atoms = None,
     pv_invalid = 0, pv_failures = (\<lambda>_. 0), pv_retry = None, pv_before = None\<rparr>"

text \<open>The rest of an iteration after the condenser was called for \<open>plan\<close>.\<close>

definition after_condenser ::
  "prepare_vars \<Rightarrow> condensation_plan \<Rightarrow> budget_report \<Rightarrow> condenser_status
     \<Rightarrow> (prepared + prepare_vars) runner_prog" where
  "after_condenser pv plan report status = (case status of
     ValidCompletion \<Rightarrow>
       ret (Inr (pv\<lparr>pv_invalid := 0, pv_max_atoms := None, pv_before := Some (br_estimated report)\<rparr>))
   | RequestFailed why \<Rightarrow>
       let count = pv_failures pv (pl_id plan) + 1;
           pv1 = pv\<lparr>pv_failures := (pv_failures pv)(pl_id plan := count)\<rparr>
       in if \<not> pl_hard plan then ret (Inr (pv1\<lparr>pv_suppress_soft := True\<rparr>))
          else if count < 2 \<and> pv_calls pv < max_condenser_calls
          then bnd stored_event_seq (\<lambda>current.
                 ret (Inr (pv1\<lparr>pv_retry := Some (plan\<lparr>pl_expected_seq := current\<rparr>)\<rparr>)))
          else ret (Inl (PreparedExceeded report ''condensation_request_failed''))
   | InvalidCompletion why \<Rightarrow>
       let pv1 = pv\<lparr>pv_invalid := pv_invalid pv + 1\<rparr> in
       if \<not> pl_hard plan then ret (Inr (pv1\<lparr>pv_suppress_soft := True\<rparr>))
       else if 2 \<le> pv_invalid pv1 then ret (Inl (PreparedExceeded report ''condensation_invalid_completion''))
       else if why = ''stale_frontier'' then ret (Inr (pv1\<lparr>pv_max_atoms := None\<rparr>))
       else if int (length (pl_atoms plan)) - 1 \<le> 0
       then ret (Inl (PreparedExceeded report ''condensation_no_smaller_atom''))
       else ret (Inr (pv1\<lparr>pv_max_atoms := Some (int (length (pl_atoms plan)) - 1)\<rparr>)))"

text \<open>
  One iteration of the loop: it ends with a result or goes on with new variables. \<open>render\<close> is
  the call of \<^verbatim>\<open>context_manager.build\<close>.
\<close>

definition prepare_iteration ::
  "world \<Rightarrow> model_config \<Rightarrow> capabilities \<Rightarrow> (store \<Rightarrow> bool \<Rightarrow> int option \<Rightarrow> build_result res)
     \<Rightarrow> prepare_vars \<Rightarrow> (prepared + prepare_vars) runner_prog" where
  "prepare_iteration w c caps render pv =
     bnd (gets ru_store) (\<lambda>st.
     bnd (lift (render st (pv_suppress_soft pv) (pv_max_atoms pv))) (\<lambda>result. case result of
       Ready messages report \<Rightarrow>
         seq_then (modify (\<lambda>s. s\<lparr>ru_report := Some report\<rparr>)) (ret (Inl (PreparedReady messages report)))
     | Exceeded report reason \<Rightarrow>
         seq_then (modify (\<lambda>s. s\<lparr>ru_report := Some report\<rparr>)) (ret (Inl (PreparedExceeded report reason)))
     | Condense built triggers report \<Rightarrow>
         seq_then (modify (\<lambda>s. s\<lparr>ru_report := Some report\<rparr>))
         (if (case pv_before pv of None \<Rightarrow> False | Some b \<Rightarrow> b \<le> br_estimated report)
          then ret (Inl (PreparedExceeded report ''condensation_no_progress''))
          else if max_condenser_calls \<le> pv_calls pv
          then ret (Inl (PreparedExceeded report ''condensation_cycles_exhausted''))
          else if \<not> pl_hard built \<and> max_soft_condenser_calls \<le> pv_soft_calls pv
          then ret (Inr (pv\<lparr>pv_before := None, pv_suppress_soft := True\<rparr>))
          else
            let plan0 = (case pv_retry pv of None \<Rightarrow> built | Some p \<Rightarrow> p) in
            bnd stored_event_seq (\<lambda>current.
            let plan = plan0\<lparr>pl_expected_seq := current\<rparr>;
                pv1 = pv\<lparr>pv_before := None, pv_retry := None, pv_calls := pv_calls pv + 1,
                  pv_soft_calls := (if pl_hard plan then pv_soft_calls pv else pv_soft_calls pv + 1)\<rparr>
            in bnd (call_condenser w c caps plan (int (pv_calls pv1))) (\<lambda>status.
               after_condenser pv1 plan report status)))))"

text \<open>The loop; \<^const>\<open>None\<close> when the fuel ran out.\<close>

fun prepare_loop ::
  "world \<Rightarrow> model_config \<Rightarrow> capabilities \<Rightarrow> (store \<Rightarrow> bool \<Rightarrow> int option \<Rightarrow> build_result res)
     \<Rightarrow> nat \<Rightarrow> prepare_vars \<Rightarrow> prepared option runner_prog" where
  "prepare_loop w c caps render 0 pv = ret None"
| "prepare_loop w c caps render (Suc n) pv =
     bnd (prepare_iteration w c caps render pv) (\<lambda>r. case r of
       Inl result \<Rightarrow> ret (Some result)
     | Inr pv' \<Rightarrow> prepare_loop w c caps render n pv')"

section \<open>What a condenser call leaves in the log\<close>

definition condensation_types :: "string list" where
  "condensation_types = [''model_usage'', ''context_condensation_attempt'', ''context_condensed'']"

definition attempts :: "session_event list \<Rightarrow> nat" where
  "attempts es = length (filter (\<lambda>e. ev_type e = ''context_condensation_attempt'') es)"

text \<open>\<open>s'\<close> extends the log of \<open>s\<close> by condensation events, at most \<open>n\<close> of them attempts.\<close>

definition condenses :: "nat \<Rightarrow> runner_state \<Rightarrow> runner_state \<Rightarrow> bool" where
  "condenses n s s' \<longleftrightarrow> log_ok (ru_store s') \<and> (\<exists>es. st_events (ru_store s') = st_events (ru_store s) @ es
     \<and> set (map ev_type es) \<subseteq> set condensation_types \<and> attempts es \<le> n)"

lemma condenses_refl: "log_ok (ru_store s) \<Longrightarrow> condenses n s s"
  by (auto simp: condenses_def attempts_def)

lemma condenses_clock [simp]:
  "condenses n s (s'\<lparr>ru_clock := k\<rparr>) = condenses n s s'" "condenses n (s\<lparr>ru_clock := k\<rparr>) s' = condenses n s s'"
  "condenses n s (s'\<lparr>ru_report := r\<rparr>) = condenses n s s'" "condenses n (s\<lparr>ru_report := r\<rparr>) s' = condenses n s s'"
  by (simp_all add: condenses_def)

lemma condenses_trans:
  assumes "condenses m s s1" and "condenses n s1 s2"
  shows "condenses (m + n) s s2"
proof -
  obtain es where es: "st_events (ru_store s1) = st_events (ru_store s) @ es"
    "set (map ev_type es) \<subseteq> set condensation_types" "attempts es \<le> m"
    using assms(1) by (auto simp: condenses_def)
  obtain fs where fs: "st_events (ru_store s2) = st_events (ru_store s1) @ fs"
    "set (map ev_type fs) \<subseteq> set condensation_types" "attempts fs \<le> n"
    using assms(2) by (auto simp: condenses_def)
  have "attempts (es @ fs) = attempts es + attempts fs" by (simp add: attempts_def)
  with es fs assms(2) show ?thesis unfolding condenses_def by (intro conjI exI [of _ "es @ fs"]) auto
qed

lemma condenses_mono: "condenses m s s' \<Longrightarrow> m \<le> n \<Longrightarrow> condenses n s s'"
  by (auto simp: condenses_def intro: order_trans)

lemma condenses_grows: "condenses n s s' \<Longrightarrow> length (st_events (ru_store s)) \<le> length (st_events (ru_store s'))"
  by (auto simp: condenses_def)

lemma derived_condenses:
  assumes "log_ok (ru_store s)" and "known_turn (length (st_events (ru_store s))) turn"
    and "batch \<noteq> []" and "set (map (fst \<circ> snd) batch) \<subseteq> set condensation_types"
    and "length (filter (\<lambda>b. fst (snd b) = ''context_condensation_attempt'') batch) \<le> n"
    and "on_store (append_derived_events batch turn expected) s = (r, s')"
  shows "condenses n s s' \<and> (\<forall>e. r = Inl e \<longrightarrow> s' = s \<and> exn_class e = SessionStoreError)
    \<and> (expected = None \<or> expected = Some (int (length (st_events (ru_store s)))) \<longrightarrow> (\<exists>es. r = Inr es))"
proof (cases "expected \<noteq> None \<and> expected \<noteq> Some (int (length (st_events (ru_store s))))")
  case True
  then have "r = Inl (Exn SessionStoreError ''derived event frontier changed'')" "s' = s"
    using assms(6) by (simp_all add: on_store_def append_derived_run [OF assms(1,3)])
  then show ?thesis using True assms(1) by (auto simp: condenses_refl)
next
  case False
  define es where "es = derived_events (int (length (st_events (ru_store s)))) turn batch"
  have types: "map ev_type es = map (fst \<circ> snd) batch" by (simp add: es_def derived_events_types)
  have st: "ru_store s' = (ru_store s)\<lparr>st_events := st_events (ru_store s) @ es,
          st_meta := dset ''last_active_at'' (JStr (ev_ts (last es)))
            (dset ''event_seq'' (JInt (int (length (st_events (ru_store s))) + int (length batch))) (st_meta (ru_store s)))\<rparr>"
    and r: "r = Inr es"
    using assms(6) False by (auto simp: on_store_def append_derived_run [OF assms(1,3)] Let_def es_def)
  have "''user_message'' \<notin> set (map (fst \<circ> snd) batch)"
    using assms(4) by (auto simp: condensation_types_def)
  then have "log_ok (ru_store s')"
    unfolding st by (rule log_ok_derived [OF assms(1) _ assms(2) es_def])
  moreover have "attempts es = length (filter (\<lambda>b. fst (snd b) = ''context_condensation_attempt'') batch)"
  proof -
    have "attempts es = length (filter (\<lambda>ty. ty = ''context_condensation_attempt'') (map ev_type es))"
      by (simp add: attempts_def filter_map comp_def)
    then show ?thesis by (simp add: types filter_map comp_def)
  qed
  moreover have "set (map ev_type es) \<subseteq> set condensation_types"
    using assms(4) by (simp only: types)
  moreover have "st_events (ru_store s') = st_events (ru_store s) @ es" by (simp add: st)
  ultimately have "condenses n s s'"
    using assms(5) unfolding condenses_def by (intro conjI exI [of _ es]) simp_all
  then show ?thesis by (simp add: r)
qed

lemma failure_condenses:
  assumes "log_ok (ru_store s)" and "known_turn (length (st_events (ru_store s))) (pl_turn plan)"
    and "append_condensation_failure w plan expected usage attempt s = (r, s')"
  shows "condenses 1 s s' \<and> (\<exists>u. r = Inr u)"
proof -
  define t1 where "t1 = wo_now w (ru_clock s)"
  define t2 where "t2 = wo_now w (Suc (ru_clock s))"
  define s1 where "s1 = s\<lparr>ru_clock := Suc (Suc (ru_clock s))\<rparr>"
  define first where "first = on_store (append_derived_events
    [(t1, ''model_usage'', usage), (t2, ''context_condensation_attempt'', attempt)] (pl_turn plan) expected)"
  define second where "second = on_store (append_derived_events
    [(t1, ''model_usage'', usage), (t2, ''context_condensation_attempt'',
      dset ''failure_code'' (JStr ''stale_frontier'') attempt)] (pl_turn plan) None)"
  have ok: "log_ok (ru_store s1)" "known_turn (length (st_events (ru_store s1))) (pl_turn plan)"
    using assms by (simp_all add: s1_def)
  have run: "append_condensation_failure w plan expected usage attempt s = seq_then (on_store_error first second) (ret ()) s1"
    by (simp add: append_condensation_failure_def t1_def t2_def first_def second_def s1_def)
  obtain r1 s2 where r1: "first s1 = (r1, s2)" by fastforce
  have c1: "condenses 1 s1 s2 \<and> (\<forall>e. r1 = Inl e \<longrightarrow> s2 = s1 \<and> exn_class e = SessionStoreError)"
    using derived_condenses [OF ok, of "[(t1, ''model_usage'', usage), (t2, ''context_condensation_attempt'', attempt)]" 1 expected r1 s2]
      r1 by (simp add: first_def condensation_types_def)
  show ?thesis
  proof (cases r1)
    case (Inr x)
    then have "(r, s') = (Inr (), s2)"
      using assms(3) r1 by (simp add: run on_store_error_def)
    with c1 show ?thesis by (simp add: s1_def)
  next
    case (Inl e)
    obtain r2 s3 where r2: "second s1 = (r2, s3)" by fastforce
    have c2: "condenses 1 s1 s3 \<and> (\<exists>es. r2 = Inr es)"
      using derived_condenses [OF ok, of "[(t1, ''model_usage'', usage), (t2, ''context_condensation_attempt'',
          dset ''failure_code'' (JStr ''stale_frontier'') attempt)]" 1 None r2 s3]
        r2 by (simp add: second_def condensation_types_def)
    have "on_store_error first second s1 = (r2, s3)"
      using Inl c1 r1 r2 by (simp add: on_store_error_def)
    with c2 have "(r, s') = (Inr (), s3)"
      using assms(3) by (auto simp: run)
    with c2 show ?thesis by (simp add: s1_def)
  qed
qed

lemma stored_event_seq_run:
  assumes "log_ok (ru_store s)"
  shows "stored_event_seq s = (Inr (int (length (st_events (ru_store s)))), s)"
proof -
  have inv: "log_inv (st_meta (ru_store s)) (st_events (ru_store s))" using assms by (simp add: log_ok_def)
  have "py_int (dget_or (st_meta (ru_store s)) ''event_seq'' (JInt 0)) = Inr (int (length (st_events (ru_store s))))"
    using inv log_inv_has_seq [OF inv]
    by (auto simp: log_inv_def has_key_def dget_or_def split: option.splits)
  then show ?thesis using assms by (simp add: stored_event_seq_def on_store_def)
qed

lemma record_summary_condenses:
  assumes "log_ok (ru_store s)" and "known_turn (length (st_events (ru_store s))) (pl_turn plan)"
    and "record_summary w c plan attempt_id call_index latency resp s = (r, s')"
  shows "condenses 1 s s'"
proof -
  let ?n = "ru_clock s"
  define s1 where "s1 = s\<lparr>ru_clock := Suc (Suc (Suc ?n))\<rparr>"
  have ok: "log_ok (ru_store s1)" "known_turn (length (st_events (ru_store s1))) (pl_turn plan)"
    using assms by (simp_all add: s1_def)
  show ?thesis
  proof (cases "seq_from_event_id (hd (pl_source_ids plan))")
    case (Inl e)
    with assms show ?thesis by (simp add: record_summary_def Let_def condenses_refl)
  next
    case from_seq: (Inr a)
    show ?thesis
    proof (cases "seq_from_event_id (last (pl_source_ids plan))")
      case (Inl e)
      with from_seq assms show ?thesis by (simp add: record_summary_def Let_def condenses_refl)
    next
      case to_seq: (Inr b)
      define body where "body = strip (case lr_text resp of None \<Rightarrow> [] | Some t \<Rightarrow> t)"
      define usage where "usage = usage_event_payload c (lr_usage resp) (lr_request_id resp) (lr_finish resp) latency"
      define att where "att = (\<lambda>status failure. attempt_payload (wo_sha w) c plan attempt_id call_index status failure latency
            (lr_usage resp) (lr_request_id resp) (lr_finish resp) (Some body) (lr_reasoning resp))"
      define batch where "batch = [(wo_now w ?n, ''model_usage'', usage),
                (wo_now w (Suc ?n), ''context_condensation_attempt'', att ''valid_completion'' None),
                (wo_now w (Suc (Suc ?n)), ''context_condensed'', success_payload plan attempt_id a b body)]"
      define main where "main = seq_then (on_store (append_derived_events batch (pl_turn plan) (Some (pl_expected_seq plan))))
          (ret ValidCompletion)"
      define alt where "alt = bnd stored_event_seq (\<lambda>current.
             seq_then (append_condensation_failure w plan (Some current) usage
               (att ''invalid_completion'' (Some ''stale_frontier'')))
             (ret (InvalidCompletion ''stale_frontier'')))"
      have run: "record_summary w c plan attempt_id call_index latency resp s = on_store_error main alt s1"
        using from_seq to_seq
        by (simp add: record_summary_def Let_def main_def alt_def batch_def att_def usage_def body_def s1_def)
      obtain r1 s2 where r1: "on_store (append_derived_events batch (pl_turn plan) (Some (pl_expected_seq plan))) s1 = (r1, s2)"
        by fastforce
      have c1: "condenses 1 s1 s2 \<and> (\<forall>e. r1 = Inl e \<longrightarrow> s2 = s1 \<and> exn_class e = SessionStoreError)"
        using derived_condenses [OF ok, of batch 1 "Some (pl_expected_seq plan)" r1 s2] r1
        by (simp add: batch_def condensation_types_def)
      show ?thesis
      proof (cases r1)
        case (Inr x)
        then have "s' = s2" using assms(3) r1 by (simp add: run on_store_error_def main_def)
        with c1 show ?thesis by (simp add: s1_def)
      next
        case (Inl e)
        then have main: "main s1 = (Inl e, s1)" using r1 c1 by (simp add: main_def)
        obtain r2 s3 where r2: "append_condensation_failure w plan (Some (int (length (st_events (ru_store s1))))) usage
               (att ''invalid_completion'' (Some ''stale_frontier'')) s1 = (r2, s3)" by fastforce
        have c2: "condenses 1 s1 s3 \<and> (\<exists>u. r2 = Inr u)" by (rule failure_condenses [OF ok r2])
        then have "s' = s3"
          using assms(3) main c1 Inl r2 stored_event_seq_run [OF ok(1)]
          by (auto simp: run on_store_error_def alt_def)
        with c2 show ?thesis by (simp add: s1_def)
      qed
    qed
  qed
qed

lemma call_condenser_condenses:
  assumes "log_ok (ru_store s)" and "known_turn (length (st_events (ru_store s))) (pl_turn plan)"
    and "call_condenser w c caps plan call_index s = (r, s')"
  shows "condenses 1 s s'"
proof -
  let ?n = "ru_clock s"
  define aid where "aid = ''cond-attempt-'' @ take 16 (wo_fresh w ?n)"
  define latency where "latency = wo_latency w (Suc (Suc ?n))"
  define s1 where "s1 = s\<lparr>ru_clock := Suc (Suc (Suc ?n))\<rparr>"
  have ok: "log_ok (ru_store s1)" "known_turn (length (st_events (ru_store s1))) (pl_turn plan)"
    using assms by (simp_all add: s1_def)
  have fail: "condenses 1 s1 s2" if "seq_then (append_condensation_failure w plan e u a) (ret z) s1 = (q, s2)"
    for e u a z q s2
  proof -
    obtain r2 s3 where "append_condensation_failure w plan e u a s1 = (r2, s3)" by fastforce
    with failure_condenses [OF ok this] that show ?thesis by auto
  qed
  show ?thesis
  proof (cases "wo_complete w (Suc ?n) (condenser_request c caps plan)")
    case (Completed resp)
    show ?thesis
    proof (cases "invalid_summary_reason resp caps")
      case None
      then have "record_summary w c plan aid call_index latency resp s1 = (r, s')"
        using Completed assms(3) by (simp add: call_condenser_def Let_def aid_def latency_def s1_def)
      from record_summary_condenses [OF ok this] show ?thesis by (simp add: s1_def)
    next
      case (Some why)
      then show ?thesis
        using Completed assms(3) fail
        by (fastforce simp: call_condenser_def Let_def aid_def latency_def s1_def)
    qed
  next
    case (Malformed m)
    then show ?thesis
      using assms(3) fail by (fastforce simp: call_condenser_def Let_def aid_def latency_def s1_def)
  next
    case (Raised e)
    then show ?thesis
      using assms(3) fail by (fastforce simp: call_condenser_def Let_def aid_def latency_def s1_def)
  qed
qed

section \<open>The renderer's contract and the bounded loop\<close>

text \<open>
  What the loop needs of \<^verbatim>\<open>context_manager.build\<close>: with the soft trigger suppressed it plans only
  when the request is too large, and a plan carries the turn of an event of the log.
\<close>

locale context_renderer =
  fixes render :: "store \<Rightarrow> bool \<Rightarrow> int option \<Rightarrow> build_result res"
  assumes soft_suppressed: "render st True k = Inr (Condense p tr report) \<Longrightarrow> pl_hard p"
    and plan_turn: "log_ok st \<Longrightarrow> render st b k = Inr (Condense p tr report) \<Longrightarrow>
        known_turn (length (st_events st)) (pl_turn p)"
begin

text \<open>The loop variables and state while the loop runs; the measure falls in every iteration.\<close>

definition loop_ok :: "prepare_vars \<Rightarrow> runner_state \<Rightarrow> bool" where
  "loop_ok pv s \<longleftrightarrow> log_ok (ru_store s) \<and> pv_calls pv \<le> max_condenser_calls
     \<and> (\<forall>p. pv_retry pv = Some p \<longrightarrow> known_turn (length (st_events (ru_store s))) (pl_turn p))"

definition loop_measure :: "prepare_vars \<Rightarrow> nat" where
  "loop_measure pv = (max_condenser_calls - pv_calls pv) + (if pv_suppress_soft pv then 0 else 1)"

lemma after_condenser_next:
  assumes "after_condenser pv plan report status s = (Inr (Inr pv'), s')" and "log_ok (ru_store s)"
    and "pv_retry pv = None"
  shows "pv_calls pv' = pv_calls pv \<and> (pv_suppress_soft pv \<longrightarrow> pv_suppress_soft pv') \<and> s' = s
    \<and> (\<forall>p. pv_retry pv' = Some p \<longrightarrow> pl_turn p = pl_turn plan)"
  using assms
  by (auto simp: after_condenser_def Let_def stored_event_seq_run split: condenser_status.splits if_splits)

lemma after_condenser_state: "log_ok (ru_store s) \<Longrightarrow> snd (after_condenser pv plan report status s) = s"
  by (auto simp: after_condenser_def Let_def stored_event_seq_run split: condenser_status.splits)

lemma iteration_step:
  assumes "loop_ok pv s" and "prepare_iteration w c caps render pv s = (r, s')"
  shows "condenses (case r of Inr (Inr pv') \<Rightarrow> pv_calls pv' - pv_calls pv | _ \<Rightarrow> max_condenser_calls - pv_calls pv) s s'
    \<and> (\<forall>pv'. r = Inr (Inr pv') \<longrightarrow> loop_ok pv' s' \<and> pv_calls pv \<le> pv_calls pv' \<and> loop_measure pv' < loop_measure pv)"
proof -
  have ok: "log_ok (ru_store s)" using assms(1) by (simp add: loop_ok_def)
  show ?thesis
  proof (cases "render (ru_store s) (pv_suppress_soft pv) (pv_max_atoms pv)")
    case (Inl e)
    with assms(2) ok show ?thesis by (auto simp: prepare_iteration_def condenses_refl)
  next
    case built: (Inr result)
    show ?thesis
    proof (cases result)
      case (Ready messages report)
      with built assms(2) ok show ?thesis by (auto simp: prepare_iteration_def condenses_refl)
    next
      case (Exceeded report reason)
      with built assms(2) ok show ?thesis by (auto simp: prepare_iteration_def condenses_refl)
    next
      case (Condense plan0 triggers report)
      define s0 where "s0 = s\<lparr>ru_report := Some report\<rparr>"
      have ok0: "log_ok (ru_store s0)" using ok by (simp add: s0_def)
      define over where "over = ((case pv_before pv of None \<Rightarrow> False | Some b \<Rightarrow> b \<le> br_estimated report)
          \<or> max_condenser_calls \<le> pv_calls pv)"
      define soft where "soft = (\<not> pl_hard plan0 \<and> max_soft_condenser_calls \<le> pv_soft_calls pv)"
      consider (stop) over | (suppress) "\<not> over" soft | (call) "\<not> over" "\<not> soft" by blast
      then show ?thesis
      proof cases
        case stop
        then have "\<exists>why. r = Inr (Inl (PreparedExceeded report why)) \<and> s' = s0"
          using built Condense assms(2) by (auto simp: prepare_iteration_def s0_def over_def split: if_splits)
        then show ?thesis using ok by (auto simp: s0_def condenses_refl)
      next
        case suppress
        have r: "r = Inr (Inr (pv\<lparr>pv_before := None, pv_suppress_soft := True\<rparr>))" "s' = s0"
          using suppress built Condense assms(2)
          by (auto simp: prepare_iteration_def s0_def over_def soft_def split: if_splits)
        have "\<not> pv_suppress_soft pv"
          using soft_suppressed built Condense suppress(2) by (cases "pv_suppress_soft pv") (auto simp: soft_def)
        with r show ?thesis
          using assms(1) ok by (auto simp: s0_def condenses_refl loop_ok_def loop_measure_def)
      next
        case call
        define base where "base = (case pv_retry pv of None \<Rightarrow> plan0 | Some p \<Rightarrow> p)"
        define plan where "plan = base\<lparr>pl_expected_seq := int (length (st_events (ru_store s0)))\<rparr>"
        define pv1 where "pv1 = pv\<lparr>pv_before := None, pv_retry := None, pv_calls := pv_calls pv + 1,
                  pv_soft_calls := (if pl_hard plan then pv_soft_calls pv else pv_soft_calls pv + 1)\<rparr>"
        have calls: "pv_calls pv < max_condenser_calls" using call(1) by (simp add: over_def)
        have run: "prepare_iteration w c caps render pv s
            = bnd (call_condenser w c caps plan (int (pv_calls pv1))) (after_condenser pv1 plan report) s0"
        proof -
          have no: "(case pv_before pv of None \<Rightarrow> False | Some b \<Rightarrow> b \<le> br_estimated report) = False"
            "(max_condenser_calls \<le> pv_calls pv) = False"
            "(\<not> pl_hard plan0 \<and> max_soft_condenser_calls \<le> pv_soft_calls pv) = False"
            using call by (simp_all add: over_def soft_def)
          have "prepare_iteration w c caps render pv s
            = bnd stored_event_seq (\<lambda>current. let plan = base\<lparr>pl_expected_seq := current\<rparr>;
                pv1 = pv\<lparr>pv_before := None, pv_retry := None, pv_calls := pv_calls pv + 1,
                  pv_soft_calls := (if pl_hard plan then pv_soft_calls pv else pv_soft_calls pv + 1)\<rparr>
              in bnd (call_condenser w c caps plan (int (pv_calls pv1))) (\<lambda>status.
                 after_condenser pv1 plan report status)) s0"
            unfolding prepare_iteration_def base_def s0_def
            by (simp only: run_gets run_bnd_Inr run_lift built Condense build_result.case run_modify run_seq_Inr
                no if_False Let_def)
          then show ?thesis
            using stored_event_seq_run [OF ok0] unfolding Let_def plan_def pv1_def by simp
        qed
        obtain q s1 where q: "call_condenser w c caps plan (int (pv_calls pv1)) s0 = (q, s1)" by fastforce
        have turn: "known_turn (length (st_events (ru_store s0))) (pl_turn plan)"
          using assms(1) plan_turn [OF ok, of _ _ plan0 triggers report] built Condense
          by (auto simp: plan_def base_def s0_def loop_ok_def split: option.splits)
        have c1: "condenses 1 s0 s1" by (rule call_condenser_condenses [OF ok0 turn q])
        have ok1: "log_ok (ru_store s1)" using c1 by (simp add: condenses_def)
        have one: "condenses 1 s s1" using c1 by (simp add: s0_def)
        have all: "condenses (max_condenser_calls - pv_calls pv) s s1"
          by (rule condenses_mono [OF one]) (use calls in simp)
        show ?thesis
        proof (cases q)
          case (Inl e)
          then have "r = Inl e" "s' = s1" using assms(2) q by (simp_all add: run)
          then show ?thesis using all by simp
        next
          case (Inr status)
          then have r: "after_condenser pv1 plan report status s1 = (r, s')" using assms(2) q by (simp add: run)
          have s': "s' = s1" using after_condenser_state [OF ok1, of pv1 plan report status] r by simp
          have going_on: "loop_ok pv' s' \<and> pv_calls pv' = pv_calls pv + 1 \<and> loop_measure pv' < loop_measure pv"
            if "r = Inr (Inr pv')" for pv'
          proof -
            have n: "pv_calls pv' = pv_calls pv + 1" "pv_suppress_soft pv \<longrightarrow> pv_suppress_soft pv'"
              "\<forall>p. pv_retry pv' = Some p \<longrightarrow> pl_turn p = pl_turn plan"
              using after_condenser_next [OF r [unfolded that] ok1] by (simp_all add: pv1_def)
            have "known_turn (length (st_events (ru_store s1))) (pl_turn plan)"
              using turn condenses_grows [OF c1] by (rule known_turn_mono)
            with n calls ok1 show ?thesis by (auto simp: loop_ok_def s' loop_measure_def)
          qed
          consider pv' where "r = Inr (Inr pv')" | "\<forall>pv'. r \<noteq> Inr (Inr pv')" by blast
          then show ?thesis
          proof cases
            case 1
            show ?thesis using going_on [OF 1] one by (simp add: 1 s')
          next
            case 2
            then have "(case r of Inr (Inr pv') \<Rightarrow> pv_calls pv' - pv_calls pv
                | _ \<Rightarrow> max_condenser_calls - pv_calls pv) = max_condenser_calls - pv_calls pv"
              by (simp split: sum.splits)
            with all 2 show ?thesis unfolding s' by simp
          qed
        qed
      qed
    qed
  qed
qed

text \<open>Enough fuel for any measure; the log grows by at most the calls that are left.\<close>

lemma prepare_loop_bounded:
  assumes "loop_ok pv s" and "loop_measure pv < n" and "prepare_loop w c caps render n pv s = (r, s')"
  shows "r \<noteq> Inr None \<and> condenses (max_condenser_calls - pv_calls pv) s s'"
  using assms
proof (induction n arbitrary: pv s)
  case 0
  then show ?case by simp
next
  case (Suc n)
  obtain q s1 where q: "prepare_iteration w c caps render pv s = (q, s1)" by fastforce
  note step = iteration_step [OF Suc.prems(1) q]
  show ?case
  proof (cases q)
    case (Inl e)
    with Suc.prems(3) q step show ?thesis by auto
  next
    case next_: (Inr x)
    show ?thesis
    proof (cases x)
      case (Inl p)
      with Suc.prems(3) q next_ step show ?thesis by auto
    next
      case (Inr pv')
      have ok: "loop_ok pv' s1" "loop_measure pv' < n" and c1: "condenses (pv_calls pv' - pv_calls pv) s s1"
        and mono: "pv_calls pv \<le> pv_calls pv'"
        using step Suc.prems(2) next_ Inr by auto
      have "prepare_loop w c caps render n pv' s1 = (r, s')"
        using Suc.prems(3) q next_ Inr by simp
      from Suc.IH [OF ok this] have "r \<noteq> Inr None" "condenses (max_condenser_calls - pv_calls pv') s1 s'" by auto
      moreover have "pv_calls pv' \<le> max_condenser_calls" using ok(1) by (simp add: loop_ok_def)
      then have "pv_calls pv' - pv_calls pv + (max_condenser_calls - pv_calls pv') = max_condenser_calls - pv_calls pv"
        using mono by simp
      ultimately show ?thesis using condenses_trans [OF c1] by metis
    qed
  qed
qed

lemma prepare_bounded:
  assumes "log_ok (ru_store s)" and "prepare_loop w c caps render 6 prepare_start s = (r, s')"
  shows "r \<noteq> Inr None \<and> condenses 4 s s'"
proof -
  have "loop_ok prepare_start s" "loop_measure prepare_start < 6"
    using assms(1) by (simp_all add: loop_ok_def loop_measure_def prepare_start_def max_condenser_calls_def)
  from prepare_loop_bounded [OF this assms(2)] show ?thesis
    by (simp add: prepare_start_def max_condenser_calls_def)
qed

end

section \<open>The context builder as renderer\<close>

text \<open>
  \<^verbatim>\<open>context_manager.build\<close> on the runner's session: the snapshot of the runtime depends on the
  session too.
\<close>

definition builder_render ::
  "(string \<Rightarrow> string) \<Rightarrow> prompt_texts \<Rightarrow> capabilities \<Rightarrow> json list \<Rightarrow> (store \<Rightarrow> runtime_snapshot) \<Rightarrow> json list
     \<Rightarrow> store \<Rightarrow> bool \<Rightarrow> int option \<Rightarrow> build_result res" where
  "builder_render sha tx caps schemas snapshot transient st suppress_soft max_atoms =
     build_context sha tx caps schemas (snapshot st) (st_events st) transient suppress_soft max_atoms"

lemma anchor_item_in: "anchor_item items = Some x \<Longrightarrow> x \<in> set items"
  by (auto simp: anchor_item_def dest: find_SomeD)

lemma snd_norm_from: "p \<in> set (norm_from line es) \<Longrightarrow> snd p \<in> set es"
  by (induction line es rule: norm_from.induct) auto

lemma builder_plan_turn:
  assumes "log_ok st" and "builder_render sha tx caps schemas snapshot transient st b k = Inr (Condense p tr report)"
  shows "known_turn (length (st_events st)) (pl_turn p)"
proof -
  from assms(2) obtain pj v hard tr desired fitting where pj: "project_context_events (st_events st) = Inr pj"
    and v: "v = request_view sha tx caps schemas (snapshot st) (st_events st) transient pj"
    and p: "p = make_plan sha tx (st_events st) v tr hard desired fitting"
    unfolding builder_render_def by (elim build_context_outcome) auto
  have turn: "pl_turn p = (case anchor_item (pj_items pj) of None \<Rightarrow> None | Some x \<Rightarrow> hi_turn x)"
    by (simp add: p make_plan_def Let_def view_simps(1) [OF v])
  show ?thesis
  proof (cases "anchor_item (pj_items pj)")
    case None
    then show ?thesis by (simp add: turn known_turn_def)
  next
    case (Some x)
    then obtain q where "q \<in> set (normalized (st_events st))" "item_from q x"
      using project_items_from [OF pj] anchor_item_in by blast
    then have "hi_turn x = ev_turn (snd q)" "snd q \<in> set (st_events st)"
      by (auto simp: item_from_def normalized_def dest: snd_norm_from)
    with assms(1) Some show ?thesis by (simp add: turn log_ok_def log_inv_def)
  qed
qed

interpretation builder: context_renderer "builder_render sha tx caps schemas snapshot transient"
  for sha tx caps schemas snapshot transient
proof unfold_locales
  fix st k p tr report
  assume "builder_render sha tx caps schemas snapshot transient st True k = Inr (Condense p tr report)"
  then show "pl_hard p"
    unfolding builder_render_def
    by (elim build_context_outcome) (auto simp: make_plan_def Let_def)
qed (rule builder_plan_turn)

section \<open>An accepted summary advances the chain\<close>

text \<open>Events outside the allow-list, with no part in the protocol, leave the projection as it is.\<close>

definition inert :: "session_event \<Rightarrow> bool" where
  "inert e \<longleftrightarrow> ev_type e \<notin> set cces_event_types \<union> {''model_protocol_error'', ''model_output_truncated''}"

lemma norm_from_append: "norm_from l (xs @ ys) = norm_from l xs @ norm_from (l + int (length xs)) ys"
  by (induction l xs rule: norm_from.induct) (simp_all add: add.assoc)

lemma fst_norm_from_numbered:
  "numbered_from (Suc n) es \<Longrightarrow> p \<in> set (norm_from l es) \<Longrightarrow> int n < fst p"
proof (induction es arbitrary: l n)
  case Nil
  then show ?case by simp
next
  case (Cons e es)
  then show ?case
    by (auto simp: seq_or_def) (fastforce dest: Cons.IH [of "Suc n"])
qed

lemma inert_event:
  assumes "inert (snd p)"
  shows "project_event s p = Inr s" and "index_event ix p = Inr ix" and "group_event ix g p = Inr g"
    and "ev_type (snd p) \<noteq> ''user_message''"
  using assms
  by (auto simp: inert_def cces_event_types_def project_event_def project_in_turn_def index_event_def group_event_def
      split: prod.splits option.splits)

lemma inert_fold:
  assumes "\<And>p. p \<in> set ps \<Longrightarrow> f s p = Inr s"
  shows "rfold f s ps = Inr s"
  using assms by (induction ps) auto

lemma inert_projection:
  assumes "\<forall>e \<in> set fs. inert e"
  shows "project_context_events (es @ fs) = project_context_events es"
proof -
  obtain ps where n: "normalized (es @ fs) = normalized es @ ps" and ps: "\<forall>p \<in> set ps. inert (snd p)"
    using assms snd_norm_from by (fastforce simp: normalized_def norm_from_append)
  have f: "rfold project_event s ps = Inr s" "rfold index_event ix ps = Inr ix" "rfold (group_event ix) g ps = Inr g"
    for s ix g
    using ps inert_event by (blast intro: inert_fold)+
  have r: "rbind r Inr = r" for r :: "exn + 'a" by (cases r) simp_all
  show ?thesis
    by (simp add: project_context_events_def project_events_def index_events_def group_events_def n rfold_append f r)
qed

end
