(* ===== verification/Summary_Advance.thy ===== *)
theory Summary_Advance
  imports Condensation
begin

text \<open>
  Properties that span the context builder and the condenser: what a rolling summary covers, that
  the preparation loop ends, and that an accepted condenser answer advances the chain of summaries
  by exactly the planned events.
\<close>

section \<open>Identities of events\<close>

lemma seq_from_id_event_id [simp]: "0 \<le> n \<Longrightarrow> seq_from_id (event_id n) = n"
  using parse_int_show_nat [of "nat n"]
  by (simp add: seq_from_id_def event_id_def starts_with_def show_int_def)

lemma digits_no_colon: "list_all is_digit s \<Longrightarrow> CHR '':'' \<notin> set s"
  by (auto simp: list_all_iff is_digit_def)

lemma seq_from_event_id_event_id [simp]:
  assumes "0 \<le> n"
  shows "seq_from_event_id (event_id n) = Inr n"
proof -
  have plain: "CHR '':'' \<notin> set (show_nat (nat n))" by (rule digits_no_colon [OF show_nat_digits])
  have "event_id n = ''seq'' @ CHR '':'' # show_nat (nat n)"
    using assms by (simp add: event_id_def show_int_def)
  then have "split_on CHR '':'' (event_id n) = ''seq'' # split_on CHR '':'' (show_nat (nat n))"
    by (simp only:) (rule split_on_append_sep, simp)
  then have "split_on CHR '':'' (event_id n) = [''seq'', show_nat (nat n)]"
    by (simp only: split_on_plain [OF plain])
  then show ?thesis
    using assms parse_int_show_nat [of "nat n"] by (simp add: seq_from_event_id_def)
qed

lemma hd_dropWhile_rev: "dropWhile P s \<noteq> [] \<Longrightarrow> rev (dropWhile P (rev (dropWhile P s))) \<noteq> []"
  by (metis dropWhile_eq_Nil_conv hd_dropWhile hd_in_set rev_is_Nil_conv set_rev)

lemma strip_eq_Nil: "strip s = [] \<longleftrightarrow> (\<forall>c \<in> set s. is_space c)"
  unfolding strip_def by (metis dropWhile.simps(1) dropWhile_eq_Nil_conv hd_dropWhile_rev rev.simps(1))

lemma strip_nonempty: "strip s \<noteq> [] \<Longrightarrow> strip (strip s) \<noteq> []"
proof -
  assume a: "strip s \<noteq> []"
  define t where "t = dropWhile is_space (rev (dropWhile is_space s))"
  have t: "t \<noteq> []" "strip s = rev t" using a by (simp_all add: strip_def t_def)
  have "\<not> is_space (hd t)" using t(1) unfolding t_def by (rule hd_dropWhile)
  with t show ?thesis unfolding strip_eq_Nil by (metis hd_in_set set_rev)
qed

section \<open>The chain of summaries as a dictionary\<close>

definition keyed :: "(string \<times> rolling_summary) list \<Rightarrow> bool" where
  "keyed valid \<longleftrightarrow> distinct (map fst valid) \<and> (\<forall>p \<in> set valid. fst p = rs_id (snd p))"

lemma set_update_subset: "set (AList.update k v xs) \<subseteq> insert (k, v) (set xs)"
  by (induction xs) auto

lemma in_set_update: "(k, v) \<in> set (AList.update k v xs)"
  by (induction xs) auto

lemma keyed_update: "keyed xs \<Longrightarrow> rs_id v = k \<Longrightarrow> keyed (AList.update k v xs)"
  using set_update_subset [of k v xs] by (auto simp: keyed_def distinct_update)

lemma chain_extension_id: "chain_extension sha m atoms valid seq payload = Some s \<Longrightarrow> rs_id s = event_id seq"
  by (auto simp: chain_extension_def Let_def split: if_splits option.splits)

lemma chain_step_keyed: "keyed valid \<Longrightarrow> keyed (chain_step sha m atoms p valid)"
  by (cases "chain_extension sha m atoms valid (fst p) (ev_payload (snd p))")
    (auto simp: chain_step_def case_prod_beta intro: keyed_update dest: chain_extension_id)

lemma valid_summary_chain_keyed: "keyed (valid_summary_chain sha m es atoms)"
proof -
  have "keyed valid \<Longrightarrow> keyed (fold (chain_step sha m atoms) ps valid)" for ps valid
    by (induction ps arbitrary: valid) (simp_all add: chain_step_keyed)
  moreover have "keyed []" by (simp add: keyed_def)
  ultimately show ?thesis unfolding valid_summary_chain_def by blast
qed

lemma keyed_lookup: "keyed valid \<Longrightarrow> s \<in> snd ` set valid \<Longrightarrow> map_of valid (rs_id s) = Some s"
  by (force simp: keyed_def)

text \<open>Appending: the chain goes on from what the earlier events gave.\<close>

lemma valid_summary_chain_append:
  "valid_summary_chain sha m (es @ fs) atoms
     = fold (chain_step sha m atoms) (norm_from (1 + int (length es)) fs) (valid_summary_chain sha m es atoms)"
  by (simp add: valid_summary_chain_def normalized_def norm_from_append)

lemma tip_is_predecessor:
  assumes "keyed valid" and "max_summary (map snd valid) = Some t"
  shows "predecessor_of valid (opt_str (Some (rs_id t))) = Some t"
  using keyed_lookup [OF assms(1)] max_summary_in [OF assms(2)] by (simp add: predecessor_of_def)

lemma chain_below_tip:
  assumes "chain_ok atoms valid" and "max_summary (map snd valid) = Some t"
  shows "\<forall>p \<in> set valid. rs_count (snd p) \<le> length (rs_covered t)"
proof -
  have "t \<in> snd ` set valid" using max_summary_in [OF assms(2)] by simp
  then have "length (rs_covered t) = rs_count t" using assms(1) covers_length by (force simp: chain_ok_def)
  with max_summary_greatest [OF assms(2)] show ?thesis by auto
qed

lemma select_after_update:
  assumes "\<forall>p \<in> set valid. rs_count (snd p) < rs_count s"
  shows "max_summary (map snd (AList.update k s valid)) = Some s"
proof -
  have "snd ` set (AList.update k s valid) \<noteq> {}" using in_set_update [of k s valid] by auto
  then obtain t where t: "max_summary (map snd (AList.update k s valid)) = Some t"
    by (cases "map snd (AList.update k s valid)") auto
  have "s \<in> set (map snd (AList.update k s valid))" using in_set_update [of k s valid] by force
  then have le: "rs_count s \<le> rs_count t" by (rule max_summary_greatest [OF t])
  have "t \<in> set (map snd (AList.update k s valid))" by (rule max_summary_in [OF t])
  then have "t = s \<or> (\<exists>p \<in> set valid. t = snd p)" using set_update_subset [of k s valid] by fastforce
  with assms le t show ?thesis by auto
qed

section \<open>The new summary extends the selected one\<close>

text \<open>The payload that \<^const>\<open>record_summary\<close> writes is accepted where its plan was made.\<close>

lemma success_extends:
  assumes ids: "pl_source_ids plan = source_ids (pl_atoms plan)" and ne: "pl_source_ids plan \<noteq> []"
    and cut: "atoms = covered @ pl_atoms plan @ rest"
    and digest: "pl_digest plan = ids_digest sha (pl_source_ids plan)"
    and count: "pl_previous_count plan = length (source_ids covered)"
    and prev: "prior_ids (predecessor_of valid (opt_str (pl_previous_summary plan))) = source_ids covered"
    and known: "pl_previous_summary plan \<noteq> None \<longrightarrow> predecessor_of valid (opt_str (pl_previous_summary plan)) \<noteq> None"
    and from_seq: "a = seq_from_id (hd (pl_source_ids plan))" and to_seq: "b = seq_from_id (last (pl_source_ids plan))"
    and body: "strip body \<noteq> []" "estimate (JStr body) \<le> m"
  shows "\<exists>s. chain_extension sha m atoms valid seq (success_payload plan aid a b body) = Some s
    \<and> rs_covered s = source_ids covered @ pl_source_ids plan
    \<and> rs_count s = pl_previous_count plan + length (pl_source_ids plan)
    \<and> rs_previous s = pl_previous_summary plan \<and> rs_text s = body"
proof -
  let ?p = "success_payload plan aid a b body"
  have get: "dget ?p ''previous_summary_event_id'' = opt_str (pl_previous_summary plan)"
    "dget ?p ''newly_covered_event_ids'' = JArr (map JStr (pl_source_ids plan))"
    "dget ?p ''summary'' = JStr body" "dget ?p ''newly_covered_from_seq'' = JInt a"
    "dget ?p ''newly_covered_to_seq'' = JInt b"
    "dget ?p ''newly_covered_event_ids_sha256'' = JStr (pl_digest plan)"
    "dget ?p ''logical_covered_event_count'' = JInt (int (pl_previous_count plan + length (pl_source_ids plan)))"
    "dget ?p ''logical_frontier_source_event_id'' = JStr (last (pl_source_ids plan))"
    "dget ?p ''algorithm_version'' = JInt summary_algorithm_version"
    by (simp_all add: success_payload_def)
  have items: "string_items (JArr (map JStr (pl_source_ids plan))) = Some (pl_source_ids plan)"
    using ne by (simp add: string_items_def list_all_iff comp_def)
  have legal: "length (source_ids covered) + length (pl_source_ids plan) \<in> set (legal_frontiers atoms)"
    unfolding legal_frontier_iff
    by (rule exI [of _ "length covered + length (pl_atoms plan)"]) (use ne ids cut in auto)
  have slice: "pl_source_ids plan = take (length (pl_source_ids plan)) (drop (length (source_ids covered)) (source_ids atoms))"
    by (simp add: cut ids)
  have "valid_extension sha m atoms (source_ids covered) (pl_source_ids plan) ?p body"
    unfolding valid_extension_def get
    by (intro conjI, rule slice) (use body digest from_seq to_seq legal count in simp_all)
  then show ?thesis
    using known body prev by (cases "pl_previous_summary plan") (simp_all add: chain_extension_def Let_def get items prev count)
qed

text \<open>What a valid completion appended.\<close>

lemma valid_completion_events:
  assumes "log_ok (ru_store s)"
    and "call_condenser w c caps plan call_index s = (Inr ValidCompletion, s')"
  obtains a b :: int and body aid :: string and e1 e2 e3 :: session_event where "st_events (ru_store s') = st_events (ru_store s) @ [e1, e2, e3]"
    and "ev_type e1 = ''model_usage''" and "ev_type e2 = ''context_condensation_attempt''"
    and "ev_type e3 = ''context_condensed''" and "ev_payload e3 = success_payload plan aid a b body"
    and "seq_from_event_id (hd (pl_source_ids plan)) = Inr a" and "seq_from_event_id (last (pl_source_ids plan)) = Inr b"
    and "strip body \<noteq> []" and "estimate (JStr body) \<le> cap_summary_max_tokens caps"
    and "ev_seq e3 = Some (int (length (st_events (ru_store s))) + 3)"
proof -
  let ?n = "ru_clock s"
  define aid where "aid = ''cond-attempt-'' @ take 16 (wo_fresh w ?n)"
  define latency where "latency = wo_latency w (Suc (Suc ?n))"
  define s1 where "s1 = s\<lparr>ru_clock := Suc (Suc (Suc ?n))\<rparr>"
  have failed: "\<not> (\<exists>q. seq_then (append_condensation_failure w plan e u a) (ret z) s1 = (Inr ValidCompletion, q))"
    if "z \<noteq> ValidCompletion" for e u a z
    using that by (auto simp: seq_then_eq_Inr)
  obtain resp where resp: "wo_complete w (Suc ?n) (condenser_request c caps plan) = Completed resp"
    and valid: "invalid_summary_reason resp caps = None"
    and run: "record_summary w c plan aid call_index latency resp s1 = (Inr ValidCompletion, s')"
  proof (cases "wo_complete w (Suc ?n) (condenser_request c caps plan)")
    case (Completed resp)
    then show thesis
      using assms(2) failed that [of resp]
      by (cases "invalid_summary_reason resp caps")
        (auto simp: call_condenser_def Let_def aid_def latency_def s1_def)
  qed (use assms(2) failed in \<open>auto simp: call_condenser_def Let_def aid_def latency_def s1_def\<close>)
  define body where "body = strip (case lr_text resp of None \<Rightarrow> [] | Some t \<Rightarrow> t)"
  have body: "strip body \<noteq> []" "estimate (JStr body) \<le> cap_summary_max_tokens caps"
    using valid by (auto simp: invalid_summary_reason_def Let_def body_def strip_nonempty split: option.splits if_splits)
  define usage where "usage = usage_event_payload c (lr_usage resp) (lr_request_id resp) (lr_finish resp) latency"
  define att where "att = (\<lambda>status failure. attempt_payload (wo_sha w) c plan aid call_index status failure latency
     (lr_usage resp) (lr_request_id resp) (lr_finish resp) (Some body) (lr_reasoning resp))"
  obtain a where a: "seq_from_event_id (hd (pl_source_ids plan)) = Inr a"
  proof (cases "seq_from_event_id (hd (pl_source_ids plan))")
    case (Inl e)
    with run show thesis by (simp add: record_summary_def Let_def)
  qed
  obtain b where b: "seq_from_event_id (last (pl_source_ids plan)) = Inr b"
  proof (cases "seq_from_event_id (last (pl_source_ids plan))")
    case (Inl e)
    with run a show thesis by (simp add: record_summary_def Let_def)
  qed
  note ab = a b
  define batch where "batch = [(wo_now w (ru_clock s1), ''model_usage'', usage),
     (wo_now w (Suc (ru_clock s1)), ''context_condensation_attempt'', att ''valid_completion'' None),
     (wo_now w (Suc (Suc (ru_clock s1))), ''context_condensed'', success_payload plan aid a b body)]"
  define s2 where "s2 = s1\<lparr>ru_clock := Suc (Suc (Suc (ru_clock s1)))\<rparr>"
  have ok: "log_ok (ru_store s2)" using assms(1) by (simp add: s2_def s1_def)
  have run2: "on_store_error
      (seq_then (on_store (append_derived_events batch (pl_turn plan) (Some (pl_expected_seq plan)))) (ret ValidCompletion))
      (bnd stored_event_seq (\<lambda>current. seq_then (append_condensation_failure w plan (Some current) usage
         (att ''invalid_completion'' (Some ''stale_frontier''))) (ret (InvalidCompletion ''stale_frontier'')))) s2
    = (Inr ValidCompletion, s')"
    using run ab by (simp add: record_summary_def Let_def batch_def att_def usage_def body_def s2_def)
  have nb: "batch \<noteq> []" by (simp add: batch_def)
  note append = append_derived_run [OF ok nb, of "pl_turn plan" "Some (pl_expected_seq plan)"]
  have fresh: "pl_expected_seq plan = int (length (st_events (ru_store s2)))"
  proof (rule ccontr)
    assume "pl_expected_seq plan \<noteq> int (length (st_events (ru_store s2)))"
    then have "on_store (append_derived_events batch (pl_turn plan) (Some (pl_expected_seq plan))) s2
        = (Inl (Exn SessionStoreError ''derived event frontier changed''), s2)"
      by (simp add: on_store_def append)
    with run2 show False
      by (auto simp: on_store_error_def bnd_eq_Inr seq_then_eq_Inr)
  qed
  define es where "es = derived_events (int (length (st_events (ru_store s2)))) (pl_turn plan) batch"
  define st where "st = snd (append_derived_events batch (pl_turn plan) (Some (pl_expected_seq plan)) (ru_store s2))"
  have app: "append_derived_events batch (pl_turn plan) (Some (pl_expected_seq plan)) (ru_store s2) = (Inr es, st)"
    and st: "st_events st = st_events (ru_store s2) @ es"
    unfolding st_def append using fresh by (simp_all add: Let_def es_def)
  have "on_store (append_derived_events batch (pl_turn plan) (Some (pl_expected_seq plan))) s2
      = (Inr es, s2\<lparr>ru_store := st\<rparr>)"
    using app by (rule run_on_store)
  then have "s' = s2\<lparr>ru_store := st\<rparr>" using run2 by (simp add: on_store_error_def)
  with st have ev: "st_events (ru_store s') = st_events (ru_store s)
      @ derived_events (int (length (st_events (ru_store s)))) (pl_turn plan) batch"
    by (simp add: es_def s2_def s1_def)
  show thesis
    by (rule that [OF ev [unfolded batch_def derived_events.simps]]) (use ab body in simp_all)
qed

lemma item_ids:
  assumes "log_ok st" and "project_context_events (st_events st) = Inr pj" and "i \<in> set (source_ids (pj_atoms pj))"
  shows "\<exists>n \<ge> 0. i = event_id n"
proof -
  have "pj_items pj = concat (map at_items (pj_atoms pj))" using assms(2) by (elim project_context_Inr) simp
  then obtain x where x: "x \<in> set (pj_items pj)" "i = hi_id x"
    using assms(3) by (auto simp: source_ids_def atom_ids_def)
  obtain q where q: "q \<in> set (normalized (st_events st))" "item_from q x"
    using project_items_from [OF assms(2) x(1)] by blast
  have "numbered_from (Suc 0) (st_events st)" using assms(1) by (simp add: log_ok_def log_inv_def)
  from fst_norm_from_numbered [OF this] q(1) have "0 < fst q" by (auto simp: normalized_def)
  with q(2) x(2) show ?thesis by (intro exI [of _ "fst q"]) (simp add: item_from_def)
qed

lemma inert_condensation:
  "ev_type e \<in> set condensation_types \<Longrightarrow> inert e"
  by (auto simp: inert_def condensation_types_def cces_event_types_def)

lemma advance:
  assumes ok: "log_ok (ru_store s)" and pj: "project_context_events (st_events (ru_store s)) = Inr pj"
    and build: "build_context (wo_sha w) tx caps schemas snapshot (st_events (ru_store s)) transient soft k
      = Inr (Condense plan triggers report)"
    and current: "pl_previous_summary plan = map_option rs_id
      (select_rolling_summary (wo_sha w) (cap_summary_max_tokens caps) (st_events (ru_store s)) (pj_atoms pj))"
    and call: "call_condenser w c caps plan call_index s = (Inr ValidCompletion, s')"
  shows "project_context_events (st_events (ru_store s')) = Inr pj
    \<and> (\<exists>new covered rest. select_rolling_summary (wo_sha w) (cap_summary_max_tokens caps)
          (st_events (ru_store s')) (pj_atoms pj) = Some new
        \<and> pj_atoms pj = covered @ pl_atoms plan @ rest
        \<and> rs_covered new = source_ids (covered @ pl_atoms plan)
        \<and> rs_previous new = pl_previous_summary plan \<and> pl_previous_count plan < rs_count new)"
proof -
  let ?es = "st_events (ru_store s)"
  let ?select = "select_rolling_summary (wo_sha w) (cap_summary_max_tokens caps)"
  define valid where "valid = valid_summary_chain (wo_sha w) (cap_summary_max_tokens caps) ?es (pj_atoms pj)"
  have keyed: "keyed valid" and chain: "chain_ok (pj_atoms pj) valid"
    unfolding valid_def by (rule valid_summary_chain_keyed, rule valid_summary_chain_ok)
  have select: "?select ?es (pj_atoms pj) = max_summary (map snd valid)"
    by (simp add: select_rolling_summary_def valid_def)
  obtain covered rest summary where cut: "pj_atoms pj = covered @ pl_atoms plan @ rest"
    and count: "pl_previous_count plan = length (source_ids covered)"
    and ne: "pl_atoms plan \<noteq> []" and ids: "pl_source_ids plan = source_ids (pl_atoms plan)"
    and digest: "pl_digest plan = ids_digest (wo_sha w) (pl_source_ids plan)"
    and prev: "pl_previous_summary plan = map_option rs_id summary"
    and cov: "case summary of None \<Rightarrow> covered = []
             | Some t \<Rightarrow> ?select ?es (pj_atoms pj) = Some t \<and> rs_covered t = source_ids covered"
    using plan_parts [OF pj build] by blast
  have atoms: "nonempty_atoms (pj_atoms pj)" by (rule project_atoms_ok(1) [OF pj])
  then have ne': "pl_source_ids plan \<noteq> []"
    using ne cut ids by (cases "pl_atoms plan") (auto simp: nonempty_atoms_def atom_ids_def)
  have in_ids: "\<exists>n \<ge> 0. i = event_id n" if "i \<in> set (pl_source_ids plan)" for i
    using item_ids [OF ok pj, of i] that cut ids by auto
  obtain a b :: int and body aid :: string and e1 e2 e3 :: session_event where ev: "st_events (ru_store s') = ?es @ [e1, e2, e3]"
    and ty: "ev_type e1 = ''model_usage''" "ev_type e2 = ''context_condensation_attempt''" "ev_type e3 = ''context_condensed''"
    and payload: "ev_payload e3 = success_payload plan aid a b body"
    and ab: "seq_from_event_id (hd (pl_source_ids plan)) = Inr a" "seq_from_event_id (last (pl_source_ids plan)) = Inr b"
    and body: "strip body \<noteq> []" "estimate (JStr body) \<le> cap_summary_max_tokens caps"
    and seq: "ev_seq e3 = Some (int (length ?es) + 3)"
    by (rule valid_completion_events [OF ok call])
  have ab': "a = seq_from_id (hd (pl_source_ids plan))" "b = seq_from_id (last (pl_source_ids plan))"
    using ab in_ids [OF hd_in_set [OF ne']] in_ids [OF last_in_set [OF ne']] by auto
  have same: "project_context_events (st_events (ru_store s')) = Inr pj"
  proof -
    have "inert e1" "inert e2" "inert e3" by (rule inert_condensation, simp add: ty condensation_types_def)+
    then have "project_context_events (?es @ [e1, e2, e3]) = project_context_events ?es"
      by (intro inert_projection) simp
    then show ?thesis by (simp only: ev pj)
  qed
  have known: "prior_ids (predecessor_of valid (opt_str (pl_previous_summary plan))) = source_ids covered
      \<and> (pl_previous_summary plan \<noteq> None \<longrightarrow> predecessor_of valid (opt_str (pl_previous_summary plan)) \<noteq> None)"
    using prev cov select tip_is_predecessor [OF keyed]
    by (cases summary) (auto simp: predecessor_of_def prior_ids_def)
  have less: "\<forall>p \<in> set valid. rs_count (snd p) \<le> pl_previous_count plan"
  proof (cases "max_summary (map snd valid)")
    case None
    then show ?thesis by (cases valid) auto
  next
    case (Some t)
    then have "rs_covered t = source_ids covered" using cov current prev select by (cases summary) auto
    with chain_below_tip [OF chain Some] count show ?thesis by simp
  qed
  obtain new where new: "chain_extension (wo_sha w) (cap_summary_max_tokens caps) (pj_atoms pj) valid
        (int (length ?es) + 3) (ev_payload e3) = Some new"
    and n: "rs_covered new = source_ids covered @ pl_source_ids plan"
      "rs_count new = pl_previous_count plan + length (pl_source_ids plan)" "rs_previous new = pl_previous_summary plan"
    using success_extends [OF ids ne' cut digest count, of valid a b body "cap_summary_max_tokens caps" "int (length ?es) + 3" aid]
      known ab' body unfolding payload by auto
  have bigger: "pl_previous_count plan < rs_count new" using n(2) ne' by simp
  have "valid_summary_chain (wo_sha w) (cap_summary_max_tokens caps) (st_events (ru_store s')) (pj_atoms pj)
      = AList.update (event_id (int (length ?es) + 3)) new valid"
    using new ty seq unfolding ev valid_summary_chain_append valid_def [symmetric]
    by (simp add: chain_step_def seq_or_def)
  then have "?select (st_events (ru_store s')) (pj_atoms pj) = Some new"
    using select_after_update [of valid new] less bigger by (force simp: select_rolling_summary_def)
  with same cut n bigger ids show ?thesis by auto
qed

section \<open>Properties\<close>

definition demo_chat :: store where
  "demo_chat = snd (run_op (Append ''t3'' ''user_message'' [(''message'', JStr ''c'')])
     (snd (run_op (Append ''t2'' ''assistant_message'' [(''message'', JStr ''b'')])
     (snd (run_op (Append ''t1'' ''user_message'' [(''message'', JStr ''a'')]) demo_session)))))"

definition demo_runner :: runner_state where
  "demo_runner = \<lparr>ru_store = demo_chat, ru_clock = 0, ru_upgrade_denied = False, ru_report = None, ru_workspace = None\<rparr>"

lemma demo_chat_ok: "log_ok demo_chat"
proof -
  have "session_reachable (snd (run_op (Append now ty payload) st))" if "session_reachable st" for now ty payload st
    by (rule session_reachable.operation [OF that, of "Append now ty payload", OF _ prod.collapse [symmetric]])
      (simp add: proper_op_def)
  then have "session_reachable demo_chat" by (simp add: demo_chat_def demo_session_reachable)
  then show ?thesis by (rule session_reachable_ok)
qed

text \<open>
  C7. The summary in use covers exactly the first atoms of the history, at least one, and what the
  builder then renders is exactly the rest; its text is not blank.
\<close>

theorem rolling_summary_covers_prefix:
  assumes "project_context_events events' = Inr pj"
    and "select_rolling_summary sha summary_max events (pj_atoms pj) = Some s"
  shows "\<exists>k. 0 < k \<and> k \<le> length (pj_atoms pj) \<and> rs_covered s = source_ids (take k (pj_atoms pj))
    \<and> rs_count s = length (rs_covered s) \<and> strip (rs_text s) \<noteq> []
    \<and> atoms_after_coverage (pj_atoms pj) (rs_count s) = drop k (pj_atoms pj)"
proof -
  have cov: "covers (pj_atoms pj) s" by (rule select_covers [OF assms(2)])
  then obtain k where k: "0 < k" "k \<le> length (pj_atoms pj)" "rs_count s = length (source_ids (take k (pj_atoms pj)))"
    by (auto simp: covers_def legal_frontier_iff)
  then show ?thesis
    using cov covers_length [OF cov] take_source_ids
      atoms_after_coverage_frontier [OF project_atoms_ok(1) [OF assms(1)] k(1,2)]
    by (intro exI [of _ k]) (simp add: covers_def)
qed

definition condensed_history :: "session_event list" where
  "condensed_history = tiny_history @ [ev0 ''context_condensed'' [(''previous_summary_event_id'', JNull),
     (''newly_covered_from_seq'', JInt 1), (''newly_covered_to_seq'', JInt 2),
     (''newly_covered_event_ids'', JArr [JStr ''seq:1'', JStr ''seq:2'']),
     (''newly_covered_event_ids_sha256'', JStr ''h''), (''logical_covered_event_count'', JInt 2),
     (''logical_frontier_source_event_id'', JStr ''seq:2''), (''summary'', JStr ''x''), (''algorithm_version'', JInt 1)]]"

theorem rolling_summary_covers_prefix_witness:
  "\<exists>pj s. project_context_events condensed_history = Inr pj
     \<and> select_rolling_summary (\<lambda>_. ''h'') 100 condensed_history (pj_atoms pj) = Some s
     \<and> rs_count s = 2 \<and> length (rs_covered s) = 2"
proof -
  define p where "p = project_context_events condensed_history"
  have "(case p of Inr pj \<Rightarrow> (case select_rolling_summary (\<lambda>_. ''h'') 100 condensed_history (pj_atoms pj) of
      Some s \<Rightarrow> rs_count s = 2 | None \<Rightarrow> False) | Inl _ \<Rightarrow> False)"
    unfolding p_def condensed_history_def tiny_history_def ev0_def by code_simp
  then obtain pj where pj: "project_context_events condensed_history = Inr pj"
    and "(case select_rolling_summary (\<lambda>_. ''h'') 100 condensed_history (pj_atoms pj) of
      Some s \<Rightarrow> rs_count s = 2 | None \<Rightarrow> False)" unfolding p_def [symmetric] by (cases p) simp_all
  then obtain s where s: "select_rolling_summary (\<lambda>_. ''h'') 100 condensed_history (pj_atoms pj) = Some s" "rs_count s = 2"
    by (cases "select_rolling_summary (\<lambda>_. ''h'') 100 condensed_history (pj_atoms pj)") simp_all
  from rolling_summary_covers_prefix [OF pj s(1)] s pj show ?thesis by auto
qed

text \<open>
  C8. Preparing the context of a model step ends: on a numbered log the loop has a result or an
  exception within six iterations, whatever the condenser answers, and all it ever does to the
  session is to append usage and condensation events, with at most four condenser attempts.
\<close>

theorem prepare_context_terminates:
  assumes "log_ok (ru_store s)"
    and "prepare_loop w c caps (builder_render sha tx caps schemas snapshot transient) 6 prepare_start s = (r, s')"
  shows "r \<noteq> Inr None \<and> log_ok (ru_store s') \<and> (\<exists>es. st_events (ru_store s') = st_events (ru_store s) @ es
    \<and> set (map ev_type es) \<subseteq> {''model_usage'', ''context_condensation_attempt'', ''context_condensed''}
    \<and> length (filter (\<lambda>e. ev_type e = ''context_condensation_attempt'') es) \<le> 4)"
  using builder.prepare_bounded [OF assms] by (auto simp: condenses_def attempts_def condensation_types_def)

theorem prepare_context_terminates_witness:
  "log_ok (ru_store demo_runner) \<and> fst (prepare_loop demo_world demo_model tiny_caps
     (builder_render demo_sha demo_texts tiny_caps [] (\<lambda>_. demo_snapshot) []) 6 prepare_start demo_runner) \<noteq> Inr None"
  using prepare_context_terminates [of demo_runner demo_world demo_model tiny_caps demo_sha demo_texts "[]" "\<lambda>_. demo_snapshot" "[]",
      OF _ prod.collapse [symmetric]] demo_chat_ok
  by (simp add: demo_runner_def)

text \<open>
  An accepted summary makes progress: when a condenser call for a plan of the current log ends
  as valid, the conversation that the log projects to is unchanged, and the summary then selected is
  the new one, which continues the previous summary and covers what that covered followed by exactly
  the planned atoms.
\<close>

theorem accepted_summary_advances:
  assumes "log_ok (ru_store s)" and "project_context_events (st_events (ru_store s)) = Inr pj"
    and "build_context (wo_sha w) tx caps schemas snapshot (st_events (ru_store s)) transient soft k
      = Inr (Condense plan triggers report)"
    and "pl_previous_summary plan = map_option rs_id
      (select_rolling_summary (wo_sha w) (cap_summary_max_tokens caps) (st_events (ru_store s)) (pj_atoms pj))"
    and "call_condenser w c caps plan call_index s = (Inr ValidCompletion, s')"
  shows "project_context_events (st_events (ru_store s')) = Inr pj
    \<and> (\<exists>new covered rest. select_rolling_summary (wo_sha w) (cap_summary_max_tokens caps)
          (st_events (ru_store s')) (pj_atoms pj) = Some new
        \<and> pj_atoms pj = covered @ pl_atoms plan @ rest
        \<and> rs_covered new = source_ids (covered @ pl_atoms plan)
        \<and> rs_previous new = pl_previous_summary plan \<and> pl_previous_count plan < rs_count new)"
  by (rule advance [OF assms])

theorem accepted_summary_advances_witness:
  "\<exists>pj plan s' new. project_context_events (st_events (ru_store s')) = Inr pj \<and> pl_atoms plan \<noteq> []
     \<and> call_condenser demo_world demo_model tiny_caps plan 1 demo_runner = (Inr ValidCompletion, s')
     \<and> select_rolling_summary demo_sha 2048 (st_events (ru_store s')) (pj_atoms pj) = Some new \<and> 0 < rs_count new"
proof -
  define b where "b = build_context demo_sha demo_texts tiny_caps [] demo_snapshot (st_events demo_chat) [] False None"
  define q where "q = project_context_events (st_events demo_chat)"
  define ok where "ok = (\<lambda>p. pl_previous_summary p = None \<and>
    (case fst (call_condenser demo_world demo_model tiny_caps p 1 demo_runner) of Inr ValidCompletion \<Rightarrow> True | _ \<Rightarrow> False))"
  have run: "(case b of Inr (Condense p tr report) \<Rightarrow> ok p | _ \<Rightarrow> False)
      \<and> (case q of Inr pj \<Rightarrow> Option.is_none (select_rolling_summary demo_sha 2048 (st_events demo_chat) (pj_atoms pj)) | _ \<Rightarrow> False)"
    unfolding b_def q_def ok_def demo_runner_def demo_chat_def demo_session_def demo_created_def by code_simp
  then obtain plan tr report where b: "b = Inr (Condense plan tr report)" and "ok plan"
    by (cases b) (auto split: build_result.splits)
  then obtain s' where none: "pl_previous_summary plan = None"
    and call: "call_condenser demo_world demo_model tiny_caps plan 1 demo_runner = (Inr ValidCompletion, s')"
    by (cases "call_condenser demo_world demo_model tiny_caps plan 1 demo_runner")
      (auto simp: ok_def split: sum.splits condenser_status.splits)
  obtain pj where q: "q = Inr pj" and sel: "select_rolling_summary demo_sha 2048 (st_events demo_chat) (pj_atoms pj) = None"
    using run by (cases q) (auto simp: Option.is_none_def)
  have env: "wo_sha demo_world = demo_sha" "ru_store demo_runner = demo_chat" "cap_summary_max_tokens tiny_caps = 2048"
    by (simp_all add: demo_world_def demo_runner_def tiny_caps_def default_capabilities_def)
  have ne: "pl_atoms plan \<noteq> []" using plan_parts [OF q [unfolded q_def] b [unfolded b_def]] by blast
  from accepted_summary_advances [of demo_runner pj demo_world demo_texts tiny_caps "[]" demo_snapshot "[]" False None
      plan tr report demo_model 1 s', unfolded env, OF demo_chat_ok q [unfolded q_def] b [unfolded b_def] _ call] none sel
  have "project_context_events (st_events (ru_store s')) = Inr pj"
    "\<exists>new. select_rolling_summary demo_sha 2048 (st_events (ru_store s')) (pj_atoms pj) = Some new
       \<and> pl_previous_count plan < rs_count new" by auto
  with ne call show ?thesis by (metis gr_implies_not0 gr_zeroI)
qed

end
