(* ===== verification/Agent_Tools.thy ===== *)
theory Agent_Tools
  imports Condensation
begin

text \<open>
  Tools, their registry, the default policy and the approval gate: \<^verbatim>\<open>tools/base.py\<close>,
  \<^verbatim>\<open>tools/registry.py\<close>, \<^verbatim>\<open>runtime/policy.py\<close> and the protocol of \<^verbatim>\<open>runtime/approval.py\<close>. A handler is a
  program over the runner's state, since handlers write events of their own.
\<close>

section \<open>Tools\<close>

datatype permission_level = READ | EXEC_READONLY | WRITE | CANDIDATE_WRITE | NETWORK | DANGEROUS

record tool_result =
  tr_ok :: bool
  tr_content :: string
  tr_error :: "string option"
  tr_code :: "string option"
  tr_truncated :: bool
  tr_metadata :: dict

definition tool_success :: "string \<Rightarrow> dict \<Rightarrow> tool_result" where
  "tool_success content metadata = \<lparr>tr_ok = True, tr_content = content, tr_error = None, tr_code = None,
     tr_truncated = False, tr_metadata = metadata\<rparr>"

definition tool_failure :: "string \<Rightarrow> string \<Rightarrow> tool_result" where
  "tool_failure error code = \<lparr>tr_ok = False, tr_content = [], tr_error = Some error, tr_code = Some code,
     tr_truncated = False, tr_metadata = []\<rparr>"

text \<open>\<^verbatim>\<open>model_dump\<close>.\<close>

definition result_fields :: "tool_result \<Rightarrow> dict" where
  "result_fields r = [(''ok'', JBool (tr_ok r)), (''content'', JStr (tr_content r)), (''error'', opt_str (tr_error r)),
     (''error_code'', opt_str (tr_code r)), (''truncated'', JBool (tr_truncated r)),
     (''metadata'', JObj (tr_metadata r))]"

definition result_dump :: "tool_result \<Rightarrow> json" where
  "result_dump r = JObj (result_fields r)"

record tool_spec =
  ts_name :: string
  ts_description :: string
  ts_level :: permission_level
  ts_schema :: dict
  ts_handler :: "dict \<Rightarrow> tool_result runner_prog"

definition model_tool :: "tool_spec \<Rightarrow> json" where
  "model_tool t = JObj [(''name'', JStr (ts_name t)), (''description'', JStr (ts_description t)),
     (''parameters'', JObj (ts_schema t))]"

section \<open>The registry\<close>

text \<open>A dictionary in insertion order: registering a name again replaces the tool in place.\<close>

type_synonym registry = "(string \<times> tool_spec) list"

definition register :: "tool_spec \<Rightarrow> registry \<Rightarrow> registry" where
  "register t reg = AList.update (ts_name t) t reg"

definition registry_get :: "registry \<Rightarrow> string \<Rightarrow> tool_spec res" where
  "registry_get reg name = (case map_of reg name of
     None \<Rightarrow> Inl (Exn KeyError (''Unknown tool: '' @ name)) | Some t \<Rightarrow> Inr t)"

definition as_model_tools :: "registry \<Rightarrow> json list" where
  "as_model_tools reg = map (model_tool \<circ> snd) reg"

lemma registry_get_register [simp]:
  "registry_get (register t reg) name = (if name = ts_name t then Inr t else registry_get reg name)"
  by (simp add: registry_get_def register_def AList.update_conv')

lemma register_distinct: "distinct (map fst reg) \<Longrightarrow> distinct (map fst (register t reg))"
  by (simp add: register_def distinct_update)

section \<open>The policy\<close>

datatype policy_decision = Allow | Ask | Deny | RequireApproval

definition decision_value :: "policy_decision \<Rightarrow> string" where
  "decision_value d = (case d of Allow \<Rightarrow> ''allow'' | Ask \<Rightarrow> ''ask'' | Deny \<Rightarrow> ''deny''
     | RequireApproval \<Rightarrow> ''require_approval'')"

text \<open>\<^verbatim>\<open>DefaultPolicy.evaluate\<close>; the Chinese reasons are named by a tag.\<close>

definition policy_evaluate :: "permission_level \<Rightarrow> policy_decision \<times> string" where
  "policy_evaluate level = (case level of
     READ \<Rightarrow> (Allow, ''readonly tool is allowed'')
   | EXEC_READONLY \<Rightarrow> (Ask, ''readonly executable tool requires approval'')
   | WRITE \<Rightarrow> (Deny, ''write'')
   | CANDIDATE_WRITE \<Rightarrow> (Allow, ''candidate_write'')
   | NETWORK \<Rightarrow> (Deny, ''network tools are disabled'')
   | DANGEROUS \<Rightarrow> (Deny, ''dangerous tools are disabled''))"

section \<open>The approval gate\<close>

text \<open>
  A gate answers a request, and may log events itself (\<^verbatim>\<open>manages_events\<close>): the product's gate
  does, the console and automatic gates do not.
\<close>

record approval_gate =
  ag_manages :: bool
  ag_request :: "tool_spec \<Rightarrow> tool_call \<Rightarrow> bool runner_prog"
  ag_upgrade :: "string \<Rightarrow> dict \<Rightarrow> bool runner_prog"

definition auto_gate :: "bool \<Rightarrow> approval_gate" where
  "auto_gate allow = \<lparr>ag_manages = False, ag_request = (\<lambda>_ _. ret allow), ag_upgrade = (\<lambda>_ _. ret allow)\<rparr>"

text \<open>
  The console gate: without a terminal every request is refused, otherwise the user's answer
  counts and an interrupted prompt refuses (\<^verbatim>\<open>None\<close>).
\<close>

definition console_answer :: "bool \<Rightarrow> bool option \<Rightarrow> bool" where
  "console_answer tty answer = (tty \<and> answer = Some True)"

definition console_gate :: "bool \<Rightarrow> (nat \<Rightarrow> bool option) \<Rightarrow> approval_gate" where
  "console_gate tty answer = \<lparr>ag_manages = False,
     ag_request = (\<lambda>_ _. bnd (ask answer) (\<lambda>a. ret (console_answer tty a))),
     ag_upgrade = (\<lambda>_ _. bnd (ask answer) (\<lambda>a. ret (console_answer tty a)))\<rparr>"

section \<open>One tool call\<close>

record step_view =
  sv_tool :: string
  sv_arguments :: dict
  sv_decision :: string
  sv_result :: tool_result

definition step_of_call :: "tool_call \<Rightarrow> string \<Rightarrow> tool_result \<Rightarrow> step_view" where
  "step_of_call c decision r = \<lparr>sv_tool = tc_name c, sv_arguments = tc_arguments c, sv_decision = decision, sv_result = r\<rparr>"

definition call_head :: "tool_call \<Rightarrow> dict" where
  "call_head c = [(''call_id'', JStr (tc_id c)), (''name'', JStr (tc_name c))]"

definition call_fields :: "tool_call \<Rightarrow> dict" where
  "call_fields c = call_head c @ [(''arguments'', JObj (tc_arguments c))]"

definition result_event_payload :: "tool_call \<Rightarrow> tool_result \<Rightarrow> dict" where
  "result_event_payload c r = call_fields c @ [(''content'', JStr (dumps_default (result_dump r))),
     (''result'', result_dump r)]"

definition denied_event_payload :: "tool_call \<Rightarrow> string \<Rightarrow> tool_result \<Rightarrow> dict" where
  "denied_event_payload c reason r = call_head c @ [(''reason'', JStr reason), (''result'', result_dump r)]"

text \<open>The handler runs and its outcome is logged.\<close>

definition run_handler :: "world \<Rightarrow> tool_spec \<Rightarrow> tool_call \<Rightarrow> policy_decision \<Rightarrow> step_view runner_prog" where
  "run_handler w t c decision = bnd (ts_handler t (tc_arguments c)) (\<lambda>r.
     seq_then (log_event w ''tool_result'' (result_event_payload c r))
     (ret (step_of_call c (decision_value decision) r)))"

definition deny_call :: "world \<Rightarrow> tool_call \<Rightarrow> string \<Rightarrow> string \<Rightarrow> step_view runner_prog" where
  "deny_call w c reason code =
     (let r = tool_failure reason code in
      seq_then (log_event w ''tool_denied'' (denied_event_payload c reason r))
      (ret (step_of_call c ''deny'' r)))"

text \<open>The request for approval, with the events of a gate that leaves them to the runner.\<close>

definition request_approval :: "world \<Rightarrow> approval_gate \<Rightarrow> tool_spec \<Rightarrow> tool_call \<Rightarrow> string \<Rightarrow> bool runner_prog" where
  "request_approval w gate t c reason =
     seq_then (if ag_manages gate then ret ()
       else seq_then (log_event w ''approval_requested'' (call_head c @ [(''reason'', JStr reason)])) (ret ()))
     (bnd (ag_request gate t c) (\<lambda>allowed.
      seq_then (if ag_manages gate then ret ()
        else seq_then (log_event w ''approval_decision'' (call_head c @ [(''allowed'', JBool allowed)])) (ret ()))
      (ret allowed)))"

definition handle_tool_call :: "world \<Rightarrow> approval_gate \<Rightarrow> registry \<Rightarrow> tool_call \<Rightarrow> step_view runner_prog" where
  "handle_tool_call w gate reg c =
     seq_then (log_event w ''tool_requested'' (call_fields c))
     (case registry_get reg (tc_name c) of
        Inl e \<Rightarrow>
          let r = tool_failure (repr_str (exn_code e)) ''invalid_arguments'' in
          seq_then (log_event w ''tool_denied'' (call_head c @ [(''result'', result_dump r)]))
          (ret (step_of_call c ''deny'' r))
      | Inr t \<Rightarrow>
          (case policy_evaluate (ts_level t) of (decision, reason) \<Rightarrow>
             if decision = Deny then deny_call w c reason ''policy_denied''
             else if decision = Ask then
               bnd (request_approval w gate t c reason) (\<lambda>allowed.
               if \<not> allowed then deny_call w c ''user denied approval'' ''approval_denied''
               else run_handler w t c decision)
             else run_handler w t c decision))"

end
