(* ===== verification/Agent_Runner.thy ===== *)
theory Agent_Runner
  imports Agent_Tools Turn_Budget
begin

text \<open>
  The main loop of \<^verbatim>\<open>runtime/runner.py\<close>: one execution slice of a user turn, with its budget, its
  stop requests, its recovery from unreadable and truncated model output, its tool calls, and the
  change to an isolated workspace. The callback that reports progress has no part in the state and
  is left out, as is the seam for renderers that return a list.
\<close>

section \<open>The environment of a runner\<close>

text \<open>The sentences the runner writes, which are natural language.\<close>

record runner_texts =
  xt_wait :: "int \<Rightarrow> int \<Rightarrow> string"
  xt_context :: "int \<Rightarrow> int \<Rightarrow> string"
  xt_stopped :: string
  xt_truncated :: "int \<Rightarrow> string"
  xt_malformed :: "string \<Rightarrow> string"
  xt_repair :: "string \<Rightarrow> string \<Rightarrow> string \<Rightarrow> string \<Rightarrow> string"
  xt_continuation :: "int \<Rightarrow> int \<Rightarrow> json \<Rightarrow> json \<Rightarrow> json \<Rightarrow> string"
  xt_slice :: "int \<Rightarrow> int \<Rightarrow> string"
  xt_truncation_control :: string
  xt_upgrade_reason :: string

text \<open>
  \<open>en_tools\<close> is the registry the runner starts with and \<open>en_bundle\<close> that of \<^verbatim>\<open>_build_active_bundle\<close>.
  \<open>en_create\<close> and \<open>en_discard\<close> are \<^verbatim>\<open>GitWorktreeManager.create\<close> and \<^verbatim>\<open>discard\<close>, whose effects are
  those of git; \<open>en_snapshot\<close> is the runtime snapshot of the context builder.
\<close>

record runner_env =
  en_world :: world
  en_model :: model_config
  en_config :: runtime_config
  en_texts :: runner_texts
  en_prompts :: prompt_texts
  en_gate :: approval_gate
  en_tools :: registry
  en_bundle :: "workspace_context \<Rightarrow> registry"
  en_create :: "nat \<Rightarrow> string \<Rightarrow> string \<Rightarrow> int \<Rightarrow> workspace_context res"
  en_discard :: "nat \<Rightarrow> workspace_context \<Rightarrow> unit res"
  en_snapshot :: "workspace_context option \<Rightarrow> store \<Rightarrow> runtime_snapshot"

definition active_tools :: "runner_env \<Rightarrow> runner_state \<Rightarrow> registry" where
  "active_tools E s = (case ru_workspace s of None \<Rightarrow> en_tools E | Some ctx \<Rightarrow> en_bundle E ctx)"

definition logged :: "runner_env \<Rightarrow> string \<Rightarrow> dict \<Rightarrow> unit runner_prog" where
  "logged E ty payload = seq_then (log_event (en_world E) ty payload) (ret ())"

text \<open>A store operation that takes the clock reading of the event it logs.\<close>

definition timed :: "runner_env \<Rightarrow> (string \<Rightarrow> 'a store_prog) \<Rightarrow> 'a runner_prog" where
  "timed E m = bnd (ask (wo_now (en_world E))) (\<lambda>now. on_store (m now))"

section \<open>Reading the log\<close>

definition in_turn :: "session_event list \<Rightarrow> session_event \<Rightarrow> bool" where
  "in_turn es e = (ev_turn e = current_turn es)"

definition steps_used :: "session_event list \<Rightarrow> int" where
  "steps_used es = int (length (filter (\<lambda>e. in_turn es e \<and> is_model_step e) es))"

definition latest_step :: "session_event list \<Rightarrow> session_event option" where
  "latest_step es = find (\<lambda>e. in_turn es e \<and> is_model_step e) (rev es)"

definition has_incomplete_turn :: "session_event list \<Rightarrow> bool" where
  "has_incomplete_turn es = (current_turn es \<noteq> None
     \<and> \<not> list_ex (\<lambda>e. in_turn es e \<and> ev_type e \<in> {''assistant_message'', ''turn_terminated''}) es)"

definition consecutive_truncations :: "session_event list \<Rightarrow> int" where
  "consecutive_truncations es = int (length (takeWhile (\<lambda>e. ev_type e = ''model_output_truncated'')
     (filter (\<lambda>e. in_turn es e \<and> is_model_step e) (rev es))))"

definition upgrade_denied_in_turn :: "runner_texts \<Rightarrow> session_event list \<Rightarrow> bool" where
  "upgrade_denied_in_turn tx es = list_ex (\<lambda>e. in_turn es e \<and> ev_type e = ''approval_decision''
     \<and> dget (ev_payload e) ''allowed'' = JBool False
     \<and> (dget (ev_payload e) ''kind'' = JStr ''workspace_upgrade''
        \<or> dget (ev_payload e) ''reason'' = JStr (xt_upgrade_reason tx))) es"

definition system_message :: "string \<Rightarrow> json" where
  "system_message content = JObj [(''role'', JStr ''system''), (''content'', JStr content)]"

text \<open>\<^verbatim>\<open>f"{v}"\<close> of a payload field.\<close>

definition field_text :: "dict \<Rightarrow> string \<Rightarrow> string" where
  "field_text d k = py_str (dget d k)"

definition continuation_messages :: "runner_env \<Rightarrow> session_event list \<Rightarrow> json list res" where
  "continuation_messages E es =
     (case find (\<lambda>e. in_turn es e \<and> ev_type e = ''execution_slice_exhausted'') (rev es) of
        None \<Rightarrow> Inr []
      | Some e \<Rightarrow> rbind (current_turn_budget es (rc_max_model_steps (en_config E))) (\<lambda>b.
          Inr [system_message (xt_continuation (en_texts E) (tb_limit b) (tb_used b)
            (dget (ev_payload e) ''steps_used_in_turn'') (dget (ev_payload e) ''candidate_revision'')
            (dget (ev_payload e) ''workspace_state''))]))"

definition truncation_continuation :: "runner_texts \<Rightarrow> session_event list \<Rightarrow> json list" where
  "truncation_continuation tx es = (case latest_step es of
     Some e \<Rightarrow> if ev_type e = ''model_output_truncated'' then [system_message (xt_truncation_control tx)] else []
   | None \<Rightarrow> [])"

definition protocol_continuation :: "runner_texts \<Rightarrow> session_event list \<Rightarrow> json list" where
  "protocol_continuation tx es = (case latest_step es of
     Some e \<Rightarrow> if ev_type e = ''model_protocol_error''
       then [system_message (xt_repair tx (str_get (ev_payload e) ''tool'' []) (str_get (ev_payload e) ''message'' [])
              (field_text (ev_payload e) ''line'') (field_text (ev_payload e) ''column''))]
       else []
   | None \<Rightarrow> [])"

section \<open>Ending a slice\<close>

record runner_output =
  ro_text :: string
  ro_steps :: "step_view list"
  ro_status :: string
  ro_used :: int

definition outcome :: "string \<Rightarrow> string \<Rightarrow> step_view list \<Rightarrow> int \<Rightarrow> runner_output" where
  "outcome status said steps used = \<lparr>ro_text = said, ro_steps = steps, ro_status = status, ro_used = used\<rparr>"

definition waits_already :: "turn_budget \<Rightarrow> session_event list \<Rightarrow> bool" where
  "waits_already b es = list_ex (\<lambda>e. ev_type e = ''turn_budget_exhausted'' \<and> ev_turn e = tb_turn b
     \<and> eq_int (dget (ev_payload e) ''max_model_steps_per_user_turn'') (tb_limit b)) es"

definition wait_for_budget :: "runner_env \<Rightarrow> step_view list \<Rightarrow> int \<Rightarrow> runner_output runner_prog" where
  "wait_for_budget E steps used =
     bnd store_events (\<lambda>es.
     bnd (lift (current_turn_budget es (rc_max_model_steps (en_config E)))) (\<lambda>b.
     let said = xt_wait (en_texts E) used (tb_limit b) in
     seq_then (if waits_already b es then ret ()
       else logged E ''turn_budget_exhausted''
         [(''message'', JStr said), (''steps_used_in_turn'', JInt used),
          (''max_model_steps_per_user_turn'', JInt (tb_limit b))])
     (ret (outcome ''model_step_budget_exhausted'' said steps used))))"

definition component_dump :: "budget_component \<Rightarrow> json" where
  "component_dump c = JObj [(''category'', JStr (bc_category c)), (''estimated_tokens'', JInt (bc_tokens c)),
     (''item_count'', JInt (int (bc_count c)))]"

definition observation_dump :: "budget_observation \<Rightarrow> json" where
  "observation_dump x = JObj [(''tool'', JStr (bo_tool x)), (''call_id'', JStr (bo_call_id x)),
     (''estimated_tokens'', JInt (bo_tokens x)), (''path'', opt_str (bo_path x))]"

definition terminate_context_budget ::
  "runner_env \<Rightarrow> step_view list \<Rightarrow> budget_report \<Rightarrow> string \<Rightarrow> runner_output runner_prog" where
  "terminate_context_budget E steps report reason =
     bnd store_events (\<lambda>es.
     let used = steps_used es; said = xt_context (en_texts E) (br_estimated report) (br_usable report) in
     seq_then (logged E ''turn_terminated''
       [(''reason'', JStr ''context_budget_exceeded''), (''context_budget_reason'', JStr reason),
        (''message'', JStr said), (''estimated_tokens'', JInt (br_estimated report)),
        (''usable_tokens'', JInt (br_usable report)), (''dropped_turn_ids'', JArr []),
        (''reductions'', JArr (map JStr (br_reductions report))),
        (''minimum_set_components'', JArr (map component_dump (br_components report))),
        (''largest_observations'', JArr (map observation_dump (br_observations report))),
        (''component_estimated_tokens'', opt_int (br_component_total report)),
        (''estimation_residual'', opt_int (br_residual report)), (''steps_used_in_turn'', JInt used)])
     (ret (outcome ''context_budget_exceeded'' said steps used)))"

text \<open>\<^verbatim>\<open>v[k]\<close> on a JSON value.\<close>

definition subscript :: "json \<Rightarrow> string \<Rightarrow> json res" where
  "subscript v k = (case v of JObj d \<Rightarrow> dindex d k | _ \<Rightarrow> Inl (Exn TypeError ''subscript''))"

text \<open>Iterating \<^verbatim>\<open>payload.get("tool_calls", [])\<close>.\<close>

definition iterate :: "json \<Rightarrow> json list res" where
  "iterate v = (case v of JArr xs \<Rightarrow> Inr xs | JObj d \<Rightarrow> Inr (map (JStr \<circ> fst) d)
     | JStr s \<Rightarrow> Inr (map (\<lambda>c. JStr [c]) s) | _ \<Rightarrow> Inl (Exn TypeError ''iterate''))"

text \<open>Closing the calls of one announcement that have no outcome; \<open>answered\<close> are the call identities with one.\<close>

fun deny_open_calls :: "runner_env \<Rightarrow> json list \<Rightarrow> json list \<Rightarrow> unit runner_prog" where
  "deny_open_calls E answered [] = ret ()"
| "deny_open_calls E answered (call # calls) =
     bnd (lift (subscript call ''call_id'')) (\<lambda>cid.
     seq_then (if cid \<in> set answered then ret ()
       else bnd (lift (subscript call ''name'')) (\<lambda>name.
         logged E ''tool_denied'' [(''call_id'', cid), (''name'', name), (''reason'', JStr ''user_stop'')]))
     (deny_open_calls E answered calls))"

fun close_announcements :: "runner_env \<Rightarrow> json list \<Rightarrow> session_event list \<Rightarrow> unit runner_prog" where
  "close_announcements E answered [] = ret ()"
| "close_announcements E answered (e # es) =
     bnd (lift (iterate (dget_or (ev_payload e) ''tool_calls'' (JArr [])))) (\<lambda>calls.
     seq_then (deny_open_calls E answered calls) (close_announcements E answered es))"

definition answered_calls :: "session_event list \<Rightarrow> json list" where
  "answered_calls es = map (\<lambda>e. dget (ev_payload e) ''call_id'')
     (filter (\<lambda>e. in_turn es e \<and> ev_type e \<in> {''tool_result'', ''tool_denied''}) es)"

definition announcements :: "session_event list \<Rightarrow> session_event list" where
  "announcements es = filter (\<lambda>e. in_turn es e \<and> ev_type e = ''assistant_tool_calls'') es"

definition terminate_stopped :: "runner_env \<Rightarrow> step_view list \<Rightarrow> runner_output runner_prog" where
  "terminate_stopped E steps =
     bnd store_events (\<lambda>es.
     seq_then (close_announcements E (answered_calls es) (announcements es))
     (seq_then (logged E ''turn_terminated''
        [(''reason'', JStr ''user_stop''), (''message'', JStr (xt_stopped (en_texts E))),
         (''boundary'', JStr ''between_model_or_tool_steps'')])
     (bnd store_events (\<lambda>es'. ret (outcome ''stopped'' (xt_stopped (en_texts E)) steps (steps_used es'))))))"

section \<open>Recording model output\<close>

definition report_dump :: "budget_report \<Rightarrow> json" where
  "report_dump r = JObj [(''estimated_tokens'', JInt (br_estimated r)), (''usable_tokens'', JInt (br_usable r)),
     (''fixed_request_tokens'', JInt (br_fixed r)), (''history_tokens'', JInt (br_history r)),
     (''uncovered_context_event_count'', JInt (int (br_uncovered_count r))),
     (''chain_tip_event_id'', opt_str (br_chain_tip r)), (''anchor_source_event_id'', opt_str (br_anchor r)),
     (''retained_raw_source_event_ids'', JArr (map JStr (br_retained r))),
     (''mandatory_protocol_atom_id'', opt_str (br_mandatory_atom r))]"

definition record_model_usage ::
  "runner_env \<Rightarrow> token_usage option \<Rightarrow> string option \<Rightarrow> string option \<Rightarrow> string option \<Rightarrow> unit runner_prog" where
  "record_model_usage E usage request_id finish effort =
     bnd (gets ru_report) (\<lambda>report.
     logged E ''model_usage''
       [(''provider'', JStr (mc_provider (en_model E))), (''model'', JStr (resolved_model (en_model E))),
        (''purpose'', JStr ''main_agent''), (''provider_request_id'', opt_str request_id),
        (''finish_reason'', opt_str finish),
        (''reasoning_effort'', opt_str (case effort of Some (ch # e) \<Rightarrow> Some (ch # e)
           | _ \<Rightarrow> resolved_reasoning_effort (en_model E))),
        (''usage'', usage_dump usage),
        (''context_reductions'', JArr (case report of None \<Rightarrow> [] | Some r \<Rightarrow> map JStr (br_reductions r))),
        (''context'', case report of None \<Rightarrow> JNull | Some r \<Rightarrow> report_dump r)])"

definition main_request_effort :: "model_config \<Rightarrow> bool \<Rightarrow> string option" where
  "main_request_effort c recovering =
     (if \<not> recovering \<or> \<not> mc_reasoning_enabled c then None
      else if mc_provider c = ''glm'' \<and> resolved_model c = ''glm-5.3'' then Some ''low''
      else if mc_provider c = ''deepseek'' then Some ''low'' else None)"

definition truncation_detection :: "llm_response \<Rightarrow> model_request \<Rightarrow> string option" where
  "truncation_detection r req =
     (if lr_finish r = Some ''length'' then Some ''provider_finish_reason''
      else if lr_finish r \<noteq> None then None
      else (case (lr_usage r, mq_max_tokens req) of
          (Some u, Some limit) \<Rightarrow>
            (case tu_output u of
               Some n \<Rightarrow> if lr_text r \<in> {None, Some []} \<and> lr_calls r = [] \<and> limit \<le> n
                         then Some ''usage_fallback'' else None
             | None \<Rightarrow> None)
        | _ \<Rightarrow> None))"

definition max_consecutive_truncations :: int where
  "max_consecutive_truncations = 3"

text \<open>\<^const>\<open>None\<close> when the turn goes on.\<close>

definition record_output_truncation ::
  "runner_env \<Rightarrow> step_view list \<Rightarrow> string option \<Rightarrow> string option \<Rightarrow> string option \<Rightarrow> string \<Rightarrow> int
     \<Rightarrow> runner_output option runner_prog" where
  "record_output_truncation E steps reply reasoning finish detection limit =
     bnd store_events (\<lambda>es.
     let count = consecutive_truncations es + 1 in
     seq_then (logged E ''model_output_truncated''
       ([(''message'', JStr (case reply of None \<Rightarrow> [] | Some m \<Rightarrow> m)), (''finish_reason'', opt_str finish),
         (''detection'', JStr detection), (''consecutive_count'', JInt count),
         (''max_consecutive_output_truncations'', JInt max_consecutive_truncations)]
        @ (case reasoning of None \<Rightarrow> [] | Some m \<Rightarrow> [(''reasoning_content'', JStr m)])))
     (bnd store_events (\<lambda>es'.
      let used = steps_used es' in
      if limit \<le> used then bnd (wait_for_budget E steps used) (\<lambda>r. ret (Some r))
      else if count < max_consecutive_truncations then ret None
      else let said = xt_truncated (en_texts E) count in
        seq_then (logged E ''turn_terminated''
          [(''reason'', JStr ''output_truncated''), (''message'', JStr said),
           (''consecutive_output_truncations'', JInt count), (''steps_used_in_turn'', JInt used)])
        (ret (Some (outcome ''output_truncated'' said steps used))))))"

section \<open>Changing to an isolated workspace\<close>

definition try_prog :: "'a runner_prog \<Rightarrow> (exn + 'a) runner_prog" where
  "try_prog m = (\<lambda>s. case m s of (r, s') \<Rightarrow> (Inr r, s'))"

text \<open>
  \<^verbatim>\<open>_upgrade_and_dispatch\<close>. The body of the \<^verbatim>\<open>try\<close> returns the created workspace even when it
  fails later, since the handler discards it. After a success the runner's tools are those of the
  bundle of the new workspace.
\<close>

definition upgrade_refused :: "string \<Rightarrow> string \<Rightarrow> tool_result" where
  "upgrade_refused code error = tool_failure error code"

definition activate_bundle :: "runner_env \<Rightarrow> workspace_context \<Rightarrow> unit runner_prog" where
  "activate_bundle E ctx = seq_then (timed E (\<lambda>now. activate_workspace now ctx))
     (modify (\<lambda>s. s\<lparr>ru_workspace := Some ctx\<rparr>))"

definition roll_back :: "runner_env \<Rightarrow> workspace_context option \<Rightarrow> exn \<Rightarrow> tool_result runner_prog" where
  "roll_back E created e =
     bnd (case created of
            None \<Rightarrow> ret True
          | Some ctx \<Rightarrow> bnd (ask (\<lambda>n. en_discard E n ctx)) (\<lambda>r. case r of
              Inr u \<Rightarrow> ret True
            | Inl x \<Rightarrow> if exn_class x = GitWorktreeError then ret False else raise x)) (\<lambda>clean.
     if \<not> clean
     then seq_then (timed E (\<lambda>now. mark_recovery_required now (exn_code e)))
       (ret (upgrade_refused ''recovery_required'' ''discard failed''))
     else seq_then (timed E (\<lambda>now. cancel_workspace_upgrade now (exn_code e)))
       (ret (upgrade_refused ''workspace_upgrade_failed'' (exn_code e))))"

definition upgrade_workspace :: "runner_env \<Rightarrow> int \<Rightarrow> (tool_result + workspace_context) runner_prog" where
  "upgrade_workspace E n =
     bnd (try_prog (timed E (\<lambda>now. begin_workspace_upgrade now n))) (\<lambda>r0. case r0 of
       Inl e \<Rightarrow> bnd (roll_back E None e) (\<lambda>r. ret (Inl r))
     | Inr u \<Rightarrow>
         bnd (gets ru_store) (\<lambda>st.
         bnd (ask (\<lambda>k. en_create E k (st_root st) (st_session st) n)) (\<lambda>r1. case r1 of
           Inl e \<Rightarrow> bnd (roll_back E None e) (\<lambda>r. ret (Inl r))
         | Inr ctx \<Rightarrow>
             bnd (try_prog (activate_bundle E ctx)) (\<lambda>r2. case r2 of
               Inl e \<Rightarrow> bnd (roll_back E (Some ctx) e) (\<lambda>r. ret (Inl r))
             | Inr u \<Rightarrow> ret (Inr ctx)))))"

definition upgrade_and_dispatch :: "runner_env \<Rightarrow> string \<Rightarrow> dict \<Rightarrow> tool_result runner_prog" where
  "upgrade_and_dispatch E name args =
     bnd (on_store workspace_state) (\<lambda>ws.
     if ws = RecoveryRequired then ret (upgrade_refused ''recovery_required'' ''recovery'')
     else bnd (gets ru_upgrade_denied) (\<lambda>denied.
     if denied then ret (upgrade_refused ''approval_denied'' ''denied this turn'')
     else
       seq_then (if ag_manages (en_gate E) then ret ()
         else logged E ''approval_requested'' [(''name'', JStr name), (''reason'', JStr (xt_upgrade_reason (en_texts E)))])
       (bnd (ag_upgrade (en_gate E) name args) (\<lambda>allowed.
        seq_then (if ag_manages (en_gate E) then ret ()
          else logged E ''approval_decision'' [(''name'', JStr name), (''allowed'', JBool allowed),
            (''reason'', JStr (xt_upgrade_reason (en_texts E)))])
        (if \<not> allowed then seq_then (modify (\<lambda>s. s\<lparr>ru_upgrade_denied := True\<rparr>))
           (ret (upgrade_refused ''approval_denied'' ''denied''))
         else bnd (on_store read_meta) (\<lambda>meta.
           bnd (lift (py_int (dget_or meta ''workspace_revision'' (JInt 0)))) (\<lambda>revision.
           bnd (upgrade_workspace E (revision + 1)) (\<lambda>failed. case failed of
             Inl r \<Rightarrow> ret r
           | Inr ctx \<Rightarrow> bnd (lift (registry_get (en_bundle E ctx) name)) (\<lambda>t. ts_handler t args)))))))))"

section \<open>A slice\<close>

text \<open>The local variables of the loop.\<close>

record slice_vars =
  vs_steps :: "step_view list"
  vs_repair :: "json list"
  vs_truncation :: "json list"
  vs_failures :: int
  vs_previous :: "(string \<times> string) option"

text \<open>A condition that the user asked to stop, and the slice that ends then.\<close>

definition unless_stopped ::
  "runner_env \<Rightarrow> step_view list \<Rightarrow> (runner_output + 'a) runner_prog \<Rightarrow> (runner_output + 'a) runner_prog" where
  "unless_stopped E steps m = bnd (ask (wo_cancelled (en_world E))) (\<lambda>stop.
     if stop then bnd (terminate_stopped E steps) (\<lambda>r. ret (Inl r)) else m)"

fun run_calls ::
  "runner_env \<Rightarrow> step_view list \<Rightarrow> tool_call list \<Rightarrow> (runner_output + step_view list) runner_prog" where
  "run_calls E steps [] = ret (Inr steps)"
| "run_calls E steps (c # calls) =
     unless_stopped E steps
       (bnd (gets (active_tools E)) (\<lambda>reg.
        bnd (handle_tool_call (en_world E) (en_gate E) reg c) (\<lambda>step.
        unless_stopped E (steps @ [step]) (run_calls E (steps @ [step]) calls))))"

definition caps_of :: "model_config \<Rightarrow> capabilities" where
  "caps_of c = default_capabilities\<lparr>cap_context_limit := model_context_limit c,
     cap_generation_reserve := (case mc_max_tokens c of None \<Rightarrow> 4000 | Some n \<Rightarrow> if n = 0 then 4000 else n)\<rparr>"

definition main_request :: "model_config \<Rightarrow> registry \<Rightarrow> json list \<Rightarrow> bool \<Rightarrow> model_request" where
  "main_request c reg messages recovering = \<lparr>mq_messages = messages, mq_tools = as_model_tools reg,
     mq_tool_choice = ''auto'', mq_model = Some (resolved_model c), mq_temperature = mc_temperature c,
     mq_max_tokens = mc_max_tokens c, mq_purpose = ''main_agent'', mq_effort = main_request_effort c recovering\<rparr>"

text \<open>Going on after a truncated answer.\<close>

definition after_truncation :: "runner_env \<Rightarrow> slice_vars \<Rightarrow> slice_vars" where
  "after_truncation E v = v\<lparr>vs_truncation := [system_message (xt_truncation_control (en_texts E))], vs_repair := [],
     vs_failures := 0, vs_previous := None\<rparr>"

definition truncated_step ::
  "runner_env \<Rightarrow> slice_vars \<Rightarrow> string option \<Rightarrow> string option \<Rightarrow> string option \<Rightarrow> string \<Rightarrow> int
     \<Rightarrow> (runner_output + slice_vars) runner_prog" where
  "truncated_step E v reply reasoning finish detection limit =
     bnd (record_output_truncation E (vs_steps v) reply reasoning finish detection limit) (\<lambda>ended. case ended of
       Some r \<Rightarrow> ret (Inl r) | None \<Rightarrow> ret (Inr (after_truncation E v)))"

text \<open>The model's tool arguments were not JSON.\<close>

definition malformed_step ::
  "runner_env \<Rightarrow> slice_vars \<Rightarrow> malformed_arguments \<Rightarrow> int \<Rightarrow> (runner_output + slice_vars) runner_prog" where
  "malformed_step E v m limit =
     (if ma_finish m = Some ''length''
      then truncated_step E v (ma_text m) (ma_reasoning m) (ma_finish m) ''provider_finish_reason'' limit
      else let failures = vs_failures v + 1; fingerprint = (ma_tool m, ma_raw m) in
        seq_then (logged E ''model_protocol_error''
          [(''tool'', JStr (ma_tool m)), (''message'', JStr (ma_message m)), (''line'', JInt (ma_line m)),
           (''column'', JInt (ma_column m)), (''attempt'', JInt failures)])
        (if 3 < failures \<or> vs_previous v = Some fingerprint
         then let said = xt_malformed (en_texts E) (ma_tool m) in
           seq_then (logged E ''assistant_message'' [(''message'', JStr said)])
           (bnd store_events (\<lambda>es. ret (Inl (outcome ''completed'' said (vs_steps v) (steps_used es)))))
         else ret (Inr (v\<lparr>vs_failures := failures, vs_previous := Some fingerprint,
           vs_repair := vs_repair v @ [system_message (xt_repair (en_texts E) (ma_tool m) (ma_message m)
             (show_int (ma_line m)) (show_int (ma_column m)))]\<rparr>))))"

definition reasoning_field :: "string option \<Rightarrow> dict" where
  "reasoning_field r = (case r of None \<Rightarrow> [] | Some m \<Rightarrow> [(''reasoning_content'', JStr m)])"

definition final_step :: "runner_env \<Rightarrow> slice_vars \<Rightarrow> llm_response \<Rightarrow> (runner_output + slice_vars) runner_prog" where
  "final_step E v r =
     (let final = (case lr_text r of None \<Rightarrow> [] | Some m \<Rightarrow> m) in
      seq_then (logged E ''assistant_message'' ([(''message'', JStr final)] @ reasoning_field (lr_reasoning r)))
      (bnd store_events (\<lambda>es. ret (Inl (outcome ''completed'' final (vs_steps v) (steps_used es))))))"

definition tool_step :: "runner_env \<Rightarrow> slice_vars \<Rightarrow> llm_response \<Rightarrow> (runner_output + slice_vars) runner_prog" where
  "tool_step E v r =
     seq_then (logged E ''assistant_tool_calls''
       ([(''message'', JStr (case lr_text r of None \<Rightarrow> [] | Some m \<Rightarrow> m)),
         (''tool_calls'', JArr (map call_dump (lr_calls r)))] @ reasoning_field (lr_reasoning r)))
     (bnd (run_calls E (vs_steps v) (lr_calls r)) (\<lambda>x. case x of
        Inl ended \<Rightarrow> ret (Inl ended)
      | Inr steps \<Rightarrow> ret (Inr (v\<lparr>vs_steps := steps, vs_repair := [], vs_truncation := []\<rparr>))))"

text \<open>The model answered.\<close>

definition answered_step ::
  "runner_env \<Rightarrow> slice_vars \<Rightarrow> model_request \<Rightarrow> llm_response \<Rightarrow> int \<Rightarrow> (runner_output + slice_vars) runner_prog" where
  "answered_step E v req r limit =
     unless_stopped E (vs_steps v)
       (case truncation_detection r req of
          Some detection \<Rightarrow>
            if lr_calls r = [] then truncated_step E v (lr_text r) (lr_reasoning r) (lr_finish r) detection limit
            else tool_step E v r
        | None \<Rightarrow> if lr_calls r = [] then final_step E v r else tool_step E v r)"

text \<open>
  One model step: the context is prepared, the model is asked, and its answer is acted on. The
  fuel of the preparation is never used up.
\<close>

definition model_step ::
  "runner_env \<Rightarrow> json list \<Rightarrow> int \<Rightarrow> slice_vars \<Rightarrow> (runner_output + slice_vars) runner_prog" where
  "model_step E control limit v =
     unless_stopped E (vs_steps v)
     (let w = en_world E; c = en_model E in
      bnd (gets (active_tools E)) (\<lambda>reg. bnd (gets ru_workspace) (\<lambda>ctx.
      bnd (prepare_loop w c (caps_of c)
             (builder_render (wo_sha w) (en_prompts E) (caps_of c) (as_model_tools reg) (en_snapshot E ctx)
                (control @ vs_repair v @ vs_truncation v)) 6 prepare_start) (\<lambda>prepared. case prepared of
        None \<Rightarrow> raise (Exn RuntimeError ''fuel'')
      | Some (PreparedExceeded report reason) \<Rightarrow>
          bnd (terminate_context_budget E (vs_steps v) report reason) (\<lambda>r. ret (Inl r))
      | Some (PreparedReady messages report) \<Rightarrow>
          unless_stopped E (vs_steps v)
          (let req = main_request c reg messages (vs_truncation v \<noteq> []) in
           bnd (ask (\<lambda>n. wo_complete w n req)) (\<lambda>completion. case completion of
             Raised name \<Rightarrow> raise (Exn ModelClientError name)
           | Malformed m \<Rightarrow>
               seq_then (record_model_usage E (ma_usage m) (ma_request_id m) (ma_finish m) (mq_effort req))
               (malformed_step E v m limit)
           | Completed r \<Rightarrow>
               seq_then (record_model_usage E (lr_usage r) (lr_request_id r) (lr_finish r) (mq_effort req))
               (answered_step E v req r limit)))))))"

fun slice_loop ::
  "runner_env \<Rightarrow> json list \<Rightarrow> int \<Rightarrow> nat \<Rightarrow> slice_vars \<Rightarrow> (runner_output + slice_vars) runner_prog" where
  "slice_loop E control limit 0 v = ret (Inr v)"
| "slice_loop E control limit (Suc n) v =
     bnd (model_step E control limit v) (\<lambda>x. case x of
       Inl r \<Rightarrow> ret (Inl r) | Inr v' \<Rightarrow> slice_loop E control limit n v')"

definition finish_slice :: "runner_env \<Rightarrow> int \<Rightarrow> int \<Rightarrow> slice_vars \<Rightarrow> runner_output runner_prog" where
  "finish_slice E slice_limit limit v =
     bnd store_events (\<lambda>es.
     let used = steps_used es in
     if limit \<le> used then wait_for_budget E (vs_steps v) used
     else bnd (on_store read_meta) (\<lambda>meta.
       bnd (lift (py_int (dget_or meta ''candidate_revision'' (JInt 0)))) (\<lambda>revision.
       seq_then (logged E ''execution_slice_exhausted''
         [(''slice_steps'', JInt slice_limit), (''steps_used_in_turn'', JInt used),
          (''max_model_steps_per_user_turn'', JInt limit), (''candidate_revision'', JInt revision),
          (''workspace_state'', dget meta ''workspace_state'')])
       (ret (outcome ''slice_exhausted'' (xt_slice (en_texts E) used limit) (vs_steps v) used)))))"

definition run_slice :: "runner_env \<Rightarrow> runner_output runner_prog" where
  "run_slice E =
     bnd (ask (wo_cancelled (en_world E))) (\<lambda>stop.
     if stop then terminate_stopped E []
     else bnd store_events (\<lambda>es.
       seq_then (modify (\<lambda>s. s\<lparr>ru_upgrade_denied := upgrade_denied_in_turn (en_texts E) es\<rparr>))
       (bnd (lift (continuation_messages E es)) (\<lambda>control.
        bnd (lift (current_turn_budget es (rc_max_model_steps (en_config E)))) (\<lambda>budget.
        let remaining = tb_limit budget - tb_used budget in
        if remaining \<le> 0 then wait_for_budget E [] (tb_used budget)
        else
          let slice_limit = min (rc_max_steps_per_turn (en_config E)) remaining;
              v = \<lparr>vs_steps = [], vs_repair = protocol_continuation (en_texts E) es,
                 vs_truncation = truncation_continuation (en_texts E) es, vs_failures = 0, vs_previous = None\<rparr>
          in bnd (slice_loop E control (tb_limit budget) (nat slice_limit) v) (\<lambda>x. case x of
               Inl r \<Rightarrow> ret r
             | Inr v' \<Rightarrow> finish_slice E slice_limit (tb_limit budget) v'))))))"

definition run_turn :: "runner_env \<Rightarrow> string \<Rightarrow> runner_output runner_prog" where
  "run_turn E said = seq_then (logged E ''user_message''
       [(''message'', JStr said), (''max_model_steps_per_user_turn'', JInt (rc_max_model_steps (en_config E)))])
     (run_slice E)"

definition continue_turn :: "runner_env \<Rightarrow> runner_output runner_prog" where
  "continue_turn E = bnd store_events (\<lambda>es.
     if \<not> has_incomplete_turn es then raise (Exn RuntimeError ''no incomplete turn'') else run_slice E)"

end
