(* ===== verification/Event_Traces.thy ===== *)
theory Event_Traces
  imports Agent_Runner
begin

text \<open>
  What a program of the runner appends to the log: a relation between its result and the events it
  emits, composed along the program. Programs that open no user turn are traced this way.
\<close>

section \<open>Traces\<close>

type_synonym 'a trace_spec = "string option \<Rightarrow> (exn + 'a) \<Rightarrow> session_event list \<Rightarrow> bool"

definition emits :: "'a trace_spec \<Rightarrow> 'a runner_prog \<Rightarrow> bool" where
  "emits L m \<longleftrightarrow> (\<forall>s r s'. log_ok (ru_store s) \<longrightarrow> m s = (r, s') \<longrightarrow>
     log_ok (ru_store s') \<and> (\<exists>es. st_events (ru_store s') = st_events (ru_store s) @ es
       \<and> ''user_message'' \<notin> set (map ev_type es) \<and> L (current_turn (st_events (ru_store s))) r es))"

lemma emitsI:
  assumes "\<And>s r s'. log_ok (ru_store s) \<Longrightarrow> m s = (r, s') \<Longrightarrow>
     log_ok (ru_store s') \<and> (\<exists>es. st_events (ru_store s') = st_events (ru_store s) @ es
       \<and> ''user_message'' \<notin> set (map ev_type es) \<and> L (current_turn (st_events (ru_store s))) r es)"
  shows "emits L m"
  using assms by (auto simp: emits_def)

lemma emitsD:
  assumes "emits L m" and "log_ok (ru_store s)" and "m s = (r, s')"
  obtains es where "log_ok (ru_store s')" and "st_events (ru_store s') = st_events (ru_store s) @ es"
    and "''user_message'' \<notin> set (map ev_type es)" and "L (current_turn (st_events (ru_store s))) r es"
  using assms unfolding emits_def by meson

lemma emits_mono: "emits L m \<Longrightarrow> (\<And>t r es. L t r es \<Longrightarrow> M t r es) \<Longrightarrow> emits M m"
  unfolding emits_def by blast

lemma emits_bnd:
  assumes "emits L m" and "\<And>x. emits (M x) (f x)"
    and "\<And>t e es. L t (Inl e) es \<Longrightarrow> K t (Inl e) es"
    and "\<And>t x r es fs. L t (Inr x) es \<Longrightarrow> M x t r fs \<Longrightarrow> K t r (es @ fs)"
  shows "emits K (bnd m f)"
proof (rule emitsI)
  fix s r s'
  assume ok: "log_ok (ru_store s)" and run: "bnd m f s = (r, s')"
  obtain q s1 where q: "m s = (q, s1)" by fastforce
  obtain es where es: "log_ok (ru_store s1)" "st_events (ru_store s1) = st_events (ru_store s) @ es"
      "''user_message'' \<notin> set (map ev_type es)" "L (current_turn (st_events (ru_store s))) q es"
    using emitsD [OF assms(1) ok q] by blast
  show "log_ok (ru_store s') \<and> (\<exists>es. st_events (ru_store s') = st_events (ru_store s) @ es
       \<and> ''user_message'' \<notin> set (map ev_type es) \<and> K (current_turn (st_events (ru_store s))) r es)"
  proof (cases q)
    case (Inl e)
    with run q es assms(3) show ?thesis by auto
  next
    case (Inr x)
    with run q have "f x s1 = (r, s')" by simp
    then obtain fs where fs: "log_ok (ru_store s')" "st_events (ru_store s') = st_events (ru_store s1) @ fs"
      "''user_message'' \<notin> set (map ev_type fs)" "M x (current_turn (st_events (ru_store s1))) r fs"
      using emitsD [OF assms(2) es(1)] by blast
    have "current_turn (st_events (ru_store s1)) = current_turn (st_events (ru_store s))"
      using es(2,3) by (simp add: current_turn_append_others)
    with es fs Inr assms(4) show ?thesis by (intro conjI exI [of _ "es @ fs"]) auto
  qed
qed

lemma emits_seq:
  assumes "emits L m" and "emits M n"
    and "\<And>t e es. L t (Inl e) es \<Longrightarrow> K t (Inl e) es"
    and "\<And>t x r es fs. L t (Inr x) es \<Longrightarrow> M t r fs \<Longrightarrow> K t r (es @ fs)"
  shows "emits K (seq_then m n)"
  unfolding seq_then_def by (rule emits_bnd [where L = L and M = "\<lambda>_. M"]) (use assms in blast)+

lemma emits_conj:
  assumes "emits L m" and "emits M m"
  shows "emits (\<lambda>t r es. L t r es \<and> M t r es) m"
proof (rule emitsI)
  fix s r s'
  assume ok: "log_ok (ru_store s)" and run: "m s = (r, s')"
  from emitsD [OF assms(1) ok run] obtain es where es: "log_ok (ru_store s')"
    "st_events (ru_store s') = st_events (ru_store s) @ es" "''user_message'' \<notin> set (map ev_type es)"
    "L (current_turn (st_events (ru_store s))) r es" by blast
  from emitsD [OF assms(2) ok run] obtain fs where "st_events (ru_store s') = st_events (ru_store s) @ fs"
    "M (current_turn (st_events (ru_store s))) r fs" by blast
  with es show "log_ok (ru_store s') \<and> (\<exists>es. st_events (ru_store s') = st_events (ru_store s) @ es
       \<and> ''user_message'' \<notin> set (map ev_type es)
       \<and> L (current_turn (st_events (ru_store s))) r es \<and> M (current_turn (st_events (ru_store s))) r es)" by auto
qed

lemma emits_gets_bnd: "(\<And>s. emits L (g (f s))) \<Longrightarrow> emits L (bnd (gets f) g)"
  unfolding emits_def by simp

lemma emits_lift_bnd:
  "(\<And>x. r = Inr x \<Longrightarrow> emits L (f x)) \<Longrightarrow> (\<And>t e. r = Inl e \<Longrightarrow> L t (Inl e) []) \<Longrightarrow> emits L (bnd (lift r) f)"
  unfolding emits_def by (cases r) auto

lemma emits_if: "(b \<Longrightarrow> emits L m) \<Longrightarrow> (\<not> b \<Longrightarrow> emits L n) \<Longrightarrow> emits L (if b then m else n)"
  by simp

subsection \<open>Atomic programs\<close>

definition silent :: "'a trace_spec" where
  "silent t r es \<longleftrightarrow> es = []"

definition silent_ret :: "'a \<Rightarrow> 'a trace_spec" where
  "silent_ret x t r es \<longleftrightarrow> es = [] \<and> r = Inr x"

named_theorems emits_intros \<open>traces of atomic programs\<close>

lemma emits_ret [emits_intros]: "emits (silent_ret x) (ret x)"
  by (auto simp: emits_def silent_ret_def)

lemma emits_raise [emits_intros]: "emits silent (raise e)"
  by (auto simp: emits_def silent_def)

lemma emits_lift [emits_intros]: "emits silent (lift r)"
  by (auto simp: emits_def silent_def)

lemma emits_gets [emits_intros]: "emits silent (gets f)"
  by (auto simp: emits_def silent_def)

lemma emits_ask [emits_intros]: "emits silent (ask f)"
  by (auto simp: emits_def silent_def)

lemma emits_modify [emits_intros]: "(\<And>s. ru_store (f s) = ru_store s) \<Longrightarrow> emits silent (modify f)"
  by (auto simp: emits_def silent_def)

lemma emits_store_events [emits_intros]: "emits silent store_events"
  by (auto simp: emits_def silent_def)

lemma emits_read_meta [emits_intros]: "emits silent (on_store read_meta)"
  by (auto simp: emits_def silent_def on_store_def)

lemma emits_workspace_state [emits_intros]: "emits silent (on_store workspace_state)"
  by (auto simp: emits_def silent_def on_store_def workspace_state_run)

text \<open>One event of type \<open>ty\<close> in the current turn.\<close>

definition one_event :: "string \<Rightarrow> dict \<Rightarrow> 'a trace_spec" where
  "one_event ty payload t r es \<longleftrightarrow> (\<exists>e x. r = Inr x \<and> es = [e] \<and> ev_type e = ty \<and> ev_payload e = payload \<and> ev_turn e = t)"

lemma emits_log_event [emits_intros]:
  "ty \<noteq> ''user_message'' \<Longrightarrow> emits (one_event ty payload) (log_event w ty payload)"
  by (auto simp: emits_def one_event_def run_log_event with_event_ok)

lemma emits_logged [emits_intros]:
  "ty \<noteq> ''user_message'' \<Longrightarrow> emits (one_event ty payload) (logged E ty payload)"
  by (auto simp: emits_def one_event_def logged_def run_log_event with_event_ok)

section \<open>Traces with a bounded number of model steps\<close>

definition within :: "string set \<Rightarrow> nat \<Rightarrow> 'a trace_spec" where
  "within S n t r es \<longleftrightarrow> set (map ev_type es) \<subseteq> S \<and> length (filter is_model_step es) \<le> n
     \<and> (\<forall>e \<in> set es. is_model_step e \<longrightarrow> ev_turn e = t)"

abbreviation bounded :: "string set \<Rightarrow> nat \<Rightarrow> 'a runner_prog \<Rightarrow> bool" where
  "bounded S n m \<equiv> emits (within S n) m"

lemma bounded_bnd:
  "bounded S a m \<Longrightarrow> (\<And>x. bounded S b (f x)) \<Longrightarrow> a + b \<le> n \<Longrightarrow> bounded S n (bnd m f)"
  by (rule emits_bnd [where L = "within S a" and M = "\<lambda>_. within S b"]) (auto simp: within_def)

lemma bounded_seq: "bounded S a m \<Longrightarrow> bounded S b k \<Longrightarrow> a + b \<le> n \<Longrightarrow> bounded S n (seq_then m k)"
  by (rule emits_seq [where L = "within S a" and M = "within S b"]) (auto simp: within_def)

lemma bounded_mono: "bounded S a m \<Longrightarrow> S \<subseteq> T \<Longrightarrow> a \<le> n \<Longrightarrow> bounded T n m"
  by (erule emits_mono) (auto simp: within_def)

lemma bounded_silent: "emits silent m \<Longrightarrow> bounded S n m"
  by (erule emits_mono) (auto simp: within_def silent_def)

lemma bounded_event:
  "emits (one_event ty payload) m \<Longrightarrow> ty \<in> S \<Longrightarrow> (ty \<in> set model_step_types \<Longrightarrow> 1 \<le> n) \<Longrightarrow> bounded S n m"
  by (erule emits_mono) (auto simp: within_def one_event_def is_model_step_def)

text \<open>Atomic programs that log nothing need no bound.\<close>

lemma silent_ret': "emits silent (ret x)"
  by (rule emits_mono [OF emits_ret]) (simp add: silent_def silent_ret_def)

lemmas bounded_atoms = bounded_silent [OF silent_ret'] bounded_silent [OF emits_raise] bounded_silent [OF emits_lift]
  bounded_silent [OF emits_gets] bounded_silent [OF emits_ask] bounded_silent [OF emits_modify]
  bounded_silent [OF emits_store_events] bounded_silent [OF emits_read_meta] bounded_silent [OF emits_workspace_state]

text \<open>Sequencing programs where only the first, or only the second, may take model steps.\<close>

lemma bounded_bnd0: "bounded S 0 m \<Longrightarrow> (\<And>x. bounded S n (f x)) \<Longrightarrow> bounded S n (bnd m f)"
  using bounded_bnd [of S 0 m n f n] by simp

lemma bounded_seq0: "bounded S 0 m \<Longrightarrow> bounded S n k \<Longrightarrow> bounded S n (seq_then m k)"
  using bounded_seq [of S 0 m n k n] by simp

lemma bounded_case_option:
  "bounded S n m \<Longrightarrow> (\<And>x. bounded S n (f x)) \<Longrightarrow> bounded S n (case v of None \<Rightarrow> m | Some x \<Rightarrow> f x)"
  by (cases v) simp_all

lemma bounded_case_sum:
  "(\<And>x. bounded S n (f x)) \<Longrightarrow> (\<And>x. bounded S n (g x)) \<Longrightarrow> bounded S n (case v of Inl x \<Rightarrow> f x | Inr x \<Rightarrow> g x)"
  by (cases v) simp_all

lemma bounded_let: "bounded S n (f v) \<Longrightarrow> bounded S n (Let v f)"
  by simp

lemmas bounded_intros = bounded_bnd0 bounded_seq0 emits_if bounded_case_option bounded_case_sum bounded_let bounded_atoms

text \<open>Programs of the store that only append one event of a given type.\<close>

lemma emits_on_store:
  assumes "\<And>st. log_ok st \<Longrightarrow> log_ok (snd (m st)) \<and> (\<exists>es. st_events (snd (m st)) = st_events st @ es
     \<and> ''user_message'' \<notin> set (map ev_type es) \<and> L (current_turn (st_events st)) (fst (m st)) es)"
  shows "emits L (on_store m)"
proof (rule emitsI)
  fix s r s'
  assume ok: "log_ok (ru_store s)" and run: "on_store m s = (r, s')"
  obtain q st where q: "m (ru_store s) = (q, st)" by fastforce
  with run have "r = q" "ru_store s' = st" by (auto simp: on_store_def)
  with assms [OF ok] q show "log_ok (ru_store s') \<and> (\<exists>es. st_events (ru_store s') = st_events (ru_store s) @ es
       \<and> ''user_message'' \<notin> set (map ev_type es) \<and> L (current_turn (st_events (ru_store s))) r es)" by simp
qed

end
