(* ===== verification/Runner_Bounds.thy ===== *)
theory Runner_Bounds
  imports Event_Traces
begin

text \<open>
  How many model steps an execution slice can take, whatever the model, the tools and the user do:
  the budget of the turn is respected.
\<close>

section \<open>Tools and gates that take no model step\<close>

text \<open>
  Handlers and gates log events of their own, but none of the events that drive the turn: those
  are the runner's.
\<close>

definition turn_types :: "string list" where
  "turn_types = [''user_message'', ''assistant_tool_calls'', ''assistant_message'', ''model_protocol_error'',
     ''model_output_truncated'', ''tool_result'', ''tool_denied'', ''turn_terminated'', ''turn_budget_exhausted'',
     ''turn_budget_increased'']"

abbreviation side_types :: "string set" where
  "side_types \<equiv> - set turn_types"

definition quiet_tools :: "registry \<Rightarrow> bool" where
  "quiet_tools reg \<longleftrightarrow> (\<forall>t \<in> snd ` set reg. \<forall>args. bounded side_types 0 (ts_handler t args))"

definition quiet_gate :: "approval_gate \<Rightarrow> bool" where
  "quiet_gate gate \<longleftrightarrow> (\<forall>t c. bounded side_types 0 (ag_request gate t c))
     \<and> (\<forall>name args. bounded side_types 0 (ag_upgrade gate name args))"

definition quiet_env :: "runner_env \<Rightarrow> bool" where
  "quiet_env E \<longleftrightarrow> quiet_gate (en_gate E) \<and> quiet_tools (en_tools E) \<and> (\<forall>ctx. quiet_tools (en_bundle E ctx))"

lemma quiet_active: "quiet_env E \<Longrightarrow> quiet_tools (active_tools E s)"
  by (simp add: quiet_env_def active_tools_def split: option.split)

lemma quiet_handler: "quiet_tools reg \<Longrightarrow> registry_get reg name = Inr t \<Longrightarrow> bounded side_types 0 (ts_handler t args)"
  by (force simp: quiet_tools_def registry_get_def split: option.splits dest: map_of_SomeD)

lemma quiet_register:
  assumes "quiet_tools reg" and "\<forall>args. bounded side_types 0 (ts_handler t args)"
  shows "quiet_tools (register t reg)"
proof -
  have "set (register t reg) \<subseteq> insert (ts_name t, t) (set reg)"
    unfolding register_def by (induction reg) auto
  with assms show ?thesis by (fastforce simp: quiet_tools_def)
qed

lemma auto_gate_quiet: "quiet_gate (auto_gate allow)"
  by (simp add: quiet_gate_def auto_gate_def bounded_silent [OF silent_ret'])

lemma console_gate_quiet: "quiet_gate (console_gate tty answer)"
  by (auto simp: quiet_gate_def console_gate_def intro!: bounded_intros)

section \<open>The parts of a model step\<close>

lemma bounded_logged: "ty \<noteq> ''user_message'' \<Longrightarrow> ty \<notin> set model_step_types \<Longrightarrow> bounded UNIV 0 (logged E ty payload)"
  by (rule bounded_event [OF emits_logged]) auto

lemma bounded_logged_step: "ty \<noteq> ''user_message'' \<Longrightarrow> bounded UNIV 1 (logged E ty payload)"
  by (rule bounded_event [OF emits_logged]) auto

lemma bounded_log_event: "ty \<noteq> ''user_message'' \<Longrightarrow> ty \<notin> set model_step_types \<Longrightarrow> bounded UNIV 0 (log_event w ty payload)"
  by (rule bounded_event [OF emits_log_event]) auto

lemma bounded_pair [simp]: "bounded S n (Pair (Inr x))"
  using bounded_silent [OF silent_ret', of S n x] by (simp add: ret_def)

lemmas quiet_intros = bounded_intros bounded_logged bounded_log_event

lemma types_not_step [simp]:
  "''tool_requested'' \<notin> set model_step_types" "''tool_denied'' \<notin> set model_step_types"
  "''tool_result'' \<notin> set model_step_types" "''approval_requested'' \<notin> set model_step_types"
  "''approval_decision'' \<notin> set model_step_types" "''turn_terminated'' \<notin> set model_step_types"
  "''turn_budget_exhausted'' \<notin> set model_step_types" "''model_usage'' \<notin> set model_step_types"
  "''execution_slice_exhausted'' \<notin> set model_step_types"
  by (simp_all add: model_step_types_def)

lemma run_handler_quiet:
  "bounded UNIV 0 (ts_handler t (tc_arguments c)) \<Longrightarrow> bounded UNIV 0 (run_handler w t c d)"
  unfolding run_handler_def by (intro quiet_intros) simp_all

lemma deny_call_quiet: "bounded UNIV 0 (deny_call w c reason code)"
  unfolding deny_call_def by (intro quiet_intros) simp_all

lemma request_approval_quiet: "quiet_gate gate \<Longrightarrow> bounded UNIV 0 (request_approval w gate t c reason)"
  unfolding request_approval_def
  by (intro quiet_intros) (auto simp: quiet_gate_def intro: bounded_mono [where S = side_types])

lemma handle_tool_call_quiet:
  assumes "quiet_gate gate" and "quiet_tools reg"
  shows "bounded UNIV 0 (handle_tool_call w gate reg c)"
proof -
  have h: "bounded UNIV 0 (run_handler w t c d)" if "registry_get reg (tc_name c) = Inr t" for t d
    by (intro run_handler_quiet bounded_mono [OF quiet_handler [OF assms(2) that]]) simp_all
  show ?thesis
    unfolding handle_tool_call_def
    by (cases "registry_get reg (tc_name c)")
      (auto simp: case_prod_beta intro!: quiet_intros deny_call_quiet request_approval_quiet [OF assms(1)] h)
qed

lemma deny_open_calls_quiet: "bounded UNIV 0 (deny_open_calls E answered calls)"
  by (induction calls) (auto intro!: quiet_intros)

lemma close_announcements_quiet: "bounded UNIV 0 (close_announcements E answered es)"
  by (induction es) (auto intro!: quiet_intros deny_open_calls_quiet)

lemma terminate_stopped_quiet: "bounded UNIV 0 (terminate_stopped E steps)"
  unfolding terminate_stopped_def by (intro quiet_intros close_announcements_quiet) simp_all

lemma wait_for_budget_quiet: "bounded UNIV 0 (wait_for_budget E steps used)"
  unfolding wait_for_budget_def Let_def by (intro quiet_intros) simp_all

lemma terminate_context_quiet: "bounded UNIV 0 (terminate_context_budget E steps report reason)"
  unfolding terminate_context_budget_def Let_def by (intro quiet_intros) simp_all

lemma record_usage_quiet: "bounded UNIV 0 (record_model_usage E usage rid finish effort)"
  unfolding record_model_usage_def by (intro quiet_intros) simp_all

lemma prepare_quiet: "bounded UNIV 0 (prepare_loop w c caps (builder_render sha tx caps schemas snapshot transient) 6 prepare_start)"
proof (rule emitsI)
  fix s r s'
  assume "log_ok (ru_store s)"
    and "prepare_loop w c caps (builder_render sha tx caps schemas snapshot transient) 6 prepare_start s = (r, s')"
  from builder.prepare_bounded [OF this] obtain es where es: "log_ok (ru_store s')"
      "st_events (ru_store s') = st_events (ru_store s) @ es" "set (map ev_type es) \<subseteq> set condensation_types"
    by (auto simp: condenses_def)
  have no: "\<forall>e \<in> set es. \<not> is_model_step e" "''user_message'' \<notin> set (map ev_type es)"
    using es(3) by (auto simp: is_model_step_def model_step_types_def condensation_types_def)
  with es show "log_ok (ru_store s') \<and> (\<exists>es. st_events (ru_store s') = st_events (ru_store s) @ es
      \<and> ''user_message'' \<notin> set (map ev_type es) \<and> within UNIV 0 (current_turn (st_events (ru_store s))) r es)"
    by (intro conjI exI [of _ es]) (simp_all add: within_def filter_empty_conv [THEN iffD2, OF no(1)])
qed

section \<open>Model steps of a slice\<close>

text \<open>
  One model step of the loop logs one model-step event, and the message that gives up on
  unreadable tool arguments is one more; the slice ends as completed then.
\<close>

definition closing :: "runner_output \<Rightarrow> nat" where
  "closing out = (if ro_status out = ''completed'' then 1 else 0)"

definition loop_extra :: "(exn + (runner_output + 'a)) \<Rightarrow> nat" where
  "loop_extra r = (case r of Inr (Inl out) \<Rightarrow> closing out | _ \<Rightarrow> 0)"

definition steps_spec :: "nat \<Rightarrow> (runner_output + 'a) trace_spec" where
  "steps_spec n t r es \<longleftrightarrow> length (filter is_model_step es) \<le> n + loop_extra r
     \<and> (\<forall>e \<in> set es. is_model_step e \<longrightarrow> ev_turn e = t)"

lemma steps_of_bounded: "bounded UNIV n m \<Longrightarrow> emits (steps_spec n) m"
  by (erule emits_mono) (auto simp: within_def steps_spec_def)

lemma steps_bnd:
  "bounded UNIV a m \<Longrightarrow> (\<And>x. emits (steps_spec b) (f x)) \<Longrightarrow> a + b \<le> n \<Longrightarrow> emits (steps_spec n) (bnd m f)"
  by (rule emits_bnd [where L = "within UNIV a" and M = "\<lambda>_. steps_spec b"]) (auto simp: within_def steps_spec_def)

lemma steps_bnd0: "bounded UNIV 0 m \<Longrightarrow> (\<And>x. emits (steps_spec n) (f x)) \<Longrightarrow> emits (steps_spec n) (bnd m f)"
  using steps_bnd [of 0 m n f n] by simp

lemma steps_seq0: "bounded UNIV 0 m \<Longrightarrow> emits (steps_spec n) k \<Longrightarrow> emits (steps_spec n) (seq_then m k)"
  unfolding seq_then_def by (rule steps_bnd0)

lemma steps_seq:
  "bounded UNIV a m \<Longrightarrow> emits (steps_spec b) k \<Longrightarrow> a + b \<le> n \<Longrightarrow> emits (steps_spec n) (seq_then m k)"
  unfolding seq_then_def by (rule steps_bnd)

lemma steps_ended: "bounded UNIV n m \<Longrightarrow> emits (steps_spec n) (bnd m (\<lambda>r. ret (Inl r)))"
  by (rule steps_bnd [OF _ steps_of_bounded [OF bounded_silent [OF silent_ret']], of n m 0]) simp_all

lemma completed_closes:
  "emits (steps_spec 0) (seq_then (logged E ''assistant_message'' payload)
     (bnd store_events (\<lambda>es. ret (Inl (outcome ''completed'' said steps (steps_used es))))))"
proof (rule emits_seq [OF emits_logged])
  have "emits (\<lambda>t r es. es = [] \<and> loop_extra r = 1) (bnd store_events (\<lambda>es. ret (Inl (outcome ''completed'' said steps (steps_used es)))))"
    by (auto simp: emits_def loop_extra_def closing_def outcome_def)
  then show "emits (\<lambda>t r es. es = [] \<and> loop_extra r = 1) (bnd store_events (\<lambda>es. ret (Inl (outcome ''completed'' said steps (steps_used es)))))" .
qed (auto simp: one_event_def steps_spec_def)

lemma unless_stopped_steps: "emits (steps_spec n) m \<Longrightarrow> emits (steps_spec n) (unless_stopped E steps m)"
  unfolding unless_stopped_def
  by (intro steps_bnd0 emits_if steps_ended) (auto intro: bounded_atoms bounded_mono [OF terminate_stopped_quiet])

lemma run_calls_steps:
  assumes "quiet_env E" shows "emits (steps_spec 0) (run_calls E steps calls)"
proof (induction calls arbitrary: steps)
  case Nil
  then show ?case by (simp add: steps_of_bounded)
next
  case (Cons c calls)
  have "bounded UNIV 0 (handle_tool_call (en_world E) (en_gate E) (active_tools E s) c)" for s
    using assms by (intro handle_tool_call_quiet quiet_active) (simp_all add: quiet_env_def)
  then have "emits (steps_spec 0) (bnd (gets (active_tools E)) (\<lambda>reg.
        bnd (handle_tool_call (en_world E) (en_gate E) reg c) (\<lambda>step.
        unless_stopped E (steps @ [step]) (run_calls E (steps @ [step]) calls))))"
    by (intro emits_gets_bnd steps_bnd0 unless_stopped_steps Cons.IH)
  then show ?case by (simp add: unless_stopped_steps)
qed

lemma steps_after_calls:
  assumes "quiet_env E"
  shows "emits (steps_spec 0) (bnd (run_calls E steps calls) (\<lambda>x. case x of
     Inl out \<Rightarrow> ret (Inl out) | Inr steps' \<Rightarrow> ret (Inr (f steps'))))"
  by (rule emits_bnd [OF run_calls_steps [OF assms], where M = "\<lambda>x. case x of Inl out \<Rightarrow> silent_ret (Inl out)
      | Inr s \<Rightarrow> silent_ret (Inr (f s))"])
    (auto simp: steps_spec_def silent_ret_def loop_extra_def emits_ret split: sum.splits)

lemma truncated_step_steps: "emits (steps_spec 1) (truncated_step E v reply reasoning finish detection limit)"
proof -
  have "bounded UNIV 1 (record_output_truncation E (vs_steps v) reply reasoning finish detection limit)"
    unfolding record_output_truncation_def Let_def
    by (intro bounded_bnd0 bounded_seq [OF bounded_logged_step, where b = 0])
      (auto intro!: quiet_intros wait_for_budget_quiet)
  then show ?thesis
    unfolding truncated_step_def
    by (rule steps_bnd [where b = 0]) (auto intro: steps_of_bounded bounded_silent [OF silent_ret'] split: option.split)
qed

lemma malformed_step_steps: "emits (steps_spec 1) (malformed_step E v m limit)"
  unfolding malformed_step_def Let_def
  by (intro emits_if truncated_step_steps steps_seq [OF bounded_logged_step, where b = 0] completed_closes)
    (auto intro: steps_of_bounded bounded_silent [OF silent_ret'])

lemma final_step_steps: "emits (steps_spec 1) (final_step E v r)"
  unfolding final_step_def Let_def
  by (rule emits_mono [OF completed_closes]) (auto simp: steps_spec_def)

lemma tool_step_steps: "quiet_env E \<Longrightarrow> emits (steps_spec 1) (tool_step E v r)"
  unfolding tool_step_def
  by (intro steps_seq [OF bounded_logged_step, where b = 0] steps_after_calls) simp_all

lemma answered_step_steps: "quiet_env E \<Longrightarrow> emits (steps_spec 1) (answered_step E v req r limit)"
  unfolding answered_step_def
  by (intro unless_stopped_steps)
    (auto simp del: One_nat_def split: option.split intro: truncated_step_steps tool_step_steps final_step_steps)

lemma model_step_steps:
  assumes "quiet_env E" shows "emits (steps_spec 1) (model_step E control limit v)"
proof -
  have "emits (steps_spec 1) (case x of
        None \<Rightarrow> raise (Exn RuntimeError ''fuel'')
      | Some (PreparedExceeded report reason) \<Rightarrow>
          bnd (terminate_context_budget E (vs_steps v) report reason) (\<lambda>r. ret (Inl r))
      | Some (PreparedReady messages report) \<Rightarrow>
          unless_stopped E (vs_steps v)
          (let req = main_request (en_model E) reg messages (vs_truncation v \<noteq> []) in
           bnd (ask (\<lambda>n. wo_complete (en_world E) n req)) (\<lambda>completion. case completion of
             Raised name \<Rightarrow> raise (Exn ModelClientError name)
           | Malformed m \<Rightarrow>
               seq_then (record_model_usage E (ma_usage m) (ma_request_id m) (ma_finish m) (mq_effort req))
               (malformed_step E v m limit)
           | Completed r \<Rightarrow>
               seq_then (record_model_usage E (lr_usage r) (lr_request_id r) (lr_finish r) (mq_effort req))
               (answered_step E v req r limit))))" for x reg
    by (auto simp del: One_nat_def split: option.split prepared.split completion.split simp: Let_def
        intro!: unless_stopped_steps steps_bnd0 steps_seq0 bounded_atoms record_usage_quiet malformed_step_steps
          answered_step_steps [OF assms] steps_of_bounded [OF bounded_silent [OF emits_raise]]
          steps_ended [OF bounded_mono [OF terminate_context_quiet]])
  then show ?thesis
    unfolding model_step_def Let_def
    by (intro unless_stopped_steps emits_gets_bnd steps_bnd0 [OF prepare_quiet])
qed

lemma slice_loop_steps:
  assumes "quiet_env E" shows "emits (steps_spec n) (slice_loop E control limit n v)"
proof (induction n arbitrary: v)
  case 0
  then show ?case by (simp add: steps_of_bounded)
next
  case (Suc n)
  show ?case
    unfolding slice_loop.simps
  proof (rule emits_bnd [where L = "steps_spec 1"
        and M = "\<lambda>x. case x of Inl out \<Rightarrow> silent_ret (Inl out) | Inr v' \<Rightarrow> steps_spec n"])
    show "emits (steps_spec 1) (model_step E control limit v)" by (rule model_step_steps [OF assms])
  qed (auto simp: steps_spec_def silent_ret_def loop_extra_def Suc.IH emits_ret split: sum.splits)
qed

definition slice_size :: "runner_env \<Rightarrow> turn_budget \<Rightarrow> nat" where
  "slice_size E b = nat (min (rc_max_steps_per_turn (en_config E)) (tb_limit b - tb_used b))"

text \<open>The whole slice, once the stop request was asked for and the log read.\<close>

definition out_extra :: "(exn + runner_output) \<Rightarrow> nat" where
  "out_extra r = (case r of Inr out \<Rightarrow> closing out | Inl e \<Rightarrow> 0)"

definition out_spec :: "nat \<Rightarrow> runner_output trace_spec" where
  "out_spec n t r es \<longleftrightarrow> length (filter is_model_step es) \<le> n + out_extra r
     \<and> (\<forall>e \<in> set es. is_model_step e \<longrightarrow> ev_turn e = t)"

lemma out_of_bounded: "bounded UNIV 0 m \<Longrightarrow> emits (out_spec n) m"
  by (erule emits_mono) (auto simp: within_def out_spec_def)

lemma out_bnd0: "bounded UNIV 0 m \<Longrightarrow> (\<And>x. emits (out_spec n) (f x)) \<Longrightarrow> emits (out_spec n) (bnd m f)"
  by (rule emits_bnd [where L = "within UNIV 0" and M = "\<lambda>_. out_spec n"])
    (auto simp: within_def out_spec_def out_extra_def)

lemma out_seq0: "bounded UNIV 0 m \<Longrightarrow> emits (out_spec n) k \<Longrightarrow> emits (out_spec n) (seq_then m k)"
  unfolding seq_then_def by (rule out_bnd0)

lemma finish_slice_quiet: "bounded UNIV 0 (finish_slice E sz limit v)"
  unfolding finish_slice_def Let_def by (intro quiet_intros wait_for_budget_quiet) simp_all

lemma loop_out:
  assumes "quiet_env E"
  shows "emits (out_spec n) (bnd (slice_loop E control limit n v) (\<lambda>x. case x of
     Inl r \<Rightarrow> ret r | Inr v' \<Rightarrow> finish_slice E sz limit v'))"
  by (rule emits_bnd [OF slice_loop_steps [OF assms], where M = "\<lambda>x. case x of Inl out \<Rightarrow> silent_ret out
      | Inr v' \<Rightarrow> within UNIV 0"])
    (auto simp: steps_spec_def out_spec_def silent_ret_def loop_extra_def out_extra_def within_def emits_ret
      finish_slice_quiet split: sum.splits)

lemma run_slice_steps:
  assumes quiet: "quiet_env E" and ok: "log_ok (ru_store s)" and run: "run_slice E s = (r, s')"
    and budget: "current_turn_budget (st_events (ru_store s)) (rc_max_model_steps (en_config E)) = Inr b"
  obtains es where "log_ok (ru_store s')" and "st_events (ru_store s') = st_events (ru_store s) @ es"
    and "''user_message'' \<notin> set (map ev_type es)"
    and "out_spec (slice_size E b) (current_turn (st_events (ru_store s))) r es"
proof -
  define s1 where "s1 = s\<lparr>ru_clock := Suc (ru_clock s)\<rparr>"
  have ok1: "log_ok (ru_store s1)" using ok by (simp add: s1_def)
  define rest where "rest = (if wo_cancelled (en_world E) (ru_clock s) then terminate_stopped E []
     else seq_then (modify (\<lambda>s. s\<lparr>ru_upgrade_denied := upgrade_denied_in_turn (en_texts E) (st_events (ru_store s1))\<rparr>))
       (bnd (lift (continuation_messages E (st_events (ru_store s1)))) (\<lambda>control.
        let remaining = tb_limit b - tb_used b in
        if remaining \<le> 0 then wait_for_budget E [] (tb_used b)
        else
          let slice_limit = min (rc_max_steps_per_turn (en_config E)) remaining;
              v = \<lparr>vs_steps = [], vs_repair = protocol_continuation (en_texts E) (st_events (ru_store s1)),
                 vs_truncation = truncation_continuation (en_texts E) (st_events (ru_store s1)), vs_failures = 0, vs_previous = None\<rparr>
          in bnd (slice_loop E control (tb_limit b) (nat slice_limit) v) (\<lambda>x. case x of
               Inl r \<Rightarrow> ret r
             | Inr v' \<Rightarrow> finish_slice E slice_limit (tb_limit b) v'))))"
  have "rest s1 = (r, s')"
    using run budget by (auto simp: run_slice_def rest_def s1_def Let_def bnd_def lift_def split: sum.splits if_splits)
  moreover have "emits (out_spec (slice_size E b)) rest"
    unfolding rest_def Let_def slice_size_def
    by (intro emits_if out_of_bounded [OF terminate_stopped_quiet] out_seq0 loop_out [OF quiet] out_bnd0
        out_of_bounded [OF wait_for_budget_quiet]) (auto intro!: bounded_atoms)
  ultimately obtain es where "log_ok (ru_store s')" "st_events (ru_store s') = st_events (ru_store s1) @ es"
      "''user_message'' \<notin> set (map ev_type es)"
      "out_spec (slice_size E b) (current_turn (st_events (ru_store s1))) r es"
    using emitsD [OF _ ok1] by blast
  then show thesis using that [of es] by (simp add: s1_def)
qed

end
