(* ===== verification/Runner_Protocol.thy ===== *)
theory Runner_Protocol
  imports Runner_Bounds
begin

text \<open>
  The tool protocol of the runner: every requested call gets one outcome, a stop closes the calls
  that are still open, and what the slice reports about the turn is what its log says.
\<close>

section \<open>One outcome per call\<close>

definition outcome_types :: "string list" where
  "outcome_types = [''tool_result'', ''tool_denied'']"

definition no_outcome :: "'a trace_spec" where
  "no_outcome t r es \<longleftrightarrow> (\<forall>e \<in> set es. ev_type e \<notin> set outcome_types)"

text \<open>The last event is the outcome of the call; it is a result exactly when the call was not denied.\<close>

definition one_outcome :: "tool_call \<Rightarrow> step_view trace_spec" where
  "one_outcome c t r es \<longleftrightarrow> (\<forall>step. r = Inr step \<longrightarrow> (\<exists>mid e. es = mid @ [e]
     \<and> (\<forall>x \<in> set mid. ev_type x \<notin> set outcome_types) \<and> ev_turn e = t
     \<and> ev_type e = (if sv_decision step = ''deny'' then ''tool_denied'' else ''tool_result'')
     \<and> dget (ev_payload e) ''call_id'' = JStr (tc_id c) \<and> dget (ev_payload e) ''result'' = result_dump (sv_result step)))"

lemma outcome_after:
  assumes "emits no_outcome m" and "\<And>x. emits (one_outcome c) (f x)"
  shows "emits (one_outcome c) (bnd m f)"
proof (rule emits_bnd [OF assms])
  fix t x r es fs
  assume "no_outcome t (Inr x) es" and "one_outcome c t r fs"
  then show "one_outcome c t r (es @ fs)"
  proof (unfold one_outcome_def, intro allI impI)
    fix step assume "r = Inr step"
    with \<open>one_outcome c t r fs\<close> obtain mid e where "fs = mid @ [e]"
      and "\<forall>x \<in> set mid. ev_type x \<notin> set outcome_types" "ev_turn e = t"
        "ev_type e = (if sv_decision step = ''deny'' then ''tool_denied'' else ''tool_result'')"
        "dget (ev_payload e) ''call_id'' = JStr (tc_id c)" "dget (ev_payload e) ''result'' = result_dump (sv_result step)"
      unfolding one_outcome_def by blast
    with \<open>no_outcome t (Inr x) es\<close> show "\<exists>mid e. es @ fs = mid @ [e] \<and> (\<forall>x \<in> set mid. ev_type x \<notin> set outcome_types)
       \<and> ev_turn e = t \<and> ev_type e = (if sv_decision step = ''deny'' then ''tool_denied'' else ''tool_result'')
       \<and> dget (ev_payload e) ''call_id'' = JStr (tc_id c) \<and> dget (ev_payload e) ''result'' = result_dump (sv_result step)"
      by (intro exI [of _ "es @ mid"] exI [of _ e]) (auto simp: no_outcome_def)
  qed
qed (simp add: one_outcome_def)

lemma outcome_after_seq: "emits no_outcome m \<Longrightarrow> emits (one_outcome c) k \<Longrightarrow> emits (one_outcome c) (seq_then m k)"
  unfolding seq_then_def by (rule outcome_after)

lemma no_outcome_silent: "emits silent m \<Longrightarrow> emits no_outcome m"
  by (erule emits_mono) (simp add: silent_def no_outcome_def)

lemma no_outcome_event: "ty \<noteq> ''user_message'' \<Longrightarrow> ty \<notin> set outcome_types \<Longrightarrow> emits no_outcome (log_event w ty payload)"
  by (rule emits_mono [OF emits_log_event]) (auto simp: one_event_def no_outcome_def)

lemma no_outcome_bnd: "emits no_outcome m \<Longrightarrow> (\<And>x. emits no_outcome (f x)) \<Longrightarrow> emits no_outcome (bnd m f)"
  by (rule emits_bnd [where L = no_outcome and M = "\<lambda>_. no_outcome"]) (auto simp: no_outcome_def)

lemma no_outcome_seq: "emits no_outcome m \<Longrightarrow> emits no_outcome k \<Longrightarrow> emits no_outcome (seq_then m k)"
  unfolding seq_then_def by (rule no_outcome_bnd)

lemmas no_outcome_intros = no_outcome_bnd no_outcome_seq emits_if no_outcome_event no_outcome_silent [OF silent_ret']

text \<open>Logging the outcome and returning the step.\<close>

lemma logged_outcome:
  assumes "ty = (if sv_decision step = ''deny'' then ''tool_denied'' else ''tool_result'')"
    and "dget payload ''call_id'' = JStr (tc_id c)" and "dget payload ''result'' = result_dump (sv_result step)"
  shows "emits (one_outcome c) (seq_then (log_event w ty payload) (ret step))"
proof (rule emits_seq [OF emits_log_event emits_ret])
  show "ty \<noteq> ''user_message''" using assms(1) by simp
qed (use assms in \<open>auto simp: one_event_def silent_ret_def one_outcome_def\<close>)

lemma quiet_no_outcome: "bounded side_types 0 m \<Longrightarrow> emits no_outcome m"
  by (erule emits_mono) (auto simp: within_def no_outcome_def outcome_types_def turn_types_def)

lemma deny_call_outcome: "emits (one_outcome c) (deny_call w c reason code)"
  unfolding deny_call_def Let_def
  by (rule logged_outcome) (simp_all add: step_of_call_def denied_event_payload_def call_head_def)

lemma decision_not_deny: "d \<noteq> Deny \<Longrightarrow> decision_value d \<noteq> ''deny''"
  by (cases d) (simp_all add: decision_value_def)

lemma run_handler_outcome:
  assumes "emits no_outcome (ts_handler t (tc_arguments c))" and "d \<noteq> Deny"
  shows "emits (one_outcome c) (run_handler w t c d)"
  unfolding run_handler_def
  by (intro outcome_after assms(1) logged_outcome)
    (simp_all add: step_of_call_def result_event_payload_def call_fields_def call_head_def decision_not_deny [OF assms(2)])

lemma request_approval_no_outcome: "quiet_gate gate \<Longrightarrow> emits no_outcome (request_approval w gate t c reason)"
  unfolding request_approval_def
  by (intro no_outcome_intros) (auto simp: quiet_gate_def outcome_types_def intro: quiet_no_outcome)

lemma handle_tool_call_outcome:
  assumes "quiet_gate gate" and "quiet_tools reg"
  shows "emits (one_outcome c) (handle_tool_call w gate reg c)"
proof -
  have req: "emits no_outcome (log_event w ''tool_requested'' (call_fields c))"
    by (rule no_outcome_event) (simp_all add: outcome_types_def)
  show ?thesis
  proof (cases "registry_get reg (tc_name c)")
    case (Inl e)
    show ?thesis
      unfolding handle_tool_call_def Let_def Inl sum.case
      by (intro outcome_after_seq req logged_outcome) (simp_all add: step_of_call_def call_head_def)
  next
    case (Inr t)
    then have h: "emits no_outcome (ts_handler t (tc_arguments c))"
      by (rule quiet_no_outcome [OF quiet_handler [OF assms(2)]])
    show ?thesis
      unfolding handle_tool_call_def Inr sum.case case_prod_beta
      by (intro outcome_after_seq req emits_if)
        (auto intro!: emits_if deny_call_outcome run_handler_outcome [OF h] outcome_after
          request_approval_no_outcome [OF assms(1)])
  qed
qed

section \<open>A stop closes the protocol\<close>

definition answered_by :: "session_event list \<Rightarrow> string option \<Rightarrow> json \<Rightarrow> bool" where
  "answered_by es t cid \<longleftrightarrow> (\<exists>e \<in> set es. ev_type e \<in> set outcome_types \<and> ev_turn e = t \<and> dget (ev_payload e) ''call_id'' = cid)"

lemma answered_by_append [simp]: "answered_by (es @ fs) t cid \<longleftrightarrow> answered_by es t cid \<or> answered_by fs t cid"
  by (auto simp: answered_by_def)

definition all_answered :: "json list \<Rightarrow> json list \<Rightarrow> 'a trace_spec" where
  "all_answered answered calls t r es \<longleftrightarrow> (\<forall>u. r = Inr u \<longrightarrow> (\<forall>call \<in> set calls.
     \<exists>cid. subscript call ''call_id'' = Inr cid \<and> (cid \<in> set answered \<or> answered_by es t cid)))"

definition closing_trace :: "json list \<Rightarrow> json \<Rightarrow> 'a trace_spec" where
  "closing_trace answered cid t r es \<longleftrightarrow> (\<forall>u. r = Inr u \<longrightarrow> cid \<in> set answered \<or> answered_by es t cid)"

lemma deny_one_call:
  "emits (closing_trace answered cid) (if cid \<in> set answered then ret ()
     else bnd (lift (subscript call ''name'')) (\<lambda>name.
       logged E ''tool_denied'' [(''call_id'', cid), (''name'', name), (''reason'', JStr ''user_stop'')]))"
proof (rule emits_if)
  assume "cid \<in> set answered"
  then show "emits (closing_trace answered cid) (ret ())"
    by (auto simp: emits_def closing_trace_def)
next
  show "emits (closing_trace answered cid) (bnd (lift (subscript call ''name'')) (\<lambda>name.
       logged E ''tool_denied'' [(''call_id'', cid), (''name'', name), (''reason'', JStr ''user_stop'')]))"
    by (rule emits_lift_bnd, rule emits_mono [OF emits_logged])
      (auto simp: closing_trace_def one_event_def answered_by_def outcome_types_def)
qed

lemma deny_open_calls_answers: "emits (all_answered answered calls) (deny_open_calls E answered calls)"
proof (induction calls)
  case Nil
  then show ?case by (auto simp: emits_def all_answered_def)
next
  case (Cons call calls)
  show ?case
    unfolding deny_open_calls.simps
  proof (rule emits_lift_bnd)
    fix cid assume "subscript call ''call_id'' = Inr cid"
    then show "emits (all_answered answered (call # calls))
      (seq_then (if cid \<in> set answered then ret ()
       else bnd (lift (subscript call ''name'')) (\<lambda>name.
         logged E ''tool_denied'' [(''call_id'', cid), (''name'', name), (''reason'', JStr ''user_stop'')]))
      (deny_open_calls E answered calls))"
      by (intro emits_seq [OF deny_one_call [of answered cid call] Cons.IH])
        (auto simp: all_answered_def closing_trace_def)
  qed (simp add: all_answered_def)
qed

definition announcements_answered :: "json list \<Rightarrow> session_event list \<Rightarrow> 'a trace_spec" where
  "announcements_answered answered as t r es \<longleftrightarrow> (\<forall>u. r = Inr u \<longrightarrow> (\<forall>a \<in> set as.
     \<exists>calls. iterate (dget_or (ev_payload a) ''tool_calls'' (JArr [])) = Inr calls \<and> (\<forall>call \<in> set calls.
       \<exists>cid. subscript call ''call_id'' = Inr cid \<and> (cid \<in> set answered \<or> answered_by es t cid))))"

lemma close_announcements_answers: "emits (announcements_answered answered as) (close_announcements E answered as)"
proof (induction as)
  case Nil
  then show ?case by (auto simp: emits_def announcements_answered_def)
next
  case (Cons a as)
  show ?case
    unfolding close_announcements.simps
  proof (rule emits_lift_bnd)
    fix calls assume "iterate (dget_or (ev_payload a) ''tool_calls'' (JArr [])) = Inr calls"
    then show "emits (announcements_answered answered (a # as))
      (seq_then (deny_open_calls E answered calls) (close_announcements E answered as))"
      by (intro emits_seq [OF deny_open_calls_answers Cons.IH])
        (fastforce simp: all_answered_def announcements_answered_def)+
  qed (simp add: announcements_answered_def)
qed

definition stop_types :: "string set" where
  "stop_types = {''tool_denied'', ''turn_terminated''}"

lemma stop_logged: "ty \<in> stop_types \<Longrightarrow> bounded stop_types 0 (logged E ty payload)"
  by (rule bounded_event [OF emits_logged]) (auto simp: stop_types_def)

lemma deny_open_calls_types: "bounded stop_types 0 (deny_open_calls E answered calls)"
  using stop_logged [of "''tool_denied''" E] by (induction calls) (auto intro!: bounded_intros simp: stop_types_def)

lemma close_announcements_types: "bounded stop_types 0 (close_announcements E answered as)"
  by (induction as) (auto intro!: bounded_intros deny_open_calls_types)

lemma in_turn_append: "''user_message'' \<notin> set (map ev_type fs) \<Longrightarrow> in_turn (es @ fs) = in_turn es"
  by (rule ext) (simp add: in_turn_def current_turn_append_others)

lemma announcements_append:
  assumes "set (map ev_type fs) \<subseteq> stop_types"
  shows "announcements (es @ fs) = announcements es"
proof -
  have "\<forall>e \<in> set fs. ev_type e \<noteq> ''assistant_tool_calls''" "''user_message'' \<notin> set (map ev_type fs)"
    using assms by (auto simp: stop_types_def)
  then show ?thesis by (simp add: announcements_def in_turn_append filter_empty_conv)
qed

lemma answered_calls_iff: "cid \<in> set (answered_calls es) \<longleftrightarrow> answered_by es (current_turn es) cid"
  by (auto simp: answered_calls_def answered_by_def in_turn_def outcome_types_def)

text \<open>What a stop that returns leaves behind.\<close>

lemma terminate_stopped_closes:
  assumes ok: "log_ok (ru_store s)" and run: "terminate_stopped E steps s = (Inr out, s')"
  obtains es last where "log_ok (ru_store s')" and "st_events (ru_store s') = st_events (ru_store s) @ es @ [last]"
    and "ev_type last = ''turn_terminated''" and "ev_turn last = current_turn (st_events (ru_store s))"
    and "set (map ev_type es) \<subseteq> stop_types"
    and "\<forall>a \<in> set (announcements (st_events (ru_store s))). \<exists>calls. iterate (dget_or (ev_payload a) ''tool_calls'' (JArr [])) = Inr calls
       \<and> (\<forall>call \<in> set calls. \<exists>cid. subscript call ''call_id'' = Inr cid
         \<and> (cid \<in> set (answered_calls (st_events (ru_store s))) \<or> answered_by es (current_turn (st_events (ru_store s))) cid))"
    and "ro_status out = ''stopped''"
proof -
  let ?es = "st_events (ru_store s)"
  let ?payload = "[(''reason'', JStr ''user_stop''), (''message'', JStr (xt_stopped (en_texts E))),
         (''boundary'', JStr ''between_model_or_tool_steps'')]"
  obtain u s1 where c: "close_announcements E (answered_calls ?es) (announcements ?es) s = (Inr u, s1)"
    and r: "seq_then (logged E ''turn_terminated'' ?payload) (bnd store_events (\<lambda>es'. ret (outcome ''stopped''
        (xt_stopped (en_texts E)) steps (steps_used es')))) s1 = (Inr out, s')"
    using run unfolding terminate_stopped_def by (auto simp: seq_then_eq_Inr)
  obtain es where ok1: "log_ok (ru_store s1)" and es: "st_events (ru_store s1) = ?es @ es"
      "''user_message'' \<notin> set (map ev_type es)" "within stop_types 0 (current_turn ?es) (Inr u :: exn + unit) es"
      "announcements_answered (answered_calls ?es) (announcements ?es) (current_turn ?es) (Inr u :: exn + unit) es"
    using emitsD [OF emits_conj [OF close_announcements_types close_announcements_answers] ok c] by blast
  have "logged E ''turn_terminated'' ?payload s1 = (Inr (), s1\<lparr>ru_clock := Suc (ru_clock s1),
      ru_store := with_event (wo_now (en_world E) (ru_clock s1)) ''turn_terminated'' ?payload (ru_store s1)\<rparr>)"
    by (simp add: logged_def run_log_event [OF ok1])
  with r have s': "ru_store s' = with_event (wo_now (en_world E) (ru_clock s1)) ''turn_terminated'' ?payload (ru_store s1)"
    and status: "ro_status out = ''stopped''" by (auto simp: outcome_def)
  define last where "last = new_event (wo_now (en_world E) (ru_clock s1)) ''turn_terminated'' ?payload (ru_store s1)"
  have "st_events (ru_store s') = ?es @ es @ [last]" by (simp add: s' es last_def)
  moreover have "ev_type last = ''turn_terminated''" "ev_turn last = current_turn ?es"
    using es(1,2) by (simp_all add: last_def current_turn_append_others)
  moreover have "log_ok (ru_store s')" by (simp add: s' with_event_ok ok1)
  moreover have "set (map ev_type es) \<subseteq> stop_types" using es(3) by (simp add: within_def)
  ultimately show thesis using es(4) status that unfolding announcements_answered_def by blast
qed

section \<open>Waiting for budget is announced once\<close>

lemma last_turn_current: "last_turn es \<noteq> [] \<Longrightarrow> ev_turn (hd (last_turn es)) = current_turn es"
  by (cases "dropWhile (\<lambda>e. \<not> is_user e) (rev es)")
    (simp_all add: last_turn_def current_turn_def find_dropWhile comp_def del: dropWhile_eq_Nil_conv)

lemma last_turn_empty: "last_turn es = [] \<Longrightarrow> current_turn es = None"
  by (cases "dropWhile (\<lambda>e. \<not> is_user e) (rev es)")
    (simp_all add: last_turn_def current_turn_def find_dropWhile comp_def del: dropWhile_eq_Nil_conv)

lemma budget_turn: "current_turn_budget es d = Inr b \<Longrightarrow> tb_turn b = current_turn es"
  using last_turn_current [of es] last_turn_empty [of es]
  by (cases "last_turn es") (auto simp: current_turn_budget_def result_simps Let_def)

text \<open>The event that announces the wait keeps turn and limit of the projection.\<close>

lemma budget_after_wait:
  assumes "current_turn_budget es d = Inr b" and "ev_type e = ''turn_budget_exhausted''"
    and "dindex (ev_payload e) ''max_model_steps_per_user_turn'' = Inr (JInt (tb_limit b))"
  shows "\<exists>b'. current_turn_budget (es @ [e]) d = Inr b' \<and> tb_turn b' = tb_turn b \<and> tb_limit b' = tb_limit b"
proof (cases "last_turn es")
  case Nil
  then have "last_turn (es @ [e]) = []" using assms(2) by (simp add: last_turn_append_other)
  with Nil assms(1) show ?thesis by (auto simp: current_turn_budget_def)
next
  case (Cons first rest)
  from assms(1) Cons obtain l0 where
    l0: "py_int (dget_or (ev_payload first) ''max_model_steps_per_user_turn'' (JInt d)) = Inr l0"
    and l: "rfold limit_step l0 (first # rest) = Inr (tb_limit b)" and b: "tb_turn b = ev_turn first"
    by (auto simp: current_turn_budget_def result_simps Let_def)
  have "last_turn (es @ [e]) = first # (rest @ [e])"
    using Cons assms(2) by (simp add: last_turn_append_other)
  moreover have "rfold limit_step l0 (first # (rest @ [e])) = Inr (tb_limit b)"
    using l assms(2,3) rfold_append [of limit_step l0 "first # rest" "[e]"] by (simp add: limit_step_def)
  ultimately show ?thesis using l0 b by (simp add: current_turn_budget_def Let_def)
qed

lemma wait_for_budget_run:
  assumes ok: "log_ok (ru_store s)"
    and b: "current_turn_budget (st_events (ru_store s)) (rc_max_model_steps (en_config E)) = Inr b"
  shows "\<exists>s'. wait_for_budget E steps used s
      = (Inr (outcome ''model_step_budget_exhausted'' (xt_wait (en_texts E) used (tb_limit b)) steps used), s')
    \<and> log_ok (ru_store s') \<and> (if waits_already b (st_events (ru_store s)) then s' = s
      else \<exists>e. st_events (ru_store s') = st_events (ru_store s) @ [e] \<and> ev_type e = ''turn_budget_exhausted''
        \<and> ev_turn e = tb_turn b
        \<and> dindex (ev_payload e) ''max_model_steps_per_user_turn'' = Inr (JInt (tb_limit b)))"
proof (cases "waits_already b (st_events (ru_store s))")
  case True
  then show ?thesis using ok b by (simp add: wait_for_budget_def Let_def)
next
  case False
  then show ?thesis
    using ok b budget_turn [OF b]
    by (simp add: wait_for_budget_def Let_def logged_def run_log_event with_event_ok dindex_def)
qed

lemma waits_after:
  assumes "ev_type e = ''turn_budget_exhausted''" and "ev_turn e = tb_turn b"
    and "dindex (ev_payload e) ''max_model_steps_per_user_turn'' = Inr (JInt (tb_limit b))"
  shows "waits_already b (es @ [e])"
  using assms by (auto simp: waits_already_def dindex_def dget_or_def split: option.splits)

lemma waits_already_cong: "tb_turn b' = tb_turn b \<Longrightarrow> tb_limit b' = tb_limit b \<Longrightarrow> waits_already b' es = waits_already b es"
  by (simp add: waits_already_def)

section \<open>Truncated output\<close>

lemma consecutive_append:
  assumes "''user_message'' \<notin> set (map ev_type fs)" and "filter is_model_step fs = []"
  shows "consecutive_truncations (es @ fs) = consecutive_truncations es"
proof -
  have "filter (\<lambda>e. P e \<and> is_model_step e) (rev fs) = []" for P
    using assms(2) by (simp add: filter_empty_conv)
  with assms(1) show ?thesis by (simp add: consecutive_truncations_def in_turn_append)
qed

lemma consecutive_truncated:
  assumes "ev_type e = ''model_output_truncated''" and "ev_turn e = current_turn es"
  shows "consecutive_truncations (es @ [e]) = consecutive_truncations es + 1"
proof -
  have "in_turn (es @ [e]) = in_turn es" using assms by (intro in_turn_append) simp
  moreover have "in_turn es e" using assms by (simp add: in_turn_def)
  ultimately show ?thesis
    using assms by (simp add: consecutive_truncations_def is_model_step_def model_step_types_def)
qed

lemma record_truncation_count:
  assumes ok: "log_ok (ru_store s)"
    and run: "record_output_truncation E steps reply reasoning finish detection limit s = (Inr r, s')"
  shows "consecutive_truncations (st_events (ru_store s')) = consecutive_truncations (st_events (ru_store s)) + 1
    \<and> (r = None \<longrightarrow> consecutive_truncations (st_events (ru_store s')) < 3)"
proof -
  let ?es = "st_events (ru_store s)"
  define n where "n = consecutive_truncations ?es + 1"
  define payload where "payload = [(''message'', JStr (case reply of None \<Rightarrow> [] | Some m \<Rightarrow> m)), (''finish_reason'', opt_str finish),
         (''detection'', JStr detection), (''consecutive_count'', JInt n),
         (''max_consecutive_output_truncations'', JInt max_consecutive_truncations)]
        @ (case reasoning of None \<Rightarrow> [] | Some m \<Rightarrow> [(''reasoning_content'', JStr m)])"
  define s1 where "s1 = s\<lparr>ru_clock := Suc (ru_clock s),
      ru_store := with_event (wo_now (en_world E) (ru_clock s)) ''model_output_truncated'' payload (ru_store s)\<rparr>"
  have log1: "logged E ''model_output_truncated'' payload s = (Inr (), s1)"
    by (simp add: logged_def run_log_event [OF ok] s1_def)
  have ok1: "log_ok (ru_store s1)" by (simp add: s1_def with_event_ok ok)
  have n1: "consecutive_truncations (st_events (ru_store s1)) = n"
    by (simp add: s1_def n_def consecutive_truncated)
  define rest where "rest = (let used = steps_used (st_events (ru_store s1)) in
      if limit \<le> used then bnd (wait_for_budget E steps used) (\<lambda>r. ret (Some r))
      else if n < max_consecutive_truncations then ret None
      else let said = xt_truncated (en_texts E) n in
        seq_then (logged E ''turn_terminated''
          [(''reason'', JStr ''output_truncated''), (''message'', JStr said),
           (''consecutive_output_truncations'', JInt n), (''steps_used_in_turn'', JInt used)])
        (ret (Some (outcome ''output_truncated'' said steps used))))"
  have rest: "rest s1 = (Inr r, s')"
    using run log1 unfolding record_output_truncation_def rest_def payload_def n_def by (simp add: Let_def)
  have quiet: "bounded UNIV 0 rest"
    unfolding rest_def Let_def by (intro quiet_intros wait_for_budget_quiet) simp_all
  obtain es where "st_events (ru_store s') = st_events (ru_store s1) @ es" "''user_message'' \<notin> set (map ev_type es)"
      "within UNIV 0 (current_turn (st_events (ru_store s1))) (Inr r :: exn + runner_output option) es"
    using quiet ok1 rest unfolding emits_def by blast
  then have c: "consecutive_truncations (st_events (ru_store s')) = n"
    using n1 by (simp add: consecutive_append within_def)
  moreover have "r = None \<longrightarrow> n < 3"
    using rest by (auto simp: rest_def Let_def max_consecutive_truncations_def bnd_eq_Inr seq_then_eq_Inr split: if_splits)
  ultimately show ?thesis by (simp add: n_def)
qed

end
