(* ===== verification/Runner_Status.thy ===== *)
theory Runner_Status
  imports Runner_Protocol
begin

text \<open>
  The status a slice reports against the log it leaves: a slice that reports a final status has
  closed its turn, and a slice that reports that it can be continued has left the turn open.
\<close>

section \<open>Closing events\<close>

definition final_statuses :: "string list" where
  "final_statuses = [''completed'', ''stopped'', ''context_budget_exceeded'', ''output_truncated'']"

abbreviation open_types :: "string set" where
  "open_types \<equiv> - {''user_message'', ''assistant_message'', ''turn_terminated''}"

definition closed_in :: "session_event list \<Rightarrow> string option \<Rightarrow> bool" where
  "closed_in es t \<longleftrightarrow> (\<exists>e \<in> set es. closes_turn e \<and> ev_turn e = t)"

lemma closed_in_append [simp]: "closed_in (es @ fs) t \<longleftrightarrow> closed_in es t \<or> closed_in fs t"
  by (auto simp: closed_in_def)

lemma closed_in_Nil [simp]: "\<not> closed_in [] t"
  by (simp add: closed_in_def)

lemma open_not_closed: "set (map ev_type es) \<subseteq> open_types \<Longrightarrow> \<not> closed_in es t"
  by (auto simp: closed_in_def closes_turn_def)

text \<open>The log is closed exactly when the slice ended with a final status.\<close>

definition loop_status :: "(runner_output + 'a) trace_spec" where
  "loop_status t r es \<longleftrightarrow> (case r of Inl e \<Rightarrow> True
     | Inr (Inl out) \<Rightarrow> closed_in es t \<longleftrightarrow> ro_status out \<in> set final_statuses
     | Inr (Inr v) \<Rightarrow> \<not> closed_in es t)"

definition out_status :: "runner_output trace_spec" where
  "out_status t r es \<longleftrightarrow> (case r of Inl e \<Rightarrow> True
     | Inr out \<Rightarrow> closed_in es t \<longleftrightarrow> ro_status out \<in> set final_statuses)"

definition quiet_open :: "'a trace_spec" where
  "quiet_open t r es \<longleftrightarrow> \<not> closed_in es t"

lemma open_of_bounded: "bounded S n m \<Longrightarrow> S \<subseteq> open_types \<Longrightarrow> emits quiet_open m"
  by (erule emits_mono) (auto simp: within_def quiet_open_def closed_in_def closes_turn_def)

lemma open_of_silent: "emits silent m \<Longrightarrow> emits quiet_open m"
  by (erule emits_mono) (simp add: silent_def quiet_open_def closed_in_def)

lemma open_event: "ty \<in> open_types \<Longrightarrow> emits quiet_open (logged E ty payload)"
  by (rule emits_mono [OF emits_logged]) (auto simp: one_event_def quiet_open_def closed_in_def closes_turn_def)

lemma open_log_event: "ty \<in> open_types \<Longrightarrow> emits quiet_open (log_event w ty payload)"
  by (rule emits_mono [OF emits_log_event]) (auto simp: one_event_def quiet_open_def closed_in_def closes_turn_def)

lemma open_bnd: "emits quiet_open m \<Longrightarrow> (\<And>x. emits quiet_open (f x)) \<Longrightarrow> emits quiet_open (bnd m f)"
  by (rule emits_bnd [where L = quiet_open and M = "\<lambda>_. quiet_open"]) (auto simp: quiet_open_def)

lemma open_seq: "emits quiet_open m \<Longrightarrow> emits quiet_open k \<Longrightarrow> emits quiet_open (seq_then m k)"
  unfolding seq_then_def by (rule open_bnd)

lemma open_case_option:
  "emits quiet_open m \<Longrightarrow> (\<And>x. emits quiet_open (f x)) \<Longrightarrow> emits quiet_open (case v of None \<Rightarrow> m | Some x \<Rightarrow> f x)"
  by (cases v) simp_all

lemmas open_atoms = open_of_silent [OF silent_ret'] open_of_silent [OF emits_raise] open_of_silent [OF emits_lift]
  open_of_silent [OF emits_gets] open_of_silent [OF emits_ask] open_of_silent [OF emits_modify]
  open_of_silent [OF emits_store_events] open_of_silent [OF emits_read_meta]

lemmas open_intros = open_bnd open_seq emits_if open_case_option open_event open_log_event open_atoms

lemma loop_bnd: "emits quiet_open m \<Longrightarrow> (\<And>x. emits loop_status (f x)) \<Longrightarrow> emits loop_status (bnd m f)"
  by (rule emits_bnd [where L = quiet_open and M = "\<lambda>_. loop_status"])
    (auto simp: quiet_open_def loop_status_def split: sum.splits)

lemma loop_seq: "emits quiet_open m \<Longrightarrow> emits loop_status k \<Longrightarrow> emits loop_status (seq_then m k)"
  unfolding seq_then_def by (rule loop_bnd)

lemma loop_next: "emits loop_status (ret (Inr v))"
  by (rule emits_mono [OF emits_ret]) (simp add: silent_ret_def loop_status_def closed_in_def)

lemma loop_raise: "emits loop_status (raise e)"
  by (auto simp: emits_def loop_status_def)

lemma loop_ended: "emits out_status m \<Longrightarrow> emits loop_status (bnd m (\<lambda>r. ret (Inl r)))"
  by (rule emits_bnd [where L = out_status and M = "\<lambda>r. silent_ret (Inl r)"])
    (auto simp: out_status_def silent_ret_def loop_status_def emits_ret split: sum.splits)

text \<open>Ending the turn with a closing event and a final status.\<close>

lemma ending:
  assumes "ty \<in> {''assistant_message'', ''turn_terminated''}" and "status \<in> set final_statuses"
  shows "emits out_status (seq_then (logged E ty payload) (ret (outcome status said steps used)))"
  by (rule emits_seq [OF emits_logged emits_ret])
    (use assms in \<open>auto simp: one_event_def silent_ret_def out_status_def closed_in_def closes_turn_def outcome_def\<close>)

lemma ending_reading:
  assumes "ty \<in> {''assistant_message'', ''turn_terminated''}" and "status \<in> set final_statuses"
  shows "emits out_status (seq_then (logged E ty payload)
     (bnd store_events (\<lambda>es. ret (outcome status said steps (steps_used es)))))"
proof (rule emits_seq [OF emits_logged])
  show "emits (\<lambda>t r es. es = [] \<and> (\<exists>u. r = Inr (outcome status said steps u)))
      (bnd store_events (\<lambda>es. ret (outcome status said steps (steps_used es))))"
    by (auto simp: emits_def)
qed (use assms in \<open>auto simp: one_event_def out_status_def closed_in_def closes_turn_def outcome_def\<close>)

lemma ending_loop:
  assumes "ty \<in> {''assistant_message'', ''turn_terminated''}" and "status \<in> set final_statuses"
  shows "emits loop_status (seq_then (logged E ty payload)
     (bnd store_events (\<lambda>es. ret (Inl (outcome status said steps (steps_used es))))))"
proof (rule emits_seq [OF emits_logged])
  show "emits (\<lambda>t r es. es = [] \<and> (\<exists>u. r = Inr (Inl (outcome status said steps u))))
      (bnd store_events (\<lambda>es. ret (Inl (outcome status said steps (steps_used es)))))"
    by (auto simp: emits_def)
qed (use assms in \<open>auto simp: one_event_def loop_status_def closed_in_def closes_turn_def outcome_def\<close>)

lemma out_bnd: "emits quiet_open m \<Longrightarrow> (\<And>x. emits out_status (f x)) \<Longrightarrow> emits out_status (bnd m f)"
  by (rule emits_bnd [where L = quiet_open and M = "\<lambda>_. out_status"])
    (auto simp: quiet_open_def out_status_def split: sum.splits)

lemma out_seq: "emits quiet_open m \<Longrightarrow> emits out_status k \<Longrightarrow> emits out_status (seq_then m k)"
  unfolding seq_then_def by (rule out_bnd)

lemma out_open:
  "status \<notin> set final_statuses \<Longrightarrow> emits out_status (ret (outcome status said steps used))"
  by (rule emits_mono [OF emits_ret]) (simp add: silent_ret_def out_status_def closed_in_def outcome_def)

section \<open>The parts of a slice\<close>

lemma deny_open_calls_open: "emits quiet_open (deny_open_calls E answered calls)"
proof (induction calls)
  case Nil
  then show ?case by (auto simp: emits_def quiet_open_def closed_in_def)
next
  case (Cons call calls)
  then show ?case unfolding deny_open_calls.simps by (intro open_intros) simp_all
qed

lemma close_announcements_open: "emits quiet_open (close_announcements E answered as)"
proof (induction as)
  case Nil
  then show ?case by (auto simp: emits_def quiet_open_def closed_in_def)
next
  case (Cons a as)
  then show ?case unfolding close_announcements.simps by (intro open_intros deny_open_calls_open) simp_all
qed

lemma terminate_stopped_status: "emits out_status (terminate_stopped E steps)"
  unfolding terminate_stopped_def
  by (intro out_bnd out_seq close_announcements_open ending_reading open_atoms) (simp_all add: final_statuses_def)

lemma wait_for_budget_status: "emits out_status (wait_for_budget E steps used)"
  unfolding wait_for_budget_def Let_def
  by (intro out_bnd out_seq open_intros out_open) (simp_all add: final_statuses_def)

lemma terminate_context_status: "emits out_status (terminate_context_budget E steps report reason)"
  unfolding terminate_context_budget_def Let_def
  by (intro out_bnd ending open_atoms) (simp_all add: final_statuses_def)

lemma unless_stopped_status: "emits loop_status m \<Longrightarrow> emits loop_status (unless_stopped E steps m)"
  unfolding unless_stopped_def by (intro loop_bnd emits_if loop_ended terminate_stopped_status open_atoms)

lemma quiet_is_open: "bounded side_types 0 m \<Longrightarrow> emits quiet_open m"
  by (erule open_of_bounded) (auto simp: turn_types_def)

lemma handle_tool_call_open:
  assumes "quiet_gate gate" and "quiet_tools reg"
  shows "emits quiet_open (handle_tool_call w gate reg c)"
proof -
  have h: "emits quiet_open (run_handler w t c d)" if "registry_get reg (tc_name c) = Inr t" for t d
    unfolding run_handler_def
    by (intro open_intros quiet_is_open quiet_handler [OF assms(2) that]) simp_all
  have a: "emits quiet_open (request_approval w gate t c reason)" for t reason
    unfolding request_approval_def using assms(1)
    by (intro open_intros quiet_is_open) (auto simp: quiet_gate_def)
  have d: "emits quiet_open (deny_call w c reason code)" for reason code
    unfolding deny_call_def Let_def by (intro open_intros) simp_all
  show ?thesis
    unfolding handle_tool_call_def
    by (cases "registry_get reg (tc_name c)") (auto simp: case_prod_beta Let_def intro!: open_intros h a d)
qed

lemma run_calls_status:
  assumes "quiet_env E" shows "emits loop_status (run_calls E steps calls)"
proof (induction calls arbitrary: steps)
  case Nil
  then show ?case using loop_next [of steps] by (simp add: ret_def)
next
  case (Cons c calls)
  have "emits quiet_open (handle_tool_call (en_world E) (en_gate E) (active_tools E s) c)" for s
    using assms by (intro handle_tool_call_open quiet_active) (simp_all add: quiet_env_def)
  then show ?case
    unfolding run_calls.simps
    by (intro unless_stopped_status emits_gets_bnd loop_bnd Cons.IH)
qed

lemma calls_then_status:
  assumes "quiet_env E"
  shows "emits loop_status (bnd (run_calls E steps calls) (\<lambda>x. case x of
     Inl out \<Rightarrow> ret (Inl out) | Inr steps' \<Rightarrow> ret (Inr (f steps'))))"
  by (rule emits_bnd [OF run_calls_status [OF assms], where M = "\<lambda>x. case x of Inl out \<Rightarrow> silent_ret (Inl out)
      | Inr s \<Rightarrow> silent_ret (Inr (f s))"])
    (auto simp: loop_status_def silent_ret_def emits_ret closed_in_def split: sum.splits)

lemma tool_step_status: "quiet_env E \<Longrightarrow> emits loop_status (tool_step E v r)"
  unfolding tool_step_def by (intro loop_seq open_event calls_then_status) simp_all

lemma final_step_status: "emits loop_status (final_step E v r)"
  unfolding final_step_def Let_def
  by (rule ending_loop) (simp_all add: final_statuses_def)

text \<open>A truncated answer: the turn ends, waits for budget, or goes on.\<close>

definition maybe_status :: "runner_output option trace_spec" where
  "maybe_status t r es \<longleftrightarrow> (case r of Inl e \<Rightarrow> True | Inr None \<Rightarrow> \<not> closed_in es t
     | Inr (Some out) \<Rightarrow> closed_in es t \<longleftrightarrow> ro_status out \<in> set final_statuses)"

lemma maybe_bnd: "emits quiet_open m \<Longrightarrow> (\<And>x. emits maybe_status (f x)) \<Longrightarrow> emits maybe_status (bnd m f)"
  by (rule emits_bnd [where L = quiet_open and M = "\<lambda>_. maybe_status"])
    (auto simp: quiet_open_def maybe_status_def split: sum.splits option.splits)

lemma maybe_seq: "emits quiet_open m \<Longrightarrow> emits maybe_status k \<Longrightarrow> emits maybe_status (seq_then m k)"
  unfolding seq_then_def by (rule maybe_bnd)

lemma maybe_some: "emits out_status m \<Longrightarrow> emits maybe_status (bnd m (\<lambda>r. ret (Some r)))"
  by (rule emits_bnd [where L = out_status and M = "\<lambda>r. silent_ret (Some r)"])
    (auto simp: out_status_def silent_ret_def maybe_status_def emits_ret split: sum.splits)

lemma maybe_none: "emits maybe_status (ret None)"
  by (rule emits_mono [OF emits_ret]) (simp add: silent_ret_def maybe_status_def closed_in_def)

lemma maybe_ending:
  assumes "status \<in> set final_statuses"
  shows "emits maybe_status (seq_then (logged E ''turn_terminated'' payload) (ret (Some (outcome status said steps used))))"
  by (rule emits_seq [OF emits_logged emits_ret])
    (use assms in \<open>auto simp: one_event_def silent_ret_def maybe_status_def closed_in_def closes_turn_def outcome_def\<close>)

lemma record_truncation_status:
  "emits maybe_status (record_output_truncation E steps reply reasoning finish detection limit)"
  unfolding record_output_truncation_def Let_def
  by (intro maybe_seq maybe_none maybe_ending emits_if maybe_some wait_for_budget_status maybe_bnd open_event open_atoms)
    (simp_all add: final_statuses_def)

lemma truncated_step_status: "emits loop_status (truncated_step E v reply reasoning finish detection limit)"
  unfolding truncated_step_def
  by (rule emits_bnd [OF record_truncation_status, where M = "\<lambda>x. case x of Some out \<Rightarrow> silent_ret (Inl out)
      | None \<Rightarrow> silent_ret (Inr (after_truncation E v))"])
    (auto simp: maybe_status_def loop_status_def silent_ret_def emits_ret closed_in_def split: sum.splits option.splits)

lemma malformed_step_status: "emits loop_status (malformed_step E v m limit)"
  unfolding malformed_step_def Let_def
  by (intro emits_if truncated_step_status loop_seq open_event ending_loop loop_next) (simp_all add: final_statuses_def)

lemma answered_step_status: "quiet_env E \<Longrightarrow> emits loop_status (answered_step E v req r limit)"
  unfolding answered_step_def
  by (intro unless_stopped_status)
    (auto split: option.split intro: truncated_step_status tool_step_status final_step_status)

lemma record_usage_open: "emits quiet_open (record_model_usage E usage rid finish effort)"
  unfolding record_model_usage_def by (intro open_intros) simp_all

lemma prepare_open:
  "emits quiet_open (prepare_loop w c caps (builder_render sha tx caps schemas snapshot transient) 6 prepare_start)"
proof (rule emitsI)
  fix s r s'
  assume "log_ok (ru_store s)"
    and "prepare_loop w c caps (builder_render sha tx caps schemas snapshot transient) 6 prepare_start s = (r, s')"
  from builder.prepare_bounded [OF this] obtain es where es: "log_ok (ru_store s')"
      "st_events (ru_store s') = st_events (ru_store s) @ es" "set (map ev_type es) \<subseteq> set condensation_types"
    by (auto simp: condenses_def)
  have "set (map ev_type es) \<subseteq> open_types" using es(3) by (auto simp: condensation_types_def)
  with es open_not_closed show "log_ok (ru_store s') \<and> (\<exists>es. st_events (ru_store s') = st_events (ru_store s) @ es
      \<and> ''user_message'' \<notin> set (map ev_type es) \<and> quiet_open (current_turn (st_events (ru_store s))) r es)"
    by (intro conjI exI [of _ es]) (auto simp: quiet_open_def)
qed

lemma model_step_status:
  assumes "quiet_env E" shows "emits loop_status (model_step E control limit v)"
proof -
  have "emits loop_status (case x of
        None \<Rightarrow> raise (Exn RuntimeError ''fuel'')
      | Some (PreparedExceeded report reason) \<Rightarrow>
          bnd (terminate_context_budget E (vs_steps v) report reason) (\<lambda>r. ret (Inl r))
      | Some (PreparedReady messages report) \<Rightarrow>
          unless_stopped E (vs_steps v)
          (let req = main_request (en_model E) reg messages (vs_truncation v \<noteq> []) in
           bnd (ask (\<lambda>n. wo_complete (en_world E) n req)) (\<lambda>completion. case completion of
             Raised name \<Rightarrow> raise (Exn ModelClientError name)
           | Malformed m \<Rightarrow>
               seq_then (record_model_usage E (ma_usage m) (ma_request_id m) (ma_finish m) (mq_effort req))
               (malformed_step E v m limit)
           | Completed r \<Rightarrow>
               seq_then (record_model_usage E (lr_usage r) (lr_request_id r) (lr_finish r) (mq_effort req))
               (answered_step E v req r limit))))" for x reg
    by (auto split: option.split prepared.split completion.split simp: Let_def
        intro!: unless_stopped_status loop_bnd loop_seq open_atoms record_usage_open malformed_step_status
          answered_step_status [OF assms] loop_raise loop_ended terminate_context_status)
  then show ?thesis
    unfolding model_step_def Let_def
    by (intro unless_stopped_status emits_gets_bnd loop_bnd [OF prepare_open])
qed

lemma slice_loop_status:
  assumes "quiet_env E" shows "emits loop_status (slice_loop E control limit n v)"
proof (induction n arbitrary: v)
  case 0
  then show ?case using loop_next [of v] by (simp add: ret_def)
next
  case (Suc n)
  show ?case
    unfolding slice_loop.simps
  proof (rule emits_bnd [OF model_step_status [OF assms],
        where M = "\<lambda>x. case x of Inl out \<Rightarrow> silent_ret (Inl out) | Inr v' \<Rightarrow> loop_status"])
  qed (auto simp: loop_status_def silent_ret_def Suc.IH emits_ret split: sum.splits)
qed

lemma finish_slice_status: "emits out_status (finish_slice E sz limit v)"
  unfolding finish_slice_def Let_def
  by (intro out_bnd out_seq emits_if wait_for_budget_status out_open open_event open_atoms)
    (simp_all add: final_statuses_def)

lemma loop_finish_status:
  assumes "quiet_env E"
  shows "emits out_status (bnd (slice_loop E control limit n v) (\<lambda>x. case x of
     Inl r \<Rightarrow> ret r | Inr v' \<Rightarrow> finish_slice E sz limit v'))"
  by (rule emits_bnd [OF slice_loop_status [OF assms], where M = "\<lambda>x. case x of Inl out \<Rightarrow> silent_ret out
      | Inr v' \<Rightarrow> out_status"])
    (auto simp: loop_status_def out_status_def silent_ret_def emits_ret finish_slice_status split: sum.splits)

lemma run_slice_status:
  assumes "quiet_env E" shows "emits out_status (run_slice E)"
  unfolding run_slice_def Let_def
  by (intro out_bnd out_seq emits_if terminate_stopped_status wait_for_budget_status
      loop_finish_status [OF assms] open_atoms) simp_all

end
