(* ===== verification/Workspace_Upgrade.thy ===== *)
theory Workspace_Upgrade
  imports Runner_Status
begin

text \<open>
  The change to an isolated workspace in the middle of a turn: its handler is one of the tools of a
  session that is still read-only, and it logs only events of its own.
\<close>

section \<open>Store operations of the upgrade\<close>

lemma write_then_event:
  "log_inv meta (st_events st) \<Longrightarrow>
     seq_then (write_state meta) (append_unit now ty payload) st = (Inr (), with_event now ty payload (st\<lparr>st_meta := meta\<rparr>))"
  by (simp add: append_unit_run log_ok_def)

definition upgrade_types :: "string list" where
  "upgrade_types = [''approval_requested'', ''approval_decision'', ''workspace_preparing'', ''workspace_activated'',
     ''workspace_upgrade_failed'', ''recovery_required'']"

definition side_effect :: "store \<Rightarrow> (exn + 'a) \<times> store \<Rightarrow> bool" where
  "side_effect st p \<longleftrightarrow> log_ok (snd p) \<and> (\<exists>es. st_events (snd p) = st_events st @ es \<and> set (map ev_type es) \<subseteq> set upgrade_types)"

lemma side_effect_same: "log_ok st \<Longrightarrow> side_effect st (r, st)"
  by (simp add: side_effect_def)

lemma side_effect_event:
  "log_inv meta (st_events st) \<Longrightarrow> ty \<in> set upgrade_types \<Longrightarrow>
     side_effect st (seq_then (write_state meta) (append_unit now ty payload) st)"
  using with_event_ok [of "st\<lparr>st_meta := meta\<rparr>"]
  unfolding write_then_event by (simp add: side_effect_def) (simp add: log_ok_def)

lemmas upgrade_frame = log_inv_frame log_inv_dset log_inv_dpop log_keys_def

lemma begin_upgrade_effect: "log_ok st \<Longrightarrow> side_effect st (begin_workspace_upgrade now n st)"
  unfolding begin_workspace_upgrade_def
  by (auto intro!: side_effect_same side_effect_event simp del: run_seq_Inr simp: upgrade_types_def log_ok_def [symmetric])
    (auto simp: upgrade_frame log_ok_def)

lemma activate_effect: "log_ok st \<Longrightarrow> side_effect st (activate_workspace now ctx st)"
  unfolding activate_workspace_def
  by (auto intro!: side_effect_same side_effect_event simp del: run_seq_Inr simp: upgrade_types_def)
    (auto simp: upgrade_frame log_ok_def)

lemma cancel_effect: "log_ok st \<Longrightarrow> side_effect st (cancel_workspace_upgrade now reason st)"
  unfolding cancel_workspace_upgrade_def
  by (auto intro!: side_effect_same side_effect_event simp del: run_seq_Inr simp: upgrade_types_def)
    (auto simp: upgrade_frame log_ok_def)

lemma recovery_effect: "log_ok st \<Longrightarrow> side_effect st (mark_recovery_required now reason st)"
  unfolding mark_recovery_required_def
  by (auto intro!: side_effect_same side_effect_event simp del: run_seq_Inr simp: upgrade_types_def)
    (auto simp: upgrade_frame log_ok_def)

lemma timed_quiet:
  assumes "\<And>now st. log_ok st \<Longrightarrow> side_effect st (m now st)"
  shows "bounded side_types 0 (timed E m)"
  unfolding timed_def
proof (rule bounded_bnd0)
  show "bounded side_types 0 (ask (wo_now (en_world E)))" by (rule bounded_atoms)
  fix now
  show "bounded side_types 0 (on_store (m now))"
  proof (rule emits_on_store)
    fix st assume "log_ok st"
    from assms [OF this, of now] obtain es where es: "log_ok (snd (m now st))"
        "st_events (snd (m now st)) = st_events st @ es" "set (map ev_type es) \<subseteq> set upgrade_types"
      by (auto simp: side_effect_def)
    have side: "set (map ev_type es) \<subseteq> side_types"
      using es(3) by (fastforce simp: upgrade_types_def turn_types_def)
    then have "\<forall>e \<in> set es. \<not> is_model_step e" "''user_message'' \<notin> set (map ev_type es)"
      by (auto simp: turn_types_def is_model_step_def model_step_types_def)
    with es side show "log_ok (snd (m now st)) \<and> (\<exists>es. st_events (snd (m now st)) = st_events st @ es
        \<and> ''user_message'' \<notin> set (map ev_type es) \<and> within side_types 0 (current_turn (st_events st)) (fst (m now st)) es)"
      by (intro conjI exI [of _ es]) (auto simp: within_def filter_empty_conv)
  qed
qed

section \<open>The handler\<close>

lemma try_prog_quiet: "bounded S 0 m \<Longrightarrow> bounded S 0 (try_prog m)"
  unfolding emits_def try_prog_def within_def by (fastforce split: prod.splits)

lemmas timed_ops = timed_quiet [OF begin_upgrade_effect] timed_quiet [OF activate_effect]
  timed_quiet [OF cancel_effect] timed_quiet [OF recovery_effect]

lemma side_logged: "ty \<notin> set turn_types \<Longrightarrow> bounded side_types 0 (logged E ty payload)"
  by (rule bounded_event [OF emits_logged]) (auto simp: turn_types_def model_step_types_def)

lemma roll_back_quiet: "bounded side_types 0 (roll_back E created e)"
  unfolding roll_back_def by (intro bounded_intros timed_ops)

lemma activate_bundle_quiet: "bounded side_types 0 (activate_bundle E ctx)"
  unfolding activate_bundle_def by (intro bounded_intros timed_ops) simp_all

lemma upgrade_workspace_quiet: "bounded side_types 0 (upgrade_workspace E n)"
  unfolding upgrade_workspace_def
  by (intro bounded_intros try_prog_quiet timed_ops roll_back_quiet activate_bundle_quiet)

text \<open>After the upgrade the call is dispatched to the tool of the same name in the new bundle.\<close>

lemma upgrade_and_dispatch_quiet:
  assumes "quiet_gate (en_gate E)" and "\<And>ctx. quiet_tools (en_bundle E ctx)"
  shows "bounded side_types 0 (upgrade_and_dispatch E name args)"
proof -
  have d: "bounded side_types 0 (bnd (lift (registry_get (en_bundle E ctx) name)) (\<lambda>t. ts_handler t args))" for ctx
    using assms(2) by (intro emits_lift_bnd) (auto simp: within_def intro: quiet_handler)
  have g: "bounded side_types 0 (ag_upgrade (en_gate E) name args)" using assms(1) by (simp add: quiet_gate_def)
  have l: "bounded side_types 0 (logged E ''approval_requested'' p)" "bounded side_types 0 (logged E ''approval_decision'' p)" for p
    by (rule side_logged, simp add: turn_types_def)+
  show ?thesis
    unfolding upgrade_and_dispatch_def by (intro bounded_intros l g d upgrade_workspace_quiet) simp_all
qed

text \<open>
  \<^verbatim>\<open>_register_upgrade_tools\<close>: the editing and command tools of a read-only session keep their names,
  descriptions, levels and schemas, and their handlers ask for the upgrade.
\<close>

definition upgrade_tool :: "runner_env \<Rightarrow> tool_spec \<Rightarrow> tool_spec" where
  "upgrade_tool E t = t\<lparr>ts_handler := upgrade_and_dispatch E (ts_name t)\<rparr>"

definition register_upgrade_tools :: "runner_env \<Rightarrow> tool_spec \<Rightarrow> tool_spec \<Rightarrow> registry \<Rightarrow> registry" where
  "register_upgrade_tools E atomic command reg = register (upgrade_tool E command) (register (upgrade_tool E atomic) reg)"

lemma register_upgrade_tools_quiet:
  assumes "quiet_gate (en_gate E)" and "\<And>ctx. quiet_tools (en_bundle E ctx)" and "quiet_tools reg"
  shows "quiet_tools (register_upgrade_tools E atomic command reg)"
  unfolding register_upgrade_tools_def
  using assms upgrade_and_dispatch_quiet [OF assms(1,2)]
  by (intro quiet_register) (simp_all add: upgrade_tool_def)

section \<open>All or nothing\<close>

lemma state_after_event [simp]:
  "dget (st_meta (with_event now ty payload st)) ''workspace_state'' = dget (st_meta st) ''workspace_state''"
  by (simp add: with_event_def Let_def advance_meta_def retitle_def)

definition at_state :: "session_workspace_state \<Rightarrow> store \<Rightarrow> bool" where
  "at_state s st \<longleftrightarrow> log_ok st \<and> dget (st_meta st) ''workspace_state'' = JStr (ws_value s)"

lemma at_state_event: "log_inv meta (st_events st) \<Longrightarrow> dget meta ''workspace_state'' = JStr (ws_value s) \<Longrightarrow>
   at_state s (with_event now ty payload (st\<lparr>st_meta := meta\<rparr>))"
  using with_event_ok [of "st\<lparr>st_meta := meta\<rparr>"] by (simp add: at_state_def log_ok_def [of "st\<lparr>st_meta := meta\<rparr>"])

lemma cancel_state: "log_ok st \<Longrightarrow> \<exists>st'. cancel_workspace_upgrade now reason st = (Inr (), st') \<and> at_state SourceOnly st'"
  unfolding cancel_workspace_upgrade_def
  by (simp add: write_then_event upgrade_frame log_ok_def [symmetric] del: run_seq_Inr)
    (auto intro!: at_state_event simp: upgrade_frame log_ok_def set_state_def)

lemma recovery_state: "log_ok st \<Longrightarrow> \<exists>st'. mark_recovery_required now reason st = (Inr (), st') \<and> at_state RecoveryRequired st'"
  unfolding mark_recovery_required_def
  by (simp add: write_then_event upgrade_frame log_ok_def [symmetric] del: run_seq_Inr)
    (auto intro!: at_state_event simp: upgrade_frame log_ok_def set_state_def)

lemma activate_state:
  assumes "log_ok st" and "activate_workspace now ctx st = (Inr u, st')"
  shows "at_state ChangesActive st'"
proof -
  let ?meta = "set_state ChangesActive [] (dpop ''pending_workspace_revision'' (dmerge (st_meta st) (to_metadata ctx)))"
  have inv: "log_inv ?meta (st_events st)" using assms(1) by (simp add: upgrade_frame log_ok_def)
  obtain payload where "seq_then (write_state ?meta) (append_unit now ''workspace_activated'' payload) st = (Inr u, st')"
    using assms by (auto simp: activate_workspace_def simp del: run_seq_Inr split: if_splits)
  then have "st' = with_event now ''workspace_activated'' payload (st\<lparr>st_meta := ?meta\<rparr>)"
    using write_then_event [OF inv] by simp
  moreover have "dget ?meta ''workspace_state'' = JStr (ws_value ChangesActive)" by (simp add: set_state_def)
  ultimately show ?thesis using at_state_event [OF inv] by blast
qed

lemma timed_run: "m (wo_now (en_world E) (ru_clock s)) (ru_store s) = (r, st) \<Longrightarrow>
   timed E m s = (r, s\<lparr>ru_clock := Suc (ru_clock s), ru_store := st\<rparr>)"
  by (simp add: timed_def on_store_def)

definition rolled_back :: "runner_state \<Rightarrow> tool_result \<Rightarrow> runner_state \<Rightarrow> bool" where
  "rolled_back s r s' \<longleftrightarrow> \<not> tr_ok r \<and> ru_workspace s' = ru_workspace s
     \<and> (tr_code r = Some ''workspace_upgrade_failed'' \<and> at_state SourceOnly (ru_store s')
        \<or> tr_code r = Some ''recovery_required'' \<and> at_state RecoveryRequired (ru_store s'))"

lemma rolled_back_cancel:
  assumes "log_ok (ru_store s)"
  shows "\<exists>s'. seq_then (timed E (\<lambda>now. cancel_workspace_upgrade now (exn_code e)))
       (ret (upgrade_refused ''workspace_upgrade_failed'' (exn_code e))) s
     = (Inr (upgrade_refused ''workspace_upgrade_failed'' (exn_code e)), s')
     \<and> rolled_back s (upgrade_refused ''workspace_upgrade_failed'' (exn_code e)) s'"
  using cancel_state [OF assms, of "wo_now (en_world E) (ru_clock s)" "exn_code e"]
  by (auto simp: timed_def on_store_def rolled_back_def upgrade_refused_def tool_failure_def)

lemma rolled_back_recovery:
  assumes "log_ok (ru_store s)"
  shows "\<exists>s'. seq_then (timed E (\<lambda>now. mark_recovery_required now (exn_code e)))
       (ret (upgrade_refused ''recovery_required'' x)) s
     = (Inr (upgrade_refused ''recovery_required'' x), s')
     \<and> rolled_back s (upgrade_refused ''recovery_required'' x) s'"
  using recovery_state [OF assms, of "wo_now (en_world E) (ru_clock s)" "exn_code e"]
  by (auto simp: timed_def on_store_def rolled_back_def upgrade_refused_def tool_failure_def)

lemma rolled_back_clock [simp]: "rolled_back (s\<lparr>ru_clock := k\<rparr>) r s' = rolled_back s r s'"
  by (simp add: rolled_back_def)

lemma roll_back_outcome:
  assumes ok: "log_ok (ru_store s)" and run: "roll_back E created e s = (Inr r, s')"
  shows "rolled_back s r s'"
proof -
  define s1 where "s1 = (case created of None \<Rightarrow> s | Some ctx \<Rightarrow> s\<lparr>ru_clock := Suc (ru_clock s)\<rparr>)"
  have ok1: "log_ok (ru_store s1)" and same: "rolled_back s1 = rolled_back s"
    using ok by (auto simp: s1_def fun_eq_iff split: option.split)
  have "(Inr r, s') = seq_then (timed E (\<lambda>now. cancel_workspace_upgrade now (exn_code e)))
        (ret (upgrade_refused ''workspace_upgrade_failed'' (exn_code e))) s1
    \<or> (Inr r, s') = seq_then (timed E (\<lambda>now. mark_recovery_required now (exn_code e)))
        (ret (upgrade_refused ''recovery_required'' ''discard failed'')) s1"
  proof (cases created)
    case None
    with run show ?thesis by (simp add: roll_back_def s1_def)
  next
    case (Some ctx)
    show ?thesis
    proof (cases "en_discard E (ru_clock s) ctx")
      case (Inr u)
      with Some run show ?thesis by (simp add: roll_back_def s1_def)
    next
      case (Inl x)
      with Some run show ?thesis
        by (cases "exn_class x = GitWorktreeError") (simp_all add: roll_back_def s1_def bnd_def)
    qed
  qed
  then show ?thesis
    using rolled_back_cancel [OF ok1, of E e] rolled_back_recovery [OF ok1, of E e "''discard failed''"]
    by (auto simp: same)
qed

lemma rolled_backD: "rolled_back s1 r s' \<Longrightarrow> ru_workspace s1 = ru_workspace s \<Longrightarrow> rolled_back s r s'"
  by (simp add: rolled_back_def)

lemma timed_effect:
  assumes "log_ok (ru_store s)" and "\<And>now st. log_ok st \<Longrightarrow> side_effect st (m now st)" and "timed E m s = (r, s')"
  shows "log_ok (ru_store s')" and "ru_workspace s' = ru_workspace s"
proof -
  obtain q st where q: "m (wo_now (en_world E) (ru_clock s)) (ru_store s) = (q, st)" by fastforce
  with assms(2) [OF assms(1), of "wo_now (en_world E) (ru_clock s)"] assms(3) timed_run [of m E s, OF q]
  show "log_ok (ru_store s')" and "ru_workspace s' = ru_workspace s" by (auto simp: side_effect_def)
qed

lemma activate_bundle_outcome:
  assumes ok: "log_ok (ru_store s)" and run: "activate_bundle E ctx s = (r, s')"
  shows "(\<forall>e. r = Inl e \<longrightarrow> log_ok (ru_store s') \<and> ru_workspace s' = ru_workspace s)
    \<and> (\<forall>u. r = Inr u \<longrightarrow> at_state ChangesActive (ru_store s') \<and> ru_workspace s' = Some ctx)"
proof -
  obtain q s1 where q: "timed E (\<lambda>now. activate_workspace now ctx) s = (q, s1)" by fastforce
  note eff = timed_effect [OF ok activate_effect q]
  show ?thesis
  proof (cases q)
    case (Inl e)
    with q run eff show ?thesis by (auto simp: activate_bundle_def)
  next
    case (Inr u)
    obtain st where st: "activate_workspace (wo_now (en_world E) (ru_clock s)) ctx (ru_store s) = (Inr u, st)"
        "ru_store s1 = st"
      using q Inr by (cases "activate_workspace (wo_now (en_world E) (ru_clock s)) ctx (ru_store s)")
        (auto simp: timed_def on_store_def)
    have "at_state ChangesActive st" by (rule activate_state [OF ok st(1)])
    with st q Inr run show ?thesis by (auto simp: activate_bundle_def)
  qed
qed

lemma try_prog_run: "m s = (r, s') \<Longrightarrow> try_prog m s = (Inr r, s')"
  by (simp add: try_prog_def)

lemma upgrade_outcome:
  assumes ok: "log_ok (ru_store s)" and run: "upgrade_workspace E n s = (Inr r, s')"
  shows "case r of Inl t \<Rightarrow> rolled_back s t s'
    | Inr ctx \<Rightarrow> at_state ChangesActive (ru_store s') \<and> ru_workspace s' = Some ctx"
proof -
  obtain r0 s1 where b: "timed E (\<lambda>now. begin_workspace_upgrade now n) s = (r0, s1)" by fastforce
  have tb: "try_prog (timed E (\<lambda>now. begin_workspace_upgrade now n)) s = (Inr r0, s1)"
    using b by (rule try_prog_run)
  have ok1: "log_ok (ru_store s1)" and w1: "ru_workspace s1 = ru_workspace s"
    using timed_effect [OF ok begin_upgrade_effect b] by auto
  have undone: "rolled_back s t q" if "roll_back E c e s2 = (Inr t, q)" "log_ok (ru_store s2)"
      "ru_workspace s2 = ru_workspace s" for c e s2 t q
    by (rule rolled_backD [OF roll_back_outcome [OF that(2,1)] that(3)])
  show ?thesis
  proof (cases r0)
    case (Inl e)
    then show ?thesis
      using run undone ok1 w1 by (auto simp: upgrade_workspace_def tb bnd_eq_Inr)
  next
    case (Inr u)
    define s2 where "s2 = s1\<lparr>ru_clock := Suc (ru_clock s1)\<rparr>"
    have s2: "log_ok (ru_store s2)" "ru_workspace s2 = ru_workspace s" using ok1 w1 by (simp_all add: s2_def)
    show ?thesis
    proof (cases "en_create E (ru_clock s1) (st_root (ru_store s1)) (st_session (ru_store s1)) n")
      case (Inl e)
      then show ?thesis
        using run undone s2 \<open>r0 = Inr u\<close>
        by (auto simp: upgrade_workspace_def tb bnd_eq_Inr s2_def)
    next
      case ctx: (Inr ctx)
      obtain r2 s3 where a: "activate_bundle E ctx s2 = (r2, s3)" by fastforce
      have ta: "try_prog (activate_bundle E ctx) s2 = (Inr r2, s3)" using a by (rule try_prog_run)
      note act = activate_bundle_outcome [OF s2(1) a]
      have run3: "(case r2 of Inl e \<Rightarrow> bnd (roll_back E (Some ctx) e) (\<lambda>r. ret (Inl r)) | Inr u \<Rightarrow> ret (Inr ctx)) s3 = (Inr r, s')"
        using run \<open>r0 = Inr u\<close> ctx ta
        by (simp add: upgrade_workspace_def tb s2_def)
      show ?thesis
        using run3 act undone s2(2) by (cases r2) (auto simp: bnd_eq_Inr)
    qed
  qed
qed

end
