(* ===== verification/Runner_Properties.thy ===== *)
theory Runner_Properties
  imports Workspace_Upgrade
begin

text \<open>
  The properties of the agent runner, each with a run or a state at which it applies.
\<close>

section \<open>A small runner\<close>

definition demo_xt :: runner_texts where
  "demo_xt = \<lparr>xt_wait = (\<lambda>_ _. ''wait''), xt_context = (\<lambda>_ _. ''context''), xt_stopped = ''stopped'',
     xt_truncated = (\<lambda>_. ''truncated''), xt_malformed = (\<lambda>_. ''malformed''), xt_repair = (\<lambda>_ _ _ _. ''repair''),
     xt_continuation = (\<lambda>_ _ _ _ _. ''continue''), xt_slice = (\<lambda>_ _. ''slice''),
     xt_truncation_control = ''shorter'', xt_upgrade_reason = ''worktree''\<rparr>"

definition demo_malformed :: malformed_arguments where
  "demo_malformed = \<lparr>ma_tool = ''read_file'', ma_message = ''bad'', ma_line = 1, ma_column = 2, ma_raw = ''{'',
     ma_usage = None, ma_request_id = None, ma_finish = Some ''tool_calls'', ma_text = None, ma_reasoning = None\<rparr>"

text \<open>The model answers every request with the same unreadable arguments.\<close>

definition demo_env :: runner_env where
  "demo_env = \<lparr>en_world = demo_world\<lparr>wo_complete := (\<lambda>_ _. Malformed demo_malformed)\<rparr>,
     en_model = demo_model,
     en_config = \<lparr>rc_max_steps_per_turn = 8, rc_max_model_steps = 2\<rparr>,
     en_texts = demo_xt, en_prompts = demo_texts, en_gate = auto_gate True,
     en_tools = [], en_bundle = (\<lambda>_. []),
     en_create = (\<lambda>_ root _ n. Inr \<lparr>source_root = root, active_root = ''/wt'', workspace_kind = ''git_worktree'',
       base_commit = Some ''abc'', workspace_revision = n\<rparr>),
     en_discard = (\<lambda>_ _. Inr ()), en_snapshot = (\<lambda>_ _. demo_snapshot)\<rparr>"

definition demo_start :: runner_state where
  "demo_start = \<lparr>ru_store = demo_session, ru_clock = 0, ru_upgrade_denied = False, ru_report = None, ru_workspace = None\<rparr>"

definition demo_open :: runner_state where
  "demo_open = \<lparr>ru_store = snd demo_turn, ru_clock = 0, ru_upgrade_denied = False, ru_report = None, ru_workspace = None\<rparr>"

lemma demo_open_ok: "log_ok (ru_store demo_open)"
  using append_event_run [OF session_reachable_ok [OF demo_session_reachable]]
    with_event_ok [OF session_reachable_ok [OF demo_session_reachable]]
  by (simp add: demo_open_def demo_turn_def)

lemma demo_env_quiet: "quiet_env demo_env"
  by (simp add: quiet_env_def quiet_tools_def demo_env_def auto_gate_def quiet_gate_def bounded_silent [OF silent_ret'])

section \<open>Budget\<close>

text \<open>
  C9. A slice respects the budget of the turn: it takes at most as many model steps as the slice
  allows and as the turn has left, one more only when it ends as completed, whatever the model, the
  user, the gate and the tools do; its model steps all belong to the current turn, and it opens no
  other.
\<close>

theorem slice_respects_budget:
  assumes "quiet_env E" and "log_ok (ru_store s)" and "run_slice E s = (r, s')"
    and "current_turn_budget (st_events (ru_store s)) (rc_max_model_steps (en_config E)) = Inr b"
  shows "log_ok (ru_store s') \<and> (\<exists>es. st_events (ru_store s') = st_events (ru_store s) @ es
    \<and> (\<forall>e \<in> set es. ev_type e \<noteq> ''user_message''
        \<and> (is_model_step e \<longrightarrow> ev_turn e = current_turn (st_events (ru_store s))))
    \<and> int (length (filter is_model_step es))
        \<le> max 0 (min (rc_max_steps_per_turn (en_config E)) (tb_limit b - tb_used b))
          + (case r of Inr out \<Rightarrow> if ro_status out = ''completed'' then 1 else 0 | Inl e \<Rightarrow> 0))"
proof -
  obtain es where es: "log_ok (ru_store s')" "st_events (ru_store s') = st_events (ru_store s) @ es"
    "''user_message'' \<notin> set (map ev_type es)" "out_spec (slice_size E b) (current_turn (st_events (ru_store s))) r es"
    by (rule run_slice_steps [OF assms])
  have "int (length (filter is_model_step es)) \<le> int (slice_size E b) + int (out_extra r)"
    using es(4) by (simp add: out_spec_def)
  moreover have "int (out_extra r) = (case r of Inr out \<Rightarrow> if ro_status out = ''completed'' then 1 else 0 | Inl e \<Rightarrow> 0)"
    by (simp add: out_extra_def closing_def split: sum.split)
  moreover have "int (slice_size E b) = max 0 (min (rc_max_steps_per_turn (en_config E)) (tb_limit b - tb_used b))"
    unfolding slice_size_def by linarith
  ultimately have size: "int (length (filter is_model_step es))
        \<le> max 0 (min (rc_max_steps_per_turn (en_config E)) (tb_limit b - tb_used b))
          + (case r of Inr out \<Rightarrow> if ro_status out = ''completed'' then 1 else 0 | Inl e \<Rightarrow> 0)"
    by linarith
  have "\<forall>e \<in> set es. ev_type e \<noteq> ''user_message''" using es(3) by force
  moreover have "\<forall>e \<in> set es. is_model_step e \<longrightarrow> ev_turn e = current_turn (st_events (ru_store s))"
    using es(4) by (simp add: out_spec_def)
  ultimately show ?thesis using es(1,2) size by blast
qed

theorem slice_respects_budget_witness:
  "\<exists>es. st_events (ru_store (snd (run_slice demo_env demo_open))) = st_events (ru_store demo_open) @ es
     \<and> length (filter is_model_step es) \<le> 3"
proof -
  define b where "b = current_turn_budget (st_events (ru_store demo_open)) (rc_max_model_steps (en_config demo_env))"
  have "(case b of Inr x \<Rightarrow> tb_limit x = 2 \<and> tb_used x = 0 | _ \<Rightarrow> False) \<and> rc_max_steps_per_turn (en_config demo_env) = 8"
    unfolding b_def demo_open_def demo_turn_def demo_session_def demo_created_def by code_simp
  then obtain x where x: "b = Inr x" "tb_limit x = 2" "tb_used x = 0" "rc_max_steps_per_turn (en_config demo_env) = 8"
    by (cases b) auto
  define p where "p = run_slice demo_env demo_open"
  have "run_slice demo_env demo_open = (fst p, snd p)" by (simp add: p_def)
  from slice_respects_budget [OF demo_env_quiet demo_open_ok this x(1) [unfolded b_def]] x
  obtain es where "st_events (ru_store (snd p)) = st_events (ru_store demo_open) @ es"
    and "int (length (filter is_model_step es)) \<le> 2 + (case fst p of Inr out \<Rightarrow> if ro_status out = ''completed'' then 1 else 0 | Inl e \<Rightarrow> 0)"
    by auto
  then show ?thesis by (intro exI [of _ es]) (auto simp: p_def split: sum.splits if_splits)
qed

text \<open>
  The extra step is real: with a limit of two model steps, a model that sends the same unreadable
  arguments twice ends the turn as completed with three model steps used.
\<close>

theorem malformed_end_exceeds_limit:
  "\<exists>out s'. run_turn demo_env ''hi'' demo_start = (Inr out, s') \<and> ro_status out = ''completed'' \<and> ro_used out = 3
     \<and> rc_max_model_steps (en_config demo_env) = 2"
proof -
  define p where "p = run_turn demo_env ''hi'' demo_start"
  have "(case fst p of Inr out \<Rightarrow> ro_status out = ''completed'' \<and> ro_used out = 3 | _ \<Rightarrow> False)"
    unfolding p_def demo_start_def demo_session_def demo_created_def by code_simp
  then show ?thesis
    unfolding p_def by (cases "run_turn demo_env ''hi'' demo_start") (auto simp: demo_env_def split: sum.splits)
qed

text \<open>
  Waiting for budget is idempotent: the first wait of a turn records one event, the second
  records none and returns the same answer.
\<close>

theorem budget_wait_idempotent:
  assumes "log_ok (ru_store s)"
    and "current_turn_budget (st_events (ru_store s)) (rc_max_model_steps (en_config E)) = Inr b"
    and "wait_for_budget E steps used s = (r, s')"
  shows "length (st_events (ru_store s')) \<le> Suc (length (st_events (ru_store s)))
    \<and> wait_for_budget E steps used s' = (r, s')"
proof (cases "waits_already b (st_events (ru_store s))")
  case True
  then show ?thesis using wait_for_budget_run [OF assms(1,2), of steps used] assms(3) by simp
next
  case False
  then obtain e where e: "log_ok (ru_store s')" "st_events (ru_store s') = st_events (ru_store s) @ [e]"
      "ev_type e = ''turn_budget_exhausted''" "ev_turn e = tb_turn b"
      "dindex (ev_payload e) ''max_model_steps_per_user_turn'' = Inr (JInt (tb_limit b))"
      "r = Inr (outcome ''model_step_budget_exhausted'' (xt_wait (en_texts E) used (tb_limit b)) steps used)"
    using wait_for_budget_run [OF assms(1,2), of steps used] assms(3) by auto
  obtain b' where b': "current_turn_budget (st_events (ru_store s')) (rc_max_model_steps (en_config E)) = Inr b'"
      "tb_turn b' = tb_turn b" "tb_limit b' = tb_limit b"
    using budget_after_wait [OF assms(2) e(3,5)] e(2) by auto
  have "waits_already b' (st_events (ru_store s'))"
    using waits_after [OF e(3,4,5)] e(2) waits_already_cong [OF b'(2,3)] by simp
  then show ?thesis
    using wait_for_budget_run [OF e(1) b'(1), of steps used] e b' by simp
qed

theorem budget_wait_idempotent_witness:
  "(case wait_for_budget demo_env [] 0 demo_open of (r, s') \<Rightarrow> wait_for_budget demo_env [] 0 s' = (r, s'))"
proof -
  define b where "b = current_turn_budget (st_events (ru_store demo_open)) (rc_max_model_steps (en_config demo_env))"
  have "(case b of Inr x \<Rightarrow> True | _ \<Rightarrow> False)"
    unfolding b_def demo_open_def demo_turn_def demo_session_def demo_created_def by code_simp
  then obtain x where x: "b = Inr x" by (cases b) auto
  obtain r s' where run: "wait_for_budget demo_env [] 0 demo_open = (r, s')" by fastforce
  from budget_wait_idempotent [OF demo_open_ok x [unfolded b_def] run] run show ?thesis by simp
qed

section \<open>Tool calls\<close>

text \<open>
  C10. A tool call that returns appends exactly one outcome, as its last event and in the current
  turn: a result when the call ran, a denial when it did not, with the identity of the call and the
  result the runner reports. Nothing the gate or the handler logs can pass for an outcome.
\<close>

theorem tool_call_gets_one_outcome:
  assumes "quiet_gate gate" and "quiet_tools reg" and "log_ok (ru_store s)"
    and "handle_tool_call w gate reg c s = (Inr step, s')"
  shows "\<exists>mid e. st_events (ru_store s') = st_events (ru_store s) @ mid @ [e]
    \<and> (\<forall>x \<in> set mid. ev_type x \<notin> {''tool_result'', ''tool_denied''})
    \<and> ev_turn e = current_turn (st_events (ru_store s))
    \<and> ev_type e = (if sv_decision step = ''deny'' then ''tool_denied'' else ''tool_result'')
    \<and> dget (ev_payload e) ''call_id'' = JStr (tc_id c) \<and> dget (ev_payload e) ''result'' = result_dump (sv_result step)"
proof -
  obtain es where es: "st_events (ru_store s') = st_events (ru_store s) @ es"
      and "one_outcome c (current_turn (st_events (ru_store s))) (Inr step) es"
    using handle_tool_call_outcome [OF assms(1,2), of c w] assms(3,4) unfolding emits_def by blast
  then show ?thesis unfolding one_outcome_def outcome_types_def by fastforce
qed

definition demo_read :: tool_spec where
  "demo_read = \<lparr>ts_name = ''read_file'', ts_description = ''reads'', ts_level = READ, ts_schema = [],
     ts_handler = (\<lambda>_. ret (tool_success ''content'' []))\<rparr>"

definition demo_tool_call :: tool_call where
  "demo_tool_call = \<lparr>tc_id = ''call-1'', tc_name = ''read_file'', tc_arguments = []\<rparr>"

theorem tool_call_gets_one_outcome_witness:
  "\<exists>s' mid e. snd (handle_tool_call demo_world (auto_gate False) (register demo_read []) demo_tool_call demo_open) = s'
     \<and> st_events (ru_store s') = st_events (ru_store demo_open) @ mid @ [e] \<and> ev_type e = ''tool_result''
     \<and> dget (ev_payload e) ''call_id'' = JStr ''call-1''"
proof -
  define p where "p = handle_tool_call demo_world (auto_gate False) (register demo_read []) demo_tool_call demo_open"
  have "(case fst p of Inr step \<Rightarrow> sv_decision step = ''allow'' | _ \<Rightarrow> False)"
    unfolding p_def demo_open_def demo_turn_def demo_session_def demo_created_def by code_simp
  then obtain step where step: "p = (Inr step, snd p)" "sv_decision step = ''allow''"
    by (cases p) (auto split: sum.splits)
  have "quiet_tools (register demo_read [])"
    by (simp add: quiet_tools_def register_def demo_read_def bounded_silent [OF silent_ret'])
  from tool_call_gets_one_outcome [OF auto_gate_quiet this demo_open_ok step(1) [unfolded p_def]] step(2)
  show ?thesis by (auto simp: demo_tool_call_def)
qed

text \<open>
  C11. The policy stands before the handler: a tool at a level the policy denies never runs and no
  user is asked, its call is only logged as requested and denied; and a tool that needs approval is
  denied by a gate that never allows it.
\<close>

theorem policy_gates_handlers:
  assumes "registry_get reg (tc_name c) = Inr t"
  shows "(ts_level t \<in> {WRITE, NETWORK, DANGEROUS} \<longrightarrow> handle_tool_call w gate reg c
       = seq_then (log_event w ''tool_requested'' (call_fields c))
           (deny_call w c (snd (policy_evaluate (ts_level t))) ''policy_denied''))
    \<and> (ts_level t = EXEC_READONLY \<longrightarrow> (\<forall>s s'. ag_request gate t c s \<noteq> (Inr True, s'))
       \<longrightarrow> handle_tool_call w gate reg c s = (Inr step, s')
       \<longrightarrow> sv_decision step = ''deny'' \<and> tr_code (sv_result step) = Some ''approval_denied'' \<and> \<not> tr_ok (sv_result step))"
proof (intro conjI impI)
  assume "ts_level t \<in> {WRITE, NETWORK, DANGEROUS}"
  with assms show "handle_tool_call w gate reg c = seq_then (log_event w ''tool_requested'' (call_fields c))
      (deny_call w c (snd (policy_evaluate (ts_level t))) ''policy_denied'')"
    by (auto simp: handle_tool_call_def policy_evaluate_def)
next
  assume ask: "ts_level t = EXEC_READONLY" and no: "\<forall>s s'. ag_request gate t c s \<noteq> (Inr True, s')"
    and run: "handle_tool_call w gate reg c s = (Inr step, s')"
  define k where "k = (\<lambda>allowed. if \<not> allowed then deny_call w c ''user denied approval'' ''approval_denied''
    else run_handler w t c Ask)"
  have "handle_tool_call w gate reg c = seq_then (log_event w ''tool_requested'' (call_fields c))
      (bnd (request_approval w gate t c ''readonly executable tool requires approval'') k)"
    using assms ask by (simp add: handle_tool_call_def policy_evaluate_def k_def)
  then obtain s1 s2 allowed where "request_approval w gate t c ''readonly executable tool requires approval'' s1 = (Inr allowed, s2)"
      and last: "k allowed s2 = (Inr step, s')"
    using run by (auto simp: seq_then_eq_Inr bnd_eq_Inr)
  then have "\<not> allowed" using no by (auto simp: request_approval_def seq_then_eq_Inr bnd_eq_Inr split: if_splits)
  with last show "sv_decision step = ''deny''" "tr_code (sv_result step) = Some ''approval_denied''" "\<not> tr_ok (sv_result step)"
    by (auto simp: k_def deny_call_def Let_def seq_then_eq_Inr step_of_call_def tool_failure_def)
qed

definition demo_write :: tool_spec where
  "demo_write = \<lparr>ts_name = ''read_file'', ts_description = ''writes'', ts_level = WRITE, ts_schema = [],
     ts_handler = (\<lambda>_. ret (tool_success ''content'' []))\<rparr>"

theorem policy_gates_handlers_witness:
  "handle_tool_call demo_world (auto_gate True) (register demo_write []) demo_tool_call
    = seq_then (log_event demo_world ''tool_requested'' (call_fields demo_tool_call))
        (deny_call demo_world demo_tool_call ''write'' ''policy_denied'')"
  using policy_gates_handlers [of "register demo_write []" demo_tool_call demo_write demo_world "auto_gate True"]
  by (simp add: demo_write_def demo_tool_call_def policy_evaluate_def)

section \<open>Stops, truncations and the status of a slice\<close>

text \<open>
  C12. A stop leaves a closed protocol: every call announced in the current turn has a result or a
  denial in that turn, the turn is complete, and the last event says that the user stopped it.
\<close>

theorem stop_closes_protocol:
  assumes "log_ok (ru_store s)" and "terminate_stopped E steps s = (Inr out, s')"
  shows "ro_status out = ''stopped'' \<and> \<not> has_incomplete_turn (st_events (ru_store s'))
    \<and> ev_type (last (st_events (ru_store s'))) = ''turn_terminated''
    \<and> (\<forall>a \<in> set (announcements (st_events (ru_store s'))). \<exists>calls.
        iterate (dget_or (ev_payload a) ''tool_calls'' (JArr [])) = Inr calls
      \<and> (\<forall>call \<in> set calls. \<exists>cid. subscript call ''call_id'' = Inr cid
          \<and> cid \<in> set (answered_calls (st_events (ru_store s')))))"
proof -
  obtain es e where es: "st_events (ru_store s') = st_events (ru_store s) @ es @ [e]" "ev_type e = ''turn_terminated''"
      "ev_turn e = current_turn (st_events (ru_store s))" "set (map ev_type es) \<subseteq> stop_types"
      "\<forall>a \<in> set (announcements (st_events (ru_store s))). \<exists>calls. iterate (dget_or (ev_payload a) ''tool_calls'' (JArr [])) = Inr calls
       \<and> (\<forall>call \<in> set calls. \<exists>cid. subscript call ''call_id'' = Inr cid
         \<and> (cid \<in> set (answered_calls (st_events (ru_store s))) \<or> answered_by es (current_turn (st_events (ru_store s))) cid))"
    by (rule terminate_stopped_closes [OF assms])
  have types: "set (map ev_type (es @ [e])) \<subseteq> stop_types" using es(2,4) by (simp add: stop_types_def)
  then have turn: "current_turn (st_events (ru_store s')) = current_turn (st_events (ru_store s))"
    unfolding es(1) by (intro current_turn_append_others) (auto simp: stop_types_def)
  have ann: "announcements (st_events (ru_store s')) = announcements (st_events (ru_store s))"
    unfolding es(1) by (rule announcements_append [OF types])
  have "\<forall>cid. cid \<in> set (answered_calls (st_events (ru_store s))) \<or> answered_by es (current_turn (st_events (ru_store s))) cid
      \<longrightarrow> cid \<in> set (answered_calls (st_events (ru_store s')))"
    unfolding answered_calls_iff turn unfolding es(1) by auto
  then have answered: "\<forall>a \<in> set (announcements (st_events (ru_store s'))). \<exists>calls.
        iterate (dget_or (ev_payload a) ''tool_calls'' (JArr [])) = Inr calls
      \<and> (\<forall>call \<in> set calls. \<exists>cid. subscript call ''call_id'' = Inr cid
          \<and> cid \<in> set (answered_calls (st_events (ru_store s'))))"
    unfolding ann using es(5) by meson
  have "in_turn (st_events (ru_store s')) e" using es(3) turn by (simp add: in_turn_def)
  then have "\<not> has_incomplete_turn (st_events (ru_store s'))"
    using es(1,2) by (auto simp: has_incomplete_turn_def list_ex_iff)
  moreover have "ro_status out = ''stopped''"
    using assms(2) by (auto simp: terminate_stopped_def bnd_eq_Inr seq_then_eq_Inr outcome_def)
  ultimately show ?thesis using answered es(1,2) by simp
qed

definition demo_called :: runner_state where
  "demo_called = snd (logged demo_env ''assistant_tool_calls''
     [(''message'', JStr []), (''tool_calls'', JArr [call_dump demo_tool_call])] demo_open)"

lemma demo_called_ok: "log_ok (ru_store demo_called)"
proof -
  let ?m = "logged demo_env ''assistant_tool_calls'' [(''message'', JStr []), (''tool_calls'', JArr [call_dump demo_tool_call])]"
  obtain r s' where run: "?m demo_open = (r, s')" by fastforce
  have "emits (one_event ''assistant_tool_calls'' [(''message'', JStr []), (''tool_calls'', JArr [call_dump demo_tool_call])]) ?m"
    by (rule emits_logged) simp
  then have "log_ok (ru_store s')" using run demo_open_ok unfolding emits_def by blast
  then show ?thesis unfolding demo_called_def run by simp
qed

theorem stop_closes_protocol_witness:
  "\<exists>out s'. terminate_stopped demo_env [] demo_called = (Inr out, s') \<and> length (announcements (st_events (ru_store s'))) = 1
     \<and> (\<forall>a \<in> set (announcements (st_events (ru_store s'))). \<exists>calls.
        iterate (dget_or (ev_payload a) ''tool_calls'' (JArr [])) = Inr calls
      \<and> (\<forall>call \<in> set calls. \<exists>cid. subscript call ''call_id'' = Inr cid
          \<and> cid \<in> set (answered_calls (st_events (ru_store s')))))"
proof -
  define p where "p = terminate_stopped demo_env [] demo_called"
  have "(case fst p of Inr out \<Rightarrow> True | _ \<Rightarrow> False) \<and> length (announcements (st_events (ru_store (snd p)))) = 1"
    unfolding p_def demo_called_def demo_open_def demo_turn_def demo_session_def demo_created_def by code_simp
  then obtain out where out: "p = (Inr out, snd p)" "length (announcements (st_events (ru_store (snd p)))) = 1"
    by (cases p) (auto split: sum.splits)
  from stop_closes_protocol [OF demo_called_ok out(1) [unfolded p_def]] out show ?thesis
    unfolding p_def by blast
qed

text \<open>
  Truncated answers cannot follow each other for ever: each one recorded raises the count of the
  turn by one, and a turn that goes on after one has seen fewer than three in a row.
\<close>

theorem truncation_bounded:
  assumes "log_ok (ru_store s)"
    and "record_output_truncation E steps reply reasoning finish detection limit s = (Inr r, s')"
  shows "consecutive_truncations (st_events (ru_store s')) = consecutive_truncations (st_events (ru_store s)) + 1
    \<and> (r = None \<longrightarrow> consecutive_truncations (st_events (ru_store s')) < max_consecutive_truncations)"
  unfolding max_consecutive_truncations_def by (rule record_truncation_count [OF assms])

theorem truncation_bounded_witness:
  "\<exists>r s'. record_output_truncation demo_env [] None None (Some ''length'') ''provider_finish_reason'' 2 demo_open = (Inr r, s')
     \<and> consecutive_truncations (st_events (ru_store s')) = consecutive_truncations (st_events (ru_store demo_open)) + 1"
proof -
  define p where "p = record_output_truncation demo_env [] None None (Some ''length'') ''provider_finish_reason'' 2 demo_open"
  have "(case fst p of Inr r \<Rightarrow> True | _ \<Rightarrow> False)"
    unfolding p_def demo_open_def demo_turn_def demo_session_def demo_created_def by code_simp
  then obtain r where r: "p = (Inr r, snd p)" by (cases p) (auto split: sum.splits)
  from truncation_bounded [OF demo_open_ok r [unfolded p_def]] r show ?thesis unfolding p_def by blast
qed

text \<open>
  C13. What a slice reports is what its log says: it returns one of the final statuses exactly when it
  closed the turn by an answer or a termination, and otherwise leaves the turn open to be continued.
\<close>

theorem slice_status_matches_log:
  assumes "quiet_env E" and "log_ok (ru_store s)" and "run_slice E s = (Inr out, s')"
  shows "\<exists>es. st_events (ru_store s') = st_events (ru_store s) @ es
    \<and> ((\<exists>e \<in> set es. ev_type e \<in> {''assistant_message'', ''turn_terminated''} \<and> ev_turn e = current_turn (st_events (ru_store s)))
      \<longleftrightarrow> ro_status out \<in> {''completed'', ''stopped'', ''context_budget_exceeded'', ''output_truncated''})"
proof -
  obtain es where es: "st_events (ru_store s') = st_events (ru_store s) @ es"
      and "out_status (current_turn (st_events (ru_store s))) (Inr out) es"
    using run_slice_status [OF assms(1)] assms(2,3) unfolding emits_def by blast
  then show ?thesis
    by (auto simp: out_status_def final_statuses_def closed_in_def closes_turn_def)
qed

theorem slice_status_matches_log_witness:
  "\<exists>out s' es. run_slice demo_env demo_open = (Inr out, s') \<and> st_events (ru_store s') = st_events (ru_store demo_open) @ es
     \<and> ro_status out = ''completed'' \<and> (\<exists>e \<in> set es. ev_type e \<in> {''assistant_message'', ''turn_terminated''})"
proof -
  define p where "p = run_slice demo_env demo_open"
  have "(case fst p of Inr out \<Rightarrow> ro_status out = ''completed'' | _ \<Rightarrow> False)"
    unfolding p_def demo_open_def demo_turn_def demo_session_def demo_created_def by code_simp
  then obtain out where out: "p = (Inr out, snd p)" "ro_status out = ''completed''" by (cases p) (auto split: sum.splits)
  from slice_status_matches_log [OF demo_env_quiet demo_open_ok out(1) [unfolded p_def]] out
  show ?thesis unfolding p_def by (metis insertI1)
qed

section \<open>The change of workspace\<close>



end
