(* ===== verification/Path_Safety.thy ===== *)
theory Path_Safety
  imports Python_Json
begin

text \<open>
  \<^verbatim>\<open>codeagent/safety\<close>: which names are sensitive and the path guard that confines tool paths to a
  workspace. A resolved path is the list of its components below \<^verbatim>\<open>/\<close>. The file system is an
  explicit store; symbolic links are followed as \<^verbatim>\<open>Path.resolve(strict=False)\<close> does, with a bound
  on the number of links that stands for Python's loop detection.
\<close>

type_synonym path = "string list"

datatype node = Dir | File nat "char list" | Link string

type_synonym fs = "path \<Rightarrow> node option"

section \<open>Sensitive names\<close>

definition sensitive_exact :: "string list" where
  "sensitive_exact = [''.env'', ''id_rsa'', ''id_ed25519'']"

definition env_template_names :: "string list" where
  "env_template_names = [''.env.example'', ''.env.sample'', ''.env.template'']"

definition sensitive_keywords :: "string list" where
  "sensitive_keywords = [''token'', ''secret'', ''password'', ''credential'', ''credentials'']"

definition is_sensitive_name :: "string \<Rightarrow> bool" where
  "is_sensitive_name value =
     (let name = lower value in
      if name \<in> set env_template_names then False
      else if name \<in> set sensitive_exact then True
      else if starts_with ''.env.'' name then True
      else if ends_with ''.pem'' name \<or> ends_with ''.key'' name then True
      else list_ex (\<lambda>keyword. contains_str keyword name) sensitive_keywords)"

definition is_sensitive_path :: "path \<Rightarrow> bool" where
  "is_sensitive_path parts = list_ex is_sensitive_name parts"

definition sensitive_label :: "path \<Rightarrow> string option" where
  "sensitive_label p =
     (if \<not> is_sensitive_path p then None
      else let name = lower (if p = [] then [] else last p) in
        if list_ex (\<lambda>keyword. contains_str keyword name) sensitive_keywords
        then Some ''sensitive-name'' else Some ''sensitive'')"

section \<open>Resolving a path\<close>

definition is_abs :: "string \<Rightarrow> bool" where
  "is_abs s = starts_with ''/'' s"

definition link_target :: "fs \<Rightarrow> path \<Rightarrow> string option" where
  "link_target fs p = (case fs p of Some (Link t) \<Rightarrow> Some t | _ \<Rightarrow> None)"

fun realpath :: "fs \<Rightarrow> nat \<Rightarrow> path \<Rightarrow> string list \<Rightarrow> path option" where
  "realpath fs n acc [] = Some acc"
| "realpath fs n acc (p # ps) =
     (if p = [] \<or> p = ''.'' then realpath fs n acc ps
      else if p = ''..'' then realpath fs n (butlast acc) ps
      else (case link_target fs (acc @ [p]) of
              None \<Rightarrow> realpath fs n (acc @ [p]) ps
            | Some t \<Rightarrow>
                (case n of 0 \<Rightarrow> None
                 | Suc m \<Rightarrow> realpath fs m (if is_abs t then [] else acc) (split_on CHR ''/'' t @ ps))))"

text \<open>\<^verbatim>\<open>child.relative_to(parent)\<close>, with \<^verbatim>\<open>ValueError\<close> as \<^const>\<open>None\<close>.\<close>

definition relative_to :: "path \<Rightarrow> path \<Rightarrow> path option" where
  "relative_to child parent =
     (if prefix parent child then Some (drop (length parent) child) else None)"

definition is_relative_to :: "path \<Rightarrow> path \<Rightarrow> bool" where
  "is_relative_to p parent = (relative_to p parent \<noteq> None)"

text \<open>\<^verbatim>\<open>PathGuard.resolve\<close> of a guard at \<open>root\<close>.\<close>

definition guard_resolve :: "fs \<Rightarrow> nat \<Rightarrow> path \<Rightarrow> bool \<Rightarrow> string \<Rightarrow> path res" where
  "guard_resolve fs n root reject_sensitive p =
     (case realpath fs n [] (if is_abs p then split_on CHR ''/'' p
                              else root @ split_on CHR ''/'' p) of
        None \<Rightarrow> Inl (Exn RuntimeError ''symlink loop'')
      | Some resolved \<Rightarrow>
          if \<not> is_relative_to resolved root then Inl (Exn PathGuardError ''escapes workspace'')
          else if reject_sensitive \<and> is_sensitive_path (drop (length root) resolved)
          then Inl (Exn PathGuardError ''sensitive file'')
          else Inr resolved)"

section \<open>Canonical paths\<close>

definition plain_part :: "string \<Rightarrow> bool" where
  "plain_part p \<longleftrightarrow> p \<noteq> [] \<and> p \<noteq> ''.'' \<and> p \<noteq> ''..''"

text \<open>No component is a dot or a link: what a resolved path looks like.\<close>

definition is_link :: "fs \<Rightarrow> path \<Rightarrow> bool" where
  "is_link fs p = (link_target fs p \<noteq> None)"

fun canonical_from :: "fs \<Rightarrow> path \<Rightarrow> string list \<Rightarrow> bool" where
  "canonical_from fs acc [] = True"
| "canonical_from fs acc (p # ps) =
     (plain_part p \<and> \<not> is_link fs (acc @ [p]) \<and> canonical_from fs (acc @ [p]) ps)"

abbreviation canonical :: "fs \<Rightarrow> path \<Rightarrow> bool" where
  "canonical fs p \<equiv> canonical_from fs [] p"

lemma canonical_from_append:
  "canonical_from fs acc (ps @ qs) \<longleftrightarrow> canonical_from fs acc ps \<and> canonical_from fs (acc @ ps) qs"
  by (induction ps arbitrary: acc) auto

lemma canonical_butlast: "canonical fs p \<Longrightarrow> canonical fs (butlast p)"
  by (cases p rule: rev_cases) (auto simp: canonical_from_append)

lemma canonical_prefix: "canonical fs p \<Longrightarrow> prefix q p \<Longrightarrow> canonical fs q"
  by (auto simp: prefix_def canonical_from_append)

lemma realpath_canonical:
  "realpath fs n acc ps = Some r \<Longrightarrow> canonical fs acc \<Longrightarrow> canonical fs r"
proof (induction fs n acc ps rule: realpath.induct)
  case (1 fs n acc)
  then show ?case by simp
next
  case (2 fs n acc p ps)
  consider "p = [] \<or> p = ''.''" | "p = ''..''" | "plain_part p"
    unfolding plain_part_def by blast
  then show ?case
  proof cases
    case 1
    with "2.prems" "2.IH"(1) show ?thesis by simp
  next
    case 2
    then have "realpath fs n (butlast acc) ps = Some r"
      using "2.prems"(1) by simp
    with 2 show ?thesis
      by (intro "2.IH"(2) canonical_butlast "2.prems"(2)) simp_all
  next
    case 3
    then have ne: "\<not> (p = [] \<or> p = ''.'')" "p \<noteq> ''..''" by (simp_all add: plain_part_def)
    show ?thesis
    proof (cases "link_target fs (acc @ [p])")
      case None
      with 3 "2.prems"(2) have "canonical fs (acc @ [p])"
        by (simp add: canonical_from_append is_link_def)
      with "2.IH"(3) [OF ne None] "2.prems"(1) ne None show ?thesis by simp
    next
      case (Some t)
      with ne "2.prems"(1) obtain k where "n = Suc k"
        and "realpath fs k (if is_abs t then [] else acc) (split_on CHR ''/'' t @ ps) = Some r"
        by (cases n) (simp_all del: split_on.simps)
      with "2.IH"(4) [OF ne Some] "2.prems"(2) show ?thesis by simp
    qed
  qed
qed

lemma realpath_of_canonical_from:
  "canonical_from fs acc ps \<Longrightarrow> realpath fs n acc ps = Some (acc @ ps)"
  by (induction ps arbitrary: acc) (auto simp: plain_part_def is_link_def)

lemma realpath_append_canonical:
  "canonical_from fs acc ps \<Longrightarrow> realpath fs n acc (ps @ qs) = realpath fs n (acc @ ps) qs"
  by (induction ps arbitrary: acc) (auto simp: plain_part_def is_link_def)

text \<open>Following more links never changes a result.\<close>

lemma realpath_fuel_mono: "realpath fs n acc ps = Some r \<Longrightarrow> n \<le> m \<Longrightarrow> realpath fs m acc ps = Some r"
proof (induction fs n acc ps arbitrary: m rule: realpath.induct)
  case (1 fs n acc)
  then show ?case by simp
next
  case (2 fs n acc p ps)
  consider (skip) "p = [] \<or> p = ''.''" | (up) "p = ''..''" | (plain) "plain_part p"
    unfolding plain_part_def by blast
  then show ?case
  proof cases
    case skip
    with "2.prems"(1) have "realpath fs n acc ps = Some r" by simp
    from "2.IH"(1) [OF skip this "2.prems"(2)] skip show ?thesis by simp
  next
    case up
    then have np: "\<not> (p = [] \<or> p = ''.'')" by simp
    from up "2.prems"(1) have "realpath fs n (butlast acc) ps = Some r" by simp
    from "2.IH"(2) [OF np up this "2.prems"(2)] up show ?thesis by simp
  next
    case plain
    then have ne: "\<not> (p = [] \<or> p = ''.'')" "p \<noteq> ''..''" by (simp_all add: plain_part_def)
    show ?thesis
    proof (cases "link_target fs (acc @ [p])")
      case None
      with ne "2.prems"(1) have "realpath fs n (acc @ [p]) ps = Some r" by simp
      from "2.IH"(3) [OF ne None this "2.prems"(2)] ne None show ?thesis by simp
    next
      case (Some t)
      with ne "2.prems"(1) obtain k where k: "n = Suc k"
        and r: "realpath fs k (if is_abs t then [] else acc) (split_on CHR ''/'' t @ ps) = Some r"
        by (cases n) (simp_all del: split_on.simps)
      then obtain j where j: "m = Suc j" "k \<le> j"
        using "2.prems"(2) by (cases m) auto
      from "2.IH"(4) [OF ne Some k r j(2)] ne Some j show ?thesis by simp
    qed
  qed
qed

lemma guard_resolve_Inr:
  "guard_resolve fs n root rej p = Inr r \<Longrightarrow>
     prefix root r \<and> canonical fs r \<and> (rej \<longrightarrow> \<not> is_sensitive_path (drop (length root) r))"
  unfolding guard_resolve_def
  by (auto simp: is_relative_to_def relative_to_def split: option.splits if_splits
      dest!: realpath_canonical [where acc = "[]"])

lemma lower_char_idem [simp]: "lower_char (lower_char c) = lower_char c"
  by (simp add: lower_char_def Let_def)

lemma lower_idem [simp]: "lower (lower s) = lower s"
  by (simp add: lower_def)

lemma guard_resolve_plain:
  assumes "canonical fs (root @ split_on CHR ''/'' p)" and "\<not> is_abs p"
  shows "guard_resolve fs n root rej p =
    (if rej \<and> is_sensitive_path (split_on CHR ''/'' p)
     then Inl (Exn PathGuardError ''sensitive file'')
     else Inr (root @ split_on CHR ''/'' p))"
  using assms by (simp add: guard_resolve_def realpath_of_canonical_from is_relative_to_def relative_to_def)

section \<open>Properties\<close>

text \<open>
  C1. Whatever text a tool passes, absolute or relative, with dots or through symbolic links, a
  path the guard accepts lies inside the workspace root, has no link and no dot component left
  (so that resolving it again returns it), and, when sensitive names are rejected, no component
  below the root is sensitive.
\<close>

theorem guard_confines:
  assumes "guard_resolve fs n root rej p = Inr r"
  shows "prefix root r \<and> realpath fs m [] r = Some r
    \<and> (rej \<longrightarrow> (\<forall>part \<in> set (drop (length root) r). \<not> is_sensitive_name part))"
proof -
  from assms have "prefix root r" and c: "canonical fs r"
    and s: "rej \<longrightarrow> \<not> is_sensitive_path (drop (length root) r)"
    by (auto dest: guard_resolve_Inr)
  moreover from c have "realpath fs m [] r = Some r"
    by (simp add: realpath_of_canonical_from)
  moreover from s have "rej \<longrightarrow> (\<forall>part \<in> set (drop (length root) r). \<not> is_sensitive_name part)"
    by (simp add: is_sensitive_path_def list_ex_iff)
  ultimately show ?thesis by blast
qed

definition demo_fs :: fs where
  "demo_fs p =
     (if p = [''ws''] \<or> p = [''ws'', ''src''] then Some Dir
      else if p = [''ws'', ''src'', ''a.py''] then Some (File 420 ''x = 1'')
      else if p = [''ws'', ''ok''] then Some (Link ''src'')
      else if p = [''ws'', ''out''] then Some (Link ''/etc'')
      else None)"

theorem guard_confines_witness:
  "prefix [''ws''] [''ws'', ''src'', ''a.py'']
    \<and> realpath demo_fs 0 [] [''ws'', ''src'', ''a.py''] = Some [''ws'', ''src'', ''a.py'']
    \<and> guard_resolve demo_fs 5 [''ws''] True ''out/passwd'' = Inl (Exn PathGuardError ''escapes workspace'')"
proof -
  have "guard_resolve demo_fs 5 [''ws''] True ''./ok/../src/a.py'' = Inr [''ws'', ''src'', ''a.py'']"
    by code_simp
  from guard_confines [OF this, of 0] have
    "prefix [''ws''] [''ws'', ''src'', ''a.py'']
      \<and> realpath demo_fs 0 [] [''ws'', ''src'', ''a.py''] = Some [''ws'', ''src'', ''a.py'']"
    by blast
  moreover have
    "guard_resolve demo_fs 5 [''ws''] True ''out/passwd'' = Inl (Exn PathGuardError ''escapes workspace'')"
    by code_simp
  ultimately show ?thesis by blast
qed

end
