(* ===== verification/Host_Paths.thy ===== *)
theory Host_Paths
  imports Path_Safety
begin

text \<open>
  Paths of the host as \<^verbatim>\<open>pathlib\<close> handles them: an absolute path is the list of its components,
  where \<^verbatim>\<open>..\<close> may occur until the path is resolved. What \<^verbatim>\<open>os.stat\<close> says of a resolved path and the home
  directories are arguments.
\<close>

record resource_identity =
  ri_device :: int
  ri_inode :: int
  ri_mode :: int
  ri_size :: int
  ri_mtime :: int

record host =
  ho_fs :: fs
  ho_links :: nat
  ho_stat :: "path \<Rightarrow> resource_identity"
  ho_home :: "string \<Rightarrow> path option"

definition node_at :: "fs \<Rightarrow> path \<Rightarrow> node option" where
  "node_at fs p = (if p = [] then Some Dir else fs p)"

definition is_dir :: "fs \<Rightarrow> path \<Rightarrow> bool" where
  "is_dir fs p = (node_at fs p = Some Dir)"

definition is_file :: "fs \<Rightarrow> path \<Rightarrow> bool" where
  "is_file fs p = (case node_at fs p of Some (File m c) \<Rightarrow> True | _ \<Rightarrow> False)"

lemma is_dir_Nil [simp]: "is_dir fs []"
  by (simp add: is_dir_def node_at_def)

section \<open>Text\<close>

text \<open>\<^verbatim>\<open>str(p)\<close> and \<^verbatim>\<open>Path(s)\<close> of an absolute path; empty and \<^verbatim>\<open>.\<close> components are dropped.\<close>

definition path_text :: "path \<Rightarrow> string" where
  "path_text p = (if p = [] then ''/'' else concat (map (\<lambda>c. CHR ''/'' # c) p))"

definition path_parts :: "string \<Rightarrow> path" where
  "path_parts s = filter (\<lambda>c. c \<noteq> [] \<and> c \<noteq> ''.'') (split_on CHR ''/'' s)"

definition path_part :: "string \<Rightarrow> bool" where
  "path_part c \<longleftrightarrow> c \<noteq> [] \<and> c \<noteq> ''.'' \<and> CHR ''/'' \<notin> set c"

lemma split_on_components:
  "list_all path_part p \<Longrightarrow> p \<noteq> [] \<Longrightarrow> split_on CHR ''/'' (concat (map (\<lambda>c. CHR ''/'' # c) p)) = [] # p"
proof (induction p)
  case (Cons c p)
  then show ?case
    by (cases p) (auto simp: path_part_def split_on_plain split_on_append_sep)
qed simp

lemma path_parts_text: "list_all path_part p \<Longrightarrow> path_parts (path_text p) = p"
proof (cases "p = []")
  case False
  assume "list_all path_part p"
  moreover from this have "filter (\<lambda>c. c \<noteq> [] \<and> c \<noteq> ''.'') p = p"
    by (auto simp: filter_id_conv list_all_iff path_part_def)
  ultimately show ?thesis
    using False by (simp add: path_text_def path_parts_def split_on_components)
qed (simp add: path_parts_def path_text_def)

lemma path_text_inject: "list_all path_part p \<Longrightarrow> list_all path_part q \<Longrightarrow> path_text p = path_text q \<longleftrightarrow> p = q"
  by (metis path_parts_text)

section \<open>Resolution\<close>

text \<open>\<^verbatim>\<open>p.resolve(strict=False)\<close>.\<close>

definition resolve_path :: "host \<Rightarrow> path \<Rightarrow> path res" where
  "resolve_path h p = (case realpath (ho_fs h) (ho_links h) [] p of
     None \<Rightarrow> Inl (Exn RuntimeError ''symlink loop'') | Some r \<Rightarrow> Inr r)"

text \<open>\<^verbatim>\<open>os.path.realpath(p, strict=True)\<close>: every component must exist, and only directories have components.\<close>

fun realpath_strict :: "fs \<Rightarrow> nat \<Rightarrow> path \<Rightarrow> string list \<Rightarrow> path res" where
  "realpath_strict fs n acc [] = Inr acc"
| "realpath_strict fs n acc (p # ps) =
     (if p = [] \<or> p = ''.'' then realpath_strict fs n acc ps
      else if p = ''..'' then realpath_strict fs n (butlast acc) ps
      else (case fs (acc @ [p]) of
          None \<Rightarrow> Inl (if is_file fs acc then Exn OSError ''not a directory'' else Exn OSError ''not found'')
        | Some (Link t) \<Rightarrow>
            (case n of 0 \<Rightarrow> Inl (Exn RuntimeError ''symlink loop'')
             | Suc m \<Rightarrow> realpath_strict fs m (if is_abs t then [] else acc) (split_on CHR ''/'' t @ ps))
        | Some x \<Rightarrow> realpath_strict fs n (acc @ [p]) ps))"

definition resolve_strict :: "host \<Rightarrow> path \<Rightarrow> path res" where
  "resolve_strict h p = realpath_strict (ho_fs h) (ho_links h) [] p"

definition not_found :: exn where
  "not_found = Exn OSError ''not found''"

text \<open>\<^verbatim>\<open>p.exists()\<close>: the kernel's resolution, which passes \<^verbatim>\<open>..\<close> through directories only.\<close>

fun stat_walk :: "fs \<Rightarrow> nat \<Rightarrow> path \<Rightarrow> string list \<Rightarrow> path option" where
  "stat_walk fs n acc [] = Some acc"
| "stat_walk fs n acc (p # ps) =
     (if \<not> is_dir fs acc then None
      else if p = [] \<or> p = ''.'' then stat_walk fs n acc ps
      else if p = ''..'' then stat_walk fs n (butlast acc) ps
      else (case fs (acc @ [p]) of
          None \<Rightarrow> None
        | Some (Link t) \<Rightarrow>
            (case n of 0 \<Rightarrow> None
             | Suc m \<Rightarrow> stat_walk fs m (if is_abs t then [] else acc) (split_on CHR ''/'' t @ ps))
        | Some x \<Rightarrow> stat_walk fs n (acc @ [p]) ps))"

definition path_exists :: "host \<Rightarrow> path \<Rightarrow> bool" where
  "path_exists h p = (stat_walk (ho_fs h) (ho_links h) [] p \<noteq> None)"

text \<open>\<^verbatim>\<open>p.is_dir()\<close> of a path that need not be resolved.\<close>

definition path_is_dir :: "host \<Rightarrow> path \<Rightarrow> bool" where
  "path_is_dir h p = (case stat_walk (ho_fs h) (ho_links h) [] p of None \<Rightarrow> False | Some r \<Rightarrow> is_dir (ho_fs h) r)"

section \<open>What strict resolution returns\<close>

lemma realpath_strict_node:
  "realpath_strict fs n acc ps = Inr r \<Longrightarrow> (\<forall>q. prefix q acc \<longrightarrow> node_at fs q \<noteq> None) \<Longrightarrow> node_at fs r \<noteq> None"
proof (induction fs n acc ps rule: realpath_strict.induct)
  case (2 fs n acc p ps)
  consider (skip) "p = [] \<or> p = ''.''" | (up) "p = ''..''" | (plain) "p \<noteq> []" "p \<noteq> ''.''" "p \<noteq> ''..''" by blast
  then show ?case
  proof cases
    case skip
    with "2.prems" "2.IH"(1) show ?thesis by simp
  next
    case up
    then have "realpath_strict fs n (butlast acc) ps = Inr r" using "2.prems"(1) by simp
    moreover have "\<forall>q. prefix q (butlast acc) \<longrightarrow> node_at fs q \<noteq> None"
      using "2.prems"(2) by (meson prefixeq_butlast prefix_order.trans)
    ultimately show ?thesis using "2.IH"(2) up by simp
  next
    case plain
    then have ne: "\<not> (p = [] \<or> p = ''.'')" by simp
    show ?thesis
    proof (cases "fs (acc @ [p])")
      case None
      with plain "2.prems"(1) show ?thesis by simp
    next
      case (Some x)
      show ?thesis
      proof (cases x)
        case (Link t)
        with plain Some "2.prems"(1) obtain m where m: "n = Suc m"
          and r: "realpath_strict fs m (if is_abs t then [] else acc) (split_on CHR ''/'' t @ ps) = Inr r"
          by (cases n) (simp_all del: split_on.simps)
        have "\<forall>q. prefix q (if is_abs t then [] else acc) \<longrightarrow> node_at fs q \<noteq> None"
          using "2.prems"(2) by (auto simp: node_at_def)
        from "2.IH"(5) [OF ne plain(3) Some Link m r this] show ?thesis .
      next
        case Dir
        then have r: "realpath_strict fs n (acc @ [p]) ps = Inr r" using plain Some "2.prems"(1) by simp
        have "\<forall>q. prefix q (acc @ [p]) \<longrightarrow> node_at fs q \<noteq> None"
          using "2.prems"(2) Some by (auto simp: node_at_def prefix_snoc)
        from "2.IH"(3) [OF ne plain(3) Some Dir r this] show ?thesis .
      next
        case (File m c)
        then have r: "realpath_strict fs n (acc @ [p]) ps = Inr r" using plain Some "2.prems"(1) by simp
        have "\<forall>q. prefix q (acc @ [p]) \<longrightarrow> node_at fs q \<noteq> None"
          using "2.prems"(2) Some by (auto simp: node_at_def prefix_snoc)
        from "2.IH"(4) [OF ne plain(3) Some File r this] show ?thesis .
      qed
    qed
  qed
qed simp

lemma realpath_strict_realpath:
  "realpath_strict fs n acc ps = Inr r \<Longrightarrow> realpath fs n acc ps = Some r"
proof (induction fs n acc ps rule: realpath_strict.induct)
  case (2 fs n acc p ps)
  consider (skip) "p = [] \<or> p = ''.''" | (up) "p = ''..''" | (plain) "p \<noteq> []" "p \<noteq> ''.''" "p \<noteq> ''..''" by blast
  then show ?case
  proof cases
    case plain
    then have ne: "\<not> (p = [] \<or> p = ''.'')" by simp
    obtain x where x: "fs (acc @ [p]) = Some x" using plain "2.prems" by (cases "fs (acc @ [p])") auto
    show ?thesis
    proof (cases x)
      case Dir
      with "2.IH"(3) [OF ne plain(3) x Dir] "2.prems" plain x show ?thesis by (simp add: link_target_def)
    next
      case (File m c)
      with "2.IH"(4) [OF ne plain(3) x File] "2.prems" plain x show ?thesis by (simp add: link_target_def)
    next
      case (Link t)
      with plain x "2.prems" obtain m where m: "n = Suc m"
        and r: "realpath_strict fs m (if is_abs t then [] else acc) (split_on CHR ''/'' t @ ps) = Inr r"
        by (cases n) (simp_all del: split_on.simps)
      from "2.IH"(5) [OF ne plain(3) x Link m r] plain x Link m show ?thesis by (simp add: link_target_def del: split_on.simps)
    qed
  qed (use "2.IH"(1,2) "2.prems" in simp_all)
qed simp

lemma resolve_strict_Inr:
  assumes "resolve_strict h p = Inr r"
  shows "canonical (ho_fs h) r" and "node_at (ho_fs h) r \<noteq> None" and "resolve_path h p = Inr r"
  using assms realpath_strict_realpath [of "ho_fs h" "ho_links h" "[]" p r]
    realpath_strict_node [of "ho_fs h" "ho_links h" "[]" p r] realpath_canonical [of "ho_fs h" "ho_links h" "[]" p r]
  by (auto simp: resolve_strict_def resolve_path_def node_at_def)

lemma resolve_path_canonical: "canonical (ho_fs h) p \<Longrightarrow> resolve_path h p = Inr p"
  by (simp add: resolve_path_def realpath_of_canonical_from)

lemma resolve_path_Inr: "resolve_path h p = Inr r \<Longrightarrow> canonical (ho_fs h) r"
  by (auto simp: resolve_path_def split: option.splits dest: realpath_canonical)

section \<open>Containment\<close>

text \<open>\<^verbatim>\<open>child.relative_to(parent)\<close> succeeds.\<close>

abbreviation inside_path :: "path \<Rightarrow> path \<Rightarrow> bool" where
  "inside_path child parent \<equiv> is_relative_to child parent"

lemma is_relative_to_prefix: "is_relative_to p q \<longleftrightarrow> prefix q p"
  by (simp add: is_relative_to_def relative_to_def)

end
