(* ===== verification/Permissions.thy ===== *)
theory Permissions
  imports Host_Paths Session_Machine
begin

text \<open>
  \<^verbatim>\<open>runtime/permissions.py\<close>: the resource permissions a command asks for, how a request is bound to
  a resource of the host, the check that the resource is still the same after approval, and the
  grants a session keeps.
\<close>

datatype capability = FilesystemRead | FilesystemWrite | NetworkAccess

datatype permission_decision = PermAllow | PermAsk | PermDeny

datatype permission_scope = ScopeOnce | ScopeSession

datatype network_mode = NetOff | NetHost

fun capability_value :: "capability \<Rightarrow> string" where
  "capability_value FilesystemRead = ''filesystem_read''"
| "capability_value FilesystemWrite = ''filesystem_write''"
| "capability_value NetworkAccess = ''network''"

fun decision_text :: "permission_decision \<Rightarrow> string" where
  "decision_text PermAllow = ''allow''"
| "decision_text PermAsk = ''ask''"
| "decision_text PermDeny = ''deny''"

fun scope_value :: "permission_scope \<Rightarrow> string" where
  "scope_value ScopeOnce = ''once''"
| "scope_value ScopeSession = ''session''"

fun network_value :: "network_mode \<Rightarrow> string" where
  "network_value NetOff = ''off''"
| "network_value NetHost = ''host''"

definition parse_capability :: "json \<Rightarrow> capability option" where
  "parse_capability v = find (\<lambda>c. v = JStr (capability_value c)) [FilesystemRead, FilesystemWrite, NetworkAccess]"

definition parse_scope :: "json \<Rightarrow> permission_scope option" where
  "parse_scope v = find (\<lambda>c. v = JStr (scope_value c)) [ScopeOnce, ScopeSession]"

lemma parse_capability_value [simp]: "parse_capability (JStr (capability_value c)) = Some c"
  by (cases c) (simp_all add: parse_capability_def)

lemma parse_scope_value [simp]: "parse_scope (JStr (scope_value c)) = Some c"
  by (cases c) (simp_all add: parse_scope_def)

section \<open>Requests and grants\<close>

record permission_request =
  pr_capability :: capability
  pr_reason :: string
  pr_scope :: permission_scope
  pr_requested :: "string option"
  pr_resolved :: "path option"
  pr_identity :: "resource_identity option"
  pr_kind :: "string option"
  pr_expanded :: bool

record permission_grant =
  pg_capability :: capability
  pg_scope :: permission_scope
  pg_resolved :: "path option"
  pg_identity :: "resource_identity option"
  pg_kind :: "string option"
  pg_approval :: "string option"

definition opt_path :: "path option \<Rightarrow> json" where
  "opt_path p = opt_str (map_option path_text p)"

definition request_dict :: "permission_request \<Rightarrow> dict" where
  "request_dict r = [(''capability'', JStr (capability_value (pr_capability r))), (''reason'', JStr (pr_reason r)),
     (''scope'', JStr (scope_value (pr_scope r))), (''requested_resource'', opt_str (pr_requested r)),
     (''resolved_resource'', opt_path (pr_resolved r)), (''resource_kind'', opt_str (pr_kind r)),
     (''parent_expanded'', JBool (pr_expanded r))]"

definition identity_dict :: "resource_identity \<Rightarrow> dict" where
  "identity_dict i = [(''device'', JInt (ri_device i)), (''inode'', JInt (ri_inode i)), (''mode'', JInt (ri_mode i)),
     (''size'', JInt (ri_size i)), (''mtime_ns'', JInt (ri_mtime i))]"

definition grant_dict :: "permission_grant \<Rightarrow> dict" where
  "grant_dict g = [(''capability'', JStr (capability_value (pg_capability g))), (''scope'', JStr (scope_value (pg_scope g))),
     (''resolved_resource'', opt_path (pg_resolved g)),
     (''resource_identity'', case pg_identity g of None \<Rightarrow> JNull | Some i \<Rightarrow> JObj (identity_dict i)),
     (''resource_kind'', opt_str (pg_kind g)), (''approval_id'', opt_str (pg_approval g))]"

text \<open>
  \<^verbatim>\<open>ResourceIdentity(**raw)\<close> takes exactly its five fields. Python does not check that they are
  integers; here anything else is the \<^verbatim>\<open>TypeError\<close> of a wrong field.
\<close>

definition int_field :: "dict \<Rightarrow> string \<Rightarrow> int res" where
  "int_field d k = (case map_of d k of Some (JInt n) \<Rightarrow> Inr n | _ \<Rightarrow> Inl (Exn TypeError k))"

definition identity_of :: "dict \<Rightarrow> resource_identity res" where
  "identity_of d =
     (if set (map fst d) \<noteq> {''device'', ''inode'', ''mode'', ''size'', ''mtime_ns''}
      then Inl (Exn TypeError ''ResourceIdentity'')
      else rbind (int_field d ''device'') (\<lambda>device. rbind (int_field d ''inode'') (\<lambda>inode.
        rbind (int_field d ''mode'') (\<lambda>mode. rbind (int_field d ''size'') (\<lambda>size. rbind (int_field d ''mtime_ns'') (\<lambda>mtime.
        Inr \<lparr>ri_device = device, ri_inode = inode, ri_mode = mode, ri_size = size, ri_mtime = mtime\<rparr>))))))"

definition grant_of :: "dict \<Rightarrow> permission_grant res" where
  "grant_of d =
     rbind (case dget d ''resource_identity'' of JObj i \<Rightarrow> rbind (identity_of i) (\<lambda>x. Inr (Some x)) | _ \<Rightarrow> Inr None) (\<lambda>identity.
     rbind (dindex d ''capability'') (\<lambda>c. case parse_capability c of None \<Rightarrow> Inl (Exn ValueError ''capability'') | Some capability \<Rightarrow>
     rbind (dindex d ''scope'') (\<lambda>s. case parse_scope s of None \<Rightarrow> Inl (Exn ValueError ''scope'') | Some scope \<Rightarrow>
     rbind (case dget d ''resolved_resource'' of JStr [] \<Rightarrow> Inr None | JStr p \<Rightarrow> Inr (Some (path_parts p)) | v \<Rightarrow>
         if truthy v then Inl (Exn TypeError ''path'') else Inr None) (\<lambda>resolved.
     Inr \<lparr>pg_capability = capability, pg_scope = scope, pg_resolved = resolved, pg_identity = identity,
       pg_kind = as_str (dget d ''resource_kind''), pg_approval = as_str (dget d ''approval_id'')\<rparr>))))"

section \<open>Binding a request to a resource\<close>

definition perm_error :: "string \<Rightarrow> exn" where
  "perm_error code = Exn PermissionError code"

text \<open>
  \<^verbatim>\<open>Path(s).expanduser()\<close>, relative to the candidate root when it stays relative. A home that is not
  known is the \<^verbatim>\<open>RuntimeError\<close> of \<^verbatim>\<open>expanduser\<close>.
\<close>

definition relative_parts :: "string \<Rightarrow> string list" where
  "relative_parts s = path_parts s"

definition expand_user :: "host \<Rightarrow> path \<Rightarrow> string \<Rightarrow> path res" where
  "expand_user h root s =
     (if is_abs s then Inr (path_parts s)
      else case relative_parts s of
        (c # user) # ps \<Rightarrow>
          if c = CHR ''~''
          then (case ho_home h user of None \<Rightarrow> Inl (Exn RuntimeError ''home'') | Some home \<Rightarrow> Inr (home @ ps))
          else Inr (root @ (c # user) # ps)
      | ps \<Rightarrow> Inr (root @ ps))"

text \<open>The closest ancestor that exists.\<close>

function existing_parent :: "host \<Rightarrow> path \<Rightarrow> path" where
  "existing_parent h p = (if path_exists h p \<or> p = [] then p else existing_parent h (butlast p))"
  by auto
termination
  by (relation "measure (\<lambda>(h, p). length p)") auto

declare existing_parent.simps [simp del]

definition resolve_requested :: "host \<Rightarrow> capability \<Rightarrow> path \<Rightarrow> (path \<times> bool) res" where
  "resolve_requested h c requested =
     (case resolve_strict h requested of
        Inr r \<Rightarrow> Inr (r, False)
      | Inl e \<Rightarrow>
          if e = not_found then
            (if c = FilesystemRead then Inl (perm_error ''permission_resource_not_found'')
             else (case resolve_strict h (existing_parent h (butlast requested)) of
                 Inl e' \<Rightarrow> Inl (perm_error ''permission_resource_invalid'')
               | Inr r \<Rightarrow> if r = [] then Inl (perm_error ''permission_denied'') else Inr (r, True)))
          else Inl (perm_error ''permission_resource_invalid''))"

text \<open>The loop over the hard denied paths; their own resolution may raise.\<close>

fun check_denied :: "host \<Rightarrow> path list \<Rightarrow> path \<Rightarrow> unit res" where
  "check_denied h [] r = Inr ()"
| "check_denied h (d # ds) r = rbind (resolve_path h d) (\<lambda>denied.
     if inside_path r denied \<or> inside_path denied r then Inl (perm_error ''permission_denied'')
     else check_denied h ds r)"

definition valid_text :: "int \<Rightarrow> string \<Rightarrow> bool" where
  "valid_text limit s = (int (py_len s) \<le> limit \<and> CHR 0x00 \<notin> set s)"

definition network_request :: "string \<Rightarrow> permission_scope \<Rightarrow> permission_request" where
  "network_request reason scope = \<lparr>pr_capability = NetworkAccess, pr_reason = strip reason, pr_scope = scope,
     pr_requested = None, pr_resolved = None, pr_identity = None, pr_kind = None, pr_expanded = False\<rparr>"

definition bind_resource ::
  "host \<Rightarrow> capability \<Rightarrow> string \<Rightarrow> permission_scope \<Rightarrow> string \<Rightarrow> path \<Rightarrow> path list \<Rightarrow> permission_request res" where
  "bind_resource h c reason scope resource root denied =
     rbind (expand_user h root resource) (\<lambda>requested.
     rbind (resolve_requested h c requested) (\<lambda>(r, expanded).
     rbind (check_denied h denied r) (\<lambda>u.
     if \<not> is_file (ho_fs h) r \<and> \<not> is_dir (ho_fs h) r
     then Inl (perm_error ''permission_resource_invalid'')
     else Inr \<lparr>pr_capability = c, pr_reason = strip reason, pr_scope = scope,
       pr_requested = Some resource, pr_resolved = Some r, pr_identity = Some (ho_stat h r),
       pr_kind = Some (if is_dir (ho_fs h) r then ''directory'' else ''file''), pr_expanded = expanded\<rparr>)))"

definition permission_fields :: "capability \<Rightarrow> string set" where
  "permission_fields c = {''capability'', ''reason'', ''scope''} \<union> (if c = NetworkAccess then {} else {''resource''})"

definition parse_fields ::
  "host \<Rightarrow> capability \<Rightarrow> permission_scope \<Rightarrow> dict \<Rightarrow> path \<Rightarrow> path list \<Rightarrow> permission_request res" where
  "parse_fields h c scope d root denied =
     (if set (map fst d) \<noteq> permission_fields c then Inl (perm_error ''invalid_arguments'')
      else case as_str (dget d ''reason'') of None \<Rightarrow> Inl (perm_error ''invalid_arguments'')
      | Some reason \<Rightarrow>
          if strip reason = [] \<or> \<not> valid_text 500 reason then Inl (perm_error ''invalid_arguments'')
          else if c = NetworkAccess then Inr (network_request reason scope)
          else case as_str (dget d ''resource'') of None \<Rightarrow> Inl (perm_error ''invalid_arguments'')
          | Some resource \<Rightarrow>
              if resource = [] \<or> \<not> valid_text 4096 resource then Inl (perm_error ''invalid_arguments'')
              else bind_resource h c reason scope resource root denied)"

definition parse_permission_request ::
  "host \<Rightarrow> json \<Rightarrow> path \<Rightarrow> path list \<Rightarrow> permission_request res" where
  "parse_permission_request h raw root denied =
     (case raw of JObj d \<Rightarrow>
       (case (parse_capability (dget d ''capability''), parse_scope (dget d ''scope'')) of
          (Some c, Some scope) \<Rightarrow> parse_fields h c scope d root denied
        | _ \<Rightarrow> Inl (perm_error ''invalid_arguments''))
     | _ \<Rightarrow> Inl (perm_error ''invalid_arguments''))"

text \<open>
  \<^verbatim>\<open>recheck_request\<close>. Only an absolute text is expanded, and an absolute text never starts with a
  tilde: the home directory of \<^verbatim>\<open>~\<close> is not looked up here.
\<close>

definition recheck_requested :: "path \<Rightarrow> string \<Rightarrow> path" where
  "recheck_requested root s = (if is_abs s then path_parts s else root @ relative_parts s)"

definition recheck_request :: "host \<Rightarrow> permission_request \<Rightarrow> path \<Rightarrow> unit res" where
  "recheck_request h r root =
     (case (pr_resolved r, pr_identity r) of
        (Some resolved, Some identity) \<Rightarrow>
          let named = recheck_requested root (case pr_requested r of None \<Rightarrow> [] | Some s \<Rightarrow> s);
              requested = (if pr_expanded r then existing_parent h named else named) in
          (case resolve_strict h requested of
             Inl e \<Rightarrow> Inl (perm_error ''permission_resource_changed'')
           | Inr now \<Rightarrow> if now \<noteq> resolved \<or> ho_stat h now \<noteq> identity
               then Inl (perm_error ''permission_resource_changed'') else Inr ())
      | _ \<Rightarrow> Inr ())"

section \<open>The grants of a session\<close>

text \<open>\<^verbatim>\<open>permission_grants\<close> and \<^verbatim>\<open>add_permission_grants\<close> of the session store.\<close>

definition json_items :: "json \<Rightarrow> json list res" where
  "json_items v = (case v of JArr xs \<Rightarrow> Inr xs | _ \<Rightarrow> Inl (Exn TypeError ''grants''))"

definition permission_grants :: "permission_grant list store_prog" where
  "permission_grants = bnd read_meta (\<lambda>meta.
     lift (rbind (json_items (dget_or meta ''permission_grants'' (JArr []))) (\<lambda>items.
       rmap (\<lambda>item. case item of JObj d \<Rightarrow> grant_of d | _ \<Rightarrow> Inl (Exn AttributeError ''get'')) items)))"

definition add_permission_grants :: "permission_grant list \<Rightarrow> unit store_prog" where
  "add_permission_grants gs = bnd read_meta (\<lambda>meta.
     bnd (lift (json_items (dget_or meta ''permission_grants'' (JArr [])))) (\<lambda>items.
     write_state (dset ''permission_grants'' (JArr (items @ map (JObj \<circ> grant_dict) gs)) meta)))"

section \<open>Round trips\<close>

definition grant_wf :: "permission_grant \<Rightarrow> bool" where
  "grant_wf g \<longleftrightarrow> (\<forall>p. pg_resolved g = Some p \<longrightarrow> list_all path_part p)"

lemma identity_of_dict [simp]: "identity_of (identity_dict i) = Inr i"
  by (auto simp: identity_of_def identity_dict_def int_field_def)

lemma path_text_nonempty [simp]: "path_text p \<noteq> []"
  by (cases p) (simp_all add: path_text_def)

lemma opt_path_cases:
  "(case opt_path p of JStr [] \<Rightarrow> Inr None | JStr t \<Rightarrow> Inr (Some (path_parts t)) | v \<Rightarrow> if truthy v then Inl e else Inr None)
    = Inr (map_option (path_parts \<circ> path_text) p)"
  by (cases p) (auto simp: opt_path_def split: list.splits)

lemma as_str_opt_str [simp]: "as_str (opt_str x) = x"
  by (cases x) simp_all

lemma grant_of_dict: "grant_wf g \<Longrightarrow> grant_of (grant_dict g) = Inr g"
  by (cases "pg_identity g"; cases "pg_resolved g")
    (auto simp: grant_of_def grant_dict_def dget_or_def dindex_def opt_path_cases grant_wf_def path_parts_text)

lemma rmap_append: "rmap f (xs @ ys) = rbind (rmap f xs) (\<lambda>us. rbind (rmap f ys) (\<lambda>vs. Inr (us @ vs)))"
proof (induction xs)
  case Nil
  then show ?case by (cases "rmap f ys") simp_all
next
  case (Cons x xs)
  then show ?case by (cases "f x"; cases "rmap f xs"; cases "rmap f ys") simp_all
qed

lemma rmap_grants:
  "list_all grant_wf gs \<Longrightarrow>
    rmap (\<lambda>item. case item of JObj d \<Rightarrow> grant_of d | _ \<Rightarrow> Inl (Exn AttributeError ''get'')) (map (JObj \<circ> grant_dict) gs) = Inr gs"
  by (induction gs) (simp_all add: grant_of_dict)

text \<open>
  The grants a session keeps are read back as they were added: adding grants appends them to the
  grants read before, and touches neither the log nor any other field of the session.
\<close>

theorem grants_roundtrip:
  assumes "permission_grants st = (Inr old, st)" and "list_all grant_wf gs"
  shows "\<exists>st'. add_permission_grants gs st = (Inr (), st') \<and> permission_grants st' = (Inr (old @ gs), st')
    \<and> st_events st' = st_events st \<and> (\<forall>k. k \<noteq> ''permission_grants'' \<longrightarrow> map_of (st_meta st') k = map_of (st_meta st) k)"
proof -
  obtain meta items where meta: "read_meta st = (Inr meta, st)"
      and items: "json_items (dget_or meta ''permission_grants'' (JArr [])) = Inr items"
      and old: "rmap (\<lambda>item. case item of JObj d \<Rightarrow> grant_of d | _ \<Rightarrow> Inl (Exn AttributeError ''get'')) items = Inr old"
    using assms(1) unfolding permission_grants_def
    by (auto simp: bnd_eq_Inr rbind_eq_Inr read_meta_def)
  have same: "meta = st_meta st" "check_meta (st_meta st) = Inr (st_meta st)"
    using meta by (auto simp: read_meta_def check_meta_def split: if_splits)
  let ?st = "st\<lparr>st_meta := dset ''permission_grants'' (JArr (items @ map (JObj \<circ> grant_dict) gs)) meta\<rparr>"
  have "add_permission_grants gs st = (Inr (), ?st)"
    using meta by (simp add: add_permission_grants_def items write_state_def)
  moreover have "read_meta ?st = (Inr (st_meta ?st), ?st)"
    using same by (simp add: read_meta_def check_meta_def dget_or_def split: if_splits)
  then have "permission_grants ?st = (Inr (old @ gs), ?st)"
    unfolding permission_grants_def
    by (simp add: json_items_def rmap_append old rmap_grants [OF assms(2)])
  ultimately show ?thesis using same by (intro exI [of _ ?st]) simp
qed

definition demo_grant :: permission_grant where
  "demo_grant = \<lparr>pg_capability = FilesystemWrite, pg_scope = ScopeSession, pg_resolved = Some [''opt'', ''cache''],
     pg_identity = Some \<lparr>ri_device = 1, ri_inode = 7, ri_mode = 16877, ri_size = 4096, ri_mtime = 5\<rparr>,
     pg_kind = Some ''directory'', pg_approval = None\<rparr>"

theorem grants_roundtrip_witness:
  "\<exists>st'. add_permission_grants [demo_grant] demo_session = (Inr (), st') \<and> permission_grants st' = (Inr [demo_grant], st')"
proof -
  have "list_all grant_wf [demo_grant]"
    by (simp add: grant_wf_def demo_grant_def path_part_def)
  moreover have "(case fst (permission_grants demo_session) of Inr gs \<Rightarrow> gs = [] | _ \<Rightarrow> False)"
    unfolding demo_session_def demo_created_def by code_simp
  then have "permission_grants demo_session = (Inr [], demo_session)"
    by (cases "permission_grants demo_session")
      (auto simp: permission_grants_def read_meta_def bnd_def lift_def split: sum.splits)
  ultimately show ?thesis using grants_roundtrip [of demo_session "[]" "[demo_grant]"] by auto
qed

section \<open>What an accepted request says\<close>

lemma existing_parent_prefix: "prefix (existing_parent h p) p"
proof (induction h p rule: existing_parent.induct)
  case (1 h p)
  then show ?case
    by (subst existing_parent.simps) (auto intro: prefix_order.trans prefixeq_butlast)
qed

lemma check_denied_Inr:
  "check_denied h ds r = Inr u \<Longrightarrow> d \<in> set ds \<Longrightarrow>
    \<exists>x. resolve_path h d = Inr x \<and> \<not> inside_path r x \<and> \<not> inside_path x r"
  by (induction ds) (auto simp: rbind_eq_Inr split: if_splits)

lemma resolve_requested_Inr:
  assumes "resolve_requested h c requested = Inr (r, expanded)"
  shows "canonical (ho_fs h) r \<and> node_at (ho_fs h) r \<noteq> None
    \<and> (expanded \<longrightarrow> c \<noteq> FilesystemRead \<and> r \<noteq> [] \<and> resolve_strict h requested = Inl not_found
         \<and> resolve_strict h (existing_parent h (butlast requested)) = Inr r)
    \<and> (\<not> expanded \<longrightarrow> resolve_strict h requested = Inr r)"
  using assms resolve_strict_Inr
  unfolding resolve_requested_def by (force split: sum.splits if_splits)

lemma parse_request_Inr:
  assumes "parse_permission_request h raw root denied = Inr r"
  shows "(\<exists>reason scope. r = network_request reason scope)
    \<or> (\<exists>c reason scope resource. c \<noteq> NetworkAccess \<and> bind_resource h c reason scope resource root denied = Inr r)"
  using assms unfolding parse_permission_request_def parse_fields_def
  by (fastforce split: json.splits option.splits if_splits)

lemma parse_request_network:
  assumes "parse_permission_request h raw root denied = Inr r" and "pr_capability r = NetworkAccess"
  shows "pr_resolved r = None \<and> pr_requested r = None"
  using parse_request_Inr [OF assms(1)] assms(2)
  by (auto simp: network_request_def bind_resource_def rbind_eq_Inr split: if_splits)

lemma parse_request_cases:
  assumes "parse_permission_request h raw root denied = Inr r" and "pr_capability r \<noteq> NetworkAccess"
  obtains resource requested path where "pr_requested r = Some resource" and "pr_resolved r = Some path"
    and "pr_identity r = Some (ho_stat h path)" and "expand_user h root resource = Inr requested"
    and "resolve_requested h (pr_capability r) requested = Inr (path, pr_expanded r)"
    and "check_denied h denied path = Inr ()" and "is_file (ho_fs h) path \<or> is_dir (ho_fs h) path"
    and "pr_kind r = Some (if is_dir (ho_fs h) path then ''directory'' else ''file'')"
  using parse_request_Inr [OF assms(1)] assms(2)
  by (auto simp: network_request_def bind_resource_def rbind_eq_Inr split: if_splits)

text \<open>
  C15. An accepted request for a file system resource names a canonical path that exists, is a file or
  a directory and lies neither above nor below any denied path; only a write may have been widened to
  an existing parent, and never to the root of the file system.
\<close>

theorem parsed_request_is_safe:
  assumes "parse_permission_request h raw root denied = Inr r" and "pr_capability r \<noteq> NetworkAccess"
  shows "\<exists>p. pr_resolved r = Some p \<and> canonical (ho_fs h) p \<and> pr_identity r = Some (ho_stat h p)
    \<and> (is_file (ho_fs h) p \<or> is_dir (ho_fs h) p)
    \<and> (\<forall>d \<in> set denied. \<exists>x. resolve_path h d = Inr x \<and> \<not> prefix x p \<and> \<not> prefix p x)
    \<and> (pr_expanded r \<longrightarrow> pr_capability r = FilesystemWrite \<and> p \<noteq> [])"
proof -
  obtain resource requested p where p: "pr_resolved r = Some p" "pr_identity r = Some (ho_stat h p)"
    "resolve_requested h (pr_capability r) requested = Inr (p, pr_expanded r)" "check_denied h denied p = Inr ()"
    "is_file (ho_fs h) p \<or> is_dir (ho_fs h) p"
    by (rule parse_request_cases [OF assms])
  have "\<forall>d \<in> set denied. \<exists>x. resolve_path h d = Inr x \<and> \<not> prefix x p \<and> \<not> prefix p x"
    using check_denied_Inr [OF p(4)] by (simp add: is_relative_to_prefix)
  moreover have "pr_expanded r \<longrightarrow> pr_capability r = FilesystemWrite \<and> p \<noteq> []"
    using resolve_requested_Inr [OF p(3)] assms(2) by (cases "pr_capability r") auto
  ultimately show ?thesis using p resolve_requested_Inr [OF p(3)] by blast
qed

definition demo_tree :: fs where
  "demo_tree p =
     (if p \<in> {[''wt''], [''home''], [''home'', ''me''], [''home'', ''me'', ''.ssh''], [''opt'']} then Some Dir
      else if p = [''wt'', ''a.py''] then Some (File 420 ''x = 1'')
      else if p = [''home'', ''me'', ''data''] then Some (File 420 ''d'')
      else if p = [''wt'', ''keys''] then Some (Link ''/home/me/.ssh'')
      else None)"

definition demo_stat :: "path \<Rightarrow> resource_identity" where
  "demo_stat p = \<lparr>ri_device = 1, ri_inode = int (length (concat p)), ri_mode = 420, ri_size = 1, ri_mtime = 0\<rparr>"

definition demo_host :: host where
  "demo_host = \<lparr>ho_fs = demo_tree, ho_links = 5, ho_stat = demo_stat,
     ho_home = (\<lambda>u. if u = [] then Some [''home'', ''me''] else None)\<rparr>"

definition demo_raw :: "string \<Rightarrow> json" where
  "demo_raw resource = JObj [(''capability'', JStr ''filesystem_write''), (''resource'', JStr resource),
     (''reason'', JStr ''build''), (''scope'', JStr ''session'')]"

theorem parsed_request_is_safe_witness:
  "parse_permission_request demo_host (demo_raw ''keys/id'') [''wt''] [[''home'', ''me'', ''.ssh'']] = Inl (perm_error ''permission_denied'')
    \<and> (\<exists>r. parse_permission_request demo_host (demo_raw ''/opt/new/x'') [''wt''] [[''home'', ''me'', ''.ssh'']] = Inr r
        \<and> pr_resolved r = Some [''opt''] \<and> pr_expanded r \<and> canonical demo_tree [''opt''])"
proof -
  define x where "x = parse_permission_request demo_host (demo_raw ''/opt/new/x'') [''wt''] [[''home'', ''me'', ''.ssh'']]"
  have "(case x of Inr r \<Rightarrow> pr_resolved r = Some [''opt''] \<and> pr_expanded r \<and> pr_capability r = FilesystemWrite | _ \<Rightarrow> False)"
    unfolding x_def by code_simp
  then obtain r where r: "x = Inr r" "pr_resolved r = Some [''opt'']" "pr_expanded r" "pr_capability r = FilesystemWrite"
    by (cases x) auto
  have "parse_permission_request demo_host (demo_raw ''keys/id'') [''wt''] [[''home'', ''me'', ''.ssh'']] = Inl (perm_error ''permission_denied'')"
    by code_simp
  with parsed_request_is_safe [OF r(1) [unfolded x_def]] r show ?thesis
    unfolding x_def by (auto simp: demo_host_def)
qed

section \<open>The check after approval\<close>

lemma stat_walk_realpath: "stat_walk fs n acc ps = Some r \<Longrightarrow> realpath_strict fs n acc ps = Inr r"
proof (induction fs n acc ps rule: stat_walk.induct)
  case (2 fs n acc p ps)
  then have d: "is_dir fs acc" by (simp split: if_splits)
  consider (skip) "p = [] \<or> p = ''.''" | (up) "p = ''..''" | (plain) "p \<noteq> []" "p \<noteq> ''.''" "p \<noteq> ''..''" by blast
  then show ?case
  proof cases
    case plain
    then have ne: "\<not> (p = [] \<or> p = ''.'')" by simp
    obtain x where x: "fs (acc @ [p]) = Some x" using plain d "2.prems" by (cases "fs (acc @ [p])") auto
    have nd: "\<not> \<not> is_dir fs acc" using d by simp
    show ?thesis
    proof (cases x)
      case Dir
      with "2.IH"(3) [OF nd ne plain(3) x Dir] "2.prems" plain x d show ?thesis by simp
    next
      case (File m c)
      with "2.IH"(4) [OF nd ne plain(3) x File] "2.prems" plain x d show ?thesis by simp
    next
      case (Link t)
      with plain x d "2.prems" obtain m where m: "n = Suc m"
        and r: "stat_walk fs m (if is_abs t then [] else acc) (split_on CHR ''/'' t @ ps) = Some r"
        by (cases n) (simp_all del: split_on.simps)
      from "2.IH"(5) [OF nd ne plain(3) x Link m r] plain x Link m show ?thesis by (simp del: split_on.simps)
    qed
  qed (use "2.IH"(1,2) "2.prems" d in simp_all)
qed simp

lemma not_found_no_stat: "resolve_strict h p = Inl e \<Longrightarrow> \<not> path_exists h p"
  using stat_walk_realpath [of "ho_fs h" "ho_links h" "[]" p]
  by (cases "stat_walk (ho_fs h) (ho_links h) [] p") (simp_all add: path_exists_def resolve_strict_def)

lemma existing_parent_step: "resolve_strict h p = Inl e \<Longrightarrow> existing_parent h p = existing_parent h (butlast p)"
proof -
  assume e: "resolve_strict h p = Inl e"
  then have "p \<noteq> []" by (auto simp: resolve_strict_def)
  then show ?thesis
    using not_found_no_stat [OF e] by (subst existing_parent.simps) simp
qed

definition tilde_led :: "string \<Rightarrow> bool" where
  "tilde_led s \<longleftrightarrow> \<not> is_abs s \<and> (\<exists>user ps. path_parts s = (CHR ''~'' # user) # ps)"

lemma expand_user_plain: "\<not> tilde_led s \<Longrightarrow> expand_user h root s = Inr (recheck_requested root s)"
  by (auto simp: expand_user_def recheck_requested_def tilde_led_def relative_parts_def split: list.splits)

text \<open>
  A request that was accepted passes the check after approval as long as the host has not changed,
  unless it names a home directory by a tilde.
\<close>

theorem recheck_accepts_unchanged:
  assumes "parse_permission_request h raw root denied = Inr r"
    and "\<forall>s. pr_requested r = Some s \<longrightarrow> \<not> tilde_led s"
  shows "recheck_request h r root = Inr ()"
proof (cases "pr_capability r = NetworkAccess")
  case True
  then show ?thesis using parse_request_network [OF assms(1)] by (simp add: recheck_request_def)
next
  case False
  obtain resource requested p where p: "pr_requested r = Some resource" "pr_resolved r = Some p"
    "pr_identity r = Some (ho_stat h p)" "expand_user h root resource = Inr requested"
    "resolve_requested h (pr_capability r) requested = Inr (p, pr_expanded r)"
    by (rule parse_request_cases [OF assms(1) False])
  have named: "requested = recheck_requested root resource"
    using expand_user_plain p(1,4) assms(2) by simp
  have "resolve_strict h (if pr_expanded r then existing_parent h requested else requested) = Inr p"
    using resolve_requested_Inr [OF p(5)] existing_parent_step by auto
  then show ?thesis
    by (cases "pr_expanded r") (simp_all add: recheck_request_def p(1-3) named [symmetric])
qed

theorem recheck_accepts_unchanged_witness:
  "\<exists>r. parse_permission_request demo_host (demo_raw ''/opt/new/x'') [''wt''] [] = Inr r
     \<and> recheck_request demo_host r [''wt''] = Inr ()"
proof -
  define x where "x = parse_permission_request demo_host (demo_raw ''/opt/new/x'') [''wt''] []"
  have "(case x of Inr r \<Rightarrow> pr_requested r = Some ''/opt/new/x'' | _ \<Rightarrow> False)"
    unfolding x_def by code_simp
  then obtain r where r: "x = Inr r" "pr_requested r = Some ''/opt/new/x''" by (cases x) auto
  have "\<not> tilde_led ''/opt/new/x''" by (simp add: tilde_led_def is_abs_def starts_with_def)
  with recheck_accepts_unchanged [OF r(1) [unfolded x_def]] r show ?thesis unfolding x_def by auto
qed

text \<open>
  A tilde is expanded when the request is read and not when it is checked again, so the check looks
  for a directory of that name in the candidate.
\<close>

lemma realpath_strict_missing:
  "canonical_from fs acc ps \<Longrightarrow> fs (acc @ ps @ [q]) = None \<Longrightarrow> q \<noteq> [] \<Longrightarrow> q \<noteq> ''.'' \<Longrightarrow> q \<noteq> ''..''
    \<Longrightarrow> \<exists>e. realpath_strict fs n acc (ps @ q # qs) = Inl e"
proof (induction ps arbitrary: acc)
  case (Cons p ps)
  then show ?case
    by (cases "fs (acc @ [p])") (auto simp: plain_part_def is_link_def link_target_def split: node.splits)
qed simp

lemma resolve_strict_missing:
  "canonical (ho_fs h) root \<Longrightarrow> ho_fs h (root @ [q]) = None \<Longrightarrow> q \<noteq> [] \<Longrightarrow> q \<noteq> ''.'' \<Longrightarrow> q \<noteq> ''..''
    \<Longrightarrow> \<exists>e. resolve_strict h (root @ q # qs) = Inl e"
  using realpath_strict_missing [of "ho_fs h" "[]" root q "ho_links h" qs] by (simp add: resolve_strict_def)

lemma realpath_strict_present:
  "canonical_from fs acc ps \<Longrightarrow> (\<forall>q. prefix q (acc @ ps) \<longrightarrow> node_at fs q \<noteq> None) \<Longrightarrow> realpath_strict fs n acc ps = Inr (acc @ ps)"
proof (induction ps arbitrary: acc)
  case (Cons p ps)
  have "node_at fs (acc @ [p]) \<noteq> None" using Cons.prems(2) by (auto simp: prefix_def)
  then obtain x where "fs (acc @ [p]) = Some x" by (auto simp: node_at_def)
  with Cons.prems Cons.IH [of "acc @ [p]"] show ?case
    by (auto simp: plain_part_def is_link_def link_target_def split: node.splits)
qed simp

lemma existing_parent_missing:
  assumes "\<And>q. prefix (root @ [c]) q \<Longrightarrow> \<exists>e. resolve_strict h q = Inl e"
  shows "existing_parent h (root @ c # cs) = existing_parent h root"
proof (induction cs rule: rev_induct)
  case Nil
  obtain e where "resolve_strict h (root @ [c]) = Inl e" using assms by blast
  from existing_parent_step [OF this] show ?case by simp
next
  case (snoc x xs)
  have "prefix (root @ [c]) (root @ c # xs @ [x])" by (simp add: prefix_def)
  then obtain e where "resolve_strict h (root @ c # xs @ [x]) = Inl e" using assms by blast
  from existing_parent_step [OF this] snoc show ?case by (simp add: butlast_append)
qed

text \<open>
  A permission for a resource in a home directory, named by a tilde, is refused after the user
  approved it, although nothing changed: the check fails for every such request when the candidate
  has no entry of that name.
\<close>

theorem approved_tilde_is_refused:
  assumes "parse_permission_request h raw root denied = Inr r" and "pr_requested r = Some s"
    and "\<not> is_abs s" and "path_parts s = (CHR ''~'' # user) # ps"
    and "canonical (ho_fs h) root" and "path_exists h root" and "ho_fs h (root @ [CHR ''~'' # user]) = None"
    and "pr_resolved r \<noteq> Some root"
  shows "recheck_request h r root = Inl (perm_error ''permission_resource_changed'')"
proof -
  have "pr_capability r \<noteq> NetworkAccess"
    using parse_request_network [OF assms(1)] assms(2) by auto
  from parse_request_cases [OF assms(1) this]
  obtain p where p: "pr_resolved r = Some p" "pr_identity r = Some (ho_stat h p)" .
  have missing: "\<exists>e. resolve_strict h q = Inl e" if "prefix (root @ [CHR ''~'' # user]) q" for q
    using that resolve_strict_missing [OF assms(5,7)] by (auto simp: prefix_def)
  have named: "recheck_requested root s = root @ (CHR ''~'' # user) # ps"
    using assms(3,4) by (simp add: recheck_requested_def relative_parts_def)
  show ?thesis
  proof (cases "pr_expanded r")
    case True
    have "existing_parent h (root @ (CHR ''~'' # user) # ps) = root"
      using existing_parent_missing [OF missing] assms(6) by (simp add: existing_parent.simps)
    moreover have "resolve_strict h root = Inr root \<or> (\<exists>e. resolve_strict h root = Inl e)"
      using resolve_strict_Inr(3) [of h root] resolve_path_canonical [OF assms(5)]
      by (cases "resolve_strict h root") auto
    ultimately show ?thesis
      using p assms(2,8) True named by (auto simp: recheck_request_def Let_def)
  next
    case False
    have "prefix (root @ [CHR ''~'' # user]) (root @ (CHR ''~'' # user) # ps)" by (simp add: prefix_def)
    from missing [OF this] show ?thesis
      using p assms(2) False named by (auto simp: recheck_request_def Let_def)
  qed
qed

theorem approved_tilde_is_refused_witness:
  "\<exists>r. parse_permission_request demo_host (demo_raw ''~/data'') [''wt''] [] = Inr r
     \<and> recheck_request demo_host r [''wt''] = Inl (perm_error ''permission_resource_changed'')"
proof -
  define x where "x = parse_permission_request demo_host (demo_raw ''~/data'') [''wt''] []"
  have "(case x of Inr r \<Rightarrow> pr_requested r = Some ''~/data'' \<and> pr_resolved r = Some [''home'', ''me'', ''data''] | _ \<Rightarrow> False)"
    unfolding x_def by code_simp
  then obtain r where r: "x = Inr r" "pr_requested r = Some ''~/data''" "pr_resolved r = Some [''home'', ''me'', ''data'']"
    by (cases x) auto
  have "\<not> is_abs ''~/data'' \<and> path_parts ''~/data'' = [''~'', ''data''] \<and> path_exists demo_host [''wt'']
      \<and> ho_fs demo_host ([''wt''] @ [''~'']) = None" by code_simp
  moreover have "canonical (ho_fs demo_host) [''wt'']"
    by (simp add: plain_part_def is_link_def link_target_def demo_host_def demo_tree_def)
  ultimately show ?thesis
    using approved_tilde_is_refused [OF r(1) [unfolded x_def] r(2), of "[]" "[''data'']"] r unfolding x_def by simp
qed

end
