(* ===== verification/Sandbox_Policy.thy ===== *)
theory Sandbox_Policy
  imports Permissions
begin

text \<open>
  \<^verbatim>\<open>runtime/sandbox_policy.py\<close>: the decision on a requested permission and the effective policy of a
  command. What git prints for the metadata directories of a worktree is an argument.
\<close>

record sandbox_policy =
  sp_active :: path
  sp_source :: path
  sp_cache :: path
  sp_denied :: "path list"
  sp_protected :: "path list"

record permission_evaluation =
  pe_request :: permission_request
  pe_decision :: permission_decision
  pe_reason :: string

record effective_policy =
  ep_revision :: string
  ep_candidate :: path
  ep_source :: path
  ep_cache :: path
  ep_reads :: "path list"
  ep_writes :: "path list"
  ep_denied :: "path list"
  ep_network :: network_mode
  ep_protected :: "path list"

definition policy_revision :: string where
  "policy_revision = ''controlled-arbitrary-command-v1''"

section \<open>Paths\<close>

text \<open>\<^verbatim>\<open>_inside\<close> resolves both paths; \<^verbatim>\<open>any\<close> over them stops at the first that holds.\<close>

definition inside_of :: "host \<Rightarrow> path \<Rightarrow> path \<Rightarrow> bool res" where
  "inside_of h p root = rbind (resolve_path h p) (\<lambda>a. rbind (resolve_path h root) (\<lambda>b. Inr (inside_path a b)))"

definition overlap :: "host \<Rightarrow> path \<Rightarrow> path \<Rightarrow> bool res" where
  "overlap h p q = rbind (inside_of h p q) (\<lambda>x. if x then Inr True else inside_of h q p)"

fun rany :: "('a \<Rightarrow> bool res) \<Rightarrow> 'a list \<Rightarrow> bool res" where
  "rany f [] = Inr False"
| "rany f (x # xs) = rbind (f x) (\<lambda>b. if b then Inr True else rany f xs)"

definition sort_paths :: "path list \<Rightarrow> path list" where
  "sort_paths ps = sort_key path_text (remdups ps)"

lemma set_sort_paths [simp]: "set (sort_paths ps) = set ps"
  by (simp add: sort_paths_def)

definition hard_deny_paths :: "host \<Rightarrow> path \<Rightarrow> int \<Rightarrow> path \<Rightarrow> path list res" where
  "hard_deny_paths h home uid session =
     rbind (resolve_path h home) (\<lambda>home.
     rbind (rmap (resolve_path h) (filter (path_exists h)
       ([home @ [''.ssh''], home @ [''.aws''], home @ [''.gnupg''], session, [''run'', ''user'', show_int uid],
         [''run'', ''dbus''], [''run'', ''docker.sock''], [''var'', ''run'', ''docker.sock''],
         [''run'', ''containerd'', ''containerd.sock'']]))) (\<lambda>ps. Inr (sort_paths ps)))"

text \<open>\<open>git flag\<close> is the stripped output of \<^verbatim>\<open>git rev-parse flag\<close>, if it succeeded and is not empty.\<close>

definition protected_git_paths :: "host \<Rightarrow> (string \<Rightarrow> string option) \<Rightarrow> path \<Rightarrow> path list res" where
  "protected_git_paths h git active =
     rbind (rmap (\<lambda>flag. case git flag of None \<Rightarrow> Inr [] | Some out \<Rightarrow>
         rbind (resolve_path h (if is_abs out then path_parts out else active @ path_parts out)) (\<lambda>p. Inr [p]))
       [''--absolute-git-dir'', ''--git-common-dir'']) (\<lambda>found.
     rbind (rmap (resolve_path h) (filter (path_exists h) (remdups ((active @ [''.git'']) # concat found)))) (\<lambda>ps.
     Inr (sort_key path_text ps)))"

definition sandbox_policy_of ::
  "host \<Rightarrow> (string \<Rightarrow> string option) \<Rightarrow> path \<Rightarrow> int \<Rightarrow> path \<Rightarrow> path \<Rightarrow> path \<Rightarrow> path \<Rightarrow> sandbox_policy res" where
  "sandbox_policy_of h git home uid session active source cache =
     rbind (resolve_path h cache) (\<lambda>c. rbind (hard_deny_paths h home uid session) (\<lambda>denied.
     rbind (protected_git_paths h git active) (\<lambda>protected.
     Inr \<lparr>sp_active = active, sp_source = source, sp_cache = c, sp_denied = denied, sp_protected = protected\<rparr>)))"

section \<open>Grants that cover a request\<close>

definition same_resource :: "resource_identity \<Rightarrow> resource_identity \<Rightarrow> bool" where
  "same_resource x y = ((ri_device x, ri_inode x, ri_mode x) = (ri_device y, ri_inode y, ri_mode y))"

definition capability_covers :: "capability \<Rightarrow> capability \<Rightarrow> bool" where
  "capability_covers granted asked = (granted = asked \<or> granted = FilesystemWrite \<and> asked = FilesystemRead)"

definition grant_covers :: "host \<Rightarrow> permission_request \<Rightarrow> permission_grant \<Rightarrow> bool res" where
  "grant_covers h r g =
     (if pr_capability r = NetworkAccess \<and> pg_capability g = NetworkAccess then Inr True
      else case (pr_resolved r, pg_resolved g) of
        (Some asked, Some granted) \<Rightarrow>
          if \<not> capability_covers (pg_capability g) (pr_capability r) then Inr False
          else if (case (pg_identity g, pr_identity r) of (Some x, Some y) \<Rightarrow> \<not> same_resource x y | _ \<Rightarrow> False) then Inr False
          else rbind (if pg_kind g = Some ''directory'' then inside_of h asked granted else Inr False) (\<lambda>within.
            Inr (within \<or> granted = asked))
      | _ \<Rightarrow> Inr False)"

definition covered :: "host \<Rightarrow> permission_request \<Rightarrow> permission_grant list \<Rightarrow> bool res" where
  "covered h r gs = rany (grant_covers h r) gs"

section \<open>The decision\<close>

text \<open>The reasons that are not ASCII are named by a tag.\<close>

definition evaluated :: "permission_request \<Rightarrow> permission_decision \<Rightarrow> string \<Rightarrow> permission_evaluation" where
  "evaluated r d reason = \<lparr>pe_request = r, pe_decision = d, pe_reason = reason\<rparr>"

definition evaluate_path ::
  "host \<Rightarrow> sandbox_policy \<Rightarrow> permission_request \<Rightarrow> path \<Rightarrow> permission_evaluation res" where
  "evaluate_path h sp r p =
     rbind (rany (overlap h p) (sp_denied sp)) (\<lambda>denied.
     if denied then Inr (evaluated r PermDeny ''hard deny boundary'')
     else if pr_capability r = FilesystemRead then Inr (evaluated r PermAllow ''host root is readable'')
     else rbind (inside_of h p (sp_source sp)) (\<lambda>source.
       rbind (if source then Inr True else rany (overlap h p) (sp_protected sp)) (\<lambda>guarded.
       if guarded then Inr (evaluated r PermDeny ''source or git metadata'')
       else rbind (inside_of h p (sp_active sp)) (\<lambda>active.
         rbind (if active then Inr True else inside_of h p (sp_cache sp)) (\<lambda>writable.
         if writable then Inr (evaluated r PermAllow ''candidate or cache'')
         else Inr (evaluated r PermAsk ''host write''))))))"

definition evaluate_permission ::
  "host \<Rightarrow> sandbox_policy \<Rightarrow> permission_request \<Rightarrow> permission_grant list \<Rightarrow> permission_evaluation res" where
  "evaluate_permission h sp r grants =
     rbind (covered h r grants) (\<lambda>c.
     if c then Inr (evaluated r PermAllow ''session grant'')
     else if pr_capability r = NetworkAccess then Inr (evaluated r PermAsk ''host network'')
     else (case pr_resolved r of
         None \<Rightarrow> Inr (evaluated r PermDeny ''no resource'')
       | Some p \<Rightarrow> evaluate_path h sp r p))"

definition grant_for :: "permission_request \<Rightarrow> string option \<Rightarrow> permission_grant" where
  "grant_for r approval = \<lparr>pg_capability = pr_capability r, pg_scope = pr_scope r, pg_resolved = pr_resolved r,
     pg_identity = pr_identity r, pg_kind = pr_kind r, pg_approval = approval\<rparr>"

definition granted_paths :: "capability \<Rightarrow> permission_grant list \<Rightarrow> path list" where
  "granted_paths c gs = sort_paths (List.map_filter (\<lambda>g. if pg_capability g = c then pg_resolved g else None) gs)"

definition effective :: "sandbox_policy \<Rightarrow> permission_grant list \<Rightarrow> permission_grant list \<Rightarrow> effective_policy" where
  "effective sp session once =
     (let gs = session @ once in
      \<lparr>ep_revision = policy_revision, ep_candidate = sp_active sp, ep_source = sp_source sp, ep_cache = sp_cache sp,
       ep_reads = granted_paths FilesystemRead gs, ep_writes = granted_paths FilesystemWrite gs,
       ep_denied = sp_denied sp,
       ep_network = (if list_ex (\<lambda>g. pg_capability g = NetworkAccess) gs then NetHost else NetOff),
       ep_protected = sp_protected sp\<rparr>)"

definition effective_dict :: "effective_policy \<Rightarrow> dict" where
  "effective_dict p = (let paths = (\<lambda>ps. JArr (map (JStr \<circ> path_text) ps)) in
     [(''policy_revision'', JStr (ep_revision p)), (''read_grants'', paths (ep_reads p)),
      (''write_grants'', paths (ep_writes p)), (''hard_deny_paths'', paths (ep_denied p)),
      (''protected_readonly_paths'', paths (ep_protected p)), (''network_mode'', JStr (network_value (ep_network p)))])"

section \<open>Properties\<close>


lemma rany_True: "rany f xs = Inr True \<Longrightarrow> \<exists>x \<in> set xs. f x = Inr True"
  by (induction xs) (auto simp: rbind_eq_Inr split: if_splits)




definition demo_policy :: sandbox_policy where
  "demo_policy = \<lparr>sp_active = [''wt''], sp_source = [''src''], sp_cache = [''cache''],
     sp_denied = [[''home'', ''me'', ''.ssh'']], sp_protected = [[''wt'', ''.git'']]\<rparr>"

definition demo_write :: "path \<Rightarrow> permission_request" where
  "demo_write p = \<lparr>pr_capability = FilesystemWrite, pr_reason = ''build'', pr_scope = ScopeOnce, pr_requested = Some (path_text p),
     pr_resolved = Some p, pr_identity = Some (demo_stat p), pr_kind = Some ''directory'', pr_expanded = False\<rparr>"


text \<open>
  The grant of a request covers that request again, and a write grant covers the read of the same
  resource: a session grant is asked for once.
\<close>

theorem session_grant_is_reused:
  assumes "pr_resolved r = Some p" and "canonical (ho_fs h) p" and "r' = r \<or> pr_capability r = FilesystemWrite \<and> r' = r\<lparr>pr_capability := FilesystemRead\<rparr>"
  shows "evaluate_permission h sp r' [grant_for r approval] = Inr (evaluated r' PermAllow ''session grant'')"
proof -
  have "grant_covers h r' (grant_for r approval) = Inr True"
    using assms by (auto simp: grant_covers_def grant_for_def capability_covers_def same_resource_def inside_of_def
        resolve_path_canonical split: option.splits)
  then show ?thesis by (simp add: evaluate_permission_def covered_def)
qed

theorem session_grant_is_reused_witness:
  "evaluate_permission demo_host demo_policy (demo_write [''opt'']) [grant_for (demo_write [''opt'']) None]
     = Inr (evaluated (demo_write [''opt'']) PermAllow ''session grant'')"
  by (rule session_grant_is_reused [of _ "[''opt'']"])
    (simp_all add: demo_write_def plain_part_def is_link_def link_target_def demo_host_def demo_tree_def)

text \<open>
  A session grant for a directory does not cover what the directory contains: the identities of
  the two resources differ as soon as their inodes do, and the comparison comes before the containment.
\<close>

theorem directory_grant_covers_only_itself:
  assumes "pr_capability r \<noteq> NetworkAccess" and "pr_resolved r = Some p" and "pr_identity r = Some (ho_stat h p)"
    and "pr_resolved granted = Some d" and "pr_identity granted = Some (ho_stat h d)"
    and "ri_inode (ho_stat h p) \<noteq> ri_inode (ho_stat h d)"
  shows "covered h r [grant_for granted approval] = Inr False"
  using assms by (simp add: covered_def grant_covers_def grant_for_def same_resource_def)

theorem directory_grant_covers_only_itself_witness:
  "prefix [''opt''] [''opt'', ''cache''] \<and> covered demo_host (demo_write [''opt'', ''cache'']) [grant_for (demo_write [''opt'']) None] = Inr False"
  using directory_grant_covers_only_itself [of "demo_write [''opt'', ''cache'']" "[''opt'', ''cache'']" demo_host "demo_write [''opt'']" "[''opt'']" None]
  by (simp add: demo_write_def demo_host_def demo_stat_def)

end
