(* ===== verification/Sandbox_Mounts.thy ===== *)
theory Sandbox_Mounts
  imports Sandbox_Policy
begin

text \<open>
  \<^verbatim>\<open>runtime/bubblewrap.py\<close> and \<^verbatim>\<open>runtime/command_environment.py\<close>: the plan of mounts that puts an
  effective policy into force, the command line of bubblewrap, the choice of its executable and the
  environment of a command. The processes that the probe runs are arguments.
\<close>

section \<open>The plan\<close>

datatype mount_mode = RoBind | Bind | Mask | Tmpfs | MakeDir

record mount_operation =
  mo_mode :: mount_mode
  mo_source :: "path option"
  mo_destination :: path
  mo_size :: "int option"

definition mount :: "mount_mode \<Rightarrow> path option \<Rightarrow> path \<Rightarrow> mount_operation" where
  "mount mode source destination = \<lparr>mo_mode = mode, mo_source = source, mo_destination = destination, mo_size = None\<rparr>"

definition depth_sorted :: "path list \<Rightarrow> path list" where
  "depth_sorted ps = sort_key length (sort_paths ps)"

lemma set_depth_sorted [simp]: "set (depth_sorted ps) = set ps"
  by (simp add: depth_sorted_def)

text \<open>The directories to create in the private \<^verbatim>\<open>/tmp\<close>: the destinations there, or their parents for files.\<close>

definition tmp_root :: path where
  "tmp_root = [''tmp'']"

definition tmp_chain :: "host \<Rightarrow> path \<Rightarrow> path list" where
  "tmp_chain h p =
     (case relative_to p tmp_root of None \<Rightarrow> []
      | Some rel \<Rightarrow> map (\<lambda>q. tmp_root @ q) (tl (prefixes (if path_is_dir h p then rel else butlast rel))))"

definition build_plan :: "host \<Rightarrow> effective_policy \<Rightarrow> path \<Rightarrow> path \<Rightarrow> mount_operation list res" where
  "build_plan h p mask_dir mask_file =
     rbind (rmap (resolve_path h) (ep_writes p @ [ep_candidate p, ep_cache p])) (\<lambda>writes.
     rbind (resolve_path h (ep_source p)) (\<lambda>source.
     rbind (rmap (resolve_path h) (filter (path_exists h) (ep_protected p))) (\<lambda>protected.
     rbind (rmap (resolve_path h) (filter (path_exists h) (ep_denied p))) (\<lambda>denied.
     let sources = (if path_exists h source then [source] else []) in
     Inr ([mount RoBind (Some []) [],
           \<lparr>mo_mode = Tmpfs, mo_source = None, mo_destination = tmp_root, mo_size = Some (256 * 1024 * 1024)\<rparr>]
       @ map (mount MakeDir None) (depth_sorted (concat (map (tmp_chain h) (writes @ protected @ denied @ sources))))
       @ map (\<lambda>q. mount Bind (Some q) q) (depth_sorted writes)
       @ map (\<lambda>q. mount RoBind (Some q) q) sources
       @ map (\<lambda>q. mount RoBind (Some q) q) (depth_sorted protected)
       @ map (\<lambda>q. mount Mask (Some (if path_is_dir h q then mask_dir else mask_file)) q) (depth_sorted denied))))))"

definition source_text :: "mount_operation \<Rightarrow> string" where
  "source_text m = (case mo_source m of None \<Rightarrow> ''None'' | Some p \<Rightarrow> path_text p)"

definition mount_args :: "mount_operation \<Rightarrow> string list" where
  "mount_args m = (case mo_mode m of
     RoBind \<Rightarrow> [''--ro-bind'', source_text m, path_text (mo_destination m)]
   | Bind \<Rightarrow> [''--bind'', source_text m, path_text (mo_destination m)]
   | Mask \<Rightarrow> [''--ro-bind'', source_text m, path_text (mo_destination m)]
   | Tmpfs \<Rightarrow> [''--size'', case mo_size m of None \<Rightarrow> ''None'' | Some n \<Rightarrow> show_int n, ''--tmpfs'', path_text (mo_destination m)]
   | MakeDir \<Rightarrow> [''--dir'', path_text (mo_destination m)])"

definition bwrap_args :: "mount_operation list \<Rightarrow> string list" where
  "bwrap_args plan = concat (map mount_args plan)"

section \<open>The executable\<close>

record bubblewrap_features =
  bf_executable :: path
  bf_version :: string
  bf_disable_userns :: bool

text \<open>
  \<open>configured\<close> is the path given or the one \<^verbatim>\<open>which\<close> finds, already expanded; \<open>executable\<close> is
  \<^verbatim>\<open>os.access(path, X_OK)\<close>.
\<close>

definition sandbox_unavailable :: "string \<Rightarrow> exn" where
  "sandbox_unavailable why = Exn SandboxUnavailable why"

definition discover :: "host \<Rightarrow> (path \<Rightarrow> bool) \<Rightarrow> path option \<Rightarrow> path \<Rightarrow> path res" where
  "discover h executable configured candidate =
     (case configured of None \<Rightarrow> Inl (sandbox_unavailable ''not installed'')
      | Some raw \<Rightarrow>
          (case resolve_strict h raw of
             Inl e \<Rightarrow> Inl (if exn_class e = OSError then sandbox_unavailable ''cannot be checked'' else e)
           | Inr p \<Rightarrow>
               if \<not> is_file (ho_fs h) p \<or> \<not> executable p then Inl (sandbox_unavailable ''not executable'')
               else rbind (resolve_path h candidate) (\<lambda>root.
                 if inside_path p root then Inl (sandbox_unavailable ''inside candidate'') else Inr p)))"

definition required_options :: "string list" where
  "required_options = [''--ro-bind'', ''--bind'', ''--tmpfs'', ''--unshare-user'', ''--unshare-pid'', ''--unshare-net'',
     ''--new-session'', ''--die-with-parent'']"

text \<open>\<open>version\<close> and \<open>help\<close> are what the two calls print, if they succeed; \<open>smoke\<close> is whether the trial run with these arguments does.\<close>

definition smoke_args :: "path \<Rightarrow> string \<Rightarrow> string list" where
  "smoke_args exe help =
     [path_text exe, ''--ro-bind'', ''/'', ''/'', ''--unshare-user'', ''--unshare-pid'', ''--unshare-ipc'', ''--unshare-uts'',
      ''--unshare-net'', ''--new-session'', ''--die-with-parent'']
     @ (if contains_str ''--disable-userns'' help then [''--disable-userns''] else [])
     @ [''--proc'', ''/proc'', ''--dev'', ''/dev'', ''--'', ''/bin/true'']"

definition probe ::
  "host \<Rightarrow> (path \<Rightarrow> bool) \<Rightarrow> path option \<Rightarrow> (path \<Rightarrow> string option) \<Rightarrow> (path \<Rightarrow> string option) \<Rightarrow> (string list \<Rightarrow> bool)
     \<Rightarrow> path \<Rightarrow> bubblewrap_features res" where
  "probe h executable configured version help smoke candidate =
     rbind (discover h executable configured candidate) (\<lambda>exe.
     (case (version exe, help exe) of
        (Some v, Some text_of_help) \<Rightarrow>
          if \<not> list_all (\<lambda>option. contains_str option text_of_help) required_options
          then Inl (sandbox_unavailable ''missing capability'')
          else if \<not> smoke (smoke_args exe text_of_help) then Inl (sandbox_unavailable ''smoke test'')
          else Inr \<lparr>bf_executable = exe, bf_version = strip v,
            bf_disable_userns = contains_str ''--disable-userns'' text_of_help\<rparr>
      | _ \<Rightarrow> Inl (sandbox_unavailable ''probe'')))"

definition invocation ::
  "bubblewrap_features \<Rightarrow> mount_operation list \<Rightarrow> effective_policy \<Rightarrow> path \<Rightarrow> (string \<times> string) list \<Rightarrow> string list \<Rightarrow> string list" where
  "invocation f plan p cwd environment payload =
     [path_text (bf_executable f)] @ bwrap_args plan
     @ [''--unshare-user'', ''--unshare-pid'', ''--unshare-ipc'', ''--unshare-uts'']
     @ (if ep_network p = NetOff then [''--unshare-net''] else [])
     @ (if bf_disable_userns f then [''--disable-userns''] else [])
     @ [''--new-session'', ''--die-with-parent'', ''--proc'', ''/proc'', ''--dev'', ''/dev'', ''--clearenv'']
     @ concat (map (\<lambda>(name, v). [''--setenv'', name, v]) (sort_key fst environment))
     @ [''--chdir'', path_text cwd, ''--''] @ payload"

section \<open>The environment of a command\<close>

record command_environment =
  ce_revision :: string
  ce_backend :: string
  ce_availability :: string
  ce_shell :: "string list"
  ce_cwd :: path
  ce_variables :: "(string \<times> string) list"
  ce_path_source :: string
  ce_fresh :: bool
  ce_policy :: effective_policy

definition command_shell :: "string list" where
  "command_shell = [''/bin/bash'', ''--noprofile'', ''--norc'']"

definition inherited_names :: "string list" where
  "inherited_names = [''PATH'', ''LANG'', ''LC_ALL'', ''LC_CTYPE'', ''TZ'', ''TERM'']"

definition shell_options :: "string \<Rightarrow> string list" where
  "shell_options purpose = (if purpose = ''validation'' then [''-o'', ''pipefail''] else [])"

definition command_variables :: "path \<Rightarrow> (string \<times> string) list \<Rightarrow> (string \<times> string) list" where
  "command_variables runtime_home host_env =
     (let inherited = filter (\<lambda>(n, v). n \<in> set inherited_names) host_env;
          with_path = (if map_of inherited ''PATH'' = None then inherited @ [(''PATH'', ''/usr/local/bin:/usr/bin:/bin'')] else inherited)
      in fold (\<lambda>(n, v). AList.update n v)
        [(''HOME'', path_text runtime_home), (''TMPDIR'', ''/tmp''), (''XDG_CACHE_HOME'', path_text (runtime_home @ [''cache''])),
         (''PYTHONIOENCODING'', ''utf-8''), (''PYTHONDONTWRITEBYTECODE'', ''1'')] with_path)"

text \<open>The directory it creates for the cache is the caller's concern.\<close>

definition build_command_environment ::
  "host \<Rightarrow> path \<Rightarrow> path \<Rightarrow> effective_policy \<Rightarrow> string \<Rightarrow> string \<Rightarrow> (string \<times> string) list \<Rightarrow> command_environment res" where
  "build_command_environment h cwd runtime_home p backend availability host_env =
     rbind (resolve_path h cwd) (\<lambda>launch.
     Inr \<lparr>ce_revision = ''command-environment-v1'', ce_backend = backend, ce_availability = availability, ce_shell = command_shell,
       ce_cwd = launch, ce_variables = sort_key fst (command_variables runtime_home host_env),
       ce_path_source = (if map_of host_env ''PATH'' \<noteq> None then ''filtered_host_environment'' else ''runtime_default''),
       ce_fresh = True, ce_policy = p\<rparr>)"

definition environment_snapshot :: "command_environment \<Rightarrow> dict" where
  "environment_snapshot c =
     [(''contract_revision'', JStr (ce_revision c)), (''backend'', JStr (ce_backend c)),
      (''backend_availability'', JStr (ce_availability c)), (''shell'', JStr (join '' '' (ce_shell c))),
      (''default_cwd'', JStr ''.''), (''default_cwd_resolves_to'', JStr (path_text (ce_cwd c))),
      (''path'', JArr (map JStr (split_on CHR '':'' (case map_of (ce_variables c) ''PATH'' of None \<Rightarrow> [] | Some v \<Rightarrow> v)))),
      (''path_source'', JStr (ce_path_source c)), (''environment_names'', JArr (map (JStr \<circ> fst) (sort_key fst (ce_variables c)))),
      (''home_kind'', JStr ''private_runtime_home''), (''tilde_is_host_home'', JBool False), (''tmp_kind'', JStr ''private_tmp''),
      (''network_mode'', JStr (network_value (ep_network (ce_policy c)))), (''commands_are_fresh_processes'', JBool (ce_fresh c)),
      (''shell_state_persists'', JBool False), (''source_workspace_access'', JStr ''read_only''),
      (''active_workspace_access'', JStr ''read_write'')]"

definition provenance :: "command_environment \<Rightarrow> dict" where
  "provenance c =
     [(''environment_contract_revision'', JStr (ce_revision c)), (''backend'', JStr (ce_backend c)),
      (''backend_availability'', JStr (ce_availability c)), (''launch_cwd'', JStr (path_text (ce_cwd c))),
      (''environment_names'', JArr (map (JStr \<circ> fst) (sort_key fst (ce_variables c)))),
      (''effective_network_policy'', JStr (network_value (ep_network (ce_policy c)))),
      (''effective_filesystem_policy'', JObj (filter (\<lambda>(k, v). k \<noteq> ''network_mode'')
         (map (\<lambda>k. (k, dget (effective_dict (ce_policy c)) k))
           [''policy_revision'', ''read_grants'', ''write_grants'', ''hard_deny_paths'', ''protected_readonly_paths''])))]"

section \<open>What the plan lets a command see\<close>

text \<open>
  Bubblewrap carries out the operations in order, so the last one whose destination contains a path
  decides what the command finds there.
\<close>

fun governing :: "mount_operation list \<Rightarrow> path \<Rightarrow> mount_operation option" where
  "governing [] p = None"
| "governing (m # ms) p = (case governing ms p of
     Some x \<Rightarrow> Some x | None \<Rightarrow> if prefix (mo_destination m) p then Some m else None)"

definition access :: "mount_operation list \<Rightarrow> path \<Rightarrow> mount_mode option" where
  "access ms p = map_option mo_mode (governing ms p)"

lemma governing_append: "governing (xs @ ys) p = (case governing ys p of Some m \<Rightarrow> Some m | None \<Rightarrow> governing xs p)"
  by (induction xs) (auto split: option.splits)

lemma governing_None: "governing ms p = None \<longleftrightarrow> (\<forall>m \<in> set ms. \<not> prefix (mo_destination m) p)"
  by (induction ms) (auto split: option.splits)

lemma governing_in: "governing ms p = Some m \<Longrightarrow> m \<in> set ms \<and> prefix (mo_destination m) p"
  by (induction ms) (auto split: option.splits if_splits)

lemma access_append: "access (xs @ ys) p = (case access ys p of Some m \<Rightarrow> Some m | None \<Rightarrow> access xs p)"
  by (auto simp: access_def governing_append split: option.splits)

lemma access_same:
  assumes "\<And>m. m \<in> set ms \<Longrightarrow> mo_mode m = k"
  shows "access ms p = (if \<exists>m \<in> set ms. prefix (mo_destination m) p then Some k else None)"
proof (cases "governing ms p")
  case None
  then show ?thesis by (auto simp: access_def governing_None)
next
  case (Some m)
  with governing_in [OF Some] assms show ?thesis by (auto simp: access_def)
qed

text \<open>Resolved paths that name something on the host.\<close>

definition present :: "host \<Rightarrow> path list \<Rightarrow> path set" where
  "present h ps = {r. \<exists>p \<in> set ps. path_exists h p \<and> resolve_path h p = Inr r}"

lemma rmap_set: "rmap f xs = Inr ys \<Longrightarrow> y \<in> set ys \<longleftrightarrow> (\<exists>x \<in> set xs. f x = Inr y)"
  by (induction xs arbitrary: ys) (auto simp: rbind_eq_Inr)

lemma rmap_present: "rmap (resolve_path h) (filter (path_exists h) ps) = Inr rs \<Longrightarrow> set rs = present h ps"
  using rmap_set [of "resolve_path h" "filter (path_exists h) ps" rs] by (auto simp: present_def)

definition plan_writes :: "host \<Rightarrow> effective_policy \<Rightarrow> path set" where
  "plan_writes h p = {r. \<exists>q \<in> set (ep_writes p @ [ep_candidate p, ep_cache p]). resolve_path h q = Inr r}"

lemma build_plan_parts:
  assumes "build_plan h p mask_dir mask_file = Inr plan"
  obtains head writes sources protected denied source where
    "plan = head @ map (\<lambda>q. mount Bind (Some q) q) writes @ map (\<lambda>q. mount RoBind (Some q) q) sources
       @ map (\<lambda>q. mount RoBind (Some q) q) protected
       @ map (\<lambda>q. mount Mask (Some (if path_is_dir h q then mask_dir else mask_file)) q) denied"
    and "\<forall>m \<in> set head. mo_mode m \<noteq> Bind" and "set writes = plan_writes h p"
    and "resolve_path h (ep_source p) = Inr source" and "set sources = (if path_exists h source then {source} else {})"
    and "set protected = present h (ep_protected p)" and "set denied = present h (ep_denied p)"
proof -
  obtain writes source protected denied where parts:
      "rmap (resolve_path h) (ep_writes p @ [ep_candidate p, ep_cache p]) = Inr writes"
      "resolve_path h (ep_source p) = Inr source"
      "rmap (resolve_path h) (filter (path_exists h) (ep_protected p)) = Inr protected"
      "rmap (resolve_path h) (filter (path_exists h) (ep_denied p)) = Inr denied"
    using assms unfolding build_plan_def by (auto simp: rbind_eq_Inr)
  define sources where "sources = (if path_exists h source then [source] else [])"
  define head where "head = [mount RoBind (Some []) [],
      \<lparr>mo_mode = Tmpfs, mo_source = None, mo_destination = tmp_root, mo_size = Some (256 * 1024 * 1024)\<rparr>]
    @ map (mount MakeDir None) (depth_sorted (concat (map (tmp_chain h) (writes @ protected @ denied @ sources))))"
  show ?thesis
  proof (rule that [of head "depth_sorted writes" sources "depth_sorted protected" "depth_sorted denied" source])
    show "plan = head @ map (\<lambda>q. mount Bind (Some q) q) (depth_sorted writes) @ map (\<lambda>q. mount RoBind (Some q) q) sources
       @ map (\<lambda>q. mount RoBind (Some q) q) (depth_sorted protected)
       @ map (\<lambda>q. mount Mask (Some (if path_is_dir h q then mask_dir else mask_file)) q) (depth_sorted denied)"
      using assms parts by (simp add: build_plan_def head_def sources_def Let_def)
    show "set (depth_sorted writes) = plan_writes h p"
      using rmap_set [OF parts(1)] unfolding plan_writes_def by auto
    show "set (depth_sorted protected) = present h (ep_protected p)" "set (depth_sorted denied) = present h (ep_denied p)"
      using rmap_present [OF parts(3)] rmap_present [OF parts(4)] by simp_all
  qed (use parts in \<open>auto simp: head_def mount_def sources_def\<close>)
qed

lemma access_mounts:
  "access (map (\<lambda>q. mount k (f q) q) ps) p = (if \<exists>q \<in> set ps. prefix q p then Some k else None)"
  by (subst access_same [where k = k]) (auto simp: mount_def)

lemma access_not: "\<forall>m \<in> set ms. mo_mode m \<noteq> k \<Longrightarrow> access ms p \<noteq> Some k"
  using governing_in by (fastforce simp: access_def)

text \<open>
  C17. The plan enforces the policy: whatever lies under an existing denied path is masked, whatever
  lies under the source or git metadata and is not masked is read-only, and a path of the host is
  writable exactly when it lies under a granted, candidate or cache directory and under none of those.
\<close>

theorem plan_enforces_policy:
  assumes "build_plan h p mask_dir mask_file = Inr plan"
  shows "\<exists>source. resolve_path h (ep_source p) = Inr source
    \<and> (let denied = (\<exists>d \<in> present h (ep_denied p). prefix d q);
           guarded = ((\<exists>d \<in> present h (ep_protected p). prefix d q) \<or> path_exists h source \<and> prefix source q);
           granted = (\<exists>w \<in> plan_writes h p. prefix w q)
       in (denied \<longrightarrow> access plan q = Some Mask) \<and> (\<not> denied \<and> guarded \<longrightarrow> access plan q = Some RoBind)
          \<and> (access plan q = Some Bind \<longleftrightarrow> granted \<and> \<not> denied \<and> \<not> guarded))"
proof -
  obtain head writes sources protected denied source where parts:
    "plan = head @ map (\<lambda>q. mount Bind (Some q) q) writes @ map (\<lambda>q. mount RoBind (Some q) q) sources
       @ map (\<lambda>q. mount RoBind (Some q) q) protected
       @ map (\<lambda>q. mount Mask (Some (if path_is_dir h q then mask_dir else mask_file)) q) denied"
    "\<forall>m \<in> set head. mo_mode m \<noteq> Bind" "set writes = plan_writes h p" "resolve_path h (ep_source p) = Inr source"
    "set sources = (if path_exists h source then {source} else {})"
    "set protected = present h (ep_protected p)" "set denied = present h (ep_denied p)"
    by (rule build_plan_parts [OF assms])
  have "access plan q = (if \<exists>d \<in> set denied. prefix d q then Some Mask else if \<exists>d \<in> set protected \<union> set sources. prefix d q then Some RoBind
      else if \<exists>w \<in> set writes. prefix w q then Some Bind else access head q)"
    unfolding parts(1) access_append access_mounts by auto
  with access_not [OF parts(2), of q] parts(3-7) show ?thesis
    by (intro exI [of _ source]) (auto simp: Let_def)
qed

definition demo_effective :: effective_policy where
  "demo_effective = effective demo_policy [] [grant_for (demo_write [''opt'']) None]"

theorem plan_enforces_policy_witness:
  "\<exists>plan. build_plan demo_host demo_effective [''m''] [''f''] = Inr plan
     \<and> access plan [''opt'', ''x''] = Some Bind \<and> access plan [''home'', ''me'', ''.ssh'', ''id''] = Some Mask"
proof -
  define x where "x = build_plan demo_host demo_effective [''m''] [''f'']"
  have "(case x of Inr plan \<Rightarrow> True | _ \<Rightarrow> False)"
    unfolding x_def by code_simp
  then obtain plan where plan: "x = Inr plan" by (cases x) auto
  have "path_exists demo_host [''home'', ''me'', ''.ssh'']"
    and ssh: "resolve_path demo_host [''home'', ''me'', ''.ssh''] = Inr [''home'', ''me'', ''.ssh'']"
    and opt: "resolve_path demo_host [''opt''] = Inr [''opt'']"
    and src: "resolve_path demo_host [''src''] = Inr [''src''] \<and> \<not> path_exists demo_host [''src'']"
    and git: "\<not> path_exists demo_host [''wt'', ''.git'']"
    by code_simp+
  have policy: "ep_denied demo_effective = [[''home'', ''me'', ''.ssh'']]" "ep_protected demo_effective = [[''wt'', ''.git'']]"
      "ep_source demo_effective = [''src'']" "[''opt''] \<in> set (ep_writes demo_effective)"
    by (simp_all add: demo_effective_def effective_def demo_policy_def granted_paths_def grant_for_def demo_write_def map_filter_def)
  have denied: "present demo_host (ep_denied demo_effective) = {[''home'', ''me'', ''.ssh'']}"
      and protected: "present demo_host (ep_protected demo_effective) = {}"
    using policy ssh git \<open>path_exists demo_host [''home'', ''me'', ''.ssh'']\<close> by (auto simp: present_def)
  have "[''opt''] \<in> plan_writes demo_host demo_effective"
    using policy(4) opt by (auto simp: plan_writes_def)
  then have writes: "\<exists>w \<in> plan_writes demo_host demo_effective. prefix w [''opt'', ''x'']" by (intro bexI [of _ "[''opt'']"]) simp_all
  note enforced = plan_enforces_policy [OF plan [unfolded x_def]]
  have "access plan [''opt'', ''x''] = Some Bind"
    using enforced [of "[''opt'', ''x'']"] writes denied protected policy(3) src by (auto simp: Let_def)
  moreover have "access plan [''home'', ''me'', ''.ssh'', ''id''] = Some Mask"
    using enforced [of "[''home'', ''me'', ''.ssh'', ''id'']"] denied by (auto simp: Let_def)
  ultimately show ?thesis using plan unfolding x_def by blast
qed

lemma inherited_lookup:
  "map_of (filter (\<lambda>(n, v). n \<in> set inherited_names) env) k = (if k \<in> set inherited_names then map_of env k else None)"
  by (induction env) auto

lemma default_lookup:
  "map_of (if map_of env k = None then env @ [(k, v)] else env) n = (if n = k \<and> map_of env k = None then Some v else map_of env n)"
  by (auto simp: map_add_def split: option.split)

lemma path_inherited [simp]: "''PATH'' \<in> set inherited_names"
  by (simp add: inherited_names_def)

text \<open>
  A command never sees an environment variable of the host that is not on the list of inherited
  names, except where the runtime sets it itself.
\<close>

theorem environment_is_filtered:
  "map_of (command_variables runtime_home host_env) n =
     (if n = ''HOME'' then Some (path_text runtime_home) else if n = ''TMPDIR'' then Some ''/tmp''
      else if n = ''XDG_CACHE_HOME'' then Some (path_text (runtime_home @ [''cache'']))
      else if n = ''PYTHONIOENCODING'' then Some ''utf-8'' else if n = ''PYTHONDONTWRITEBYTECODE'' then Some ''1''
      else if n \<in> set inherited_names
      then (if n = ''PATH'' \<and> map_of host_env n = None then Some ''/usr/local/bin:/usr/bin:/bin'' else map_of host_env n)
      else None)"
proof -
  define with_path where "with_path = (let inherited = filter (\<lambda>(n, v). n \<in> set inherited_names) host_env in
     if map_of inherited ''PATH'' = None then inherited @ [(''PATH'', ''/usr/local/bin:/usr/bin:/bin'')] else inherited)"
  have base: "map_of with_path n = (if n \<in> set inherited_names
      then (if n = ''PATH'' \<and> map_of host_env n = None then Some ''/usr/local/bin:/usr/bin:/bin'' else map_of host_env n) else None)"
    unfolding with_path_def Let_def
    using default_lookup [of "filter (\<lambda>(n, v). n \<in> set inherited_names) host_env" "''PATH''" "''/usr/local/bin:/usr/bin:/bin''" n]
    by (simp add: inherited_lookup) auto
  have "command_variables runtime_home host_env = fold (\<lambda>(n, v). AList.update n v)
        [(''HOME'', path_text runtime_home), (''TMPDIR'', ''/tmp''), (''XDG_CACHE_HOME'', path_text (runtime_home @ [''cache''])),
         (''PYTHONIOENCODING'', ''utf-8''), (''PYTHONDONTWRITEBYTECODE'', ''1'')] with_path"
    by (simp only: command_variables_def with_path_def Let_def)
  then show ?thesis
    unfolding base [symmetric] by (simp add: AList.update_conv')
qed

end
