(* ===== verification/Atomic_Edit.thy ===== *)
theory Atomic_Edit
  imports Host_Paths Session_Machine
begin

text \<open>
  The planning half of \<^verbatim>\<open>runtime/atomic_edit.py\<close>: a list of text operations is checked against the
  worktree and turned into a plan, without touching a file. The digest, case folding and the line
  diff of two texts are arguments.
\<close>

record edit_env =
  ed_context :: workspace_context
  ed_root :: path
  ed_links :: nat
  ed_mode :: nat
  ed_sha :: "string \<Rightarrow> string"
  ed_fold :: "string \<Rightarrow> string"
  ed_diff :: "string \<Rightarrow> string \<Rightarrow> string \<Rightarrow> string \<Rightarrow> string"
  ed_now :: "nat \<Rightarrow> string"
  ed_uuid :: "nat \<Rightarrow> string"
  ed_fault :: "nat \<Rightarrow> bool"

definition max_operations :: int where "max_operations = 50"

definition max_file_bytes :: int where "max_file_bytes = 512000"

definition max_text_bytes :: int where "max_text_bytes = 256000"

definition max_patch_bytes :: int where "max_patch_bytes = 512000"

definition edit_error :: "string \<Rightarrow> exn" where
  "edit_error code = Exn AtomicEditError code"

record file_state =
  fl_content :: "string option"
  fl_origin :: "string option"

record edit_plan =
  pn_id :: string
  pn_operations :: "json list"
  pn_before :: "(string \<times> string option) list"
  pn_after :: "(string \<times> string option) list"
  pn_dirs :: "string list"
  pn_patch :: string

definition or_default :: "'a \<Rightarrow> 'a option \<Rightarrow> 'a" where
  "or_default d x = (case x of None \<Rightarrow> d | Some v \<Rightarrow> v)"

lemma or_default_simps [simp]: "or_default d None = d" "or_default d (Some v) = v"
  by (simp_all add: or_default_def)

section \<open>Reading the worktree\<close>

text \<open>A path of the worktree is its text with slashes, as the operations give it.\<close>

definition target :: "edit_env \<Rightarrow> string \<Rightarrow> path" where
  "target E rel = ed_root E @ split_on CHR ''/'' rel"

definition stat_at :: "edit_env \<Rightarrow> fs \<Rightarrow> path \<Rightarrow> path option" where
  "stat_at E fs p = stat_walk fs (ed_links E) [] p"

definition exists_at :: "edit_env \<Rightarrow> fs \<Rightarrow> path \<Rightarrow> bool" where
  "exists_at E fs p = (stat_at E fs p \<noteq> None)"

definition dir_at :: "edit_env \<Rightarrow> fs \<Rightarrow> path \<Rightarrow> bool" where
  "dir_at E fs p = (case stat_at E fs p of None \<Rightarrow> False | Some r \<Rightarrow> is_dir fs r)"

text \<open>\<^verbatim>\<open>is_file\<close> and \<^verbatim>\<open>read_bytes\<close>: the content of the file a path leads to.\<close>

definition content_at :: "edit_env \<Rightarrow> fs \<Rightarrow> path \<Rightarrow> string option" where
  "content_at E fs p = (case stat_at E fs p of None \<Rightarrow> None
     | Some r \<Rightarrow> (case node_at fs r of Some (File m c) \<Rightarrow> Some c | _ \<Rightarrow> None))"

text \<open>The directory entry a path names: its parent is followed, the entry itself is not.\<close>

definition entry_at :: "edit_env \<Rightarrow> fs \<Rightarrow> path \<Rightarrow> path option" where
  "entry_at E fs p = (if p = [] then None else case stat_at E fs (butlast p) of
     None \<Rightarrow> None | Some d \<Rightarrow> if is_dir fs d then Some (d @ [last p]) else None)"

definition symlink_at :: "edit_env \<Rightarrow> fs \<Rightarrow> path \<Rightarrow> bool" where
  "symlink_at E fs p = (case entry_at E fs p of None \<Rightarrow> False | Some q \<Rightarrow> is_link fs q)"

section \<open>Paths\<close>

definition validate_workspace :: "edit_env \<Rightarrow> unit res" where
  "validate_workspace E = require (workspace_kind (ed_context E) = ''git_worktree''
     \<and> active_root (ed_context E) \<noteq> source_root (ed_context E)) (edit_error ''path_rejected'')"

definition checked_path :: "edit_env \<Rightarrow> fs \<Rightarrow> string \<Rightarrow> path res" where
  "checked_path E fs rel =
     (let parts = split_on CHR ''/'' rel in
      if list_ex (\<lambda>k. symlink_at E fs (ed_root E @ take k parts)) [1..<Suc (length parts)]
      then Inl (edit_error ''path_rejected'')
      else (case guard_resolve fs (ed_links E) (ed_root E) True rel of
          Inl e \<Rightarrow> Inl (if exn_class e = PathGuardError then edit_error ''path_rejected'' else e)
        | Inr p \<Rightarrow> Inr p))"

definition relative_posix :: "string \<Rightarrow> bool" where
  "relative_posix v \<longleftrightarrow> int (py_len v) \<le> 1024 \<and> CHR 0x00 \<notin> set v \<and> CHR 0x5C \<notin> set v
     \<and> list_all plain_part (split_on CHR ''/'' v)"

definition normalize_path :: "edit_env \<Rightarrow> fs \<Rightarrow> json \<Rightarrow> string res" where
  "normalize_path E fs v = (case v of
     JStr rel \<Rightarrow> if \<not> relative_posix rel then Inl (edit_error ''invalid_arguments'')
       else rbind (checked_path E fs rel) (\<lambda>p. Inr rel)
   | _ \<Rightarrow> Inl (edit_error ''invalid_arguments''))"

text \<open>A NUL among the first 8192 bytes.\<close>

definition binary_head :: "string \<Rightarrow> bool" where
  "binary_head c \<longleftrightarrow> CHR 0x00 \<in> set (take 8192 c)"

lemma in_set_take:
  "x \<in> set (take n xs) \<longleftrightarrow> dropWhile (\<lambda>y. y \<noteq> x) xs \<noteq> [] \<and> length xs - length (dropWhile (\<lambda>y. y \<noteq> x) xs) < n"
proof -
  define u where "u = takeWhile (\<lambda>y. y \<noteq> x) xs"
  define v where "v = dropWhile (\<lambda>y. y \<noteq> x) xs"
  have parts: "xs = u @ v" by (simp add: u_def v_def)
  have "x \<notin> set u" by (auto simp: u_def dest: set_takeWhileD)
  moreover have "v \<noteq> [] \<Longrightarrow> hd v = x" using hd_dropWhile [of "\<lambda>y. y \<noteq> x" xs] by (simp add: v_def)
  ultimately have "x \<in> set (take n xs) \<longleftrightarrow> v \<noteq> [] \<and> length u < n"
    unfolding parts by (cases v; cases "n - length u") (auto dest: in_set_takeD)
  moreover have "length xs - length v = length u" by (simp add: parts)
  ultimately show ?thesis by (simp only: v_def [symmetric])
qed

lemma binary_head_code [code]:
  "binary_head c = (case dropWhile (\<lambda>y. y \<noteq> CHR 0x00) c of [] \<Rightarrow> False | y # ys \<Rightarrow> int (length c) - int (length (y # ys)) < 8192)"
proof -
  define d where "d = dropWhile (\<lambda>y. y \<noteq> CHR 0x00) c"
  have "length d \<le> length c" unfolding d_def by (rule length_dropWhile_le)
  then show ?thesis
    unfolding binary_head_def in_set_take d_def [symmetric] by (cases d) auto
qed

definition read_text_file :: "edit_env \<Rightarrow> fs \<Rightarrow> path \<Rightarrow> string res" where
  "read_text_file E fs p =
     (case (if symlink_at E fs p then None else content_at E fs p) of
        None \<Rightarrow> Inl (edit_error ''path_rejected'')
      | Some c \<Rightarrow>
          if max_file_bytes < int (length c) then Inl (edit_error ''limit_exceeded'')
          else if binary_head c then Inl (edit_error ''path_rejected'')
          else if \<not> utf8_valid c then Inl (edit_error ''unsupported_text_encoding'')
          else Inr c)"

section \<open>The state of the planning loop\<close>

text \<open>Dictionaries are in insertion order; \<open>ps_required\<close> is a set.\<close>

record plan_state =
  ps_before :: "(string \<times> string option) list"
  ps_planned :: "(string \<times> file_state) list"
  ps_required :: "string list"
  ps_moves :: "(string \<times> string) list"
  ps_bytes :: nat
  ps_normalized :: "json list"

definition plan_start :: plan_state where
  "plan_start = \<lparr>ps_before = [], ps_planned = [], ps_required = [], ps_moves = [], ps_bytes = 0, ps_normalized = []\<rparr>"

definition set_planned :: "string \<Rightarrow> file_state \<Rightarrow> plan_state \<Rightarrow> plan_state" where
  "set_planned rel f s = s\<lparr>ps_planned := AList.update rel f (ps_planned s)\<rparr>"

definition load_path :: "edit_env \<Rightarrow> fs \<Rightarrow> string \<Rightarrow> plan_state \<Rightarrow> (file_state \<times> plan_state) res" where
  "load_path E fs rel s =
     (case map_of (ps_planned s) rel of
        Some f \<Rightarrow> Inr (f, s)
      | None \<Rightarrow>
          rbind (checked_path E fs rel) (\<lambda>p.
          rbind (if exists_at E fs p then rbind (read_text_file E fs p) (\<lambda>c. Inr \<lparr>fl_content = Some c, fl_origin = Some (ed_sha E c)\<rparr>)
                 else Inr \<lparr>fl_content = None, fl_origin = None\<rparr>) (\<lambda>f.
          Inr (f, set_planned rel f (s\<lparr>ps_before := (if map_of (ps_before s) rel = None
            then ps_before s @ [(rel, fl_content f)] else ps_before s)\<rparr>)))))"

text \<open>The parents of a new file, from the outermost.\<close>

definition parents_of :: "string \<Rightarrow> string list" where
  "parents_of rel = (let parts = split_on CHR ''/'' rel in map (\<lambda>k. join ''/'' (take k parts)) [1..<length parts])"

definition plan_one_parent :: "edit_env \<Rightarrow> fs \<Rightarrow> plan_state \<Rightarrow> string \<Rightarrow> plan_state res" where
  "plan_one_parent E fs s rel =
     rbind (checked_path E fs rel) (\<lambda>p.
     if (case map_of (ps_planned s) rel of None \<Rightarrow> False | Some f \<Rightarrow> fl_content f \<noteq> None)
     then Inl (edit_error ''invalid_arguments'')
     else if exists_at E fs p then
       (if \<not> dir_at E fs p \<or> symlink_at E fs p then Inl (edit_error ''path_rejected'') else Inr s)
     else Inr (s\<lparr>ps_required := List.insert rel (ps_required s)\<rparr>))"

definition plan_parent :: "edit_env \<Rightarrow> fs \<Rightarrow> string \<Rightarrow> plan_state \<Rightarrow> plan_state res" where
  "plan_parent E fs rel s = rfold (plan_one_parent E fs) s (parents_of rel)"

definition require_existing :: "file_state \<Rightarrow> string res" where
  "require_existing f = (case fl_content f of None \<Rightarrow> Inl (edit_error ''not_found'') | Some c \<Rightarrow> Inr c)"

definition is_sha256 :: "string \<Rightarrow> bool" where
  "is_sha256 v = (length v = 64 \<and> list_all (\<lambda>c. is_digit c \<or> c \<in> set ''abcdef'') v)"

definition check_expected :: "json \<Rightarrow> file_state \<Rightarrow> unit res" where
  "check_expected v f = (case v of
     JStr d \<Rightarrow> if \<not> is_sha256 d then Inl (edit_error ''invalid_arguments'')
       else require (fl_origin f = Some d) (edit_error ''edit_conflict'')
   | _ \<Rightarrow> Inl (edit_error ''invalid_arguments''))"

definition edit_text :: "json \<Rightarrow> string res" where
  "edit_text v = (case v of JStr s \<Rightarrow> Inr s | _ \<Rightarrow> Inl (edit_error ''invalid_arguments''))"

section \<open>New lines\<close>

abbreviation crlf :: string where
  "crlf \<equiv> [CHR 0x0D, CHR 0x0A]"

abbreviation lf :: string where
  "lf \<equiv> [CHR 0x0A]"

abbreviation cr :: string where
  "cr \<equiv> [CHR 0x0D]"

definition newline_styles :: "string \<Rightarrow> string list" where
  "newline_styles before =
     (let without = replace_str crlf [] before in
      map fst (filter snd [(crlf, contains_str crlf before), (lf, contains_str lf without), (cr, contains_str cr without)]))"

definition adapt_newlines :: "string \<Rightarrow> string \<Rightarrow> string" where
  "adapt_newlines newline v = replace_str lf newline (replace_str cr lf (replace_str crlf lf v))"

definition adapt_patch_newlines :: "string \<Rightarrow> string \<Rightarrow> string \<Rightarrow> string \<times> string" where
  "adapt_patch_newlines before old_text new_text =
     (case newline_styles before of
        [newline] \<Rightarrow> (adapt_newlines newline old_text, adapt_newlines newline new_text)
      | _ \<Rightarrow> (old_text, new_text))"

section \<open>One operation\<close>

definition plan_move :: "edit_env \<Rightarrow> fs \<Rightarrow> dict \<Rightarrow> plan_state \<Rightarrow> plan_state res" where
  "plan_move E fs item s =
     rbind (normalize_path E fs (dget item ''source'')) (\<lambda>source.
     rbind (normalize_path E fs (dget item ''destination'')) (\<lambda>destination.
     if source = destination \<or> ed_fold E source = ed_fold E destination then Inl (edit_error ''invalid_arguments'')
     else rbind (load_path E fs source s) (\<lambda>(f, s).
       rbind (require_existing f) (\<lambda>c. rbind (check_expected (dget item ''expected_sha256'') f) (\<lambda>u.
       rbind (load_path E fs destination s) (\<lambda>(g, s).
       if fl_content g \<noteq> None then Inl (edit_error ''already_exists'')
       else rbind (plan_parent E fs destination s) (\<lambda>s.
         Inr ((set_planned destination f (set_planned source \<lparr>fl_content = None, fl_origin = fl_origin f\<rparr> s))
           \<lparr>ps_moves := AList.update source destination (ps_moves s),
            ps_normalized := ps_normalized s @ [JObj (dmerge item [(''source'', JStr source), (''destination'', JStr destination)])]\<rparr>))))))))"

definition plan_create :: "edit_env \<Rightarrow> fs \<Rightarrow> dict \<Rightarrow> string \<Rightarrow> file_state \<Rightarrow> plan_state \<Rightarrow> plan_state res" where
  "plan_create E fs item rel f s =
     (if fl_content f \<noteq> None then Inl (edit_error ''already_exists'')
      else rbind (edit_text (dget item ''content'')) (\<lambda>c.
        rbind (plan_parent E fs rel (s\<lparr>ps_bytes := ps_bytes s + length c\<rparr>)) (\<lambda>s.
        Inr (set_planned rel \<lparr>fl_content = Some c, fl_origin = None\<rparr> s))))"

definition plan_replace :: "dict \<Rightarrow> string \<Rightarrow> file_state \<Rightarrow> plan_state \<Rightarrow> plan_state res" where
  "plan_replace item rel f s =
     rbind (require_existing f) (\<lambda>current. rbind (check_expected (dget item ''expected_sha256'') f) (\<lambda>u.
     rbind (edit_text (dget item ''old_text'')) (\<lambda>old_text. rbind (edit_text (dget item ''new_text'')) (\<lambda>new_text.
     if old_text = [] then Inl (edit_error ''invalid_arguments'')
     else (case adapt_patch_newlines current old_text new_text of (matched, replacement) \<Rightarrow>
       if count_str matched current \<noteq> 1 then Inl (edit_error ''edit_conflict'')
       else Inr (set_planned rel \<lparr>fl_content = Some (replace_first matched replacement current), fl_origin = fl_origin f\<rparr>
         (s\<lparr>ps_bytes := ps_bytes s + length old_text + length new_text\<rparr>)))))))"

definition plan_delete :: "dict \<Rightarrow> string \<Rightarrow> file_state \<Rightarrow> plan_state \<Rightarrow> plan_state res" where
  "plan_delete item rel f s =
     rbind (require_existing f) (\<lambda>c. rbind (check_expected (dget item ''expected_sha256'') f) (\<lambda>u.
     Inr (set_planned rel \<lparr>fl_content = None, fl_origin = fl_origin f\<rparr> s)))"

definition operation_fields :: "string \<Rightarrow> string set option" where
  "operation_fields op =
     (if op = ''create_file'' then Some {''op'', ''path'', ''content''}
      else if op = ''replace_text'' then Some {''op'', ''path'', ''expected_sha256'', ''old_text'', ''new_text''}
      else if op = ''delete_file'' then Some {''op'', ''path'', ''expected_sha256''}
      else if op = ''move_file'' then Some {''op'', ''source'', ''destination'', ''expected_sha256''}
      else None)"

definition plan_operation :: "edit_env \<Rightarrow> fs \<Rightarrow> string \<Rightarrow> dict \<Rightarrow> plan_state \<Rightarrow> plan_state res" where
  "plan_operation E fs op item s =
     (if op = ''move_file'' then plan_move E fs item s
      else rbind (normalize_path E fs (dget item ''path'')) (\<lambda>rel.
        rbind (load_path E fs rel s) (\<lambda>(f, s).
        rbind (if op = ''create_file'' then plan_create E fs item rel f s
               else if op = ''replace_text'' then plan_replace item rel f s
               else plan_delete item rel f s) (\<lambda>s.
        Inr (s\<lparr>ps_normalized := ps_normalized s @ [JObj (dset ''path'' (JStr rel) item)]\<rparr>)))))"

definition plan_step :: "edit_env \<Rightarrow> fs \<Rightarrow> plan_state \<Rightarrow> json \<Rightarrow> plan_state res" where
  "plan_step E fs s raw =
     (case raw of
        JObj item \<Rightarrow>
          (case dget item ''op'' of
             JStr op \<Rightarrow>
               if operation_fields op \<noteq> Some (set (map fst item)) then Inl (edit_error ''invalid_arguments'')
               else rbind (plan_operation E fs op item s) (\<lambda>s.
                 if max_text_bytes < int (ps_bytes s) then Inl (edit_error ''limit_exceeded'') else Inr s)
           | _ \<Rightarrow> Inl (edit_error ''invalid_arguments''))
      | _ \<Rightarrow> Inl (edit_error ''invalid_arguments''))"

section \<open>Move cycles\<close>

text \<open>Following the moves from a path; a path seen twice is a cycle. The fuel is the number of moves.\<close>

fun cycle_from :: "(string \<times> string) list \<Rightarrow> nat \<Rightarrow> string list \<Rightarrow> string \<Rightarrow> bool" where
  "cycle_from moves n seen current =
     (case map_of moves current of None \<Rightarrow> False
      | Some after \<Rightarrow> if current \<in> set seen then True
          else (case n of 0 \<Rightarrow> True | Suc m \<Rightarrow> cycle_from moves m (current # seen) after))"

definition has_cycle :: "(string \<times> string) list \<Rightarrow> bool" where
  "has_cycle moves = list_ex (\<lambda>start. cycle_from moves (length moves) [] start) (map fst moves)"

section \<open>The plan\<close>

definition review_patch :: "edit_env \<Rightarrow> (string \<times> string option) list \<Rightarrow> (string \<times> string option) list \<Rightarrow> string" where
  "review_patch E before after =
     concat (map (\<lambda>rel. let old = or_default None (map_of before rel); new = or_default None (map_of after rel) in
       ed_diff E (or_default [] old) (or_default [] new)
         (if old = None then ''/dev/null'' else ''a/'' @ rel) (if new = None then ''/dev/null'' else ''b/'' @ rel))
       (sort (map fst after)))"

definition slashes :: "string \<Rightarrow> nat" where
  "slashes rel = length (filter (\<lambda>c. c = CHR ''/'') rel)"

definition sort_dirs :: "string list \<Rightarrow> string list" where
  "sort_dirs ds = sort_key slashes (sort ds)"

definition changed_files :: "plan_state \<Rightarrow> (string \<times> string option) list" where
  "changed_files s = filter (\<lambda>(rel, c). or_default None (map_of (ps_before s) rel) \<noteq> c)
     (map (\<lambda>(rel, f). (rel, fl_content f)) (ps_planned s))"

definition finish_plan :: "edit_env \<Rightarrow> nat \<Rightarrow> plan_state \<Rightarrow> edit_plan res" where
  "finish_plan E n s =
     (if has_cycle (ps_moves s) then Inl (edit_error ''invalid_arguments'')
      else let after = changed_files s;
               before = map (\<lambda>(rel, c). (rel, or_default None (map_of (ps_before s) rel))) after;
               patch = review_patch E before after in
        if after = [] then Inl (edit_error ''no_changes'')
        else if max_operations < int (length after) then Inl (edit_error ''limit_exceeded'')
        else if list_ex (\<lambda>(rel, c). case c of None \<Rightarrow> False | Some x \<Rightarrow> max_file_bytes < int (length x)) after
        then Inl (edit_error ''limit_exceeded'')
        else if max_patch_bytes < int (length patch) then Inl (edit_error ''limit_exceeded'')
        else Inr \<lparr>pn_id = ed_uuid E n, pn_operations = ps_normalized s, pn_before = before, pn_after = after,
          pn_dirs = sort_dirs (ps_required s), pn_patch = patch\<rparr>)"

definition prepare :: "edit_env \<Rightarrow> nat \<Rightarrow> fs \<Rightarrow> json \<Rightarrow> edit_plan res" where
  "prepare E n fs arguments =
     rbind (validate_workspace E) (\<lambda>u.
     case arguments of
       JObj d \<Rightarrow>
         if set (map fst d) \<noteq> {''operations''} then Inl (edit_error ''invalid_arguments'')
         else (case dget d ''operations'' of
             JArr ops \<Rightarrow>
               if ops = [] \<or> max_operations < int (length ops) then Inl (edit_error ''invalid_arguments'')
               else rbind (rfold (plan_step E fs) plan_start ops) (finish_plan E n)
           | _ \<Rightarrow> Inl (edit_error ''invalid_arguments''))
     | _ \<Rightarrow> Inl (edit_error ''invalid_arguments''))"

end
