(* ===== verification/Atomic_Commit.thy ===== *)
theory Atomic_Commit
  imports Atomic_Edit Agent_Tools
begin

text \<open>
  The committing half of \<^verbatim>\<open>runtime/atomic_edit.py\<close>: a plan is recorded in a transaction directory,
  carried out on the worktree, verified, and undone when a step fails; transactions that a crash left
  behind are recovered before the next edit. The state holds the host's files, the transaction
  directories and the session. Every write to a disk may fail: \<^const>\<open>ed_fault\<close> says which.
\<close>

record transaction =
  tx_request :: "json list option"
  tx_plan :: "dict option"
  tx_patch :: "string option"
  tx_backup :: "(string \<times> string) list"
  tx_state :: "string option"
  tx_receipt :: "dict option"

record edit_state =
  ex_tree :: "(path \<times> node) list"
  ex_txs :: "(string \<times> transaction) list"
  ex_store :: store
  ex_clock :: nat

type_synonym 'a edit_prog = "(edit_state, 'a) prog"

abbreviation ex_fs :: "edit_state \<Rightarrow> fs" where
  "ex_fs s \<equiv> map_of (ex_tree s)"

section \<open>Writing\<close>

definition os_error :: exn where
  "os_error = Exn OSError ''io''"

definition tick :: "nat edit_prog" where
  "tick = (\<lambda>s. (Inr (ex_clock s), s\<lparr>ex_clock := Suc (ex_clock s)\<rparr>))"

text \<open>A step of the disk: it fails when the environment says so, or when the tree does not allow it.\<close>

definition disk :: "edit_env \<Rightarrow> ((path \<times> node) list \<Rightarrow> (path \<times> node) list option) \<Rightarrow> unit edit_prog" where
  "disk E f = bnd tick (\<lambda>n. if ed_fault E n then raise os_error
     else (\<lambda>s. case f (ex_tree s) of None \<Rightarrow> (Inl os_error, s) | Some t \<Rightarrow> (Inr (), s\<lparr>ex_tree := t\<rparr>)))"

definition fs_mkdir :: "edit_env \<Rightarrow> path \<Rightarrow> (path \<times> node) list \<Rightarrow> (path \<times> node) list option" where
  "fs_mkdir E p t = (case entry_at E (map_of t) p of None \<Rightarrow> None
     | Some q \<Rightarrow> if map_of t q = None then Some (AList.update q Dir t) else None)"

definition fs_unlink :: "edit_env \<Rightarrow> path \<Rightarrow> (path \<times> node) list \<Rightarrow> (path \<times> node) list option" where
  "fs_unlink E p t = (case entry_at E (map_of t) p of None \<Rightarrow> None
     | Some q \<Rightarrow> (case map_of t q of None \<Rightarrow> None | Some Dir \<Rightarrow> None | Some x \<Rightarrow> Some (AList.delete q t)))"

definition fs_rmdir :: "edit_env \<Rightarrow> path \<Rightarrow> (path \<times> node) list \<Rightarrow> (path \<times> node) list option" where
  "fs_rmdir E p t = (case entry_at E (map_of t) p of None \<Rightarrow> None
     | Some q \<Rightarrow> if map_of t q = Some Dir then Some (AList.delete q t) else None)"

text \<open>
  \<^verbatim>\<open>_write_path\<close>: a temporary file in the same directory, given the mode of what the path leads to,
  then renamed over the entry, which must not be a directory.
\<close>

definition mode_at :: "edit_env \<Rightarrow> fs \<Rightarrow> path \<Rightarrow> nat" where
  "mode_at E fs p = (case stat_at E fs p of None \<Rightarrow> ed_mode E
     | Some r \<Rightarrow> (case node_at fs r of Some (File m c) \<Rightarrow> m | _ \<Rightarrow> ed_mode E))"

definition fs_write :: "edit_env \<Rightarrow> path \<Rightarrow> string \<Rightarrow> (path \<times> node) list \<Rightarrow> (path \<times> node) list option" where
  "fs_write E p c t = (case entry_at E (map_of t) p of None \<Rightarrow> None
     | Some q \<Rightarrow> if map_of t q = Some Dir then None
         else Some (AList.update q (File (mode_at E (map_of t) p) c) t))"

definition mkdir :: "edit_env \<Rightarrow> path \<Rightarrow> unit edit_prog" where
  "mkdir E p = disk E (fs_mkdir E p)"

definition remove_path :: "edit_env \<Rightarrow> path \<Rightarrow> unit edit_prog" where
  "remove_path E p = disk E (fs_unlink E p)"

definition write_path :: "edit_env \<Rightarrow> path \<Rightarrow> string \<Rightarrow> unit edit_prog" where
  "write_path E p c = disk E (fs_write E p c)"

fun each :: "('a \<Rightarrow> ('s, unit) prog) \<Rightarrow> 'a list \<Rightarrow> ('s, unit) prog" where
  "each f [] = ret ()"
| "each f (x # xs) = seq_then (f x) (each f xs)"

text \<open>\<^verbatim>\<open>p.mkdir(parents=True, exist_ok=True)\<close>.\<close>

definition make_parents :: "edit_env \<Rightarrow> path \<Rightarrow> unit edit_prog" where
  "make_parents E p = each (\<lambda>q. bnd (gets ex_fs) (\<lambda>fs. if dir_at E fs q then ret () else mkdir E q)) (prefixes p)"

section \<open>Transaction directories\<close>

definition tx_of :: "edit_state \<Rightarrow> string \<Rightarrow> transaction option" where
  "tx_of s i = map_of (ex_txs s) i"

definition empty_tx :: transaction where
  "empty_tx = \<lparr>tx_request = None, tx_plan = None, tx_patch = None, tx_backup = [], tx_state = None, tx_receipt = None\<rparr>"

text \<open>A write below the transaction directory of \<open>i\<close>.\<close>

definition tx_write :: "edit_env \<Rightarrow> string \<Rightarrow> (transaction \<Rightarrow> transaction) \<Rightarrow> unit edit_prog" where
  "tx_write E i f = bnd tick (\<lambda>n. if ed_fault E n then raise os_error
     else (\<lambda>s. case tx_of s i of None \<Rightarrow> (Inl os_error, s)
       | Some x \<Rightarrow> (Inr (), s\<lparr>ex_txs := AList.update i (f x) (ex_txs s)\<rparr>)))"

definition tx_create :: "edit_env \<Rightarrow> string \<Rightarrow> unit edit_prog" where
  "tx_create E i = bnd tick (\<lambda>n. if ed_fault E n then raise os_error
     else (\<lambda>s. case tx_of s i of Some x \<Rightarrow> (Inl os_error, s)
       | None \<Rightarrow> (Inr (), s\<lparr>ex_txs := AList.update i empty_tx (ex_txs s)\<rparr>)))"

text \<open>\<^verbatim>\<open>shutil.rmtree\<close> of a transaction directory; when it fails, what is left is what was there.\<close>

definition tx_remove :: "edit_env \<Rightarrow> string \<Rightarrow> unit edit_prog" where
  "tx_remove E i = bnd tick (\<lambda>n. if ed_fault E n then raise os_error
     else modify (\<lambda>s. s\<lparr>ex_txs := AList.delete i (ex_txs s)\<rparr>))"

definition write_tx_state :: "edit_env \<Rightarrow> string \<Rightarrow> string \<Rightarrow> unit edit_prog" where
  "write_tx_state E i st = tx_write E i (\<lambda>x. x\<lparr>tx_state := Some st\<rparr>)"

definition tx_status :: "string \<Rightarrow> edit_state \<Rightarrow> string option" where
  "tx_status i s = (case tx_of s i of None \<Rightarrow> None | Some x \<Rightarrow> tx_state x)"

definition on_session :: "'a store_prog \<Rightarrow> 'a edit_prog" where
  "on_session m = (\<lambda>s. case m (ex_store s) of (r, st) \<Rightarrow> (r, s\<lparr>ex_store := st\<rparr>))"

section \<open>Records\<close>

definition content_identity :: "edit_env \<Rightarrow> string option \<Rightarrow> json" where
  "content_identity E c = JObj [(''exists'', JBool (c \<noteq> None)), (''sha256'', opt_str (map_option (ed_sha E) c))]"

definition plan_record :: "edit_env \<Rightarrow> edit_plan \<Rightarrow> dict" where
  "plan_record E p = [(''transaction_id'', JStr (pn_id p)), (''operations'', JArr (pn_operations p)),
     (''before'', JObj (map (\<lambda>(rel, c). (rel, content_identity E c)) (pn_before p))),
     (''after'', JObj (map (\<lambda>(rel, c). (rel, content_identity E c)) (pn_after p))),
     (''created_directories'', JArr (map JStr (pn_dirs p)))]"

definition tree_hash :: "edit_env \<Rightarrow> (string \<times> string option) list \<Rightarrow> string" where
  "tree_hash E states = ed_sha E (concat (map (\<lambda>rel. rel @ [CHR 0x00]
     @ (case or_default None (map_of states rel) of
          Some c \<Rightarrow> ''file'' @ [CHR 0x00] @ ed_sha E c | None \<Rightarrow> ''absent'' @ [CHR 0x00]))
     (sort (map fst states))))"

definition moved_files :: "json list \<Rightarrow> json list" where
  "moved_files ops = List.map_filter (\<lambda>v. case v of
     JObj item \<Rightarrow> if dget item ''op'' = JStr ''move_file''
       then Some (JObj [(''source'', dget item ''source''), (''destination'', dget item ''destination'')]) else None
   | _ \<Rightarrow> None) ops"

definition receipt :: "edit_env \<Rightarrow> nat \<Rightarrow> string \<Rightarrow> edit_plan \<Rightarrow> int \<Rightarrow> dict" where
  "receipt E n session p revision =
     (let files = sort (map fst (pn_after p)); content = (\<lambda>states rel. or_default None (map_of states rel)) in
     [(''schema_version'', JInt 1), (''transaction_id'', JStr (pn_id p)), (''candidate_revision'', JInt revision),
      (''session_id'', JStr session), (''workspace_revision'', JInt (workspace_revision (ed_context E))),
      (''base_commit'', opt_str (base_commit (ed_context E))),
      (''file_changes'', JArr (map (\<lambda>rel. JObj [(''path'', JStr rel),
         (''before_sha256'', opt_str (map_option (ed_sha E) (content (pn_before p) rel))),
         (''after_sha256'', opt_str (map_option (ed_sha E) (content (pn_after p) rel))),
         (''before_exists'', JBool (content (pn_before p) rel \<noteq> None)),
         (''after_exists'', JBool (content (pn_after p) rel \<noteq> None))]) files)),
      (''changed_files'', JArr (map JStr files)), (''created_directories'', JArr (map JStr (pn_dirs p))),
      (''moved_files'', JArr (moved_files (pn_operations p))),
      (''before_tree_sha256'', JStr (tree_hash E (pn_before p))), (''after_tree_sha256'', JStr (tree_hash E (pn_after p))),
      (''patch_sha256'', JStr (ed_sha E (pn_patch p))), (''committed_at'', JStr (ed_now E n))])"

section \<open>Commit and rollback\<close>

text \<open>The content that \<^verbatim>\<open>_revalidate\<close> and \<^verbatim>\<open>_verify_after\<close> read: links do not count as files.\<close>

definition plain_content :: "edit_env \<Rightarrow> fs \<Rightarrow> path \<Rightarrow> string option" where
  "plain_content E fs p = (if symlink_at E fs p then None else content_at E fs p)"

definition revalidate :: "edit_env \<Rightarrow> edit_plan \<Rightarrow> unit edit_prog" where
  "revalidate E p = bnd (gets ex_fs) (\<lambda>fs.
     seq_then (each (\<lambda>(rel, expected). bnd (lift (checked_path E fs rel)) (\<lambda>q.
         if plain_content E fs q \<noteq> expected then raise (edit_error ''edit_conflict'') else ret ())) (pn_before p))
       (each (\<lambda>rel. bnd (lift (checked_path E fs rel)) (\<lambda>q.
         if exists_at E fs q then raise (edit_error ''edit_conflict'') else ret ())) (pn_dirs p)))"

definition verify_after :: "edit_env \<Rightarrow> edit_plan \<Rightarrow> unit edit_prog" where
  "verify_after E p = bnd (gets ex_fs) (\<lambda>fs.
     each (\<lambda>(rel, expected). bnd (lift (checked_path E fs rel)) (\<lambda>q.
       if plain_content E fs q \<noteq> expected then raise os_error else ret ())) (pn_after p))"

definition restore_file :: "edit_env \<Rightarrow> string \<times> string option \<Rightarrow> unit edit_prog" where
  "restore_file E = (\<lambda>(rel, content). case content of
     None \<Rightarrow> bnd (gets ex_fs) (\<lambda>fs.
       if exists_at E fs (target E rel) \<or> symlink_at E fs (target E rel) then remove_path E (target E rel) else ret ())
   | Some c \<Rightarrow> seq_then (make_parents E (butlast (target E rel))) (write_path E (target E rel) c))"

definition empty_dir :: "(path \<times> node) list \<Rightarrow> path \<Rightarrow> bool" where
  "empty_dir t p = (\<not> list_ex (\<lambda>(q, x). q \<noteq> [] \<and> butlast q = p) t)"

definition restore_dir :: "edit_env \<Rightarrow> string \<Rightarrow> unit edit_prog" where
  "restore_dir E rel = bnd (gets ex_tree) (\<lambda>t.
     case stat_at E (map_of t) (target E rel) of
       Some q \<Rightarrow> if is_dir (map_of t) q \<and> empty_dir t q then disk E (fs_rmdir E (target E rel)) else ret ()
     | None \<Rightarrow> ret ())"

definition restore_check :: "edit_env \<Rightarrow> edit_plan \<Rightarrow> unit edit_prog" where
  "restore_check E p = bnd (gets ex_fs) (\<lambda>fs.
     each (\<lambda>(rel, expected). if content_at E fs (target E rel) \<noteq> expected then raise os_error else ret ()) (pn_before p))"

definition restore :: "edit_env \<Rightarrow> edit_plan \<Rightarrow> unit edit_prog" where
  "restore E p =
     seq_then (each (restore_file E) (rev (sort_key fst (pn_before p))))
     (seq_then (each (restore_dir E) (rev (sort_dirs (pn_dirs p))))
     (restore_check E p))"

definition record_plan :: "edit_env \<Rightarrow> edit_plan \<Rightarrow> unit edit_prog" where
  "record_plan E p =
     seq_then (tx_create E (pn_id p))
     (seq_then (tx_write E (pn_id p) (\<lambda>x. x\<lparr>tx_request := Some (pn_operations p)\<rparr>))
     (seq_then (tx_write E (pn_id p) (\<lambda>x. x\<lparr>tx_plan := Some (plan_record E p)\<rparr>))
     (seq_then (tx_write E (pn_id p) (\<lambda>x. x\<lparr>tx_patch := Some (pn_patch p)\<rparr>))
       (each (\<lambda>(rel, content). case content of None \<Rightarrow> ret ()
          | Some c \<Rightarrow> tx_write E (pn_id p) (\<lambda>x. x\<lparr>tx_backup := AList.update rel c (tx_backup x)\<rparr>)) (pn_before p)))))"

definition carry_out :: "edit_env \<Rightarrow> edit_plan \<Rightarrow> unit edit_prog" where
  "carry_out E p =
     seq_then (each (\<lambda>rel. mkdir E (target E rel)) (pn_dirs p))
     (seq_then (each (\<lambda>rel. case or_default None (map_of (pn_after p) rel) of
         None \<Rightarrow> remove_path E (target E rel) | Some c \<Rightarrow> write_path E (target E rel) c) (sort (map fst (pn_after p))))
     (verify_after E p))"

definition try_edit :: "unit edit_prog \<Rightarrow> (exn + unit) edit_prog" where
  "try_edit m = (\<lambda>s. case m s of (r, s') \<Rightarrow> (Inr r, s'))"

text \<open>The handler of the big \<^verbatim>\<open>try\<close>: an interrupted plan is undone, or the session is marked.\<close>

definition undo :: "edit_env \<Rightarrow> edit_plan \<Rightarrow> unit edit_prog" where
  "undo E p =
     bnd (gets (tx_status (pn_id p))) (\<lambda>status.
     if status \<in> {Some ''prepared'', Some ''committing''} then
       bnd (try_edit (seq_then (restore E p) (tx_remove E (pn_id p)))) (\<lambda>r. case r of
         Inr u \<Rightarrow> ret ()
       | Inl e \<Rightarrow>
           seq_then (write_tx_state E (pn_id p) ''recovery_required'')
           (bnd tick (\<lambda>n. seq_then (on_session (update_workspace_state (ed_now E n) ''recovery_required'' ''rollback''))
           (raise (edit_error ''rollback_failed'')))))
     else ret ())"

definition commit_error :: "exn \<Rightarrow> exn" where
  "commit_error e = (if exn_class e = AtomicEditError then e else edit_error ''internal_error'')"

definition apply_plan :: "edit_env \<Rightarrow> edit_plan \<Rightarrow> unit edit_prog" where
  "apply_plan E p =
     seq_then (record_plan E p)
     (seq_then (write_tx_state E (pn_id p) ''prepared'')
     (seq_then (revalidate E p)
     (seq_then (write_tx_state E (pn_id p) ''committing'')
     (carry_out E p))))"

definition finish_commit :: "edit_env \<Rightarrow> edit_plan \<Rightarrow> dict edit_prog" where
  "finish_commit E p =
     bnd (on_session next_candidate_revision) (\<lambda>revision.
     bnd tick (\<lambda>n. bnd (gets (st_session \<circ> ex_store)) (\<lambda>session.
     let r = receipt E n session p revision in
     seq_then (tx_write E (pn_id p) (\<lambda>x. x\<lparr>tx_receipt := Some r\<rparr>))
     (seq_then (write_tx_state E (pn_id p) ''committed'')
     (bnd tick (\<lambda>m.
     if ed_fault E m then raise (edit_error ''internal_error'')
     else seq_then (on_session (append_unit (ed_now E m) ''edit_transaction'' r))
       (seq_then (tx_remove E (pn_id p)) (ret r))))))))"

definition commit :: "edit_env \<Rightarrow> edit_plan \<Rightarrow> dict edit_prog" where
  "commit E p =
     bnd (try_edit (apply_plan E p)) (\<lambda>r. case r of
       Inl e \<Rightarrow> seq_then (undo E p) (raise (commit_error e))
     | Inr u \<Rightarrow> finish_commit E p)"

section \<open>Recovery\<close>

definition plan_items :: "dict \<Rightarrow> string \<Rightarrow> (string \<times> json) list res" where
  "plan_items record k = rbind (dindex record k) (\<lambda>v. case v of JObj d \<Rightarrow> Inr d | _ \<Rightarrow> Inl (Exn AttributeError ''items''))"

definition identity_get :: "json \<Rightarrow> string \<Rightarrow> json res" where
  "identity_get v k = (case v of JObj d \<Rightarrow> Inr (dget d k) | _ \<Rightarrow> Inl (Exn AttributeError ''get''))"

definition load_before :: "transaction \<Rightarrow> string \<times> json \<Rightarrow> (string \<times> string option) res" where
  "load_before x = (\<lambda>(rel, identity). rbind (identity_get identity ''exists'') (\<lambda>e.
     if truthy e then (case map_of (tx_backup x) rel of None \<Rightarrow> Inl os_error | Some c \<Rightarrow> Inr (rel, Some c))
     else Inr (rel, None)))"

text \<open>The content after is only known if the file is still as planned; otherwise it is taken to be empty.\<close>

definition load_after :: "edit_env \<Rightarrow> fs \<Rightarrow> string \<times> json \<Rightarrow> (string \<times> string option) res" where
  "load_after E fs = (\<lambda>(rel, identity). rbind (identity_get identity ''exists'') (\<lambda>e.
     if \<not> truthy e then Inr (rel, None)
     else rbind (identity_get identity ''sha256'') (\<lambda>d.
       Inr (rel, Some (case content_at E fs (target E rel) of
         Some c \<Rightarrow> if JStr (ed_sha E c) = d then c else [] | None \<Rightarrow> [])))))"

definition load_plan :: "edit_env \<Rightarrow> fs \<Rightarrow> transaction \<Rightarrow> edit_plan res" where
  "load_plan E fs x =
     (case tx_plan x of None \<Rightarrow> Inl os_error
      | Some record \<Rightarrow>
          rbind (plan_items record ''before'') (\<lambda>bs. rbind (rmap (load_before x) bs) (\<lambda>before.
          rbind (plan_items record ''after'') (\<lambda>as. rbind (rmap (load_after E fs) as) (\<lambda>after.
          rbind (dindex record ''transaction_id'') (\<lambda>i. rbind (dindex record ''operations'') (\<lambda>ops.
          rbind (dindex record ''created_directories'') (\<lambda>ds.
          (case (i, ops, ds) of
             (JStr i, JArr ops, JArr ds) \<Rightarrow> rbind (rmap (\<lambda>d. case d of JStr r \<Rightarrow> Inr r | _ \<Rightarrow> Inl (Exn TypeError ''directory'')) ds) (\<lambda>dirs.
               Inr \<lparr>pn_id = i, pn_operations = ops, pn_before = before, pn_after = after, pn_dirs = dirs, pn_patch = []\<rparr>)
           | _ \<Rightarrow> Inl (Exn TypeError ''plan''))))))))))"

definition repair_event :: "edit_env \<Rightarrow> transaction \<Rightarrow> unit edit_prog" where
  "repair_event E x =
     (case tx_receipt x of None \<Rightarrow> raise (edit_error ''rollback_failed'')
      | Some r \<Rightarrow> bnd (on_session read_events) (\<lambda>es.
          if list_ex (\<lambda>e. ev_type e = ''edit_transaction'' \<and> dget (ev_payload e) ''transaction_id'' = dget r ''transaction_id'') es
          then ret ()
          else bnd tick (\<lambda>n. on_session (append_unit (ed_now E n) ''edit_transaction'' r))))"

definition recover_pending :: "edit_env \<Rightarrow> string \<Rightarrow> transaction \<Rightarrow> unit edit_prog" where
  "recover_pending E i x =
     bnd (try_edit (bnd (gets ex_fs) (\<lambda>fs. bnd (lift (load_plan E fs x)) (\<lambda>p.
       seq_then (restore E p) (tx_remove E i))))) (\<lambda>r. case r of
       Inr u \<Rightarrow> ret ()
     | Inl e \<Rightarrow>
         seq_then (write_tx_state E i ''recovery_required'')
         (bnd tick (\<lambda>n. seq_then (on_session (update_workspace_state (ed_now E n) ''recovery_required'' ''unfinished edit''))
         (raise (edit_error ''rollback_failed'')))))"

definition recover_one :: "edit_env \<Rightarrow> string \<Rightarrow> unit edit_prog" where
  "recover_one E i = bnd (gets (\<lambda>s. tx_of s i)) (\<lambda>t. case t of
     None \<Rightarrow> ret ()
   | Some x \<Rightarrow>
       if tx_state x = Some ''recovery_required'' then raise (edit_error ''rollback_failed'')
       else if tx_state x = Some ''committed'' then seq_then (repair_event E x) (tx_remove E i)
       else if tx_state x \<in> {Some ''prepared'', Some ''committing''} then recover_pending E i x
       else ret ())"

definition ensure_recovered :: "edit_env \<Rightarrow> unit edit_prog" where
  "ensure_recovered E = bnd (gets (\<lambda>s. sort (map fst (ex_txs s)))) (\<lambda>ids. each (recover_one E) ids)"

section \<open>The tool\<close>

definition argument_errors :: "json \<Rightarrow> json list" where
  "argument_errors v =
     (case v of
        JObj d \<Rightarrow>
          (case dget d ''operations'' of
             JArr ops \<Rightarrow> List.map_filter (\<lambda>(i, op). case op of
                 JObj item \<Rightarrow> if as_str (dget item ''op'') = None
                   then Some (JObj [(''operation_index'', JInt (int i)), (''field'', JStr ''op''), (''reason'', JStr ''required_string'')])
                   else None
               | _ \<Rightarrow> Some (JObj [(''operation_index'', JInt (int i)), (''field'', JNull), (''reason'', JStr ''object_required'')]))
               (enumerate 0 ops)
           | _ \<Rightarrow> [JObj [(''field'', JStr ''operations''), (''reason'', JStr ''required_array'')]])
      | _ \<Rightarrow> [JObj [(''field'', JStr ''operations''), (''reason'', JStr ''required_array'')]])"

text \<open>The texts of the result are tags; its metadata is the receipt.\<close>

definition edit_transaction :: "edit_env \<Rightarrow> json \<Rightarrow> dict edit_prog" where
  "edit_transaction E arguments =
     seq_then (ensure_recovered E)
     (bnd tick (\<lambda>n. bnd (gets ex_fs) (\<lambda>fs. bnd (lift (prepare E n fs arguments)) (commit E))))"

definition apply_workspace_edit :: "edit_env \<Rightarrow> json \<Rightarrow> tool_result edit_prog" where
  "apply_workspace_edit E arguments =
     bnd (on_session workspace_state) (\<lambda>state.
     if state = WorkspaceTainted then ret (tool_failure ''tainted'' ''workspace_tainted'')
     else if state = RecoveryRequired then ret (tool_failure ''recovery'' ''recovery_required'')
     else bnd (\<lambda>s. case edit_transaction E arguments s of (r, s') \<Rightarrow> (Inr r, s')) (\<lambda>r. case r of
       Inr r \<Rightarrow> ret (tool_success ''committed'' r)
     | Inl e \<Rightarrow>
         if exn_class e = AtomicEditError then
           ret ((tool_failure ''rejected'' (exn_code e))\<lparr>tr_metadata := [(''workspace_changed'', JBool False),
             (''operation_errors'', JArr (if exn_code e = ''invalid_arguments'' then argument_errors arguments else []))]\<rparr>)
         else if exn_class e \<in> {OSError, UnicodeDecodeError, ValueError, TypeError, KeyError}
         then ret (tool_failure ''failed'' ''internal_error'')
         else raise e))"

end
