(* ===== verification/Atomic_Frames.thy ===== *)
theory Atomic_Frames
  imports Atomic_Commit
begin

text \<open>
  What the steps of an atomic edit leave alone: the paths outside a plan, the files of a worktree while a transaction is
  recorded, and the records of other transactions.
\<close>

section \<open>Frames\<close>

named_theorems edit_frames \<open>what the parts of an edit leave alone\<close>

lemma preserves_each [preserves_intros]: "(\<And>x. x \<in> set xs \<Longrightarrow> preserves P (f x)) \<Longrightarrow> preserves P (each f xs)"
  by (induction xs) (auto intro!: preserves_intros)

lemma preserves_tick [edit_frames]: "(\<And>s n. P s \<Longrightarrow> P (s\<lparr>ex_clock := n\<rparr>)) \<Longrightarrow> preserves P tick"
  by (auto simp: preserves_def tick_def)

lemma each_Inr: "each f xs s = (Inr u, s') \<Longrightarrow> (\<And>x t v t'. x \<in> set xs \<Longrightarrow> f x t = (Inr v, t') \<Longrightarrow> t' = t)
    \<Longrightarrow> s' = s \<and> (\<forall>x \<in> set xs. \<exists>v. f x s = (Inr v, s))"
proof (induction xs)
  case (Cons x xs)
  from Cons.prems(1) obtain v t where step: "f x s = (Inr v, t)" and rest: "each f xs t = (Inr u, s')"
    by (auto simp: seq_then_eq_Inr)
  have t: "t = s" using Cons.prems(2) [OF _ step] by simp
  with Cons.IH [OF rest [unfolded t]] Cons.prems(2) step show ?case by auto
qed simp

text \<open>The tree is only changed by steps of the disk, the transactions only by writes below their directories.\<close>

lemma tx_write_tree [edit_frames]: "preserves (\<lambda>s. ex_tree s = T) (tx_write E i f)"
  by (auto simp: preserves_def tx_write_def tick_def bnd_def split: option.splits)

lemma tx_create_tree [edit_frames]: "preserves (\<lambda>s. ex_tree s = T) (tx_create E i)"
  by (auto simp: preserves_def tx_create_def tick_def bnd_def split: option.splits)

lemma tx_remove_tree [edit_frames]: "preserves (\<lambda>s. ex_tree s = T) (tx_remove E i)"
  by (auto simp: preserves_def tx_remove_def tick_def bnd_def)

lemma on_session_tree [edit_frames]: "preserves (\<lambda>s. ex_tree s = T) (on_session m)"
  by (auto simp: preserves_def on_session_def split: prod.splits)

lemma disk_txs [edit_frames]: "preserves (\<lambda>s. ex_txs s = X) (disk E f)"
  by (auto simp: preserves_def disk_def tick_def bnd_def split: option.splits)

lemma on_session_txs [edit_frames]: "preserves (\<lambda>s. ex_txs s = X) (on_session m)"
  by (auto simp: preserves_def on_session_def split: prod.splits)

lemma tick_tree [edit_frames]: "preserves (\<lambda>s. ex_tree s = T) tick"
  by (rule preserves_tick) simp

lemma tick_txs [edit_frames]: "preserves (\<lambda>s. ex_txs s = X) tick"
  by (rule preserves_tick) simp

lemma record_plan_tree: "preserves (\<lambda>s. ex_tree s = T) (record_plan E p)"
  unfolding record_plan_def by (auto intro!: preserves_intros edit_frames split: option.split)

lemma make_parents_txs [edit_frames]: "preserves (\<lambda>s. ex_txs s = X) (make_parents E p)"
  unfolding make_parents_def mkdir_def by (auto intro!: preserves_intros edit_frames)

lemma restore_txs: "preserves (\<lambda>s. ex_txs s = X) (restore E p)"
  unfolding restore_def restore_file_def restore_dir_def restore_check_def remove_path_def write_path_def
  by (auto intro!: preserves_intros edit_frames split: option.split)

lemma revalidate_txs: "preserves (\<lambda>s. ex_txs s = X) (revalidate E p)"
  unfolding revalidate_def by (auto intro!: preserves_intros)

lemma carry_out_txs: "preserves (\<lambda>s. ex_txs s = X) (carry_out E p)"
  unfolding carry_out_def verify_after_def mkdir_def remove_path_def write_path_def
  by (auto intro!: preserves_intros edit_frames split: option.split)

lemma finish_commit_tree: "preserves (\<lambda>s. ex_tree s = T) (finish_commit E p)"
  unfolding finish_commit_def write_tx_state_def Let_def by (auto intro!: preserves_intros edit_frames)

section \<open>Where a commit can end\<close>

definition before_contents :: "edit_env \<Rightarrow> edit_plan \<Rightarrow> edit_state \<Rightarrow> bool" where
  "before_contents E p s \<longleftrightarrow> (\<forall>(rel, c) \<in> set (pn_before p). content_at E (ex_fs s) (target E rel) = c)"

definition after_contents :: "edit_env \<Rightarrow> edit_plan \<Rightarrow> edit_state \<Rightarrow> bool" where
  "after_contents E p s \<longleftrightarrow> (\<forall>(rel, c) \<in> set (pn_after p). \<exists>q. checked_path E (ex_fs s) rel = Inr q \<and> plain_content E (ex_fs s) q = c)"

definition pending_states :: "string list" where
  "pending_states = [''prepared'', ''committing'', ''recovery_required'']"

definition pending :: "string \<Rightarrow> edit_state \<Rightarrow> bool" where
  "pending i s \<longleftrightarrow> (\<exists>st \<in> set pending_states. tx_status i s = Some st)"

lemma before_contents_tree: "ex_tree s' = ex_tree s \<Longrightarrow> before_contents E p s' = before_contents E p s"
  by (simp add: before_contents_def)

lemma after_contents_tree: "ex_tree s' = ex_tree s \<Longrightarrow> after_contents E p s' = after_contents E p s"
  by (simp add: after_contents_def)

lemma tx_status_txs: "ex_txs s' = ex_txs s \<Longrightarrow> tx_status i s' = tx_status i s"
  by (simp add: tx_status_def tx_of_def)

lemma frame_of: "preserves (\<lambda>s. f s = f s0) m \<Longrightarrow> m s0 = (r, s') \<Longrightarrow> f s' = f s0"
  using preservesD [of "\<lambda>s. f s = f s0" m s0 r s'] by simp

lemma write_tx_state_run:
  assumes "write_tx_state E i st s = (r, s')"
  shows "ex_tree s' = ex_tree s" and "r = Inr u \<Longrightarrow> tx_status i s' = Some st" and "r = Inl e \<Longrightarrow> ex_txs s' = ex_txs s"
  using assms
  by (auto simp: write_tx_state_def tx_write_def tick_def bnd_def tx_status_def tx_of_def update_conv' split: option.splits if_splits)

lemma tx_write_status: "(\<And>x. tx_state (f x) = tx_state x) \<Longrightarrow> preserves (\<lambda>s. tx_status i s = st) (tx_write E i f)"
  by (auto simp: preserves_def tx_write_def tick_def bnd_def tx_status_def tx_of_def update_conv' split: option.splits)

lemma tx_create_status: "preserves (\<lambda>s. tx_status i s = None) (tx_create E i)"
  by (auto simp: preserves_def tx_create_def tick_def bnd_def tx_status_def tx_of_def update_conv' empty_tx_def split: option.splits)

lemma record_plan_status: "preserves (\<lambda>s. tx_status (pn_id p) s = None) (record_plan E p)"
  unfolding record_plan_def by (auto intro!: preserves_intros tx_write_status tx_create_status split: option.split)

lemma verify_after_Inr: "verify_after E p s = (Inr u, s') \<Longrightarrow> s' = s \<and> after_contents E p s"
proof -
  assume "verify_after E p s = (Inr u, s')"
  then have run: "each (\<lambda>(rel, expected). bnd (lift (checked_path E (ex_fs s) rel)) (\<lambda>q.
       if plain_content E (ex_fs s) q \<noteq> expected then raise os_error else ret ())) (pn_after p) s = (Inr u, s')"
    by (simp add: verify_after_def)
  have "s' = s \<and> (\<forall>x \<in> set (pn_after p). \<exists>v. (\<lambda>(rel, expected). bnd (lift (checked_path E (ex_fs s) rel)) (\<lambda>q.
       if plain_content E (ex_fs s) q \<noteq> expected then raise os_error else ret ())) x s = (Inr v, s))"
    by (rule each_Inr [OF run]) (auto simp: bnd_eq_Inr split: if_splits)
  then show ?thesis
    by (fastforce simp: after_contents_def bnd_eq_Inr split: if_splits)
qed

lemma restore_check_Inr: "restore_check E p s = (Inr u, s') \<Longrightarrow> s' = s \<and> before_contents E p s"
proof -
  assume "restore_check E p s = (Inr u, s')"
  then have run: "each (\<lambda>(rel, expected). if content_at E (ex_fs s) (target E rel) \<noteq> expected then raise os_error else ret ())
      (pn_before p) s = (Inr u, s')"
    by (simp add: restore_check_def)
  have "s' = s \<and> (\<forall>x \<in> set (pn_before p). \<exists>v. (\<lambda>(rel, expected). if content_at E (ex_fs s) (target E rel) \<noteq> expected
      then raise os_error else ret ()) x s = (Inr v, s))"
    by (rule each_Inr [OF run]) (auto split: if_splits)
  then show ?thesis by (fastforce simp: before_contents_def split: if_splits)
qed

lemma restore_Inr: "restore E p s = (Inr u, s') \<Longrightarrow> before_contents E p s'"
  unfolding restore_def by (auto simp: seq_then_eq_Inr dest!: restore_check_Inr)

lemma carry_out_Inr: "carry_out E p s = (Inr u, s') \<Longrightarrow> after_contents E p s'"
  unfolding carry_out_def by (auto simp: seq_then_eq_Inr dest!: verify_after_Inr)

lemma seq_cases:
  assumes "seq_then m k s = (r, s')"
  obtains (fails) e where "m s = (Inl e, s')" and "r = Inl e"
  | (goes) x t where "m s = (Inr x, t)" and "k t = (r, s')"
proof (cases "m s")
  case (Pair q t)
  then show ?thesis using assms that by (cases q) auto
qed

text \<open>The \<^verbatim>\<open>try\<close> block ends with the files after the edit, before anything was written, or with a pending transaction.\<close>

lemma apply_plan_outcome:
  assumes "apply_plan E p s = (r, s')" and "tx_of s (pn_id p) = None"
  shows "case r of Inr u \<Rightarrow> after_contents E p s'
    | Inl e \<Rightarrow> ex_tree s' = ex_tree s \<and> tx_status (pn_id p) s' = None
        \<or> tx_status (pn_id p) s' \<in> {Some ''prepared'', Some ''committing''}"
proof -
  have none: "tx_status (pn_id p) s = None" using assms(2) by (simp add: tx_status_def)
  have recorded: "ex_tree t = ex_tree s \<and> tx_status (pn_id p) t = None" if "record_plan E p s = (q, t)" for q t
    using frame_of [OF record_plan_tree that] preservesD [OF record_plan_status none that] by simp
  from assms(1) show ?thesis unfolding apply_plan_def
  proof (cases rule: seq_cases)
    case (fails e)
    with recorded show ?thesis by simp
  next
    case (goes x t1)
    note t1 = recorded [OF goes(1)]
    from goes(2) show ?thesis
    proof (cases rule: seq_cases)
      case (fails e)
      then show ?thesis
        using t1 write_tx_state_run(1) [OF fails(1)] tx_status_txs [OF write_tx_state_run(3) [OF fails(1) refl]] by simp
    next
      case (goes x t2)
      have prepared: "tx_status (pn_id p) t2 = Some ''prepared''" by (rule write_tx_state_run(2) [OF goes(1) refl])
      from goes(2) show ?thesis
      proof (cases rule: seq_cases)
        case (fails e)
        then show ?thesis using prepared tx_status_txs [OF frame_of [OF revalidate_txs fails(1)]] by simp
      next
        case (goes x t3)
        have prepared3: "tx_status (pn_id p) t3 = Some ''prepared''"
          using prepared tx_status_txs [OF frame_of [OF revalidate_txs goes(1)]] by simp
        from goes(2) show ?thesis
        proof (cases rule: seq_cases)
          case (fails e)
          then show ?thesis using prepared3 tx_status_txs [OF write_tx_state_run(3) [OF fails(1) refl]] by simp
        next
          case (goes x t4)
          have committing: "tx_status (pn_id p) s' = Some ''committing''"
            using write_tx_state_run(2) [OF goes(1) refl] tx_status_txs [OF frame_of [OF carry_out_txs goes(2)]] by simp
          then show ?thesis using carry_out_Inr goes(2) by (cases r) auto
        qed
      qed
    qed
  qed
qed

lemma try_edit_run: "try_edit m s = (q, s') \<longleftrightarrow> (\<exists>r. m s = (r, s') \<and> q = Inr r)"
  by (auto simp: try_edit_def split: prod.splits)

text \<open>The attempt to roll back: the old files are there, or the transaction stays pending.\<close>

lemma restore_attempt:
  assumes "seq_then (restore E p) (tx_remove E i) s = (r, s')"
  shows "before_contents E p s' \<or> r \<noteq> Inr () \<and> ex_txs s' = ex_txs s"
  using assms
proof (cases rule: seq_cases)
  case (fails e)
  then show ?thesis using frame_of [OF restore_txs fails(1)] by simp
next
  case (goes x t)
  then show ?thesis
    using restore_Inr [OF goes(1)] before_contents_tree [OF frame_of [OF tx_remove_tree goes(2)]] by simp
qed

lemma give_up_outcome:
  assumes "seq_then (write_tx_state E i ''recovery_required'')
       (bnd tick (\<lambda>n. seq_then (on_session (f n)) (raise e))) s = (r, s')"
  shows "ex_tree s' = ex_tree s" and "tx_status i s' = Some ''recovery_required'' \<or> ex_txs s' = ex_txs s" and "r \<noteq> Inr u"
proof -
  have rest_tree: "preserves (\<lambda>s. ex_tree s = T) (bnd tick (\<lambda>n. seq_then (on_session (f n)) (raise e)))" for T
    by (intro preserves_intros edit_frames)
  have rest_txs: "preserves (\<lambda>s. ex_txs s = X) (bnd tick (\<lambda>n. seq_then (on_session (f n)) (raise e)))" for X
    by (intro preserves_intros edit_frames)
  from assms have all: "ex_tree s' = ex_tree s \<and> (tx_status i s' = Some ''recovery_required'' \<or> ex_txs s' = ex_txs s) \<and> r \<noteq> Inr u"
  proof (cases rule: seq_cases)
    case (fails e)
    then show ?thesis using write_tx_state_run(1) [OF fails(1)] write_tx_state_run(3) [OF fails(1) refl] by simp
  next
    case (goes x t)
    have "r \<noteq> Inr u" using goes(2) by (auto simp: bnd_eq_Inr seq_then_eq_Inr)
    then show ?thesis
      using write_tx_state_run(1) [OF goes(1)] write_tx_state_run(2) [OF goes(1) refl]
        frame_of [OF rest_tree goes(2)] tx_status_txs [OF frame_of [OF rest_txs goes(2)]] by simp
  qed
  then show "ex_tree s' = ex_tree s" "tx_status i s' = Some ''recovery_required'' \<or> ex_txs s' = ex_txs s" "r \<noteq> Inr u"
    by simp_all
qed

lemma undo_outcome:
  assumes "undo E p s = (r, s')"
  shows "if tx_status (pn_id p) s \<in> {Some ''prepared'', Some ''committing''}
    then before_contents E p s' \<or> pending (pn_id p) s' else s' = s"
proof (cases "tx_status (pn_id p) s \<in> {Some ''prepared'', Some ''committing''}")
  case True
  obtain q t where attempt: "seq_then (restore E p) (tx_remove E (pn_id p)) s = (q, t)" by fastforce
  have pend: "ex_txs t = ex_txs s \<Longrightarrow> pending (pn_id p) t"
    using True tx_status_txs [of t s] by (auto simp: pending_def pending_states_def)
  show ?thesis
  proof (cases q)
    case (Inr u)
    then have "s' = t" using assms True attempt by (simp add: undo_def bnd_def try_edit_def)
    then show ?thesis using restore_attempt [OF attempt] Inr True by simp
  next
    case (Inl e)
    then have rest: "seq_then (write_tx_state E (pn_id p) ''recovery_required'')
       (bnd tick (\<lambda>n. seq_then (on_session (update_workspace_state (ed_now E n) ''recovery_required'' ''rollback''))
         (raise (edit_error ''rollback_failed'')))) t = (r, s')"
      using assms True attempt by (simp add: undo_def bnd_def try_edit_def)
    from restore_attempt [OF attempt] show ?thesis
    proof
      assume "before_contents E p t"
      then show ?thesis using True before_contents_tree [OF give_up_outcome(1) [OF rest]] by simp
    next
      assume "q \<noteq> Inr () \<and> ex_txs t = ex_txs s"
      then have "tx_status (pn_id p) s' = Some ''recovery_required'' \<or> pending (pn_id p) t \<and> ex_txs s' = ex_txs t"
        using give_up_outcome(2) [OF rest] pend by blast
      then have "pending (pn_id p) s'"
        using tx_status_txs [of s' t] by (auto simp: pending_def pending_states_def)
      then show ?thesis using True by simp
    qed
  qed
next
  case False
  then show ?thesis using assms by (simp add: undo_def)
qed

lemma commit_outcome:
  assumes "commit E p s = (r, s')" and "tx_of s (pn_id p) = None"
  shows "ex_tree s' = ex_tree s \<or> before_contents E p s' \<or> after_contents E p s' \<or> pending (pn_id p) s'"
    and "r = Inr d \<Longrightarrow> after_contents E p s'"
proof -
  obtain q t where applied: "apply_plan E p s = (q, t)" by fastforce
  have all: "(ex_tree s' = ex_tree s \<or> before_contents E p s' \<or> after_contents E p s' \<or> pending (pn_id p) s')
    \<and> (r = Inr d \<longrightarrow> after_contents E p s')"
  proof (cases q)
    case (Inr u)
    then have "finish_commit E p t = (r, s')" using assms(1) applied by (simp add: commit_def bnd_def try_edit_def)
    from after_contents_tree [OF frame_of [OF finish_commit_tree this]] show ?thesis
      using apply_plan_outcome [OF applied assms(2)] Inr by simp
  next
    case (Inl e)
    then have run: "seq_then (undo E p) (raise (commit_error e)) t = (r, s')"
      using assms(1) applied by (simp add: commit_def bnd_def try_edit_def)
    then obtain r2 where u: "undo E p t = (r2, s')" and no: "r \<noteq> Inr d"
      by (cases rule: seq_cases) auto
    show ?thesis
      using undo_outcome [OF u] apply_plan_outcome [OF applied assms(2)] Inl no
      by (auto split: if_splits)
  qed
  then show "ex_tree s' = ex_tree s \<or> before_contents E p s' \<or> after_contents E p s' \<or> pending (pn_id p) s'"
    and "r = Inr d \<Longrightarrow> after_contents E p s'" by simp_all
qed

end
