(* ===== verification/Atomic_Recovery.thy ===== *)
theory Atomic_Recovery
  imports Atomic_Frames
begin

text \<open>
  What a plan says of the worktree it was made for, that a recorded plan is read back, and what
  recovery leaves behind.
\<close>

section \<open>Planning\<close>

text \<open>What the plan remembers of a path: no entry, or the text of a plain file.\<close>

definition seen_as :: "edit_env \<Rightarrow> fs \<Rightarrow> string \<Rightarrow> string option \<Rightarrow> bool" where
  "seen_as E fs rel b \<longleftrightarrow> (\<exists>q. checked_path E fs rel = Inr q \<and> (case b of
     None \<Rightarrow> \<not> exists_at E fs q
   | Some c \<Rightarrow> plain_content E fs q = Some c \<and> utf8_valid c \<and> int (length c) \<le> max_file_bytes))"

definition plan_inv :: "edit_env \<Rightarrow> fs \<Rightarrow> plan_state \<Rightarrow> bool" where
  "plan_inv E fs s \<longleftrightarrow> (\<forall>(rel, b) \<in> set (ps_before s). seen_as E fs rel b)
     \<and> distinct (map fst (ps_planned s)) \<and> set (map fst (ps_before s)) = set (map fst (ps_planned s))
     \<and> distinct (map fst (ps_before s))"

lemma plan_inv_start: "plan_inv E fs plan_start"
  by (simp add: plan_inv_def plan_start_def)

lemma plan_inv_fields [simp]:
  "plan_inv E fs (s\<lparr>ps_required := r\<rparr>) = plan_inv E fs s"
  "plan_inv E fs (s\<lparr>ps_bytes := n\<rparr>) = plan_inv E fs s"
  "plan_inv E fs (s\<lparr>ps_normalized := l\<rparr>) = plan_inv E fs s"
  "plan_inv E fs (s\<lparr>ps_moves := m\<rparr>) = plan_inv E fs s"
  by (simp_all add: plan_inv_def)

lemma plan_inv_set: "plan_inv E fs s \<Longrightarrow> rel \<in> fst ` set (ps_planned s) \<Longrightarrow> plan_inv E fs (set_planned rel f s)"
  by (auto simp: plan_inv_def set_planned_def distinct_update dom_update)

lemma planned_keys [simp]: "fst ` set (ps_planned (set_planned rel f s)) = insert rel (fst ` set (ps_planned s))"
  using dom_update [of rel f "ps_planned s"] by (simp add: set_planned_def)

lemma read_text_file_Inr:
  "read_text_file E fs p = Inr c \<Longrightarrow> plain_content E fs p = Some c \<and> utf8_valid c \<and> int (length c) \<le> max_file_bytes"
  by (auto simp: read_text_file_def plain_content_def split: option.splits if_splits)

lemma load_path_inv:
  assumes "load_path E fs rel s = Inr (f, s')" and inv: "plan_inv E fs s"
  shows "plan_inv E fs s' \<and> rel \<in> fst ` set (ps_planned s') \<and> fst ` set (ps_planned s) \<subseteq> fst ` set (ps_planned s')"
proof (cases "map_of (ps_planned s) rel")
  case (Some g)
  then have "rel \<in> set (map fst (ps_planned s))" by (force dest: map_of_SomeD)
  then show ?thesis using assms Some by (simp add: load_path_def)
next
  case None
  then obtain p where p: "checked_path E fs rel = Inr p"
      and f: "(if exists_at E fs p then rbind (read_text_file E fs p) (\<lambda>c. Inr \<lparr>fl_content = Some c, fl_origin = Some (ed_sha E c)\<rparr>)
                 else Inr \<lparr>fl_content = None, fl_origin = None\<rparr>) = Inr f"
      and s': "s' = set_planned rel f (s\<lparr>ps_before := (if map_of (ps_before s) rel = None
            then ps_before s @ [(rel, fl_content f)] else ps_before s)\<rparr>)"
    using assms(1) by (auto simp: load_path_def rbind_eq_Inr)
  have seen: "seen_as E fs rel (fl_content f)"
    using p f read_text_file_Inr by (auto simp: seen_as_def rbind_eq_Inr split: if_splits)
  have fresh: "rel \<notin> set (map fst (ps_planned s))" using None by (simp add: map_of_eq_None_iff)
  then have "map_of (ps_before s) rel = None" using inv by (simp add: plan_inv_def map_of_eq_None_iff)
  then have "s' = set_planned rel f (s\<lparr>ps_before := ps_before s @ [(rel, fl_content f)]\<rparr>)" using s' by simp
  then show ?thesis
    using inv fresh seen by (auto simp: plan_inv_def set_planned_def distinct_update dom_update)
qed

lemma plan_parent_inv:
  assumes "plan_parent E fs rel s = Inr s'" and "plan_inv E fs s"
  shows "plan_inv E fs s' \<and> ps_planned s' = ps_planned s"
proof -
  have "plan_inv E fs s' \<and> ps_planned s' = ps_planned s"
    using assms(1) unfolding plan_parent_def
  proof (rule rfold_invariant [where P = "\<lambda>t. plan_inv E fs t \<and> ps_planned t = ps_planned s"])
    fix t x t' assume "plan_inv E fs t \<and> ps_planned t = ps_planned s" and "plan_one_parent E fs t x = Inr t'"
    then show "plan_inv E fs t' \<and> ps_planned t' = ps_planned s"
      by (auto simp: plan_one_parent_def rbind_eq_Inr split: if_splits)
  qed (simp add: assms(2))
  then show ?thesis .
qed

lemma plan_move_inv: "plan_move E fs item s = Inr s' \<Longrightarrow> plan_inv E fs s \<Longrightarrow> plan_inv E fs s'"
proof -
  assume run: "plan_move E fs item s = Inr s'" and inv: "plan_inv E fs s"
  then obtain source destination f s1 g s2 s3 where a: "load_path E fs source s = Inr (f, s1)"
      and b: "load_path E fs destination s1 = Inr (g, s2)" and c: "plan_parent E fs destination s2 = Inr s3"
      and s': "s' = (set_planned destination f (set_planned source \<lparr>fl_content = None, fl_origin = fl_origin f\<rparr> s3))
           \<lparr>ps_moves := AList.update source destination (ps_moves s3),
            ps_normalized := ps_normalized s3 @ [JObj (dmerge item [(''source'', JStr source), (''destination'', JStr destination)])]\<rparr>"
    unfolding plan_move_def by (auto simp: rbind_eq_Inr set_planned_def split: if_splits)
  note i1 = load_path_inv [OF a inv]
  note i2 = load_path_inv [OF b conjunct1 [OF i1]]
  note i3 = plan_parent_inv [OF c conjunct1 [OF i2]]
  have "source \<in> fst ` set (ps_planned s3)" "destination \<in> fst ` set (ps_planned s3)"
    using i1 i2 i3 by auto
  then show ?thesis unfolding s' using i3 by (simp add: plan_inv_set)
qed

lemma plan_create_inv:
  assumes "plan_create E fs item rel f s = Inr s'" and "plan_inv E fs s" and "rel \<in> fst ` set (ps_planned s)"
  shows "plan_inv E fs s'"
proof -
  obtain c s1 where run: "plan_parent E fs rel (s\<lparr>ps_bytes := ps_bytes s + length c\<rparr>) = Inr s1"
      and s': "s' = set_planned rel \<lparr>fl_content = Some c, fl_origin = None\<rparr> s1"
    using assms(1) by (auto simp: plan_create_def rbind_eq_Inr split: if_splits)
  from plan_parent_inv [OF run] assms(2,3) show ?thesis unfolding s' by (simp add: plan_inv_set)
qed

lemma plan_operation_inv:
  assumes "plan_operation E fs op item s = Inr s'" and inv: "plan_inv E fs s"
  shows "plan_inv E fs s'"
proof (cases "op = ''move_file''")
  case True
  then show ?thesis using assms plan_move_inv by (simp add: plan_operation_def)
next
  case False
  then obtain rel f s1 s2 where a: "load_path E fs rel s = Inr (f, s1)"
      and b: "(if op = ''create_file'' then plan_create E fs item rel f s1
               else if op = ''replace_text'' then plan_replace item rel f s1 else plan_delete item rel f s1) = Inr s2"
      and s': "s' = s2\<lparr>ps_normalized := ps_normalized s2 @ [JObj (dset ''path'' (JStr rel) item)]\<rparr>"
    using assms(1) by (auto simp: plan_operation_def rbind_eq_Inr)
  note i1 = load_path_inv [OF a inv]
  have "plan_inv E fs s2"
    using b i1 plan_create_inv [of E fs item rel f s1 s2]
    by (cases "op = ''create_file''")
      (auto simp: plan_replace_def plan_delete_def rbind_eq_Inr split: if_splits prod.splits intro!: plan_inv_set rev_image_eqI)
  then show ?thesis by (simp add: s')
qed

lemma plan_loop_inv: "rfold (plan_step E fs) plan_start ops = Inr s \<Longrightarrow> plan_inv E fs s"
  by (erule rfold_invariant [where P = "plan_inv E fs"])
    (auto simp: plan_inv_start plan_step_def rbind_eq_Inr dest!: plan_operation_inv split: json.splits if_splits)

lemma map_of_or_default: "distinct (map fst xs) \<Longrightarrow> (k, v) \<in> set xs \<Longrightarrow> or_default d (map_of xs k) = v"
  by (simp add: or_default_def map_of_is_SomeI)

lemma prepare_Inr:
  assumes "prepare E n fs arguments = Inr p"
  shows "pn_after p \<noteq> [] \<and> int (length (pn_after p)) \<le> max_operations \<and> int (length (pn_patch p)) \<le> max_patch_bytes
    \<and> distinct (map fst (pn_after p)) \<and> map fst (pn_before p) = map fst (pn_after p)
    \<and> (\<forall>(rel, c) \<in> set (pn_after p). (\<exists>b. (rel, b) \<in> set (pn_before p) \<and> b \<noteq> c)
        \<and> (\<forall>x. c = Some x \<longrightarrow> int (length x) \<le> max_file_bytes))
    \<and> (\<forall>(rel, b) \<in> set (pn_before p). seen_as E fs rel b)"
proof -
  obtain ops s where loop: "rfold (plan_step E fs) plan_start ops = Inr s" and fin: "finish_plan E n s = Inr p"
    using assms unfolding prepare_def by (auto simp: rbind_eq_Inr split: json.splits if_splits)
  note inv = plan_loop_inv [OF loop]
  have after: "pn_after p = changed_files s"
    and before: "pn_before p = map (\<lambda>(rel, c). (rel, or_default None (map_of (ps_before s) rel))) (changed_files s)"
    and sizes: "changed_files s \<noteq> []" "int (length (changed_files s)) \<le> max_operations" "int (length (pn_patch p)) \<le> max_patch_bytes"
      "\<forall>(rel, c) \<in> set (changed_files s). \<forall>x. c = Some x \<longrightarrow> int (length x) \<le> max_file_bytes"
    using fin by (auto simp: finish_plan_def Let_def list_ex_iff not_less split: if_splits)
  have keys: "map fst (changed_files s) = map fst (filter (\<lambda>(rel, f). or_default None (map_of (ps_before s) rel) \<noteq> fl_content f) (ps_planned s))"
    by (simp add: changed_files_def filter_map comp_def case_prod_unfold)
  have "distinct (map fst (ps_planned s))" using inv by (simp add: plan_inv_def)
  then have dist: "distinct (map fst (changed_files s))"
    unfolding keys by (rule distinct_map_filter)
  have fsts: "map fst (pn_before p) = map fst (pn_after p)" unfolding before after by (auto simp: case_prod_beta)
  have seen: "seen_as E fs rel (or_default None (map_of (ps_before s) rel))" if "(rel, c) \<in> set (changed_files s)" for rel c
  proof -
    have "rel \<in> set (map fst (ps_planned s))" using that by (force simp: changed_files_def)
    then have "rel \<in> set (map fst (ps_before s))" using inv by (simp add: plan_inv_def)
    then obtain b where b: "(rel, b) \<in> set (ps_before s)" by auto
    then have "or_default None (map_of (ps_before s) rel) = b"
      using inv by (intro map_of_or_default) (simp_all add: plan_inv_def)
    then show ?thesis using b inv by (auto simp: plan_inv_def)
  qed
  have differ: "or_default None (map_of (ps_before s) rel) \<noteq> c" if "(rel, c) \<in> set (changed_files s)" for rel c
    using that by (auto simp: changed_files_def)
  have pairs: "\<forall>(rel, b) \<in> set (pn_before p). seen_as E fs rel b"
    unfolding before using seen by auto
  have "\<forall>(rel, c) \<in> set (pn_after p). (\<exists>b. (rel, b) \<in> set (pn_before p) \<and> b \<noteq> c)"
    unfolding before after using differ by force
  with pairs sizes dist fsts show ?thesis unfolding after by blast
qed

section \<open>The record of a plan\<close>

definition recorded :: "edit_env \<Rightarrow> edit_plan \<Rightarrow> transaction \<Rightarrow> bool" where
  "recorded E p x \<longleftrightarrow> tx_plan x = Some (plan_record E p)
     \<and> (\<forall>(rel, c) \<in> set (pn_before p). \<forall>v. c = Some v \<longrightarrow> map_of (tx_backup x) rel = Some v)"

lemma load_before_record:
  "(\<forall>(rel, c) \<in> set bs. \<forall>v. c = Some v \<longrightarrow> map_of (tx_backup x) rel = Some v) \<Longrightarrow>
    rmap (load_before x) (map (\<lambda>(rel, c). (rel, content_identity E c)) bs) = Inr bs"
  by (induction bs) (auto simp: load_before_def content_identity_def identity_get_def)

lemma load_after_record:
  "\<exists>ys. rmap (load_after E fs) (map (\<lambda>(rel, c). (rel, content_identity E c)) as) = Inr ys"
  by (induction as) (auto simp: load_after_def content_identity_def identity_get_def)

lemma load_dirs_record: "rmap (\<lambda>d. case d of JStr r \<Rightarrow> Inr r | _ \<Rightarrow> Inl (Exn TypeError ''directory'')) (map JStr ds) = Inr ds"
  by (induction ds) simp_all

lemma load_plan_record:
  assumes "recorded E p x"
  obtains p' where "load_plan E fs x = Inr p'" and "pn_before p' = pn_before p" and "pn_dirs p' = pn_dirs p" and "pn_id p' = pn_id p"
proof -
  obtain ys where ys: "rmap (load_after E fs) (map (\<lambda>(rel, c). (rel, content_identity E c)) (pn_after p)) = Inr ys"
    using load_after_record by blast
  have fields: "dindex (plan_record E p) ''before'' = Inr (JObj (map (\<lambda>(rel, c). (rel, content_identity E c)) (pn_before p)))"
    "dindex (plan_record E p) ''after'' = Inr (JObj (map (\<lambda>(rel, c). (rel, content_identity E c)) (pn_after p)))"
    "dindex (plan_record E p) ''transaction_id'' = Inr (JStr (pn_id p))"
    "dindex (plan_record E p) ''operations'' = Inr (JArr (pn_operations p))"
    "dindex (plan_record E p) ''created_directories'' = Inr (JArr (map JStr (pn_dirs p)))"
    by (simp_all add: plan_record_def dindex_def)
  have "load_plan E fs x = Inr \<lparr>pn_id = pn_id p, pn_operations = pn_operations p, pn_before = pn_before p, pn_after = ys,
      pn_dirs = pn_dirs p, pn_patch = []\<rparr>"
    using assms load_before_record [of "pn_before p" x E] ys load_dirs_record
    by (simp add: load_plan_def plan_items_def fields recorded_def)
  then show ?thesis by (rule that) simp_all
qed

lemma tx_write_run:
  "tx_write E i f s = (Inr u, s') \<Longrightarrow> \<exists>x. tx_of s i = Some x \<and> tx_of s' i = Some (f x)"
  by (auto simp: tx_write_def tick_def bnd_def tx_of_def update_conv' split: option.splits if_splits)

lemma backup_run:
  assumes "each (\<lambda>(rel, content). case content of None \<Rightarrow> ret ()
      | Some c \<Rightarrow> tx_write E i (\<lambda>x. x\<lparr>tx_backup := AList.update rel c (tx_backup x)\<rparr>)) bs s = (Inr u, s')"
    and "distinct (map fst bs)" and "tx_of s i = Some x"
  shows "\<exists>y. tx_of s' i = Some y \<and> tx_plan y = tx_plan x \<and> tx_state y = tx_state x
    \<and> (\<forall>(rel, c) \<in> set bs. \<forall>v. c = Some v \<longrightarrow> map_of (tx_backup y) rel = Some v)
    \<and> (\<forall>rel. rel \<notin> set (map fst bs) \<longrightarrow> map_of (tx_backup y) rel = map_of (tx_backup x) rel)"
  using assms
proof (induction bs arbitrary: s x)
  case (Cons b bs)
  obtain rel c where b: "b = (rel, c)" by (cases b)
  from Cons.prems(1) obtain w t where step: "(case c of None \<Rightarrow> ret ()
      | Some c \<Rightarrow> tx_write E i (\<lambda>x. x\<lparr>tx_backup := AList.update rel c (tx_backup x)\<rparr>)) s = (Inr w, t)"
      and rest: "each (\<lambda>(rel, content). case content of None \<Rightarrow> ret ()
      | Some c \<Rightarrow> tx_write E i (\<lambda>x. x\<lparr>tx_backup := AList.update rel c (tx_backup x)\<rparr>)) bs t = (Inr u, s')"
    unfolding b by (auto simp: seq_then_eq_Inr)
  obtain x1 where x1: "tx_of t i = Some x1" "tx_plan x1 = tx_plan x" "tx_state x1 = tx_state x"
      "\<forall>k. map_of (tx_backup x1) k = (if k = rel \<and> c \<noteq> None then c else map_of (tx_backup x) k)"
    using step Cons.prems(3) by (cases c) (auto simp: update_conv' dest!: tx_write_run)
  have "distinct (map fst bs)" "rel \<notin> set (map fst bs)" using Cons.prems(2) b by simp_all
  with Cons.IH [OF rest _ x1(1)] x1 b show ?case by fastforce
qed simp

lemma record_plan_recorded:
  assumes "record_plan E p s = (Inr u, s')" and "distinct (map fst (pn_before p))"
  shows "\<exists>x. tx_of s' (pn_id p) = Some x \<and> recorded E p x"
proof -
  from assms(1) obtain t0 t1 t2 t3 v0 v1 v2 v3 where
      w1: "tx_write E (pn_id p) (\<lambda>x. x\<lparr>tx_request := Some (pn_operations p)\<rparr>) t0 = (Inr v1, t1)"
    and w2: "tx_write E (pn_id p) (\<lambda>x. x\<lparr>tx_plan := Some (plan_record E p)\<rparr>) t1 = (Inr v2, t2)"
    and w3: "tx_write E (pn_id p) (\<lambda>x. x\<lparr>tx_patch := Some (pn_patch p)\<rparr>) t2 = (Inr v3, t3)"
    and rest: "each (\<lambda>(rel, content). case content of None \<Rightarrow> ret ()
      | Some c \<Rightarrow> tx_write E (pn_id p) (\<lambda>x. x\<lparr>tx_backup := AList.update rel c (tx_backup x)\<rparr>)) (pn_before p) t3 = (Inr u, s')"
    unfolding record_plan_def by (auto simp: seq_then_eq_Inr)
  obtain y where y: "tx_of t3 (pn_id p) = Some y" "tx_plan y = Some (plan_record E p)"
    using tx_write_run [OF w2] tx_write_run [OF w3] by auto
  from backup_run [OF rest assms(2) y(1)] y(2) show ?thesis unfolding recorded_def by auto
qed

section \<open>What recovery leaves\<close>

lemma tx_remove_run: "tx_remove E i s = (Inr u, s') \<Longrightarrow> ex_txs s' = AList.delete i (ex_txs s)"
  by (auto simp: tx_remove_def tick_def bnd_def split: if_splits)

lemma recover_pending_Inr:
  assumes "recover_pending E i x s = (Inr u, s')"
  obtains p t where "load_plan E (ex_fs s) x = Inr p" and "restore E p s = (Inr (), t)" and "tx_remove E i t = (Inr (), s')"
proof -
  obtain q t where attempt: "bnd (gets ex_fs) (\<lambda>fs. bnd (lift (load_plan E fs x)) (\<lambda>p.
       seq_then (restore E p) (tx_remove E i))) s = (q, t)" by fastforce
  show ?thesis
  proof (cases q)
    case (Inr v)
    then have "s' = t" using assms attempt by (simp add: recover_pending_def bnd_def try_edit_def)
    then show ?thesis using attempt Inr that by (auto simp: bnd_eq_Inr seq_then_eq_Inr)
  next
    case (Inl e)
    then have "seq_then (write_tx_state E i ''recovery_required'')
         (bnd tick (\<lambda>n. seq_then (on_session (update_workspace_state (ed_now E n) ''recovery_required'' ''unfinished edit''))
         (raise (edit_error ''rollback_failed'')))) t = (Inr u, s')"
      using assms attempt by (simp add: recover_pending_def bnd_def try_edit_def)
    from give_up_outcome(3) [OF this] show ?thesis by blast
  qed
qed

lemma recover_pending_restores:
  assumes "recorded E p x" and "recover_pending E i x s = (Inr u, s')"
  shows "before_contents E p s' \<and> tx_of s' i = None"
proof -
  obtain p' t where parts: "load_plan E (ex_fs s) x = Inr p'" "restore E p' s = (Inr (), t)" "tx_remove E i t = (Inr (), s')"
    by (rule recover_pending_Inr [OF assms(2)])
  obtain p2 where "load_plan E (ex_fs s) x = Inr p2" "pn_before p2 = pn_before p"
    by (rule load_plan_record [OF assms(1), of "ex_fs s"])
  then have "pn_before p' = pn_before p" using parts(1) by simp
  moreover have "before_contents E p' s'"
    using restore_Inr [OF parts(2)] before_contents_tree [OF frame_of [OF tx_remove_tree parts(3)]] by simp
  ultimately show ?thesis
    using tx_remove_run [OF parts(3)] by (simp add: before_contents_def tx_of_def AList.delete_conv')
qed

lemma repair_event_txs: "preserves (\<lambda>s. ex_txs s = X) (repair_event E x)"
  unfolding repair_event_def by (auto intro!: preserves_intros edit_frames split: option.split)

definition settled :: "string option \<Rightarrow> bool" where
  "settled st \<longleftrightarrow> st \<notin> {Some ''prepared'', Some ''committing'', Some ''committed'', Some ''recovery_required''}"

lemma recover_one_run:
  assumes "recover_one E i s = (Inr u, s')"
  shows "(ex_txs s' = ex_txs s \<or> ex_txs s' = AList.delete i (ex_txs s)) \<and> settled (tx_status i s')"
proof (cases "tx_of s i")
  case None
  then show ?thesis using assms by (simp add: recover_one_def settled_def tx_status_def)
next
  case (Some x)
  have gone: "settled (tx_status i t)" if "ex_txs t = AList.delete i (ex_txs s)" for t
    using that by (simp add: settled_def tx_status_def tx_of_def AList.delete_conv')
  consider (done1) "tx_state x = Some ''committed''" | (open1) "tx_state x \<in> {Some ''prepared'', Some ''committing''}" | (other) "settled (tx_state x)"
    using assms Some by (auto simp: recover_one_def settled_def split: if_splits)
  then show ?thesis
  proof cases
    case done1
    then obtain v t where "repair_event E x s = (Inr v, t)" "tx_remove E i t = (Inr u, s')"
      using assms Some by (auto simp: recover_one_def seq_then_eq_Inr)
    then have "ex_txs s' = AList.delete i (ex_txs s)"
      using frame_of [OF repair_event_txs] tx_remove_run by metis
    then show ?thesis using gone by blast
  next
    case open1
    then have "recover_pending E i x s = (Inr u, s')" using assms Some by (auto simp: recover_one_def)
    then obtain p t where "restore E p s = (Inr (), t)" "tx_remove E i t = (Inr (), s')"
      by (rule recover_pending_Inr)
    then have "ex_txs s' = AList.delete i (ex_txs s)"
      using frame_of [OF restore_txs] tx_remove_run by metis
    then show ?thesis using gone by blast
  next
    case other
    then have "s' = s" using assms Some by (auto simp: recover_one_def settled_def split: if_splits)
    then show ?thesis using other Some by (simp add: tx_status_def)
  qed
qed

lemma recover_all_run:
  assumes "each (recover_one E) ids s = (Inr u, s')"
  shows "(\<forall>i \<in> set ids. settled (tx_status i s')) \<and> (\<forall>i. tx_status i s' = tx_status i s \<or> tx_of s' i = None)
    \<and> fst ` set (ex_txs s') \<subseteq> fst ` set (ex_txs s)"
  using assms
proof (induction ids arbitrary: s)
  case (Cons i ids)
  then obtain v t where step: "recover_one E i s = (Inr v, t)" and rest: "each (recover_one E) ids t = (Inr u, s')"
    by (auto simp: seq_then_eq_Inr)
  note one = recover_one_run [OF step] and all = Cons.IH [OF rest]
  have gone: "settled None" by (simp add: settled_def)
  have "settled (tx_status i s')"
    using one all gone by (metis tx_status_def option.case(1))
  moreover have "tx_status j t = tx_status j s \<or> tx_of t j = None" for j
    using one by (auto simp: tx_status_def tx_of_def AList.delete_conv' split: option.splits if_splits)
  moreover have "fst ` set (ex_txs t) \<subseteq> fst ` set (ex_txs s)"
    using one by (auto simp: AList.delete_eq)
  moreover have "tx_of t j = None \<Longrightarrow> tx_of s' j = None" for j
    using all unfolding tx_of_def map_of_eq_None_iff by auto
  ultimately have "\<forall>j. tx_status j s' = tx_status j s \<or> tx_of s' j = None" and "settled (tx_status i s')"
      and "fst ` set (ex_txs s') \<subseteq> fst ` set (ex_txs s)"
    using all by (metis, blast, blast)
  then show ?case using all by simp
qed simp

lemma ensure_recovered_settles:
  assumes "ensure_recovered E s = (Inr u, s')"
  shows "settled (tx_status i s')"
proof -
  have run: "each (recover_one E) (sort (map fst (ex_txs s))) s = (Inr u, s')"
    using assms by (simp add: ensure_recovered_def)
  note all = recover_all_run [OF run]
  show ?thesis
  proof (cases "i \<in> fst ` set (ex_txs s)")
    case True
    then have "i \<in> set (sort (map fst (ex_txs s)))" by simp
    then show ?thesis using all by blast
  next
    case False
    then have "i \<notin> fst ` set (ex_txs s')" using all by blast
    then have "tx_of s' i = None" by (simp add: tx_of_def map_of_eq_None_iff)
    then show ?thesis by (simp add: settled_def tx_status_def)
  qed
qed

end
