(* ===== verification/Atomic_Properties.thy ===== *)
theory Atomic_Properties
  imports Atomic_Recovery
begin

text \<open>
  The properties of the atomic edit: what a plan promises, that a commit leaves the files before or
  after it or a transaction that recovery acts on, that recovery settles every transaction, and where
  a rollback does harm.
\<close>

section \<open>A small worktree\<close>

definition demo_context :: workspace_context where
  "demo_context = \<lparr>source_root = ''/src'', active_root = ''/wt'', workspace_kind = ''git_worktree'',
     base_commit = Some ''abc'', workspace_revision = 1\<rparr>"

definition demo_sha :: "string \<Rightarrow> string" where
  "demo_sha c = replicate 63 CHR ''0'' @ [digit_char (length c mod 10)]"

definition demo_edit :: "(nat \<Rightarrow> bool) \<Rightarrow> edit_env" where
  "demo_edit fault = \<lparr>ed_context = demo_context, ed_root = [''wt''], ed_links = 3, ed_mode = 420, ed_sha = demo_sha,
     ed_fold = lower, ed_diff = (\<lambda>_ _ _ _. []), ed_now = (\<lambda>_. ''t''), ed_uuid = (\<lambda>_. ''tx-1''), ed_fault = fault\<rparr>"

definition demo_worktree :: "(path \<times> node) list" where
  "demo_worktree = [([''wt''], Dir), ([''wt'', ''run.sh''], File 493 ''echo''), ([''wt'', ''a.py''], File 420 ''x = 1'')]"

definition demo_edit_state :: edit_state where
  "demo_edit_state = \<lparr>ex_tree = demo_worktree, ex_txs = [], ex_store = demo_session, ex_clock = 0\<rparr>"

definition demo_create :: "string \<Rightarrow> json" where
  "demo_create rel = JObj [(''op'', JStr ''create_file''), (''path'', JStr rel), (''content'', JStr ''new'')]"

definition demo_move :: json where
  "demo_move = JObj [(''op'', JStr ''move_file''), (''source'', JStr ''run.sh''), (''destination'', JStr ''go.sh''),
     (''expected_sha256'', JStr (demo_sha ''echo''))]"

definition demo_replace :: json where
  "demo_replace = JObj [(''op'', JStr ''replace_text''), (''path'', JStr ''a.py''), (''expected_sha256'', JStr (demo_sha ''x = 1'')),
     (''old_text'', JStr ''1''), (''new_text'', JStr ''2'')]"

definition demo_arguments :: "json list \<Rightarrow> json" where
  "demo_arguments ops = JObj [(''operations'', JArr ops)]"

text \<open>
  Creating a file below a directory the same edit creates as a file is accepted by the plan; the
  commit then fails half way, the rollback cannot remove the directory that stands where the file was
  to be, and the session is closed for editing.
\<close>

theorem nested_create_needs_recovery:
  "\<exists>r s'. apply_workspace_edit (demo_edit (\<lambda>_. False)) (demo_arguments [demo_create ''x/y'', demo_create ''x'']) demo_edit_state = (Inr r, s')
     \<and> tr_code r = Some ''rollback_failed'' \<and> dget (st_meta (ex_store s')) ''workspace_state'' = JStr ''recovery_required''"
proof -
  define p where "p = apply_workspace_edit (demo_edit (\<lambda>_. False)) (demo_arguments [demo_create ''x/y'', demo_create ''x'']) demo_edit_state"
  have "(case fst p of Inr r \<Rightarrow> tr_code r = Some ''rollback_failed'' | _ \<Rightarrow> False)
     \<and> dget (st_meta (ex_store (snd p))) ''workspace_state'' = JStr ''recovery_required''"
    unfolding p_def demo_edit_state_def demo_session_def demo_created_def by code_simp
  then show ?thesis unfolding p_def
    by (cases "apply_workspace_edit (demo_edit (\<lambda>_. False)) (demo_arguments [demo_create ''x/y'', demo_create ''x'']) demo_edit_state")
      (auto split: sum.splits)
qed

text \<open>
  Moving a file gives it the default mode: a script that is moved is no longer executable.
\<close>

theorem move_loses_mode:
  "map_of demo_worktree [''wt'', ''run.sh''] = Some (File 493 ''echo'') \<and>
   (\<exists>r s'. apply_workspace_edit (demo_edit (\<lambda>_. False)) (demo_arguments [demo_move]) demo_edit_state = (Inr r, s')
     \<and> tr_ok r \<and> ex_fs s' [''wt'', ''go.sh''] = Some (File 420 ''echo''))"
proof -
  define p where "p = apply_workspace_edit (demo_edit (\<lambda>_. False)) (demo_arguments [demo_move]) demo_edit_state"
  have "(case fst p of Inr r \<Rightarrow> tr_ok r | _ \<Rightarrow> False) \<and> ex_fs (snd p) [''wt'', ''go.sh''] = Some (File 420 ''echo'')"
    unfolding p_def demo_edit_state_def demo_session_def demo_created_def by code_simp
  then show ?thesis unfolding p_def
    by (cases "apply_workspace_edit (demo_edit (\<lambda>_. False)) (demo_arguments [demo_move]) demo_edit_state")
      (auto simp: demo_worktree_def split: sum.splits)
qed



section \<open>Plans\<close>

lemma checked_path_inside:
  "checked_path E fs rel = Inr q \<Longrightarrow> prefix (ed_root E) q \<and> canonical fs q \<and> \<not> is_sensitive_path (drop (length (ed_root E)) q)"
  using guard_resolve_Inr [of fs "ed_links E" "ed_root E" True rel q]
  by (auto simp: checked_path_def Let_def split: if_splits sum.splits)

text \<open>
  C19. A plan that is accepted describes the worktree it was made for: every path it names resolves,
  through no link and under no sensitive name, to a place inside the worktree where there is either
  nothing or a bounded UTF-8 text file with exactly the recorded content; every file it names changes,
  none twice, and files, sizes and the patch stay within their limits.
\<close>

theorem plan_is_sound:
  assumes "prepare E n fs arguments = Inr p"
  shows "pn_after p \<noteq> [] \<and> int (length (pn_after p)) \<le> max_operations \<and> int (length (pn_patch p)) \<le> max_patch_bytes
    \<and> distinct (map fst (pn_after p)) \<and> map fst (pn_before p) = map fst (pn_after p)
    \<and> (\<forall>(rel, c) \<in> set (pn_after p). (\<exists>b. (rel, b) \<in> set (pn_before p) \<and> b \<noteq> c)
        \<and> (\<forall>x. c = Some x \<longrightarrow> int (length x) \<le> max_file_bytes))
    \<and> (\<forall>(rel, b) \<in> set (pn_before p). \<exists>q. checked_path E fs rel = Inr q \<and> prefix (ed_root E) q \<and> canonical fs q
        \<and> \<not> is_sensitive_path (drop (length (ed_root E)) q)
        \<and> (case b of None \<Rightarrow> \<not> exists_at E fs q | Some c \<Rightarrow> content_at E fs q = Some c \<and> utf8_valid c))"
proof -
  have seen: "\<exists>q. checked_path E fs rel = Inr q \<and> prefix (ed_root E) q \<and> canonical fs q
        \<and> \<not> is_sensitive_path (drop (length (ed_root E)) q)
        \<and> (case b of None \<Rightarrow> \<not> exists_at E fs q | Some c \<Rightarrow> content_at E fs q = Some c \<and> utf8_valid c)"
    if "seen_as E fs rel b" for rel b
    using that checked_path_inside [of E fs rel] by (cases b) (auto simp: seen_as_def plain_content_def split: if_splits)
  show ?thesis using prepare_Inr [OF assms] seen by (fast intro: seen)
qed

definition demo_plan :: edit_plan where
  "demo_plan = \<lparr>pn_id = ''tx-1'', pn_operations = [demo_replace], pn_before = [(''a.py'', Some ''x = 1'')],
     pn_after = [(''a.py'', Some ''x = 2'')], pn_dirs = [], pn_patch = []\<rparr>"

theorem plan_is_sound_witness:
  "\<exists>p. prepare (demo_edit (\<lambda>_. False)) 0 (ex_fs demo_edit_state) (demo_arguments [demo_replace]) = Inr p
     \<and> pn_after p = [(''a.py'', Some ''x = 2'')] \<and> map fst (pn_before p) = [''a.py'']"
proof -
  define x where "x = prepare (demo_edit (\<lambda>_. False)) 0 (ex_fs demo_edit_state) (demo_arguments [demo_replace])"
  have "(case x of Inr p \<Rightarrow> pn_after p = [(''a.py'', Some ''x = 2'')] | _ \<Rightarrow> False)"
    unfolding x_def demo_edit_state_def demo_session_def demo_created_def by code_simp
  then obtain p where p: "x = Inr p" "pn_after p = [(''a.py'', Some ''x = 2'')]" by (cases x) auto
  from plan_is_sound [OF p(1) [unfolded x_def]] p show ?thesis unfolding x_def by auto
qed

section \<open>Commits\<close>

text \<open>
  C20. A commit never leaves a mixed tree without a record: wherever a write fails, afterwards the tree
  is untouched, or every file of the plan has its old content, or every file its new content, or the
  transaction is still there in a state that recovery acts on; and a commit that returns a receipt has
  brought every file to its new content.
\<close>

theorem commit_is_atomic:
  assumes "tx_of s (pn_id p) = None" and "commit E p s = (r, s')"
  shows "(ex_tree s' = ex_tree s
      \<or> (\<forall>(rel, c) \<in> set (pn_before p). content_at E (ex_fs s') (target E rel) = c)
      \<or> (\<forall>(rel, c) \<in> set (pn_after p). \<exists>q. checked_path E (ex_fs s') rel = Inr q \<and> plain_content E (ex_fs s') q = c)
      \<or> tx_status (pn_id p) s' \<in> {Some ''prepared'', Some ''committing'', Some ''recovery_required''})
    \<and> (\<forall>d. r = Inr d \<longrightarrow> (\<forall>(rel, c) \<in> set (pn_after p). \<exists>q. checked_path E (ex_fs s') rel = Inr q \<and> plain_content E (ex_fs s') q = c))"
  using commit_outcome(1) [OF assms(2,1)] commit_outcome(2) [OF assms(2,1)]
  unfolding before_contents_def after_contents_def pending_def pending_states_def by auto

theorem commit_is_atomic_witness:
  "\<exists>d s' q. commit (demo_edit (\<lambda>_. False)) demo_plan demo_edit_state = (Inr d, s')
     \<and> checked_path (demo_edit (\<lambda>_. False)) (ex_fs s') ''a.py'' = Inr q
     \<and> plain_content (demo_edit (\<lambda>_. False)) (ex_fs s') q = Some ''x = 2''"
proof -
  define x where "x = commit (demo_edit (\<lambda>_. False)) demo_plan demo_edit_state"
  have "(case fst x of Inr d \<Rightarrow> True | _ \<Rightarrow> False)"
    unfolding x_def demo_edit_state_def demo_session_def demo_created_def by code_simp
  then obtain d where d: "x = (Inr d, snd x)" by (cases x) (auto split: sum.splits)
  have "tx_of demo_edit_state (pn_id demo_plan) = None" by (simp add: demo_edit_state_def tx_of_def)
  from commit_is_atomic [OF this d [unfolded x_def]] d show ?thesis unfolding x_def by (auto simp: demo_plan_def)
qed

section \<open>Recovery\<close>

text \<open>
  C21. Recovery undoes what a crash left: for a transaction whose plan was recorded and that stopped
  while it was prepared or committing, recovery that returns has brought every file of the plan back
  to its content before the edit and removed the transaction, whatever was written in between.
\<close>

theorem crash_recovery_restores:
  assumes "record_plan E p s = (Inr u, t)" and "distinct (map fst (pn_before p))" and "tx_of t (pn_id p) = Some x"
    and "tx_of s1 (pn_id p) = Some (x\<lparr>tx_state := Some st\<rparr>)" and "st = ''prepared'' \<or> st = ''committing''"
    and "recover_one E (pn_id p) s1 = (Inr v, s2)"
  shows "(\<forall>(rel, c) \<in> set (pn_before p). content_at E (ex_fs s2) (target E rel) = c) \<and> tx_of s2 (pn_id p) = None"
proof -
  have a: "recorded E p (x\<lparr>tx_state := Some st\<rparr>)"
    using record_plan_recorded [OF assms(1,2)] assms(3) by (simp add: recorded_def)
  have b: "recover_pending E (pn_id p) (x\<lparr>tx_state := Some st\<rparr>) s1 = (Inr v, s2)"
    using assms(4-6) by (auto simp: recover_one_def)
  show ?thesis using recover_pending_restores [OF a b] by (simp add: before_contents_def)
qed

definition demo_recorded :: edit_state where
  "demo_recorded = snd (record_plan (demo_edit (\<lambda>_. False)) demo_plan demo_edit_state)"

definition demo_crashed :: edit_state where
  "demo_crashed = demo_recorded\<lparr>ex_txs := AList.update ''tx-1''
       ((case tx_of demo_recorded ''tx-1'' of Some x \<Rightarrow> x | None \<Rightarrow> empty_tx)\<lparr>tx_state := Some ''committing''\<rparr>) (ex_txs demo_recorded),
     ex_tree := AList.update [''wt'', ''a.py''] (File 420 ''x ='') (ex_tree demo_recorded)\<rparr>"

theorem crash_recovery_restores_witness:
  "\<exists>s2. recover_one (demo_edit (\<lambda>_. False)) ''tx-1'' demo_crashed = (Inr (), s2)
     \<and> content_at (demo_edit (\<lambda>_. False)) (ex_fs s2) [''wt'', ''a.py''] = Some ''x = 1''"
proof -
  define q where "q = record_plan (demo_edit (\<lambda>_. False)) demo_plan demo_edit_state"
  have "(case fst q of Inr u \<Rightarrow> True | _ \<Rightarrow> False) \<and> tx_of (snd q) ''tx-1'' \<noteq> None"
    unfolding q_def demo_edit_state_def demo_session_def demo_created_def by code_simp
  then obtain u x where q: "q = (Inr u, demo_recorded)" and x: "tx_of demo_recorded ''tx-1'' = Some x"
    unfolding q_def demo_recorded_def
    by (cases "record_plan (demo_edit (\<lambda>_. False)) demo_plan demo_edit_state") (auto split: sum.splits)
  have crashed: "tx_of demo_crashed ''tx-1'' = Some (x\<lparr>tx_state := Some ''committing''\<rparr>)"
    using x by (simp add: demo_crashed_def tx_of_def AList.update_conv')
  define y where "y = recover_one (demo_edit (\<lambda>_. False)) ''tx-1'' demo_crashed"
  have "(case fst y of Inr u \<Rightarrow> True | _ \<Rightarrow> False)"
    unfolding y_def demo_crashed_def demo_recorded_def demo_edit_state_def demo_session_def demo_created_def by code_simp
  then obtain v where v: "y = (Inr v, snd y)" by (cases y) (auto split: sum.splits)
  have "pn_id demo_plan = ''tx-1''" "distinct (map fst (pn_before demo_plan))" by (simp_all add: demo_plan_def)
  then show ?thesis
    using crash_recovery_restores [of "demo_edit (\<lambda>_. False)" demo_plan demo_edit_state u demo_recorded x demo_crashed "''committing''" v "snd y"]
      q x crashed v unfolding q_def y_def by (auto simp: demo_plan_def target_def demo_edit_def)
qed

text \<open>
  An edit starts from a settled journal: after recovery that returns, no transaction is left
  prepared, committing, committed or in need of a manual recovery.
\<close>

theorem recovery_settles_journal:
  assumes "ensure_recovered E s = (Inr u, s')"
  shows "\<forall>i. tx_status i s' \<notin> {Some ''prepared'', Some ''committing'', Some ''committed'', Some ''recovery_required''}"
  using ensure_recovered_settles [OF assms] unfolding settled_def by blast

theorem recovery_settles_journal_witness:
  "tx_status ''tx-1'' demo_crashed = Some ''committing''
    \<and> (\<exists>s'. ensure_recovered (demo_edit (\<lambda>_. False)) demo_crashed = (Inr (), s') \<and> tx_status ''tx-1'' s' \<noteq> Some ''committing'')"
proof -
  define y where "y = ensure_recovered (demo_edit (\<lambda>_. False)) demo_crashed"
  have "(case fst y of Inr u \<Rightarrow> True | _ \<Rightarrow> False) \<and> tx_status ''tx-1'' demo_crashed = Some ''committing''"
    unfolding y_def demo_crashed_def demo_recorded_def demo_edit_state_def demo_session_def demo_created_def by code_simp
  then obtain v where v: "y = (Inr v, snd y)" "tx_status ''tx-1'' demo_crashed = Some ''committing''"
    by (cases y) (auto split: sum.splits)
  from recovery_settles_journal [OF v(1) [unfolded y_def]] v show ?thesis unfolding y_def by auto
qed

end
