(* ===== verification/Execution_Supervisor.thy ===== *)
theory Execution_Supervisor
  imports Model_Gateway Session_Machine Turn_Budget
begin

text \<open>
  \<^verbatim>\<open>product/execution.py\<close>: the supervisor of the product process, which runs one job per session in a
  thread of its own and lets clients start, stop and answer it while it runs. The mutable
  \<^verbatim>\<open>ExecutionRecord\<close> objects live in a heap, since a worker keeps its record after the supervisor forgot
  it. Each method body under the lock is one operation; what a thread does next is its program
  counter. Notifications leave no state and are left out.
\<close>

section \<open>State\<close>

record job =
  jb_state :: string
  jb_stop :: bool
  jb_stop_at :: "string option"
  jb_pending :: "string option"

record pending_approval =
  pa_session :: string
  pa_job :: string
  pa_kind :: string
  pa_summary :: dict
  pa_decision :: "bool option"

text \<open>
  A thread prepares its configuration outside the \<^verbatim>\<open>try\<close>, works, waits for an approval, or is about to
  run its \<^verbatim>\<open>finally\<close>. A thread that ended by an exception outside of it is dead.
\<close>

datatype thread = Setup | Working | Waiting string | Finishing | Gone | Dead

record supervisor =
  sv_jobs :: "string \<rightharpoonup> job"
  sv_owner :: "string \<rightharpoonup> string"
  sv_active :: "string \<rightharpoonup> string"
  sv_approvals :: "string \<rightharpoonup> pending_approval"
  sv_threads :: "string \<rightharpoonup> thread"
  sv_stores :: "string \<rightharpoonup> store"
  sv_clock :: nat

record supervisor_env =
  se_uuid :: "nat \<Rightarrow> string"
  se_now :: "nat \<Rightarrow> string"

type_synonym 'a sup_prog = "(supervisor, 'a) prog"

definition sup_tick :: "nat sup_prog" where
  "sup_tick = (\<lambda>s. (Inr (sv_clock s), s\<lparr>sv_clock := Suc (sv_clock s)\<rparr>))"

definition in_session :: "string \<Rightarrow> 'a store_prog \<Rightarrow> 'a sup_prog" where
  "in_session sid m = (\<lambda>s. case sv_stores s sid of
     None \<Rightarrow> (Inl (Exn KeyError sid), s)
   | Some st \<Rightarrow> (case m st of (r, st') \<Rightarrow> (r, s\<lparr>sv_stores := (sv_stores s)(sid \<mapsto> st')\<rparr>)))"

definition log_in :: "supervisor_env \<Rightarrow> string \<Rightarrow> string \<Rightarrow> dict \<Rightarrow> unit sup_prog" where
  "log_in V sid ty payload = bnd sup_tick (\<lambda>n. in_session sid (append_unit (se_now V n) ty payload))"

text \<open>\<^verbatim>\<open>ExecutionRecord(uuid, "running")\<close>.\<close>

definition new_record :: job where
  "new_record = \<lparr>jb_state = ''running'', jb_stop = False, jb_stop_at = None, jb_pending = None\<rparr>"

definition active_job :: "string \<Rightarrow> supervisor \<Rightarrow> (string \<times> job) option" where
  "active_job sid s = (case sv_active s sid of None \<Rightarrow> None
     | Some j \<Rightarrow> (case sv_jobs s j of None \<Rightarrow> None | Some r \<Rightarrow> Some (j, r)))"

definition set_job :: "string \<Rightarrow> job \<Rightarrow> supervisor \<Rightarrow> supervisor" where
  "set_job j r s = s\<lparr>sv_jobs := (sv_jobs s)(j \<mapsto> r)\<rparr>"

definition set_thread :: "string \<Rightarrow> thread \<Rightarrow> supervisor \<Rightarrow> supervisor" where
  "set_thread j t s = s\<lparr>sv_threads := (sv_threads s)(j \<mapsto> t)\<rparr>"

definition conflict :: "string \<Rightarrow> exn" where
  "conflict why = Exn ExecutionConflictError why"

section \<open>Clients\<close>

definition execution_state :: "string \<Rightarrow> supervisor \<Rightarrow> string" where
  "execution_state sid s = (case active_job sid s of None \<Rightarrow> ''idle'' | Some (j, r) \<Rightarrow> jb_state r)"

definition pending_approval_view :: "string \<Rightarrow> supervisor \<Rightarrow> dict option" where
  "pending_approval_view sid s =
     (case active_job sid s of None \<Rightarrow> None
      | Some (j, r) \<Rightarrow> (case jb_pending r of None \<Rightarrow> None
          | Some a \<Rightarrow> (case sv_approvals s a of None \<Rightarrow> None
              | Some p \<Rightarrow> Some [(''approvalId'', JStr a), (''jobId'', JStr (pa_job p)), (''kind'', JStr (pa_kind p)),
                  (''summary'', JObj (pa_summary p))])))"

text \<open>The keyword arguments of a budget increase are the turn, the expected limit, the new limit and the additional steps.\<close>

type_synonym increase_request = "json \<times> json \<times> json \<times> json"

definition raise_budget :: "supervisor_env \<Rightarrow> string \<Rightarrow> increase_request \<Rightarrow> unit sup_prog" where
  "raise_budget V sid = (\<lambda>(turn, expected, new_limit, additional).
     try_catch (bnd sup_tick (\<lambda>n. seq_then
         (in_session sid (increase_turn_budget (se_now V n) turn expected new_limit additional)) (ret ())))
       (\<lambda>e. raise (if exn_class e = ValueError then conflict (exn_code e) else e)))"

definition check_start ::
  "supervisor_env \<Rightarrow> string \<Rightarrow> string option \<Rightarrow> bool \<Rightarrow> increase_request option \<Rightarrow> turn_budget \<Rightarrow> unit sup_prog" where
  "check_start V sid said continuation increase budget =
     (case increase of
        Some request \<Rightarrow> if \<not> continuation then raise (conflict ''requires continuation'') else raise_budget V sid request
      | None \<Rightarrow>
          if continuation \<and> (tb_closed budget \<or> tb_waiting budget) then raise (conflict ''cannot continue'')
          else if said \<noteq> None \<and> \<not> tb_closed budget then raise (conflict ''unfinished turn'')
          else ret ())"

definition start_job ::
  "supervisor_env \<Rightarrow> string \<Rightarrow> string option \<Rightarrow> bool \<Rightarrow> increase_request option \<Rightarrow> string sup_prog" where
  "start_job V sid said continuation increase =
     bnd (gets (\<lambda>s. sv_active s sid)) (\<lambda>existing.
     if existing \<noteq> None then raise (conflict ''active'')
     else bnd (in_session sid store_turn_budget) (\<lambda>budget.
       seq_then (check_start V sid said continuation increase budget)
       (bnd sup_tick (\<lambda>n. let j = se_uuid V n in
          seq_then (modify (\<lambda>s. s\<lparr>sv_jobs := (sv_jobs s)(j \<mapsto> new_record),
            sv_owner := (sv_owner s)(j \<mapsto> sid), sv_active := (sv_active s)(sid \<mapsto> j),
            sv_threads := (sv_threads s)(j \<mapsto> Setup)\<rparr>))
          (ret j)))))"

text \<open>Stop without a worker ends a turn that waits; with one it marks the record and refuses its approval.\<close>

definition stop_idle :: "supervisor_env \<Rightarrow> string \<Rightarrow> bool sup_prog" where
  "stop_idle V sid =
     bnd (in_session sid store_turn_budget) (\<lambda>budget.
     if tb_closed budget then ret False
     else bnd sup_tick (\<lambda>n. let j = se_uuid V n in
       seq_then (log_in V sid ''execution_stop_requested'' [(''job_id'', JStr j)])
       (seq_then (log_in V sid ''turn_terminated'' [(''reason'', JStr ''user_stop''), (''message'', JStr ''stopped by user'')])
       (bnd sup_tick (\<lambda>m.
        seq_then (log_in V sid ''execution_stop_acknowledged'' [(''job_id'', JStr j), (''requested_at'', JStr (se_now V (Suc n))),
          (''acknowledged_at'', JStr (se_now V m)), (''boundary'', JStr ''idle_user_turn'')])
        (ret True))))))"

definition refuse_pending :: "job \<Rightarrow> supervisor \<Rightarrow> supervisor" where
  "refuse_pending r s = (case jb_pending r of None \<Rightarrow> s
     | Some a \<Rightarrow> (case sv_approvals s a of None \<Rightarrow> s
         | Some p \<Rightarrow> s\<lparr>sv_approvals := (sv_approvals s)(a \<mapsto> p\<lparr>pa_decision := Some False\<rparr>)\<rparr>))"

definition stop_running :: "supervisor_env \<Rightarrow> string \<Rightarrow> string \<Rightarrow> job \<Rightarrow> bool sup_prog" where
  "stop_running V sid j r =
     seq_then (if jb_stop r then ret ()
       else bnd sup_tick (\<lambda>n.
         seq_then (modify (set_job j (r\<lparr>jb_stop := True, jb_stop_at := Some (se_now V n)\<rparr>)))
         (log_in V sid ''execution_stop_requested'' [(''job_id'', JStr j), (''requested_at'', JStr (se_now V n))])))
     (seq_then (modify (\<lambda>s. case sv_jobs s j of None \<Rightarrow> s
         | Some r' \<Rightarrow> refuse_pending r' (set_job j (r'\<lparr>jb_state := ''stopping''\<rparr>) s)))
     (ret True))"

definition stop_job :: "supervisor_env \<Rightarrow> string \<Rightarrow> bool sup_prog" where
  "stop_job V sid = bnd (gets (active_job sid)) (\<lambda>a. case a of
     None \<Rightarrow> stop_idle V sid | Some (j, r) \<Rightarrow> stop_running V sid j r)"

definition resolve_approval :: "string \<Rightarrow> string \<Rightarrow> bool \<Rightarrow> unit sup_prog" where
  "resolve_approval sid a allow =
     bnd (gets (active_job sid)) (\<lambda>x. bnd (gets (\<lambda>s. sv_approvals s a)) (\<lambda>p.
     case (x, p) of
       (Some (j, r), Some p) \<Rightarrow>
         if pa_job p \<noteq> j then raise (conflict ''not active'')
         else if jb_stop r then raise (conflict ''stopping'')
         else modify (\<lambda>s. s\<lparr>sv_approvals := (sv_approvals s)(a \<mapsto> p\<lparr>pa_decision := Some allow\<rparr>)\<rparr>)
     | _ \<Rightarrow> raise (conflict ''not active'')))"

section \<open>Workers\<close>

text \<open>The configuration a job reads from the session, before its \<^verbatim>\<open>try\<close>.\<close>

definition options_of :: "dict \<Rightarrow> string \<Rightarrow> dict" where
  "options_of meta k = (case dget meta k of JObj d \<Rightarrow> d | _ \<Rightarrow> [])"

definition job_config :: "dict \<Rightarrow> (model_config \<times> runtime_config) res" where
  "job_config meta =
     (let mo = options_of meta ''model_options''; ro = options_of meta ''runtime_options'' in
      rbind (check_model_config \<lparr>mc_provider = py_str (dget_or meta ''provider'' (JStr ''fake'')), mc_model = as_str (dget meta ''model''),
         mc_temperature = (case dget mo ''temperature'' of JNull \<Rightarrow> None | v \<Rightarrow> Some (py_str v)),
         mc_max_tokens = exact_int (dget mo ''max_tokens''),
         mc_reasoning_enabled = (dget mo ''reasoning_enabled'' = JBool True), mc_reasoning_effort = as_str (dget mo ''reasoning_effort'')\<rparr>) (\<lambda>c.
      rbind (py_int (dget_or ro ''max_steps_per_turn'' (JInt 12))) (\<lambda>steps.
      rbind (py_int (dget_or ro ''max_model_steps_per_user_turn'' (JInt 48))) (\<lambda>limit.
      Inr (c, \<lparr>rc_max_steps_per_turn = steps, rc_max_model_steps = limit\<rparr>)))))"

definition owner_of :: "string \<Rightarrow> supervisor \<Rightarrow> string" where
  "owner_of j s = (case sv_owner s j of None \<Rightarrow> [] | Some sid \<Rightarrow> sid)"

text \<open>What ends before the \<^verbatim>\<open>try\<close> kills the thread and leaves its record in place.\<close>

definition setup_job :: "string \<Rightarrow> unit sup_prog" where
  "setup_job j = bnd (gets (owner_of j)) (\<lambda>sid.
     (\<lambda>s. case in_session sid (bnd read_events (\<lambda>es. bnd read_meta (\<lambda>meta. bnd (lift (job_config meta)) (\<lambda>c. workspace_state)))) s of
        (Inr w, s') \<Rightarrow> (Inr (), set_thread j Working s')
      | (Inl e, s') \<Rightarrow> (Inl e, set_thread j Dead s')))"

text \<open>The first and the last part of \<^verbatim>\<open>await_approval\<close>, between which the worker waits.\<close>

definition begin_await :: "supervisor_env \<Rightarrow> string \<Rightarrow> string \<Rightarrow> dict \<Rightarrow> bool option sup_prog" where
  "begin_await V j kind summary =
     bnd sup_tick (\<lambda>n. let a = se_uuid V n in
     bnd (gets (owner_of j)) (\<lambda>sid. bnd (gets (\<lambda>s. (sv_active s sid, sv_jobs s j))) (\<lambda>(current, found).
     case found of None \<Rightarrow> ret (Some False)
     | Some r \<Rightarrow>
         if current \<noteq> Some j \<or> jb_stop r then ret (Some False)
         else seq_then (modify (\<lambda>s. set_thread j (Waiting a) (set_job j (r\<lparr>jb_state := ''awaiting_approval'', jb_pending := Some a\<rparr>) s)
             \<lparr>sv_approvals := (sv_approvals s)(a \<mapsto> \<lparr>pa_session = sid, pa_job = j, pa_kind = kind, pa_summary = summary,
                pa_decision = None\<rparr>)\<rparr>))
           (seq_then (log_in V sid ''approval_requested'' [(''approval_id'', JStr a), (''job_id'', JStr j),
              (''kind'', JStr kind), (''summary'', JObj summary)])
           (ret None)))))"

text \<open>The worker waits on while there is no decision and no stop.\<close>

definition must_wait :: "string \<Rightarrow> string \<Rightarrow> supervisor \<Rightarrow> bool" where
  "must_wait j a s = (case (sv_approvals s a, sv_jobs s j) of
     (Some p, Some r) \<Rightarrow> pa_decision p = None \<and> \<not> jb_stop r | _ \<Rightarrow> True)"

definition end_await :: "supervisor_env \<Rightarrow> string \<Rightarrow> string \<Rightarrow> bool sup_prog" where
  "end_await V j a =
     bnd (gets (owner_of j)) (\<lambda>sid. bnd (gets (\<lambda>s. (sv_approvals s a, sv_jobs s j))) (\<lambda>x.
     case x of
       (Some p, Some r) \<Rightarrow>
         let allowed = (pa_decision p = Some True \<and> \<not> jb_stop r) in
         seq_then (modify (\<lambda>s. set_thread j Working (set_job j (r\<lparr>jb_pending := None,
             jb_state := (if jb_stop r then ''stopping'' else ''running'')\<rparr>) s)\<lparr>sv_approvals := (sv_approvals s)(a := None)\<rparr>))
         (seq_then (log_in V sid ''approval_decision'' [(''approval_id'', JStr a), (''job_id'', JStr j),
            (''allowed'', JBool allowed), (''aborted'', JBool (jb_stop r))])
         (ret allowed))
     | _ \<Rightarrow> raise (Exn KeyError a)))"

text \<open>The exception handler of a job, and its \<^verbatim>\<open>finally\<close>.\<close>

definition turn_open :: "session_event list \<Rightarrow> bool" where
  "turn_open es = (case current_turn es of None \<Rightarrow> False | Some [] \<Rightarrow> False
     | Some t \<Rightarrow> \<not> list_ex (\<lambda>e. ev_turn e = Some t \<and> closes_turn e) es)"

definition fail_job :: "supervisor_env \<Rightarrow> (exn \<Rightarrow> string) \<Rightarrow> string \<Rightarrow> exn \<Rightarrow> unit sup_prog" where
  "fail_job V type_name j e = bnd (gets (owner_of j)) (\<lambda>sid.
     (\<lambda>s. case bnd (in_session sid read_events) (\<lambda>es.
         if turn_open es then log_in V sid ''turn_terminated'' [(''reason'', JStr ''runtime_error''),
           (''message'', JStr ''The model or CodeAgent Runtime failed before producing a final response.''),
           (''error_type'', JStr (type_name e))] else ret ()) s of
        (r, s') \<Rightarrow> (r, set_thread j Finishing s')))"

definition acknowledge_stop :: "supervisor_env \<Rightarrow> string \<Rightarrow> string \<Rightarrow> job \<Rightarrow> unit sup_prog" where
  "acknowledge_stop V sid j r = bnd (in_session sid store_turn_budget) (\<lambda>budget.
     seq_then (if tb_closed budget then ret ()
       else log_in V sid ''turn_terminated'' [(''reason'', JStr ''user_stop''), (''message'', JStr ''stop requested'')])
     (bnd sup_tick (\<lambda>n. log_in V sid ''execution_stop_acknowledged'' [(''job_id'', JStr j), (''requested_at'', opt_str (jb_stop_at r)),
        (''acknowledged_at'', JStr (se_now V n)), (''boundary'', JStr ''between_model_or_tool_steps'')])))"

definition finish_job :: "supervisor_env \<Rightarrow> string \<Rightarrow> unit sup_prog" where
  "finish_job V j = bnd (gets (owner_of j)) (\<lambda>sid. bnd (gets (\<lambda>s. sv_jobs s j)) (\<lambda>found. case found of
     None \<Rightarrow> raise (Exn KeyError j)
   | Some r \<Rightarrow>
       (\<lambda>s. case (if jb_stop r then acknowledge_stop V sid j r else ret ()) s of
          (Inl e, s') \<Rightarrow> (Inl e, set_thread j Dead s')
        | (Inr u, s') \<Rightarrow> (Inr (), set_thread j Gone
            (if sv_active s' sid = Some j then s'\<lparr>sv_active := (sv_active s')(sid := None)\<rparr> else s')))))"

end
