(* ===== verification/Supervisor_Machine.thy ===== *)
theory Supervisor_Machine
  imports Execution_Supervisor
begin

text \<open>
  The interleavings of clients and workers over the operations of the supervisor: a labelled step
  relation, its reachable states, the invariant that ties records, approvals and threads together,
  and what follows from it.
\<close>

section \<open>Steps\<close>

datatype label =
    Start string | Stop string | Resolve string string bool
  | Log string | Ask string | Answered string string bool | Advance string

text \<open>
  A worker logs through the operations of the session store, whatever the runner decides; it asks,
  returns from its wait, and moves on when the slice loop returns or raises. \<open>type_name\<close> names the
  class of an exception.
\<close>

inductive sv_step :: "supervisor_env \<Rightarrow> (exn \<Rightarrow> string) \<Rightarrow> supervisor \<Rightarrow> label \<Rightarrow> supervisor \<Rightarrow> bool"
  for V :: supervisor_env and N :: "exn \<Rightarrow> string" where
  start: "start_job V sid msg cont inc s = (r, s') \<Longrightarrow> sv_step V N s (Start sid) s'"
| stop: "stop_job V sid s = (r, s') \<Longrightarrow> sv_step V N s (Stop sid) s'"
| resolve: "resolve_approval sid a allow s = (r, s') \<Longrightarrow> sv_step V N s (Resolve sid a allow) s'"
| configure: "sv_threads s j = Some Setup \<Longrightarrow> setup_job j s = (r, s') \<Longrightarrow> sv_step V N s (Advance j) s'"
| work: "sv_threads s j = Some Working \<Longrightarrow> sv_owner s j = Some sid \<Longrightarrow> sv_stores s sid = Some st \<Longrightarrow>
    proper_op st p \<Longrightarrow> run_op p st = (r, st') \<Longrightarrow>
    sv_step V N s (Log j) (s\<lparr>sv_stores := (sv_stores s)(sid \<mapsto> st')\<rparr>)"
| ask: "sv_threads s j = Some Working \<Longrightarrow> begin_await V j kind summary s = (r, s') \<Longrightarrow> sv_step V N s (Ask j) s'"
| answer: "sv_threads s j = Some (Waiting a) \<Longrightarrow> \<not> must_wait j a s \<Longrightarrow> end_await V j a s = (Inr allowed, s') \<Longrightarrow>
    sv_step V N s (Answered j a allowed) s'"
| complete: "sv_threads s j = Some Working \<Longrightarrow> sv_step V N s (Advance j) (set_thread j Finishing s)"
| fail: "sv_threads s j = Some Working \<Longrightarrow> fail_job V N j e s = (r, s') \<Longrightarrow> sv_step V N s (Advance j) s'"
| finish: "sv_threads s j = Some Finishing \<Longrightarrow> finish_job V j s = (r, s') \<Longrightarrow> sv_step V N s (Advance j) s'"

inductive_cases sv_stepE: "sv_step V N s l s'"

text \<open>A run from a supervisor without jobs over well-formed sessions, with its labels.\<close>

definition sv_initial :: "supervisor \<Rightarrow> bool" where
  "sv_initial s \<longleftrightarrow> sv_jobs s = Map.empty \<and> sv_owner s = Map.empty \<and> sv_active s = Map.empty
     \<and> sv_approvals s = Map.empty \<and> sv_threads s = Map.empty
     \<and> (\<forall>sid st. sv_stores s sid = Some st \<longrightarrow> session_reachable st)"

inductive sv_run :: "supervisor_env \<Rightarrow> (exn \<Rightarrow> string) \<Rightarrow> label list \<Rightarrow> supervisor \<Rightarrow> bool"
  for V :: supervisor_env and N :: "exn \<Rightarrow> string" where
  initial: "sv_initial s \<Longrightarrow> sv_run V N [] s"
| onward: "sv_run V N tr s \<Longrightarrow> sv_step V N s l s' \<Longrightarrow> sv_run V N (tr @ [l]) s'"

section \<open>The invariant\<close>

definition thread_pending :: "thread \<Rightarrow> string option" where
  "thread_pending t = (case t of Waiting a \<Rightarrow> Some a | _ \<Rightarrow> None)"

definition shown_state :: "bool \<Rightarrow> thread \<Rightarrow> string" where
  "shown_state stopping t = (if stopping then ''stopping''
     else if thread_pending t \<noteq> None then ''awaiting_approval'' else ''running'')"

text \<open>
  What holds of one job that has not gone: it owns its session, its record shows what it does, and
  if it waits, its approval is registered, refused once a stop was requested.
\<close>

definition job_ok :: "supervisor \<Rightarrow> string \<Rightarrow> thread \<Rightarrow> bool" where
  "job_ok s j t \<longleftrightarrow> (case (sv_owner s j, sv_jobs s j) of
     (Some sid, Some r) \<Rightarrow> sv_active s sid = Some j \<and> sv_stores s sid \<noteq> None
       \<and> jb_state r = shown_state (jb_stop r) t \<and> jb_pending r = thread_pending t
       \<and> (\<forall>a. t = Waiting a \<longrightarrow> (case sv_approvals s a of None \<Rightarrow> False
            | Some p \<Rightarrow> pa_job p = j \<and> pa_session p = sid \<and> (jb_stop r \<longrightarrow> pa_decision p = Some False)))
   | _ \<Rightarrow> False)"

definition fresh_from :: "supervisor_env \<Rightarrow> supervisor \<Rightarrow> bool" where
  "fresh_from V s \<longleftrightarrow> (\<forall>n \<ge> sv_clock s. sv_threads s (se_uuid V n) = None \<and> sv_approvals s (se_uuid V n) = None)"

definition sv_inv :: "supervisor_env \<Rightarrow> supervisor \<Rightarrow> bool" where
  "sv_inv V s \<longleftrightarrow> fresh_from V s
     \<and> (\<forall>sid st. sv_stores s sid = Some st \<longrightarrow> session_reachable st)
     \<and> (\<forall>j t. sv_threads s j = Some t \<longrightarrow> t \<noteq> Gone \<longrightarrow> job_ok s j t)
     \<and> (\<forall>sid j. sv_active s sid = Some j \<longrightarrow> sv_owner s j = Some sid \<and> (\<exists>t. sv_threads s j = Some t \<and> t \<noteq> Gone))
     \<and> (\<forall>a p. sv_approvals s a = Some p \<longrightarrow> sv_threads s (pa_job p) = Some (Waiting a))"


lemmas sv_inv_unfold = sv_inv_def fresh_from_def

section \<open>Steps that only log\<close>

text \<open>Between \<open>s\<^sub>0\<close> and \<open>s\<close> only the clock advanced and sessions were operated on.\<close>

definition quiet :: "supervisor \<Rightarrow> supervisor \<Rightarrow> bool" where
  "quiet s0 s \<longleftrightarrow> sv_jobs s = sv_jobs s0 \<and> sv_owner s = sv_owner s0 \<and> sv_active s = sv_active s0
     \<and> sv_approvals s = sv_approvals s0 \<and> sv_threads s = sv_threads s0 \<and> sv_clock s0 \<le> sv_clock s
     \<and> dom (sv_stores s) = dom (sv_stores s0)
     \<and> ((\<forall>sid st. sv_stores s0 sid = Some st \<longrightarrow> session_reachable st) \<longrightarrow>
        (\<forall>sid st. sv_stores s sid = Some st \<longrightarrow> session_reachable st))"

lemma quiet_refl [simp]: "quiet s s"
  by (simp add: quiet_def)

lemma quiet_trans: "quiet a b \<Longrightarrow> quiet b c \<Longrightarrow> quiet a c"
  unfolding quiet_def by (metis order_trans)

lemma quiet_inv:
  assumes "quiet s0 s" and "sv_inv V s0"
  shows "sv_inv V s"
proof -
  have "(sv_stores s sid \<noteq> None) = (sv_stores s0 sid \<noteq> None)" for sid
    using assms(1) unfolding quiet_def domIff [symmetric] by simp
  then have jobs: "job_ok s j t = job_ok s0 j t" for j t
    using assms(1) by (auto simp: quiet_def job_ok_def split: option.splits)
  show ?thesis using assms unfolding sv_inv_def jobs by (auto simp: quiet_def fresh_from_def)
qed

lemma quiet_tick: "preserves (quiet s0) sup_tick"
  by (rule preservesI) (simp add: sup_tick_def quiet_def)

lemma quiet_in_session:
  assumes "preserves session_reachable m"
  shows "preserves (quiet s0) (in_session sid m)"
proof (rule preservesI)
  fix s assume q: "quiet s0 s"
  show "quiet s0 (snd (in_session sid m s))"
  proof (cases "sv_stores s sid")
    case None
    with q show ?thesis by (simp add: in_session_def)
  next
    case (Some st)
    obtain r st' where m: "m st = (r, st')" by (cases "m st")
    have "session_reachable st \<Longrightarrow> session_reachable st'" using preservesD [OF assms _ m] .
    moreover have "insert sid (dom (sv_stores s0)) = dom (sv_stores s0)"
      using q Some by (auto simp: quiet_def)
    ultimately show ?thesis using q Some m by (simp add: in_session_def quiet_def)
  qed
qed

lemma reachable_run_op: "proper_op st p \<Longrightarrow> session_reachable st \<Longrightarrow> session_reachable (snd (run_op p st))"
  by (metis session_reachable.operation prod.collapse)

lemma reachable_append: "preserves session_reachable (append_event now ty payload)"
  using reachable_run_op [of _ "Append now ty payload"] by (intro preservesI) (simp add: proper_op_def)

lemma reachable_append_unit: "preserves session_reachable (append_unit now ty payload)"
  unfolding append_unit_def by (intro preserves_intros reachable_append)

lemma reachable_meta: "preserves session_reachable read_meta"
  by (simp add: preserves_def read_meta_def)

lemma reachable_events: "preserves session_reachable read_events"
  by (simp add: preserves_def read_events_def)

lemma reachable_budget: "preserves session_reachable store_turn_budget"
  unfolding store_turn_budget_def by (intro preserves_intros reachable_meta reachable_events)

lemma reachable_workspace_state: "preserves session_reachable workspace_state"
  unfolding workspace_state_def by (intro preserves_intros reachable_meta)

lemma reachable_increase: "preserves session_reachable (increase_turn_budget now t e n a)"
  unfolding increase_turn_budget_def Let_def split_def
  by (intro preserves_intros reachable_budget reachable_workspace_state reachable_append)

lemmas session_ops = reachable_append_unit reachable_meta reachable_events reachable_budget
  reachable_workspace_state reachable_increase

lemma quiet_log_in: "preserves (quiet s0) (log_in V sid ty payload)"
  unfolding log_in_def by (intro preserves_intros quiet_tick quiet_in_session session_ops)

lemmas quiet_intros = preserves_intros quiet_tick quiet_in_session quiet_log_in session_ops

lemma quiet_raise_budget: "preserves (quiet s0) (raise_budget V sid inc)"
  unfolding raise_budget_def split_def by (intro quiet_intros)

lemma quiet_check_start: "preserves (quiet s0) (check_start V sid said cont inc budget)"
  unfolding check_start_def by (intro preserves_intros quiet_raise_budget)

lemma quiet_stop_idle: "preserves (quiet s0) (stop_idle V sid)"
  unfolding stop_idle_def Let_def by (intro quiet_intros)

lemma quiet_acknowledge: "preserves (quiet s0) (acknowledge_stop V sid j r)"
  unfolding acknowledge_stop_def by (intro quiet_intros)

lemma quietD: "preserves (quiet s) m \<Longrightarrow> m s = (r, s') \<Longrightarrow> quiet s s'"
  using preservesD [of "quiet s" m s r s'] by simp


section \<open>Every step keeps the invariant\<close>

lemma sv_inv_job: "sv_inv V s \<Longrightarrow> sv_threads s j = Some t \<Longrightarrow> t \<noteq> Gone \<Longrightarrow> job_ok s j t"
  by (simp add: sv_inv_def)

lemma sv_inv_active: "sv_inv V s \<Longrightarrow> sv_active s sid = Some j \<Longrightarrow>
    sv_owner s j = Some sid \<and> (\<exists>t. sv_threads s j = Some t \<and> t \<noteq> Gone)"
  unfolding sv_inv_def by blast

lemma job_okE:
  assumes "job_ok s j t"
  obtains sid r where "sv_owner s j = Some sid" "sv_active s sid = Some j" "sv_stores s sid \<noteq> None"
    "sv_jobs s j = Some r" "jb_state r = shown_state (jb_stop r) t" "jb_pending r = thread_pending t"
  using assms by (auto simp: job_ok_def split: option.splits)

lemma sv_inv_tick: "sv_inv V s \<Longrightarrow> sv_inv V (s\<lparr>sv_clock := Suc (sv_clock s)\<rparr>)"
  by (rule quiet_inv [of s]) (simp_all add: quiet_def)

text \<open>A thread that neither waits nor goes changes its program counter only.\<close>

lemma inv_set_thread:
  assumes "sv_inv V s" and "sv_threads s j = Some t" and "t \<noteq> Gone" and "thread_pending t = None"
    and "thread_pending t' = None" and "t' \<noteq> Gone"
  shows "sv_inv V (set_thread j t' s)"
proof -
  have "job_ok (set_thread j t' s) i u" if "job_ok s i u" for i u
    using that by (auto simp: job_ok_def set_thread_def split: option.splits)
  moreover have "job_ok (set_thread j t' s) j t'"
    using sv_inv_job [OF assms(1-3)] assms(4-6)
    by (auto simp: job_ok_def set_thread_def shown_state_def thread_pending_def split: option.splits thread.splits)
  moreover have "pa_job p \<noteq> j" if "sv_approvals s a = Some p" for a p
    using that assms(1,2,4) by (auto simp: sv_inv_def thread_pending_def)
  ultimately show ?thesis
    using assms by (auto simp: sv_inv_def fresh_from_def set_thread_def split: if_splits)
qed

lemma inv_gone:
  assumes "sv_inv V s" and "sv_threads s j = Some t" and "t \<noteq> Gone" and "thread_pending t = None"
    and "sv_owner s j = Some sid"
  shows "sv_inv V (set_thread j Gone (s\<lparr>sv_active := (sv_active s)(sid := None)\<rparr>))"
    (is "sv_inv V ?s")
proof -
  have act: "sv_active s sid = Some j" using sv_inv_job [OF assms(1-3)] assms(5) by (auto simp: job_ok_def split: option.splits)
  have "job_ok ?s i u" if "job_ok s i u" and "i \<noteq> j" for i u
    using that act assms(5) by (auto simp: job_ok_def set_thread_def split: option.splits)
  moreover have "pa_job p \<noteq> j" if "sv_approvals s a = Some p" for a p
    using that assms(1,2,4) by (auto simp: sv_inv_def thread_pending_def)
  ultimately show ?thesis
    using assms by (auto simp: sv_inv_def fresh_from_def set_thread_def split: if_splits)
qed

lemma start_job_cases:
  assumes "start_job V sid said cont inc s = (r, s')"
  shows "(\<exists>e. r = Inl e) \<and> quiet s s' \<or>
    (\<exists>s1. quiet s s1 \<and> sv_active s sid = None \<and> sv_stores s sid \<noteq> None \<and> r = Inr (se_uuid V (sv_clock s1))
      \<and> s' = s1\<lparr>sv_clock := Suc (sv_clock s1), sv_jobs := (sv_jobs s1)(se_uuid V (sv_clock s1) \<mapsto> new_record),
           sv_owner := (sv_owner s1)(se_uuid V (sv_clock s1) \<mapsto> sid), sv_active := (sv_active s1)(sid \<mapsto> se_uuid V (sv_clock s1)),
           sv_threads := (sv_threads s1)(se_uuid V (sv_clock s1) \<mapsto> Setup)\<rparr>)"
proof (cases "sv_active s sid")
  case (Some j)
  with assms show ?thesis by (auto simp: start_job_def)
next
  case None
  obtain b s0 where b: "in_session sid store_turn_budget s = (b, s0)" by (cases "in_session sid store_turn_budget s")
  have q0: "quiet s s0" by (rule quietD [OF quiet_in_session b]) (rule reachable_budget)
  show ?thesis
  proof (cases b)
    case (Inl e)
    with assms None b q0 show ?thesis by (auto simp: start_job_def)
  next
    case (Inr budget)
    obtain c s1 where c: "check_start V sid said cont inc budget s0 = (c, s1)"
      by (cases "check_start V sid said cont inc budget s0")
    from quietD [OF quiet_check_start c] q0 have q1: "quiet s s1" by (rule quiet_trans [rotated])
    have "sv_stores s sid \<noteq> None" using b Inr by (auto simp: in_session_def split: option.splits)
    with assms None b Inr c q1 show ?thesis unfolding start_job_def
      by (cases c) (auto simp: seq_then_def bnd_def sup_tick_def Let_def)
  qed
qed

lemma inv_start:
  assumes "inj (se_uuid V)" and "sv_inv V s" and "start_job V sid said cont inc s = (r, s')"
  shows "sv_inv V s'"
  using start_job_cases [OF assms(3)]
proof (elim disjE exE conjE)
  fix e assume "quiet s s'"
  then show ?thesis using quiet_inv assms(2) by blast
next
  fix s1 assume q: "quiet s s1" and free: "sv_active s sid = None" and store: "sv_stores s sid \<noteq> None"
    and s': "s' = s1\<lparr>sv_clock := Suc (sv_clock s1), sv_jobs := (sv_jobs s1)(se_uuid V (sv_clock s1) \<mapsto> new_record),
           sv_owner := (sv_owner s1)(se_uuid V (sv_clock s1) \<mapsto> sid), sv_active := (sv_active s1)(sid \<mapsto> se_uuid V (sv_clock s1)),
           sv_threads := (sv_threads s1)(se_uuid V (sv_clock s1) \<mapsto> Setup)\<rparr>"
  define j where "j = se_uuid V (sv_clock s1)"
  have inv: "sv_inv V s1" using quiet_inv [OF q assms(2)] .
  have free1: "sv_active s1 sid = None" and store1: "sv_stores s1 sid \<noteq> None"
    using q free store unfolding quiet_def domIff [symmetric] by auto
  have new: "sv_threads s1 j = None" using inv by (simp add: sv_inv_def fresh_from_def j_def)
  have "job_ok s' i u" if "job_ok s1 i u" and "i \<noteq> j" for i u
    using that free1 unfolding s' j_def [symmetric] by (auto simp: job_ok_def split: option.splits)
  moreover have "job_ok s' j Setup"
    using store1 unfolding s' j_def [symmetric] by (simp add: job_ok_def new_record_def shown_state_def thread_pending_def)
  moreover have "fresh_from V s'"
    using inv assms(1) unfolding s' by (auto simp: sv_inv_def fresh_from_def dest: injD)
  moreover have "pa_job p \<noteq> j" if "sv_approvals s1 a = Some p" for a p
    using that inv new by (auto simp: sv_inv_def)
  moreover have "sv_active s1 i \<noteq> Some j" for i using inv new unfolding sv_inv_def by fastforce
  ultimately show ?thesis
    using inv free1 new unfolding sv_inv_def by (auto simp: s' j_def [symmetric] split: if_splits)
qed


lemma setup_job_effect:
  assumes "setup_job j s = (r, s')"
  shows "\<exists>s1 t. quiet s s1 \<and> s' = set_thread j t s1 \<and> t \<in> {Working, Dead}"
proof -
  define m where "m = in_session (owner_of j s) (bnd read_events (\<lambda>es. bnd read_meta (\<lambda>meta.
    bnd (lift (job_config meta)) (\<lambda>c. workspace_state))))"
  have q: "preserves (quiet s) m" unfolding m_def by (intro quiet_intros)
  obtain c s1 where c: "m s = (c, s1)" by (cases "m s")
  have "s' = set_thread j (case c of Inl e \<Rightarrow> Dead | Inr w \<Rightarrow> Working) s1"
    using assms c unfolding setup_job_def by (auto simp: m_def [symmetric] split: sum.splits)
  then show ?thesis using quietD [OF q c] by (auto split: sum.splits)
qed

lemma inv_setup:
  assumes "sv_inv V s" and "sv_threads s j = Some Setup" and "setup_job j s = (r, s')"
  shows "sv_inv V s'"
proof -
  obtain s1 t where s1: "quiet s s1" "s' = set_thread j t s1" "t \<in> {Working, Dead}"
    using setup_job_effect [OF assms(3)] by blast
  then have "sv_threads s1 j = Some Setup" using assms(2) by (simp add: quiet_def)
  then show ?thesis unfolding s1(2)
    by (rule inv_set_thread [OF quiet_inv [OF s1(1) assms(1)]]) (use s1(3) in \<open>auto simp: thread_pending_def\<close>)
qed

lemma inv_work:
  assumes "sv_inv V s" and "sv_stores s sid = Some st" and "proper_op st p" and "run_op p st = (r, st')"
  shows "sv_inv V (s\<lparr>sv_stores := (sv_stores s)(sid \<mapsto> st')\<rparr>)"
proof (rule quiet_inv [OF _ assms(1)])
  have "session_reachable st \<Longrightarrow> session_reachable st'" using session_reachable.operation [OF _ assms(3,4)] .
  with assms(2) show "quiet s (s\<lparr>sv_stores := (sv_stores s)(sid \<mapsto> st')\<rparr>)"
    by (auto simp: quiet_def)
qed

text \<open>What a client or a worker writes under the lock when it asks, answers or stops.\<close>

definition asking :: "string \<Rightarrow> string \<Rightarrow> job \<Rightarrow> string \<Rightarrow> string \<Rightarrow> dict \<Rightarrow> supervisor \<Rightarrow> supervisor" where
  "asking sid j r a kind summary s = set_thread j (Waiting a) (set_job j (r\<lparr>jb_state := ''awaiting_approval'', jb_pending := Some a\<rparr>) s)
     \<lparr>sv_approvals := (sv_approvals s)(a \<mapsto> \<lparr>pa_session = sid, pa_job = j, pa_kind = kind, pa_summary = summary, pa_decision = None\<rparr>)\<rparr>"

definition answered :: "string \<Rightarrow> job \<Rightarrow> string \<Rightarrow> supervisor \<Rightarrow> supervisor" where
  "answered j r a s = set_thread j Working (set_job j (r\<lparr>jb_pending := None,
     jb_state := (if jb_stop r then ''stopping'' else ''running'')\<rparr>) s)\<lparr>sv_approvals := (sv_approvals s)(a := None)\<rparr>"

definition stopped :: "string \<Rightarrow> job \<Rightarrow> string option \<Rightarrow> supervisor \<Rightarrow> supervisor" where
  "stopped j r at s = refuse_pending r (set_job j (r\<lparr>jb_stop := True, jb_stop_at := at, jb_state := ''stopping''\<rparr>) s)"

lemmas sup_ops = asking_def answered_def stopped_def refuse_pending_def set_thread_def set_job_def

lemma inv_asking:
  assumes "sv_inv V s" and "sv_threads s j = Some Working" and "sv_jobs s j = Some r" and "sv_owner s j = Some sid"
    and "\<not> jb_stop r" and "sv_approvals s a = None" and "\<forall>n \<ge> sv_clock s. se_uuid V n \<noteq> a"
  shows "sv_inv V (asking sid j r a kind summary s)" (is "sv_inv V ?s")
proof -
  have ok: "job_ok s j Working" using sv_inv_job [OF assms(1,2)] by simp
  have "job_ok ?s i u" if "job_ok s i u" and "i \<noteq> j" for i u
    using that assms(6) by (auto simp: job_ok_def sup_ops split: option.splits)
  moreover have "job_ok ?s j (Waiting a)"
    using ok assms(3-5) by (auto simp: job_ok_def sup_ops shown_state_def thread_pending_def split: option.splits)
  moreover have "pa_job p \<noteq> j" if "sv_approvals s b = Some p" for b p
    using that assms(1,2) by (auto simp: sv_inv_def)
  moreover have "fresh_from V ?s" using assms(1,2,7) by (auto simp: sv_inv_def fresh_from_def sup_ops)
  ultimately show ?thesis using assms(1) unfolding sv_inv_def by (auto simp: sup_ops split: if_splits)
qed

lemma inv_answered:
  assumes "sv_inv V s" and "sv_threads s j = Some (Waiting a)" and "sv_jobs s j = Some r"
  shows "sv_inv V (answered j r a s)" (is "sv_inv V ?s")
proof -
  have ok: "job_ok s j (Waiting a)" using sv_inv_job [OF assms(1,2)] by simp
  then have pj: "\<exists>p. sv_approvals s a = Some p \<and> pa_job p = j"
    by (auto simp: job_ok_def split: option.splits)
  have "job_ok ?s i u" if "job_ok s i u" and "i \<noteq> j" for i u
    using that pj by (auto simp: job_ok_def sup_ops split: option.splits)
  moreover have "job_ok ?s j Working"
    using ok assms(3) by (auto simp: job_ok_def sup_ops shown_state_def thread_pending_def split: option.splits)
  moreover have "pa_job p \<noteq> j" if "sv_approvals s b = Some p" and "b \<noteq> a" for b p
    using that assms(1,2) by (auto simp: sv_inv_def)
  moreover have "fresh_from V ?s" using assms(1,2) by (auto simp: sv_inv_def fresh_from_def sup_ops)
  ultimately show ?thesis using assms(1) unfolding sv_inv_def by (auto simp: sup_ops split: if_splits)
qed

lemma inv_same_threads:
  assumes "sv_inv V s" and "fresh_from V s'"
    and same: "sv_threads s' = sv_threads s" "sv_active s' = sv_active s" "sv_owner s' = sv_owner s" "sv_stores s' = sv_stores s"
    and jobs: "\<And>i u. sv_threads s i = Some u \<Longrightarrow> job_ok s i u \<Longrightarrow> job_ok s' i u"
    and approvals: "\<And>a p. sv_approvals s' a = Some p \<Longrightarrow> \<exists>q. sv_approvals s a = Some q \<and> pa_job q = pa_job p"
  shows "sv_inv V s'"
  unfolding sv_inv_def
proof (intro conjI allI impI)
  fix a p assume "sv_approvals s' a = Some p"
  then obtain q where "sv_approvals s a = Some q" "pa_job q = pa_job p" using approvals by blast
  then show "sv_threads s' (pa_job p) = Some (Waiting a)" using assms(1) same by (metis sv_inv_def)
qed (use assms in \<open>auto simp: sv_inv_def\<close>)

lemma inv_stopped:
  assumes "sv_inv V s" and "sv_active s sid = Some j" and "sv_jobs s j = Some r"
  shows "sv_inv V (stopped j r at s)" (is "sv_inv V ?s")
proof -
  obtain t where t: "sv_threads s j = Some t" "t \<noteq> Gone" using sv_inv_active [OF assms(1,2)] by blast
  have ok: "job_ok s j t" using sv_inv_job [OF assms(1) t] .
  have pend: "jb_pending r = thread_pending t" using ok assms(3) by (auto simp: job_ok_def split: option.splits)
  have pj: "\<forall>a p. jb_pending r = Some a \<longrightarrow> sv_approvals s a = Some p \<longrightarrow> pa_job p = j"
    using ok pend by (auto simp: job_ok_def thread_pending_def split: option.splits thread.splits)
  have other: "job_ok ?s i u" if "job_ok s i u" and "i \<noteq> j" for i u
    using that pj by (auto simp: job_ok_def sup_ops split: option.splits)
  have self: "job_ok ?s j t"
    using ok assms(3) by (auto simp: job_ok_def sup_ops shown_state_def thread_pending_def split: option.splits thread.splits)
  show ?thesis
  proof (rule inv_same_threads [OF assms(1)])
    show "fresh_from V ?s" using assms(1) by (auto simp: sv_inv_def fresh_from_def sup_ops split: option.splits)
    show "job_ok ?s i u" if "sv_threads s i = Some u" "job_ok s i u" for i u
      using that other self t by (cases "i = j") auto
    show "\<exists>q. sv_approvals s a = Some q \<and> pa_job q = pa_job p" if "sv_approvals ?s a = Some p" for a p
      using that by (auto simp: sup_ops split: option.splits if_splits)
  qed (auto simp: sup_ops split: option.splits)
qed

lemma log_in_run:
  assumes "sv_stores s sid = Some st" and "log_ok st"
  shows "log_in V sid ty payload s = (Inr (), s\<lparr>sv_clock := Suc (sv_clock s),
    sv_stores := (sv_stores s)(sid \<mapsto> with_event (se_now V (sv_clock s)) ty payload st)\<rparr>)"
  using assms append_unit_run [OF assms(2)] by (simp add: log_in_def in_session_def sup_tick_def bnd_def)

lemma inv_store:
  assumes "sv_inv V s" and "job_ok s j t" and "sv_owner s j = Some sid"
  obtains st where "sv_stores s sid = Some st" "session_reachable st" "log_ok st"
  using assms by (auto simp: sv_inv_def job_ok_def session_reachable_ok split: option.splits)

lemma stop_running_effect:
  assumes "sv_inv V s" and "sv_active s sid = Some j" and "sv_jobs s j = Some r"
    and "stop_running V sid j r s = (res, s')"
  shows "res = Inr True \<and> (\<exists>at. quiet (stopped j r at s) s')"
proof (cases "jb_stop r")
  case True
  then obtain x u w where r: "r = \<lparr>jb_state = x, jb_stop = True, jb_stop_at = u, jb_pending = w\<rparr>"
    by (cases r) simp
  have "res = Inr True \<and> s' = stopped j r u s"
    using assms(3,4) unfolding r by (simp add: stop_running_def seq_then_def bnd_def stopped_def)
  then show ?thesis using quiet_refl by blast
next
  case False
  obtain st where st: "sv_stores s sid = Some st" "session_reachable st" "log_ok st"
  proof -
    obtain t where "sv_threads s j = Some t" "t \<noteq> Gone" "sv_owner s j = Some sid"
      using sv_inv_active [OF assms(1,2)] by blast
    then show ?thesis using that sv_inv_job [OF assms(1)] inv_store [OF assms(1)] by blast
  qed
  define at where "at = Some (se_now V (sv_clock s))"
  define s2 where "s2 = set_job j (r\<lparr>jb_stop := True, jb_stop_at := at\<rparr>) (s\<lparr>sv_clock := Suc (sv_clock s)\<rparr>)"
  obtain s3 where s3: "log_in V sid ''execution_stop_requested'' [(''job_id'', JStr j),
      (''requested_at'', JStr (se_now V (sv_clock s)))] s2 = (Inr (), s3)"
    using log_in_run [of s2 sid st] st by (simp add: s2_def set_job_def)
  have q: "quiet s2 s3" by (rule quietD [OF quiet_log_in s3])
  have run: "res = Inr True \<and> s' = refuse_pending (r\<lparr>jb_stop := True, jb_stop_at := at\<rparr>)
      (set_job j (r\<lparr>jb_stop := True, jb_stop_at := at, jb_state := ''stopping''\<rparr>) s3)"
    using assms(4) False s3 q
    by (auto simp: stop_running_def seq_then_def bnd_def sup_tick_def s2_def at_def set_job_def quiet_def)
  have "quiet (stopped j r at s) s'"
    using q unfolding run [THEN conjunct2] by (auto simp: quiet_def sup_ops s2_def split: option.splits)
  with run show ?thesis by blast
qed

lemma inv_stop:
  assumes "sv_inv V s" and "stop_job V sid s = (r, s')"
  shows "sv_inv V s'"
proof (cases "active_job sid s")
  case None
  then have "stop_idle V sid s = (r, s')" using assms(2) by (simp add: stop_job_def)
  then show ?thesis using quietD [OF quiet_stop_idle] quiet_inv assms(1) by blast
next
  case (Some a)
  obtain j rec where a: "a = (j, rec)" by (cases a)
  with Some have j: "sv_active s sid = Some j" "sv_jobs s j = Some rec" by (auto simp: active_job_def split: option.splits)
  have "stop_running V sid j rec s = (r, s')" using assms(2) Some a by (simp add: stop_job_def)
  from stop_running_effect [OF assms(1) j this] show ?thesis
    using inv_stopped [OF assms(1) j] quiet_inv by blast
qed

lemma resolve_effect:
  assumes "resolve_approval sid a allow s = (r, s')"
  shows "s' = s \<or> (\<exists>j rec p. sv_active s sid = Some j \<and> sv_jobs s j = Some rec \<and> sv_approvals s a = Some p \<and> pa_job p = j
      \<and> \<not> jb_stop rec \<and> s' = s\<lparr>sv_approvals := (sv_approvals s)(a \<mapsto> p\<lparr>pa_decision := Some allow\<rparr>)\<rparr>)"
  using assms by (auto simp: resolve_approval_def bnd_def active_job_def split: option.splits if_splits)

lemma inv_resolve:
  assumes "sv_inv V s" and "resolve_approval sid a allow s = (r, s')"
  shows "sv_inv V s'"
  using resolve_effect [OF assms(2)]
proof (elim disjE exE conjE)
  fix j rec p assume p: "sv_jobs s j = Some rec" "sv_approvals s a = Some p" "pa_job p = j" "\<not> jb_stop rec"
    and s': "s' = s\<lparr>sv_approvals := (sv_approvals s)(a \<mapsto> p\<lparr>pa_decision := Some allow\<rparr>)\<rparr>"
  show ?thesis
  proof (rule inv_same_threads [OF assms(1)])
    show "job_ok s' i u" if "job_ok s i u" for i u
      using that p unfolding s' by (auto simp: job_ok_def split: option.splits)
    show "fresh_from V s'" using assms(1) p unfolding s' by (auto simp: sv_inv_def fresh_from_def)
    show "\<exists>q. sv_approvals s b = Some q \<and> pa_job q = pa_job p'" if "sv_approvals s' b = Some p'" for b p'
      using that p unfolding s' by (auto split: if_splits)
  qed (simp_all add: s')
qed (use assms(1) in simp)

lemma begin_await_effect:
  assumes "sv_inv V s" and "sv_threads s j = Some Working" and "begin_await V j kind summary s = (r, s')"
  obtains "r = Inr (Some False)" "quiet s s'"
  | sid rec s1 where "sv_jobs s j = Some rec" "sv_owner s j = Some sid" "\<not> jb_stop rec"
      "s1 = s\<lparr>sv_clock := Suc (sv_clock s)\<rparr>" "quiet (asking sid j rec (se_uuid V (sv_clock s)) kind summary s1) s'"
proof -
  obtain sid rec where j: "sv_owner s j = Some sid" "sv_active s sid = Some j" "sv_jobs s j = Some rec"
    using sv_inv_job [OF assms(1,2)] by (auto elim: job_okE)
  define s1 where "s1 = s\<lparr>sv_clock := Suc (sv_clock s)\<rparr>"
  show ?thesis
  proof (cases "jb_stop rec")
    case True
    then have "r = Inr (Some False)" "s' = s1" using assms(3) j
      by (simp_all add: begin_await_def bnd_def sup_tick_def owner_of_def s1_def Let_def)
    then show ?thesis using that(1) by (simp add: s1_def quiet_def)
  next
    case False
    define s2 where "s2 = asking sid j rec (se_uuid V (sv_clock s)) kind summary s1"
    define p where "p = [(''approval_id'', JStr (se_uuid V (sv_clock s))), (''job_id'', JStr j),
              (''kind'', JStr kind), (''summary'', JObj summary)]"
    obtain c s3 where c: "log_in V sid ''approval_requested'' p s2 = (c, s3)"
      by (cases "log_in V sid ''approval_requested'' p s2")
    have "s' = s3" using assms(3) j False c
      by (cases c) (auto simp: begin_await_def seq_then_def bnd_def sup_tick_def owner_of_def s1_def s2_def asking_def p_def Let_def)
    then show ?thesis using that(2) [OF j(3,1) False s1_def] quietD [OF quiet_log_in c] by (simp add: s2_def)
  qed
qed

lemma inv_ask:
  assumes "inj (se_uuid V)" and "sv_inv V s" and "sv_threads s j = Some Working"
    and "begin_await V j kind summary s = (r, s')"
  shows "sv_inv V s'"
  using assms(2-4)
proof (cases rule: begin_await_effect)
  case 1
  then show ?thesis using quiet_inv assms(2) by blast
next
  case (2 sid rec s1)
  have "sv_inv V (asking sid j rec (se_uuid V (sv_clock s)) kind summary s1)"
  proof (rule inv_asking)
    show "sv_inv V s1" unfolding 2 by (rule sv_inv_tick [OF assms(2)])
    show "sv_approvals s1 (se_uuid V (sv_clock s)) = None"
      using assms(2) by (simp add: 2 sv_inv_def fresh_from_def)
    show "\<forall>n\<ge>sv_clock s1. se_uuid V n \<noteq> se_uuid V (sv_clock s)"
      using assms(1) by (auto simp: 2 dest: injD)
  qed (use 2 assms(3) in simp_all)
  then show ?thesis using quiet_inv [OF 2(5)] by blast
qed


lemma end_await_effect:
  assumes "sv_inv V s" and "sv_threads s j = Some (Waiting a)" and "end_await V j a s = (res, s')"
  obtains sid r p where "sv_jobs s j = Some r" "sv_owner s j = Some sid" "sv_approvals s a = Some p"
    "res = Inr (pa_decision p = Some True \<and> \<not> jb_stop r)" "quiet (answered j r a s) s'"
    "s' = snd (log_in V sid ''approval_decision'' [(''approval_id'', JStr a), (''job_id'', JStr j),
       (''allowed'', JBool (pa_decision p = Some True \<and> \<not> jb_stop r)), (''aborted'', JBool (jb_stop r))] (answered j r a s))"
proof -
  have ok: "job_ok s j (Waiting a)" using sv_inv_job [OF assms(1,2)] by simp
  then obtain sid r p where j: "sv_jobs s j = Some r" "sv_owner s j = Some sid" "sv_approvals s a = Some p"
    by (auto simp: job_ok_def split: option.splits)
  obtain st where st: "sv_stores s sid = Some st" "log_ok st"
    using inv_store [OF assms(1) ok j(2)] by blast
  define p' where "p' = [(''approval_id'', JStr a), (''job_id'', JStr j),
       (''allowed'', JBool (pa_decision p = Some True \<and> \<not> jb_stop r)), (''aborted'', JBool (jb_stop r))]"
  obtain s2 where s2: "log_in V sid ''approval_decision'' p' (answered j r a s) = (Inr (), s2)"
    using log_in_run [of "answered j r a s" sid st] st by (simp add: sup_ops)
  have "res = Inr (pa_decision p = Some True \<and> \<not> jb_stop r) \<and> s' = s2"
    using assms(3) j s2 unfolding p'_def answered_def
    by (simp add: end_await_def seq_then_def bnd_def owner_of_def Let_def)
  moreover have "quiet (answered j r a s) s2" by (rule quietD [OF quiet_log_in s2])
  ultimately show ?thesis using that [OF j] s2 by (simp add: p'_def)
qed

lemma inv_answer:
  assumes "sv_inv V s" and "sv_threads s j = Some (Waiting a)" and "end_await V j a s = (res, s')"
  shows "sv_inv V s'"
  using assms
proof (cases rule: end_await_effect)
  case (1 sid r p)
  show ?thesis using quiet_inv [OF 1(5) inv_answered [OF assms(1,2) 1(1)]] .
qed

lemma fail_job_effect:
  assumes "fail_job V N j e s = (r, s')"
  obtains s1 where "quiet s s1" "s' = set_thread j Finishing s1"
proof -
  define m where "m = bnd (in_session (owner_of j s) read_events) (\<lambda>es.
         if turn_open es then log_in V (owner_of j s) ''turn_terminated'' [(''reason'', JStr ''runtime_error''),
           (''message'', JStr ''The model or CodeAgent Runtime failed before producing a final response.''),
           (''error_type'', JStr (N e))] else ret ())"
  have q: "preserves (quiet s) m" unfolding m_def by (intro quiet_intros)
  obtain c s1 where c: "m s = (c, s1)" by (cases "m s")
  have "s' = set_thread j Finishing s1"
    using assms c by (simp add: fail_job_def m_def)
  then show ?thesis using that quietD [OF q c] by blast
qed

lemma finish_job_run:
  assumes "sv_owner s j = Some sid" and "sv_jobs s j = Some r"
  shows "finish_job V j s = (case (if jb_stop r then acknowledge_stop V sid j r else ret ()) s of
      (Inl e, s') \<Rightarrow> (Inl e, set_thread j Dead s')
    | (Inr u, s') \<Rightarrow> (Inr (), set_thread j Gone
        (if sv_active s' sid = Some j then s'\<lparr>sv_active := (sv_active s')(sid := None)\<rparr> else s')))"
proof -
  have own: "owner_of j s = sid" using assms by (simp add: owner_of_def)
  show ?thesis using assms(2) own by (auto simp: finish_job_def bnd_def split: prod.splits sum.splits)
qed

lemma finish_job_effect:
  assumes "sv_inv V s" and "sv_threads s j = Some Finishing" and "finish_job V j s = (res, s')"
  obtains sid r s1 where "sv_owner s j = Some sid" "sv_active s sid = Some j" "sv_jobs s j = Some r" "quiet s s1"
    "(if jb_stop r then acknowledge_stop V sid j r else ret ()) s = (res, s1)"
    "s' = (if isl res then set_thread j Dead s1 else set_thread j Gone (s1\<lparr>sv_active := (sv_active s1)(sid := None)\<rparr>))"
proof -
  obtain sid r where j: "sv_owner s j = Some sid" "sv_active s sid = Some j" "sv_jobs s j = Some r"
    using sv_inv_job [OF assms(1,2)] by (auto elim: job_okE)
  define m where "m = (if jb_stop r then acknowledge_stop V sid j r else ret ())"
  have q: "preserves (quiet s) m" unfolding m_def by (intro preserves_intros quiet_acknowledge)
  obtain c s1 where c: "m s = (c, s1)" by (cases "m s")
  have q1: "quiet s s1" using quietD [OF q c] .
  then have act: "sv_active s1 sid = Some j" using j by (simp add: quiet_def)
  have res: "res = c \<and> s' = (if isl res then set_thread j Dead s1 else set_thread j Gone (s1\<lparr>sv_active := (sv_active s1)(sid := None)\<rparr>))"
    using assms(3) c act unfolding finish_job_run [OF j(1,3)] m_def by (cases c) auto
  show ?thesis by (rule that [OF j q1]) (use c res in \<open>simp_all add: m_def\<close>)
qed

lemma inv_finish:
  assumes "sv_inv V s" and "sv_threads s j = Some Finishing" and "finish_job V j s = (res, s')"
  shows "sv_inv V s'"
  using assms
proof (cases rule: finish_job_effect)
  case (1 sid r s1)
  have s1: "sv_inv V s1" "sv_threads s1 j = Some Finishing" "sv_owner s1 j = Some sid"
    using quiet_inv [OF 1(4) assms(1)] 1 assms(2) by (simp_all add: quiet_def)
  show ?thesis using inv_set_thread [OF s1(1,2), of Dead] inv_gone [OF s1(1,2) _ _ s1(3)]
    unfolding 1(6) by (simp add: thread_pending_def)
qed

lemma inv_fail:
  assumes "sv_inv V s" and "sv_threads s j = Some Working" and "fail_job V N j e s = (r, s')"
  shows "sv_inv V s'"
  using assms(3)
proof (cases rule: fail_job_effect)
  case (1 s1)
  have "sv_threads s1 j = Some Working" using 1 assms(2) by (simp add: quiet_def)
  then show ?thesis unfolding 1(2)
    by (rule inv_set_thread [OF quiet_inv [OF 1(1) assms(1)]]) (simp_all add: thread_pending_def)
qed

lemma sv_step_inv:
  assumes "inj (se_uuid V)" and "sv_step V N s l s'" and "sv_inv V s"
  shows "sv_inv V s'"
  using assms(2)
proof cases
  case (complete j)
  then show ?thesis using inv_set_thread [OF assms(3) complete(3)] by (simp add: thread_pending_def)
qed (blast intro: inv_start [OF assms(1,3)] inv_stop [OF assms(3)] inv_resolve [OF assms(3)]
  inv_setup [OF assms(3)] inv_work [OF assms(3)] inv_ask [OF assms(1,3)] inv_answer [OF assms(3)]
  inv_fail [OF assms(3)] inv_finish [OF assms(3)])+

lemma sv_initial_inv: "sv_initial s \<Longrightarrow> sv_inv V s"
  by (auto simp: sv_initial_def sv_inv_def fresh_from_def)

lemma sv_run_inv:
  assumes "inj (se_uuid V)" and "sv_run V N tr s"
  shows "sv_inv V s"
  using assms(2) by induction (blast intro: sv_initial_inv sv_step_inv [OF assms(1)])+

end
