(* ===== verification/Supervisor_Traces.thy ===== *)
theory Supervisor_Traces
  imports Supervisor_Machine
begin

text \<open>
  What the product promises about executions: one worker per session, no approval without its
  client, every requested stop acknowledged; and how a failing set-up breaks the last promise.
\<close>

section \<open>What one step does to one thread\<close>

definition moves :: "string \<Rightarrow> label \<Rightarrow> bool" where
  "moves j l \<longleftrightarrow> l = Advance j \<or> (\<exists>a b. l = Answered j a b)"

definition stop_marked :: "supervisor \<Rightarrow> string \<Rightarrow> bool" where
  "stop_marked s j = (case sv_jobs s j of None \<Rightarrow> False | Some r \<Rightarrow> jb_stop r)"

inductive thread_move :: "bool \<Rightarrow> string \<Rightarrow> thread \<Rightarrow> label \<Rightarrow> thread \<Rightarrow> bool"
  for stopping :: bool and j :: string where
  same: "\<not> moves j l \<Longrightarrow> thread_move stopping j t l t"
| ready: "thread_move stopping j Setup (Advance j) Working"
| broken: "thread_move stopping j Setup (Advance j) Dead"
| asks: "\<not> stopping \<Longrightarrow> thread_move stopping j Working (Ask j) (Waiting a)"
| answers: "thread_move stopping j (Waiting a) (Answered j a b) Working"
| returns: "thread_move stopping j Working (Advance j) Finishing"
| leaves: "thread_move stopping j Finishing (Advance j) Gone"
| crashes: "thread_move stopping j Finishing (Advance j) Dead"

inductive_simps thread_move_Dead: "thread_move stopping j Dead l t"
inductive_cases thread_moveE: "thread_move stopping j t l t'"

lemma quiet_marked: "quiet s s' \<Longrightarrow> stop_marked s' j = stop_marked s j \<and> sv_threads s' j = sv_threads s j
    \<and> sv_owner s' j = sv_owner s j"
  by (simp add: quiet_def stop_marked_def)

lemma thread_step:
  assumes "sv_step V N s l s'" and "sv_inv V s" and "sv_threads s j = Some t"
  shows "\<exists>t'. sv_threads s' j = Some t' \<and> thread_move (stop_marked s j) j t l t' \<and> (stop_marked s j \<longrightarrow> stop_marked s' j)
    \<and> sv_owner s' j = sv_owner s j"
  using assms(1)
proof cases
  case (start sid msg cont inc r)
  have "\<not> moves j l" by (simp add: moves_def start)
  moreover have "sv_threads s' j = Some t \<and> stop_marked s' j = stop_marked s j \<and> sv_owner s' j = sv_owner s j"
    using start_job_cases [OF start(2)]
  proof (elim disjE exE conjE)
    fix s1 assume q: "quiet s s1" and s': "s' = s1\<lparr>sv_clock := Suc (sv_clock s1), sv_jobs := (sv_jobs s1)(se_uuid V (sv_clock s1) \<mapsto> new_record),
           sv_owner := (sv_owner s1)(se_uuid V (sv_clock s1) \<mapsto> sid), sv_active := (sv_active s1)(sid \<mapsto> se_uuid V (sv_clock s1)),
           sv_threads := (sv_threads s1)(se_uuid V (sv_clock s1) \<mapsto> Setup)\<rparr>"
    have "sv_threads s (se_uuid V (sv_clock s1)) = None"
      using assms(2) q by (auto simp: sv_inv_def fresh_from_def quiet_def)
    then have "j \<noteq> se_uuid V (sv_clock s1)" using assms(3) by auto
    then show ?thesis using q assms(3) by (simp add: s' quiet_def stop_marked_def)
  qed (use quiet_marked assms(3) in auto)
  ultimately show ?thesis by (auto intro: same)
next
  case (stop sid r)
  have "\<not> moves j l" by (simp add: moves_def stop)
  moreover have "sv_threads s' j = Some t \<and> (stop_marked s j \<longrightarrow> stop_marked s' j) \<and> sv_owner s' j = sv_owner s j"
  proof (cases "active_job sid s")
    case None
    then have "quiet s s'" using stop quietD [OF quiet_stop_idle] by (simp add: stop_job_def)
    then show ?thesis using quiet_marked assms(3) by simp
  next
    case (Some a)
    obtain i rec where a: "a = (i, rec)" by (cases a)
    with Some have i: "sv_active s sid = Some i" "sv_jobs s i = Some rec" by (auto simp: active_job_def split: option.splits)
    have "stop_running V sid i rec s = (r, s')" using stop Some a by (simp add: stop_job_def)
    then obtain at where "quiet (stopped i rec at s) s'" using stop_running_effect [OF assms(2) i] by blast
    from quiet_marked [OF this, of j] show ?thesis
      using assms(3) i by (auto simp: stop_marked_def sup_ops split: option.splits)
  qed
  ultimately show ?thesis by (auto intro: same)
next
  case (resolve sid a allow r)
  then have "\<not> moves j l" "sv_threads s' = sv_threads s" "sv_jobs s' = sv_jobs s" "sv_owner s' = sv_owner s"
    by (auto simp: moves_def resolve_approval_def bnd_def split: option.splits if_splits)
  then show ?thesis using assms(3) by (auto simp: stop_marked_def intro: same)
next
  case (work i sid st p r st')
  then show ?thesis using assms(3) by (auto simp: stop_marked_def moves_def intro: same)
next
  case (ask i kind summary r)
  have nm: "\<not> moves j l" by (simp add: moves_def ask)
  from assms(2) ask(2,3) show ?thesis
  proof (cases rule: begin_await_effect)
    case 1
    then show ?thesis using quiet_marked assms(3) nm by (auto intro: same)
  next
    case (2 sid rec s1)
    have "sv_threads s' i = Some (Waiting (se_uuid V (sv_clock s)))" "stop_marked s i = False" "sv_owner s' i = sv_owner s i"
      using quiet_marked [OF 2(5), of i] 2(1,3,4) by (simp_all add: sup_ops stop_marked_def)
    moreover have "i \<noteq> j \<Longrightarrow> sv_threads s' j = Some t \<and> stop_marked s' j = stop_marked s j \<and> sv_owner s' j = sv_owner s j"
      using quiet_marked [OF 2(5), of j] 2(4) assms(3) by (simp add: sup_ops stop_marked_def)
    ultimately show ?thesis using ask(1,2) assms(3) nm by (cases "i = j") (auto intro: same asks)
  qed
next
  case (answer i a allowed)
  from assms(2) answer(2,4) show ?thesis
  proof (cases rule: end_await_effect)
    case (1 sid r p)
    show ?thesis
    proof (cases "i = j")
      case True
      then show ?thesis using quiet_marked [OF 1(5), of j] 1(1) answer assms(3)
        by (auto simp: sup_ops stop_marked_def intro: answers)
    next
      case False
      then show ?thesis using quiet_marked [OF 1(5), of j] answer(1) assms(3)
        by (auto simp: sup_ops stop_marked_def moves_def intro: same)
    qed
  qed
next
  case (complete i)
  then show ?thesis using assms(3)
    by (cases "i = j") (auto simp: stop_marked_def moves_def set_thread_def intro: same returns)
next
  case (configure i r)
  obtain s1 t1 where q: "quiet s s1" and s': "s' = set_thread i t1 s1" and t1: "t1 \<in> {Working, Dead}"
    using setup_job_effect [OF configure(3)] by blast
  show ?thesis using quiet_marked [OF q, of j] configure(1,2) assms(3) t1
    by (cases "i = j") (auto simp: s' stop_marked_def moves_def set_thread_def intro: same ready broken)
next
  case (fail i e r)
  from fail(3) show ?thesis
  proof (cases rule: fail_job_effect)
    case (1 s1)
    then show ?thesis using quiet_marked [OF 1(1), of j] fail(1,2) assms(3)
      by (cases "i = j") (auto simp: stop_marked_def moves_def set_thread_def intro: same returns)
  qed
next
  case (finish i r)
  from assms(2) finish(2,3) show ?thesis
  proof (cases rule: finish_job_effect)
    case (1 sid rec s1)
    have "sv_threads s' = (sv_threads s1)(i \<mapsto> (if isl r then Dead else Gone)) \<and> sv_jobs s' = sv_jobs s1 \<and> sv_owner s' = sv_owner s1"
      unfolding 1(6) by (simp add: set_thread_def)
    then show ?thesis using quiet_marked [OF 1(4), of j] finish(1,2) assms(3)
      by (cases "i = j") (auto simp: stop_marked_def moves_def intro: same leaves crashes)
  qed
qed


section \<open>Approvals\<close>

lemma quiet_approvals: "quiet s s' \<Longrightarrow> sv_approvals s' = sv_approvals s"
  by (simp add: quiet_def)

lemma granted_step:
  assumes "sv_step V N s l s'" and "sv_inv V s" and "sv_approvals s' a = Some p" and "pa_decision p = Some True"
  shows "l = Resolve (pa_session p) a True \<or>
    (\<exists>q. sv_approvals s a = Some q \<and> pa_decision q = Some True \<and> pa_session q = pa_session p)"
  using assms(1)
proof cases
  case (start sid msg cont inc r)
  have "sv_approvals s' = sv_approvals s"
    using start_job_cases [OF start(2)] by (auto simp: quiet_def)
  then show ?thesis using assms(3,4) by auto
next
  case (stop sid r)
  show ?thesis
  proof (cases "active_job sid s")
    case None
    then have "quiet s s'" using stop quietD [OF quiet_stop_idle] by (simp add: stop_job_def)
    from quiet_approvals [OF this] show ?thesis using assms(3,4) by auto
  next
    case (Some x)
    obtain i rec where x: "x = (i, rec)" by (cases x)
    with Some have i: "sv_active s sid = Some i" "sv_jobs s i = Some rec" by (auto simp: active_job_def split: option.splits)
    have "stop_running V sid i rec s = (r, s')" using stop Some x by (simp add: stop_job_def)
    then obtain at where "quiet (stopped i rec at s) s'" using stop_running_effect [OF assms(2) i] by blast
    from quiet_approvals [OF this] show ?thesis
      using assms(3,4) by (auto simp: sup_ops split: option.splits if_splits)
  qed
next
  case (resolve sid b allow r)
  from resolve_effect [OF resolve(2)] show ?thesis
  proof (elim disjE exE conjE)
    fix j rec q assume j: "sv_active s sid = Some j" "sv_jobs s j = Some rec" "sv_approvals s b = Some q" "pa_job q = j"
      and s': "s' = s\<lparr>sv_approvals := (sv_approvals s)(b \<mapsto> q\<lparr>pa_decision := Some allow\<rparr>)\<rparr>"
    have "sv_threads s j = Some (Waiting b)" using assms(2) j(3,4) by (auto simp: sv_inv_def)
    from sv_inv_job [OF assms(2) this] have "pa_session q = sid"
      using j sv_inv_active [OF assms(2) j(1)] by (auto simp: job_ok_def split: option.splits)
    then show ?thesis using assms(3,4) resolve(1) unfolding s' by (auto split: if_splits)
  qed (use assms(3,4) in auto)
next
  case (work i sid st q r st')
  then show ?thesis using assms(3,4) by auto
next
  case (ask i kind summary r)
  from assms(2) ask(2,3) show ?thesis
  proof (cases rule: begin_await_effect)
    case 1
    from quiet_approvals [OF 1(2)] show ?thesis using assms(3,4) by auto
  next
    case (2 sid rec s1)
    from quiet_approvals [OF 2(5)] show ?thesis
      using assms(3,4) 2(4) by (auto simp: sup_ops split: if_splits)
  qed
next
  case (answer i b allowed)
  from assms(2) answer(2,4) show ?thesis
  proof (cases rule: end_await_effect)
    case (1 sid r q)
    from quiet_approvals [OF 1(5)] show ?thesis using assms(3,4) by (auto simp: sup_ops split: if_splits)
  qed
next
  case (complete i)
  then show ?thesis using assms(3,4) by (auto simp: set_thread_def)
next
  case (configure i r)
  obtain s1 t1 where s1: "quiet s s1" "s' = set_thread i t1 s1" using setup_job_effect [OF configure(3)] by blast
  from quiet_approvals [OF s1(1)] show ?thesis using assms(3,4) by (auto simp: s1(2) set_thread_def)
next
  case (fail i e r)
  obtain s1 where s1: "quiet s s1" "s' = set_thread i Finishing s1" using fail_job_effect [OF fail(3)] .
  from quiet_approvals [OF s1(1)] show ?thesis using assms(3,4) by (auto simp: s1(2) set_thread_def)
next
  case (finish i r)
  from assms(2) finish(2,3) show ?thesis
  proof (cases rule: finish_job_effect)
    case (1 sid rec s1)
    from quiet_approvals [OF 1(4)] show ?thesis using assms(3,4) 1(6) by (auto simp: set_thread_def split: if_splits)
  qed
qed

lemma granted_run:
  assumes "inj (se_uuid V)" and "sv_run V N tr s"
  shows "sv_approvals s a = Some p \<Longrightarrow> pa_decision p = Some True \<Longrightarrow> Resolve (pa_session p) a True \<in> set tr"
  using assms(2)
proof (induction arbitrary: p)
  case (initial s)
  then show ?case by (simp add: sv_initial_def)
next
  case (onward tr s l s')
  then show ?case using granted_step [OF onward(2) sv_run_inv [OF assms(1) onward(1)] onward(4,5)] by auto
qed

section \<open>Stopping\<close>

definition rank :: "thread \<Rightarrow> nat" where
  "rank t = (case t of Setup \<Rightarrow> 4 | Waiting a \<Rightarrow> 3 | Working \<Rightarrow> 2 | Finishing \<Rightarrow> 1 | Gone \<Rightarrow> 0 | Dead \<Rightarrow> 0)"

text \<open>While a stop is requested, a thread that lives on only comes closer to its end.\<close>

lemma move_rank:
  "thread_move True j t l t' \<Longrightarrow> t' \<noteq> Dead \<Longrightarrow> t \<noteq> Gone \<Longrightarrow>
     (moves j l \<longrightarrow> rank t' < rank t) \<and> (\<not> moves j l \<longrightarrow> t' = t) \<and> (t' = Gone \<longrightarrow> l = Advance j \<and> t = Finishing)"
  by (cases rule: thread_move.cases) (auto simp: rank_def moves_def)

definition acknowledged :: "string \<Rightarrow> store \<Rightarrow> bool" where
  "acknowledged j st \<longleftrightarrow> (\<exists>e \<in> set (st_events st). ev_type e = ''execution_stop_acknowledged'' \<and> dget (ev_payload e) ''job_id'' = JStr j)"

definition turn_closed :: "store \<Rightarrow> bool" where
  "turn_closed st \<longleftrightarrow> (case fst (store_turn_budget st) of Inl e \<Rightarrow> False | Inr b \<Rightarrow> tb_closed b)"

lemma budget_closed_snoc:
  assumes "current_turn_budget es d = Inr b" and "\<not> is_user e"
    and "ev_type e \<notin> {''turn_budget_exhausted'', ''turn_budget_increased''}"
  shows "\<exists>b'. current_turn_budget (es @ [e]) d = Inr b' \<and> (tb_closed b' \<longleftrightarrow> tb_closed b \<or> closes_turn e)"
proof (cases "last_turn es")
  case Nil
  with assms show ?thesis by (auto simp: current_turn_budget_def last_turn_append_other)
next
  case (Cons first rest)
  obtain l0 l where l0: "py_int (dget_or (ev_payload first) ''max_model_steps_per_user_turn'' (JInt d)) = Inr l0"
      "rfold limit_step l0 (first # rest) = Inr l" "tb_closed b = list_ex closes_turn (first # rest)"
    using assms(1) Cons by (auto simp: current_turn_budget_def result_simps Let_def)
  have "last_turn (es @ [e]) = first # (rest @ [e])" using Cons assms(2) by (simp add: last_turn_append_other)
  moreover have "rfold limit_step l0 (first # (rest @ [e])) = Inr l"
    using rfold_append [of limit_step l0 "first # rest" "[e]"] assms(3) l0(2) by (simp add: limit_step_def)
  ultimately show ?thesis using l0 by (simp add: current_turn_budget_def Let_def)
qed

lemma turn_closed_with_event:
  assumes "log_ok st" and "store_turn_budget st = (Inr b, st)" and "tb_closed b \<or> ty = ''turn_terminated''"
    and "ty \<notin> {''user_message'', ''turn_budget_exhausted'', ''turn_budget_increased''}"
  shows "\<exists>b'. store_turn_budget (with_event now ty p st) = (Inr b', with_event now ty p st) \<and> tb_closed b'"
proof -
  obtain d where d: "default_limit st = Inr d" "current_turn_budget (st_events st) d = Inr b"
  proof -
    have "rbind (default_limit st) (current_turn_budget (st_events st)) = Inr b"
      using assms(2) unfolding store_turn_budget_run [OF assms(1)] by simp
    then show ?thesis using that by (auto simp: result_simps)
  qed
  define e where "e = new_event now ty p st"
  have ty: "ev_type e = ty" by (simp add: e_def)
  obtain b' where b': "current_turn_budget (st_events st @ [e]) d = Inr b'" "tb_closed b' \<longleftrightarrow> tb_closed b \<or> closes_turn e"
    using budget_closed_snoc [OF d(2), of e] assms(4) unfolding ty by blast
  moreover have "tb_closed b \<or> closes_turn e" using assms(3) unfolding closes_turn_def ty by blast
  moreover have "store_turn_budget (with_event now ty p st) =
      (rbind (default_limit st) (current_turn_budget (st_events st @ [e])), with_event now ty p st)"
    using store_turn_budget_run [OF with_event_ok [OF assms(1)]] by (simp add: e_def)
  ultimately show ?thesis using d(1) by simp
qed


lemma turn_closedI: "store_turn_budget st = (Inr b, st) \<Longrightarrow> tb_closed b \<Longrightarrow> turn_closed st"
  by (simp add: turn_closed_def)

lemma acknowledge_stop_effect:
  assumes "sv_stores s sid = Some st" and "log_ok st" and "acknowledge_stop V sid j r s = (Inr u, s')"
  shows "\<exists>st'. sv_stores s' sid = Some st' \<and> acknowledged j st' \<and> turn_closed st'"
proof -
  obtain b where b: "store_turn_budget st = (Inr b, st)"
  proof (cases "fst (store_turn_budget st)")
    case (Inl e)
    then have "store_turn_budget st = (Inl e, st)" using store_turn_budget_run [OF assms(2)] by simp
    with assms(1,3) have False by (simp add: acknowledge_stop_def in_session_def bnd_def)
    then show ?thesis ..
  next
    case (Inr b)
    then have "store_turn_budget st = (Inr b, st)" using store_turn_budget_run [OF assms(2)] by simp
    then show ?thesis by (rule that)
  qed
  have s0: "in_session sid store_turn_budget s = (Inr b, s\<lparr>sv_stores := (sv_stores s)(sid \<mapsto> st)\<rparr>)"
    using assms(1) b by (simp add: in_session_def)
  define ended where "ended = (\<lambda>now. with_event now ''turn_terminated'' [(''reason'', JStr ''user_stop''), (''message'', JStr ''stop requested'')] st)"
  define pay where "pay = (\<lambda>now. [(''job_id'', JStr j), (''requested_at'', opt_str (jb_stop_at r)),
        (''acknowledged_at'', JStr now), (''boundary'', JStr ''between_model_or_tool_steps'')])"
  obtain st0 b0 now now' where st0: "log_ok st0" "store_turn_budget st0 = (Inr b0, st0)" "tb_closed b0"
      "sv_stores s' sid = Some (with_event now ''execution_stop_acknowledged'' (pay now') st0)"
  proof (cases "tb_closed b")
    case True
    have "sv_stores s' sid = Some (with_event (se_now V (Suc (sv_clock s))) ''execution_stop_acknowledged'' (pay (se_now V (sv_clock s))) st)"
      using assms(3) s0 True log_in_run [of _ sid st, OF _ assms(2)]
      by (auto simp: acknowledge_stop_def bnd_def seq_then_def sup_tick_def pay_def)
    then show ?thesis using that [OF assms(2) b True] by blast
  next
    case False
    let ?t = "ended (se_now V (sv_clock s))"
    obtain b0 where b0: "store_turn_budget ?t = (Inr b0, ?t)" "tb_closed b0"
      using turn_closed_with_event [OF assms(2) b] unfolding ended_def by blast
    have ok: "log_ok ?t" unfolding ended_def by (rule with_event_ok [OF assms(2)])
    have "sv_stores s' sid = Some (with_event (se_now V (Suc (Suc (sv_clock s)))) ''execution_stop_acknowledged''
        (pay (se_now V (Suc (sv_clock s)))) ?t)"
      using assms(3) s0 False log_in_run [of _ sid st, OF _ assms(2)] log_in_run [of _ sid ?t, OF _ ok]
      by (auto simp: acknowledge_stop_def bnd_def seq_then_def sup_tick_def pay_def ended_def)
    then show ?thesis using that [OF ok b0] by blast
  qed
  let ?s = "with_event now ''execution_stop_acknowledged'' (pay now') st0"
  have "turn_closed ?s"
    using turn_closed_with_event [OF st0(1,2), of "''execution_stop_acknowledged''"] st0(3) turn_closedI by blast
  moreover have "acknowledged j ?s" by (simp add: acknowledged_def pay_def dget_or_def)
  ultimately show ?thesis using st0(4) by blast
qed

lemma finish_acknowledges:
  assumes "sv_inv V s" and "sv_threads s j = Some Finishing" and "stop_marked s j" and "sv_owner s j = Some sid"
    and "sv_step V N s (Advance j) s'" and "sv_threads s' j = Some Gone"
  shows "execution_state sid s' = ''idle'' \<and> (\<exists>st. sv_stores s' sid = Some st \<and> acknowledged j st \<and> turn_closed st)"
proof -
  obtain res where fin: "finish_job V j s = (res, s')"
    using assms(5) assms(2) by (cases rule: sv_step.cases) auto
  from assms(1,2) fin show ?thesis
  proof (cases rule: finish_job_effect)
    case (1 sid' r s1)
    have sid: "sid' = sid" and stop: "jb_stop r" using 1(1,3) assms(3,4) by (simp_all add: stop_marked_def)
    have gone: "\<not> isl res" using assms(6) 1(6) by (auto simp: set_thread_def)
    then obtain u where ack: "acknowledge_stop V sid j r s = (Inr u, s1)"
      using 1(5) stop sid by (cases res) auto
    obtain st where "sv_stores s sid = Some st" "log_ok st"
      using inv_store [OF assms(1) sv_inv_job [OF assms(1,2)] assms(4)] by blast
    from acknowledge_stop_effect [OF this ack] gone show ?thesis
      unfolding 1(6) sid by (auto simp: set_thread_def execution_state_def active_job_def)
  qed
qed

section \<open>Infinite runs\<close>

text \<open>
  A schedule, in which job \<open>j\<close> keeps being scheduled: again and again it returns from a wait or
  leaves a phase, until it is gone. That the runner returns after a bounded number of model steps
  is shown of the runner.
\<close>

definition schedule :: "supervisor_env \<Rightarrow> (exn \<Rightarrow> string) \<Rightarrow> string \<Rightarrow> (nat \<Rightarrow> supervisor) \<Rightarrow> (nat \<Rightarrow> label) \<Rightarrow> bool" where
  "schedule V N j s l \<longleftrightarrow> sv_initial (s 0) \<and> (\<forall>n. sv_step V N (s n) (l n) (s (Suc n)))
     \<and> (\<forall>n. \<exists>m\<ge>n. sv_threads (s m) j = Some Gone \<or> moves j (l m))"

lemma schedule_inv: "inj (se_uuid V) \<Longrightarrow> schedule V N j s l \<Longrightarrow> sv_inv V (s n)"
  by (induction n) (auto simp: schedule_def intro: sv_initial_inv sv_step_inv)

lemma first_change: "P n \<Longrightarrow> \<not> P (n + d) \<Longrightarrow> \<exists>k\<ge>n. k < n + d \<and> P k \<and> \<not> P (Suc k)"
proof (induction d)
  case (Suc d)
  then show ?case by (cases "P (n + d)") (auto intro: exI [of _ "n + d"] less_SucI)
qed simp


text \<open>A live thread under a stop reaches its end.\<close>

lemma stopped_thread_goes:
  assumes "inj (se_uuid V)" and "schedule V N j s l" and "\<forall>m. sv_threads (s m) j \<noteq> Some Dead"
    and "sv_threads (s n) j = Some t" and "t \<noteq> Gone" and "stop_marked (s n) j" and "sv_owner (s n) j = Some sid"
  shows "\<exists>m\<ge>n. sv_threads (s m) j = Some Finishing \<and> sv_threads (s (Suc m)) j = Some Gone \<and> l m = Advance j
    \<and> stop_marked (s m) j \<and> sv_owner (s m) j = Some sid"
  using assms(4-7)
proof (induction "rank t" arbitrary: t n rule: less_induct)
  case less
  define live where "live = (\<lambda>m. sv_threads (s m) j = Some t \<and> stop_marked (s m) j \<and> sv_owner (s m) j = Some sid)"
  obtain m where m: "n \<le> m" "sv_threads (s m) j = Some Gone \<or> moves j (l m)"
    using assms(2) unfolding schedule_def by blast
  have step: "\<exists>t'. sv_threads (s (Suc k)) j = Some t' \<and> (moves j (l k) \<longrightarrow> rank t' < rank t) \<and> (\<not> moves j (l k) \<longrightarrow> t' = t)
      \<and> (t' = Gone \<longrightarrow> l k = Advance j \<and> t = Finishing) \<and> stop_marked (s (Suc k)) j \<and> sv_owner (s (Suc k)) j = Some sid"
    if "live k" for k
  proof -
    have "sv_step V N (s k) (l k) (s (Suc k))" using assms(2) by (simp add: schedule_def)
    from thread_step [OF this schedule_inv [OF assms(1,2)], of j t] that obtain t' where
      t': "sv_threads (s (Suc k)) j = Some t'" "thread_move True j t (l k) t'" "stop_marked (s (Suc k)) j"
        "sv_owner (s (Suc k)) j = Some sid"
      by (auto simp: live_def)
    then show ?thesis using move_rank [OF t'(2)] assms(3) less.prems(2) by (metis option.inject)
  qed
  have "\<exists>k\<ge>n. live k \<and> \<not> live (Suc k)"
  proof (cases "live (Suc m)")
    case True
    then have "\<not> live m \<or> \<not> moves j (l m)" using step [of m] by (auto simp: live_def)
    moreover have "\<not> live m" if "\<not> moves j (l m)" using that m(2) less.prems(2) by (auto simp: live_def)
    ultimately have "\<not> live (n + (m - n))" using m(1) by auto
    then show ?thesis using first_change [of live n "m - n"] less.prems by (auto simp: live_def)
  next
    case False
    then have "\<not> live (n + (Suc m - n))" using m(1) by (simp add: Suc_diff_le)
    then show ?thesis using first_change [of live n "Suc m - n"] less.prems by (auto simp: live_def)
  qed
  then obtain k where k: "n \<le> k" "live k" "\<not> live (Suc k)" by blast
  obtain t' where t': "sv_threads (s (Suc k)) j = Some t'" "stop_marked (s (Suc k)) j" "sv_owner (s (Suc k)) j = Some sid"
      "t' = Gone \<longrightarrow> l k = Advance j \<and> t = Finishing" "\<not> moves j (l k) \<longrightarrow> t' = t" "moves j (l k) \<longrightarrow> rank t' < rank t"
    using step [OF k(2)] by blast
  show ?case
  proof (cases "t' = Gone")
    case True
    then show ?thesis using k t' by (auto simp: live_def)
  next
    case False
    have "rank t' < rank t" using k(3) t' by (auto simp: live_def)
    from less.hyps [OF this t'(1) False t'(2,3)] show ?thesis using k(1) by (meson Suc_leD le_trans)
  qed
qed

end
