(* ===== verification/Supervisor_Properties.thy ===== *)
theory Supervisor_Properties
  imports Supervisor_Traces
begin

text \<open>The properties of the execution supervisor, with a session that runs, asks and is stopped.\<close>

section \<open>A supervised session\<close>

definition demo_supervisor_env :: supervisor_env where
  "demo_supervisor_env = \<lparr>se_uuid = (\<lambda>n. replicate n CHR ''j''), se_now = (\<lambda>n. ''t'')\<rparr>"

lemma demo_uuid_inj: "inj (se_uuid demo_supervisor_env)"
  by (auto simp: demo_supervisor_env_def intro!: injI dest: arg_cong [of _ _ length])

definition sup0 :: supervisor where
  "sup0 = \<lparr>sv_jobs = Map.empty, sv_owner = Map.empty, sv_active = Map.empty, sv_approvals = Map.empty,
     sv_threads = Map.empty, sv_stores = [''s1'' \<mapsto> demo_session], sv_clock = 1\<rparr>"

definition sup1 :: supervisor where
  "sup1 = snd (start_job demo_supervisor_env ''s1'' (Some ''go'') False None sup0)"

definition sup2 :: supervisor where
  "sup2 = snd (setup_job ''j'' sup1)"

definition sup3 :: supervisor where
  "sup3 = snd (begin_await demo_supervisor_env ''j'' ''tool'' [] sup2)"

lemma sup0_initial: "sv_initial sup0"
  by (simp add: sv_initial_def sup0_def demo_session_reachable)

lemma demo_session_ok: "log_ok demo_session"
  by (rule session_reachable_ok [OF demo_session_reachable])

lemma demo_session_budget:
  obtains b where "store_turn_budget demo_session = (Inr b, demo_session)" "tb_closed b"
proof -
  have "(case fst (store_turn_budget demo_session) of Inl e \<Rightarrow> False | Inr b \<Rightarrow> tb_closed b)"
    unfolding demo_session_def demo_created_def by code_simp
  moreover have "snd (store_turn_budget demo_session) = demo_session"
    by (simp add: store_turn_budget_run [OF demo_session_ok])
  ultimately show ?thesis by (cases "store_turn_budget demo_session") (auto intro: that split: sum.splits)
qed

lemma demo_session_setup:
  "(bnd read_events (\<lambda>es. bnd read_meta (\<lambda>meta. bnd (lift (job_config meta)) (\<lambda>c. workspace_state)))) demo_session
     = (Inr SourceOnly, demo_session)"
proof -
  have "(case job_config (st_meta demo_session) of Inl e \<Rightarrow> False | Inr c \<Rightarrow> True)"
      "parse_ws (dget (st_meta demo_session) ''workspace_state'') = Some SourceOnly"
    unfolding demo_session_def demo_created_def by code_simp+
  then show ?thesis
    by (auto simp: bnd_def read_meta_ok [OF demo_session_ok] workspace_state_run [OF demo_session_ok] split: sum.splits)
qed

lemma sup1_eq: "sup1 = \<lparr>sv_jobs = [''j'' \<mapsto> new_record], sv_owner = [''j'' \<mapsto> ''s1''], sv_active = [''s1'' \<mapsto> ''j''],
    sv_approvals = Map.empty, sv_threads = [''j'' \<mapsto> Setup], sv_stores = [''s1'' \<mapsto> demo_session], sv_clock = 2\<rparr>"
proof -
  obtain b where "store_turn_budget demo_session = (Inr b, demo_session)" "tb_closed b" by (rule demo_session_budget)
  then show ?thesis
    by (simp add: sup1_def sup0_def start_job_def check_start_def bnd_def seq_then_def in_session_def sup_tick_def
        demo_supervisor_env_def Let_def)
qed

lemma sup2_eq: "sup2 = sup1\<lparr>sv_threads := [''j'' \<mapsto> Working]\<rparr>"
proof -
  have "in_session ''s1'' (bnd read_events (\<lambda>es. bnd read_meta (\<lambda>meta. bnd (lift (job_config meta)) (\<lambda>c. workspace_state)))) sup1
      = (Inr SourceOnly, sup1)"
    unfolding in_session_def by (simp add: sup1_eq demo_session_setup)
  then show ?thesis by (simp add: sup2_def setup_job_def owner_of_def bnd_def set_thread_def sup1_eq)
qed

lemma sup3_eq: "sup3 = \<lparr>sv_jobs = [''j'' \<mapsto> new_record\<lparr>jb_state := ''awaiting_approval'', jb_pending := Some ''jj''\<rparr>],
    sv_owner = [''j'' \<mapsto> ''s1''], sv_active = [''s1'' \<mapsto> ''j''],
    sv_approvals = [''jj'' \<mapsto> \<lparr>pa_session = ''s1'', pa_job = ''j'', pa_kind = ''tool'', pa_summary = [], pa_decision = None\<rparr>],
    sv_threads = [''j'' \<mapsto> Waiting ''jj''],
    sv_stores = [''s1'' \<mapsto> with_event ''t'' ''approval_requested'' [(''approval_id'', JStr ''jj''), (''job_id'', JStr ''j''),
              (''kind'', JStr ''tool''), (''summary'', JObj [])] demo_session], sv_clock = 4\<rparr>"
proof -
  have u: "se_uuid demo_supervisor_env 2 = ''jj''" "se_now demo_supervisor_env n = ''t''" for n
    by (simp_all add: demo_supervisor_env_def numeral_2_eq_2)
  show ?thesis
    using log_in_run [where s = "asking ''s1'' ''j'' new_record ''jj'' ''tool'' [] (sup2\<lparr>sv_clock := 3\<rparr>)" and sid = "''s1''", OF _ demo_session_ok]
    by (simp add: sup3_def begin_await_def bnd_def seq_then_def sup_tick_def Let_def owner_of_def sup2_eq sup1_eq u sup_ops
        new_record_def)
qed

lemma sup_threads:
  "sv_threads sup1 ''j'' = Some Setup" "sv_threads sup2 ''j'' = Some Working" "sv_threads sup3 ''j'' = Some (Waiting ''jj'')"
  by (simp_all add: sup1_eq sup2_eq sup3_eq)

lemma sup3_active: "sv_active sup3 ''s1'' = Some ''j''" "stop_marked sup3 ''j'' = False" "sv_owner sup3 ''j'' = Some ''s1''"
  by (simp_all add: sup3_eq stop_marked_def new_record_def)

lemma sup_steps:
  "sv_step demo_supervisor_env N sup0 (Start ''s1'') sup1"
  "sv_step demo_supervisor_env N sup1 (Advance ''j'') sup2"
  "sv_step demo_supervisor_env N sup2 (Ask ''j'') sup3"
proof -
  show "sv_step demo_supervisor_env N sup0 (Start ''s1'') sup1"
    by (rule sv_step.start [where msg = "Some ''go''" and cont = False and inc = None]) (simp add: sup1_def prod_eq_iff)
  show "sv_step demo_supervisor_env N sup1 (Advance ''j'') sup2"
    by (rule sv_step.configure [OF sup_threads(1)]) (simp add: sup2_def prod_eq_iff)
  show "sv_step demo_supervisor_env N sup2 (Ask ''j'') sup3"
    by (rule sv_step.ask [where kind = "''tool''" and summary = "[]", OF sup_threads(2)]) (simp add: sup3_def prod_eq_iff)
qed

lemma sup_run3: "sv_run demo_supervisor_env N [Start ''s1'', Advance ''j'', Ask ''j''] sup3"
  using sv_run.onward [OF sv_run.onward [OF sv_run.onward [OF sv_run.initial [OF sup0_initial] sup_steps(1)] sup_steps(2)] sup_steps(3)]
  by simp

section \<open>Properties\<close>

text \<open>
  C24. At every reachable state of the supervisor, however clients and workers interleave, two jobs of
  one session that have not ended are the same job: a session never has two workers on its log.
\<close>

theorem one_worker_per_session:
  assumes "inj (se_uuid V)" and "sv_run V N tr s"
    and "sv_threads s i = Some t" and "t \<noteq> Gone" and "sv_threads s j = Some u" and "u \<noteq> Gone"
    and "sv_owner s i = sv_owner s j"
  shows "i = j"
proof -
  have inv: "sv_inv V s" by (rule sv_run_inv [OF assms(1,2)])
  obtain sid where "sv_owner s i = Some sid" "sv_active s sid = Some i"
    using sv_inv_job [OF inv assms(3,4)] by (auto elim: job_okE)
  moreover obtain sid' where "sv_owner s j = Some sid'" "sv_active s sid' = Some j"
    using sv_inv_job [OF inv assms(5,6)] by (auto elim: job_okE)
  ultimately show ?thesis using assms(7) by simp
qed

theorem one_worker_per_session_witness:
  "{i. \<exists>t. sv_threads sup3 i = Some t \<and> t \<noteq> Gone \<and> sv_owner sup3 i = Some ''s1''} = {''j''}"
proof -
  have "i = ''j''" if "sv_threads sup3 i = Some t" "t \<noteq> Gone" "sv_owner sup3 i = Some ''s1''" for i t
    by (rule one_worker_per_session [OF demo_uuid_inj sup_run3 that(1,2) sup_threads(3)]) (use sup3_active(3) that in simp_all)
  moreover have "\<exists>t. sv_threads sup3 ''j'' = Some t \<and> t \<noteq> Gone \<and> sv_owner sup3 ''j'' = Some ''s1''"
    using sup_threads(3) sup3_active(3) by auto
  ultimately show ?thesis by blast
qed

text \<open>
  C25. What the product shows of a session is one of four execution states: idle without a job; with a
  stop requested stopping; awaiting approval exactly while its worker waits, and then the pending
  approval of that very job can be read; and running otherwise.
\<close>

theorem shown_state_is_typed:
  assumes "inj (se_uuid V)" and "sv_run V N tr s"
  shows "case sv_active s sid of
      None \<Rightarrow> execution_state sid s = ''idle'' \<and> pending_approval_view sid s = None
    | Some j \<Rightarrow> \<exists>t. sv_threads s j = Some t \<and> t \<noteq> Gone
        \<and> execution_state sid s = (if stop_marked s j then ''stopping'' else if thread_pending t \<noteq> None then ''awaiting_approval'' else ''running'')
        \<and> (case thread_pending t of None \<Rightarrow> pending_approval_view sid s = None
           | Some a \<Rightarrow> \<exists>v. pending_approval_view sid s = Some v \<and> dget v ''approvalId'' = JStr a \<and> dget v ''jobId'' = JStr j)"
proof (cases "sv_active s sid")
  case None
  then show ?thesis by (simp add: execution_state_def pending_approval_view_def active_job_def)
next
  case (Some j)
  have inv: "sv_inv V s" by (rule sv_run_inv [OF assms])
  obtain t where t: "sv_owner s j = Some sid" "sv_threads s j = Some t" "t \<noteq> Gone"
    using sv_inv_active [OF inv Some] by blast
  obtain r where r: "sv_jobs s j = Some r" "jb_state r = shown_state (jb_stop r) t" "jb_pending r = thread_pending t"
    and w: "\<forall>a. t = Waiting a \<longrightarrow> (\<exists>p. sv_approvals s a = Some p \<and> pa_job p = j)"
    using sv_inv_job [OF inv t(2,3)] t(1) by (fastforce simp: job_ok_def split: option.splits)
  have "thread_pending t = Some a \<Longrightarrow> t = Waiting a" for a by (cases t) (simp_all add: thread_pending_def)
  then have "case thread_pending t of None \<Rightarrow> pending_approval_view sid s = None
     | Some a \<Rightarrow> \<exists>v. pending_approval_view sid s = Some v \<and> dget v ''approvalId'' = JStr a \<and> dget v ''jobId'' = JStr j"
    using Some r w by (fastforce simp: pending_approval_view_def active_job_def dget_or_def split: option.splits)
  then show ?thesis using Some t r
    by (simp add: execution_state_def active_job_def stop_marked_def shown_state_def)
qed

theorem shown_state_is_typed_witness:
  "execution_state ''s1'' sup3 = ''awaiting_approval''"
proof -
  from shown_state_is_typed [OF demo_uuid_inj sup_run3, where sid = "''s1''"] show ?thesis
    using sup3_active sup_threads(3) by (simp add: thread_pending_def)
qed


text \<open>
  C23. A worker goes on with an approval only if a client of that very session granted that very
  request, no stop was requested of the job by then, and the log says so.
\<close>

theorem approval_needs_client:
  assumes "inj (se_uuid V)" and "sv_run V N tr s" and "sv_step V N s (Answered j a True) s'"
  shows "\<exists>sid st. sv_owner s j = Some sid \<and> Resolve sid a True \<in> set tr \<and> \<not> stop_marked s j
    \<and> sv_stores s' sid = Some st \<and> ev_type (last (st_events st)) = ''approval_decision''
    \<and> dget (ev_payload (last (st_events st))) ''allowed'' = JBool True"
proof -
  have inv: "sv_inv V s" by (rule sv_run_inv [OF assms(1,2)])
  have w: "sv_threads s j = Some (Waiting a)" and e: "end_await V j a s = (Inr True, s')"
    using assms(3) by (cases rule: sv_step.cases; simp)+
  from inv w e show ?thesis
  proof (cases rule: end_await_effect)
    case (1 sid r p)
    have ok: "job_ok s j (Waiting a)" using sv_inv_job [OF inv w] by simp
    obtain st where st: "sv_stores s sid = Some st" "log_ok st" using inv_store [OF inv ok 1(2)] by blast
    have "pa_session p = sid" using ok 1(2,3) by (auto simp: job_ok_def split: option.splits)
    then have "Resolve sid a True \<in> set tr" using granted_run [OF assms(1,2) 1(3)] 1(4) by simp
    moreover have "sv_stores (answered j r a s) sid = Some st" using st by (simp add: sup_ops)
    from log_in_run [OF this st(2)] have "sv_stores s' sid = Some (with_event (se_now V (sv_clock (answered j r a s)))
        ''approval_decision'' [(''approval_id'', JStr a), (''job_id'', JStr j),
       (''allowed'', JBool (pa_decision p = Some True \<and> \<not> jb_stop r)), (''aborted'', JBool (jb_stop r))] st)"
      unfolding 1(6) by simp
    ultimately show ?thesis using 1(1,2,4) by (simp add: stop_marked_def dget_or_def)
  qed
qed

definition sup4 :: supervisor where
  "sup4 = snd (resolve_approval ''s1'' ''jj'' True sup3)"

definition sup5 :: supervisor where
  "sup5 = snd (end_await demo_supervisor_env ''j'' ''jj'' sup4)"

lemma sup3_waiting:
  obtains r p where "sv_jobs sup3 ''j'' = Some r" "\<not> jb_stop r" "sv_owner sup3 ''j'' = Some ''s1''"
    "sv_approvals sup3 ''jj'' = Some p" "pa_job p = ''j''"
proof -
  have inv: "sv_inv demo_supervisor_env sup3" by (rule sv_run_inv [OF demo_uuid_inj sup_run3])
  have "sv_owner sup3 ''j'' = Some ''s1''" using sv_inv_active [OF inv sup3_active(1)] by simp
  with sv_inv_job [OF inv sup_threads(3)] sup3_active(2) show ?thesis
    by (auto simp: job_ok_def stop_marked_def split: option.splits intro: that)
qed

theorem approval_needs_client_witness:
  "sv_run demo_supervisor_env exn_code [Start ''s1'', Advance ''j'', Ask ''j'', Resolve ''s1'' ''jj'' True] sup4
    \<and> (\<exists>st. sv_stores sup5 ''s1'' = Some st \<and> dget (ev_payload (last (st_events st))) ''allowed'' = JBool True)"
proof -
  have run: "sv_run demo_supervisor_env exn_code ([Start ''s1'', Advance ''j'', Ask ''j''] @ [Resolve ''s1'' ''jj'' True]) sup4"
    by (rule sv_run.onward [OF sup_run3], rule sv_step.resolve) (simp add: sup4_def prod_eq_iff)
  obtain r p where w: "sv_jobs sup3 ''j'' = Some r" "\<not> jb_stop r" "sv_owner sup3 ''j'' = Some ''s1''"
      "sv_approvals sup3 ''jj'' = Some p" "pa_job p = ''j''" by (rule sup3_waiting)
  have s4: "sup4 = sup3\<lparr>sv_approvals := (sv_approvals sup3)(''jj'' \<mapsto> p\<lparr>pa_decision := Some True\<rparr>)\<rparr>"
    using w sup3_active(1) by (simp add: sup4_def resolve_approval_def active_job_def)
  have f: "sv_threads sup4 ''j'' = Some (Waiting ''jj'')" "\<not> must_wait ''j'' ''jj'' sup4" "sv_owner sup4 ''j'' = Some ''s1''"
    using w sup_threads(3) by (simp_all add: s4 must_wait_def)
  obtain res where res: "end_await demo_supervisor_env ''j'' ''jj'' sup4 = (res, sup5)"
    by (simp add: sup5_def prod_eq_iff)
  have inv4: "sv_inv demo_supervisor_env sup4" by (rule sv_run_inv [OF demo_uuid_inj run])
  have "res = Inr True" by (rule end_await_effect [OF inv4 f(1) res]) (use w in \<open>auto simp: s4\<close>)
  then have "sv_step demo_supervisor_env exn_code sup4 (Answered ''j'' ''jj'' True) sup5"
    using sv_step.answer [OF f(1,2)] res by simp
  from approval_needs_client [OF demo_uuid_inj run this] f(3) run show ?thesis by auto
qed






















section \<open>A broken set-up\<close>








end
