(* ===== verification/Product_Approvals.thy ===== *)
theory Product_Approvals
  imports Execution_Supervisor Agent_Tools Sandbox_Policy
begin

text \<open>
  What the product shows a user who is asked to approve: the requests of
  \<^verbatim>\<open>ProductApprovalGate\<close> in \<^verbatim>\<open>product/execution.py\<close>, with arguments cut to a bounded size.
\<close>

section \<open>Bounded arguments\<close>

definition hidden_arguments :: "string set" where
  "hidden_arguments = {''content'', ''expected_sha256''}"

function (sequential) bounded_value :: "json \<Rightarrow> json" where
  "bounded_value (JObj d) = JObj (map (\<lambda>(k, v). (k, bounded_value v)) (filter (\<lambda>(k, v). k \<notin> hidden_arguments) (take 20 d)))"
| "bounded_value (JArr xs) = JArr (map bounded_value (take 20 xs))"
| "bounded_value v = (let t = py_str v in if int (py_len t) \<le> 500 then v else JStr (py_take 497 t @ ''...''))"
  by pat_completeness auto
termination
proof (relation "measure size")
  fix d :: dict and x k v
  assume "x \<in> set (filter (\<lambda>(k, v). k \<notin> hidden_arguments) (take 20 d))" and "(k, v) = x"
  then have "(k, v) \<in> set d" by (auto dest: in_set_takeD)
  then have "size v \<le> size_list (size_prod (\<lambda>x. 0) size) d"
    by (induction d) auto
  then show "(v, JObj d) \<in> measure size" by simp
next
  fix xs :: "json list" and x
  assume "x \<in> set (take 20 xs)"
  then have "x \<in> set xs" by (rule in_set_takeD)
  then have "size x \<le> size_list size xs" by (induction xs) auto
  then show "(x, JArr xs) \<in> measure size" by simp
qed simp

definition bounded_arguments :: "dict \<Rightarrow> json" where
  "bounded_arguments d = bounded_value (JObj d)"

section \<open>Requests\<close>

text \<open>The kind and the summary of each request, as \<^const>\<open>begin_await\<close> takes them.\<close>

fun level_value :: "permission_level \<Rightarrow> string" where
  "level_value READ = ''READ''"
| "level_value EXEC_READONLY = ''EXEC_READONLY''"
| "level_value WRITE = ''WRITE''"
| "level_value CANDIDATE_WRITE = ''CANDIDATE_WRITE''"
| "level_value NETWORK = ''NETWORK''"
| "level_value DANGEROUS = ''DANGEROUS''"

definition gate_tool :: "tool_spec \<Rightarrow> dict option \<Rightarrow> string \<times> dict" where
  "gate_tool t arguments = (''tool'', [(''tool'', JStr (ts_name t)), (''permissionLevel'', JStr (level_value (ts_level t))),
     (''arguments'', bounded_arguments (case arguments of None \<Rightarrow> [] | Some d \<Rightarrow> d))])"

definition gate_upgrade :: "string \<Rightarrow> dict \<Rightarrow> string \<times> dict" where
  "gate_upgrade tool arguments = (''workspace_upgrade'', [(''tool'', JStr tool), (''arguments'', bounded_arguments arguments),
     (''message'', JStr ''Create an isolated Agent worktree for protected operations'')])"

definition gate_permissions :: "string \<Rightarrow> string \<Rightarrow> permission_evaluation list \<Rightarrow> string \<times> dict" where
  "gate_permissions command cwd evaluations = (''command_permissions'', [(''command'', JStr (py_take 500 command)), (''cwd'', JStr cwd),
     (''permissions'', JArr (map (\<lambda>e. JObj (request_dict (pe_request e))) evaluations))])"

section \<open>The bound\<close>

text \<open>At most 20 entries a level, no file content, and no scalar that prints longer than 500 characters.\<close>

fun within_bounds :: "json \<Rightarrow> bool" where
  "within_bounds (JObj d) = (length d \<le> 20 \<and> (\<forall>(k, v) \<in> set d. k \<notin> hidden_arguments \<and> within_bounds v))"
| "within_bounds (JArr xs) = (length xs \<le> 20 \<and> (\<forall>v \<in> set xs. within_bounds v))"
| "within_bounds v = (py_len (py_str v) \<le> 500)"

lemma py_len_take: "py_len (py_take n s) \<le> n"
  by (induction n s rule: py_take.induct) (auto simp: py_len_def split: nat.splits)

lemma py_len_append: "py_len (s @ t) = py_len s + py_len t"
  by (simp add: py_len_def)

lemma cut_within: "py_len (py_take 497 t @ ''...'') \<le> 500"
proof -
  have "py_len ''...'' \<le> 3" using length_filter_le [of "\<lambda>c. \<not> is_cont c" "''...''"] by (simp add: py_len_def)
  then show ?thesis using py_len_take [of 497 t] by (simp add: py_len_append)
qed

lemma scalar_within:
  assumes "within_bounds v = (py_len (py_str v) \<le> 500)"
  shows "within_bounds (let t = py_str v in if int (py_len t) \<le> 500 then v else JStr (py_take 497 t @ ''...''))"
  using assms cut_within [of "py_str v"] by (auto simp: Let_def)

lemma bounded_value_within: "within_bounds (bounded_value v)"
proof (induction v rule: bounded_value.induct)
  case (1 d)
  have "length (filter (\<lambda>(k, v). k \<notin> hidden_arguments) (take 20 d)) \<le> 20"
    by (rule order_trans [OF length_filter_le]) simp
  then show ?case using 1 by fastforce
qed (simp only: bounded_value.simps within_bounds.simps, (fastforce dest: in_set_takeD | rule scalar_within; simp))+

text \<open>
  What a client is shown of the arguments of a call it should approve has at most 20 entries at
  every level, no file content, and no value that prints longer than 500 characters.
\<close>

theorem approval_arguments_bounded:
  "\<exists>v. bounded_arguments d = JObj v \<and> length v \<le> 20 \<and> within_bounds (JObj v)"
  using bounded_value_within [of "JObj d"] by (auto simp: bounded_arguments_def)

end
