(* ===== verification/Git_Status.thy ===== *)
theory Git_Status
  imports Agent_Tools Host_Paths
begin

text \<open>
  Reading a Git working tree: \<^verbatim>\<open>tools/git_read.py\<close> and \<^verbatim>\<open>runtime/git_snapshot.py\<close>. Git itself is what
  its calls return; the parsing of its status, the checks on its paths and the errors are the code's.
\<close>

section \<open>Calls\<close>

text \<open>A finished process is its return code, its output and its error output; a call can also raise.\<close>

type_synonym process_result = "int \<times> char list \<times> char list"

text \<open>\<^verbatim>\<open>b.decode("utf-8", "replace")\<close>: one U+FFFD for each maximal part of an ill-formed sequence.\<close>

definition bad_length :: "char list \<Rightarrow> nat" where
  "bad_length s =
     (case s of a # b # r \<Rightarrow>
        let n = byte_of a;
            second = (is_cont b \<and> (n = 224 \<longrightarrow> 160 \<le> byte_of b) \<and> (n = 237 \<longrightarrow> byte_of b < 160)
               \<and> (n = 240 \<longrightarrow> 144 \<le> byte_of b) \<and> (n = 244 \<longrightarrow> byte_of b < 144)) in
        if 224 \<le> n \<and> n < 245 \<and> second
        then (if 240 \<le> n \<and> (case r of c # _ \<Rightarrow> is_cont c | _ \<Rightarrow> False) then 3 else 2)
        else 1
      | _ \<Rightarrow> 1)"

function utf8_replace :: "char list \<Rightarrow> string" where
  "utf8_replace s =
     (if s = [] then []
      else if utf8_head s \<noteq> 0 then take (utf8_head s) s @ utf8_replace (drop (utf8_head s) s)
      else [CHR 0xEF, CHR 0xBF, CHR 0xBD] @ utf8_replace (drop (bad_length s) s))"
  by pat_completeness auto
termination
  by (relation "measure length") (auto simp: bad_length_def Let_def split: list.splits)

declare utf8_replace.simps [simp del]

section \<open>The status\<close>

record status_entry =
  ge_index :: char
  ge_worktree :: char
  ge_path :: string
  ge_original :: "string option"

definition git_read_error :: "string \<Rightarrow> exn" where
  "git_read_error code = Exn GitReadError code"

text \<open>A path of the status; bytes that are no UTF-8 are an internal error.\<close>

definition status_path :: "char list \<Rightarrow> string res" where
  "status_path b = (if utf8_valid b then Inr b else Inl (git_read_error ''internal_error''))"

definition renames :: "char \<Rightarrow> bool" where
  "renames c = (c = CHR ''R'' \<or> c = CHR ''C'')"

fun parse_records :: "char list list \<Rightarrow> status_entry list res" where
  "parse_records [] = Inr []"
| "parse_records (r # rs) =
     (case r of
        x # y # z # c # p \<Rightarrow>
          if z \<noteq> CHR '' '' \<or> 128 \<le> byte_of x \<or> 128 \<le> byte_of y then Inl (git_read_error ''internal_error'')
          else rbind (status_path (c # p)) (\<lambda>path.
            if renames x \<or> renames y
            then (case rs of [] \<Rightarrow> Inl (git_read_error ''internal_error'')
               | orig # rs' \<Rightarrow> rbind (status_path orig) (\<lambda>original.
                   rbind (parse_records rs') (\<lambda>es.
                   Inr (\<lparr>ge_index = x, ge_worktree = y, ge_path = path, ge_original = Some original\<rparr> # es))))
            else rbind (parse_records rs) (\<lambda>es.
                   Inr (\<lparr>ge_index = x, ge_worktree = y, ge_path = path, ge_original = None\<rparr> # es)))
      | _ \<Rightarrow> Inl (git_read_error ''internal_error''))"

definition status_records :: "char list \<Rightarrow> char list list" where
  "status_records value = (let rs = split_on CHR 0x00 value in if last rs = [] then butlast rs else rs)"

definition parse_porcelain :: "char list \<Rightarrow> status_entry list res" where
  "parse_porcelain value = parse_records (status_records value)"

section \<open>The read service\<close>

definition max_status_bytes :: int where
  "max_status_bytes = 2097152"

definition max_diff_bytes :: int where
  "max_diff_bytes = 65536"

text \<open>
  \<^verbatim>\<open>_run\<close>: what the process wrote, cut to the limit. \<open>Inl\<close> of the call is its timeout, with the code
  \<^verbatim>\<open>timed_out\<close>, or the \<^verbatim>\<open>OSError\<close> of starting it.
\<close>

definition git_run :: "string option \<Rightarrow> process_result res \<Rightarrow> int \<Rightarrow> (char list \<times> string \<times> int \<times> bool) res" where
  "git_run executable call limit =
     (if executable = None then Inl (git_read_error ''tool_unavailable'')
      else case call of
        Inl e \<Rightarrow> Inl (git_read_error (if exn_class e = OSError then ''tool_unavailable'' else ''timed_out''))
      | Inr (rc, out, err) \<Rightarrow>
          Inr (take (nat limit) out, strip (utf8_replace (take 8192 err)), rc, limit < int (length out)))"

definition git_failure :: "string \<Rightarrow> int \<Rightarrow> tool_result" where
  "git_failure err rc =
     (tool_failure (if contains_str ''not a git repository'' err
         then ''git command executed, but workspace is not a valid Git repository: '' @ err
         else if err = [] then ''Git exited with '' @ show_int rc else err) ''command_failed'')
       \<lparr>tr_metadata := [(''returncode'', JInt rc)]\<rparr>"

definition status_line :: "status_entry \<Rightarrow> string" where
  "status_line e = [ge_index e, ge_worktree e, CHR '' ''] @ (case ge_original e of None \<Rightarrow> ge_path e
     | Some p \<Rightarrow> p @ '' -> '' @ ge_path e)"

definition entry_dict :: "status_entry \<Rightarrow> dict" where
  "entry_dict e = [(''index'', JStr [ge_index e]), (''worktree'', JStr [ge_worktree e]), (''path'', JStr (ge_path e)),
     (''original_path'', opt_str (ge_original e))]"

definition git_status :: "string option \<Rightarrow> process_result res \<Rightarrow> tool_result" where
  "git_status executable call =
     (case rbind (git_run executable call max_status_bytes) (\<lambda>(out, err, rc, truncated).
        if rc \<noteq> 0 then Inr (git_failure err rc)
        else rbind (parse_porcelain out) (\<lambda>es.
          let shown = take 200 es in
          Inr ((tool_success (join [CHR 0x0A] (map status_line shown))
               [(''entries'', JArr (map (JObj \<circ> entry_dict) shown)), (''entry_count'', JInt (int (length shown)))])
             \<lparr>tr_truncated := truncated \<or> 200 < length es\<rparr>))) of
        Inr r \<Rightarrow> r | Inl e \<Rightarrow> tool_failure ''git'' (exn_code e))"

text \<open>\<^verbatim>\<open>_relative_path\<close>; a bounded integer is no boolean.\<close>

definition git_relative_path :: "fs \<Rightarrow> nat \<Rightarrow> path \<Rightarrow> json \<Rightarrow> string res" where
  "git_relative_path fs n root v =
     (case v of
        JStr s \<Rightarrow>
          if s = [] \<or> CHR 0x00 \<in> set s then Inl (Exn ValueError ''path'')
          else if is_abs s \<or> ''..'' \<in> set (path_parts s) then Inl (Exn PathGuardError ''parent'')
          else rbind (guard_resolve fs n root False s) (\<lambda>r.
            case relative_to r root of None \<Rightarrow> Inl (Exn ValueError ''relative'')
            | Some rel \<Rightarrow> Inr (if rel = [] then ''.'' else join ''/'' rel))
      | _ \<Rightarrow> Inl (Exn ValueError ''path''))"

definition bounded_int :: "json \<Rightarrow> int \<Rightarrow> int \<Rightarrow> int res" where
  "bounded_int v lo hi = (case v of JInt i \<Rightarrow> if lo \<le> i \<and> i \<le> hi then Inr i else Inl (Exn ValueError ''range'')
     | _ \<Rightarrow> Inl (Exn ValueError ''range''))"

definition diff_arguments :: "bool \<Rightarrow> int \<Rightarrow> string \<Rightarrow> string list" where
  "diff_arguments stat context_lines path = [''diff'', ''--no-ext-diff'', ''--no-textconv'',
     if stat then ''--stat'' else ''--unified='' @ show_int context_lines, ''--'', path]"

definition git_diff ::
  "fs \<Rightarrow> nat \<Rightarrow> path \<Rightarrow> string option \<Rightarrow> (string list \<Rightarrow> process_result res) \<Rightarrow> dict \<Rightarrow> bool \<Rightarrow> tool_result" where
  "git_diff fs n root executable git args stat =
     (case rbind (git_relative_path fs n root (dget_or args ''path'' (JStr ''.''))) (\<lambda>path.
        rbind (bounded_int (dget_or args ''context_lines'' (JInt 3)) 0 10) (\<lambda>context_lines.
        rbind (git_run executable (git (diff_arguments stat context_lines path)) max_diff_bytes) (\<lambda>(out, err, rc, truncated).
        if rc \<noteq> 0 then Inr (git_failure err rc)
        else Inr ((tool_success (rstrip (utf8_replace out @ (if truncated then CHR 0x0A # ''...[truncated]'' else [])))
              [(''path'', JStr path), (''content_bytes'', JInt (int (length out))), (''returncode'', JInt rc)])
             \<lparr>tr_truncated := truncated\<rparr>)))) of
        Inr r \<Rightarrow> r
      | Inl e \<Rightarrow> tool_failure ''git'' (if exn_class e = GitReadError then exn_code e
           else if exn_class e = PathGuardError then ''path_rejected'' else ''invalid_arguments''))"

text \<open>Only an executable outside of the workspace is used; \<open>resolved\<close> is the resolved candidate.\<close>

definition trusted_executable :: "host \<Rightarrow> path option \<Rightarrow> path \<Rightarrow> string option res" where
  "trusted_executable h candidate workspace =
     (case candidate of None \<Rightarrow> Inr None
      | Some p \<Rightarrow> rbind (resolve_path h p) (\<lambda>r.
          Inr (if relative_to r workspace = None then Some (path_text r) else None)))"

section \<open>Snapshots\<close>

record git_world =
  gw_status :: "process_result res"
  gw_read_tree :: "string \<Rightarrow> process_result res"
  gw_add :: "process_result res"
  gw_write_tree :: "process_result res"
  gw_rev_parse :: "string \<Rightarrow> process_result res"

definition git_output :: "process_result res \<Rightarrow> char list res" where
  "git_output call = rbind call (\<lambda>(rc, out, err). if rc \<noteq> 0 then Inl (Exn GitSnapshotError ''git'') else Inr out)"

definition decoded_line :: "char list \<Rightarrow> string res" where
  "decoded_line b = rbind (utf8_decode b) (\<lambda>s. Inr (strip s))"

definition validate_changed_paths :: "fs \<Rightarrow> nat \<Rightarrow> path \<Rightarrow> git_world \<Rightarrow> unit res" where
  "validate_changed_paths fs n root w =
     rbind (git_output (gw_status w)) (\<lambda>out. rbind (parse_porcelain out) (\<lambda>es.
     rfold (\<lambda>u v. case guard_resolve fs n root True v of
         Inl e \<Rightarrow> Inl (if exn_class e = PathGuardError then Exn GitSnapshotError ''path'' else e) | Inr p \<Rightarrow> Inr ())
       () (filter (\<lambda>v. v \<noteq> []) (concat (map (\<lambda>e. ge_path e # (case ge_original e of None \<Rightarrow> [] | Some p \<Rightarrow> [p])) es)))))"

definition snapshot_tree :: "fs \<Rightarrow> nat \<Rightarrow> path \<Rightarrow> git_world \<Rightarrow> string \<Rightarrow> string res" where
  "snapshot_tree fs n root w base =
     rbind (validate_changed_paths fs n root w) (\<lambda>u.
     rbind (git_output (gw_read_tree w base)) (\<lambda>r. rbind (git_output (gw_add w)) (\<lambda>a.
     rbind (git_output (gw_write_tree w)) decoded_line)))"

definition head_tree :: "git_world \<Rightarrow> string \<Rightarrow> string res" where
  "head_tree w commit = rbind (git_output (gw_rev_parse w (commit @ ''^{tree}''))) decoded_line"


section \<open>Properties\<close>

text \<open>What Git writes with \<^verbatim>\<open>-z\<close> for an entry, and the entries it can write.\<close>

definition porcelain_records :: "status_entry \<Rightarrow> char list list" where
  "porcelain_records e = ([ge_index e, ge_worktree e, CHR '' ''] @ ge_path e)
     # (case ge_original e of None \<Rightarrow> [] | Some p \<Rightarrow> [p])"

definition porcelain :: "status_entry list \<Rightarrow> char list" where
  "porcelain es = concat (map (\<lambda>r. r @ [CHR 0x00]) (concat (map porcelain_records es)))"

definition git_name :: "string \<Rightarrow> bool" where
  "git_name p \<longleftrightarrow> p \<noteq> [] \<and> CHR 0x00 \<notin> set p \<and> utf8_valid p"

definition entry_wf :: "status_entry \<Rightarrow> bool" where
  "entry_wf e \<longleftrightarrow> byte_of (ge_index e) \<in> {1..127} \<and> byte_of (ge_worktree e) \<in> {1..127} \<and> git_name (ge_path e)
     \<and> (case ge_original e of None \<Rightarrow> \<not> renames (ge_index e) \<and> \<not> renames (ge_worktree e)
        | Some p \<Rightarrow> (renames (ge_index e) \<or> renames (ge_worktree e)) \<and> git_name p)"

lemma split_on_records:
  "\<forall>r \<in> set rs. CHR 0x00 \<notin> set r \<Longrightarrow> split_on CHR 0x00 (concat (map (\<lambda>r. r @ [CHR 0x00]) rs)) = rs @ [[]]"
  by (induction rs) (simp_all add: split_on_append_sep)

lemma records_no_nul:
  assumes "entry_wf e" and "r \<in> set (porcelain_records e)"
  shows "CHR 0x00 \<notin> set r"
proof -
  have "ge_index e \<noteq> CHR 0x00" "ge_worktree e \<noteq> CHR 0x00"
    using assms(1) by (auto simp: entry_wf_def simp del: utf8_valid.simps)
  moreover have "CHR 0x00 \<notin> set (ge_path e)" "\<And>p. ge_original e = Some p \<Longrightarrow> CHR 0x00 \<notin> set p"
    using assms(1) by (auto simp: entry_wf_def git_name_def simp del: utf8_valid.simps)
  ultimately show ?thesis using assms(2)
    by (cases "ge_original e") (auto simp: porcelain_records_def)
qed

lemma parse_one:
  assumes "entry_wf e"
  shows "parse_records (porcelain_records e @ rs) = rbind (parse_records rs) (\<lambda>es. Inr (e # es))"
proof -
  obtain x y p orig where e: "e = \<lparr>ge_index = x, ge_worktree = y, ge_path = p, ge_original = orig\<rparr>" by (cases e)
  obtain c q where p: "p = c # q" using assms by (cases p) (auto simp: e entry_wf_def git_name_def simp del: utf8_valid.simps)
  have bytes: "byte_of x < 128" "byte_of y < 128" and path: "status_path (c # q) = Inr p"
    using assms p by (auto simp: e entry_wf_def git_name_def status_path_def simp del: utf8_valid.simps)
  show ?thesis
  proof (cases orig)
    case None
    then have "\<not> renames x" "\<not> renames y" using assms by (simp_all add: e entry_wf_def)
    then show ?thesis using bytes path None p by (simp add: e porcelain_records_def)
  next
    case (Some o')
    then have "renames x \<or> renames y" "status_path o' = Inr o'"
      using assms by (simp_all add: e entry_wf_def git_name_def status_path_def del: utf8_valid.simps)
    then show ?thesis using bytes path Some p by (simp add: e porcelain_records_def)
  qed
qed

lemma parse_records_porcelain:
  "\<forall>e \<in> set es. entry_wf e \<Longrightarrow> parse_records (concat (map porcelain_records es)) = Inr es"
  by (induction es) (simp_all add: parse_one)

text \<open>
  C34. The parser of the status reads back every list of entries in the format Git writes with \<^verbatim>\<open>-z\<close>:
  names with spaces, arrows, quotes or line breaks, and renames with their original name.
\<close>

theorem porcelain_roundtrip:
  assumes "\<forall>e \<in> set es. entry_wf e"
  shows "parse_porcelain (porcelain es) = Inr es"
proof -
  have "CHR 0x00 \<notin> set r" if "e \<in> set es" "r \<in> set (porcelain_records e)" for e r
    using records_no_nul [OF _ that(2)] that(1) assms by blast
  then have "\<forall>r \<in> set (concat (map porcelain_records es)). CHR 0x00 \<notin> set r" by auto
  from split_on_records [OF this] show ?thesis
    using parse_records_porcelain [OF assms] by (simp add: parse_porcelain_def status_records_def porcelain_def)
qed

theorem porcelain_roundtrip_witness:
  "parse_porcelain (porcelain [\<lparr>ge_index = CHR ''R'', ge_worktree = CHR '' '', ge_path = ''a -> b'', ge_original = Some ''c d''\<rparr>])
     = Inr [\<lparr>ge_index = CHR ''R'', ge_worktree = CHR '' '', ge_path = ''a -> b'', ge_original = Some ''c d''\<rparr>]"
proof (rule porcelain_roundtrip)
  have "utf8_valid ''a -> b''" "utf8_valid ''c d''" by code_simp+
  then show "\<forall>e\<in>set [\<lparr>ge_index = CHR ''R'', ge_worktree = CHR '' '', ge_path = ''a -> b'', ge_original = Some ''c d''\<rparr>]. entry_wf e"
    by (simp add: entry_wf_def git_name_def renames_def del: utf8_valid.simps)
qed

end
