(* ===== verification/Workspace_Audit.thy ===== *)
theory Workspace_Audit
  imports Git_Status Event_File
begin

text \<open>
  \<^verbatim>\<open>runtime/workspace_audit.py\<close>: what a command changed, from the status of the worktree before and
  after it. An observation is what the file system and Git answer at one moment.
\<close>

section \<open>Lines of the status\<close>

text \<open>\<^verbatim>\<open>s[n:]\<close> in code points, and \<^verbatim>\<open>s.split(sep, 1)\<close> where the separator occurs.\<close>

definition py_drop :: "nat \<Rightarrow> string \<Rightarrow> string" where
  "py_drop n s = drop (length (py_take n s)) s"

fun cut_at :: "string \<Rightarrow> string \<Rightarrow> (string \<times> string) option" where
  "cut_at sep [] = None"
| "cut_at sep (c # s) =
     (if starts_with sep (c # s) then Some ([], drop (length sep) (c # s))
      else map_option (\<lambda>(a, b). (c # a, b)) (cut_at sep s))"

definition status_lines :: "string \<Rightarrow> string list" where
  "status_lines status = filter (\<lambda>l. 3 < py_len l) (splitlines status)"

definition line_path :: "string \<Rightarrow> string" where
  "line_path l = map (\<lambda>c. if c = CHR 0x5C then CHR ''/'' else c) (py_drop 3 l)"

definition line_status :: "string \<Rightarrow> string" where
  "line_status l = py_take 2 l"

section \<open>Snapshots\<close>

text \<open>
  An observation: the status, the file system for \<open>snapshot_tree\<close>, and the content of a file below
  the root if it is one, which may fail to be read.
\<close>

record observation =
  ob_status :: "process_result res"
  ob_fs :: fs
  ob_git :: git_world
  ob_file :: "string \<Rightarrow> char list option res"

record workspace_snapshot =
  sn_fingerprints :: "(string \<times> string) list"
  sn_tree :: string
  sn_hints :: "(string \<times> (string \<times> string option)) list"

definition missing_mark :: string where
  "missing_mark = ''<missing>''"

definition audit_error :: "string \<Rightarrow> exn" where
  "audit_error why = Exn WorkspaceAuditError why"

definition changed_path :: "string \<Rightarrow> string" where
  "changed_path l = (let p = line_path l in case cut_at '' -> '' p of None \<Rightarrow> p | Some (a, b) \<Rightarrow> b)"

definition fingerprint :: "(char list \<Rightarrow> string) \<Rightarrow> observation \<Rightarrow> string \<Rightarrow> string res" where
  "fingerprint sha ob p = (case ob_file ob p of
     Inl e \<Rightarrow> Inl (if exn_class e = OSError then audit_error ''read'' else e)
   | Inr None \<Rightarrow> Inr missing_mark
   | Inr (Some b) \<Rightarrow> Inr (sha b))"

definition fingerprints :: "(char list \<Rightarrow> string) \<Rightarrow> observation \<Rightarrow> string \<Rightarrow> (string \<times> string) list res" where
  "fingerprints sha ob status = rfold (\<lambda>d l. let p = changed_path l in
     rbind (fingerprint sha ob p) (\<lambda>f. Inr (AList.update p f d))) [] (status_lines status)"

definition line_hint :: "string \<Rightarrow> string \<times> (string \<times> string option)" where
  "line_hint l =
     (let v = line_path l; st = line_status l in
      case (if CHR ''R'' \<in> set st then cut_at '' -> '' v else None) of
        Some (source, destination) \<Rightarrow> (destination, (''rename'', Some source))
      | None \<Rightarrow> (v, (if CHR ''D'' \<in> set st then ''delete''
                      else if CHR ''?'' \<in> set st \<or> CHR ''A'' \<in> set st then ''create'' else ''update'', None)))"

definition change_hints :: "string \<Rightarrow> (string \<times> (string \<times> string option)) list" where
  "change_hints status = fold (\<lambda>l d. case line_hint l of (k, v) \<Rightarrow> AList.update k v d) (status_lines status) []"

definition take_snapshot ::
  "(char list \<Rightarrow> string) \<Rightarrow> nat \<Rightarrow> path \<Rightarrow> observation \<Rightarrow> string \<Rightarrow> workspace_snapshot res" where
  "take_snapshot sha n root ob base =
     (case ob_status ob of
        Inl e \<Rightarrow> Inl (audit_error ''status'')
      | Inr (rc, out, err) \<Rightarrow>
          if rc \<noteq> 0 then Inl (audit_error ''git status failed'')
          else case snapshot_tree (ob_fs ob) n root (ob_git ob) base of
              Inl e \<Rightarrow> Inl (if exn_class e = GitSnapshotError then audit_error ''snapshot'' else e)
            | Inr tree \<Rightarrow>
                rbind (fingerprints sha ob (utf8_replace out)) (\<lambda>fp.
                Inr \<lparr>sn_fingerprints = fp, sn_tree = tree, sn_hints = change_hints (utf8_replace out)\<rparr>))"

section \<open>The comparison\<close>

record audit_change =
  ac_path :: string
  ac_kind :: string
  ac_source :: "string option"

definition compare_path :: "workspace_snapshot \<Rightarrow> workspace_snapshot \<Rightarrow> string \<Rightarrow> audit_change list" where
  "compare_path before after p =
     (let old = map_of (sn_fingerprints before) p; new = map_of (sn_fingerprints after) p;
          (hint, source) = (case map_of (sn_hints after) p of None \<Rightarrow> ([], None) | Some h \<Rightarrow> h) in
      if old = new then []
      else if hint = ''rename''
      then [\<lparr>ac_path = p, ac_kind = ''rename'', ac_source = (if source = Some [] then None else source)\<rparr>]
      else [\<lparr>ac_path = p, ac_kind = (if new = Some missing_mark \<or> new = None then ''delete''
              else if old = None then ''create'' else ''update''), ac_source = None\<rparr>])"

definition audited_paths :: "workspace_snapshot \<Rightarrow> workspace_snapshot \<Rightarrow> string list" where
  "audited_paths before after = sort (remdups (map fst (sn_fingerprints before) @ map fst (sn_fingerprints after)))"

definition compare_workspace :: "workspace_snapshot \<Rightarrow> workspace_snapshot \<Rightarrow> audit_change list" where
  "compare_workspace before after = concat (map (compare_path before after) (audited_paths before after))"

definition change_dict :: "audit_change \<Rightarrow> json" where
  "change_dict c = JObj ([(''path'', JStr (ac_path c)), (''kind'', JStr (ac_kind c))]
     @ (case ac_source c of None \<Rightarrow> [] | Some s \<Rightarrow> [(''source'', JStr s)]))"

section \<open>Properties\<close>

lemma compare_path_paths: "map ac_path (compare_path b a p) =
    (if map_of (sn_fingerprints b) p = map_of (sn_fingerprints a) p then [] else [p])"
  by (auto simp: compare_path_def Let_def split: prod.splits)

lemma map_of_differ: "map_of xs p \<noteq> map_of ys p \<Longrightarrow> p \<in> fst ` set xs \<union> fst ` set ys"
  by (metis UnCI map_of_eq_None_iff)

lemma audit_lists_differences_path:
  "map ac_path (compare_workspace b a) = filter (\<lambda>p. map_of (sn_fingerprints b) p \<noteq> map_of (sn_fingerprints a) p) (audited_paths b a)"
proof -
  have "map ac_path (concat (map (compare_path b a) ps)) =
      filter (\<lambda>p. map_of (sn_fingerprints b) p \<noteq> map_of (sn_fingerprints a) p) ps" for ps
    by (induction ps) (simp_all add: compare_path_paths)
  then show ?thesis by (simp add: compare_workspace_def)
qed

text \<open>
  The audit lists, in order and once each, exactly the paths whose recorded content differs
  between the two snapshots, and calls a path created only if it was not there before and has
  content after.
\<close>

theorem audit_lists_differences:
  "map ac_path (compare_workspace b a) = filter (\<lambda>p. map_of (sn_fingerprints b) p \<noteq> map_of (sn_fingerprints a) p) (audited_paths b a)
    \<and> set (map ac_path (compare_workspace b a)) = {p. map_of (sn_fingerprints b) p \<noteq> map_of (sn_fingerprints a) p}
    \<and> sorted (map ac_path (compare_workspace b a)) \<and> distinct (map ac_path (compare_workspace b a))
    \<and> (\<forall>c \<in> set (compare_workspace b a). ac_kind c = ''create'' \<longrightarrow>
         map_of (sn_fingerprints b) (ac_path c) = None \<and> map_of (sn_fingerprints a) (ac_path c) \<noteq> None)"
proof -
  note l = audit_lists_differences_path [of b a]
  moreover have "set (filter (\<lambda>p. map_of (sn_fingerprints b) p \<noteq> map_of (sn_fingerprints a) p) (audited_paths b a))
      = {p. map_of (sn_fingerprints b) p \<noteq> map_of (sn_fingerprints a) p}"
    using map_of_differ by (fastforce simp: audited_paths_def)
  moreover have "sorted (audited_paths b a)" "distinct (audited_paths b a)" by (simp_all add: audited_paths_def)
  moreover have "\<forall>c \<in> set (compare_workspace b a). ac_kind c = ''create'' \<longrightarrow>
         map_of (sn_fingerprints b) (ac_path c) = None \<and> map_of (sn_fingerprints a) (ac_path c) \<noteq> None"
    by (auto simp: compare_workspace_def compare_path_def Let_def split: prod.splits if_splits)
  ultimately show ?thesis by (simp add: sorted_wrt_filter)
qed

definition one_file :: workspace_snapshot where
  "one_file = \<lparr>sn_fingerprints = [(''same.py'', ''h'')], sn_tree = ''t'', sn_hints = []\<rparr>"

definition two_files :: workspace_snapshot where
  "two_files = \<lparr>sn_fingerprints = [(''new.py'', ''k''), (''same.py'', ''h'')], sn_tree = ''u'', sn_hints = []\<rparr>"

theorem audit_lists_differences_witness:
  "map change_dict (compare_workspace one_file two_files) = [JObj [(''path'', JStr ''new.py''), (''kind'', JStr ''create'')]]
    \<and> sorted (map ac_path (compare_workspace one_file two_files)) \<and> distinct (map ac_path (compare_workspace one_file two_files))"
proof -
  have "map change_dict (compare_workspace one_file two_files) = [JObj [(''path'', JStr ''new.py''), (''kind'', JStr ''create'')]]"
    by code_simp
  then show ?thesis using audit_lists_differences [of one_file two_files] by blast
qed

section \<open>Where the audit is blind\<close>

text \<open>A status of one line.\<close>

definition untracked_line :: string where
  "untracked_line = ''?? '' @ [CHR 0x22] @ ''a b'' @ [CHR 0x22, CHR 0x0A]"

definition quoted_name :: string where
  "quoted_name = [CHR 0x22] @ ''a b'' @ [CHR 0x22]"

definition modified_line :: string where
  "modified_line = '' M a.py'' @ [CHR 0x0A]"

lemma take_snapshot_Inr:
  assumes "take_snapshot sha n root ob base = Inr s" and "ob_status ob = Inr (0, out, err)"
  shows "fingerprints sha ob (utf8_replace out) = Inr (sn_fingerprints s) \<and> sn_hints s = change_hints (utf8_replace out)"
  using assms by (auto simp: take_snapshot_def result_simps split: sum.splits)

lemma one_line_status:
  "status_lines (utf8_replace untracked_line) = [''?? '' @ quoted_name]" "status_lines (utf8_replace modified_line) = ['' M a.py'']"
  "changed_path (''?? '' @ quoted_name) = quoted_name" "changed_path '' M a.py'' = ''a.py''"
  "status_lines (utf8_replace []) = []"
  by code_simp+

lemma quoted_line_path: "changed_path (CHR ''?'' # CHR ''?'' # CHR '' '' # quoted_name) = quoted_name"
  using one_line_status(3) by simp

text \<open>
  C32. The status is read without \<^verbatim>\<open>-z\<close>, so Git quotes a name with a space; the quoted name is no file.
  Whatever a command does to such a file, the audit reports no change, although the trees differ.
\<close>

theorem quoted_change_is_missed:
  assumes "ob_status b = Inr (0, untracked_line, [])" and "ob_status a = Inr (0, untracked_line, [])"
    and "ob_file b quoted_name = Inr None" and "ob_file a quoted_name = Inr None"
    and "take_snapshot sha n root b base = Inr sb" and "take_snapshot sha n root a base = Inr sa"
  shows "compare_workspace sb sa = []"
proof -
  have "fingerprints sha x (utf8_replace untracked_line) = Inr [(quoted_name, missing_mark)]"
    if "ob_file x quoted_name = Inr None" for x
    using that by (simp add: fingerprints_def one_line_status quoted_line_path fingerprint_def Let_def)
  then have "sn_fingerprints sb = [(quoted_name, missing_mark)]" "sn_fingerprints sa = [(quoted_name, missing_mark)]"
    using take_snapshot_Inr [OF assms(5,1)] take_snapshot_Inr [OF assms(6,2)] assms(3,4) by simp_all
  then have "map ac_path (compare_workspace sb sa) = []" using audit_lists_differences_path [of sb sa] by simp
  then show ?thesis by simp
qed

text \<open>
  A command that takes back an earlier edit, so that the file is as in the base commit again, is
  reported to have deleted the file.
\<close>

theorem reverted_file_reported_deleted:
  assumes "ob_status b = Inr (0, modified_line, [])" and "ob_file b ''a.py'' = Inr (Some old)"
    and "ob_status a = Inr (0, [], [])" and "ob_file a ''a.py'' = Inr (Some reverted)"
    and "take_snapshot sha n root b base = Inr sb" and "take_snapshot sha n root a base = Inr sa"
  shows "map change_dict (compare_workspace sb sa) = [JObj [(''path'', JStr ''a.py''), (''kind'', JStr ''delete'')]]"
proof -
  have "sn_fingerprints sb = [(''a.py'', sha old)]"
    using take_snapshot_Inr [OF assms(5,1)] assms(2) by (simp add: fingerprints_def one_line_status fingerprint_def)
  moreover have "sn_fingerprints sa = []" "sn_hints sa = []"
    using take_snapshot_Inr [OF assms(6,3)] by (simp_all add: fingerprints_def change_hints_def one_line_status)
  ultimately show ?thesis
    by (simp add: compare_workspace_def audited_paths_def compare_path_def change_dict_def)
qed

section \<open>Two observations\<close>

definition demo_git :: "char list \<Rightarrow> string \<Rightarrow> git_world" where
  "demo_git status tree = \<lparr>gw_status = Inr (0, status, []), gw_read_tree = (\<lambda>base. Inr (0, [], [])), gw_add = Inr (0, [], []),
     gw_write_tree = Inr (0, tree, []), gw_rev_parse = (\<lambda>c. Inr (0, [], []))\<rparr>"

definition demo_observation :: "string \<Rightarrow> char list \<Rightarrow> string \<Rightarrow> char list option \<Rightarrow> observation" where
  "demo_observation status raw tree content = \<lparr>ob_status = Inr (0, status, []), ob_fs = [[''w''] \<mapsto> Dir], ob_git = demo_git raw tree,
     ob_file = (\<lambda>p. Inr (if p = ''a.py'' then content else None))\<rparr>"

definition blind_before :: observation where
  "blind_before = demo_observation untracked_line (''?? a b'' @ [CHR 0x00]) ''t1'' None"

definition blind_after :: observation where
  "blind_after = demo_observation untracked_line (''?? a b'' @ [CHR 0x00]) ''t2'' None"

theorem quoted_change_is_missed_witness:
  "\<exists>sb sa. take_snapshot id 40 [''w''] blind_before ''HEAD'' = Inr sb \<and> take_snapshot id 40 [''w''] blind_after ''HEAD'' = Inr sa
    \<and> sn_tree sb \<noteq> sn_tree sa \<and> compare_workspace sb sa = []"
proof -
  have "(case (take_snapshot id 40 [''w''] blind_before ''HEAD'', take_snapshot id 40 [''w''] blind_after ''HEAD'') of
      (Inr sb, Inr sa) \<Rightarrow> sn_tree sb = ''t1'' \<and> sn_tree sa = ''t2'' | _ \<Rightarrow> False)"
    by code_simp
  then obtain sb sa where s: "take_snapshot id 40 [''w''] blind_before ''HEAD'' = Inr sb"
      "take_snapshot id 40 [''w''] blind_after ''HEAD'' = Inr sa" "sn_tree sb = ''t1''" "sn_tree sa = ''t2''"
    by (auto split: sum.splits)
  have "compare_workspace sb sa = []"
    by (rule quoted_change_is_missed [OF _ _ _ _ s(1,2)])
      (simp_all add: blind_before_def blind_after_def demo_observation_def quoted_name_def)
  with s show ?thesis by auto
qed

definition revert_before :: observation where
  "revert_before = demo_observation modified_line ('' M a.py'' @ [CHR 0x00]) ''t1'' (Some ''new'')"

definition revert_after :: observation where
  "revert_after = demo_observation [] [] ''t0'' (Some ''old'')"

theorem reverted_file_reported_deleted_witness:
  "\<exists>sb sa. take_snapshot id 40 [''w''] revert_before ''HEAD'' = Inr sb \<and> take_snapshot id 40 [''w''] revert_after ''HEAD'' = Inr sa
    \<and> map change_dict (compare_workspace sb sa) = [JObj [(''path'', JStr ''a.py''), (''kind'', JStr ''delete'')]]"
proof -
  have "(case (take_snapshot id 40 [''w''] revert_before ''HEAD'', take_snapshot id 40 [''w''] revert_after ''HEAD'') of
      (Inr sb, Inr sa) \<Rightarrow> True | _ \<Rightarrow> False)"
    by code_simp
  then obtain sb sa where s: "take_snapshot id 40 [''w''] revert_before ''HEAD'' = Inr sb"
      "take_snapshot id 40 [''w''] revert_after ''HEAD'' = Inr sa"
    by (auto split: sum.splits)
  have "map change_dict (compare_workspace sb sa) = [JObj [(''path'', JStr ''a.py''), (''kind'', JStr ''delete'')]]"
    by (rule reverted_file_reported_deleted [OF _ _ _ _ s])
      (simp_all add: revert_before_def revert_after_def demo_observation_def)
  with s show ?thesis by (intro exI [of _ sb] exI [of _ sa]) simp
qed

end
