(* ===== verification/Command_Executor.thy ===== *)
theory Command_Executor
  imports Workspace_Audit Sandbox_Mounts
begin

text \<open>
  \<^verbatim>\<open>runtime/command.py\<close>, \<^verbatim>\<open>runtime/artifacts.py\<close> and \<^verbatim>\<open>runtime/sandbox_executor.py\<close>: requests, results and
  the one execution of a command in the sandbox. How the process ended, and what it wrote, is given.
\<close>

section \<open>Requests and results\<close>

datatype execution_status =
    CmdCompleted | CmdTimedOut | CmdSpawnFailed | CmdRejected | CmdUnavailable | CmdSetupFailed | CmdAuditUnavailable

fun status_value :: "execution_status \<Rightarrow> string" where
  "status_value CmdCompleted = ''completed''"
| "status_value CmdTimedOut = ''execution_timed_out''"
| "status_value CmdSpawnFailed = ''spawn_failed''"
| "status_value CmdRejected = ''executor_rejected''"
| "status_value CmdUnavailable = ''sandbox_unavailable''"
| "status_value CmdSetupFailed = ''sandbox_setup_failed''"
| "status_value CmdAuditUnavailable = ''workspace_audit_unavailable''"

record command_request =
  cr_id :: string
  cr_command :: string
  cr_cwd :: string
  cr_timeout :: int
  cr_purpose :: string
  cr_permissions :: "permission_request list"
  cr_workspace_revision :: int
  cr_base :: "string option"
  cr_before_revision :: int
  cr_before_tree :: "string option"
  cr_sha :: string

definition command_request_dict :: "command_request \<Rightarrow> dict" where
  "command_request_dict r = [(''execution_id'', JStr (cr_id r)), (''command'', JStr (cr_command r)), (''cwd'', JStr (cr_cwd r)),
     (''timeout_seconds'', JInt (cr_timeout r)), (''purpose'', JStr (cr_purpose r)),
     (''permissions'', JArr (map (JObj \<circ> request_dict) (cr_permissions r))),
     (''workspace_revision'', JInt (cr_workspace_revision r)), (''base_commit'', opt_str (cr_base r)),
     (''before_candidate_revision'', JInt (cr_before_revision r)), (''before_subject_tree'', opt_str (cr_before_tree r)),
     (''command_sha256'', JStr (cr_sha r))]"

record command_result =
  cx_exit :: "int option"
  cx_stdout :: string
  cx_stderr :: string
  cx_status :: execution_status
  cx_started_at :: "string option"
  cx_finished_at :: "string option"
  cx_duration :: "int option"
  cx_timed_out :: bool
  cx_spawn_error :: "string option"
  cx_stdout_truncated :: bool
  cx_stderr_truncated :: bool
  cx_stdout_artifact :: "string option"
  cx_stderr_artifact :: "string option"
  cx_payload_started :: bool
  cx_tree_stopped :: bool
  cx_before_revision :: "int option"
  cx_after_revision :: "int option"
  cx_before_tree :: "string option"
  cx_after_tree :: "string option"
  cx_changes :: "audit_change list"
  cx_policy :: "dict option"
  cx_provenance :: dict

definition opt_int :: "int option \<Rightarrow> json" where
  "opt_int v = (case v of None \<Rightarrow> JNull | Some i \<Rightarrow> JInt i)"

definition opt_obj :: "dict option \<Rightarrow> json" where
  "opt_obj v = (case v of None \<Rightarrow> JNull | Some d \<Rightarrow> JObj d)"

text \<open>
  The fields of the environment's provenance are one dictionary here; without one they have the
  defaults of the dataclass.
\<close>

definition no_provenance :: dict where
  "no_provenance = [(''environment_contract_revision'', JNull), (''backend'', JNull), (''backend_availability'', JNull),
     (''launch_cwd'', JNull), (''environment_names'', JArr []), (''effective_network_policy'', JNull),
     (''effective_filesystem_policy'', JNull)]"

definition environment_provenance :: "command_result \<Rightarrow> dict" where
  "environment_provenance x = map (\<lambda>(k, v). (k, dget_or (cx_provenance x) k v)) no_provenance"

definition command_result_dict :: "command_result \<Rightarrow> dict" where
  "command_result_dict x = dmerge [(''exit_code'', opt_int (cx_exit x)), (''stdout'', JStr (cx_stdout x)), (''stderr'', JStr (cx_stderr x)),
     (''status'', JStr (status_value (cx_status x))), (''started_at'', opt_str (cx_started_at x)),
     (''finished_at'', opt_str (cx_finished_at x)), (''duration_ms'', opt_int (cx_duration x)),
     (''timed_out'', JBool (cx_timed_out x)), (''spawn_error'', opt_str (cx_spawn_error x)),
     (''stdout_truncated'', JBool (cx_stdout_truncated x)), (''stderr_truncated'', JBool (cx_stderr_truncated x)),
     (''stdout_artifact'', opt_str (cx_stdout_artifact x)), (''stderr_artifact'', opt_str (cx_stderr_artifact x)),
     (''environment_names'', dget (environment_provenance x) ''environment_names''),
     (''payload_started'', JBool (cx_payload_started x)), (''process_tree_stopped'', JBool (cx_tree_stopped x)),
     (''before_candidate_revision'', opt_int (cx_before_revision x)), (''after_candidate_revision'', opt_int (cx_after_revision x)),
     (''before_subject_tree'', opt_str (cx_before_tree x)), (''after_subject_tree'', opt_str (cx_after_tree x)),
     (''command_induced_changes'', JArr (map change_dict (cx_changes x))), (''effective_policy'', opt_obj (cx_policy x))]
     (environment_provenance x)"

section \<open>Output\<close>

text \<open>\<^verbatim>\<open>_CappedOutput.run\<close>: the chunks a process wrote, kept up to the limit.\<close>

record capped =
  cp_data :: "char list"
  cp_written :: nat
  cp_truncated :: bool

definition capped_step :: "nat \<Rightarrow> capped \<Rightarrow> char list \<Rightarrow> capped" where
  "capped_step limit c chunk =
     (let remaining = limit - cp_written c in
      \<lparr>cp_data = cp_data c @ take remaining chunk, cp_written = cp_written c + min (length chunk) remaining,
       cp_truncated = (cp_truncated c \<or> remaining < length chunk)\<rparr>)"

definition capped_output :: "nat \<Rightarrow> char list list \<Rightarrow> capped" where
  "capped_output limit chunks = fold (\<lambda>chunk c. capped_step limit c chunk) chunks
     \<lparr>cp_data = [], cp_written = 0, cp_truncated = False\<rparr>"

definition summary_text :: "char list \<Rightarrow> string" where
  "summary_text data = utf8_replace (if 4096 < int (length data)
     then take 1024 data @ CHR 0x0A # ''...[middle truncated]...'' @ CHR 0x0A # drop (length data - 3072) data else data)"

section \<open>Ending the process group\<close>

text \<open>
  \<open>first\<close> is what terminating the group and waiting two seconds gives, \<open>second\<close> the same of killing it,
  \<open>polled\<close> whether the process has an exit code then.
\<close>

datatype kill_outcome = NoProcess | Ended | StillRunning

definition terminate_group :: "kill_outcome \<Rightarrow> kill_outcome \<Rightarrow> bool \<Rightarrow> bool" where
  "terminate_group first second polled = (case first of NoProcess \<Rightarrow> True | Ended \<Rightarrow> polled
     | StillRunning \<Rightarrow> (case second of NoProcess \<Rightarrow> polled | StillRunning \<Rightarrow> polled | Ended \<Rightarrow> polled))"

section \<open>One execution\<close>

datatype process_end = NotSpawned string | Exited int | Overdue kill_outcome kill_outcome bool "int option"

record execution_world =
  xw_started :: string
  xw_finished :: string
  xw_ms :: int
  xw_features :: "bubblewrap_features res"
  xw_setup :: "unit res"
  xw_host :: host
  xw_host_env :: "(string \<times> string) list"
  xw_end :: process_end
  xw_marker :: bool
  xw_out :: "char list list"
  xw_err :: "char list list"

text \<open>Where the runtime keeps the material of one command; the temporary directories come from its identity.\<close>

record artifact_paths =
  ap_dir :: path
  ap_home :: path
  ap_tmp :: path

definition artifacts_of :: "path \<Rightarrow> path \<Rightarrow> string \<Rightarrow> artifact_paths" where
  "artifacts_of diagnostics runtime_root execution =
     \<lparr>ap_dir = diagnostics @ [''commands'', execution], ap_home = runtime_root @ [py_take 12 execution, ''home''],
      ap_tmp = runtime_root @ [py_take 12 execution, ''tmp'']\<rparr>"

definition output_limit :: nat where
  "output_limit = 2 * (1024 * 1024)"

definition failed_execution ::
  "execution_world \<Rightarrow> execution_status \<Rightarrow> string \<Rightarrow> effective_policy \<Rightarrow> dict \<Rightarrow> command_result" where
  "failed_execution w status error policy prov =
     \<lparr>cx_exit = None, cx_stdout = [], cx_stderr = [], cx_status = status, cx_started_at = Some (xw_started w),
      cx_finished_at = Some (xw_finished w), cx_duration = Some (max 0 (xw_ms w)), cx_timed_out = False, cx_spawn_error = Some error,
      cx_stdout_truncated = False, cx_stderr_truncated = False, cx_stdout_artifact = None, cx_stderr_artifact = None,
      cx_payload_started = False, cx_tree_stopped = True, cx_before_revision = None, cx_after_revision = None,
      cx_before_tree = None, cx_after_tree = None, cx_changes = [], cx_policy = Some (effective_dict policy), cx_provenance = prov\<rparr>"

definition payload_argv :: "path \<Rightarrow> string \<Rightarrow> string \<Rightarrow> string list" where
  "payload_argv marker purpose command =
     (let options = shell_options purpose; pipefail = (if options = [] then [] else '' '' @ join '' '' options) in
      [''/bin/bash'', ''--noprofile'', ''--norc'', ''-c'',
       ''printf started > '' @ [CHR 0x22] @ ''$1'' @ [CHR 0x22] @ ''; exec /bin/bash --noprofile --norc'' @ pipefail
         @ '' -c '' @ [CHR 0x22] @ ''$2'' @ [CHR 0x22],
       ''codeagent-launcher'', path_text marker, command])"

text \<open>Features, masks, mounts and the command line, or the exception that ends the preparation.\<close>

definition sandbox_argv ::
  "execution_world \<Rightarrow> command_request \<Rightarrow> effective_policy \<Rightarrow> command_environment \<Rightarrow> artifact_paths \<Rightarrow> string list res" where
  "sandbox_argv w r policy env paths =
     rbind (xw_features w) (\<lambda>features. rbind (xw_setup w) (\<lambda>u.
     rbind (build_plan (xw_host w) policy (ap_dir paths @ [''masks'', ''empty-dir'']) (ap_dir paths @ [''masks'', ''empty-file''])) (\<lambda>plan.
     Inr (invocation features plan policy (ce_cwd env) (ce_variables env)
       (payload_argv (ap_home paths @ [''payload-started'']) (cr_purpose r) (cr_command r))))))"

definition executed ::
  "execution_world \<Rightarrow> command_request \<Rightarrow> effective_policy \<Rightarrow> dict \<Rightarrow> artifact_paths \<Rightarrow> int option \<Rightarrow> bool \<Rightarrow> bool \<Rightarrow> command_result" where
  "executed w r policy prov paths exit_code timed_out stopped =
     (let out = capped_output output_limit (xw_out w); err = capped_output output_limit (xw_err w);
          status = (if timed_out then CmdTimedOut
                    else if \<not> xw_marker w \<and> exit_code \<noteq> Some 0 then CmdSetupFailed else CmdCompleted) in
      \<lparr>cx_exit = exit_code, cx_stdout = summary_text (cp_data out), cx_stderr = summary_text (cp_data err), cx_status = status,
       cx_started_at = Some (xw_started w), cx_finished_at = Some (xw_finished w), cx_duration = Some (max 0 (xw_ms w)),
       cx_timed_out = timed_out, cx_spawn_error = (if xw_marker w then None else Some ''before payload''),
       cx_stdout_truncated = cp_truncated out, cx_stderr_truncated = cp_truncated err,
       cx_stdout_artifact = Some (path_text (ap_dir paths @ [''stdout.log''])),
       cx_stderr_artifact = Some (path_text (ap_dir paths @ [''stderr.log''])),
       cx_payload_started = xw_marker w, cx_tree_stopped = stopped, cx_before_revision = None, cx_after_revision = None,
       cx_before_tree = None, cx_after_tree = None, cx_changes = [], cx_policy = Some (effective_dict policy), cx_provenance = prov\<rparr>)"

definition sandbox_execute ::
  "execution_world \<Rightarrow> command_request \<Rightarrow> effective_policy \<Rightarrow> path \<Rightarrow> artifact_paths option \<Rightarrow> command_result res" where
  "sandbox_execute w r policy active artifacts =
     (case artifacts of None \<Rightarrow> Inr (failed_execution w CmdRejected ''no runtime directory'' policy no_provenance)
      | Some paths \<Rightarrow>
          (let env = (\<lambda>availability. build_command_environment (xw_host w) (active @ path_parts (cr_cwd r)) (ap_home paths)
                 policy ''bubblewrap'' availability (xw_host_env w)) in
           rbind (env ''available'') (\<lambda>environment.
           case sandbox_argv w r policy environment paths of
             Inl e \<Rightarrow>
               if exn_class e = SandboxUnavailable
               then rbind (env ''unavailable'') (\<lambda>un.
                 Inr (failed_execution w CmdUnavailable (exn_code e) policy (provenance un)))
               else if exn_class e \<in> {OSError, ValueError}
               then Inr (failed_execution w CmdSetupFailed (exn_code e) policy (provenance environment))
               else Inl e
           | Inr argv \<Rightarrow>
               (case xw_end w of
                  NotSpawned e \<Rightarrow> Inr (failed_execution w CmdSpawnFailed e policy (provenance environment))
                | Exited c \<Rightarrow> Inr (executed w r policy (provenance environment) paths (Some c) False True)
                | Overdue first second polled c \<Rightarrow>
                    Inr (executed w r policy (provenance environment) paths c True (terminate_group first second polled))))))"

section \<open>Properties\<close>

lemma capped_fold:
  "cp_data c = take limit d \<Longrightarrow> cp_written c = min limit (length d) \<Longrightarrow> (cp_truncated c \<longleftrightarrow> limit < length d) \<Longrightarrow>
   (let c' = fold (\<lambda>chunk c. capped_step limit c chunk) chunks c; all = d @ concat chunks in
     cp_data c' = take limit all \<and> cp_written c' = min limit (length all) \<and> (cp_truncated c' \<longleftrightarrow> limit < length all))"
proof (induction chunks arbitrary: c d)
  case (Cons x chunks)
  have "cp_data (capped_step limit c x) = take limit (d @ x)"
    "cp_written (capped_step limit c x) = min limit (length (d @ x))"
    "cp_truncated (capped_step limit c x) \<longleftrightarrow> limit < length (d @ x)"
    using Cons.prems by (auto simp: capped_step_def Let_def min_def)
  from Cons.IH [OF this] show ?case by (simp add: Let_def)
qed (simp add: Let_def)

text \<open>
  However the output of a process is split into chunks, what is kept is its first bytes up to the
  limit, and it is marked as truncated exactly when bytes were dropped.
\<close>

theorem capped_output_is_prefix:
  "cp_data (capped_output limit chunks) = take limit (concat chunks)
    \<and> cp_written (capped_output limit chunks) = length (cp_data (capped_output limit chunks))
    \<and> (cp_truncated (capped_output limit chunks) \<longleftrightarrow> limit < length (concat chunks))"
  using capped_fold [of "\<lparr>cp_data = [], cp_written = 0, cp_truncated = False\<rparr>" limit "[]" chunks]
  by (simp add: capped_output_def Let_def min.commute)

lemma sandbox_execute_cases:
  assumes "sandbox_execute w r policy active (Some paths) = Inr x"
  obtains status e prov where "x = failed_execution w status e policy prov" "status \<in> {CmdUnavailable, CmdSetupFailed, CmdSpawnFailed}"
  | prov argv env c where "sandbox_argv w r policy env paths = Inr argv" "xw_end w = Exited c"
      "x = executed w r policy prov paths (Some c) False True"
  | prov argv env first second polled c where "sandbox_argv w r policy env paths = Inr argv" "xw_end w = Overdue first second polled c"
      "x = executed w r policy prov paths c True (terminate_group first second polled)"
proof -
  define env where "env = (\<lambda>availability. build_command_environment (xw_host w) (active @ path_parts (cr_cwd r)) (ap_home paths)
                 policy ''bubblewrap'' availability (xw_host_env w))"
  obtain en where en: "env ''available'' = Inr en"
    using assms by (cases "env ''available''") (simp_all add: sandbox_execute_def env_def Let_def)
  show thesis
  proof (cases "sandbox_argv w r policy en paths")
    case (Inl e)
    then have "(exn_class e = SandboxUnavailable \<and> (\<exists>un. env ''unavailable'' = Inr un \<and> x = failed_execution w CmdUnavailable (exn_code e) policy (provenance un)))
      \<or> x = failed_execution w CmdSetupFailed (exn_code e) policy (provenance en)"
      using assms en
      by (cases "env ''unavailable''") (auto simp: sandbox_execute_def env_def Let_def split: if_splits)
    then show thesis using that(1) by blast
  next
    case (Inr argv)
    then have run: "x = (case xw_end w of NotSpawned e \<Rightarrow> failed_execution w CmdSpawnFailed e policy (provenance en)
                | Exited c \<Rightarrow> executed w r policy (provenance en) paths (Some c) False True
                | Overdue first second polled c \<Rightarrow> executed w r policy (provenance en) paths c True (terminate_group first second polled))"
      using assms en by (simp add: sandbox_execute_def env_def Let_def split: process_end.splits)
    show thesis using run that(1) that(2) [OF Inr] that(3) [OF Inr] by (cases "xw_end w") auto
  qed
qed

text \<open>
  The result of an execution: a command counts as completed only if the process exited; if it did
  not exit with 0, then only if its payload had started; and whenever the payload started, the
  sandbox had been set up and the process was spawned.
\<close>

theorem execution_status_is_sound:
  assumes "sandbox_execute w r policy active (Some paths) = Inr x"
  shows "(cx_status x = CmdCompleted \<longrightarrow> (\<exists>c. xw_end w = Exited c \<and> cx_exit x = Some c \<and> (c \<noteq> 0 \<longrightarrow> xw_marker w)))
    \<and> (cx_payload_started x \<longrightarrow> xw_marker w \<and> (\<exists>f. xw_features w = Inr f) \<and> \<not> (\<exists>e. xw_end w = NotSpawned e))
    \<and> (cx_timed_out x \<longleftrightarrow> cx_status x = CmdTimedOut)"
  using assms
proof (cases rule: sandbox_execute_cases)
  case 1
  then show ?thesis by (auto simp: failed_execution_def)
next
  case (2 prov argv env c)
  then show ?thesis by (auto simp: executed_def Let_def sandbox_argv_def result_simps)
next
  case (3 prov argv env first second polled c)
  then show ?thesis by (auto simp: executed_def Let_def sandbox_argv_def result_simps)
qed

end
