(* ===== verification/Command_Service.thy ===== *)
theory Command_Service
  imports Command_Executor
begin

text \<open>
  \<^verbatim>\<open>runtime/command_service.py\<close> and \<^verbatim>\<open>runtime/validation.py\<close>: the tool that runs a command. A request is
  prepared and bound to a snapshot of the candidate, its permissions are decided and approved, it
  is executed, and what it changed is audited before its result is logged. Each look at the outside
  world reads the environment at the next tick of the clock.
\<close>

section \<open>The service\<close>

record command_env =
  cv_active :: path
  cv_source :: path
  cv_kind :: string
  cv_base :: "string option"
  cv_revision :: int
  cv_home :: path
  cv_uid :: int
  cv_sessions :: path
  cv_runtime :: path
  cv_diagnostics :: path
  cv_links :: nat
  cv_sha :: "char list \<Rightarrow> string"
  cv_uuid :: "nat \<Rightarrow> string"
  cv_now :: "nat \<Rightarrow> string"
  cv_host :: "nat \<Rightarrow> host"
  cv_rev_parse :: "nat \<Rightarrow> string \<Rightarrow> string option"
  cv_observe :: "nat \<Rightarrow> observation"
  cv_artifacts :: "nat \<Rightarrow> unit res"
  cv_execute :: "nat \<Rightarrow> command_request \<Rightarrow> effective_policy \<Rightarrow> artifact_paths \<Rightarrow> command_result res"
  cv_gate :: "command_request \<Rightarrow> permission_evaluation list \<Rightarrow> bool store_prog"

record command_state =
  cm_store :: store
  cm_clock :: nat

type_synonym 'a command_prog = "(command_state, 'a) prog"

definition cm_tick :: "nat command_prog" where
  "cm_tick = (\<lambda>s. (Inr (cm_clock s), s\<lparr>cm_clock := Suc (cm_clock s)\<rparr>))"

definition with_store :: "'a store_prog \<Rightarrow> 'a command_prog" where
  "with_store m = (\<lambda>s. case m (cm_store s) of (r, st) \<Rightarrow> (r, s\<lparr>cm_store := st\<rparr>))"

definition cm_log :: "command_env \<Rightarrow> string \<Rightarrow> dict \<Rightarrow> unit command_prog" where
  "cm_log V ty payload = bnd cm_tick (\<lambda>n. with_store (append_unit (cv_now V n) ty payload))"

definition service_policy :: "command_env \<Rightarrow> nat \<Rightarrow> sandbox_policy res" where
  "service_policy V n = sandbox_policy_of (cv_host V n) (cv_rev_parse V n) (cv_home V) (cv_uid V) (cv_sessions V) (cv_active V)
     (cv_source V) (cv_runtime V)"

definition observe :: "command_env \<Rightarrow> workspace_snapshot command_prog" where
  "observe V = bnd cm_tick (\<lambda>n. lift (take_snapshot (cv_sha V) (cv_links V) (cv_active V) (cv_observe V n)
     (case cv_base V of Some (c # b) \<Rightarrow> c # b | _ \<Rightarrow> ''HEAD'')))"

section \<open>Preparing a request\<close>

definition command_fields :: "string set" where
  "command_fields = {''command'', ''cwd'', ''timeout_seconds'', ''purpose'', ''permissions''}"

definition value_error :: "string \<Rightarrow> exn" where
  "value_error why = Exn ValueError why"

definition command_text :: "dict \<Rightarrow> string res" where
  "command_text args =
     (if \<not> set (map fst args) \<subseteq> command_fields \<or> \<not> has_key ''command'' args then Inl (value_error ''fields'')
      else case dget args ''command'' of
        JStr s \<Rightarrow> if strip s = [] \<or> 32000 < int (py_len s) \<or> CHR 0x00 \<in> set s then Inl (value_error ''command'') else Inr s
      | _ \<Rightarrow> Inl (value_error ''command''))"

definition command_cwd :: "command_env \<Rightarrow> nat \<Rightarrow> dict \<Rightarrow> path res" where
  "command_cwd V n args =
     (case dget_or args ''cwd'' (JStr ''.'') of
        JStr s \<Rightarrow>
          if is_abs s \<or> CHR 0x00 \<in> set s then Inl (value_error ''cwd'')
          else rbind (guard_resolve (ho_fs (cv_host V n)) (cv_links V) (cv_active V) False s) (\<lambda>p.
            if is_dir (ho_fs (cv_host V n)) p then Inr p else Inl (value_error ''cwd''))
      | _ \<Rightarrow> Inl (value_error ''cwd''))"

definition command_timeout :: "dict \<Rightarrow> int res" where
  "command_timeout args = bounded_int (dget_or args ''timeout_seconds'' (JInt 120)) 1 1800"

definition command_purpose :: "dict \<Rightarrow> string res" where
  "command_purpose args = (case dget_or args ''purpose'' (JStr ''utility'') of
     JStr p \<Rightarrow> if p \<in> {''utility'', ''validation''} then Inr p else Inl (value_error ''purpose'')
   | JArr a \<Rightarrow> Inl (Exn TypeError ''purpose'') | JObj d \<Rightarrow> Inl (Exn TypeError ''purpose'')
   | _ \<Rightarrow> Inl (value_error ''purpose''))"

definition command_permissions :: "command_env \<Rightarrow> nat \<Rightarrow> dict \<Rightarrow> permission_request list res" where
  "command_permissions V n args =
     (case dget_or args ''permissions'' (JArr []) of
        JArr xs \<Rightarrow>
          if 20 < length xs then Inl (value_error ''permissions'')
          else rbind (service_policy V n) (\<lambda>sp.
            rmap (\<lambda>x. parse_permission_request (cv_host V n) x (cv_active V) (sp_denied sp)) xs)
      | _ \<Rightarrow> Inl (value_error ''permissions''))"

definition relative_cwd :: "command_env \<Rightarrow> path \<Rightarrow> string" where
  "relative_cwd V p = (case relative_to p (cv_active V) of Some (c # cs) \<Rightarrow> join ''/'' (c # cs) | _ \<Rightarrow> ''.'')"

definition prepare_command :: "command_env \<Rightarrow> json \<Rightarrow> command_request command_prog" where
  "prepare_command V arguments =
     (if cv_kind V \<noteq> ''git_worktree'' \<or> (case cv_base V of Some (c # b) \<Rightarrow> False | _ \<Rightarrow> True)
      then raise (value_error ''not in a worktree'')
      else bnd (lift (case as_obj arguments of None \<Rightarrow> Inl (value_error ''fields'') | Some d \<Rightarrow> Inr d)) (\<lambda>args.
        bnd cm_tick (\<lambda>n.
        bnd (lift (command_text args)) (\<lambda>command.
        bnd (lift (command_cwd V n args)) (\<lambda>cwd.
        bnd (lift (command_timeout args)) (\<lambda>timeout.
        bnd (lift (command_purpose args)) (\<lambda>purpose.
        bnd (lift (command_permissions V n args)) (\<lambda>permissions.
        bnd (observe V) (\<lambda>before.
        bnd (with_store read_meta) (\<lambda>meta.
        bnd (lift (py_int (dget_or meta ''candidate_revision'' (JInt 0)))) (\<lambda>revision.
        ret \<lparr>cr_id = cv_uuid V n, cr_command = command, cr_cwd = relative_cwd V cwd, cr_timeout = timeout, cr_purpose = purpose,
          cr_permissions = permissions, cr_workspace_revision = cv_revision V, cr_base = cv_base V, cr_before_revision = revision,
          cr_before_tree = Some (sn_tree before), cr_sha = cv_sha V command\<rparr>)))))))))))"

section \<open>What is logged and answered\<close>

text \<open>
  \<^verbatim>\<open>_VALIDATION_COMMAND\<close>: at the start or after a separator, one of the word sequences, then white
  space or the end. Words are single-spaced here as they are in the pattern up to white space.
\<close>

definition validation_words :: "string list list" where
  "validation_words = [[''python'', ''-m'', ''pytest''], [''python3'', ''-m'', ''pytest''], [''pytest''], [''tox''], [''nox''], [''ctest''],
     [''cargo'', ''test''], [''go'', ''test''], [''npm'', ''test''], [''npm'', ''run'', ''test''], [''pnpm'', ''test''],
     [''pnpm'', ''run'', ''test''], [''yarn'', ''test''], [''make'', ''test''], [''make'', ''check'']]"

fun match_words :: "string list \<Rightarrow> string \<Rightarrow> bool" where
  "match_words [] s = (case s of [] \<Rightarrow> True | c # r \<Rightarrow> is_space c)"
| "match_words [w] s = (starts_with w s \<and> match_words [] (drop (length w) s))"
| "match_words (w # v # ws) s =
     (starts_with w s \<and> (case drop (length w) s of [] \<Rightarrow> False | c # r \<Rightarrow> is_space c \<and> match_words (v # ws) (dropWhile is_space r)))"

definition validation_here :: "string \<Rightarrow> bool" where
  "validation_here s = list_ex (\<lambda>ws. match_words ws s) validation_words"

fun validation_after :: "string \<Rightarrow> bool" where
  "validation_after [] = False"
| "validation_after (c # s) = ((c \<in> {CHR '';'', CHR ''&'', CHR ''|''} \<and> validation_here (dropWhile is_space s)) \<or> validation_after s)"

definition possible_misclassification :: "command_request \<Rightarrow> bool" where
  "possible_misclassification r = (cr_purpose r = ''utility'' \<and> (let s = strip (cr_command r) in validation_here s \<or> validation_after s))"

definition request_summary :: "command_request \<Rightarrow> permission_evaluation list \<Rightarrow> dict" where
  "request_summary r es = [(''execution_id'', JStr (cr_id r)), (''command'', JStr (py_take 32000 (cr_command r))),
     (''command_sha256'', JStr (cr_sha r)), (''cwd'', JStr (cr_cwd r)), (''purpose'', JStr (cr_purpose r)),
     (''timeout_seconds'', JInt (cr_timeout r)), (''before_candidate_revision'', JInt (cr_before_revision r)),
     (''before_subject_tree'', opt_str (cr_before_tree r)),
     (''possible_validation_misclassified_as_utility'', JBool (possible_misclassification r)),
     (''permissions'', JArr (map (\<lambda>e. JObj (dmerge (request_dict (pe_request e))
        [(''decision'', JStr (decision_text (pe_decision e))), (''policy_reason'', JStr (pe_reason e))])) es))]"

definition completion_summary :: "command_request \<Rightarrow> command_result \<Rightarrow> string \<Rightarrow> dict" where
  "completion_summary r x ws = dmerge [(''execution_id'', JStr (cr_id r)), (''command'', JStr (py_take 32000 (cr_command r))),
     (''command_sha256'', JStr (cr_sha r)), (''cwd'', JStr (cr_cwd r)), (''purpose'', JStr (cr_purpose r)),
     (''status'', JStr (status_value (cx_status x))), (''exit_code'', opt_int (cx_exit x)), (''timed_out'', JBool (cx_timed_out x)),
     (''duration_ms'', opt_int (cx_duration x)), (''before_candidate_revision'', opt_int (cx_before_revision x)),
     (''after_candidate_revision'', opt_int (cx_after_revision x)), (''before_subject_tree'', opt_str (cx_before_tree x)),
     (''after_subject_tree'', opt_str (cx_after_tree x)), (''changed_paths'', JArr (map change_dict (take 100 (cx_changes x)))),
     (''audit_complete'', JBool (ws = ws_value ChangesActive)),
     (''possible_validation_misclassified_as_utility'', JBool (possible_misclassification r)),
     (''workspace_state'', JStr ws), (''effective_policy'', opt_obj (cx_policy x))] (environment_provenance x)"

definition valid_evidence :: "command_result \<Rightarrow> string \<Rightarrow> bool" where
  "valid_evidence x ws = (cx_status x = CmdCompleted \<and> cx_exit x = Some 0 \<and> cx_payload_started x \<and> cx_tree_stopped x
     \<and> ws = ws_value ChangesActive)"

definition evidence_payload :: "command_request \<Rightarrow> string \<Rightarrow> int \<Rightarrow> string option \<Rightarrow> effective_policy \<Rightarrow> dict" where
  "evidence_payload r validation revision tree policy = [(''validation_id'', JStr validation), (''execution_id'', JStr (cr_id r)),
     (''command'', JStr (py_take 32000 (cr_command r))), (''command_sha256'', JStr (cr_sha r)), (''candidate_revision'', JInt revision),
     (''subject_tree'', opt_str tree), (''workspace_revision'', JInt (cr_workspace_revision r)), (''base_commit'', opt_str (cr_base r)),
     (''policy_revision'', JStr (ep_revision policy)), (''status'', JStr ''passed''), (''exit_code'', JInt 0)]"

definition path_warning :: "command_env \<Rightarrow> string \<Rightarrow> string option" where
  "path_warning V command =
     (if cv_active V = cv_source V \<or> \<not> contains_str (path_text (cv_source V)) command then None
      else Some (''baseline_workspace '' @ path_text (cv_source V) @ ''; active_workspace '' @ path_text (cv_active V)))"

definition last_lines :: "nat \<Rightarrow> string list \<Rightarrow> string list" where
  "last_lines n ls = drop (length ls - n) ls"

definition bounded_tail :: "string \<Rightarrow> string" where
  "bounded_tail v =
     (let tail = join [CHR 0x0A] (last_lines 20 (splitlines v)) in
      if int (py_len tail) \<le> 1200 then tail
      else ''...[tail truncated]'' @ CHR 0x0A # py_drop (py_len tail - 1200) tail)"

definition result_content :: "command_result \<Rightarrow> string option \<Rightarrow> string" where
  "result_content x warning = join [CHR 0x0A]
     ([''status: '' @ status_value (cx_status x), ''exit_code: '' @ (case cx_exit x of None \<Rightarrow> ''None'' | Some i \<Rightarrow> show_int i)]
      @ (case warning of Some (c # w) \<Rightarrow> [''workspace_warning: '' @ c # w] | _ \<Rightarrow> [])
      @ (if cx_stdout x = [] then [] else [''stdout:'' @ CHR 0x0A # cx_stdout x])
      @ (if cx_stderr x = [] then [] else [''stderr:'' @ CHR 0x0A # cx_stderr x])
      @ (case cx_spawn_error x of Some (c # e) \<Rightarrow> [''diagnostic: '' @ c # e] | _ \<Rightarrow> [])
      @ [''effective_policy: '' @ dumps '', '' '': '' (opt_obj (cx_policy x))])"

definition command_metadata :: "command_env \<Rightarrow> command_request \<Rightarrow> command_result \<Rightarrow> effective_policy \<Rightarrow> string \<Rightarrow> int \<Rightarrow> dict" where
  "command_metadata V r x policy ws after_revision = dmerge [(''execution_id'', JStr (cr_id r)), (''status'', JStr (status_value (cx_status x))),
     (''exit_code'', opt_int (cx_exit x)), (''before_candidate_revision'', JInt (cr_before_revision r)),
     (''after_candidate_revision'', JInt after_revision), (''command_induced_changes'', JArr (map change_dict (cx_changes x))),
     (''effective_policy'', JObj (effective_dict policy)), (''workspace_state'', JStr ws),
     (''workspace_revision'', JInt (cr_workspace_revision r)), (''active_workspace'', JStr (path_text (cv_active V))),
     (''baseline_workspace'', JStr (path_text (cv_source V))), (''initial_cwd'', JStr (path_text (cv_active V @ path_parts (cr_cwd r)))),
     (''workspace_warning'', opt_str (path_warning V (cr_command r))),
     (''possible_validation_misclassified_as_utility'', JBool (possible_misclassification r)),
     (''stdout_tail'', JStr (bounded_tail (cx_stdout x))), (''stderr_tail'', JStr (bounded_tail (cx_stderr x))),
     (''diagnostic'', opt_str (cx_spawn_error x))] (environment_provenance x)"

definition command_succeeded :: "command_result \<Rightarrow> string \<Rightarrow> bool" where
  "command_succeeded x ws = (cx_status x = CmdCompleted \<and> cx_exit x = Some 0 \<and> ws = ws_value ChangesActive)"

definition command_error_code :: "command_result \<Rightarrow> string \<Rightarrow> string option" where
  "command_error_code x ws = (if command_succeeded x ws then None
     else Some (if cx_status x = CmdCompleted \<and> cx_exit x \<notin> {None, Some 0} then ''command_exit_nonzero'' else status_value (cx_status x)))"

definition command_answer :: "command_env \<Rightarrow> command_request \<Rightarrow> command_result \<Rightarrow> effective_policy \<Rightarrow> string \<Rightarrow> int \<Rightarrow> tool_result" where
  "command_answer V r x policy ws after_revision =
     \<lparr>tr_ok = command_succeeded x ws, tr_content = result_content x (path_warning V (cr_command r)),
      tr_error = (if command_succeeded x ws then None else Some ''command did not succeed''),
      tr_code = command_error_code x ws, tr_truncated = (cx_stdout_truncated x \<or> cx_stderr_truncated x),
      tr_metadata = command_metadata V r x policy ws after_revision\<rparr>"

section \<open>Running a prepared request\<close>

text \<open>The evaluations, or the answer that ends the call; then the grants it runs with.\<close>

definition decide_permissions :: "command_env \<Rightarrow> command_request \<Rightarrow> (sandbox_policy \<times> permission_evaluation list \<times> permission_grant list) command_prog" where
  "decide_permissions V r =
     bnd cm_tick (\<lambda>n. bnd (lift (service_policy V n)) (\<lambda>sp.
     bnd (with_store permission_grants) (\<lambda>grants.
     bnd (lift (rmap (\<lambda>p. evaluate_permission (cv_host V n) sp p grants) (cr_permissions r))) (\<lambda>es.
     seq_then (cm_log V ''command_requested'' (request_summary r es)) (ret (sp, es, grants))))))"

definition approved_grants :: "command_request \<Rightarrow> permission_evaluation list \<Rightarrow> permission_grant list" where
  "approved_grants r es = map (\<lambda>e. grant_for (pe_request e) (Some (cr_id r))) (filter (\<lambda>e. pe_decision e \<in> {PermAllow, PermAsk}) es)"

definition store_grants :: "permission_grant list \<Rightarrow> permission_grant list \<Rightarrow> permission_grant list command_prog" where
  "store_grants session_new grants = (if session_new = [] then ret grants
     else seq_then (with_store (add_permission_grants session_new)) (with_store permission_grants))"

text \<open>The resources are bound again and the candidate must be the one the request was made for.\<close>

definition recheck_all :: "command_env \<Rightarrow> command_request \<Rightarrow> workspace_snapshot command_prog" where
  "recheck_all V r = bnd cm_tick (\<lambda>n.
     seq_then (lift (rfold (\<lambda>u p. recheck_request (cv_host V n) p (cv_active V)) () (cr_permissions r))) (observe V))"

definition recheck_before :: "command_env \<Rightarrow> command_request \<Rightarrow> (tool_result + workspace_snapshot) command_prog" where
  "recheck_before V r = try_catch
     (bnd (recheck_all V r) (\<lambda>before.
       ret (if Some (sn_tree before) \<noteq> cr_before_tree r then Inl (tool_failure ''stale'' ''command_request_stale'') else Inr before)))
     (\<lambda>e. if exn_class e = PermissionError then ret (Inl (tool_failure ''recheck'' (exn_code e)))
          else if exn_class e = WorkspaceAuditError then ret (Inl (tool_failure ''audit'' ''workspace_audit_unavailable''))
          else raise e)"

text \<open>The audit after a command, its candidate revision, its tree and its changes.\<close>

definition audit_after ::
  "command_env \<Rightarrow> command_request \<Rightarrow> workspace_snapshot \<Rightarrow> command_result \<Rightarrow> (int \<times> string option \<times> audit_change list) command_prog" where
  "audit_after V r before x =
     (let unchanged = (cr_before_revision r, cr_before_tree r, []) in
      if \<not> cx_payload_started x then ret unchanged
      else if \<not> cx_tree_stopped x
      then bnd cm_tick (\<lambda>n. seq_then (with_store (mark_recovery_required (cv_now V n) ''process tree'')) (ret unchanged))
      else try_catch
        (bnd (observe V) (\<lambda>after.
          let changes = compare_workspace before after in
          bnd (if changes = [] then ret (cr_before_revision r) else with_store next_candidate_revision) (\<lambda>revision.
          ret (revision, Some (sn_tree after), changes))))
        (\<lambda>e. if exn_class e = WorkspaceAuditError
             then bnd cm_tick (\<lambda>n. seq_then (with_store (mark_workspace_tainted (cv_now V n) ''after audit'' [])) (ret unchanged))
             else raise e))"

definition execute_request ::
  "command_env \<Rightarrow> command_request \<Rightarrow> effective_policy \<Rightarrow> workspace_snapshot \<Rightarrow> tool_result command_prog" where
  "execute_request V r policy before =
     bnd cm_tick (\<lambda>n. seq_then (lift (cv_artifacts V n))
     (bnd (lift (cv_execute V n r policy (artifacts_of (cv_diagnostics V) (cv_runtime V) (cr_id r)))) (\<lambda>x0.
     bnd (audit_after V r before x0) (\<lambda>(revision, tree, changes).
     let x = x0\<lparr>cx_before_revision := Some (cr_before_revision r), cx_after_revision := Some revision,
                cx_before_tree := cr_before_tree r, cx_after_tree := tree, cx_changes := changes\<rparr> in
     bnd (with_store workspace_state) (\<lambda>ws.
     seq_then (cm_log V ''command_completed'' (completion_summary r x (ws_value ws)))
     (seq_then (if cr_purpose r = ''validation'' \<and> valid_evidence x (ws_value ws)
        then bnd cm_tick (\<lambda>m. cm_log V ''validation_completed'' (evidence_payload r (cv_uuid V m) revision tree policy)) else ret ())
     (ret (command_answer V r x policy (ws_value ws) revision))))))))"

definition run_prepared :: "command_env \<Rightarrow> command_request \<Rightarrow> tool_result command_prog" where
  "run_prepared V r =
     bnd (decide_permissions V r) (\<lambda>(sp, es, grants).
     case find (\<lambda>e. pe_decision e = PermDeny) es of
       Some e \<Rightarrow> ret (tool_failure (pe_reason e) ''permission_denied'')
     | None \<Rightarrow>
         (let asks = filter (\<lambda>e. pe_decision e = PermAsk) es in
          bnd (if asks = [] then ret True else with_store (cv_gate V r asks)) (\<lambda>allowed.
          if \<not> allowed
          then seq_then (cm_log V ''permission_denied'' [(''execution_id'', JStr (cr_id r)), (''kind'', JStr ''approval'')])
                 (ret (tool_failure ''denied'' ''approval_denied''))
          else let given = approved_grants r es in
            bnd (store_grants (filter (\<lambda>g. pg_scope g = ScopeSession \<and> g \<notin> set grants) given) grants) (\<lambda>session.
            bnd (recheck_before V r) (\<lambda>b. case b of
              Inl answer \<Rightarrow> ret answer
            | Inr before \<Rightarrow> execute_request V r (effective sp session (filter (\<lambda>g. pg_scope g = ScopeOnce) given)) before)))))"

definition run_command :: "command_env \<Rightarrow> json \<Rightarrow> tool_result command_prog" where
  "run_command V arguments =
     bnd (with_store workspace_state) (\<lambda>ws.
     if ws = RecoveryRequired then ret (tool_failure ''recovery'' ''recovery_required'')
     else if ws = WorkspaceTainted then ret (tool_failure ''tainted'' ''workspace_tainted'')
     else try_catch (bnd (prepare_command V arguments) (run_prepared V))
       (\<lambda>e. if exn_class e \<in> {PermissionError, PathGuardError, WorkspaceAuditError, TypeError, ValueError, UnicodeDecodeError}
            then ret (tool_failure ''command'' (if exn_class e = PermissionError then exn_code e else ''invalid_arguments''))
            else raise e))"

section \<open>Evidence\<close>

definition current_validation_evidence ::
  "fs \<Rightarrow> nat \<Rightarrow> path \<Rightarrow> git_world \<Rightarrow> string option \<Rightarrow> int \<Rightarrow> session_event list \<Rightarrow> dict list res" where
  "current_validation_evidence fs n active w base revision es =
     (case snapshot_tree fs n active w (case base of Some (c # b) \<Rightarrow> c # b | _ \<Rightarrow> ''HEAD'') of
        Inl e \<Rightarrow> if exn_class e = GitSnapshotError then Inr [] else Inl e
      | Inr tree \<Rightarrow> rfold (\<lambda>acc e. let p = ev_payload e in
          if ev_type e = ''validation_completed'' \<and> dget p ''status'' = JStr ''passed''
          then rbind (py_int (dget_or p ''workspace_revision'' (JInt (- 1)))) (\<lambda>i.
            Inr (if i = revision \<and> dget p ''base_commit'' = opt_str base \<and> dget p ''subject_tree'' = JStr tree then acc @ [p] else acc))
          else Inr acc) [] es)"

end
