(* ===== verification/Command_Traces.thy ===== *)
theory Command_Traces
  imports Command_Service
begin

text \<open>
  What a run of a command logs: which operations leave the log quiet, and the trace of a run that
  executed its command.
\<close>

section \<open>Quiet operations\<close>

text \<open>The session was only operated on, and no event of a type in \<open>T\<close> was added to \<open>es\<close>.\<close>

definition quiet_log :: "string set \<Rightarrow> session_event list \<Rightarrow> store \<Rightarrow> bool" where
  "quiet_log T es st \<longleftrightarrow> log_ok st \<and> (\<exists>fs. st_events st = es @ fs \<and> (\<forall>f \<in> set fs. ev_type f \<notin> T))"

abbreviation cm_quiet :: "string set \<Rightarrow> session_event list \<Rightarrow> command_state \<Rightarrow> bool" where
  "cm_quiet T es s \<equiv> quiet_log T es (cm_store s)"

lemma quiet_log_start: "log_ok st \<Longrightarrow> quiet_log T (st_events st) st"
  by (simp add: quiet_log_def)

lemma quiet_log_ok: "quiet_log T es st \<Longrightarrow> log_ok st"
  by (simp add: quiet_log_def)

lemma quiet_with_event: "quiet_log T es st \<Longrightarrow> ty \<notin> T \<Longrightarrow> quiet_log T es (with_event now ty p st)"
  unfolding quiet_log_def by (auto simp: with_event_ok)

lemma quiet_append_unit: "ty \<notin> T \<Longrightarrow> preserves (quiet_log T es) (append_unit now ty p)"
  by (rule preservesI) (simp add: append_unit_run quiet_log_ok quiet_with_event)

lemma quiet_write:
  "quiet_log T es st \<Longrightarrow> log_inv meta (st_events st) \<Longrightarrow> quiet_log T es (st\<lparr>st_meta := meta\<rparr>)"
  by (simp add: quiet_log_def log_ok_def)

lemma quiet_read_meta: "preserves (quiet_log T es) read_meta"
  by (simp add: preserves_def read_meta_def)

lemma quiet_workspace_state: "preserves (quiet_log T es) workspace_state"
  unfolding workspace_state_def by (intro preserves_intros quiet_read_meta)

lemma quiet_grants: "preserves (quiet_log T es) permission_grants"
  unfolding permission_grants_def by (intro preserves_intros quiet_read_meta)

lemma quiet_meta_step:
  assumes "\<And>meta es. log_inv meta es \<Longrightarrow> log_inv (f meta) es"
  shows "quiet_log T es st \<Longrightarrow> quiet_log T es (st\<lparr>st_meta := f (st_meta st)\<rparr>)"
  using assms by (auto intro!: quiet_write simp: quiet_log_def log_ok_def)

lemma quiet_add_grants: "preserves (quiet_log T es) (add_permission_grants gs)"
proof (rule preservesI)
  fix st assume q: "quiet_log T es st"
  have "quiet_log T es (st\<lparr>st_meta := dset ''permission_grants'' v (st_meta st)\<rparr>)" for v
    by (rule quiet_meta_step [OF _ q]) (simp add: log_inv_dset log_keys_def)
  then show "quiet_log T es (snd (add_permission_grants gs st))"
    using q quiet_log_ok [OF q]
    by (cases "json_items (dget_or (st_meta st) ''permission_grants'' (JArr []))")
      (simp_all add: add_permission_grants_def bnd_def)
qed

lemma quiet_next_revision: "preserves (quiet_log T es) next_candidate_revision"
proof (rule preservesI)
  fix st assume q: "quiet_log T es st"
  have "quiet_log T es (st\<lparr>st_meta := dset ''candidate_revision'' v (st_meta st)\<rparr>)" for v
    by (rule quiet_meta_step [OF _ q]) (simp add: log_inv_dset log_keys_def)
  then show "quiet_log T es (snd (next_candidate_revision st))"
    using q quiet_log_ok [OF q]
    by (cases "py_int (dget_or (st_meta st) ''candidate_revision'' (JInt 0))")
      (simp_all add: next_candidate_revision_def bnd_def seq_then_def)
qed

lemma quiet_state_mark:
  assumes "ty \<notin> T"
  shows "preserves (quiet_log T es) (bnd read_meta (\<lambda>meta. seq_then (write_state (set_state w reason meta)) (append_unit now ty (p meta))))"
proof (rule preservesI)
  fix st assume q: "quiet_log T es st"
  let ?st = "st\<lparr>st_meta := set_state w reason (st_meta st)\<rparr>"
  have m: "quiet_log T es ?st" by (rule quiet_meta_step [OF _ q]) (simp add: log_inv_set_state)
  then show "quiet_log T es (snd (bnd read_meta (\<lambda>meta. seq_then (write_state (set_state w reason meta)) (append_unit now ty (p meta))) st))"
    using quiet_log_ok [OF q] quiet_log_ok [OF m] assms
    by (simp add: bnd_def seq_then_def append_unit_run quiet_with_event)
qed

lemma quiet_tainted: "''workspace_tainted'' \<notin> T \<Longrightarrow> preserves (quiet_log T es) (mark_workspace_tainted now reason files)"
  unfolding mark_workspace_tainted_def by (rule quiet_state_mark)

lemma quiet_recovery: "''recovery_required'' \<notin> T \<Longrightarrow> preserves (quiet_log T es) (mark_recovery_required now reason)"
  unfolding mark_recovery_required_def by (rule quiet_state_mark)

section \<open>The operations of the service\<close>

lemma cm_quiet_tick: "preserves (\<lambda>s. P (cm_store s)) cm_tick"
  by (rule preservesI) (simp add: cm_tick_def)

lemma cm_quiet_store: "preserves P m \<Longrightarrow> preserves (\<lambda>s. P (cm_store s)) (with_store m)"
  by (rule preservesI) (auto simp: with_store_def preserves_def split: prod.splits)

lemma cm_quiet_log: "ty \<notin> T \<Longrightarrow> preserves (cm_quiet T es) (cm_log V ty p)"
  unfolding cm_log_def by (intro preserves_intros cm_quiet_tick cm_quiet_store quiet_append_unit)

lemma cm_quiet_observe: "preserves (cm_quiet T es) (observe V)"
  unfolding observe_def by (intro preserves_intros cm_quiet_tick)

text \<open>The gate may log what it does, but nothing of the command, and keeps the session well formed.\<close>

definition gate_ok :: "command_env \<Rightarrow> bool" where
  "gate_ok V \<longleftrightarrow> (\<forall>r asks es. preserves (quiet_log {''command_completed'', ''validation_completed''} es) (cv_gate V r asks))"

abbreviation command_types :: "string set" where
  "command_types \<equiv> {''command_completed'', ''validation_completed''}"

lemma cm_quiet_decide: "preserves (cm_quiet command_types es) (decide_permissions V r)"
  unfolding decide_permissions_def
  by (intro preserves_intros cm_quiet_tick cm_quiet_store quiet_grants cm_quiet_log) simp_all

lemma cm_quiet_store_grants: "preserves (cm_quiet T es) (store_grants new grants)"
  unfolding store_grants_def by (intro preserves_intros cm_quiet_store quiet_grants quiet_add_grants)

lemma cm_quiet_recheck_all: "preserves (cm_quiet T es) (recheck_all V r)"
  unfolding recheck_all_def by (intro preserves_intros cm_quiet_tick cm_quiet_observe)

lemma cm_quiet_recheck: "preserves (cm_quiet T es) (recheck_before V r)"
  unfolding recheck_before_def by (intro preserves_intros cm_quiet_recheck_all)

lemma cm_quiet_audit: "preserves (cm_quiet command_types es) (audit_after V r before x)"
  unfolding audit_after_def Let_def
  by (intro preserves_intros cm_quiet_tick cm_quiet_store cm_quiet_observe quiet_next_revision quiet_tainted quiet_recovery) simp_all

lemma cm_log_run: "log_ok (cm_store s) \<Longrightarrow> cm_log V ty p s =
    (Inr (), s\<lparr>cm_clock := Suc (cm_clock s), cm_store := with_event (cv_now V (cm_clock s)) ty p (cm_store s)\<rparr>)"
  by (simp add: cm_log_def cm_tick_def with_store_def bnd_def append_unit_run)

end
