(* ===== verification/Command_Outcomes.thy ===== *)
theory Command_Outcomes
  imports Command_Traces
begin

text \<open>
  How a run of a command ends: the effect of the audit, the trace of an execution, what a request
  passed before it, and from these the two outcomes of the tool.
\<close>

section \<open>The state after a mark\<close>

lemma dget_advance_state [simp]:
  "dget (st_meta (with_event now ty p st)) ''workspace_state'' = dget (st_meta st) ''workspace_state''"
  by (simp add: with_event_def Let_def advance_meta_def retitle_def)

abbreviation ws_of :: "store \<Rightarrow> session_workspace_state option" where
  "ws_of st \<equiv> parse_ws (dget (st_meta st) ''workspace_state'')"

lemma parse_ws_value [simp]: "parse_ws (JStr (ws_value w)) = Some w"
  by (cases w; simp only:; code_simp)

lemma state_mark_state:
  assumes "log_ok st"
  shows "ws_of (snd (bnd read_meta (\<lambda>meta. seq_then (write_state (set_state w reason meta)) (append_unit now ty (p meta))) st)) = Some w"
proof -
  let ?st = "st\<lparr>st_meta := set_state w reason (st_meta st)\<rparr>"
  have "log_ok ?st" using assms by (auto simp: log_ok_def log_inv_set_state)
  then show ?thesis using assms by (simp add: bnd_def seq_then_def append_unit_run) (simp add: set_state_def)
qed

lemma marked_tainted_state: "log_ok st \<Longrightarrow> ws_of (snd (mark_workspace_tainted now reason files st)) = Some WorkspaceTainted"
  unfolding mark_workspace_tainted_def by (rule state_mark_state)

lemma marked_recovery_state: "log_ok st \<Longrightarrow> ws_of (snd (mark_recovery_required now reason st)) = Some RecoveryRequired"
  unfolding mark_recovery_required_def by (rule state_mark_state)

section \<open>The audit of a command\<close>

text \<open>A snapshot of the candidate at some tick.\<close>

definition snapshot_of :: "command_env \<Rightarrow> nat \<Rightarrow> workspace_snapshot \<Rightarrow> bool" where
  "snapshot_of V n s \<longleftrightarrow> take_snapshot (cv_sha V) (cv_links V) (cv_active V) (cv_observe V n)
     (case cv_base V of Some (c # b) \<Rightarrow> c # b | _ \<Rightarrow> ''HEAD'') = Inr s"

lemma observe_run: "observe V s = (r, t) \<Longrightarrow> t = s\<lparr>cm_clock := Suc (cm_clock s)\<rparr> \<and> (\<forall>a. r = Inr a \<longrightarrow> snapshot_of V (cm_clock s) a)"
  by (auto simp: observe_def cm_tick_def bnd_def snapshot_of_def)

text \<open>What the audit may report of a command that ran.\<close>

definition audited :: "command_env \<Rightarrow> command_request \<Rightarrow> workspace_snapshot \<Rightarrow> command_result \<Rightarrow> store \<Rightarrow> int \<Rightarrow> string option \<Rightarrow> audit_change list \<Rightarrow> bool" where
  "audited V r before x st revision tree changes \<longleftrightarrow>
     (cx_payload_started x \<and> cx_tree_stopped x \<and> (\<exists>n after. snapshot_of V n after \<and> tree = Some (sn_tree after)
        \<and> changes = compare_workspace before after
        \<and> (changes = [] \<longrightarrow> revision = cr_before_revision r)
        \<and> (changes \<noteq> [] \<longrightarrow> dget (st_meta st) ''candidate_revision'' = JInt revision)))
     \<or> (revision, tree, changes) = (cr_before_revision r, cr_before_tree r, []) \<and>
       (\<not> cx_payload_started x \<or> \<not> cx_tree_stopped x \<and> ws_of st = Some RecoveryRequired \<or> ws_of st = Some WorkspaceTainted)"

lemma next_revision_effect:
  assumes "log_ok st" and "next_candidate_revision st = (Inr n, st')"
  shows "dget (st_meta st') ''candidate_revision'' = JInt n"
  using assms by (auto simp: next_candidate_revision_def bnd_def seq_then_def split: sum.splits)

definition audit_body :: "command_env \<Rightarrow> command_request \<Rightarrow> workspace_snapshot \<Rightarrow> (int \<times> string option \<times> audit_change list) command_prog" where
  "audit_body V r before = bnd (observe V) (\<lambda>after.
     let changes = compare_workspace before after in
     bnd (if changes = [] then ret (cr_before_revision r) else with_store next_candidate_revision) (\<lambda>revision.
     ret (revision, Some (sn_tree after), changes)))"

lemma audit_body_ok: "preserves (cm_quiet {} es) (audit_body V r before)"
  unfolding audit_body_def Let_def by (intro preserves_intros cm_quiet_observe cm_quiet_store quiet_next_revision)

lemma audit_body_Inr:
  assumes "log_ok (cm_store s)" and "audit_body V r before s = (Inr (revision, tree, changes), t)"
  obtains n after where "snapshot_of V n after" "tree = Some (sn_tree after)" "changes = compare_workspace before after"
    "changes = [] \<longrightarrow> revision = cr_before_revision r"
    "changes \<noteq> [] \<longrightarrow> dget (st_meta (cm_store t)) ''candidate_revision'' = JInt revision"
proof -
  obtain q s1 where o1: "observe V s = (q, s1)" by fastforce
  note s1 = observe_run [OF o1]
  obtain after where q: "q = Inr after" using assms(2) by (cases q) (simp_all add: audit_body_def bnd_def o1)
  let ?changes = "compare_workspace before after"
  have ok: "log_ok (cm_store s1)" using s1 assms(1) by simp
  have sn: "snapshot_of V (cm_clock s) after" using s1 q by simp
  show thesis
  proof (cases "?changes = []")
    case True
    with assms(2) show thesis by (intro that [OF sn]) (simp_all add: audit_body_def bnd_def o1 q)
  next
    case False
    obtain u st where n: "next_candidate_revision (cm_store s1) = (u, st)" by fastforce
    with assms(2) False show thesis
      by (intro that [OF sn]) (auto simp: audit_body_def bnd_def o1 q with_store_def Let_def dest!: next_revision_effect [OF ok] split: sum.splits)
  qed
qed

lemma audit_after_seen: "cx_payload_started x \<Longrightarrow> cx_tree_stopped x \<Longrightarrow> audit_after V r before x s = (case audit_body V r before s of
    (Inr y, s1) \<Rightarrow> (Inr y, s1)
  | (Inl e, s1) \<Rightarrow> if exn_class e \<noteq> WorkspaceAuditError then (Inl e, s1)
      else case mark_workspace_tainted (cv_now V (cm_clock s1)) ''after audit'' [] (cm_store s1) of
          (Inl e, st) \<Rightarrow> (Inl e, s1\<lparr>cm_clock := Suc (cm_clock s1), cm_store := st\<rparr>)
        | (Inr u, st) \<Rightarrow> (Inr (cr_before_revision r, cr_before_tree r, []), s1\<lparr>cm_clock := Suc (cm_clock s1), cm_store := st\<rparr>))"
  by (auto simp: audit_after_def audit_body_def try_catch_def bnd_def seq_then_def cm_tick_def with_store_def split: prod.splits sum.splits)

lemma audit_after_effect:
  assumes "log_ok (cm_store s)" and "audit_after V r before x s = (Inr (revision, tree, changes), t)"
  shows "audited V r before x (cm_store t) revision tree changes"
proof -
  consider (off) "\<not> cx_payload_started x" | (tree) "cx_payload_started x" "\<not> cx_tree_stopped x"
    | (seen) "cx_payload_started x" "cx_tree_stopped x" by blast
  then show ?thesis
  proof cases
    case off
    with assms(2) show ?thesis by (simp add: audit_after_def audited_def)
  next
    case tree
    with assms(2) marked_recovery_state [OF assms(1), of "cv_now V (cm_clock s)" "''process tree''"] show ?thesis
      by (auto simp: audit_after_def audited_def bnd_def seq_then_def cm_tick_def with_store_def split: prod.splits sum.splits)
  next
    case seen
    obtain q s1 where b: "audit_body V r before s = (q, s1)" by fastforce
    have ok: "log_ok (cm_store s1)"
      using preservesD [OF audit_body_ok quiet_log_start [OF assms(1)] b] by (rule quiet_log_ok)
    show ?thesis
    proof (cases q)
      case (Inr y)
      with assms(2) seen b have "audit_body V r before s = (Inr (revision, tree, changes), t)"
        by (simp add: audit_after_seen)
      from audit_body_Inr [OF assms(1) this] seen show ?thesis by (simp add: audited_def) metis
    next
      case (Inl e)
      with assms(2) seen b marked_tainted_state [OF ok, of "cv_now V (cm_clock s1)" "''after audit''" "[]"] show ?thesis
        by (auto simp: audit_after_seen audited_def split: prod.splits sum.splits if_splits)
    qed
  qed
qed

section \<open>The trace of a run\<close>

definition final_result :: "command_request \<Rightarrow> command_result \<Rightarrow> int \<Rightarrow> string option \<Rightarrow> audit_change list \<Rightarrow> command_result" where
  "final_result r x revision tree changes =
     x\<lparr>cx_before_revision := Some (cr_before_revision r), cx_after_revision := Some revision,
       cx_before_tree := cr_before_tree r, cx_after_tree := tree, cx_changes := changes\<rparr>"

lemma final_result_fields [simp]:
  "cx_status (final_result r x i tr cs) = cx_status x" "cx_exit (final_result r x i tr cs) = cx_exit x"
  "cx_payload_started (final_result r x i tr cs) = cx_payload_started x" "cx_tree_stopped (final_result r x i tr cs) = cx_tree_stopped x"
  "cx_changes (final_result r x i tr cs) = cs" "cx_after_tree (final_result r x i tr cs) = tr"
  "cx_after_revision (final_result r x i tr cs) = Some i"
  by (simp_all add: final_result_def)

lemma valid_evidence_final [simp]: "valid_evidence (final_result r x i tr cs) w \<longleftrightarrow> valid_evidence x w"
  by (simp add: valid_evidence_def)

text \<open>
  A request was executed: its payload returned \<open>x\<close>, the audit reported \<open>i\<close>, \<open>tr\<close> and \<open>cs\<close>, the session
  ended in state \<open>w\<close>, and the events after \<open>es\<close> end with its completion and, if due, the evidence.
\<close>

definition ran :: "command_env \<Rightarrow> command_request \<Rightarrow> effective_policy \<Rightarrow> workspace_snapshot \<Rightarrow> session_event list \<Rightarrow> command_result \<Rightarrow>
    int \<Rightarrow> string option \<Rightarrow> audit_change list \<Rightarrow> session_workspace_state \<Rightarrow> command_state \<Rightarrow> bool" where
  "ran V r policy before es x i tr cs w t \<longleftrightarrow>
     (\<exists>n. cv_execute V n r policy (artifacts_of (cv_diagnostics V) (cv_runtime V) (cr_id r)) = Inr x)
     \<and> audited V r before x (cm_store t) i tr cs \<and> ws_of (cm_store t) = Some w
     \<and> (\<exists>qs e fs. st_events (cm_store t) = es @ qs @ e # fs \<and> (\<forall>f \<in> set qs. ev_type f \<notin> command_types)
          \<and> ev_type e = ''command_completed'' \<and> ev_payload e = completion_summary r (final_result r x i tr cs) (ws_value w)
          \<and> (if cr_purpose r = ''validation'' \<and> valid_evidence x (ws_value w)
             then \<exists>f m. fs = [f] \<and> ev_type f = ''validation_completed'' \<and> ev_payload f = evidence_payload r (cv_uuid V m) i tr policy
             else fs = []))"

lemma audited_with_event: "audited V r b x st i tr cs \<Longrightarrow> audited V r b x (with_event now ty p st) i tr cs"
proof -
  have "dget (st_meta (with_event now ty p st)) ''candidate_revision'' = dget (st_meta st) ''candidate_revision''"
    by (simp add: with_event_def Let_def advance_meta_def retitle_def)
  then show "audited V r b x st i tr cs \<Longrightarrow> audited V r b x (with_event now ty p st) i tr cs"
    unfolding audited_def by auto
qed

lemma events_with_event: "st_events (with_event now ty p st) = st_events st @ [new_event now ty p st]"
    "ev_type (new_event now ty p st) = ty" "ev_payload (new_event now ty p st) = p"
  by (simp_all add: with_event_def new_event_def Let_def)

lemma quiet_log_trans: "quiet_log T es st \<Longrightarrow> quiet_log T (st_events st) st' \<Longrightarrow> quiet_log T es st'"
  unfolding quiet_log_def by auto

lemma execute_log_run:
  assumes ok: "log_ok (cm_store s)" and w: "ws_of (cm_store s) = Some w"
    and au: "audited V r before x (cm_store s) i tr cs" and q: "cm_quiet command_types es s"
    and ex: "cv_execute V n r policy (artifacts_of (cv_diagnostics V) (cv_runtime V) (cr_id r)) = Inr x"
    and run: "seq_then (cm_log V ''command_completed'' (completion_summary r (final_result r x i tr cs) (ws_value w)))
       (seq_then (if cr_purpose r = ''validation'' \<and> valid_evidence (final_result r x i tr cs) (ws_value w)
          then bnd cm_tick (\<lambda>m. cm_log V ''validation_completed'' (evidence_payload r (cv_uuid V m) i tr policy)) else ret ())
       (ret a)) s = (res, t)"
  shows "ran V r policy before es x i tr cs w t \<and> res = Inr a"
proof -
  let ?p = "completion_summary r (final_result r x i tr cs) (ws_value w)"
  let ?st = "with_event (cv_now V (cm_clock s)) ''command_completed'' ?p (cm_store s)"
  let ?s = "s\<lparr>cm_clock := Suc (cm_clock s), cm_store := ?st\<rparr>"
  have l: "cm_log V ''command_completed'' ?p s = (Inr (), ?s)" by (rule cm_log_run [OF ok])
  obtain qs where qs: "st_events (cm_store s) = es @ qs" "\<forall>f \<in> set qs. ev_type f \<notin> command_types"
    using q by (auto simp: quiet_log_def)
  have ok': "log_ok ?st" by (rule with_event_ok [OF ok])
  show ?thesis
  proof (cases "cr_purpose r = ''validation'' \<and> valid_evidence x (ws_value w)")
    case True
    let ?u = "?s\<lparr>cm_clock := Suc (cm_clock ?s)\<rparr>"
    let ?q = "evidence_payload r (cv_uuid V (cm_clock ?s)) i tr policy"
    have "cm_log V ''validation_completed'' ?q ?u = (Inr (), ?u\<lparr>cm_clock := Suc (cm_clock ?u),
        cm_store := with_event (cv_now V (cm_clock ?u)) ''validation_completed'' ?q ?st\<rparr>)"
      using cm_log_run [of ?u V] ok' by simp
    then have "t = ?u\<lparr>cm_clock := Suc (cm_clock ?u), cm_store := with_event (cv_now V (cm_clock ?u)) ''validation_completed'' ?q ?st\<rparr>" "res = Inr a"
      using run True l by (simp_all add: seq_then_def bnd_def cm_tick_def)
    then show ?thesis using True w ex au qs
      by (auto simp: ran_def events_with_event audited_with_event intro!: exI [of _ qs])
  next
    case False
    then have "t = ?s" "res = Inr a" using run l by (auto simp: seq_then_def bnd_def)
    then show ?thesis using False w ex au qs
      by (auto simp: ran_def events_with_event audited_with_event intro!: exI [of _ qs])
  qed
qed

lemma execute_request_trace:
  assumes ok: "log_ok (cm_store s)" and run: "execute_request V r policy before s = (res, t)"
  shows "cm_quiet command_types (st_events (cm_store s)) t \<and> (\<exists>e. res = Inl e) \<or>
    (\<exists>x i tr cs w. ran V r policy before (st_events (cm_store s)) x i tr cs w t
       \<and> res = Inr (command_answer V r (final_result r x i tr cs) policy (ws_value w) i))"
proof -
  let ?es = "st_events (cm_store s)" and ?n = "cm_clock s" and ?s = "s\<lparr>cm_clock := Suc (cm_clock s)\<rparr>"
  let ?x = "cv_execute V ?n r policy (artifacts_of (cv_diagnostics V) (cv_runtime V) (cr_id r))"
  have q: "cm_quiet command_types ?es ?s" using ok by (simp add: quiet_log_start)
  show ?thesis
  proof (cases "\<exists>u x. cv_artifacts V ?n = Inr u \<and> ?x = Inr x")
    case False
    then have "t = ?s \<and> (\<exists>e. res = Inl e)" using run
      by (auto simp: execute_request_def seq_then_def bnd_def cm_tick_def split: sum.splits)
    with q show ?thesis by simp
  next
    case True
    then obtain x where x: "cv_artifacts V ?n = Inr ()" "?x = Inr x" by auto
    obtain au s1 where a: "audit_after V r before x ?s = (au, s1)" by fastforce
    have q1: "cm_quiet command_types ?es s1" by (rule preservesD [OF cm_quiet_audit q a])
    note ok1 = quiet_log_ok [OF q1]
    show ?thesis
    proof (cases "\<exists>y w. au = Inr y \<and> ws_of (cm_store s1) = Some w")
      case False
      then have "t = s1 \<and> (\<exists>e. res = Inl e)" using run x a
        by (auto simp: execute_request_def seq_then_def bnd_def cm_tick_def with_store_def Let_def workspace_state_run [OF ok1] split: sum.splits option.splits)
      with q1 show ?thesis by simp
    next
      case True
      then obtain i tr cs w where au: "au = Inr (i, tr, cs)" and w: "ws_of (cm_store s1) = Some w"
        by (metis prod_cases3)
      have aud: "audited V r before x (cm_store s1) i tr cs"
        by (rule audit_after_effect [OF _ a [unfolded au]]) (simp add: ok)
      show ?thesis
        using execute_log_run [OF ok1 w aud q1 x(2), of "command_answer V r (final_result r x i tr cs) policy (ws_value w) i" res t] run x a au w
        by (simp add: execute_request_def bnd_def [of cm_tick] bnd_def [of "with_store workspace_state"] seq_then_def [of "lift _"] bnd_def [of "lift _"] bnd_def [of "audit_after _ _ _ _"]
              cm_tick_def with_store_def [of workspace_state] Let_def workspace_state_run [OF ok1] flip: final_result_def) blast
    qed
  qed
qed

section \<open>The trace of a prepared request\<close>

text \<open>What the request passed before it ran.\<close>

definition admitted :: "command_env \<Rightarrow> command_request \<Rightarrow> permission_evaluation list \<Rightarrow> effective_policy \<Rightarrow> workspace_snapshot \<Rightarrow> bool" where
  "admitted V r es policy before \<longleftrightarrow>
     (\<forall>e \<in> set es. pe_decision e \<noteq> PermDeny)
     \<and> (\<exists>n grants sp session. service_policy V n = Inr sp \<and> rmap (\<lambda>p. evaluate_permission (cv_host V n) sp p grants) (cr_permissions r) = Inr es
          \<and> policy = effective sp session (filter (\<lambda>g. pg_scope g = ScopeOnce) (approved_grants r es)))
     \<and> (filter (\<lambda>e. pe_decision e = PermAsk) es \<noteq> [] \<longrightarrow>
          (\<exists>st st'. cv_gate V r (filter (\<lambda>e. pe_decision e = PermAsk) es) st = (Inr True, st')))
     \<and> (\<exists>n. \<forall>p \<in> set (cr_permissions r). recheck_request (cv_host V n) p (cv_active V) = Inr ())
     \<and> (\<exists>n. snapshot_of V n before) \<and> Some (sn_tree before) = cr_before_tree r"

lemma admittedI:
  assumes "\<forall>e \<in> set es. pe_decision e \<noteq> PermDeny"
    and "\<exists>n. service_policy V n = Inr sp \<and> rmap (\<lambda>p. evaluate_permission (cv_host V n) sp p grants) (cr_permissions r) = Inr es"
    and "filter (\<lambda>e. pe_decision e = PermAsk) es \<noteq> [] \<Longrightarrow> \<exists>st st'. cv_gate V r (filter (\<lambda>e. pe_decision e = PermAsk) es) st = (Inr True, st')"
    and "\<exists>n. \<forall>p \<in> set (cr_permissions r). recheck_request (cv_host V n) p (cv_active V) = Inr ()"
    and "\<exists>n. snapshot_of V n before" and "Some (sn_tree before) = cr_before_tree r"
  shows "admitted V r es (effective sp session (filter (\<lambda>g. pg_scope g = ScopeOnce) (approved_grants r es))) before"
  unfolding admitted_def using assms by blast

lemma decide_permissions_effect:
  assumes "decide_permissions V r s = (Inr (sp, es, grants), t)"
  shows "\<exists>n. service_policy V n = Inr sp \<and> rmap (\<lambda>p. evaluate_permission (cv_host V n) sp p grants) (cr_permissions r) = Inr es"
  using assms by (auto simp: decide_permissions_def bnd_def seq_then_def cm_tick_def split: prod.splits sum.splits)

lemma rfold_unit: "rfold (\<lambda>u p. f p) () ps = Inr v \<longleftrightarrow> (\<forall>p \<in> set ps. f p = Inr ())"
  by (induction ps) (auto simp: result_simps)

lemma recheck_before_effect:
  assumes "recheck_before V r s = (Inr (Inr before), t)"
  shows "(\<exists>n. \<forall>p \<in> set (cr_permissions r). recheck_request (cv_host V n) p (cv_active V) = Inr ())
    \<and> (\<exists>n. snapshot_of V n before) \<and> Some (sn_tree before) = cr_before_tree r"
proof -
  obtain q s1 where a: "recheck_all V r s = (q, s1)" by fastforce
  then have q: "q = Inr before" "Some (sn_tree before) = cr_before_tree r"
    using assms by (auto simp: recheck_before_def try_catch_def bnd_def split: sum.splits if_splits)
  let ?n = "cm_clock s" and ?s = "s\<lparr>cm_clock := Suc (cm_clock s)\<rparr>"
  have "rfold (\<lambda>u p. recheck_request (cv_host V ?n) p (cv_active V)) () (cr_permissions r) = Inr ()" "observe V ?s = (Inr before, s1)"
    using a q by (auto simp: recheck_all_def bnd_def seq_then_def cm_tick_def split: sum.splits)
  with q observe_run [of V ?s] show ?thesis unfolding rfold_unit by metis
qed

lemma recheck_before_refusal: "recheck_before V r s = (Inr (Inl a), t) \<Longrightarrow> \<not> tr_ok a"
  by (auto simp: recheck_before_def try_catch_def bnd_def tool_failure_def split: prod.splits sum.splits if_splits)

definition run_admitted :: "command_env \<Rightarrow> command_request \<Rightarrow> sandbox_policy \<Rightarrow> permission_evaluation list \<Rightarrow> permission_grant list \<Rightarrow> tool_result command_prog" where
  "run_admitted V r sp es grants =
     (let given = approved_grants r es in
      bnd (store_grants (filter (\<lambda>g. pg_scope g = ScopeSession \<and> g \<notin> set grants) given) grants) (\<lambda>session.
      bnd (recheck_before V r) (\<lambda>b. case b of
          Inl answer \<Rightarrow> ret answer
        | Inr before \<Rightarrow> execute_request V r (effective sp session (filter (\<lambda>g. pg_scope g = ScopeOnce) given)) before)))"

text \<open>How a run of a request ends: quietly with a refusal or an exception, or admitted and executed.\<close>

definition outcome :: "command_env \<Rightarrow> command_request \<Rightarrow> session_event list \<Rightarrow> tool_result res \<Rightarrow> command_state \<Rightarrow> bool" where
  "outcome V r es res t \<longleftrightarrow> cm_quiet command_types es t \<and> (\<forall>a. res = Inr a \<longrightarrow> \<not> tr_ok a) \<or>
    (\<exists>vs policy before x i tr cs w hs. admitted V r vs policy before \<and> (\<forall>f \<in> set hs. ev_type f \<notin> command_types)
       \<and> ran V r policy before (es @ hs) x i tr cs w t
       \<and> res = Inr (command_answer V r (final_result r x i tr cs) policy (ws_value w) i))"

lemma outcome_refused: "cm_quiet command_types es t \<Longrightarrow> (\<And>a. res = Inr a \<Longrightarrow> \<not> tr_ok a) \<Longrightarrow> outcome V r es res t"
  by (simp add: outcome_def)

lemma outcome_ran:
  assumes "admitted V r vs policy before" and "\<forall>f \<in> set hs. ev_type f \<notin> command_types"
    and "ran V r policy before (es @ hs) x i tr cs w t"
    and "res = Inr (command_answer V r (final_result r x i tr cs) policy (ws_value w) i)"
  shows "outcome V r es res t"
  unfolding outcome_def using assms by blast

lemma outcome_later:
  assumes "cm_quiet command_types es s" and "outcome V r (st_events (cm_store s)) res t"
  shows "outcome V r es res t"
proof -
  obtain gs where gs: "st_events (cm_store s) = es @ gs" "\<forall>f \<in> set gs. ev_type f \<notin> command_types"
    using assms(1) by (auto simp: quiet_log_def)
  from assms(2) show ?thesis unfolding outcome_def [of V r "st_events (cm_store s)"]
  proof (elim disjE exE conjE)
    assume "cm_quiet command_types (st_events (cm_store s)) t" "\<forall>a. res = Inr a \<longrightarrow> \<not> tr_ok a"
    then show ?thesis using quiet_log_trans [OF assms(1)] by (intro outcome_refused) auto
  next
    fix vs policy before x i tr cs w hs
    assume "admitted V r vs policy before" "\<forall>f \<in> set hs. ev_type f \<notin> command_types"
      and "ran V r policy before (st_events (cm_store s) @ hs) x i tr cs w t"
      and "res = Inr (command_answer V r (final_result r x i tr cs) policy (ws_value w) i)"
    then show ?thesis using gs by (intro outcome_ran [where hs = "gs @ hs"]) auto
  qed
qed

lemma run_admitted_outcome:
  assumes ok: "log_ok (cm_store s)" and run: "run_admitted V r sp es grants s = (res, t)"
    and adm: "\<And>session before. (\<exists>n. \<forall>p \<in> set (cr_permissions r). recheck_request (cv_host V n) p (cv_active V) = Inr ()) \<Longrightarrow>
       (\<exists>n. snapshot_of V n before) \<Longrightarrow> Some (sn_tree before) = cr_before_tree r \<Longrightarrow>
       admitted V r es (effective sp session (filter (\<lambda>g. pg_scope g = ScopeOnce) (approved_grants r es))) before"
  shows "outcome V r (st_events (cm_store s)) res t"
proof -
  let ?es = "st_events (cm_store s)" and ?given = "approved_grants r es"
  obtain g s1 where g: "store_grants (filter (\<lambda>g. pg_scope g = ScopeSession \<and> g \<notin> set grants) ?given) grants s = (g, s1)" by fastforce
  have q1: "cm_quiet command_types ?es s1" by (rule preservesD [OF cm_quiet_store_grants quiet_log_start [OF ok] g])
  show ?thesis
  proof (cases g)
    case (Inl e)
    with run g q1 show ?thesis by (intro outcome_refused) (auto simp: run_admitted_def bnd_def Let_def)
  next
    case (Inr session)
    obtain b s2 where b: "recheck_before V r s1 = (b, s2)" by fastforce
    have q2: "cm_quiet command_types ?es s2" by (rule preservesD [OF cm_quiet_recheck q1 b])
    show ?thesis
    proof (cases "\<exists>before. b = Inr (Inr before)")
      case False
      then have "t = s2 \<and> (\<forall>a. res = Inr a \<longrightarrow> \<not> tr_ok a)" using run g Inr b recheck_before_refusal
        by (auto simp: run_admitted_def bnd_def Let_def split: sum.splits)
      with q2 show ?thesis by (intro outcome_refused) auto
    next
      case True
      then obtain before where before: "b = Inr (Inr before)" by blast
      let ?policy = "effective sp session (filter (\<lambda>g. pg_scope g = ScopeOnce) ?given)"
      have adm': "admitted V r es ?policy before" using recheck_before_effect [OF b [unfolded before]] by (intro adm) auto
      have ex: "execute_request V r ?policy before s2 = (res, t)"
        using run g Inr b before by (simp add: run_admitted_def bnd_def Let_def)
      from execute_request_trace [OF quiet_log_ok [OF q2] ex] have "outcome V r (st_events (cm_store s2)) res t"
      proof (elim disjE conjE exE)
        fix e assume "cm_quiet command_types (st_events (cm_store s2)) t" "res = Inl e"
        then show ?thesis by (intro outcome_refused) auto
      next
        fix x i tr cs w assume "ran V r ?policy before (st_events (cm_store s2)) x i tr cs w t"
          and "res = Inr (command_answer V r (final_result r x i tr cs) ?policy (ws_value w) i)"
        then show ?thesis by (intro outcome_ran [OF adm', where hs = "[]"]) simp_all
      qed
      then show ?thesis by (rule outcome_later [OF q2])
    qed
  qed
qed

text \<open>The approval gate, and what follows when the user refuses.\<close>

definition ask_gate :: "command_env \<Rightarrow> command_request \<Rightarrow> permission_evaluation list \<Rightarrow> bool command_prog" where
  "ask_gate V r asks = (if asks = [] then ret True else with_store (cv_gate V r asks))"

lemma ask_gate_quiet: "gate_ok V \<Longrightarrow> preserves (cm_quiet command_types es) (ask_gate V r asks)"
  unfolding ask_gate_def gate_ok_def by (intro preserves_intros cm_quiet_store) simp

lemma ask_gate_allowed: "ask_gate V r asks s = (Inr True, t) \<Longrightarrow> asks \<noteq> [] \<Longrightarrow> \<exists>st st'. cv_gate V r asks st = (Inr True, st')"
  by (auto simp: ask_gate_def with_store_def split: prod.splits)

lemma run_prepared_steps: "run_prepared V r = bnd (decide_permissions V r) (\<lambda>(sp, es, grants).
    case find (\<lambda>e. pe_decision e = PermDeny) es of
      Some e \<Rightarrow> ret (tool_failure (pe_reason e) ''permission_denied'')
    | None \<Rightarrow> bnd (ask_gate V r (filter (\<lambda>e. pe_decision e = PermAsk) es)) (\<lambda>allowed.
        if \<not> allowed
        then seq_then (cm_log V ''permission_denied'' [(''execution_id'', JStr (cr_id r)), (''kind'', JStr ''approval'')])
               (ret (tool_failure ''denied'' ''approval_denied''))
        else run_admitted V r sp es grants))"
  unfolding run_prepared_def run_admitted_def ask_gate_def Let_def ..

lemma run_prepared_outcome:
  assumes ok: "log_ok (cm_store s)" and gate: "gate_ok V" and run: "run_prepared V r s = (res, t)"
  shows "outcome V r (st_events (cm_store s)) res t"
proof -
  let ?es = "st_events (cm_store s)"
  obtain d s1 where d: "decide_permissions V r s = (d, s1)" by fastforce
  have q1: "cm_quiet command_types ?es s1" by (rule preservesD [OF cm_quiet_decide quiet_log_start [OF ok] d])
  consider (err) e where "d = Inl e" | (deny) sp es grants e where "d = Inr (sp, es, grants)" "find (\<lambda>e. pe_decision e = PermDeny) es = Some e"
    | (go) sp es grants where "d = Inr (sp, es, grants)" "find (\<lambda>e. pe_decision e = PermDeny) es = None"
    by (metis not_None_eq old.sum.exhaust prod_cases3)
  then show ?thesis
  proof cases
    case err
    with run d q1 show ?thesis by (intro outcome_refused) (auto simp: run_prepared_steps bnd_def)
  next
    case deny
    with run d q1 show ?thesis by (intro outcome_refused) (auto simp: run_prepared_steps bnd_def tool_failure_def)
  next
    case go
    let ?asks = "filter (\<lambda>e. pe_decision e = PermAsk) es"
    obtain a s2 where a: "ask_gate V r ?asks s1 = (a, s2)" by fastforce
    have q2: "cm_quiet command_types ?es s2" by (rule preservesD [OF ask_gate_quiet [OF gate] q1 a])
    consider (err) e where "a = Inl e" | (no) "a = Inr False" | (yes) "a = Inr True" by (cases a) auto
    then show ?thesis
    proof cases
      case err
      with run d go a q2 show ?thesis by (intro outcome_refused) (auto simp: run_prepared_steps bnd_def)
    next
      case no
      let ?log = "cm_log V ''permission_denied'' [(''execution_id'', JStr (cr_id r)), (''kind'', JStr ''approval'')]"
      have "cm_quiet command_types ?es (snd (?log s2))"
        using cm_quiet_log [of "''permission_denied''" command_types ?es V] q2 unfolding preserves_def by blast
      then show ?thesis using run d go a no cm_log_run [OF quiet_log_ok [OF q2]]
        by (intro outcome_refused) (auto simp: run_prepared_steps bnd_def seq_then_def tool_failure_def)
    next
      case yes
      with run d go a have ran: "run_admitted V r sp es grants s2 = (res, t)" by (simp add: run_prepared_steps bnd_def)
      have deny: "\<forall>e \<in> set es. pe_decision e \<noteq> PermDeny" using go(2) by (auto simp: find_None_iff)
      have "outcome V r (st_events (cm_store s2)) res t"
      proof (rule run_admitted_outcome [OF quiet_log_ok [OF q2] ran])
        fix session before
        assume h: "\<exists>n. \<forall>p \<in> set (cr_permissions r). recheck_request (cv_host V n) p (cv_active V) = Inr ()"
          "\<exists>n. snapshot_of V n before" "Some (sn_tree before) = cr_before_tree r"
        show "admitted V r es (effective sp session (filter (\<lambda>g. pg_scope g = ScopeOnce) (approved_grants r es))) before"
          by (rule admittedI [OF deny decide_permissions_effect [OF d [unfolded go(1)]] ask_gate_allowed [OF a [unfolded yes]] h])
      qed
      then show ?thesis by (rule outcome_later [OF q2])
    qed
  qed
qed

section \<open>The tool\<close>

lemma cm_quiet_prepare: "preserves (cm_quiet T es) (prepare_command V arguments)"
  unfolding prepare_command_def by (intro preserves_intros cm_quiet_tick cm_quiet_store cm_quiet_observe quiet_read_meta)

text \<open>\<open>run_command\<close> past its check of the state, and what it makes of an exception.\<close>

definition command_handler :: "exn \<Rightarrow> tool_result res" where
  "command_handler e = (if exn_class e \<in> {PermissionError, PathGuardError, WorkspaceAuditError, TypeError, ValueError, UnicodeDecodeError}
     then Inr (tool_failure ''command'' (if exn_class e = PermissionError then exn_code e else ''invalid_arguments'')) else Inl e)"

lemma run_command_steps:
  assumes "log_ok (cm_store s)"
  shows "run_command V arguments s = (case ws_of (cm_store s) of
      None \<Rightarrow> (Inl (Exn SessionStoreError ''workspace_state''), s)
    | Some w \<Rightarrow> if w = RecoveryRequired then (Inr (tool_failure ''recovery'' ''recovery_required''), s)
        else if w = WorkspaceTainted then (Inr (tool_failure ''tainted'' ''workspace_tainted''), s)
        else case bnd (prepare_command V arguments) (run_prepared V) s of
            (Inl e, t) \<Rightarrow> (command_handler e, t) | (Inr a, t) \<Rightarrow> (Inr a, t))"
  by (auto simp: run_command_def bnd_def [of "with_store workspace_state"] with_store_def workspace_state_run [OF assms] try_catch_def
      command_handler_def split: option.splits prod.splits sum.splits)

lemma command_handler_refuses: "command_handler e = Inr a \<Longrightarrow> \<not> tr_ok a"
  by (auto simp: command_handler_def tool_failure_def split: if_splits)

lemma run_command_outcome:
  assumes ok: "log_ok (cm_store s)" and gate: "gate_ok V" and run: "run_command V arguments s = (res, t)"
  shows "\<exists>r s0 s1. outcome V r (st_events (cm_store s)) res t \<and>
    (cm_quiet command_types (st_events (cm_store s)) t \<or> prepare_command V arguments s0 = (Inr r, s1))"
proof -
  let ?es = "st_events (cm_store s)"
  note q = quiet_log_start [OF ok]
  have refused: ?thesis if "cm_quiet command_types ?es t" "\<And>a. res = Inr a \<Longrightarrow> \<not> tr_ok a"
    using that outcome_refused by blast
  consider (no) "t = s" "\<And>a. res = Inr a \<Longrightarrow> \<not> tr_ok a"
    | (go) "(case bnd (prepare_command V arguments) (run_prepared V) s of
            (Inl e, t) \<Rightarrow> (command_handler e, t) | (Inr a, t) \<Rightarrow> (Inr a, t)) = (res, t)"
    using run run_command_steps [OF ok, of V arguments] by (auto simp: tool_failure_def split: option.splits if_splits)
  then show ?thesis
  proof cases
    case no
    with q show ?thesis by (intro refused) auto
  next
    case go
    obtain p s1 where p: "prepare_command V arguments s = (p, s1)" by fastforce
    have q1: "cm_quiet command_types ?es s1" by (rule preservesD [OF cm_quiet_prepare q p])
    show ?thesis
    proof (cases p)
      case (Inl e)
      with go p q1 command_handler_refuses show ?thesis by (intro refused) (auto simp: bnd_def)
    next
      case (Inr r)
      obtain u s2 where u: "run_prepared V r s1 = (u, s2)" by fastforce
      have o2: "outcome V r ?es u s2"
        by (rule outcome_later [OF q1 run_prepared_outcome [OF quiet_log_ok [OF q1] gate u]])
      show ?thesis
      proof (cases u)
        case (Inl e)
        with o2 have "cm_quiet command_types ?es s2" by (auto simp: outcome_def)
        with go p Inr u Inl command_handler_refuses show ?thesis by (intro refused) (auto simp: bnd_def)
      next
        case (Inr a)
        with go p \<open>p = Inr r\<close> u have "res = u" "t = s2" by (simp_all add: bnd_def)
        with o2 p \<open>p = Inr r\<close> show ?thesis by blast
      qed
    qed
  qed
qed

lemma ran_later_event:
  assumes "ran V r policy before (es @ hs) x i tr cs w t" and "\<forall>f \<in> set hs. ev_type f \<notin> command_types"
    and "st_events (cm_store t) = es @ fs" and "f \<in> set fs" and "ev_type f \<in> command_types"
  shows "ev_type f = ''command_completed'' \<and> ev_payload f = completion_summary r (final_result r x i tr cs) (ws_value w)
    \<or> ev_type f = ''validation_completed'' \<and> cr_purpose r = ''validation'' \<and> valid_evidence x (ws_value w)
       \<and> (\<exists>m. ev_payload f = evidence_payload r (cv_uuid V m) i tr policy)"
proof -
  obtain qs e gs where q: "st_events (cm_store t) = (es @ hs) @ qs @ e # gs" "\<forall>f \<in> set qs. ev_type f \<notin> command_types"
      "ev_type e = ''command_completed''" "ev_payload e = completion_summary r (final_result r x i tr cs) (ws_value w)"
      "if cr_purpose r = ''validation'' \<and> valid_evidence x (ws_value w)
       then \<exists>f m. gs = [f] \<and> ev_type f = ''validation_completed'' \<and> ev_payload f = evidence_payload r (cv_uuid V m) i tr policy
       else gs = []"
    using assms(1) unfolding ran_def by blast
  then have "fs = hs @ qs @ e # gs" using assms(3) by simp
  then have "f = e \<or> f \<in> set gs" using assms(2,4,5) q(2) by auto
  then show ?thesis using q(3-5) by (auto split: if_splits)
qed

lemma ran_audited: "ran V r policy before es x i tr cs w t \<Longrightarrow> audited V r before x (cm_store t) i tr cs \<and> ws_of (cm_store t) = Some w
    \<and> (\<exists>n. cv_execute V n r policy (artifacts_of (cv_diagnostics V) (cv_runtime V) (cr_id r)) = Inr x)"
  by (simp add: ran_def)

lemma ws_value_inj: "ws_value w = ws_value v \<Longrightarrow> w = v"
  by (metis option.inject parse_ws_value)

text \<open>A new event of a command comes from a run.\<close>

lemma command_event_ran:
  assumes "log_ok (cm_store s)" and "gate_ok V" and "run_command V arguments s = (res, t)"
    and "st_events (cm_store t) = st_events (cm_store s) @ fs" and "f \<in> set fs" and "ev_type f \<in> command_types"
  obtains r s0 s1 vs policy before x i tr cs w hs where
    "prepare_command V arguments s0 = (Inr r, s1)" "admitted V r vs policy before" "\<forall>f \<in> set hs. ev_type f \<notin> command_types"
    "ran V r policy before (st_events (cm_store s) @ hs) x i tr cs w t"
    "res = Inr (command_answer V r (final_result r x i tr cs) policy (ws_value w) i)"
proof -
  obtain r s0 s1 where o: "outcome V r (st_events (cm_store s)) res t"
      "cm_quiet command_types (st_events (cm_store s)) t \<or> prepare_command V arguments s0 = (Inr r, s1)"
    using run_command_outcome [OF assms(1-3)] by blast
  have "\<not> cm_quiet command_types (st_events (cm_store s)) t"
    using assms(4-6) unfolding quiet_log_def by auto
  with o show thesis unfolding outcome_def using that by blast
qed

end
