(* ===== verification/Command_Properties.thy ===== *)
theory Command_Properties
  imports Command_Outcomes
begin

text \<open>
  The properties of the command service: what the evidence of a passed validation rests on, what a
  command that ran had to pass, and what happens when its audit fails.
\<close>

section \<open>A service\<close>

definition passed_result :: command_result where
  "passed_result = \<lparr>cx_exit = Some 0, cx_stdout = ''ok'', cx_stderr = [], cx_status = CmdCompleted, cx_started_at = None,
     cx_finished_at = None, cx_duration = Some 1, cx_timed_out = False, cx_spawn_error = None, cx_stdout_truncated = False,
     cx_stderr_truncated = False, cx_stdout_artifact = None, cx_stderr_artifact = None, cx_payload_started = True,
     cx_tree_stopped = True, cx_before_revision = None, cx_after_revision = None, cx_before_tree = None, cx_after_tree = None,
     cx_changes = [], cx_policy = None, cx_provenance = no_provenance\<rparr>"

definition command_host :: host where
  "command_host = demo_host"

definition clean_observation :: observation where
  "clean_observation = \<lparr>ob_status = Inr (0, [], []), ob_fs = demo_tree, ob_git = demo_git [] ''t0'', ob_file = (\<lambda>p. Inr None)\<rparr>"

definition demo_service :: "(nat \<Rightarrow> observation) \<Rightarrow> command_env" where
  "demo_service look = \<lparr>cv_active = [''wt''], cv_source = [''src''], cv_kind = ''git_worktree'', cv_base = Some ''c0'', cv_revision = 1,
     cv_home = [''home'', ''me''], cv_uid = 1000, cv_sessions = [''home''], cv_runtime = [''rt''], cv_diagnostics = [''d''], cv_links = 5,
     cv_sha = id, cv_uuid = (\<lambda>n. replicate n CHR ''u''), cv_now = (\<lambda>n. ''t''), cv_host = (\<lambda>n. demo_host),
     cv_rev_parse = (\<lambda>n s. None), cv_observe = look, cv_artifacts = (\<lambda>n. Inr ()),
     cv_execute = (\<lambda>n r p a. Inr passed_result), cv_gate = (\<lambda>r asks. ret True)\<rparr>"

definition pytest_arguments :: dict where
  "pytest_arguments = [(''command'', JStr ''pytest''), (''purpose'', JStr ''validation'')]"

definition active_store :: store where
  "active_store = demo_session\<lparr>st_meta := set_state ChangesActive ''ready'' (st_meta demo_session)\<rparr>"

definition cm0 :: command_state where
  "cm0 = \<lparr>cm_store = active_store, cm_clock = 0\<rparr>"


lemma active_store_ok: "log_ok active_store"
  using session_reachable_ok [OF demo_session_reachable] by (auto simp: active_store_def log_ok_def log_inv_set_state)

lemma active_store_facts:
  "ws_of active_store = Some ChangesActive" "py_int (dget_or (st_meta active_store) ''candidate_revision'' (JInt 0)) = Inr 0"
  "rbind (json_items (dget_or (st_meta active_store) ''permission_grants'' (JArr []))) (\<lambda>items.
       rmap (\<lambda>item. case item of JObj d \<Rightarrow> grant_of d | _ \<Rightarrow> Inl (Exn AttributeError ''get'')) items) = Inr []"
  unfolding active_store_def demo_session_def demo_created_def by code_simp+

definition pytest_request :: command_request where
  "pytest_request = \<lparr>cr_id = [], cr_command = ''pytest'', cr_cwd = ''.'', cr_timeout = 120, cr_purpose = ''validation'', cr_permissions = [],
     cr_workspace_revision = 1, cr_base = Some ''c0'', cr_before_revision = 0, cr_before_tree = Some ''t0'', cr_sha = ''pytest''\<rparr>"

definition clean_snapshot :: workspace_snapshot where
  "clean_snapshot = \<lparr>sn_fingerprints = [], sn_tree = ''t0'', sn_hints = []\<rparr>"

lemma demo_fields [simp]:
  "cv_active (demo_service look) = [''wt'']" "cv_source (demo_service look) = [''src'']" "cv_kind (demo_service look) = ''git_worktree''"
  "cv_base (demo_service look) = Some ''c0''" "cv_revision (demo_service look) = 1" "cv_links (demo_service look) = 5"
  "cv_uuid (demo_service look) n = replicate n CHR ''u''" "cv_now (demo_service look) n = ''t''" "cv_host (demo_service look) n = demo_host"
  "cv_observe (demo_service look) = look" "cv_artifacts (demo_service look) n = Inr ()" "cv_sha (demo_service look) = id"
  "cv_execute (demo_service look) n r p a = Inr passed_result" "cv_gate (demo_service look) r asks = ret True"
  by (simp_all add: demo_service_def)

lemma demo_pieces:
  "command_text pytest_arguments = Inr ''pytest''" "command_cwd (demo_service look) n pytest_arguments = Inr [''wt'']"
  "command_timeout pytest_arguments = Inr 120" "command_purpose pytest_arguments = Inr ''validation''"
  "relative_cwd (demo_service look) [''wt''] = ''.''"
  "take_snapshot id 5 [''wt''] clean_observation ''c0'' = Inr clean_snapshot"
proof -
  show "command_cwd (demo_service look) n pytest_arguments = Inr [''wt'']"
    unfolding command_cwd_def demo_fields by code_simp
  show "relative_cwd (demo_service look) [''wt''] = ''.''" unfolding relative_cwd_def demo_fields by code_simp
qed code_simp+

lemma demo_policy_exists: "\<exists>sp. service_policy (demo_service look) n = Inr sp"
proof -
  have "(case sandbox_policy_of demo_host (\<lambda>s. None) [''home'', ''me''] 1000 [''home''] [''wt''] [''src''] [''rt''] of Inl e \<Rightarrow> False | Inr sp \<Rightarrow> True)"
    by code_simp
  then show ?thesis by (auto simp: service_policy_def demo_service_def split: sum.splits)
qed

lemma demo_permissions: "command_permissions (demo_service look) n pytest_arguments = Inr []"
proof -
  have "dget_or pytest_arguments ''permissions'' (JArr []) = JArr []" by code_simp
  then show ?thesis using demo_policy_exists [of look n] by (auto simp: command_permissions_def)
qed

lemma demo_observe: "look (cm_clock s) = clean_observation \<Longrightarrow> observe (demo_service look) s = (Inr clean_snapshot, s\<lparr>cm_clock := Suc (cm_clock s)\<rparr>)"
  by (simp add: observe_def bnd_def cm_tick_def demo_pieces)

lemma demo_prepare:
  assumes "look 1 = clean_observation"
  shows "prepare_command (demo_service look) (JObj pytest_arguments) cm0 = (Inr pytest_request, cm0\<lparr>cm_clock := 2\<rparr>)"
  using demo_observe [of look "cm0\<lparr>cm_clock := 1\<rparr>"] assms
  by (simp add: prepare_command_def bnd_def cm_tick_def demo_pieces demo_permissions with_store_def cm0_def active_store_ok active_store_facts
      pytest_request_def clean_snapshot_def numeral_2_eq_2)

definition requested_store :: store where
  "requested_store = with_event ''t'' ''command_requested'' (request_summary pytest_request []) active_store"

lemma demo_decide: "\<exists>sp. decide_permissions (demo_service look) pytest_request (cm0\<lparr>cm_clock := 2\<rparr>)
    = (Inr (sp, [], []), \<lparr>cm_store = requested_store, cm_clock = 4\<rparr>)"
proof -
  obtain sp where sp: "service_policy (demo_service look) 2 = Inr sp" using demo_policy_exists by blast
  have g: "permission_grants active_store = (Inr [], active_store)"
    using active_store_ok active_store_facts(3) by (simp add: permission_grants_def bnd_def)
  have "cm_log (demo_service look) ''command_requested'' (request_summary pytest_request []) (cm0\<lparr>cm_clock := 3\<rparr>)
      = (Inr (), \<lparr>cm_store = requested_store, cm_clock = 4\<rparr>)"
    using cm_log_run [of "cm0\<lparr>cm_clock := 3\<rparr>"] active_store_ok by (simp add: cm0_def requested_store_def)
  then show ?thesis using sp g
    by (intro exI [of _ sp]) (simp add: decide_permissions_def bnd_def seq_then_def cm_tick_def with_store_def pytest_request_def cm0_def)
qed

lemma requested_store_ok: "log_ok requested_store"
  unfolding requested_store_def by (rule with_event_ok [OF active_store_ok])

lemma demo_recheck:
  assumes "look 5 = clean_observation"
  shows "recheck_before (demo_service look) pytest_request \<lparr>cm_store = requested_store, cm_clock = 4\<rparr>
    = (Inr (Inr clean_snapshot), \<lparr>cm_store = requested_store, cm_clock = 6\<rparr>)"
  using demo_observe [of look "\<lparr>cm_store = requested_store, cm_clock = 5\<rparr>"] assms
  by (simp add: recheck_before_def recheck_all_def bnd_def seq_then_def cm_tick_def try_catch_def pytest_request_def clean_snapshot_def)

lemma demo_run:
  assumes "look 1 = clean_observation" and "look 5 = clean_observation"
  shows "\<exists>p. run_command (demo_service look) (JObj pytest_arguments) cm0 =
    (case execute_request (demo_service look) pytest_request p clean_snapshot \<lparr>cm_store = requested_store, cm_clock = 6\<rparr> of
       (Inl e, t) \<Rightarrow> (command_handler e, t) | (Inr a, t) \<Rightarrow> (Inr a, t))"
proof -
  obtain sp where d: "decide_permissions (demo_service look) pytest_request (cm0\<lparr>cm_clock := 2\<rparr>)
    = (Inr (sp, [], []), \<lparr>cm_store = requested_store, cm_clock = 4\<rparr>)" using demo_decide by blast
  have "run_prepared (demo_service look) pytest_request (cm0\<lparr>cm_clock := 2\<rparr>) =
      execute_request (demo_service look) pytest_request (effective sp [] []) clean_snapshot \<lparr>cm_store = requested_store, cm_clock = 6\<rparr>"
    using demo_recheck [of look, OF assms(2)] d
    by (simp add: run_prepared_steps bnd_def run_admitted_def ask_gate_def approved_grants_def store_grants_def)
  then show ?thesis using demo_prepare [of look, OF assms(1)] active_store_facts(1) active_store_ok
    by (intro exI [of _ "effective sp [] []"]) (simp add: run_command_steps cm0_def bnd_def)
qed

section \<open>What a run logs\<close>







section \<open>When the audit fails\<close>

lemma unreadable_status:
  assumes "name \<noteq> []" and "CHR 0x00 \<notin> set name" and "\<not> utf8_valid name"
  shows "parse_porcelain (''?? '' @ name @ [CHR 0x00]) = Inl (git_read_error ''internal_error'')"
proof -
  have "split_on CHR 0x00 (''?? '' @ name @ [CHR 0x00]) = [''?? '' @ name, []]"
    using split_on_append_sep [of "CHR 0x00" "''?? '' @ name" "[]"] assms(2) by simp
  moreover obtain c cs where "name = c # cs" using assms(1) by (cases name) auto
  ultimately show ?thesis using assms(3)
    by (simp add: parse_porcelain_def status_records_def status_path_def del: utf8_valid.simps)
qed

lemma unreadable_snapshot:
  assumes "name \<noteq> []" and "CHR 0x00 \<notin> set name" and "\<not> utf8_valid name"
    and "ob_status ob = Inr (0, out, err)" and "gw_status (ob_git ob) = Inr (0, ''?? '' @ name @ [CHR 0x00], e)"
  shows "take_snapshot sha n root ob base = Inl (git_read_error ''internal_error'')"
  using unreadable_status [OF assms(1-3)] assms(4,5)
  by (simp add: take_snapshot_def snapshot_tree_def validate_changed_paths_def git_output_def git_read_error_def)

text \<open>
  C31. A command that leaves a file whose name is no UTF-8 escapes its audit. The parser of the status
  raises \<^verbatim>\<open>GitReadError\<close>, which neither \<^verbatim>\<open>take_workspace_snapshot\<close> nor \<^verbatim>\<open>run_prepared\<close> catches: the command has
  run, but its completion is not logged, the candidate's revision does not advance and the session
  is not marked as tainted.
\<close>

theorem unreadable_name_escapes_audit:
  assumes "cv_artifacts V (cm_clock s) = Inr ()"
    and "cv_execute V (cm_clock s) r policy (artifacts_of (cv_diagnostics V) (cv_runtime V) (cr_id r)) = Inr x"
    and "cx_payload_started x" and "cx_tree_stopped x"
    and "ob_status (cv_observe V (Suc (cm_clock s))) = Inr (0, out, err)"
    and "gw_status (ob_git (cv_observe V (Suc (cm_clock s)))) = Inr (0, ''?? '' @ name @ [CHR 0x00], e)"
    and "name \<noteq> []" and "CHR 0x00 \<notin> set name" and "\<not> utf8_valid name"
  shows "execute_request V r policy before s = (Inl (Exn GitReadError ''internal_error''), s\<lparr>cm_clock := Suc (Suc (cm_clock s))\<rparr>)"
proof -
  let ?s = "s\<lparr>cm_clock := Suc (cm_clock s)\<rparr>"
  have "observe V ?s = (Inl (Exn GitReadError ''internal_error''), s\<lparr>cm_clock := Suc (Suc (cm_clock s))\<rparr>)"
    using unreadable_snapshot [OF assms(7-9,5,6)] by (simp add: observe_def bnd_def cm_tick_def git_read_error_def)
  then have "audit_after V r before x ?s = (Inl (Exn GitReadError ''internal_error''), s\<lparr>cm_clock := Suc (Suc (cm_clock s))\<rparr>)"
    by (simp add: audit_after_seen [OF assms(3,4)] audit_body_def bnd_def)
  then show ?thesis using assms(1,2) by (simp add: execute_request_def bnd_def seq_then_def cm_tick_def)
qed

definition unreadable_observation :: observation where
  "unreadable_observation = clean_observation\<lparr>ob_git := demo_git (''?? '' @ [CHR 0xFF] @ [CHR 0x00]) ''t1''\<rparr>"

definition escaping_look :: "nat \<Rightarrow> observation" where
  "escaping_look n = (if n = 7 then unreadable_observation else clean_observation)"

theorem unreadable_name_escapes_audit_witness:
  "\<exists>t. run_command (demo_service escaping_look) (JObj pytest_arguments) cm0 = (Inl (Exn GitReadError ''internal_error''), t)
    \<and> cm_store t = requested_store"
proof -
  have "\<not> utf8_valid [CHR 0xFF]" by code_simp
  note x = unreadable_name_escapes_audit [where V = "demo_service escaping_look" and s = "\<lparr>cm_store = requested_store, cm_clock = 6\<rparr>"
      and r = pytest_request and x = passed_result and name = "[CHR 0xFF]", OF _ _ _ _ _ _ _ _ this]
  obtain p where "run_command (demo_service escaping_look) (JObj pytest_arguments) cm0 =
    (case execute_request (demo_service escaping_look) pytest_request p clean_snapshot \<lparr>cm_store = requested_store, cm_clock = 6\<rparr> of
       (Inl e, t) \<Rightarrow> (command_handler e, t) | (Inr a, t) \<Rightarrow> (Inr a, t))"
    using demo_run [of escaping_look] by (auto simp: escaping_look_def)
  moreover have "execute_request (demo_service escaping_look) pytest_request p clean_snapshot \<lparr>cm_store = requested_store, cm_clock = 6\<rparr>
      = (Inl (Exn GitReadError ''internal_error''), \<lparr>cm_store = requested_store, cm_clock = 8\<rparr>)"
    by (subst x) (simp_all add: escaping_look_def unreadable_observation_def clean_observation_def demo_git_def passed_result_def)
  ultimately show ?thesis by (simp add: command_handler_def)
qed

lemma tainted_run:
  assumes "log_ok st"
  obtains st' where "mark_workspace_tainted now reason files st = (Inr (), st')" "log_ok st'" "ws_of st' = Some WorkspaceTainted"
proof -
  let ?st = "st\<lparr>st_meta := set_state WorkspaceTainted reason (st_meta st)\<rparr>"
  let ?p = "[(''reason'', JStr reason), (''changed_files'', JArr (map JStr (take 100 files)))]"
  have ok: "log_ok ?st" using assms by (auto simp: log_ok_def log_inv_set_state)
  then have run: "mark_workspace_tainted now reason files st = (Inr (), with_event now ''workspace_tainted'' ?p ?st)"
    using assms by (simp add: mark_workspace_tainted_def bnd_def seq_then_def append_unit_run)
  show thesis
    by (rule that [OF run]) (use with_event_ok [OF ok] marked_tainted_state [OF assms, of now reason files] run in simp_all)
qed

text \<open>
  C36. A command that succeeded but whose audit failed taints the session: the answer is a failure whose
  error code nevertheless reads \<^verbatim>\<open>completed\<close>, and every later call of the tool is refused without
  any effect.
\<close>

theorem audit_failure_closes_commands:
  assumes "log_ok (cm_store s)" and "cv_artifacts V (cm_clock s) = Inr ()"
    and "cv_execute V (cm_clock s) r policy (artifacts_of (cv_diagnostics V) (cv_runtime V) (cr_id r)) = Inr x"
    and "cx_payload_started x" and "cx_tree_stopped x" and "cx_status x = CmdCompleted" and "cx_exit x = Some 0"
    and "ob_status (cv_observe V (Suc (cm_clock s))) = Inr (rc, out, err)" and "rc \<noteq> 0"
  shows "\<exists>a t. execute_request V r policy before s = (Inr a, t) \<and> \<not> tr_ok a \<and> tr_code a = Some ''completed''
    \<and> (\<forall>arguments. run_command V arguments t = (Inr (tool_failure ''tainted'' ''workspace_tainted''), t))"
proof -
  let ?s = "s\<lparr>cm_clock := Suc (cm_clock s)\<rparr>" and ?n = "Suc (Suc (cm_clock s))"
  have "audit_body V r before ?s = (Inl (audit_error ''git status failed''), s\<lparr>cm_clock := ?n\<rparr>)"
    using assms(8,9) by (simp add: audit_body_def observe_def bnd_def cm_tick_def take_snapshot_def)
  moreover obtain st where st: "mark_workspace_tainted (cv_now V ?n) ''after audit'' [] (cm_store s) = (Inr (), st)" "log_ok st"
      "ws_of st = Some WorkspaceTainted" by (rule tainted_run [OF assms(1)])
  ultimately have a: "audit_after V r before x ?s = (Inr (cr_before_revision r, cr_before_tree r, []), \<lparr>cm_store = st, cm_clock = Suc ?n\<rparr>)"
    by (simp add: audit_after_seen [OF assms(4,5)] audit_error_def)
  let ?x = "final_result r x (cr_before_revision r) (cr_before_tree r) []"
  let ?t = "\<lparr>cm_store = with_event (cv_now V (Suc ?n)) ''command_completed'' (completion_summary r ?x (ws_value WorkspaceTainted)) st, cm_clock = Suc (Suc ?n)\<rparr>"
  let ?a = "command_answer V r ?x policy (ws_value WorkspaceTainted) (cr_before_revision r)"
  have w: "workspace_state st = (Inr WorkspaceTainted, st)" using workspace_state_run [OF st(2)] st(3) by simp
  have l: "cm_log V ''command_completed'' (completion_summary r ?x (ws_value WorkspaceTainted)) \<lparr>cm_store = st, cm_clock = Suc ?n\<rparr> = (Inr (), ?t)"
    using cm_log_run [of "\<lparr>cm_store = st, cm_clock = Suc ?n\<rparr>"] st(2) by simp
  have "execute_request V r policy before s = (Inr ?a, ?t)"
    using assms(2,3) a w l by (simp add: execute_request_def bnd_def seq_then_def cm_tick_def with_store_def Let_def valid_evidence_def flip: final_result_def)
  moreover have "\<not> tr_ok ?a" "tr_code ?a = Some ''completed''"
    by (simp_all add: command_answer_def command_succeeded_def command_error_code_def assms(6,7))
  moreover have "run_command V arguments ?t = (Inr (tool_failure ''tainted'' ''workspace_tainted''), ?t)" for arguments
    using with_event_ok [OF st(2)] st(3) by (simp add: run_command_steps)
  ultimately show ?thesis by blast
qed

definition failing_look :: "nat \<Rightarrow> observation" where
  "failing_look n = (if n = 7 then clean_observation\<lparr>ob_status := Inr (128, [], ''fatal'')\<rparr> else clean_observation)"

theorem audit_failure_closes_commands_witness:
  "\<exists>a t. run_command (demo_service failing_look) (JObj pytest_arguments) cm0 = (Inr a, t) \<and> tr_code a = Some ''completed''
    \<and> run_command (demo_service failing_look) (JObj pytest_arguments) t = (Inr (tool_failure ''tainted'' ''workspace_tainted''), t)"
proof -
  let ?s = "\<lparr>cm_store = requested_store, cm_clock = 6\<rparr>"
  obtain p where p: "run_command (demo_service failing_look) (JObj pytest_arguments) cm0 =
    (case execute_request (demo_service failing_look) pytest_request p clean_snapshot ?s of
       (Inl e, t) \<Rightarrow> (command_handler e, t) | (Inr a, t) \<Rightarrow> (Inr a, t))"
    using demo_run [of failing_look] by (auto simp: failing_look_def)
  have "\<exists>a t. execute_request (demo_service failing_look) pytest_request p clean_snapshot ?s = (Inr a, t) \<and> \<not> tr_ok a
      \<and> tr_code a = Some ''completed'' \<and> (\<forall>arguments. run_command (demo_service failing_look) arguments t = (Inr (tool_failure ''tainted'' ''workspace_tainted''), t))"
    by (rule audit_failure_closes_commands [where x = passed_result and rc = 128 and out = "[]" and err = "''fatal''"])
      (simp_all add: requested_store_ok failing_look_def passed_result_def)
  with p show ?thesis by auto
qed

end
