(* ===== verification/Candidate.thy ===== *)
theory Candidate
  imports Command_Service
begin

text \<open>
  \<^verbatim>\<open>runtime/candidate.py\<close>: freezing the changes of a session as a patch against the current source, and
  applying that patch to the source after approval. Git is what its calls return; every call that is
  not part of a snapshot is recorded with its directory, arguments and input.
\<close>

section \<open>The service\<close>

text \<open>The files of the frozen changes; a manifest that cannot be read is \<^const>\<open>None\<close>.\<close>

record frozen =
  fz_manifest :: "dict option"
  fz_patch :: "char list option"

record review_env =
  rv_session :: string
  rv_source :: path
  rv_active :: path
  rv_kind :: string
  rv_base :: "string option"
  rv_revision :: int
  rv_links :: nat
  rv_sha :: "char list \<Rightarrow> string"
  rv_uuid :: "nat \<Rightarrow> string"
  rv_now :: "nat \<Rightarrow> string"
  rv_fs :: "nat \<Rightarrow> fs"
  rv_git :: "nat \<Rightarrow> path \<Rightarrow> string list \<Rightarrow> char list \<Rightarrow> process_result res"
  rv_write :: "nat \<Rightarrow> unit res"
  rv_disk :: "nat \<Rightarrow> frozen \<Rightarrow> frozen"
  rv_approve :: "nat \<Rightarrow> dict \<Rightarrow> string \<Rightarrow> bool res"

type_synonym git_call = "path \<times> string list \<times> char list"

text \<open>A saved delivery: its artifact and the contents of its files.\<close>

record delivery =
  dl_artifact :: dict
  dl_files :: "(string \<times> char list) list"

record review_state =
  rs_store :: store
  rs_clock :: nat
  rs_frozen :: frozen
  rs_calls :: "git_call list"
  rs_deliveries :: "(string \<times> delivery) list"

type_synonym 'a review_prog = "(review_state, 'a) prog"

definition rv_tick :: "nat review_prog" where
  "rv_tick = (\<lambda>s. (Inr (rs_clock s), s\<lparr>rs_clock := Suc (rs_clock s)\<rparr>))"

definition in_store :: "'a store_prog \<Rightarrow> 'a review_prog" where
  "in_store m = (\<lambda>s. case m (rs_store s) of (r, st) \<Rightarrow> (r, s\<lparr>rs_store := st\<rparr>))"

definition rv_log :: "review_env \<Rightarrow> string \<Rightarrow> dict \<Rightarrow> unit review_prog" where
  "rv_log V ty payload = bnd rv_tick (\<lambda>n. in_store (append_unit (rv_now V n) ty payload))"

definition rv_call :: "review_env \<Rightarrow> path \<Rightarrow> string list \<Rightarrow> char list \<Rightarrow> (int \<times> char list \<times> char list) review_prog" where
  "rv_call V cwd args input = bnd rv_tick (\<lambda>n.
     seq_then (modify (\<lambda>s. s\<lparr>rs_calls := rs_calls s @ [(cwd, args, input)]\<rparr>)) (lift (rv_git V n cwd args input)))"

definition rv_write_file :: "review_env \<Rightarrow> (frozen \<Rightarrow> frozen) \<Rightarrow> unit review_prog" where
  "rv_write_file V f = bnd rv_tick (\<lambda>n.
     seq_then (lift (rv_write V n)) (modify (\<lambda>s. s\<lparr>rs_frozen := f (rs_frozen s)\<rparr>)))"

definition base_text :: "review_env \<Rightarrow> string" where
  "base_text V = (case rv_base V of None \<Rightarrow> [] | Some b \<Rightarrow> b)"

section \<open>Git calls\<close>

definition cand_error :: "string \<Rightarrow> exn" where
  "cand_error why = Exn CandidateError why"

definition status_arguments :: "string list" where
  "status_arguments = [''status'', ''--porcelain=v1'', ''-z'', ''--untracked-files=all'']"

definition dirty_arguments :: "string list" where
  "dirty_arguments = [''status'', ''--porcelain'', ''--untracked-files=all'']"

text \<open>\<^verbatim>\<open>_git\<close>: both streams are decoded; only the line breaks at the end go when the output is kept.\<close>

definition rstrip_line :: "string \<Rightarrow> string" where
  "rstrip_line s = rev (dropWhile (\<lambda>c. c \<in> {CHR 0x0D, CHR 0x0A}) (rev s))"

definition git_text :: "review_env \<Rightarrow> path \<Rightarrow> string list \<Rightarrow> bool \<Rightarrow> string review_prog" where
  "git_text V cwd args strip_output = try_catch
     (bnd (rv_call V cwd args []) (\<lambda>(rc, out, err).
      bnd (lift (utf8_decode out)) (\<lambda>text_out.
      seq_then (lift (utf8_decode err))
      (if rc \<noteq> 0 then raise (cand_error ''git'')
       else ret (if strip_output then strip text_out else rstrip_line text_out)))))
     (\<lambda>e. if exn_class e \<in> {OSError, SubprocessError, UnicodeDecodeError} then raise (cand_error ''git call'') else raise e)"

definition run_git :: "review_env \<Rightarrow> path \<Rightarrow> string list \<Rightarrow> char list \<Rightarrow> char list review_prog" where
  "run_git V cwd args input = bnd (rv_call V cwd args input) (\<lambda>(rc, out, err).
     if rc \<noteq> 0 then raise (cand_error ''git plumbing'') else ret out)"

definition entry_paths :: "status_entry \<Rightarrow> string list" where
  "entry_paths e = filter (\<lambda>p. p \<noteq> []) (ge_path e # (case ge_original e of None \<Rightarrow> [] | Some p \<Rightarrow> [p]))"

text \<open>The set of the changed paths, sorted.\<close>

definition status_paths :: "review_env \<Rightarrow> path \<Rightarrow> string list review_prog" where
  "status_paths V root = bnd (rv_call V root status_arguments []) (\<lambda>(rc, out, err).
     if rc \<noteq> 0 then raise (cand_error ''status'')
     else bnd (lift (parse_porcelain out)) (\<lambda>es. ret (sort (remdups (concat (map entry_paths es))))))"

definition world_of :: "review_env \<Rightarrow> nat \<Rightarrow> path \<Rightarrow> git_world" where
  "world_of V n root = \<lparr>gw_status = rv_git V n root status_arguments [], gw_read_tree = (\<lambda>b. rv_git V n root [''read-tree'', b] []),
     gw_add = rv_git V n root [''add'', ''-A'', ''--'', ''.''] [], gw_write_tree = rv_git V n root [''write-tree''] [],
     gw_rev_parse = (\<lambda>c. rv_git V n root [''rev-parse'', c] [])\<rparr>"

definition snapshot_at :: "review_env \<Rightarrow> nat \<Rightarrow> path \<Rightarrow> string \<Rightarrow> string res" where
  "snapshot_at V n root base = snapshot_tree (rv_fs V n) (rv_links V) root (world_of V n root) base"

definition candidate_snapshot :: "review_env \<Rightarrow> path \<Rightarrow> string \<Rightarrow> string review_prog" where
  "candidate_snapshot V root base = bnd rv_tick (\<lambda>n. lift (case snapshot_at V n root base of
     Inl e \<Rightarrow> Inl (if exn_class e = GitSnapshotError then cand_error ''snapshot'' else e) | Inr tree \<Rightarrow> Inr tree))"

section \<open>Freezing\<close>

definition validate_identity :: "review_env \<Rightarrow> unit review_prog" where
  "validate_identity V =
     (if rv_kind V \<noteq> ''git_worktree'' \<or> base_text V = [] then raise (cand_error ''no worktree'')
      else bnd (git_text V (rv_active V) [''rev-parse'', ''HEAD''] True) (\<lambda>head.
        if head \<noteq> base_text V then raise (cand_error ''head'') else ret ()))"

definition current_evidence :: "review_env \<Rightarrow> dict list review_prog" where
  "current_evidence V = bnd rv_tick (\<lambda>n. bnd (in_store read_events) (\<lambda>es.
     lift (current_validation_evidence (rv_fs V n) (rv_links V) (rv_active V) (world_of V n (rv_active V))
       (rv_base V) (rv_revision V) es)))"

definition has_nul :: "char list \<Rightarrow> bool" where
  "has_nul content = (CHR 0x00 \<in> set (take 8192 content))"

definition change_of :: "string \<Rightarrow> string option \<Rightarrow> json" where
  "change_of p digest = JObj [(''path'', JStr p), (''after_exists'', JBool (digest \<noteq> None)), (''after_sha256'', opt_str digest)]"

definition file_change :: "review_env \<Rightarrow> nat \<Rightarrow> string \<Rightarrow> json res" where
  "file_change V n p = (case guard_resolve (rv_fs V n) (rv_links V) (rv_active V) True p of
     Inl e \<Rightarrow> Inl (if exn_class e = PathGuardError then cand_error ''path'' else e)
   | Inr target \<Rightarrow> (case node_at (rv_fs V n) target of
       None \<Rightarrow> Inr (change_of p None)
     | Some (File m content) \<Rightarrow>
         if has_nul content then Inl (cand_error ''binary'') else Inr (change_of p (Some (rv_sha V content)))
     | Some other \<Rightarrow> Inl (cand_error ''not a file'')))"

definition check_path :: "review_env \<Rightarrow> nat \<Rightarrow> path \<Rightarrow> string \<Rightarrow> unit res" where
  "check_path V n root p = (case guard_resolve (rv_fs V n) (rv_links V) root True p of
     Inl e \<Rightarrow> Inl (if exn_class e = PathGuardError then cand_error ''path'' else e) | Inr q \<Rightarrow> Inr ())"

definition validate_paths :: "review_env \<Rightarrow> path \<Rightarrow> unit review_prog" where
  "validate_paths V root = bnd (status_paths V root) (\<lambda>ps. bnd rv_tick (\<lambda>n.
     lift (rfold (\<lambda>u p. check_path V n root p) () ps)))"

definition temporary_commit :: "review_env \<Rightarrow> string \<Rightarrow> string \<Rightarrow> string \<Rightarrow> string review_prog" where
  "temporary_commit V tree parent msg =
     bnd (run_git V (rv_active V) [''commit-tree'', tree, ''-p'', parent] (msg @ [CHR 0x0A])) (\<lambda>out. lift (decoded_line out))"

definition is_tree_name :: "string \<Rightarrow> bool" where
  "is_tree_name t = (40 \<le> length t \<and> length t \<le> 64 \<and> list_all (\<lambda>c. c \<in> set ''0123456789abcdef'') t)"

definition merge_tree :: "review_env \<Rightarrow> string \<Rightarrow> string \<Rightarrow> string \<Rightarrow> string review_prog" where
  "merge_tree V baseline ours theirs =
     bnd (rv_call V (rv_active V) [''merge-tree'', ''--write-tree'', ''--merge-base='' @ baseline, ours, theirs] []) (\<lambda>(rc, out, err).
     if rc \<noteq> 0 then raise (cand_error ''merge conflict'')
     else bnd (lift (utf8_decode out)) (\<lambda>text_out.
       case splitlines text_out of
         [] \<Rightarrow> raise (Exn IndexError ''merge-tree'')
       | line # rest \<Rightarrow> if is_tree_name (strip line) then ret (strip line) else raise (cand_error ''merged tree'')))"

definition tree_patch :: "review_env \<Rightarrow> string \<Rightarrow> string \<Rightarrow> char list review_prog" where
  "tree_patch V before after = run_git V (rv_active V)
     [''-c'', ''core.safecrlf=false'', ''diff'', ''--binary'', ''--full-index'', ''--no-ext-diff'', before, after, ''--''] []"

definition max_frozen_bytes :: int where
  "max_frozen_bytes = 512000"

definition frozen_manifest ::
  "review_env \<Rightarrow> string \<Rightarrow> string \<Rightarrow> string \<Rightarrow> string \<Rightarrow> string list \<Rightarrow> json list \<Rightarrow> int \<Rightarrow> dict list \<Rightarrow> string \<Rightarrow> dict" where
  "frozen_manifest V cid source_tree merged digest paths changes revision tests now =
     [(''candidate_id'', JStr cid), (''session_id'', JStr (rv_session V)), (''base_commit'', opt_str (rv_base V)),
      (''workspace_revision'', JInt (rv_revision V)), (''source_snapshot_tree'', JStr source_tree), (''merged_tree'', JStr merged),
      (''patch_sha256'', JStr digest), (''changed_files'', JArr (map JStr paths)), (''file_changes'', JArr changes),
      (''candidate_revision'', JInt revision), (''workspace_side_effects'', JArr []), (''test_receipts'', JArr (map JObj tests)),
      (''created_at'', JStr now), (''status'', JStr ''frozen'')]"

text \<open>The changes against the base: their tree, which must differ from the base.\<close>

definition changed_tree :: "review_env \<Rightarrow> string review_prog" where
  "changed_tree V = bnd (candidate_snapshot V (rv_active V) (base_text V)) (\<lambda>ours.
     if ours = base_text V then raise (cand_error ''no changes'')
     else bnd (git_text V (rv_active V) [''rev-parse'', base_text V @ ''^{tree}''] True) (\<lambda>base_tree.
       if ours = base_tree then raise (cand_error ''no changes'') else ret ours))"

text \<open>The source as it is now, the tree merged with the changes, and the patch from one to the other.\<close>

definition merged_patch :: "review_env \<Rightarrow> string \<Rightarrow> (string \<times> string \<times> char list) review_prog" where
  "merged_patch V ours =
     bnd (candidate_snapshot V (rv_source V) ''HEAD'') (\<lambda>source_tree.
     bnd (temporary_commit V ours (base_text V) ''CodeAgent pending changes'') (\<lambda>ours_commit.
     bnd (temporary_commit V source_tree (base_text V) ''CodeAgent source snapshot'') (\<lambda>theirs_commit.
     bnd (merge_tree V (base_text V) ours_commit theirs_commit) (\<lambda>merged.
     bnd (tree_patch V source_tree merged) (\<lambda>patch.
     if patch = [] \<or> max_frozen_bytes < int (length patch) then raise (cand_error ''patch size'')
     else if \<not> utf8_valid patch then raise (cand_error ''patch text'')
     else ret (source_tree, merged, patch))))))"

text \<open>The changed paths, the evidence that is still current, and the contents that are frozen.\<close>

definition freeze_inputs :: "review_env \<Rightarrow> (string list \<times> dict list \<times> json list) review_prog" where
  "freeze_inputs V =
     seq_then (validate_identity V)
     (bnd (status_paths V (rv_active V)) (\<lambda>paths.
      if paths = [] then raise (cand_error ''no changes'')
      else bnd (current_evidence V) (\<lambda>tests.
      if tests = [] then raise (cand_error ''no evidence'')
      else bnd rv_tick (\<lambda>n. bnd (lift (rmap (file_change V n) paths)) (\<lambda>changes. ret (paths, tests, changes))))))"

definition write_frozen ::
  "review_env \<Rightarrow> string list \<Rightarrow> dict list \<Rightarrow> json list \<Rightarrow> string \<Rightarrow> string \<Rightarrow> char list \<Rightarrow> dict review_prog" where
  "write_frozen V paths tests changes source_tree merged patch =
     bnd rv_tick (\<lambda>n.
     seq_then (rv_write_file V (\<lambda>f. f\<lparr>fz_patch := Some patch\<rparr>))
     (bnd (in_store read_meta) (\<lambda>meta.
      bnd (lift (py_int (dget_or meta ''candidate_revision'' (JInt 0)))) (\<lambda>revision.
      let manifest = frozen_manifest V (py_take 16 (rv_uuid V n)) source_tree merged (rv_sha V patch) paths changes revision tests (rv_now V n) in
      seq_then (rv_write_file V (\<lambda>f. f\<lparr>fz_manifest := Some manifest\<rparr>))
      (seq_then (rv_log V ''changes_frozen'' [(''workspace_revision'', JInt (rv_revision V)), (''candidate_revision'', JInt revision),
         (''patch_sha256'', JStr (rv_sha V patch)), (''changed_files'', JArr (map JStr paths))])
      (ret manifest))))))"

definition freeze :: "review_env \<Rightarrow> dict review_prog" where
  "freeze V =
     bnd (freeze_inputs V) (\<lambda>(paths, tests, changes).
     seq_then (validate_paths V (rv_source V))
     (bnd (changed_tree V) (\<lambda>ours.
      bnd (merged_patch V ours) (\<lambda>(source_tree, merged, patch).
      write_frozen V paths tests changes source_tree merged patch))))"

definition preview_patch :: "review_env \<Rightarrow> char list review_prog" where
  "preview_patch V =
     bnd (candidate_snapshot V (rv_active V) (base_text V)) (\<lambda>ours.
     bnd (git_text V (rv_active V) [''rev-parse'', base_text V @ ''^{tree}''] True) (\<lambda>base_tree.
     bnd (tree_patch V base_tree ours) (\<lambda>patch.
     if max_frozen_bytes < int (length patch) then raise (cand_error ''patch size'') else ret patch)))"

section \<open>Reading the frozen changes\<close>

definition load_frozen :: "review_env \<Rightarrow> string option \<Rightarrow> (dict \<times> char list) review_prog" where
  "load_frozen V cid = bnd rv_tick (\<lambda>n. bnd (gets rs_frozen) (\<lambda>f0.
     let f = rv_disk V n f0 in
     case (fz_manifest f, fz_patch f) of
       (Some manifest, Some patch) \<Rightarrow>
         (let selected = (case cid of Some (c # cs) \<Rightarrow> JStr (c # cs) | _ \<Rightarrow> dget manifest ''candidate_id'') in
          if dget manifest ''candidate_id'' \<noteq> selected \<or> dget manifest ''session_id'' \<noteq> JStr (rv_session V)
          then raise (cand_error ''identity'')
          else if JStr (rv_sha V patch) \<noteq> dget manifest ''patch_sha256'' then raise (cand_error ''patch hash'')
          else ret (manifest, patch))
     | _ \<Rightarrow> raise (cand_error ''incomplete'')))"

section \<open>Applying\<close>

datatype apply_status = ApplyRejected | ApplySourceDirty | ApplySourceChanged | ApplyCheckFailed | Applied | ApplyFailed

fun apply_value :: "apply_status \<Rightarrow> string" where
  "apply_value ApplyRejected = ''rejected''"
| "apply_value ApplySourceDirty = ''source_dirty''"
| "apply_value ApplySourceChanged = ''source_changed''"
| "apply_value ApplyCheckFailed = ''patch_check_failed''"
| "apply_value Applied = ''applied''"
| "apply_value ApplyFailed = ''apply_failed''"

definition reject :: "review_env \<Rightarrow> string option \<Rightarrow> dict review_prog" where
  "reject V cid = seq_then (load_frozen V cid)
     (ret [(''status'', JStr (apply_value ApplyRejected)), (''reason'', JStr ''rejected'')])"

text \<open>The head of the source and whether it is dirty; neither if Git fails.\<close>

definition source_identity :: "review_env \<Rightarrow> (string \<times> bool) option review_prog" where
  "source_identity V = try_catch
     (bnd (git_text V (rv_source V) [''rev-parse'', ''HEAD''] True) (\<lambda>head.
      bnd (git_text V (rv_source V) dirty_arguments True) (\<lambda>status. ret (Some (head, status \<noteq> [])))))
     (\<lambda>e. if exn_class e = CandidateError then ret None else raise e)"

definition apply_arguments :: "bool \<Rightarrow> string list" where
  "apply_arguments check = [''apply'', ''--whitespace=nowarn''] @ (if check then [''--check''] else [])"

definition git_apply :: "review_env \<Rightarrow> char list \<Rightarrow> bool \<Rightarrow> (int \<times> char list \<times> char list) review_prog" where
  "git_apply V patch check = rv_call V (rv_source V) (apply_arguments check) patch"

text \<open>
  The reason of a receipt. Git's output is read as bytes here, and \<^verbatim>\<open>stderr.strip() or text\<close> keeps them:
  an event writes them as text if they are UTF-8, \<^verbatim>\<open>json.dumps\<close> does not take them, and they cannot be
  appended to a string.
\<close>

datatype reason = ReasonText string | ReasonBytes "char list"

definition error_reason :: "char list \<Rightarrow> string \<Rightarrow> reason" where
  "error_reason err default_text = (if strip err = [] then ReasonText default_text else ReasonBytes (strip err))"

fun event_text :: "reason \<Rightarrow> string res" where
  "event_text (ReasonText s) = Inr s"
| "event_text (ReasonBytes b) = (if utf8_valid b then Inr b else Inl (Exn ValueError ''serialization''))"

record apply_receipt =
  rc_status :: apply_status
  rc_reason :: reason
  rc_apply_id :: string
  rc_dict :: dict

definition identity_fields :: "string \<Rightarrow> (string \<times> bool) option \<Rightarrow> dict" where
  "identity_fields when i = [(when @ ''_source_head'', opt_str (map_option fst i)),
     (when @ ''_source_dirty'', case i of None \<Rightarrow> JNull | Some (h, d) \<Rightarrow> JBool d)]"

definition final_status :: "review_env \<Rightarrow> json review_prog" where
  "final_status V = try_catch (bnd (git_text V (rv_source V) dirty_arguments False) (\<lambda>s. ret (JStr s)))
     (\<lambda>e. if exn_class e = CandidateError then ret JNull else raise e)"

text \<open>The receipt is logged and returned; the dictionary holds its reason as the event does.\<close>

definition record_apply ::
  "review_env \<Rightarrow> dict \<Rightarrow> apply_status \<Rightarrow> reason \<Rightarrow> (string \<times> bool) option \<Rightarrow> apply_receipt review_prog" where
  "record_apply V manifest status reason observed =
     bnd (source_identity V) (\<lambda>final.
     bnd (final_status V) (\<lambda>git_status_text.
     bnd rv_tick (\<lambda>n.
     bnd (lift (dindex manifest ''candidate_id'')) (\<lambda>cid. bnd (lift (dindex manifest ''session_id'')) (\<lambda>sid.
     bnd (lift (dindex manifest ''patch_sha256'')) (\<lambda>digest. bnd (lift (dindex manifest ''changed_files'')) (\<lambda>files.
     bnd (lift (dindex manifest ''test_receipts'')) (\<lambda>tests. bnd (lift (dindex manifest ''base_commit'')) (\<lambda>base.
     bnd (lift (event_text reason)) (\<lambda>reason_text.
     let d = [(''apply_id'', JStr (rv_uuid V n)), (''candidate_id'', cid), (''session_id'', sid), (''patch_sha256'', digest),
        (''changed_files'', files), (''test_receipts'', tests), (''expected_base_commit'', base)]
        @ identity_fields ''observed'' observed @ identity_fields ''final'' final
        @ [(''final_git_status'', git_status_text), (''applied_patch_sha256'', if status = Applied then digest else JNull),
           (''status'', JStr (apply_value status)), (''reason'', JStr reason_text), (''created_at'', JStr (rv_now V n))] in
     seq_then (rv_log V ''changes_apply_result'' d)
     (ret \<lparr>rc_status = status, rc_reason = reason, rc_apply_id = rv_uuid V n, rc_dict = d\<rparr>)))))))))))"

text \<open>
  The source must still be the one the changes were frozen against, and the patch must apply to it;
  after the approval the error of the check is appended to a string.
\<close>

datatype preflight = Proceed "(string \<times> bool) option" | Refuse apply_status reason "(string \<times> bool) option"

definition check_reason :: "bool \<Rightarrow> char list \<Rightarrow> reason res" where
  "check_reason approved err = (if \<not> approved then Inr (error_reason err ''git apply --check'')
     else case error_reason err ''unknown error'' of
       ReasonText s \<Rightarrow> Inr (ReasonText (''preflight after approval: '' @ s)) | ReasonBytes b \<Rightarrow> Inl (Exn TypeError ''str + bytes''))"

definition preflight_source :: "review_env \<Rightarrow> dict \<Rightarrow> char list \<Rightarrow> bool \<Rightarrow> preflight review_prog" where
  "preflight_source V manifest patch approved =
     bnd (source_identity V) (\<lambda>identity.
     bnd (candidate_snapshot V (rv_source V) ''HEAD'') (\<lambda>tree.
     if JStr tree \<noteq> dget manifest ''source_snapshot_tree'' then ret (Refuse ApplySourceChanged (ReasonText ''source changed'') identity)
     else bnd (git_apply V patch True) (\<lambda>(rc, out, err).
       if rc \<noteq> 0 then bnd (lift (check_reason approved err)) (\<lambda>why. ret (Refuse ApplyCheckFailed why identity))
       else ret (Proceed identity))))"

definition ask_approval :: "review_env \<Rightarrow> dict \<Rightarrow> string \<Rightarrow> bool review_prog" where
  "ask_approval V manifest text_patch = bnd rv_tick (\<lambda>n. lift (rv_approve V n manifest text_patch))"

text \<open>The patch is applied and the result must be the merged tree.\<close>

definition apply_patch :: "review_env \<Rightarrow> dict \<Rightarrow> char list \<Rightarrow> (apply_status \<times> reason) review_prog" where
  "apply_patch V manifest patch =
     bnd (git_apply V patch False) (\<lambda>(rc, out, err).
     if rc \<noteq> 0 then ret (ApplyFailed, error_reason err ''git apply'')
     else bnd (candidate_snapshot V (rv_source V) ''HEAD'') (\<lambda>tree.
       ret (if JStr tree \<noteq> dget manifest ''merged_tree'' then (ApplyFailed, ReasonText ''not the merged tree'')
            else (Applied, ReasonText ''applied''))))"

text \<open>After the approval the source is checked once more.\<close>

definition apply_approved :: "review_env \<Rightarrow> dict \<Rightarrow> char list \<Rightarrow> apply_receipt review_prog" where
  "apply_approved V manifest patch =
     bnd (preflight_source V manifest patch True) (\<lambda>second.
     case second of Refuse status why identity \<Rightarrow> record_apply V manifest status why identity
     | Proceed approved \<Rightarrow> bnd (apply_patch V manifest patch) (\<lambda>(status, why). record_apply V manifest status why approved))"

definition apply_candidate :: "review_env \<Rightarrow> string option \<Rightarrow> apply_receipt review_prog" where
  "apply_candidate V cid =
     bnd (load_frozen V cid) (\<lambda>(manifest, patch).
     bnd (preflight_source V manifest patch False) (\<lambda>first.
     case first of Refuse status why identity \<Rightarrow> record_apply V manifest status why identity
     | Proceed before \<Rightarrow>
         bnd (lift (utf8_decode patch)) (\<lambda>text_patch.
         bnd (ask_approval V manifest text_patch) (\<lambda>allowed.
         if \<not> allowed then record_apply V manifest ApplyRejected (ReasonText ''refused'') before
         else apply_approved V manifest patch))))"

end
