(* ===== verification/Applied_Changes.thy ===== *)
theory Applied_Changes
  imports Candidate
begin

text \<open>
  \<^verbatim>\<open>runtime/applied_changes.py\<close>: the contents of the files of an applied change, kept so that its diff
  can be opened later.
\<close>

section \<open>Identities and contents\<close>

definition applied_error :: "string \<Rightarrow> exn" where
  "applied_error why = Exn AppliedChangesError why"

definition delivery_name :: "json \<Rightarrow> string res" where
  "delivery_name v = (let s = (if truthy v then py_str v else []) in
     if length s = 32 \<and> list_all (\<lambda>c. c \<in> set ''0123456789abcdef'') s then Inr s else Inl (applied_error ''identity''))"

definition artifact_name :: "json \<Rightarrow> string \<Rightarrow> string res" where
  "artifact_name v ext = (let s = (if truthy v then py_str v else []); ds = takeWhile is_digit s in
     if ds \<noteq> [] \<and> s = ds @ CHR ''.'' # ext then Inr s else Inl (applied_error ''artifact''))"

definition max_preview_bytes :: int where
  "max_preview_bytes = 512000"

definition previewable :: "char list \<Rightarrow> bool" where
  "previewable content = (\<not> (max_preview_bytes < int (length content) \<or> has_nul content) \<and> utf8_valid content)"

section \<open>Git\<close>

definition git_show :: "process_result res \<Rightarrow> char list res" where
  "git_show call = rbind call (\<lambda>(rc, out, err).
     if rc = 0 then Inr out
     else if contains_str ''does not exist'' err \<or> contains_str ''exists on disk'' err \<or> contains_str (''Path '' @ [CHR 0x27]) err
     then Inr [] else Inl (applied_error ''git show''))"

definition show_arguments :: "string \<Rightarrow> string \<Rightarrow> string list" where
  "show_arguments tree p = [''show'', tree @ '':'' @ p]"

definition numstat_arguments :: "string \<Rightarrow> string \<Rightarrow> string \<Rightarrow> string list" where
  "numstat_arguments before after p = [''diff'', ''--numstat'', before, after, ''--'', p]"

definition count_text :: "string \<Rightarrow> json" where
  "count_text s = (if s \<noteq> [] \<and> list_all is_digit s then JInt (int (read_digits s)) else JNull)"

text \<open>\<^verbatim>\<open>line.split("\t", 2)\<close> has three parts exactly if there are two tabs.\<close>

definition numstat :: "process_result res \<Rightarrow> (json \<times> json) res" where
  "numstat call = rbind call (\<lambda>(rc, out, err). rbind (utf8_decode out) (\<lambda>s.
     if rc \<noteq> 0 \<or> strip s = [] then Inr (JNull, JNull)
     else case splitlines s of [] \<Rightarrow> Inr (JNull, JNull)
       | line # rest \<Rightarrow> (case split_on CHR 0x09 line of
           a # b # c # others \<Rightarrow> Inr (count_text a, count_text b) | _ \<Rightarrow> Inr (JNull, JNull))))"

definition call_at :: "review_env \<Rightarrow> string list \<Rightarrow> (process_result res \<Rightarrow> 'a res) \<Rightarrow> 'a review_prog" where
  "call_at V args f = bnd rv_tick (\<lambda>n.
     seq_then (modify (\<lambda>s. s\<lparr>rs_calls := rs_calls s @ [(rv_active V, args, [])]\<rparr>))
       (lift (f (rv_git V n (rv_active V) args []))))"

section \<open>Saving\<close>

definition artifact_text :: "nat \<Rightarrow> string \<Rightarrow> string" where
  "artifact_text i ext = show_nat i @ CHR ''.'' # ext"

definition delivery_row :: "nat \<Rightarrow> string \<Rightarrow> json \<times> json \<Rightarrow> bool \<Rightarrow> json" where
  "delivery_row i p counts shown = JObj [(''path'', JStr p), (''additions'', fst counts), (''deletions'', snd counts),
     (''previewAvailable'', JBool shown), (''beforeArtifact'', if shown then JStr (artifact_text i ''before'') else JNull),
     (''afterArtifact'', if shown then JStr (artifact_text i ''after'') else JNull)]"

definition save_file :: "review_env \<Rightarrow> string \<Rightarrow> string \<Rightarrow> nat \<Rightarrow> string \<Rightarrow> (json \<times> (string \<times> char list) list) review_prog" where
  "save_file V before_tree after_tree i p =
     bnd (call_at V (show_arguments before_tree p) git_show) (\<lambda>before.
     bnd (call_at V (show_arguments after_tree p) git_show) (\<lambda>after.
     bnd (call_at V (numstat_arguments before_tree after_tree p) numstat) (\<lambda>counts.
     let shown = previewable before \<and> previewable after in
     ret (delivery_row i p counts shown,
          if shown then [(artifact_text i ''before'', before), (artifact_text i ''after'', after)] else []))))"

fun save_files :: "review_env \<Rightarrow> string \<Rightarrow> string \<Rightarrow> nat \<Rightarrow> string list \<Rightarrow> (json list \<times> (string \<times> char list) list) review_prog" where
  "save_files V b a i [] = ret ([], [])"
| "save_files V b a i (p # ps) = bnd (save_file V b a i p) (\<lambda>(row, files).
     bnd (save_files V b a (Suc i) ps) (\<lambda>(rows, others). ret (row # rows, files @ others)))"

definition load_delivery :: "string \<Rightarrow> (dict \<times> (string \<times> char list) list) review_prog" where
  "load_delivery name = bnd (gets rs_deliveries) (\<lambda>ds. case map_of ds name of
     None \<Rightarrow> raise (applied_error ''missing'')
   | Some d \<Rightarrow> (let a = dl_artifact d in
       if dget a ''schemaVersion'' \<noteq> JInt 1 \<or> dget a ''deliveryId'' \<noteq> JStr name \<or> dget a ''status'' \<noteq> JStr ''applied''
       then raise (applied_error ''format'')
       else case dget a ''files'' of
           JArr rows \<Rightarrow> if list_all (\<lambda>r. as_obj r \<noteq> None) rows then ret (a, dl_files d) else raise (applied_error ''format'')
         | _ \<Rightarrow> raise (applied_error ''format'')))"

definition row_summary :: "json \<Rightarrow> json res" where
  "row_summary row = (case as_obj row of None \<Rightarrow> Inl (applied_error ''format'')
     | Some r \<Rightarrow> (case map_of r ''path'' of None \<Rightarrow> Inl (applied_error ''format'')
       | Some p \<Rightarrow> Inr (JObj [(''path'', JStr (py_str p)), (''additions'', dget r ''additions''), (''deletions'', dget r ''deletions''),
           (''previewAvailable'', JBool (truthy (dget r ''previewAvailable'')))])))"

definition row_field :: "string \<Rightarrow> json \<Rightarrow> json" where
  "row_field k row = (case as_obj row of None \<Rightarrow> JNull | Some r \<Rightarrow> dget r k)"

definition row_sum :: "string \<Rightarrow> json list \<Rightarrow> int" where
  "row_sum k rows = sum_list (map (\<lambda>r. case row_field k r of JInt i \<Rightarrow> i | _ \<Rightarrow> 0) rows)"

definition artifact_rows :: "dict \<Rightarrow> json list" where
  "artifact_rows a = (case dget a ''files'' of JArr rows \<Rightarrow> rows | _ \<Rightarrow> [])"

definition delivery_summary :: "json \<Rightarrow> dict review_prog" where
  "delivery_summary v = bnd (lift (delivery_name v)) (\<lambda>name. bnd (load_delivery name) (\<lambda>(a, files).
     bnd (lift (rmap row_summary (artifact_rows a))) (\<lambda>rows.
     ret [(''state'', JStr ''applied''), (''available'', JBool (rows \<noteq> [])),
       (''reviewable'', JBool (list_ex (\<lambda>r. row_field ''previewAvailable'' r = JBool True) rows)), (''deliveryId'', dget a ''deliveryId''),
       (''fileCount'', JInt (int (length rows))), (''files'', JArr (map (row_field ''path'') rows)), (''fileStats'', JArr rows),
       (''additions'', JInt (row_sum ''additions'' rows)), (''deletions'', JInt (row_sum ''deletions'' rows))])))"

definition save_errors :: "exn_class set" where
  "save_errors = {AppliedChangesError, KeyError, OSError, SubprocessError, UnicodeDecodeError, ValueError, JSONDecodeError}"

text \<open>Everything is written below a temporary name, which is renamed when it is complete.\<close>

definition write_delivery :: "review_env \<Rightarrow> string \<Rightarrow> dict \<Rightarrow> dict \<Rightarrow> dict review_prog" where
  "write_delivery V name manifest receipt =
     bnd rv_tick (\<lambda>n. seq_then (lift (rv_write V n))
     (bnd (lift (dindex manifest ''source_snapshot_tree'')) (\<lambda>before. bnd (lift (dindex manifest ''merged_tree'')) (\<lambda>after.
      bnd (save_files V (py_str before) (py_str after) 0
        (case dget_or manifest ''changed_files'' (JArr []) of JArr ps \<Rightarrow> map py_str ps | _ \<Rightarrow> [])) (\<lambda>(rows, files).
      let artifact = [(''schemaVersion'', JInt 1), (''deliveryId'', JStr name), (''status'', JStr ''applied''),
         (''createdAt'', dget receipt ''created_at''), (''patchSha256'', dget manifest ''patch_sha256''), (''files'', JArr rows)] in
      bnd rv_tick (\<lambda>m. seq_then (lift (rv_write V m))
      (seq_then (modify (\<lambda>s. s\<lparr>rs_deliveries := (name, \<lparr>dl_artifact = artifact, dl_files = files\<rparr>) # rs_deliveries s\<rparr>))
        (delivery_summary (JStr name)))))))))"

definition save_delivery :: "review_env \<Rightarrow> dict \<Rightarrow> dict \<Rightarrow> dict review_prog" where
  "save_delivery V manifest receipt =
     bnd (lift (delivery_name (dget receipt ''apply_id''))) (\<lambda>name.
     bnd (gets rs_deliveries) (\<lambda>ds.
     if map_of ds name \<noteq> None then raise (applied_error ''exists'')
     else try_catch (write_delivery V name manifest receipt)
       (\<lambda>e. if exn_class e \<in> save_errors then raise (applied_error ''save'') else raise e)))"

section \<open>Reading\<close>

definition read_delivery_file :: "json \<Rightarrow> string \<Rightarrow> (string \<times> string) review_prog" where
  "read_delivery_file v p = bnd (lift (delivery_name v)) (\<lambda>name. bnd (load_delivery name) (\<lambda>(a, files).
     case find (\<lambda>r. row_field ''path'' r = JStr p) (artifact_rows a) of
       None \<Rightarrow> raise (applied_error ''not a file of the change'')
     | Some row \<Rightarrow>
         if \<not> truthy (row_field ''previewAvailable'' row) then raise (applied_error ''no preview'')
         else bnd (lift (artifact_name (row_field ''beforeArtifact'' row) ''before'')) (\<lambda>bn.
           bnd (lift (artifact_name (row_field ''afterArtifact'' row) ''after'')) (\<lambda>an.
           case (map_of files bn, map_of files an) of
             (Some b, Some c) \<Rightarrow> if utf8_valid b \<and> utf8_valid c then ret (b, c) else raise (applied_error ''decode'')
           | _ \<Rightarrow> raise (applied_error ''read'')))))"

section \<open>Properties\<close>

lemma artifact_text_inj: "artifact_text i x = artifact_text j y \<Longrightarrow> x \<in> {''before'', ''after''} \<Longrightarrow> y \<in> {''before'', ''after''} \<Longrightarrow> i = j \<and> x = y"
proof -
  have digits: "takeWhile is_digit (show_nat k @ CHR ''.'' # z) = show_nat k" for k z
    using show_nat_digits [of k] by (simp add: list_all_iff is_digit_def)
  assume e: "artifact_text i x = artifact_text j y"
  then have "show_nat i = show_nat j" using digits [of i x] digits [of j y] by (simp add: artifact_text_def)
  then have "i = j" by (metis read_digits_show_nat)
  with e show ?thesis by (simp add: artifact_text_def)
qed

lemma artifact_name_text: "artifact_name (JStr (artifact_text i x)) x = Inr (artifact_text i x)"
proof -
  have "takeWhile is_digit (show_nat i @ CHR ''.'' # x) = show_nat i" "show_nat i \<noteq> []"
    using show_nat_digits [of i] by (simp_all add: list_all_iff is_digit_def)
  then show ?thesis by (simp add: artifact_name_def artifact_text_def Let_def)
qed

text \<open>What Git showed of a file in a tree at some moment.\<close>

definition shown_content :: "review_env \<Rightarrow> string \<Rightarrow> string \<Rightarrow> char list \<Rightarrow> bool" where
  "shown_content V tree p content \<longleftrightarrow> (\<exists>n. git_show (rv_git V n (rv_active V) (show_arguments tree p) []) = Inr content)"

definition saved_row :: "review_env \<Rightarrow> string \<Rightarrow> string \<Rightarrow> nat \<Rightarrow> string \<Rightarrow> json \<Rightarrow> (string \<times> char list) list \<Rightarrow> bool" where
  "saved_row V b a i p row files \<longleftrightarrow> (\<exists>before after counts. shown_content V b p before \<and> shown_content V a p after
     \<and> row = delivery_row i p counts (previewable before \<and> previewable after)
     \<and> (previewable before \<and> previewable after \<longrightarrow> map_of files (artifact_text i ''before'') = Some before
          \<and> map_of files (artifact_text i ''after'') = Some after))"

lemma saved_row_mono:
  assumes "saved_row V b a i p row fs" and "\<And>k v. map_of fs k = Some v \<Longrightarrow> map_of files k = Some v"
  shows "saved_row V b a i p row files"
  using assms unfolding saved_row_def by blast

lemma call_at_Inr: "call_at V args f s = (Inr x, t) \<Longrightarrow> \<exists>n. f (rv_git V n (rv_active V) args []) = Inr x"
  by (auto simp: call_at_def bnd_def seq_then_def rv_tick_def)

lemma call_at_deliveries: "call_at V args f s = (r, t) \<Longrightarrow> rs_deliveries t = rs_deliveries s"
  by (auto simp: call_at_def bnd_def seq_then_def rv_tick_def)

lemma save_file_Inr:
  assumes "save_file V b a i p s = (Inr (row, files), t)"
  shows "saved_row V b a i p row files \<and> fst ` set files \<subseteq> {artifact_text i ''before'', artifact_text i ''after''}"
proof -
  obtain before after counts s1 s2 where c: "call_at V (show_arguments b p) git_show s = (Inr before, s1)"
      "call_at V (show_arguments a p) git_show s1 = (Inr after, s2)"
      "row = delivery_row i p counts (previewable before \<and> previewable after)"
      "files = (if previewable before \<and> previewable after then [(artifact_text i ''before'', before), (artifact_text i ''after'', after)] else [])"
    using assms unfolding save_file_def by (auto simp: bnd_eq_Inr Let_def)
  have "artifact_text i ''before'' \<noteq> artifact_text i ''after''" using artifact_text_inj [of i "''before''" i "''after''"] by auto
  then show ?thesis using c(3,4) call_at_Inr [OF c(1)] call_at_Inr [OF c(2)]
    unfolding saved_row_def shown_content_def by (intro conjI exI [of _ before] exI [of _ after] exI [of _ counts]) auto
qed

lemma save_files_Inr:
  assumes "save_files V b a i ps s = (Inr (rows, files), t)"
  shows "length rows = length ps \<and> (\<forall>k < length ps. saved_row V b a (i + k) (ps ! k) (rows ! k) files)
    \<and> (\<forall>f \<in> fst ` set files. \<exists>j \<ge> i. \<exists>x \<in> {''before'', ''after''}. f = artifact_text j x)"
  using assms
proof (induction ps arbitrary: i s rows files)
  case Nil
  then show ?case by simp
next
  case (Cons p ps)
  obtain row fs s1 rows' others where c: "save_file V b a i p s = (Inr (row, fs), s1)"
      "save_files V b a (Suc i) ps s1 = (Inr (rows', others), t)" "rows = row # rows'" "files = fs @ others"
    using Cons.prems by (auto simp: bnd_eq_Inr)
  note h = save_file_Inr [OF c(1)] and ih = Cons.IH [OF c(2)]
  have here: "saved_row V b a i p row files"
    by (rule saved_row_mono [where fs = fs]) (use h in \<open>simp_all add: c(4)\<close>)
  have keys: "artifact_text (Suc i + k) x \<notin> fst ` set fs" if "x \<in> {''before'', ''after''}" for k x
    using h artifact_text_inj [of "Suc i + k" x i "''before''"] artifact_text_inj [of "Suc i + k" x i "''after''"] that by auto
  then have m: "map_of files (artifact_text (Suc i + k) x) = map_of others (artifact_text (Suc i + k) x)" if "x \<in> {''before'', ''after''}" for k x
    using that by (auto simp: c(4) map_of_append map_add_dom_app_simps dom_map_of_conv_image_fst)
  have later: "saved_row V b a (Suc i + k) (ps ! k) (rows' ! k) files" if "k < length ps" for k
    using ih that m [of "''before''" k] m [of "''after''" k] unfolding saved_row_def by simp
  have "saved_row V b a (i + k) ((p # ps) ! k) (rows ! k) files" if "k < length (p # ps)" for k
    using here later that by (cases k) (auto simp: c(3))
  moreover have "\<exists>j \<ge> i. \<exists>x \<in> {''before'', ''after''}. f = artifact_text j x" if "f \<in> fst ` set files" for f
  proof -
    from that consider "f \<in> fst ` set fs" | "f \<in> fst ` set others" by (auto simp: c(4))
    then show ?thesis
    proof cases
      case 1
      with h show ?thesis by auto
    next
      case 2
      with ih show ?thesis by (meson Suc_leD)
    qed
  qed
  ultimately show ?case using ih c(3) by auto
qed

lemma row_field_delivery [simp]:
  "row_field ''path'' (delivery_row i p c v) = JStr p" "row_field ''previewAvailable'' (delivery_row i p c v) = JBool v"
  "row_field ''beforeArtifact'' (delivery_row i p c True) = JStr (artifact_text i ''before'')"
  "row_field ''afterArtifact'' (delivery_row i p c True) = JStr (artifact_text i ''after'')"
  "\<exists>y. delivery_row i p c v = JObj y"
  by (simp_all add: row_field_def delivery_row_def)

definition saved_artifact :: "string \<Rightarrow> json list \<Rightarrow> json \<Rightarrow> json \<Rightarrow> dict" where
  "saved_artifact name rows created digest = [(''schemaVersion'', JInt 1), (''deliveryId'', JStr name), (''status'', JStr ''applied''),
     (''createdAt'', created), (''patchSha256'', digest), (''files'', JArr rows)]"

lemma saved_artifact_fields:
  "dget (saved_artifact name rows c d) ''schemaVersion'' = JInt 1" "dget (saved_artifact name rows c d) ''deliveryId'' = JStr name"
  "dget (saved_artifact name rows c d) ''status'' = JStr ''applied''" "dget (saved_artifact name rows c d) ''files'' = JArr rows"
  by (simp_all add: saved_artifact_def)

lemma load_saved:
  assumes "map_of (rs_deliveries t) name = Some \<lparr>dl_artifact = saved_artifact name rows c d, dl_files = files\<rparr>"
    and "\<forall>r \<in> set rows. as_obj r \<noteq> None"
  shows "load_delivery name t = (Inr (saved_artifact name rows c d, files), t)"
  using assms by (simp add: load_delivery_def bnd_def saved_artifact_fields list_all_iff)

lemma delivery_summary_state: "snd (delivery_summary v s) = s"
  by (auto simp: delivery_summary_def load_delivery_def bnd_def Let_def split: sum.splits option.splits json.splits)

lemma save_delivery_Inr:
  assumes "save_delivery V manifest receipt s = (Inr d, t)"
    and "dget manifest ''source_snapshot_tree'' = JStr b" and "dget manifest ''merged_tree'' = JStr a"
    and "dget_or manifest ''changed_files'' (JArr []) = JArr (map JStr ps)"
  obtains name u v rows files where "delivery_name (dget receipt ''apply_id'') = Inr name" "save_files V b a 0 ps u = (Inr (rows, files), v)"
    "map_of (rs_deliveries t) name =
       Some \<lparr>dl_artifact = saved_artifact name rows (dget receipt ''created_at'') (dget manifest ''patch_sha256''), dl_files = files\<rparr>"
proof -
  obtain name where name: "delivery_name (dget receipt ''apply_id'') = Inr name" and w: "write_delivery V name manifest receipt s = (Inr d, t)"
    using assms(1) unfolding save_delivery_def try_catch_def bnd_def by (auto split: sum.splits if_splits prod.splits)
  have trees: "map_of manifest ''source_snapshot_tree'' = Some (JStr b)" "map_of manifest ''merged_tree'' = Some (JStr a)"
    using assms(2,3) by (auto simp: dget_or_def split: option.splits)
  have ps: "map py_str (map JStr ps) = ps" by (simp add: comp_def)
  from w obtain u rows files v m where s: "save_files V b a 0 ps u = (Inr (rows, files), v)"
     and f: "delivery_summary (JStr name) (v\<lparr>rs_clock := m, rs_deliveries :=
        (name, \<lparr>dl_artifact = saved_artifact name rows (dget receipt ''created_at'') (dget manifest ''patch_sha256''), dl_files = files\<rparr>)
         # rs_deliveries v\<rparr>) = (Inr d, t)"
    unfolding write_delivery_def using trees assms(4) ps
    by (auto simp: bnd_eq_Inr seq_then_eq_Inr dindex_def rv_tick_def Let_def saved_artifact_def simp del: map_map)
  have "map_of (rs_deliveries t) name =
       Some \<lparr>dl_artifact = saved_artifact name rows (dget receipt ''created_at'') (dget manifest ''patch_sha256''), dl_files = files\<rparr>"
    using arg_cong [OF f, of snd] unfolding delivery_summary_state by auto
  with name s show thesis by (rule that)
qed

text \<open>
  A delivery reads back as what was applied: after it was saved, each of its files opens with the
  contents Git showed in the tree of the source and in the merged tree, if both are texts within the
  limit, and is refused otherwise.
\<close>

theorem delivery_roundtrip:
  assumes "save_delivery V manifest receipt s = (Inr d, t)"
    and "dget manifest ''source_snapshot_tree'' = JStr b" and "dget manifest ''merged_tree'' = JStr a"
    and "dget_or manifest ''changed_files'' (JArr []) = JArr (map JStr ps)" and "distinct ps" and "p \<in> set ps"
  shows "\<exists>n m before after. git_show (rv_git V n (rv_active V) (show_arguments b p) []) = Inr before
    \<and> git_show (rv_git V m (rv_active V) (show_arguments a p) []) = Inr after
    \<and> read_delivery_file (dget receipt ''apply_id'') p t =
        (if previewable before \<and> previewable after then Inr (before, after) else Inl (applied_error ''no preview''), t)"
proof -
  obtain name u v rows files where n: "delivery_name (dget receipt ''apply_id'') = Inr name"
    and f: "save_files V b a 0 ps u = (Inr (rows, files), v)"
    and m: "map_of (rs_deliveries t) name =
       Some \<lparr>dl_artifact = saved_artifact name rows (dget receipt ''created_at'') (dget manifest ''patch_sha256''), dl_files = files\<rparr>"
    by (rule save_delivery_Inr [OF assms(1-4)])
  have len: "length rows = length ps" and row: "\<And>j. j < length ps \<Longrightarrow> saved_row V b a j (ps ! j) (rows ! j) files"
    using save_files_Inr [OF f] by auto
  obtain k where k: "k < length ps" "ps ! k = p" using assms(6) by (auto simp: in_set_conv_nth)
  obtain before after counts where r: "shown_content V b p before" "shown_content V a p after"
     "rows ! k = delivery_row k p counts (previewable before \<and> previewable after)"
     "previewable before \<and> previewable after \<longrightarrow> map_of files (artifact_text k ''before'') = Some before
          \<and> map_of files (artifact_text k ''after'') = Some after"
    using row [OF k(1)] k(2) by (auto simp: saved_row_def)
  have path: "row_field ''path'' (rows ! j) = JStr (ps ! j)" "as_obj (rows ! j) \<noteq> None" if "j < length ps" for j
    using row [OF that] by (auto simp: saved_row_def)
  have "find (\<lambda>r. row_field ''path'' r = JStr p) rows = Some (rows ! k)"
    unfolding find_Some_iff using k len path assms(5) by (intro exI [of _ k]) (auto simp: nth_eq_iff_index_eq)
  moreover have "load_delivery name t = (Inr (saved_artifact name rows (dget receipt ''created_at'') (dget manifest ''patch_sha256''), files), t)"
    by (rule load_saved [OF m]) (use path(2) len in \<open>auto simp: in_set_conv_nth\<close>)
  ultimately have "read_delivery_file (dget receipt ''apply_id'') p t =
      (if previewable before \<and> previewable after then Inr (before, after) else Inl (applied_error ''no preview''), t)"
    using n r(3,4) by (auto simp: read_delivery_file_def bnd_def artifact_rows_def saved_artifact_fields artifact_name_text previewable_def)
  then show ?thesis using r(1,2) unfolding shown_content_def by blast
qed

definition show_env :: review_env where
  "show_env = \<lparr>rv_session = ''s1'', rv_source = [''src''], rv_active = [''wt''], rv_kind = ''git_worktree'',
     rv_base = Some ''b0'', rv_revision = 1, rv_links = 5, rv_sha = id, rv_uuid = (\<lambda>n. ''u''), rv_now = (\<lambda>n. ''t''),
     rv_fs = (\<lambda>n p. None),
     rv_git = (\<lambda>n cwd args input. Inr (0, if args = show_arguments ''b'' ''f'' then ''old'' else if args = show_arguments ''a'' ''f'' then ''new'' else [], [])),
     rv_write = (\<lambda>n. Inr ()), rv_disk = (\<lambda>n f. f), rv_approve = (\<lambda>n m p. Inr True)\<rparr>"

definition show_state :: review_state where
  "show_state = \<lparr>rs_store = \<lparr>st_root = [], st_session = [], st_meta = [], st_events = []\<rparr>, rs_clock = 0,
     rs_frozen = \<lparr>fz_manifest = None, fz_patch = None\<rparr>, rs_calls = [], rs_deliveries = []\<rparr>"

definition show_manifest :: dict where
  "show_manifest = [(''source_snapshot_tree'', JStr ''b''), (''merged_tree'', JStr ''a''), (''changed_files'', JArr [JStr ''f''])]"

definition show_receipt :: dict where
  "show_receipt = [(''apply_id'', JStr (replicate 32 CHR ''d''))]"

lemma show_texts: "show_arguments ''b'' ''f'' \<noteq> show_arguments ''a'' ''f''" "previewable ''old''" "previewable ''new''"
  "delivery_name (JStr (replicate 32 CHR ''d'')) = Inr (replicate 32 CHR ''d'')" "numstat (Inr (0, [], [])) = Inr (JNull, JNull)"
  "numstat_arguments ''b'' ''a'' ''f'' \<noteq> show_arguments ''b'' ''f''" "numstat_arguments ''b'' ''a'' ''f'' \<noteq> show_arguments ''a'' ''f''"
  by code_simp+

lemma show_saves: "\<exists>d t. save_delivery show_env show_manifest show_receipt show_state = (Inr d, t)"
proof -
  let ?f = "[(artifact_text 0 ''before'', ''old''), (artifact_text 0 ''after'', ''new'')]"
    and ?row = "delivery_row 0 ''f'' (JNull, JNull) True"
  have one: "\<exists>t. save_files show_env ''b'' ''a'' 0 [''f''] s = (Inr ([?row], ?f), t) \<and> rs_deliveries t = rs_deliveries s" for s
    by (simp add: save_file_def call_at_def rv_tick_def bnd_def seq_then_def modify_def lift_def ret_def show_env_def git_show_def show_texts
        show_texts(1) [symmetric] Let_def)
  show ?thesis
    using one [of "show_state\<lparr>rs_clock := Suc 0\<rparr>"]
    by (auto simp: save_delivery_def write_delivery_def show_receipt_def show_manifest_def show_texts show_state_def rv_tick_def bnd_def
        seq_then_def lift_def gets_def modify_def ret_def try_catch_def dindex_def dget_or_def Let_def show_env_def delivery_summary_def
        load_delivery_def delivery_row_def row_summary_def artifact_rows_def)
qed

theorem delivery_roundtrip_witness:
  "\<exists>t. fst (read_delivery_file (dget show_receipt ''apply_id'') ''f'' t) = Inr (''old'', ''new'')
     \<and> t = snd (save_delivery show_env show_manifest show_receipt show_state)"
proof -
  obtain d t where run: "save_delivery show_env show_manifest show_receipt show_state = (Inr d, t)"
    using show_saves by blast
  have "fst (read_delivery_file (dget show_receipt ''apply_id'') ''f'' t) = Inr (''old'', ''new'')"
    using delivery_roundtrip [OF run, of "''b''" "''a''" "[''f'']" "''f''"] show_texts
    by (auto simp: show_manifest_def dget_or_def git_show_def show_env_def)
  with run show ?thesis by simp
qed

end
