(* ===== verification/Current_Changes.thy ===== *)
theory Current_Changes
  imports Applied_Changes
begin

text \<open>
  \<^verbatim>\<open>runtime/current_changes.py\<close>: accepting the changes of a session into the source, or discarding them.
\<close>

section \<open>Accepting\<close>

definition changes_error :: "string \<Rightarrow> exn" where
  "changes_error why = Exn CurrentChangesError why"

definition no_frozen :: frozen where
  "no_frozen = \<lparr>fz_manifest = None, fz_patch = None\<rparr>"

definition clear_frozen :: "review_env \<Rightarrow> unit review_prog" where
  "clear_frozen V = rv_write_file V (\<lambda>f. no_frozen)"

text \<open>\<^verbatim>\<open>restore_changes_active\<close> writes its reason as JSON, which takes no bytes.\<close>

definition restore_active :: "reason \<Rightarrow> unit review_prog" where
  "restore_active why = (case why of ReasonText s \<Rightarrow> in_store (restore_changes_active s)
     | ReasonBytes b \<Rightarrow> seq_then (in_store read_meta) (raise (Exn TypeError ''json'')))"

text \<open>A call with \<^verbatim>\<open>check=True\<close>.\<close>

definition checked_call :: "review_env \<Rightarrow> string list \<Rightarrow> char list \<Rightarrow> char list review_prog" where
  "checked_call V args input = bnd (rv_call V (rv_active V) args input) (\<lambda>(rc, out, err).
     if rc \<noteq> 0 then raise (Exn SubprocessError ''exit code'') else ret out)"

definition checkpoint :: "review_env \<Rightarrow> string \<Rightarrow> string \<Rightarrow> string review_prog" where
  "checkpoint V tree parent =
     bnd (checked_call V [''commit-tree'', tree, ''-p'', parent] (''CodeAgent accepted baseline'' @ [CHR 0x0A])) (\<lambda>out.
     bnd (lift (decoded_line out)) (\<lambda>commit.
     seq_then (checked_call V [''reset'', ''--hard'', commit] []) (ret commit)))"

definition accepted_context :: "review_env \<Rightarrow> string \<Rightarrow> workspace_context" where
  "accepted_context V commit = \<lparr>source_root = path_text (rv_source V), active_root = path_text (rv_active V),
     workspace_kind = ''git_worktree'', base_commit = Some commit, workspace_revision = rv_revision V\<rparr>"

definition files_of :: "json \<Rightarrow> string list" where
  "files_of v = (case v of JArr ps \<Rightarrow> map py_str ps | _ \<Rightarrow> [])"

text \<open>Freezing and applying; the manifest and the patch come back if the source was changed as frozen.\<close>

definition accept_source :: "review_env \<Rightarrow> (apply_receipt \<times> (dict \<times> char list) option) review_prog" where
  "accept_source V =
     bnd (freeze V) (\<lambda>manifest.
     bnd (load_frozen V (as_str (dget manifest ''candidate_id''))) (\<lambda>(loaded, patch).
     bnd (apply_candidate V (as_str (dget manifest ''candidate_id''))) (\<lambda>receipt.
     if rc_status receipt \<noteq> Applied
     then seq_then (clear_frozen V) (seq_then (restore_active (rc_reason receipt)) (ret (receipt, None)))
     else ret (receipt, Some (manifest, patch)))))"

definition accept_finish :: "review_env \<Rightarrow> dict \<Rightarrow> apply_receipt \<Rightarrow> apply_receipt review_prog" where
  "accept_finish V manifest receipt =
     bnd (lift (dindex manifest ''merged_tree'')) (\<lambda>tree. bnd (lift (dindex manifest ''base_commit'')) (\<lambda>base.
     bnd (checkpoint V (py_str tree) (py_str base)) (\<lambda>commit.
     bnd (save_delivery V manifest (rc_dict receipt)) (\<lambda>summary.
     seq_then (clear_frozen V)
     (bnd (lift (rbind (dindex manifest ''candidate_revision'') py_int)) (\<lambda>revision.
      bnd rv_tick (\<lambda>n.
      seq_then (in_store (finish_accept (rv_now V n) (accepted_context V commit) revision (py_str (dget (rc_dict receipt) ''patch_sha256''))
         (files_of (dget (rc_dict receipt) ''changed_files'')) (rc_apply_id receipt)))
      (ret receipt))))))))"

definition accept_errors :: "exn_class set" where
  "accept_errors = {AppliedChangesError, CandidateError, GitWorktreeError, OSError, SubprocessError}"

definition mark_recovery :: "review_env \<Rightarrow> string \<Rightarrow> unit review_prog" where
  "mark_recovery V why = bnd rv_tick (\<lambda>n. in_store (mark_recovery_required (rv_now V n) why))"

definition accept_failure :: "review_env \<Rightarrow> bool \<Rightarrow> exn \<Rightarrow> 'a review_prog" where
  "accept_failure V source_applied e =
     (if exn_class e \<notin> accept_errors then raise e
      else seq_then (clear_frozen V)
        (seq_then
          (if source_applied then mark_recovery V ''checkpoint failed''
           else bnd rv_tick (\<lambda>n. if node_at (rv_fs V n) (rv_active V) \<noteq> None then restore_active (ReasonText (exn_code e))
             else mark_recovery V ''no workspace''))
          (raise (changes_error (exn_code e)))))"

definition accept :: "review_env \<Rightarrow> apply_receipt review_prog" where
  "accept V = seq_then (in_store (begin_resolution Accepting))
     (bnd (try_catch (accept_source V) (accept_failure V False)) (\<lambda>(receipt, applied).
      case applied of None \<Rightarrow> ret receipt
      | Some (manifest, patch) \<Rightarrow> try_catch (accept_finish V manifest receipt) (accept_failure V True)))"

section \<open>Discarding\<close>

definition clear_current :: "unit review_prog" where
  "clear_current = modify (\<lambda>s. s\<lparr>rs_frozen := no_frozen\<rparr>)"

definition text_of :: "char list \<Rightarrow> string review_prog" where
  "text_of out = lift (utf8_decode out)"

text \<open>The worktree is reset and cleaned, and must then be the accepted baseline.\<close>

definition discard_steps :: "review_env \<Rightarrow> string \<Rightarrow> dict review_prog" where
  "discard_steps V base =
     seq_then (checked_call V [''reset'', ''--hard'', base] [])
     (seq_then (checked_call V [''clean'', ''-fdx''] [])
     (bnd (checked_call V [''rev-parse'', ''HEAD''] []) (\<lambda>out. bnd (text_of out) (\<lambda>head.
      bnd (checked_call V [''status'', ''--porcelain=v1'', ''--untracked-files=all''] []) (\<lambda>out. bnd (text_of out) (\<lambda>status.
      bnd rv_tick (\<lambda>n. bnd (lift (snapshot_at V n (rv_active V) base)) (\<lambda>restored.
      bnd rv_tick (\<lambda>m. bnd (lift (head_tree (world_of V m (rv_active V)) base)) (\<lambda>expected.
      if strip head \<noteq> base \<or> status \<noteq> [] \<or> restored \<noteq> expected then raise (Exn GitSnapshotError ''discard'')
      else seq_then clear_current
        (bnd (in_store read_meta) (\<lambda>meta.
         bnd (lift (py_int (dget_or meta ''candidate_revision'' (JInt 0)))) (\<lambda>latest.
         bnd rv_tick (\<lambda>k. seq_then (in_store (finish_discard (rv_now V k) latest))
         (ret [(''status'', JStr ''discarded''), (''workspace_revision'', JInt (rv_revision V)), (''source_changed'', JBool False)])))))))))))))))"

definition discard_errors :: "exn_class set" where
  "discard_errors = {GitWorktreeError, GitSnapshotError, OSError, SubprocessError}"

definition discard :: "review_env \<Rightarrow> dict review_prog" where
  "discard V = seq_then (in_store (begin_resolution Discarding))
     (case rv_base V of None \<Rightarrow> raise (Exn TypeError ''argv'')
      | Some base \<Rightarrow> try_catch (discard_steps V base)
          (\<lambda>e. if exn_class e \<in> discard_errors
               then seq_then (mark_recovery V ''discard'') (raise (changes_error (exn_code e))) else raise e))"

definition freeze_for_review :: "review_env \<Rightarrow> (dict \<times> char list) review_prog" where
  "freeze_for_review V = bnd (freeze V) (\<lambda>manifest. load_frozen V (as_str (dget manifest ''candidate_id'')))"

end
