(* ===== verification/Review_Frames.thy ===== *)
theory Review_Frames
  imports Current_Changes Command_Outcomes
begin

text \<open>
  What the steps of a review leave alone: the patches applied to the source, and the state and the log
  of the session.
\<close>

section \<open>Patches applied\<close>

definition applied_patches :: "review_state \<Rightarrow> git_call list" where
  "applied_patches s = filter (\<lambda>c. fst (snd c) = apply_arguments False) (rs_calls s)"

abbreviation same_applied :: "git_call list \<Rightarrow> review_state \<Rightarrow> bool" where
  "same_applied A s \<equiv> applied_patches s = A"

named_theorems applied_frame \<open>steps that apply no patch\<close>

lemma applied_tick [applied_frame]: "preserves (same_applied A) rv_tick"
  by (rule preservesI) (simp add: rv_tick_def applied_patches_def)

lemma applied_in_store [applied_frame]: "preserves (same_applied A) (in_store m)"
  by (rule preservesI) (simp add: in_store_def applied_patches_def split: prod.splits)

lemma applied_call: "args \<noteq> apply_arguments False \<Longrightarrow> preserves (same_applied A) (rv_call V cwd args input)"
  by (rule preservesI) (simp add: rv_call_def rv_tick_def applied_patches_def bnd_def seq_then_def)

lemma applied_write [applied_frame]: "preserves (same_applied A) (rv_write_file V f)"
  unfolding rv_write_file_def by (intro preserves_intros applied_frame) (simp add: applied_patches_def)

lemma applied_log [applied_frame]: "preserves (same_applied A) (rv_log V ty p)"
  unfolding rv_log_def by (intro preserves_intros applied_frame)

lemma applied_git_text: "args \<noteq> apply_arguments False \<Longrightarrow> preserves (same_applied A) (git_text V cwd args b)"
  unfolding git_text_def by (intro preserves_intros applied_call)

lemma applied_run_git: "args \<noteq> apply_arguments False \<Longrightarrow> preserves (same_applied A) (run_git V cwd args input)"
  unfolding run_git_def by (intro preserves_intros applied_call)

lemma applied_snapshot [applied_frame]: "preserves (same_applied A) (candidate_snapshot V root base)"
  unfolding candidate_snapshot_def by (intro preserves_intros applied_frame)

lemma applied_status_paths [applied_frame]: "preserves (same_applied A) (status_paths V root)"
  unfolding status_paths_def by (intro preserves_intros applied_call) (simp add: status_arguments_def apply_arguments_def)

lemma applied_validate_paths [applied_frame]: "preserves (same_applied A) (validate_paths V root)"
  unfolding validate_paths_def by (intro preserves_intros applied_frame)

lemma applied_freeze_inputs [applied_frame]: "preserves (same_applied A) (freeze_inputs V)"
  unfolding freeze_inputs_def validate_identity_def current_evidence_def
  by (intro preserves_intros applied_frame applied_git_text) (simp add: apply_arguments_def)

lemma applied_changed_tree [applied_frame]: "preserves (same_applied A) (changed_tree V)"
  unfolding changed_tree_def by (intro preserves_intros applied_frame applied_git_text) (simp add: apply_arguments_def)

lemma applied_merged_patch [applied_frame]: "preserves (same_applied A) (merged_patch V ours)"
  unfolding merged_patch_def temporary_commit_def merge_tree_def tree_patch_def
  by (intro preserves_intros applied_frame applied_run_git applied_call preserves_lift) (simp_all add: apply_arguments_def split: list.splits)

lemma applied_write_frozen [applied_frame]: "preserves (same_applied A) (write_frozen V ps ts cs st mt patch)"
  unfolding write_frozen_def Let_def by (intro preserves_intros applied_frame)

lemma applied_freeze [applied_frame]: "preserves (same_applied A) (freeze V)"
  unfolding freeze_def by (intro preserves_intros applied_frame)

lemma applied_load [applied_frame]: "preserves (same_applied A) (load_frozen V cid)"
  unfolding load_frozen_def Let_def by (intro preserves_intros applied_frame)

lemma applied_identity [applied_frame]: "preserves (same_applied A) (source_identity V)"
  unfolding source_identity_def
  by (intro preserves_intros applied_git_text) (simp_all add: apply_arguments_def dirty_arguments_def)

lemma applied_final_status [applied_frame]: "preserves (same_applied A) (final_status V)"
  unfolding final_status_def by (intro preserves_intros applied_git_text) (simp add: apply_arguments_def dirty_arguments_def)

lemma applied_record [applied_frame]: "preserves (same_applied A) (record_apply V m st why i)"
  unfolding record_apply_def Let_def by (intro preserves_intros applied_frame)

lemma applied_preflight [applied_frame]: "preserves (same_applied A) (preflight_source V m p b)"
  unfolding preflight_source_def git_apply_def
  by (intro preserves_intros applied_frame applied_call) (simp add: apply_arguments_def)

lemma applied_ask [applied_frame]: "preserves (same_applied A) (ask_approval V m p)"
  unfolding ask_approval_def by (intro preserves_intros applied_frame)

lemma applied_clear [applied_frame]: "preserves (same_applied A) (clear_frozen V)"
  unfolding clear_frozen_def by (rule applied_write)

lemma applied_restore [applied_frame]: "preserves (same_applied A) (restore_active why)"
  unfolding restore_active_def by (cases why) (simp_all, intro preserves_intros applied_frame, intro preserves_intros applied_frame)

lemma applied_mark [applied_frame]: "preserves (same_applied A) (mark_recovery V why)"
  unfolding mark_recovery_def by (intro preserves_intros applied_frame)

lemma applied_failure [applied_frame]: "preserves (same_applied A) (accept_failure V b e)"
  unfolding accept_failure_def by (intro preserves_intros applied_frame)

lemma applied_checked: "args \<noteq> apply_arguments False \<Longrightarrow> preserves (same_applied A) (checked_call V args input)"
  unfolding checked_call_def by (intro preserves_intros applied_call)

lemma applied_checkpoint [applied_frame]: "preserves (same_applied A) (checkpoint V tree parent)"
  unfolding checkpoint_def by (intro preserves_intros applied_checked) (simp_all add: apply_arguments_def)

lemma applied_call_at: "args \<noteq> apply_arguments False \<Longrightarrow> preserves (same_applied A) (call_at V args f)"
  by (rule preservesI) (simp add: call_at_def rv_tick_def applied_patches_def bnd_def seq_then_def)

lemma applied_save_file [applied_frame]: "preserves (same_applied A) (save_file V b a i p)"
  unfolding save_file_def Let_def
  by (intro preserves_intros applied_call_at) (simp_all add: apply_arguments_def show_arguments_def numstat_arguments_def)

lemma applied_save_files [applied_frame]: "preserves (same_applied A) (save_files V b a i ps)"
proof (induction ps arbitrary: i)
  case (Cons p ps)
  then show ?case unfolding save_files.simps by (intro preserves_intros applied_frame)
qed simp

lemma applied_summary [applied_frame]: "preserves (same_applied A) (delivery_summary v)"
  by (rule preservesI) (simp add: delivery_summary_state)

lemma applied_save [applied_frame]: "preserves (same_applied A) (save_delivery V m d)"
  unfolding save_delivery_def write_delivery_def Let_def
  by (intro preserves_intros applied_frame) (simp_all add: applied_patches_def)

lemma applied_finish [applied_frame]: "preserves (same_applied A) (accept_finish V m d)"
  unfolding accept_finish_def by (intro preserves_intros applied_frame)

section \<open>The state and the log of the session\<close>

text \<open>The session is well formed, in state \<open>w\<close>, and its log grew by no event of a type in \<open>T\<close>.\<close>

definition review_in :: "session_workspace_state \<Rightarrow> string set \<Rightarrow> session_event list \<Rightarrow> review_state \<Rightarrow> bool" where
  "review_in w T es s \<longleftrightarrow> quiet_log T es (rs_store s) \<and> ws_of (rs_store s) = Some w"

named_theorems state_frame \<open>steps that keep the state of the session\<close>

lemma review_tick [state_frame]: "preserves (review_in w T es) rv_tick"
  by (rule preservesI) (simp add: rv_tick_def review_in_def)

lemma review_call [state_frame]: "preserves (review_in w T es) (rv_call V cwd args input)"
  by (rule preservesI) (simp add: rv_call_def rv_tick_def review_in_def bnd_def seq_then_def)

lemma review_write [state_frame]: "preserves (review_in w T es) (rv_write_file V f)"
  unfolding rv_write_file_def by (intro preserves_intros state_frame) (simp add: review_in_def)

lemma review_read_meta [state_frame]: "preserves (review_in w T es) (in_store read_meta)"
  by (rule preservesI) (simp add: in_store_def review_in_def read_meta_def)

lemma review_read_events [state_frame]: "preserves (review_in w T es) (in_store read_events)"
  by (rule preservesI) (simp add: in_store_def review_in_def)

lemma review_log: "ty \<notin> T \<Longrightarrow> preserves (review_in w T es) (rv_log V ty p)"
  unfolding rv_log_def
  by (intro preserves_intros state_frame, rule preservesI)
    (auto simp: in_store_def review_in_def append_unit_run quiet_log_ok quiet_with_event)

lemma review_git_text [state_frame]: "preserves (review_in w T es) (git_text V cwd args b)"
  unfolding git_text_def by (intro preserves_intros state_frame)

lemma review_run_git [state_frame]: "preserves (review_in w T es) (run_git V cwd args input)"
  unfolding run_git_def by (intro preserves_intros state_frame)

lemma review_snapshot [state_frame]: "preserves (review_in w T es) (candidate_snapshot V root base)"
  unfolding candidate_snapshot_def by (intro preserves_intros state_frame)

lemma review_freeze_inputs [state_frame]: "preserves (review_in w T es) (freeze_inputs V)"
  unfolding freeze_inputs_def validate_identity_def current_evidence_def status_paths_def
  by (intro preserves_intros state_frame)

lemma review_patch [state_frame]: "preserves (review_in w T es) (validate_paths V root)" "preserves (review_in w T es) (changed_tree V)"
    "preserves (review_in w T es) (merged_patch V ours)"
  unfolding validate_paths_def status_paths_def changed_tree_def merged_patch_def temporary_commit_def merge_tree_def tree_patch_def
  by (intro preserves_intros state_frame | simp split: list.splits)+

lemma review_freeze: "''changes_frozen'' \<notin> T \<Longrightarrow> preserves (review_in w T es) (freeze V)"
  unfolding freeze_def write_frozen_def Let_def by (intro preserves_intros state_frame review_log)

lemma review_load [state_frame]: "preserves (review_in w T es) (load_frozen V cid)"
  unfolding load_frozen_def Let_def by (intro preserves_intros state_frame)

lemma review_identity [state_frame]: "preserves (review_in w T es) (source_identity V)" "preserves (review_in w T es) (final_status V)"
  unfolding source_identity_def final_status_def by (intro preserves_intros state_frame)+

lemma review_record: "''changes_apply_result'' \<notin> T \<Longrightarrow> preserves (review_in w T es) (record_apply V m st why i)"
  unfolding record_apply_def Let_def by (intro preserves_intros state_frame review_log)

lemma review_apply_steps [state_frame]: "preserves (review_in w T es) (preflight_source V m p b)"
    "preserves (review_in w T es) (ask_approval V m q)" "preserves (review_in w T es) (apply_patch V m p)"
  unfolding preflight_source_def ask_approval_def apply_patch_def git_apply_def by (intro preserves_intros state_frame)+

lemma preserves_case_preflight [preserves_intros]:
  "(\<And>i. preserves P (f i)) \<Longrightarrow> (\<And>a b c. preserves P (g a b c)) \<Longrightarrow> preserves P (case v of Proceed i \<Rightarrow> f i | Refuse a b c \<Rightarrow> g a b c)"
  by (cases v) simp_all

lemma review_apply: "''changes_apply_result'' \<notin> T \<Longrightarrow> preserves (review_in w T es) (apply_candidate V cid)"
  unfolding apply_candidate_def apply_approved_def by (intro preserves_intros state_frame review_record)

lemma review_clear [state_frame]: "preserves (review_in w T es) (clear_frozen V)"
  unfolding clear_frozen_def by (rule review_write)

lemma review_checked [state_frame]: "preserves (review_in w T es) (checked_call V args input)"
  unfolding checked_call_def by (intro preserves_intros state_frame)

lemma review_call_at [state_frame]: "preserves (review_in w T es) (call_at V args f)"
  by (rule preservesI) (simp add: call_at_def rv_tick_def review_in_def bnd_def seq_then_def)

lemma review_save_files [state_frame]: "preserves (review_in w T es) (save_files V b a i ps)"
proof (induction ps arbitrary: i)
  case (Cons p ps)
  then show ?case unfolding save_files.simps save_file_def Let_def by (intro preserves_intros state_frame)
qed simp

lemma review_save [state_frame]: "preserves (review_in w T es) (save_delivery V m d)"
proof -
  have "preserves (review_in w T es) (delivery_summary v)" for v
    by (rule preservesI) (simp add: delivery_summary_state)
  then show ?thesis unfolding save_delivery_def write_delivery_def Let_def
    by (intro preserves_intros state_frame) (simp_all add: review_in_def)
qed

lemma review_checkpoint [state_frame]: "preserves (review_in w T es) (checkpoint V tree parent)"
  unfolding checkpoint_def by (intro preserves_intros state_frame)

end
