(* ===== verification/Review_Outcomes.thy ===== *)
theory Review_Outcomes
  imports Review_Frames
begin

text \<open>
  How accepting and discarding the changes of a session end: triples over the steps of a review, and
  the state and the log after them.
\<close>

section \<open>Triples\<close>

text \<open>From a state in \<open>P\<close> the program returns into \<open>Q\<close> or raises into \<open>E\<close>.\<close>

definition yields :: "('s \<Rightarrow> bool) \<Rightarrow> ('s, 'a) prog \<Rightarrow> ('a \<Rightarrow> 's \<Rightarrow> bool) \<Rightarrow> (exn \<Rightarrow> 's \<Rightarrow> bool) \<Rightarrow> bool" where
  "yields P m Q E \<longleftrightarrow> (\<forall>s. P s \<longrightarrow> (case m s of (Inl e, t) \<Rightarrow> E e t | (Inr x, t) \<Rightarrow> Q x t))"

lemma yieldsI:
  "(\<And>s x t. P s \<Longrightarrow> m s = (Inr x, t) \<Longrightarrow> Q x t) \<Longrightarrow> (\<And>s e t. P s \<Longrightarrow> m s = (Inl e, t) \<Longrightarrow> E e t) \<Longrightarrow> yields P m Q E"
  unfolding yields_def by (simp split: prod.split sum.split)

lemma yields_Inr: "yields P m Q E \<Longrightarrow> P s \<Longrightarrow> m s = (Inr x, t) \<Longrightarrow> Q x t"
  unfolding yields_def by fastforce

lemma yields_Inl: "yields P m Q E \<Longrightarrow> P s \<Longrightarrow> m s = (Inl e, t) \<Longrightarrow> E e t"
  unfolding yields_def by fastforce

lemma yields_ret: "(\<And>s. P s \<Longrightarrow> Q x s) \<Longrightarrow> yields P (ret x) Q E"
  by (simp add: yields_def ret_def)

lemma yields_raise: "(\<And>s. P s \<Longrightarrow> E e s) \<Longrightarrow> yields P (raise e) Q E"
  by (simp add: yields_def raise_def)

lemma yields_lift: "(\<And>s x. r = Inr x \<Longrightarrow> P s \<Longrightarrow> Q x s) \<Longrightarrow> (\<And>s e. r = Inl e \<Longrightarrow> P s \<Longrightarrow> E e s) \<Longrightarrow> yields P (lift r) Q E"
  by (cases r) (simp_all add: yields_def lift_def)

lemma yields_frame:
  assumes "preserves P m" and "\<And>e s. P s \<Longrightarrow> E e s"
  shows "yields P m (\<lambda>x. P) E"
  using preservesD [OF assms(1)] assms(2) by (intro yieldsI) blast+

lemma yields_bnd:
  assumes "yields P m R E" and "\<And>x. yields (R x) (f x) Q E"
  shows "yields P (bnd m f) Q E"
proof (rule yieldsI)
  fix s y t assume P: "P s" and run: "bnd m f s = (Inr y, t)"
  then obtain x u where "m s = (Inr x, u)" "f x u = (Inr y, t)" by (auto simp: bnd_def split: prod.splits sum.splits)
  with yields_Inr [OF assms(1) P] yields_Inr [OF assms(2)] show "Q y t" by blast
next
  fix s e t assume P: "P s" and run: "bnd m f s = (Inl e, t)"
  then consider "m s = (Inl e, t)" | x u where "m s = (Inr x, u)" "f x u = (Inl e, t)"
    by (auto simp: bnd_def split: prod.splits sum.splits)
  then show "E e t" using yields_Inl [OF assms(1) P] yields_Inr [OF assms(1) P] yields_Inl [OF assms(2)] by cases blast+
qed

lemma yields_seq: "yields P m (\<lambda>x. R) E \<Longrightarrow> yields R n Q E \<Longrightarrow> yields P (seq_then m n) Q E"
  unfolding seq_then_def by (rule yields_bnd)

lemma yields_try:
  assumes "yields P m Q F" and "\<And>e. yields (F e) (h e) Q E"
  shows "yields P (try_catch m h) Q E"
proof (rule yieldsI)
  fix s y t assume P: "P s" and run: "try_catch m h s = (Inr y, t)"
  then consider "m s = (Inr y, t)" | e u where "m s = (Inl e, u)" "h e u = (Inr y, t)"
    by (auto simp: try_catch_def split: prod.splits sum.splits)
  then show "Q y t" using yields_Inl [OF assms(1) P] yields_Inr [OF assms(1) P] yields_Inr [OF assms(2)] by cases blast+
next
  fix s e t assume P: "P s" and run: "try_catch m h s = (Inl e, t)"
  then obtain d u where "m s = (Inl d, u)" "h d u = (Inl e, t)" by (auto simp: try_catch_def split: prod.splits sum.splits)
  with yields_Inl [OF assms(1) P] yields_Inl [OF assms(2)] show "E e t" by blast
qed

lemma yields_if: "(b \<Longrightarrow> yields P m Q E) \<Longrightarrow> (\<not> b \<Longrightarrow> yields P n Q E) \<Longrightarrow> yields P (if b then m else n) Q E"
  by simp

lemma yields_post:
  assumes "yields P m R F" and "\<And>x s. R x s \<Longrightarrow> Q x s" and "\<And>e s. F e s \<Longrightarrow> E e s"
  shows "yields P m Q E"
  using yields_Inr [OF assms(1)] yields_Inl [OF assms(1)] assms(2,3) by (intro yieldsI) blast+

lemma yields_some:
  assumes "\<And>p. b \<Longrightarrow> yields (P p) m Q E"
  shows "yields (\<lambda>s. b \<and> (\<exists>p. P p s)) m Q E"
proof (rule yieldsI)
  fix s x t assume "b \<and> (\<exists>p. P p s)" and m: "m s = (Inr x, t)"
  then obtain p where b: b and p: "P p s" by blast
  show "Q x t" by (rule yields_Inr [OF assms [OF b] p m])
next
  fix s e t assume "b \<and> (\<exists>p. P p s)" and m: "m s = (Inl e, t)"
  then obtain p where b: b and p: "P p s" by blast
  show "E e t" by (rule yields_Inl [OF assms [OF b] p m])
qed

text \<open>A frame step before the rest.\<close>

lemma yields_step: "preserves P m \<Longrightarrow> (\<And>e s. P s \<Longrightarrow> E e s) \<Longrightarrow> (\<And>x. yields P (f x) Q E) \<Longrightarrow> yields P (bnd m f) Q E"
  by (rule yields_bnd [OF yields_frame])

lemma yields_step_seq: "preserves P m \<Longrightarrow> (\<And>e s. P s \<Longrightarrow> E e s) \<Longrightarrow> yields P n Q E \<Longrightarrow> yields P (seq_then m n) Q E"
  unfolding seq_then_def by (rule yields_step)

section \<open>The state of the session\<close>

text \<open>The session is in state \<open>w\<close> and was not said to be resolved since its log was \<open>es\<close>.\<close>

abbreviation unresolved :: "session_event list \<Rightarrow> session_workspace_state \<Rightarrow> review_state \<Rightarrow> bool" where
  "unresolved es w \<equiv> review_in w {''changes_accepted'', ''changes_discarded''} es"

lemma review_state_mark:
  assumes "ty \<notin> T" and "review_in v T es s"
  shows "\<exists>t. in_store (bnd read_meta (\<lambda>meta. seq_then (write_state (set_state w reason meta)) (append_unit now ty (p meta)))) s = (Inr (), t)
    \<and> review_in w T es t"
proof -
  let ?m = "bnd read_meta (\<lambda>meta. seq_then (write_state (set_state w reason meta)) (append_unit now ty (p meta)))"
  have q: "quiet_log T es (rs_store s)" using assms(2) by (simp add: review_in_def)
  note ok = quiet_log_ok [OF q]
  have "log_ok ((rs_store s)\<lparr>st_meta := set_state w reason (st_meta (rs_store s))\<rparr>)" using ok by (auto simp: log_ok_def log_inv_set_state)
  then have "fst (?m (rs_store s)) = Inr ()" using ok by (simp add: bnd_def seq_then_def append_unit_run)
  moreover have "quiet_log T es (snd (?m (rs_store s)))"
    using quiet_state_mark [OF assms(1), of es w reason now p] q unfolding preserves_def by simp
  moreover have "ws_of (snd (?m (rs_store s))) = Some w" by (rule state_mark_state [OF ok])
  ultimately show ?thesis unfolding in_store_def review_in_def by (auto split: prod.splits)
qed

lemma yields_mark:
  assumes "''recovery_required'' \<notin> T"
  shows "yields (review_in v T es) (mark_recovery V why) (\<lambda>_. review_in RecoveryRequired T es) E"
  unfolding yields_def mark_recovery_def mark_recovery_required_def
proof (intro allI impI)
  fix s assume s: "review_in v T es s"
  let ?s = "s\<lparr>rs_clock := Suc (rs_clock s)\<rparr>"
  have "review_in v T es ?s" using s by (simp add: review_in_def)
  from review_state_mark [OF assms this, of RecoveryRequired why "rv_now V (rs_clock s)" "\<lambda>_. [(''reason'', JStr why)]"]
  show "case bnd rv_tick (\<lambda>n. in_store (bnd read_meta (\<lambda>meta. seq_then (write_state (set_state RecoveryRequired why meta))
      (append_unit (rv_now V n) ''recovery_required'' [(''reason'', JStr why)])))) s of
      (Inl e, t) \<Rightarrow> E e t | (Inr x, t) \<Rightarrow> review_in RecoveryRequired T es t"
    by (auto simp: bnd_def [of rv_tick] rv_tick_def)
qed

lemma yields_restore:
  "yields (review_in v T es) (in_store (restore_changes_active why)) (\<lambda>_. review_in ChangesActive T es) E"
  unfolding yields_def
proof (intro allI impI)
  fix s assume s: "review_in v T es s"
  then have q: "quiet_log T es (rs_store s)" by (simp add: review_in_def)
  note ok = quiet_log_ok [OF q]
  let ?st = "(rs_store s)\<lparr>st_meta := set_state ChangesActive why (st_meta (rs_store s))\<rparr>"
  have "quiet_log T es ?st" using q ok by (intro quiet_write) (auto simp: log_ok_def log_inv_set_state)
  moreover have "ws_of ?st = Some ChangesActive" by (simp add: set_state_def del: ws_value.simps)
  moreover have "restore_changes_active why (rs_store s) = (Inr (), ?st)" using ok by (simp add: restore_changes_active_def bnd_def)
  ultimately show "case in_store (restore_changes_active why) s of (Inl e, t) \<Rightarrow> E e t | (Inr x, t) \<Rightarrow> review_in ChangesActive T es t"
    by (simp add: in_store_def review_in_def)
qed

lemma begin_resolution_run:
  assumes "log_ok (rs_store s)" and "w = Accepting \<and> in_state ChangesActive (rs_store s) \<or>
    w = Discarding \<and> (in_state ChangesActive (rs_store s) \<or> in_state WorkspaceTainted (rs_store s))"
  shows "\<exists>t. in_store (begin_resolution w) s = (Inr (), t) \<and> review_in w T (st_events (rs_store s)) t"
proof -
  let ?st = "(rs_store s)\<lparr>st_meta := dset ''workspace_state'' (JStr (ws_value w)) (st_meta (rs_store s))\<rparr>"
  have "quiet_log T (st_events (rs_store s)) ?st"
    by (rule quiet_write [OF quiet_log_start [OF assms(1)]]) (use assms(1) in \<open>simp add: log_ok_def log_inv_dset log_keys_def\<close>)
  moreover have "begin_resolution w (rs_store s) = (Inr (), ?st)"
    using assms by (auto simp: begin_resolution_def in_state_def bnd_def)
  ultimately show ?thesis by (simp add: in_store_def review_in_def)
qed

lemma begin_resolution_refused:
  assumes "log_ok (rs_store s)" and "w \<in> {Accepting, Discarding}" and "\<not> in_state ChangesActive (rs_store s)" and "\<not> in_state WorkspaceTainted (rs_store s)"
  shows "in_store (begin_resolution w) s = (Inl (Exn SessionStoreError ''nothing to resolve''), s)"
  using assms by (auto simp: in_store_def begin_resolution_def in_state_def bnd_def raise_def)

section \<open>Accepting\<close>

text \<open>What an exception of a step of \<open>accept\<close> leaves behind.\<close>

definition stuck :: "review_env \<Rightarrow> session_event list \<Rightarrow> session_workspace_state \<Rightarrow> exn_class set \<Rightarrow> exn \<Rightarrow> review_state \<Rightarrow> bool" where
  "stuck V es w C e s \<longleftrightarrow> (unresolved es w s \<and> (exn_class e \<notin> C \<or> (\<exists>n. rv_write V n = Inl e)))
     \<or> exn_class e = CurrentChangesError \<and> (unresolved es RecoveryRequired s \<or> (w = Accepting \<and> unresolved es ChangesActive s))"

definition resolved :: "session_event list \<Rightarrow> string \<Rightarrow> (dict \<Rightarrow> bool) \<Rightarrow> review_state \<Rightarrow> bool" where
  "resolved es ty P s \<longleftrightarrow> log_ok (rs_store s) \<and> ws_of (rs_store s) = Some ChangesActive
     \<and> (\<exists>fs e. st_events (rs_store s) = es @ fs @ [e] \<and> (\<forall>f \<in> set fs. ev_type f \<notin> {''changes_accepted'', ''changes_discarded''})
          \<and> ev_type e = ty \<and> P (ev_payload e))"

lemma write_fails:
  "yields P (rv_write_file V f) (\<lambda>_ _. True) (\<lambda>e _. \<exists>n. rv_write V n = Inl e)"
  unfolding rv_write_file_def
  by (intro yieldsI) (auto simp: bnd_def seq_then_def rv_tick_def lift_def modify_def split: sum.splits)

lemma clear_yields: "yields (review_in w T es) (clear_frozen V) (\<lambda>_. review_in w T es) (\<lambda>e s. review_in w T es s \<and> (\<exists>n. rv_write V n = Inl e))"
proof (rule yieldsI)
  fix s x t assume "review_in w T es s" "clear_frozen V s = (Inr x, t)"
  then show "review_in w T es t" using preservesD [OF review_clear] by blast
next
  fix s e t assume "review_in w T es s" and c: "clear_frozen V s = (Inl e, t)"
  then have "review_in w T es t" using preservesD [OF review_clear] by blast
  then show "review_in w T es t \<and> (\<exists>n. rv_write V n = Inl e)"
    using yields_Inl [OF write_fails [of "\<lambda>_. True"] TrueI c [unfolded clear_frozen_def]] by blast
qed

lemma tick_yields: "yields (review_in w T es) rv_tick (\<lambda>_. review_in w T es) E"
  by (simp add: yields_def rv_tick_def review_in_def)

lemma accept_failure_stuck:
  "yields (unresolved es Accepting) (accept_failure V b e) (\<lambda>_ _. False) (stuck V es Accepting accept_errors)"
  unfolding accept_failure_def
proof (rule yields_if)
  assume "exn_class e \<notin> accept_errors"
  then show "yields (unresolved es Accepting) (raise e) (\<lambda>_ _. False) (stuck V es Accepting accept_errors)"
    by (intro yields_raise) (simp add: stuck_def)
next
  let ?fin = "\<lambda>s. unresolved es ChangesActive s \<or> unresolved es RecoveryRequired s"
  have mark: "yields (unresolved es Accepting) (mark_recovery V why) (\<lambda>_. ?fin) E" for why E
    by (rule yields_post [OF yields_mark]) simp_all
  have restore: "yields (unresolved es Accepting) (in_store (restore_changes_active why)) (\<lambda>_. ?fin) E" for why E
    by (rule yields_post [OF yields_restore]) simp_all
  have "yields (unresolved es Accepting) (if b then mark_recovery V ''checkpoint failed''
      else bnd rv_tick (\<lambda>n. if node_at (rv_fs V n) (rv_active V) \<noteq> None then restore_active (ReasonText (exn_code e))
             else mark_recovery V ''no workspace'')) (\<lambda>_. ?fin) (stuck V es Accepting accept_errors)"
    unfolding restore_active_def by (intro yields_if mark yields_bnd [OF tick_yields]) (simp add: restore)
  then show "yields (unresolved es Accepting) (seq_then (clear_frozen V) (seq_then
          (if b then mark_recovery V ''checkpoint failed''
           else bnd rv_tick (\<lambda>n. if node_at (rv_fs V n) (rv_active V) \<noteq> None then restore_active (ReasonText (exn_code e))
             else mark_recovery V ''no workspace''))
          (raise (changes_error (exn_code e))))) (\<lambda>_ _. False) (stuck V es Accepting accept_errors)"
    by (intro yields_seq [of _ "clear_frozen V" "unresolved es Accepting"] yields_post [OF clear_yields] yields_seq [where R = ?fin] yields_raise)
      (auto simp: stuck_def changes_error_def)
qed

definition source_end :: "session_event list \<Rightarrow> apply_receipt \<times> (dict \<times> char list) option \<Rightarrow> review_state \<Rightarrow> bool" where
  "source_end es y s \<longleftrightarrow> (case snd y of None \<Rightarrow> rc_status (fst y) \<noteq> Applied \<and> unresolved es ChangesActive s
     | Some x \<Rightarrow> rc_status (fst y) = Applied \<and> unresolved es Accepting s)"

lemma restore_active_yields:
  "yields (unresolved es Accepting) (restore_active why) (\<lambda>_. unresolved es ChangesActive) (\<lambda>_. unresolved es Accepting)"
proof (cases why)
  case (ReasonText w)
  then show ?thesis by (simp add: restore_active_def yields_restore)
next
  case (ReasonBytes b)
  then show ?thesis unfolding restore_active_def
    by (simp add: yields_seq [OF yields_frame [OF review_read_meta] yields_raise])
qed

lemma accept_source_yields:
  "yields (unresolved es Accepting) (accept_source V) (source_end es) (\<lambda>_. unresolved es Accepting)"
proof -
  have tail: "yields (unresolved es Accepting) (if rc_status receipt \<noteq> Applied
     then seq_then (clear_frozen V) (seq_then (restore_active (rc_reason receipt)) (ret (receipt, None)))
     else ret (receipt, Some (manifest, patch))) (source_end es) (\<lambda>_. unresolved es Accepting)"
    for receipt :: apply_receipt and manifest :: dict and patch :: "char list"
    by (intro yields_if yields_step_seq review_clear yields_seq [OF restore_active_yields] yields_ret) (simp_all add: source_end_def)
  have "yields (unresolved es Accepting) (case lp of (loaded, patch) \<Rightarrow> bnd (apply_candidate V cid) (\<lambda>receipt.
      if rc_status receipt \<noteq> Applied then seq_then (clear_frozen V) (seq_then (restore_active (rc_reason receipt)) (ret (receipt, None)))
      else ret (receipt, Some (manifest, patch)))) (source_end es) (\<lambda>_. unresolved es Accepting)"
    for lp :: "dict \<times> char list" and cid and manifest :: dict
    by (induct lp) (unfold prod.case, intro yields_step review_apply tail, simp_all)
  then show ?thesis unfolding accept_source_def by (intro yields_step review_freeze review_load) simp_all
qed

lemma finish_accept_yields:
  "yields (unresolved es v) (in_store (finish_accept now ctx n sha files d))
     (\<lambda>_. resolved es ''changes_accepted'' (\<lambda>p. dget p ''delivery_id'' = JStr d)) E"
  unfolding yields_def
proof (intro allI impI)
  fix s assume s: "unresolved es v s"
  define st where "st = (rs_store s)\<lparr>st_meta := set_state ChangesActive [] (dset ''accepted_candidate_revision'' (JInt n)
       (dmerge (st_meta (rs_store s)) (to_metadata ctx)))\<rparr>"
  define p where "p = [(''workspace_revision'', JInt (workspace_revision ctx)), (''candidate_revision'', JInt n),
        (''baseline_commit'', opt_str (base_commit ctx)), (''patch_sha256'', JStr sha),
        (''changed_files'', JArr (map JStr files)), (''delivery_id'', JStr d)]"
  have q: "quiet_log {''changes_accepted'', ''changes_discarded''} es (rs_store s)" using s by (simp add: review_in_def)
  then have ok: "log_ok (rs_store s)" by (rule quiet_log_ok)
  then have "log_inv (st_meta st) (st_events (rs_store s))"
    unfolding st_def by (auto simp: log_ok_def meta_frame)
  then have ok': "log_ok st" and ev: "st_events st = st_events (rs_store s)" by (simp_all add: st_def log_ok_def)
  then have "finish_accept now ctx n sha files d (rs_store s) = (Inr (), with_event now ''changes_accepted'' p st)"
    using ok by (simp add: finish_accept_def bnd_def seq_then_def append_unit_run st_def p_def)
  moreover have "log_ok (with_event now ''changes_accepted'' p st)" using ok' by (rule with_event_ok)
  moreover have "ws_of (with_event now ''changes_accepted'' p st) = Some ChangesActive"
    by (simp add: st_def set_state_def del: ws_value.simps)
  moreover have "ev_type (new_event now ''changes_accepted'' p st) = ''changes_accepted''"
    "dget (ev_payload (new_event now ''changes_accepted'' p st)) ''delivery_id'' = JStr d"
    by (simp_all add: new_event_def Let_def p_def)
  moreover obtain fs where "st_events (rs_store s) = es @ fs" "\<forall>f \<in> set fs. ev_type f \<notin> {''changes_accepted'', ''changes_discarded''}"
    using q unfolding quiet_log_def by blast
  ultimately have "resolved es ''changes_accepted'' (\<lambda>p. dget p ''delivery_id'' = JStr d) (s\<lparr>rs_store := with_event now ''changes_accepted'' p st\<rparr>)"
    and run: "finish_accept now ctx n sha files d (rs_store s) = (Inr (), with_event now ''changes_accepted'' p st)"
    unfolding resolved_def using ev by (auto simp: events_with_event)
  then show "case in_store (finish_accept now ctx n sha files d) s of (Inl e, t) \<Rightarrow> E e t
      | (Inr x, t) \<Rightarrow> resolved es ''changes_accepted'' (\<lambda>p. dget p ''delivery_id'' = JStr d) t"
    by (simp add: in_store_def)
qed

lemma accept_finish_yields:
  "yields (unresolved es Accepting) (accept_finish V m rc)
     (\<lambda>r t. r = rc \<and> resolved es ''changes_accepted'' (\<lambda>p. dget p ''delivery_id'' = JStr (rc_apply_id rc)) t) (\<lambda>_. unresolved es Accepting)"
  unfolding accept_finish_def
  by (intro yields_step yields_step_seq preserves_lift review_checkpoint review_save review_clear review_tick
      yields_seq [OF finish_accept_yields] yields_ret) simp_all

text \<open>How a call of accept ends.\<close>

definition settled :: "review_env \<Rightarrow> session_event list \<Rightarrow> apply_receipt res \<Rightarrow> review_state \<Rightarrow> bool" where
  "settled V es r t \<longleftrightarrow> (case r of
     Inr receipt \<Rightarrow> if rc_status receipt = Applied
        then resolved es ''changes_accepted'' (\<lambda>p. dget p ''delivery_id'' = JStr (rc_apply_id receipt)) t
        else unresolved es ChangesActive t
   | Inl e \<Rightarrow> stuck V es Accepting accept_errors e t)"

lemma accept_settled: "yields (unresolved es Accepting)
   (bnd (try_catch (accept_source V) (accept_failure V False)) (\<lambda>(receipt, applied).
      case applied of None \<Rightarrow> ret receipt
      | Some (manifest, patch) \<Rightarrow> try_catch (accept_finish V manifest receipt) (accept_failure V True)))
   (\<lambda>x. settled V es (Inr x)) (\<lambda>e. settled V es (Inl e))"
proof (rule yields_bnd)
  have failure: "yields (unresolved es Accepting) (accept_failure V b e) Q (\<lambda>e. settled V es (Inl e))" for b e and Q :: "'z \<Rightarrow> review_state \<Rightarrow> bool"
    by (rule yields_post [OF accept_failure_stuck]) (simp_all add: settled_def)
  show "yields (unresolved es Accepting) (try_catch (accept_source V) (accept_failure V False)) (source_end es) (\<lambda>e. settled V es (Inl e))"
    by (rule yields_try [OF accept_source_yields failure])
  fix y :: "apply_receipt \<times> (dict \<times> char list) option"
  obtain receipt a where y: "y = (receipt, a)" by fastforce
  show "yields (source_end es y) (case y of (receipt, applied) \<Rightarrow> case applied of None \<Rightarrow> ret receipt
      | Some (manifest, patch) \<Rightarrow> try_catch (accept_finish V manifest receipt) (accept_failure V True))
     (\<lambda>x. settled V es (Inr x)) (\<lambda>e. settled V es (Inl e))"
  proof (cases a)
    case None
    then show ?thesis by (simp add: y) (rule yields_ret, simp add: source_end_def settled_def)
  next
    case (Some z)
    then obtain manifest patch where a: "a = Some (manifest, patch)" by (cases z) simp
    have "yields (unresolved es Accepting) (try_catch (accept_finish V manifest receipt) (accept_failure V True))
       (\<lambda>r t. r = receipt \<and> resolved es ''changes_accepted'' (\<lambda>p. dget p ''delivery_id'' = JStr (rc_apply_id receipt)) t) (\<lambda>e. settled V es (Inl e))"
      by (rule yields_try [OF accept_finish_yields failure])
    then show ?thesis unfolding y a source_end_def yields_def settled_def by (simp split: prod.splits sum.splits) blast
  qed
qed

section \<open>Discarding\<close>

lemma lift_returns: "lift r s = (Inr x, t) \<longleftrightarrow> r = Inr x \<and> t = s"
  by (auto simp: lift_def)

lemma checked_returns: "checked_call V args input s = (Inr out, t) \<Longrightarrow>
    \<exists>err. rv_git V (rs_clock s) (rv_active V) args input = Inr (0, out, err)"
  by (auto simp: checked_call_def bnd_eq_Inr rv_call_def rv_tick_def seq_then_def lift_returns modify_def raise_def split: if_splits)

text \<open>Git answered that the worktree is at \<open>base\<close> and clean, and its snapshot is the tree of \<open>base\<close>.\<close>

definition baseline_seen :: "review_env \<Rightarrow> string \<Rightarrow> bool" where
  "baseline_seen V base \<longleftrightarrow> (\<exists>i j n m head err err' tree.
     rv_git V i (rv_active V) [''rev-parse'', ''HEAD''] [] = Inr (0, head, err) \<and> strip head = base
     \<and> rv_git V j (rv_active V) [''status'', ''--porcelain=v1'', ''--untracked-files=all''] [] = Inr (0, [], err')
     \<and> snapshot_at V n (rv_active V) base = Inr tree \<and> head_tree (world_of V m (rv_active V)) base = Inr tree)"

lemma discard_steps_seen: "discard_steps V base s = (Inr d, t) \<Longrightarrow> baseline_seen V base"
  unfolding discard_steps_def baseline_seen_def seq_then_def
  by (auto simp: bnd_eq_Inr lift_returns text_of_def utf8_decode_def raise_def split: if_splits
      dest!: checked_returns simp del: utf8_valid.simps) blast

lemma py_int_errors: "py_int v = Inl e \<Longrightarrow> exn_class e \<notin> discard_errors"
  by (cases v) (auto simp: discard_errors_def split: if_splits option.splits)

definition discard_end :: "session_event list \<Rightarrow> exn \<Rightarrow> review_state \<Rightarrow> bool" where
  "discard_end es e s \<longleftrightarrow> unresolved es Discarding s \<or> (unresolved es ChangesActive s \<and> exn_class e \<notin> discard_errors)"

lemma finish_discard_yields:
  "yields (unresolved es v) (in_store (finish_discard now n)) (\<lambda>_. resolved es ''changes_discarded'' (\<lambda>p. dget p ''candidate_revision'' = JInt n))
     (\<lambda>e s. unresolved es ChangesActive s \<and> exn_class e \<notin> discard_errors)"
  unfolding yields_def
proof (intro allI impI)
  fix s assume s: "unresolved es v s"
  define st where "st = (rs_store s)\<lparr>st_meta := set_state ChangesActive [] (dset ''accepted_candidate_revision'' (JInt n) (st_meta (rs_store s)))\<rparr>"
  have q: "quiet_log {''changes_accepted'', ''changes_discarded''} es (rs_store s)" using s by (simp add: review_in_def)
  then have ok: "log_ok (rs_store s)" by (rule quiet_log_ok)
  then have "log_inv (st_meta st) (st_events (rs_store s))"
    unfolding st_def by (auto simp: log_ok_def meta_frame)
  then have ok': "log_ok st" and ev: "st_events st = st_events (rs_store s)" by (simp_all add: st_def log_ok_def)
  have ws: "ws_of st = Some ChangesActive" by (simp add: st_def set_state_def del: ws_value.simps)
  show "case in_store (finish_discard now n) s of (Inl e, t) \<Rightarrow> unresolved es ChangesActive t \<and> exn_class e \<notin> discard_errors
      | (Inr x, t) \<Rightarrow> resolved es ''changes_discarded'' (\<lambda>p. dget p ''candidate_revision'' = JInt n) t"
  proof (cases "py_int (dget_or (st_meta st) ''workspace_revision'' (JInt 0))")
    case (Inl e)
    then have "finish_discard now n (rs_store s) = (Inl e, st)"
      using ok by (simp add: finish_discard_def bnd_def seq_then_def Let_def st_def)
    moreover have "quiet_log {''changes_accepted'', ''changes_discarded''} es st"
      using q ok' ev unfolding quiet_log_def by simp
    ultimately show ?thesis using ws py_int_errors [OF Inl] by (simp add: in_store_def review_in_def)
  next
    case (Inr k)
    define p where "p = [(''workspace_revision'', JInt k), (''candidate_revision'', JInt n)]"
    have run: "finish_discard now n (rs_store s) = (Inr (), with_event now ''changes_discarded'' p st)"
      using ok ok' Inr by (simp add: finish_discard_def bnd_def seq_then_def Let_def st_def append_unit_run p_def)
    have "log_ok (with_event now ''changes_discarded'' p st)" using ok' by (rule with_event_ok)
    moreover have "ws_of (with_event now ''changes_discarded'' p st) = Some ChangesActive" using ws by simp
    moreover have "ev_type (new_event now ''changes_discarded'' p st) = ''changes_discarded''"
      "dget (ev_payload (new_event now ''changes_discarded'' p st)) ''candidate_revision'' = JInt n"
      by (simp_all add: new_event_def Let_def p_def)
    moreover obtain fs where "st_events (rs_store s) = es @ fs" "\<forall>f \<in> set fs. ev_type f \<notin> {''changes_accepted'', ''changes_discarded''}"
      using q unfolding quiet_log_def by blast
    ultimately show ?thesis unfolding in_store_def run resolved_def using ev by (auto simp: events_with_event)
  qed
qed

lemma clear_current_review: "preserves (review_in w T es) clear_current"
  unfolding clear_current_def by (rule preserves_modify) (simp add: review_in_def)

lemma discard_steps_yields:
  "yields (unresolved es Discarding) (discard_steps V base) (\<lambda>_. resolved es ''changes_discarded'' (\<lambda>_. True)) (discard_end es)"
proof -
  have finish: "yields (unresolved es Discarding) (in_store (finish_discard now n)) (\<lambda>_. resolved es ''changes_discarded'' (\<lambda>_. True)) (discard_end es)" for now n
    by (rule yields_post [OF finish_discard_yields]) (auto simp: resolved_def discard_end_def)
  show ?thesis unfolding discard_steps_def text_of_def
    by (intro yields_step yields_step_seq review_checked preserves_lift review_tick yields_if yields_raise
        clear_current_review review_read_meta yields_seq [OF finish] yields_ret) (simp_all add: discard_end_def)
qed

text \<open>How a call of discard ends.\<close>

definition discarded :: "session_event list \<Rightarrow> dict res \<Rightarrow> review_state \<Rightarrow> bool" where
  "discarded es r t \<longleftrightarrow> (case r of
     Inr d \<Rightarrow> resolved es ''changes_discarded'' (\<lambda>_. True) t
   | Inl e \<Rightarrow> exn_class e = CurrentChangesError \<and> unresolved es RecoveryRequired t
       \<or> exn_class e \<notin> discard_errors \<and> (unresolved es Discarding t \<or> unresolved es ChangesActive t))"

lemma discard_settled: "yields (unresolved es Discarding)
   (case rv_base V of None \<Rightarrow> raise (Exn TypeError ''argv'')
      | Some base \<Rightarrow> try_catch (discard_steps V base)
          (\<lambda>e. if exn_class e \<in> discard_errors
               then seq_then (mark_recovery V ''discard'') (raise (changes_error (exn_code e))) else raise e))
   (\<lambda>x. discarded es (Inr x)) (\<lambda>e. discarded es (Inl e))"
proof (cases "rv_base V")
  case None
  then show ?thesis by (simp add: yields_raise discarded_def discard_errors_def)
next
  case (Some base)
  have "yields (discard_end es e) (if exn_class e \<in> discard_errors
      then seq_then (mark_recovery V ''discard'') (raise (changes_error (exn_code e))) else raise e)
      (\<lambda>x. discarded es (Inr x)) (\<lambda>e. discarded es (Inl e))" for e
  proof (rule yields_if)
    assume "exn_class e \<in> discard_errors"
    then have "discard_end es e = unresolved es Discarding" by (simp add: discard_end_def fun_eq_iff)
    then show "yields (discard_end es e) (seq_then (mark_recovery V ''discard'') (raise (changes_error (exn_code e))))
        (\<lambda>x. discarded es (Inr x)) (\<lambda>e. discarded es (Inl e))"
      by (simp, intro yields_seq [OF yields_mark] yields_raise) (simp_all add: discarded_def changes_error_def)
  qed (rule yields_raise, auto simp: discard_end_def discarded_def)
  moreover have "yields (unresolved es Discarding) (discard_steps V base) (\<lambda>x. discarded es (Inr x)) (discard_end es)"
    by (rule yields_post [OF discard_steps_yields]) (simp_all add: discarded_def)
  ultimately show ?thesis unfolding Some option.case by (blast intro: yields_try)
qed

end
