(* ===== verification/Review_Runs.thy ===== *)
theory Review_Runs
  imports Review_Outcomes Command_Properties
begin

text \<open>
  Runs of a review in an environment whose calls answer the same at every tick: rules that compose
  the steps, with which a whole run is followed without being unfolded.
\<close>

section \<open>Runs whose calls answer the same at every tick\<close>

text \<open>A program that returns \<open>v\<close> and leaves the session and the frozen changes as they are.\<close>

abbreviation rests :: "store \<Rightarrow> frozen \<Rightarrow> review_state \<Rightarrow> bool" where
  "rests st f s \<equiv> rs_store s = st \<and> rs_frozen s = f"

definition gives :: "'a review_prog \<Rightarrow> store \<Rightarrow> frozen \<Rightarrow> 'a \<Rightarrow> bool" where
  "gives m st f v \<longleftrightarrow> (\<forall>s. rests st f s \<longrightarrow> (\<exists>t. m s = (Inr v, t) \<and> rests st f t))"

lemma givesE: "gives m st f v \<Longrightarrow> rests st f s \<Longrightarrow> (\<And>t. m s = (Inr v, t) \<Longrightarrow> rests st f t \<Longrightarrow> thesis) \<Longrightarrow> thesis"
  unfolding gives_def by blast

lemma gives_bnd:
  assumes "gives m st f v" and "yields (rests st f) (k v) Q E"
  shows "yields (rests st f) (bnd m k) Q E"
  unfolding yields_def
proof (intro allI impI)
  fix s assume "rests st f s"
  with assms(1) obtain t where t: "m s = (Inr v, t)" "rests st f t" by (rule givesE)
  then have "bnd m k s = k v t" by simp
  then show "case bnd m k s of (Inl e, t) \<Rightarrow> E e t | (Inr x, t) \<Rightarrow> Q x t"
    using assms(2) t(2) unfolding yields_def by simp
qed

lemma gives_seq: "gives m st f v \<Longrightarrow> yields (rests st f) n Q E \<Longrightarrow> yields (rests st f) (seq_then m n) Q E"
  unfolding seq_then_def by (rule gives_bnd)

lemma gives_bind:
  assumes "gives m st f v" and "gives (k v) st f w"
  shows "gives (bnd m k) st f w"
  unfolding gives_def
proof (intro allI impI)
  fix s assume "rests st f s"
  with assms(1) obtain t where t: "m s = (Inr v, t)" "rests st f t" by (rule givesE)
  with assms(2) obtain u where "k v t = (Inr w, u)" "rests st f u" by (blast elim: givesE)
  with t show "\<exists>u. bnd m k s = (Inr w, u) \<and> rests st f u" by simp
qed

lemma gives_then: "gives m st f v \<Longrightarrow> gives n st f w \<Longrightarrow> gives (seq_then m n) st f w"
  unfolding seq_then_def by (rule gives_bind)

lemma gives_ret: "gives (ret v) st f v"
  by (simp add: gives_def)

lemma gives_lift: "r = Inr v \<Longrightarrow> gives (lift r) st f v"
  by (simp add: gives_def lift_def)

lemma gives_tick: "(\<And>n. gives (k n) st f v) \<Longrightarrow> gives (bnd rv_tick k) st f v"
  unfolding gives_def bnd_def rv_tick_def by simp

lemma gives_try: "gives m st f v \<Longrightarrow> gives (try_catch m h) st f v"
  unfolding gives_def try_catch_def by fastforce

lemma gives_in_store: "m st = (Inr v, st) \<Longrightarrow> gives (in_store m) st f v"
  by (simp add: gives_def in_store_def)

lemma gives_call:
  assumes "\<And>n. rv_git V n cwd args input = Inr v"
  shows "gives (rv_call V cwd args input) st f v"
  using assms by (simp add: gives_def rv_call_def rv_tick_def bnd_def seq_then_def modify_def lift_def)

lemma gives_run_git: "(\<And>n. rv_git V n cwd args input = Inr (0, out, err)) \<Longrightarrow> gives (run_git V cwd args input) st f out"
  unfolding run_git_def by (rule gives_bind [OF gives_call [of V cwd args input "(0, out, err)"]]) (simp_all add: gives_ret)

lemma gives_git_text:
  assumes "\<And>n. rv_git V n cwd args [] = Inr (0, out, err)" and "utf8_valid out" and "utf8_valid err"
  shows "gives (git_text V cwd args b) st f (if b then strip out else rstrip_line out)"
proof -
  have "gives (bnd (lift (utf8_decode out)) (\<lambda>text_out. seq_then (lift (utf8_decode err))
      (if (0 :: int) \<noteq> 0 then raise (cand_error ''git'') else ret (if b then strip text_out else rstrip_line text_out)))) st f
      (if b then strip out else rstrip_line out)"
    by (rule gives_bind [OF gives_lift [of _ out]], use assms(2) in \<open>simp add: utf8_decode_def del: utf8_valid.simps\<close>,
        rule gives_then [OF gives_lift [of _ err]], use assms(3) in \<open>simp add: utf8_decode_def del: utf8_valid.simps\<close>,
        simp add: gives_ret)
  then show ?thesis unfolding git_text_def by (intro gives_try gives_bind [OF gives_call [OF assms(1)]]) simp
qed

lemma gives_status:
  assumes "\<And>n. rv_git V n root status_arguments [] = Inr (0, out, err)" and "parse_porcelain out = Inr es"
  shows "gives (status_paths V root) st f (sort (remdups (concat (map entry_paths es))))"
  unfolding status_paths_def
  by (rule gives_bind [OF gives_call [OF assms(1)]], simp, rule gives_bind [OF gives_lift [OF assms(2)] gives_ret])

lemma gives_snapshot: "(\<And>n. snapshot_at V n root base = Inr tree) \<Longrightarrow> gives (candidate_snapshot V root base) st f tree"
  unfolding candidate_snapshot_def by (intro gives_tick gives_lift) simp

section \<open>Freezing, loading and recording in such an environment\<close>

text \<open>Files can be written, and the clock and the identifiers are fixed.\<close>

definition still :: "review_env \<Rightarrow> string \<Rightarrow> string \<Rightarrow> bool" where
  "still V u now \<longleftrightarrow> (\<forall>n. rv_write V n = Inr () \<and> rv_uuid V n = u \<and> rv_now V n = now \<and> rv_disk V n = (\<lambda>f. f))"

lemma write_frozen_run:
  assumes "still V u now" and "log_ok st" and "py_int (dget_or (st_meta st) ''candidate_revision'' (JInt 0)) = Inr k"
  shows "yields (rests st f) (write_frozen V paths tests changes source_tree merged patch)
     (\<lambda>m s. m = frozen_manifest V (py_take 16 u) source_tree merged (rv_sha V patch) paths changes k tests now
        \<and> (\<exists>p. rests (with_event now ''changes_frozen'' p st) \<lparr>fz_manifest = Some m, fz_patch = Some patch\<rparr> s)) (\<lambda>_ _. False)"
  unfolding yields_def
proof (intro allI impI)
  fix s assume s: "rests st f s"
  have V: "rv_write V n = Inr ()" "rv_uuid V n = u" "rv_now V n = now" for n using assms(1) by (simp_all add: still_def)
  have meta: "in_store read_meta t = (Inr (st_meta st), t)" if "rs_store t = st" for t
    using assms(2) that by (simp add: in_store_def)
  show "case write_frozen V paths tests changes source_tree merged patch s of (Inl e, t) \<Rightarrow> False
    | (Inr m, t) \<Rightarrow> m = frozen_manifest V (py_take 16 u) source_tree merged (rv_sha V patch) paths changes k tests now
        \<and> (\<exists>p. rests (with_event now ''changes_frozen'' p st) \<lparr>fz_manifest = Some m, fz_patch = Some patch\<rparr> t)"
    using s assms(2,3) by (simp add: write_frozen_def rv_write_file_def rv_tick_def rv_log_def in_store_def bnd_def
        seq_then_def lift_def modify_def ret_def V Let_def append_unit_run) blast
qed

lemma gives_load:
  assumes "still V u now" and "f = \<lparr>fz_manifest = Some m, fz_patch = Some patch\<rparr>"
    and "dget m ''candidate_id'' = JStr (c # cs)" and "dget m ''session_id'' = JStr (rv_session V)" and "dget m ''patch_sha256'' = JStr (rv_sha V patch)"
  shows "gives (load_frozen V (Some (c # cs))) st f (m, patch)"
  using assms by (simp add: gives_def load_frozen_def bnd_def rv_tick_def still_def Let_def gets_def ret_def)

lemma gives_identity:
  assumes "\<And>n. rv_git V n (rv_source V) [''rev-parse'', ''HEAD''] [] = Inr (0, h, [])" and "utf8_valid h"
    and "\<And>n. rv_git V n (rv_source V) dirty_arguments [] = Inr (0, d, [])" and "utf8_valid d"
  shows "gives (source_identity V) st f (Some (strip h, strip d \<noteq> []))"
proof -
  have e: "utf8_valid []" by simp
  show ?thesis unfolding source_identity_def
    using gives_git_text [OF assms(1,2) e, of True st f] gives_git_text [OF assms(3,4) e, of True st f]
    by (intro gives_try) (auto intro!: gives_bind gives_ret simp del: utf8_valid.simps)
qed

lemma gives_final_status:
  assumes "\<And>n. rv_git V n (rv_source V) dirty_arguments [] = Inr (0, d, [])" and "utf8_valid d"
  shows "gives (final_status V) st f (JStr (rstrip_line d))"
proof -
  have e: "utf8_valid []" by simp
  show ?thesis unfolding final_status_def
    using gives_git_text [OF assms e, of False st f]
    by (intro gives_try) (auto intro!: gives_bind gives_ret simp del: utf8_valid.simps)
qed

text \<open>A patch that does not apply is refused with what Git wrote, as bytes.\<close>

lemma gives_refused:
  assumes "gives (source_identity V) st f i" and "\<And>n. snapshot_at V n (rv_source V) ''HEAD'' = Inr tree"
    and "dget m ''source_snapshot_tree'' = JStr tree" and "\<And>n. rv_git V n (rv_source V) (apply_arguments True) patch = Inr (rc, out, err)"
    and "rc \<noteq> 0" and "strip err \<noteq> []"
  shows "gives (preflight_source V m patch False) st f (Refuse ApplyCheckFailed (ReasonBytes (strip err)) i)"
proof -
  have "gives (git_apply V patch True) st f (rc, out, err)" unfolding git_apply_def by (rule gives_call [OF assms(4)])
  then have "gives (bnd (git_apply V patch True) (\<lambda>(rc, out, err). if rc \<noteq> 0
      then bnd (lift (check_reason False err)) (\<lambda>why. ret (Refuse ApplyCheckFailed why i)) else ret (Proceed i)))
    st f (Refuse ApplyCheckFailed (ReasonBytes (strip err)) i)"
    by (rule gives_bind) (use assms(5,6) in \<open>auto intro!: gives_bind [OF gives_lift] gives_ret simp: check_reason_def error_reason_def\<close>)
  then show ?thesis unfolding preflight_source_def using assms(3)
    by (intro gives_bind [OF assms(1)] gives_bind [OF gives_snapshot [OF assms(2)]]) simp
qed

lemma record_apply_run:
  assumes "still V u now" and "log_ok st" and "gives (source_identity V) st f i" and "gives (final_status V) st f j"
    and "event_text why = Inr w" and "m = frozen_manifest V cid src merged digest paths changes k tests now'"
  shows "yields (rests st f) (record_apply V m status why observed) (\<lambda>r s. rc_status r = status \<and> rc_reason r = why \<and> log_ok (rs_store s)) (\<lambda>_ _. False)"
proof -
  have V: "rv_uuid V n = u" "rv_now V n = now" for n using assms(1) by (simp_all add: still_def)
  have log: "yields (rests st f) (seq_then (rv_log V ''changes_apply_result'' d)
      (ret \<lparr>rc_status = status, rc_reason = why, rc_apply_id = v, rc_dict = d\<rparr>))
      (\<lambda>r s. rc_status r = status \<and> rc_reason r = why \<and> log_ok (rs_store s)) (\<lambda>_ _. False)" for d v
    using assms(2) unfolding yields_def
    by (auto simp: rv_log_def rv_tick_def in_store_def bnd_def seq_then_def ret_def V append_unit_run with_event_ok)
  show ?thesis unfolding record_apply_def assms(6) Let_def frozen_manifest_def
    by (rule gives_bnd [OF assms(3)], rule gives_bnd [OF assms(4)])
      (use log in \<open>simp add: yields_def rv_tick_def bnd_def [of rv_tick] dindex_def assms(5) bnd_def [of "lift _"]\<close>)
qed

section \<open>A source that has moved on\<close>

text \<open>
  One file is changed and validated, the changes merge with the source, but the patch does not apply
  to the files that are there.
\<close>

definition merged_name :: string where
  "merged_name = replicate 40 CHR ''a''"

definition demo_files :: fs where
  "demo_files p = (if p \<in> {[''wt''], [''src'']} then Some Dir else if p = [''wt'', ''a.py''] then Some (File 420 ''x'') else None)"

definition head_line :: "char list" where
  "head_line = ''b0'' @ [CHR 0x0A]"

definition changed_line :: "char list" where
  "changed_line = '' M a.py'' @ [CHR 0x00]"

definition demo_reply :: "path \<Rightarrow> string list \<Rightarrow> process_result" where
  "demo_reply cwd args =
     (if args = [''rev-parse'', ''HEAD''] then (0, head_line, [])
      else if args = status_arguments then (0, if cwd = [''wt''] then changed_line else [], [])
      else if args = [''write-tree''] then (0, if cwd = [''wt''] then ''t1'' else ''t0'', [])
      else if args = [''rev-parse'', ''b0^{tree}''] then (0, ''t0'', [])
      else if take 1 args = [''commit-tree''] then (0, ''c1'', [])
      else if take 1 args = [''merge-tree''] then (0, merged_name, [])
      else if take 1 args = [''-c''] then (0, ''patch'', [])
      else if args = apply_arguments True then (1, [], ''error: patch failed'')
      else (0, [], []))"

definition demo_review :: review_env where
  "demo_review = \<lparr>rv_session = ''s1'', rv_source = [''src''], rv_active = [''wt''], rv_kind = ''git_worktree'',
     rv_base = Some ''b0'', rv_revision = 1, rv_links = 5, rv_sha = id, rv_uuid = (\<lambda>n. replicate 32 CHR ''d''), rv_now = (\<lambda>n. ''t''),
     rv_fs = (\<lambda>n. demo_files), rv_git = (\<lambda>n cwd args input. Inr (demo_reply cwd args)), rv_write = (\<lambda>n. Inr ()), rv_disk = (\<lambda>n f. f),
     rv_approve = (\<lambda>n m p. Inr True)\<rparr>"

definition validated :: dict where
  "validated = [(''status'', JStr ''passed''), (''workspace_revision'', JInt 1), (''base_commit'', JStr ''b0''), (''subject_tree'', JStr ''t1'')]"

definition evidence_store :: store where
  "evidence_store = with_event ''t'' ''validation_completed'' validated active_store"

lemma demo_env [simp]:
  "rv_session demo_review = ''s1''" "rv_source demo_review = [''src'']" "rv_active demo_review = [''wt'']"
  "rv_kind demo_review = ''git_worktree''" "rv_base demo_review = Some ''b0''" "rv_revision demo_review = 1"
  "rv_git demo_review n cwd args input = Inr (demo_reply cwd args)" "rv_sha demo_review = id"
  by (simp_all add: demo_review_def)

lemma demo_still: "still demo_review (replicate 32 CHR ''d'') ''t''"
  by (simp add: still_def demo_review_def)

lemma demo_replies:
  "demo_reply [''wt''] [''rev-parse'', ''HEAD''] = (0, head_line, [])"
  "demo_reply [''src''] [''rev-parse'', ''HEAD''] = (0, head_line, [])"
  "demo_reply [''wt''] status_arguments = (0, changed_line, [])"
  "demo_reply [''src''] status_arguments = (0, [], [])"
  "demo_reply [''src''] dirty_arguments = (0, [], [])"
  "demo_reply [''wt''] [''rev-parse'', ''b0^{tree}''] = (0, ''t0'', [])"
  "demo_reply [''wt''] [''commit-tree'', t, ''-p'', ''b0''] = (0, ''c1'', [])"
  "demo_reply [''wt''] [''merge-tree'', ''--write-tree'', b, ''c1'', ''c1''] = (0, merged_name, [])"
  "demo_reply [''wt''] [''-c'', ''core.safecrlf=false'', ''diff'', ''--binary'', ''--full-index'', ''--no-ext-diff'', x, y, ''--''] = (0, ''patch'', [])"
  "demo_reply [''src''] (apply_arguments True) = (1, [], ''error: patch failed'')"
  by (simp_all add: demo_reply_def status_arguments_def dirty_arguments_def apply_arguments_def)

lemma demo_snapshots:
  "snapshot_at demo_review n [''wt''] ''b0'' = Inr ''t1''" "snapshot_at demo_review n [''src''] ''HEAD'' = Inr ''t0''"
  by code_simp+

lemma demo_texts:
  "parse_porcelain changed_line = Inr [\<lparr>ge_index = CHR '' '', ge_worktree = CHR ''M'', ge_path = ''a.py'', ge_original = None\<rparr>]"
  "parse_porcelain [] = Inr []" "utf8_valid head_line" "utf8_valid ''t0''" "utf8_valid ''patch''" "decoded_line ''c1'' = Inr ''c1''"
  "utf8_decode merged_name = Inr merged_name" "splitlines merged_name = [merged_name]" "strip merged_name = merged_name" "is_tree_name merged_name"
  "strip head_line = ''b0''" "strip ''t0'' = ''t0''" "strip ''error: patch failed'' = ''error: patch failed''" "utf8_valid ''error: patch failed''"
  by code_simp+

lemma demo_change: "file_change demo_review n ''a.py'' = Inr (change_of ''a.py'' (Some ''x''))"
  by code_simp

lemma demo_evidence:
  "current_validation_evidence (rv_fs demo_review n) (rv_links demo_review) [''wt''] (world_of demo_review n [''wt''])
     (Some ''b0'') 1 (st_events evidence_store) = Inr [validated]"
  unfolding evidence_store_def active_store_def demo_session_def demo_created_def by code_simp

lemma evidence_store_ok: "log_ok evidence_store" "in_state ChangesActive evidence_store"
    "py_int (dget_or (st_meta evidence_store) ''candidate_revision'' (JInt 0)) = Inr 0"
proof -
  show "log_ok evidence_store" by (simp add: evidence_store_def active_store_ok with_event_ok)
  show "in_state ChangesActive evidence_store"
    by (simp add: evidence_store_def active_store_def set_state_def)
  show "py_int (dget_or (st_meta evidence_store) ''candidate_revision'' (JInt 0)) = Inr 0"
    unfolding evidence_store_def active_store_def demo_session_def demo_created_def by code_simp
qed

lemma demo_inputs:
  assumes "st_events st = st_events evidence_store"
  shows "gives (freeze_inputs demo_review) st f ([''a.py''], [validated], [change_of ''a.py'' (Some ''x'')])"
proof -
  have head: "gives (git_text demo_review [''wt''] [''rev-parse'', ''HEAD''] True) st f (if True then strip head_line else rstrip_line head_line)"
    by (rule gives_git_text [OF _ demo_texts(3), of _ _ _ "[]"]) (simp_all add: demo_replies)
  then have "gives (validate_identity demo_review) st f ()"
    unfolding validate_identity_def by (auto simp: base_text_def demo_texts intro!: gives_bind [OF head] gives_ret)
  moreover have "gives (status_paths demo_review [''wt'']) st f [''a.py'']"
    using gives_status [of demo_review "[''wt'']" _ "[]" _ st f, OF _ demo_texts(1)] by (simp add: demo_replies entry_paths_def)
  moreover have "gives (current_evidence demo_review) st f [validated]"
    unfolding current_evidence_def
    by (intro gives_tick gives_bind [OF gives_in_store gives_lift]) (simp_all add: assms, rule demo_evidence)
  moreover have "rmap (file_change demo_review n) [''a.py''] = Inr [change_of ''a.py'' (Some ''x'')]" for n
    by (simp add: demo_change)
  ultimately show ?thesis unfolding freeze_inputs_def
    by (auto intro!: gives_then gives_bind gives_tick gives_lift gives_ret)
qed

lemma gives_status_demo: "gives (status_paths demo_review [''src'']) st f []"
  using gives_status [of demo_review "[''src'']" _ "[]" _ st f, OF _ demo_texts(2)] by (simp add: demo_replies)

lemma gives_validate_demo: "gives (validate_paths demo_review [''src'']) st f ()"
  unfolding validate_paths_def by (intro gives_bind [OF gives_status_demo] gives_tick gives_lift) simp

lemma gives_changed_demo: "gives (changed_tree demo_review) st f ''t1''"
proof -
  have "gives (git_text demo_review [''wt''] [''rev-parse'', ''b0^{tree}''] True) st f (if True then strip ''t0'' else rstrip_line ''t0'')"
    by (rule gives_git_text [OF _ demo_texts(4), of _ _ _ "[]"]) (simp_all add: demo_replies)
  then show ?thesis unfolding changed_tree_def
    by (auto simp: base_text_def demo_snapshots demo_texts intro!: gives_bind gives_snapshot gives_ret)
qed

lemma gives_merged_demo: "gives (merged_patch demo_review ''t1'') st f (''t0'', merged_name, ''patch'')"
proof -
  have commit: "gives (temporary_commit demo_review t ''b0'' msg) st f ''c1''" for t msg
    unfolding temporary_commit_def
    by (rule gives_bind [OF gives_run_git [of _ _ _ _ "''c1''" "[]"] gives_lift]) (simp_all add: demo_replies demo_texts)
  have merge: "gives (merge_tree demo_review ''b0'' ''c1'' ''c1'') st f merged_name"
    unfolding merge_tree_def
    by (rule gives_bind [OF gives_call [of _ _ _ _ "(0, merged_name, [])"]])
      (auto simp: demo_replies demo_texts intro!: gives_bind gives_lift gives_ret)
  have patch: "gives (tree_patch demo_review ''t0'' merged_name) st f ''patch''"
    unfolding tree_patch_def by (rule gives_run_git [of _ _ _ _ _ "[]"]) (simp add: demo_replies)
  have ours: "gives (candidate_snapshot demo_review [''src''] ''HEAD'') st f ''t0''"
    by (rule gives_snapshot) (simp add: demo_snapshots)
  show ?thesis unfolding merged_patch_def
    by (simp add: base_text_def)
      (intro gives_bind [OF ours] gives_bind [OF commit] gives_bind [OF merge] gives_bind [OF patch],
        simp add: max_frozen_bytes_def demo_texts gives_ret del: utf8_valid.simps)
qed

definition demo_manifest :: dict where
  "demo_manifest = frozen_manifest demo_review (replicate 16 CHR ''d'') ''t0'' merged_name ''patch'' [''a.py'']
     [change_of ''a.py'' (Some ''x'')] 0 [validated] ''t''"

lemma demo_id: "py_take 16 (replicate 32 CHR ''d'') = replicate 16 CHR ''d''"
  by code_simp

lemma freeze_demo:
  assumes "log_ok st" and "st_events st = st_events evidence_store" and "py_int (dget_or (st_meta st) ''candidate_revision'' (JInt 0)) = Inr 0"
  shows "yields (rests st f) (freeze demo_review) (\<lambda>m s. m = demo_manifest
     \<and> (\<exists>p. rests (with_event ''t'' ''changes_frozen'' p st) \<lparr>fz_manifest = Some demo_manifest, fz_patch = Some ''patch''\<rparr> s)) (\<lambda>_ _. False)"
proof -
  have w: "yields (rests st f) (write_frozen demo_review [''a.py''] [validated] [change_of ''a.py'' (Some ''x'')] ''t0'' merged_name ''patch'')
     (\<lambda>m s. m = demo_manifest \<and> (\<exists>p. rests (with_event ''t'' ''changes_frozen'' p st) \<lparr>fz_manifest = Some demo_manifest, fz_patch = Some ''patch''\<rparr> s)) (\<lambda>_ _. False)"
    by (rule yields_post [OF write_frozen_run [OF demo_still assms(1,3)]]) (auto simp: demo_manifest_def demo_id)
  show ?thesis unfolding freeze_def
    by (rule gives_bnd [OF demo_inputs [OF assms(2)]], unfold prod.case demo_env, rule gives_seq [OF gives_validate_demo], rule gives_bnd [OF gives_changed_demo],
        rule gives_bnd [OF gives_merged_demo], unfold prod.case, rule w)
qed

lemma load_demo:
  assumes f: "f = \<lparr>fz_manifest = Some demo_manifest, fz_patch = Some ''patch''\<rparr>"
  shows "gives (load_frozen demo_review (Some (replicate 16 CHR ''d''))) st f (demo_manifest, ''patch'')"
  using gives_load [OF demo_still f, of "CHR ''d''" "replicate 15 CHR ''d''" st]
  by (simp add: demo_manifest_def frozen_manifest_def numeral_eq_Suc)

lemma apply_demo:
  assumes "log_ok st" and f: "f = \<lparr>fz_manifest = Some demo_manifest, fz_patch = Some ''patch''\<rparr>"
  shows "yields (rests st f) (apply_candidate demo_review (Some (replicate 16 CHR ''d'')))
     (\<lambda>r s. rc_status r = ApplyCheckFailed \<and> rc_reason r = ReasonBytes ''error: patch failed'' \<and> log_ok (rs_store s)) (\<lambda>_ _. False)"
proof -
  have ident: "gives (source_identity demo_review) st f (Some (strip head_line, strip [] \<noteq> []))"
    by (rule gives_identity) (simp_all add: demo_replies demo_texts del: utf8_valid.simps)
  have final: "gives (final_status demo_review) st f (JStr (rstrip_line []))"
    by (rule gives_final_status) (simp_all add: demo_replies)
  have refuse: "gives (preflight_source demo_review demo_manifest ''patch'' False) st f
      (Refuse ApplyCheckFailed (ReasonBytes (strip ''error: patch failed'')) (Some (strip head_line, strip [] \<noteq> [])))"
    by (rule gives_refused [OF ident, of "''t0''" _ _ 1 "[]"])
      (simp_all add: demo_replies demo_snapshots demo_texts demo_manifest_def frozen_manifest_def)
  have rec: "yields (rests st f) (record_apply demo_review demo_manifest ApplyCheckFailed (ReasonBytes ''error: patch failed'') i)
     (\<lambda>r s. rc_status r = ApplyCheckFailed \<and> rc_reason r = ReasonBytes ''error: patch failed'' \<and> log_ok (rs_store s)) (\<lambda>_ _. False)" for i
    by (rule record_apply_run [OF demo_still assms(1) ident final _ demo_manifest_def]) (simp add: demo_texts del: utf8_valid.simps)
  show ?thesis unfolding apply_candidate_def
    by (rule gives_bnd [OF load_demo [OF f]], simp, rule gives_bnd [OF refuse], simp add: demo_texts, rule rec)
qed

end
