(* ===== verification/Review_Properties.thy ===== *)
theory Review_Properties
  imports Review_Runs
begin

text \<open>
  The properties of a review: what an accepted patch had to pass, how accepting and discarding end, and
  where a session is left that can no longer be resolved.
\<close>

section \<open>What was approved is what is applied\<close>

lemma clock_mono: "preserves (\<lambda>s. c \<le> rs_clock s) (rv_call V cwd args input)" "preserves (\<lambda>s. c \<le> rs_clock s) rv_tick"
  by (rule preservesI, simp add: rv_call_def rv_tick_def bnd_def seq_then_def)+

lemma clock_identity: "preserves (\<lambda>s. c \<le> rs_clock s) (source_identity V)"
  unfolding source_identity_def git_text_def by (intro preserves_intros clock_mono)

lemma call_run: "rv_call V cwd args input s =
    (rv_git V (rs_clock s) cwd args input, s\<lparr>rs_clock := Suc (rs_clock s), rs_calls := rs_calls s @ [(cwd, args, input)]\<rparr>)"
  by (simp add: rv_call_def rv_tick_def bnd_def seq_then_def)

lemma snapshot_Inr: "candidate_snapshot V root base s = (Inr tree, t) \<Longrightarrow>
    snapshot_at V (rs_clock s) root base = Inr tree \<and> t = s\<lparr>rs_clock := Suc (rs_clock s)\<rparr>"
  by (auto simp: candidate_snapshot_def bnd_def rv_tick_def split: sum.splits)

text \<open>At tick \<open>k\<close> the source was the one of the manifest, and at the later \<open>m\<close> the patch would apply to it.\<close>

definition source_checked :: "review_env \<Rightarrow> dict \<Rightarrow> char list \<Rightarrow> nat \<Rightarrow> nat \<Rightarrow> bool" where
  "source_checked V manifest patch k m \<longleftrightarrow> k < m
     \<and> (\<exists>tree. snapshot_at V k (rv_source V) ''HEAD'' = Inr tree \<and> dget manifest ''source_snapshot_tree'' = JStr tree)
     \<and> (\<exists>out err. rv_git V m (rv_source V) (apply_arguments True) patch = Inr (0, out, err))"

lemma preflight_Proceed:
  assumes "preflight_source V manifest patch b s = (Inr (Proceed i), t)"
  shows "\<exists>k m. rs_clock s \<le> k \<and> m < rs_clock t \<and> source_checked V manifest patch k m"
proof -
  obtain j s1 where i: "source_identity V s = (Inr j, s1)"
    using assms by (auto simp: preflight_source_def bnd_def split: prod.splits sum.splits)
  obtain tree s2 where sn: "candidate_snapshot V (rv_source V) ''HEAD'' s1 = (Inr tree, s2)"
    using assms i by (auto simp: preflight_source_def bnd_def split: prod.splits sum.splits)
  note s2 = snapshot_Inr [OF sn]
  have tree: "JStr tree = dget manifest ''source_snapshot_tree''"
    using assms i sn by (auto simp: preflight_source_def bnd_def split: if_splits)
  obtain out err where g: "rv_git V (rs_clock s2) (rv_source V) (apply_arguments True) patch = Inr (0, out, err)"
    and t: "rs_clock t = Suc (rs_clock s2)"
    using assms i sn tree
    by (auto simp: preflight_source_def bnd_def git_apply_def call_run split: sum.splits prod.splits if_splits)
  have "rs_clock s \<le> rs_clock s1" using preservesD [OF clock_identity _ i] by simp
  then show ?thesis using s2 tree g t unfolding source_checked_def by (intro exI [of _ "rs_clock s1"] exI [of _ "rs_clock s2"]) auto
qed

lemma load_Inr:
  assumes "load_frozen V cid s = (Inr (manifest, patch), t)"
  shows "dget manifest ''patch_sha256'' = JStr (rv_sha V patch) \<and> dget manifest ''session_id'' = JStr (rv_session V)"
  using assms by (auto simp: load_frozen_def bnd_def rv_tick_def Let_def split: option.splits if_splits)

lemma apply_patch_applied:
  assumes "apply_patch V manifest patch s = (r, t)"
  shows "applied_patches t = applied_patches s @ [(rv_source V, apply_arguments False, patch)]"
proof -
  let ?s = "s\<lparr>rs_clock := Suc (rs_clock s), rs_calls := rs_calls s @ [(rv_source V, apply_arguments False, patch)]\<rparr>"
    and ?P = "same_applied (applied_patches s @ [(rv_source V, apply_arguments False, patch)])"
  define K where "K = (\<lambda>(rc :: int, out :: char list, err). if rc \<noteq> 0 then ret (ApplyFailed, error_reason err ''git apply'')
     else bnd (candidate_snapshot V (rv_source V) ''HEAD'') (\<lambda>tree.
       ret (if JStr tree \<noteq> dget manifest ''merged_tree'' then (ApplyFailed, ReasonText ''not the merged tree'')
            else (Applied, ReasonText ''applied''))))"
  have K: "preserves ?P (K y)" for y unfolding K_def by (intro preserves_intros applied_frame)
  have "?P ?s" by (simp add: applied_patches_def)
  moreover have "apply_patch V manifest patch s = (case rv_git V (rs_clock s) (rv_source V) (apply_arguments False) patch of
      Inl e \<Rightarrow> (Inl e, ?s) | Inr y \<Rightarrow> K y ?s)"
    unfolding apply_patch_def K_def git_apply_def by (simp add: bnd_def call_run split: sum.splits)
  ultimately show ?thesis using assms K by (auto simp: preserves_def split: sum.splits) (metis snd_conv)
qed

text \<open>An application of \<open>patch\<close> was approved at tick \<open>n\<close> and checked after that.\<close>

definition approved_patch :: "review_env \<Rightarrow> char list \<Rightarrow> bool" where
  "approved_patch V patch \<longleftrightarrow> (\<exists>manifest n k m. dget manifest ''patch_sha256'' = JStr (rv_sha V patch)
     \<and> dget manifest ''session_id'' = JStr (rv_session V) \<and> rv_approve V n manifest patch = Inr True
     \<and> n < k \<and> source_checked V manifest patch k m)"

lemma record_applied: "applied_patches (snd (record_apply V m st why i s)) = applied_patches s"
  using applied_record [of "applied_patches s"] by (simp add: preserves_def)

lemma apply_approved_applied:
  "applied_patches (snd (apply_approved V manifest patch s)) = applied_patches s \<or>
    (applied_patches (snd (apply_approved V manifest patch s)) = applied_patches s @ [(rv_source V, apply_arguments False, patch)]
       \<and> (\<exists>k m. rs_clock s \<le> k \<and> source_checked V manifest patch k m))"
proof -
  obtain z s1 where g: "preflight_source V manifest patch True s = (z, s1)" by fastforce
  note q1 = preservesD [OF applied_preflight [of "applied_patches s"] refl g]
  show ?thesis
  proof (cases "\<exists>i. z = Inr (Proceed i)")
    case False
    then have "applied_patches (snd (apply_approved V manifest patch s)) = applied_patches s"
      using g q1 record_applied by (auto simp: apply_approved_def bnd_def split: sum.splits preflight.splits)
    then show ?thesis ..
  next
    case True
    then obtain j where z: "z = Inr (Proceed j)" ..
    obtain w s2 where ap: "apply_patch V manifest patch s1 = (w, s2)" by fastforce
    have "applied_patches (snd (apply_approved V manifest patch s)) = applied_patches s2"
      using g z ap record_applied by (auto simp: apply_approved_def bnd_def split: sum.splits)
    then show ?thesis using apply_patch_applied [OF ap] q1 preflight_Proceed [OF g [unfolded z]] by auto
  qed
qed

lemma apply_candidate_applied:
  "applied_patches (snd (apply_candidate V cid s)) = applied_patches s \<or>
    (\<exists>patch. applied_patches (snd (apply_candidate V cid s)) = applied_patches s @ [(rv_source V, apply_arguments False, patch)]
       \<and> approved_patch V patch)"
proof -
  obtain x s1 where l: "load_frozen V cid s = (x, s1)" by fastforce
  note q1 = preservesD [OF applied_load [of "applied_patches s"] refl l]
  have same: ?thesis if "applied_patches (snd (apply_candidate V cid s)) = applied_patches s" using that ..
  show ?thesis
  proof (cases x)
    case (Inl e)
    with l q1 show ?thesis by (intro same) (simp add: apply_candidate_def bnd_def)
  next
    case (Inr mp)
    then obtain manifest patch where mp: "x = Inr (manifest, patch)" by (cases mp) auto
    obtain y s2 where f: "preflight_source V manifest patch False s1 = (y, s2)" by fastforce
    note q2 = preservesD [OF applied_preflight q1 f]
    obtain a s3 where ask: "ask_approval V manifest patch s2 = (a, s3)" by fastforce
    note q3 = preservesD [OF applied_ask q2 ask]
    show ?thesis
    proof (cases "(\<exists>i. y = Inr (Proceed i)) \<and> utf8_valid patch \<and> a = Inr True")
      case False
      then show ?thesis using l mp f q2 q3 ask record_applied
        by (intro same) (auto simp: apply_candidate_def bnd_def utf8_decode_def split: sum.splits preflight.splits simp del: utf8_valid.simps)
    next
      case True
      then have run: "apply_candidate V cid s = apply_approved V manifest patch s3"
        using l mp f ask by (auto simp: apply_candidate_def bnd_def utf8_decode_def simp del: utf8_valid.simps)
      have n: "rv_approve V (rs_clock s2) manifest patch = Inr True" "rs_clock s3 = Suc (rs_clock s2)"
        using ask True by (auto simp: ask_approval_def bnd_def rv_tick_def)
      show ?thesis using apply_approved_applied [of V manifest patch s3] q3 n load_Inr [OF l [unfolded mp]]
        unfolding run approved_patch_def by (metis Suc_le_lessD)
    qed
  qed
qed

text \<open>Programs that apply no patch, or at most one approved patch.\<close>

definition applies_none :: "'a review_prog \<Rightarrow> bool" where
  "applies_none m \<longleftrightarrow> (\<forall>A. preserves (same_applied A) m)"

definition applies_once :: "review_env \<Rightarrow> 'a review_prog \<Rightarrow> bool" where
  "applies_once V m \<longleftrightarrow> (\<forall>s. applied_patches (snd (m s)) = applied_patches s \<or>
     (\<exists>patch. applied_patches (snd (m s)) = applied_patches s @ [(rv_source V, apply_arguments False, patch)] \<and> approved_patch V patch))"

lemma none_run: "applies_none m \<Longrightarrow> m s = (r, t) \<Longrightarrow> applied_patches t = applied_patches s"
  unfolding applies_none_def preserves_def by (metis snd_conv)

lemma none_once: "applies_none m \<Longrightarrow> applies_once V m"
  unfolding applies_once_def by (metis none_run prod.collapse)

lemma once_after_none:
  assumes "applies_none m" and "\<And>x. applies_once V (f x)"
  shows "applies_once V (bnd m f)"
  unfolding applies_once_def
proof
  fix s
  obtain r t where m: "m s = (r, t)" by fastforce
  note none_run [OF assms(1) m]
  with m assms(2) show "applied_patches (snd (bnd m f s)) = applied_patches s \<or>
     (\<exists>patch. applied_patches (snd (bnd m f s)) = applied_patches s @ [(rv_source V, apply_arguments False, patch)] \<and> approved_patch V patch)"
  proof (cases r)
    case (Inr x)
    then show ?thesis using assms(2) [of x, unfolded applies_once_def, rule_format, of t] m none_run [OF assms(1) m] by (simp add: bnd_def)
  qed (simp add: bnd_def)
qed

lemma once_before_none:
  assumes "applies_once V m" and "\<And>x. applies_none (f x)"
  shows "applies_once V (bnd m f)"
  unfolding applies_once_def
proof
  fix s
  obtain r t where m: "m s = (r, t)" by fastforce
  have "applied_patches (snd (bnd m f s)) = applied_patches t"
    using m none_run [OF assms(2) prod.collapse [symmetric]] by (cases r) (auto simp: bnd_def)
  moreover have "snd (m s) = t" using m by simp
  ultimately show "applied_patches (snd (bnd m f s)) = applied_patches s \<or>
     (\<exists>patch. applied_patches (snd (bnd m f s)) = applied_patches s @ [(rv_source V, apply_arguments False, patch)] \<and> approved_patch V patch)"
    using assms(1) unfolding applies_once_def by metis
qed

lemma once_try:
  assumes "applies_once V m" and "\<And>e. applies_none (h e)"
  shows "applies_once V (try_catch m h)"
  unfolding applies_once_def
proof
  fix s
  obtain r t where m: "m s = (r, t)" by fastforce
  have "applied_patches (snd (try_catch m h s)) = applied_patches t"
    using m none_run [OF assms(2) prod.collapse [symmetric]] by (cases r) (auto simp: try_catch_def)
  moreover have "snd (m s) = t" using m by simp
  ultimately show "applied_patches (snd (try_catch m h s)) = applied_patches s \<or>
     (\<exists>patch. applied_patches (snd (try_catch m h s)) = applied_patches s @ [(rv_source V, apply_arguments False, patch)] \<and> approved_patch V patch)"
    using assms(1) unfolding applies_once_def by metis
qed

lemma accept_source_once: "applies_once V (accept_source V)"
proof -
  have c: "applies_once V (apply_candidate V cid)" for cid unfolding applies_once_def using apply_candidate_applied by blast
  have tail: "applies_none (if rc_status receipt \<noteq> Applied
     then seq_then (clear_frozen V) (seq_then (restore_active (rc_reason receipt)) (ret (receipt, None)))
     else ret (receipt, Some (manifest, patch)))" for receipt :: apply_receipt and manifest :: dict and patch :: "char list"
    unfolding applies_none_def by (intro allI preserves_intros applied_frame)
  have "applies_once V (case lp of (loaded, patch) \<Rightarrow> bnd (apply_candidate V cid) (\<lambda>receipt.
      if rc_status receipt \<noteq> Applied then seq_then (clear_frozen V) (seq_then (restore_active (rc_reason receipt)) (ret (receipt, None)))
      else ret (receipt, Some (manifest, patch))))" for lp :: "dict \<times> char list" and cid and manifest :: dict
    by (induct lp) (unfold prod.case, rule once_before_none, rule c, rule tail)
  moreover have "applies_none (freeze V)" "applies_none (load_frozen V cid)" for cid by (simp_all add: applies_none_def applied_frame)
  ultimately show ?thesis unfolding accept_source_def by (simp add: once_after_none)
qed

lemma accept_once: "applies_once V (accept V)"
proof -
  have finish: "applies_none (case applied of None \<Rightarrow> ret receipt
      | Some (manifest, patch) \<Rightarrow> try_catch (accept_finish V manifest receipt) (accept_failure V True))"
    for receipt :: apply_receipt and applied :: "(dict \<times> char list) option"
    unfolding applies_none_def by (intro allI preserves_intros applied_frame)
  have fail: "applies_none (accept_failure V False e)" and begin_none: "applies_none (in_store (begin_resolution Accepting))" for e
    by (simp_all add: applies_none_def applied_frame)
  have "applies_none (case x of (receipt, applied) \<Rightarrow> case applied of None \<Rightarrow> ret receipt
      | Some (manifest, patch) \<Rightarrow> try_catch (accept_finish V manifest receipt) (accept_failure V True))" for x :: "apply_receipt \<times> (dict \<times> char list) option"
    by (induct x) (unfold prod.case, rule finish)
  with once_try [OF accept_source_once fail]
  have "applies_once V (bnd (try_catch (accept_source V) (accept_failure V False)) (\<lambda>(receipt, applied).
      case applied of None \<Rightarrow> ret receipt
      | Some (manifest, patch) \<Rightarrow> try_catch (accept_finish V manifest receipt) (accept_failure V True)))"
    by (rule once_before_none)
  then show ?thesis unfolding accept_def seq_then_def by (rule once_after_none [OF begin_none])
qed

text \<open>
  C29. Nothing reaches the source unapproved: one call of accept applies at most one patch, and then that
  patch, with the hash of its manifest, had been approved, and after the approval the source was
  observed to be the one the changes were frozen against and the patch was checked to apply to it.
\<close>

theorem apply_is_approved:
  "applied_patches (snd (accept V s)) = applied_patches s \<or>
    (\<exists>patch manifest n k m tree out err. applied_patches (snd (accept V s)) = applied_patches s @ [(rv_source V, apply_arguments False, patch)]
       \<and> dget manifest ''patch_sha256'' = JStr (rv_sha V patch) \<and> dget manifest ''session_id'' = JStr (rv_session V)
       \<and> rv_approve V n manifest patch = Inr True \<and> n < k \<and> k < m
       \<and> snapshot_at V k (rv_source V) ''HEAD'' = Inr tree \<and> dget manifest ''source_snapshot_tree'' = JStr tree
       \<and> rv_git V m (rv_source V) (apply_arguments True) patch = Inr (0, out, err))"
  using accept_once [of V] unfolding applies_once_def approved_patch_def source_checked_def by blast

section \<open>How accepting and discarding end\<close>


lemma accept_refused:
  assumes "log_ok (rs_store s)" and "\<not> in_state ChangesActive (rs_store s)"
  shows "accept V s = (Inl (Exn SessionStoreError ''nothing to resolve''), s)"
proof -
  have "in_store (begin_resolution Accepting) s = (Inl (Exn SessionStoreError ''nothing to resolve''), s)"
    using assms by (simp add: in_store_def begin_resolution_def in_state_def bnd_def raise_def)
  then show ?thesis by (simp add: accept_def seq_then_def bnd_def)
qed


lemma accept_begun:
  assumes "log_ok (rs_store s)" and "in_state ChangesActive (rs_store s)"
  shows "\<exists>s1. in_store (begin_resolution Accepting) s = (Inr (), s1) \<and> unresolved (st_events (rs_store s)) Accepting s1
    \<and> settled V (st_events (rs_store s)) (fst (accept V s)) (snd (accept V s))"
proof -
  obtain s1 where b: "in_store (begin_resolution Accepting) s = (Inr (), s1)" and u: "unresolved (st_events (rs_store s)) Accepting s1"
    using begin_resolution_run [OF assms(1), of Accepting "{''changes_accepted'', ''changes_discarded''}"] assms(2) by blast
  obtain r t where a: "accept V s = (r, t)" by fastforce
  from a b have run: "bnd (try_catch (accept_source V) (accept_failure V False)) (\<lambda>(receipt, applied).
      case applied of None \<Rightarrow> ret receipt
      | Some (manifest, patch) \<Rightarrow> try_catch (accept_finish V manifest receipt) (accept_failure V True)) s1 = (r, t)"
    by (simp add: accept_def seq_then_def)
  have "settled V (st_events (rs_store s)) r t"
  proof (cases r)
    case (Inl e)
    show ?thesis unfolding Inl by (rule yields_Inl [OF accept_settled u run [unfolded Inl]])
  next
    case (Inr x)
    show ?thesis unfolding Inr by (rule yields_Inr [OF accept_settled u run [unfolded Inr]])
  qed
  with a b u show ?thesis by simp
qed

text \<open>
  C30. A call of accept begins only when the session has changes, and else raises and changes nothing. A
  receipt that is not applied leaves the changes as they were; an applied one has been logged as
  accepted under its identifier, as the last event. An error of the review either left the session
  with its changes or in need of recovery, and nothing was logged as accepted; the session stays
  in the middle of the resolution only if an exception of another kind escaped or a file could not be
  written.
\<close>

theorem accept_settles:
  assumes "log_ok (rs_store s)" and "accept V s = (r, t)"
  shows "if in_state ChangesActive (rs_store s) then settled V (st_events (rs_store s)) r t
    else r = Inl (Exn SessionStoreError ''nothing to resolve'') \<and> t = s"
  using accept_refused [OF assms(1), of V] accept_begun [OF assms(1), of V] assms(2) by auto

definition review0 :: review_state where
  "review0 = \<lparr>rs_store = evidence_store, rs_clock = 0, rs_frozen = no_frozen, rs_calls = [], rs_deliveries = []\<rparr>"

lemma review0_ok: "log_ok (rs_store review0)" "in_state ChangesActive (rs_store review0)" "rs_store review0 = evidence_store"
  using evidence_store_ok by (simp_all add: review0_def)

theorem accept_settles_witness:
  "\<exists>r t. accept demo_review review0 = (r, t) \<and> settled demo_review (st_events evidence_store) r t"
proof -
  obtain r t where run: "accept demo_review review0 = (r, t)" by fastforce
  show ?thesis using accept_settles [OF review0_ok(1) run] review0_ok(2,3) run by auto
qed








end
