(* ===== verification/Repository_Reads.thy ===== *)
theory Repository_Reads
  imports Host_Paths Agent_Tools Git_Status "HOL-Library.Product_Lexorder"
begin

text \<open>
  \<^verbatim>\<open>tools/fs_read.py\<close>: listing a directory, showing a tree and reading a file below the root of the
  workspace. One call sees one state of the file system; the names in a directory come in the order
  the system lists them.
\<close>

section \<open>Arguments and limits\<close>

datatype listing_mode = ShowMarked | RedactName | HideName

record read_env =
  re_host :: host
  re_root :: path
  re_names :: "path \<Rightarrow> string list res"
  re_open :: "path \<Rightarrow> unit res"
  re_mode :: listing_mode
  re_sha :: "char list \<Rightarrow> string"

definition max_output_chars :: int where "max_output_chars = 65536"
definition max_read_lines :: int where "max_read_lines = 1000"
definition max_entries :: int where "max_entries = 1000"

abbreviation re_fs :: "read_env \<Rightarrow> fs" where
  "re_fs E \<equiv> ho_fs (re_host E)"

definition guard_error :: "string \<Rightarrow> exn" where
  "guard_error why = Exn PathGuardError why"

definition posix_text :: "path \<Rightarrow> string" where
  "posix_text p = (if p = [] then ''.'' else join ''/'' p)"

definition relative_argument :: "json \<Rightarrow> bool \<Rightarrow> string res" where
  "relative_argument v required = (case v of
     JNull \<Rightarrow> if required then Inl (Exn KeyError ''path'') else Inr ''.''
   | JStr s \<Rightarrow>
       if s = [] \<or> CHR 0x00 \<in> set s then Inl (Exn ValueError ''path'')
       else if is_abs s \<or> ''..'' \<in> set (path_parts s) then Inl (guard_error ''not relative'')
       else Inr (posix_text (path_parts s))
   | _ \<Rightarrow> Inl (Exn ValueError ''path''))"

fun has_link_component :: "fs \<Rightarrow> path \<Rightarrow> string list \<Rightarrow> bool" where
  "has_link_component fs cur [] = False"
| "has_link_component fs cur (p # ps) =
     (if p = [] \<or> p = ''.'' then has_link_component fs cur ps
      else is_link fs (cur @ [p]) \<or> has_link_component fs (cur @ [p]) ps)"

definition int_argument :: "json \<Rightarrow> int \<Rightarrow> int \<Rightarrow> int res" where
  "int_argument v lo hi = (case v of
     JInt i \<Rightarrow> if lo \<le> i \<and> i \<le> hi then Inr i else Inl (Exn ValueError ''range'')
   | _ \<Rightarrow> Inl (Exn TypeError ''integer''))"

definition directory_of :: "read_env \<Rightarrow> json \<Rightarrow> (path \<times> string) res" where
  "directory_of E v = rbind (relative_argument v False) (\<lambda>rel.
     if has_link_component (re_fs E) (re_root E) (path_parts rel) then Inl (guard_error ''link'')
     else rbind (guard_resolve (re_fs E) (ho_links (re_host E)) (re_root E) False rel) (\<lambda>p.
       if \<not> path_exists (re_host E) p then Inl not_found
       else if \<not> path_is_dir (re_host E) p then Inl (Exn ValueError ''not a directory'')
       else Inr (p, posix_text (drop (length (re_root E)) p))))"

text \<open>The encoded content is cut at the limit; a character that is cut in two is dropped.\<close>

definition trim_output :: "string \<Rightarrow> string \<times> bool" where
  "trim_output content = (if int (length content) \<le> max_output_chars then (content, False)
     else (utf8_ignore (take (nat max_output_chars) content) @ CHR 0x0A # ''...[truncated]'', True))"

section \<open>Entries of a directory\<close>

definition blocked_text :: "string \<Rightarrow> string" where
  "blocked_text label = '' ['' @ label @ '', content blocked]''"

text \<open>The line of an entry: none if it leads outside of the workspace, or is hidden.\<close>

definition listing_item :: "read_env \<Rightarrow> path \<Rightarrow> string option res" where
  "listing_item E p = rbind (resolve_path (re_host E) p) (\<lambda>r.
     if \<not> is_relative_to r (re_root E) then Inr None
     else let name = last p;
         marker = (if is_link (re_fs E) p then ''@'' else if path_is_dir (re_host E) p then ''/'' else []) in
       case sensitive_label [name] of
         None \<Rightarrow> Inr (Some (name @ marker))
       | Some label \<Rightarrow> (case re_mode E of
           HideName \<Rightarrow> Inr None
         | RedactName \<Rightarrow> Inr (Some (''<sensitive file hidden>'' @ blocked_text label))
         | ShowMarked \<Rightarrow> Inr (Some (name @ marker @ blocked_text label))))"

definition entry_key :: "read_env \<Rightarrow> path \<Rightarrow> string \<Rightarrow> bool \<times> string" where
  "entry_key E p n = (\<not> path_is_dir (re_host E) (p @ [n]), lower n)"

definition sorted_names :: "read_env \<Rightarrow> path \<Rightarrow> string list res" where
  "sorted_names E p = rbind (re_names E p) (\<lambda>ns. Inr (sort_key (entry_key E p) ns))"

section \<open>Listing a directory\<close>

fun list_rows :: "read_env \<Rightarrow> path \<Rightarrow> string list \<Rightarrow> string list \<Rightarrow> (string list \<times> bool) res" where
  "list_rows E p rows [] = Inr (rows, False)"
| "list_rows E p rows (n # ns) =
     (if max_entries \<le> int (length rows) then Inr (rows, True)
      else rbind (listing_item E (p @ [n])) (\<lambda>r.
        list_rows E p (case r of None \<Rightarrow> rows | Some t \<Rightarrow> rows @ [t]) ns))"

definition limit_reason :: "bool \<Rightarrow> bool \<Rightarrow> json" where
  "limit_reason limited short = (if limited then JStr ''entries'' else if short then JStr ''output_bytes'' else JNull)"

definition lines_text :: "string list \<Rightarrow> string" where
  "lines_text ls = join [CHR 0x0A] ls"

definition list_answer :: "string \<Rightarrow> string list \<Rightarrow> bool \<Rightarrow> tool_result" where
  "list_answer rel rows limited = (case trim_output (lines_text rows) of (content, short) \<Rightarrow>
     (tool_success content [(''path'', JStr rel), (''entry_count'', JInt (int (length rows))),
        (''limit_reason'', limit_reason limited short)])\<lparr>tr_truncated := short \<or> limited\<rparr>)"

text \<open>The handlers of the tools; \<^verbatim>\<open>PathGuardError\<close> and \<^verbatim>\<open>UnicodeDecodeError\<close> are kinds of \<^verbatim>\<open>ValueError\<close>.\<close>

definition list_handler :: "exn \<Rightarrow> tool_result res" where
  "list_handler e =
     (if e = not_found then Inr (tool_failure (exn_code e) ''not_found'')
      else if exn_class e = PathGuardError then Inr (tool_failure (exn_code e) ''path_rejected'')
      else if exn_class e \<in> {ValueError, UnicodeDecodeError} then Inr (tool_failure (exn_code e) ''invalid_arguments'')
      else if exn_class e \<in> {OSError, TypeError} then Inr (tool_failure (exn_code e) ''internal_error'')
      else Inl e)"

definition rhandle :: "'a res \<Rightarrow> (exn \<Rightarrow> 'a res) \<Rightarrow> 'a res" where
  "rhandle r h = (case r of Inl e \<Rightarrow> h e | Inr x \<Rightarrow> Inr x)"

definition list_dir :: "read_env \<Rightarrow> dict \<Rightarrow> tool_result res" where
  "list_dir E args = rhandle
     (rbind (directory_of E (dget_or args ''path'' (JStr ''.''))) (\<lambda>(p, rel).
      rbind (sorted_names E p) (\<lambda>ns.
      rbind (list_rows E p [] ns) (\<lambda>(rows, limited). Inr (list_answer rel rows limited)))))
     list_handler"

section \<open>Showing a tree\<close>

record tree_view =
  tv_lines :: "string list"
  tv_unreadable :: int
  tv_limited :: bool

fun rendered_entries :: "read_env \<Rightarrow> path \<Rightarrow> string list \<Rightarrow> (string \<times> string) list res" where
  "rendered_entries E p [] = Inr []"
| "rendered_entries E p (n # ns) = rbind (listing_item E (p @ [n])) (\<lambda>r.
     rbind (rendered_entries E p ns) (\<lambda>rs. Inr (case r of None \<Rightarrow> rs | Some t \<Rightarrow> (n, t) # rs)))"

definition descends :: "read_env \<Rightarrow> path \<Rightarrow> string \<Rightarrow> bool" where
  "descends E p n = (path_is_dir (re_host E) (p @ [n]) \<and> \<not> is_link (re_fs E) (p @ [n]) \<and> sensitive_label [n] = None)"

fun tree_loop :: "(string \<Rightarrow> string \<Rightarrow> tree_view \<Rightarrow> tree_view res) \<Rightarrow> (string \<Rightarrow> bool) \<Rightarrow> string
    \<Rightarrow> (string \<times> string) list \<Rightarrow> tree_view \<Rightarrow> tree_view res" where
  "tree_loop walk dirs pre [] v = Inr v"
| "tree_loop walk dirs pre ((n, t) # es) v =
     (if max_entries \<le> int (length (tv_lines v)) then Inr (v\<lparr>tv_limited := True\<rparr>)
      else let v' = v\<lparr>tv_lines := tv_lines v @ [pre @ (if es = [] then ''`-- '' else ''|-- '') @ t]\<rparr> in
        rbind (if dirs n then walk n (pre @ (if es = [] then ''    '' else ''|   '')) v' else Inr v')
          (tree_loop walk dirs pre es))"

primrec tree_walk :: "nat \<Rightarrow> read_env \<Rightarrow> path \<Rightarrow> string \<Rightarrow> tree_view \<Rightarrow> tree_view res" where
  "tree_walk 0 = (\<lambda>E p pre v. Inr v)"
| "tree_walk (Suc depth) = (\<lambda>E p pre v.
     if tv_limited v then Inr v
     else case rbind (sorted_names E p) (rendered_entries E p) of
       Inl e \<Rightarrow> if exn_class e = OSError then Inr (v\<lparr>tv_unreadable := tv_unreadable v + 1\<rparr>) else Inl e
     | Inr es \<Rightarrow> tree_loop (\<lambda>n. tree_walk depth E (p @ [n])) (descends E p) pre es v)"

definition tree_answer :: "string \<Rightarrow> tree_view \<Rightarrow> tool_result" where
  "tree_answer rel v = (case trim_output (lines_text (tv_lines v)) of (content, short) \<Rightarrow>
     (tool_success content [(''path'', JStr rel), (''entry_count'', JInt (max 0 (int (length (tv_lines v)) - 1))),
        (''unreadable_count'', JInt (tv_unreadable v)), (''limit_reason'', limit_reason (tv_limited v) short)])
       \<lparr>tr_truncated := tv_limited v \<or> short \<or> 0 < tv_unreadable v\<rparr>)"

definition tree_title :: "path \<Rightarrow> string \<Rightarrow> string" where
  "tree_title p rel = (if rel \<noteq> ''.'' then rel else if p = [] then ''.'' else last p)"

definition tree_handler :: "exn \<Rightarrow> tool_result res" where
  "tree_handler e =
     (if e = not_found then Inr (tool_failure (exn_code e) ''not_found'')
      else if exn_class e = PathGuardError then Inr (tool_failure (exn_code e) ''path_rejected'')
      else if exn_class e \<in> {TypeError, ValueError, UnicodeDecodeError} then Inr (tool_failure (exn_code e) ''invalid_arguments'')
      else if exn_class e = OSError then Inr (tool_failure (exn_code e) ''internal_error'')
      else Inl e)"

definition show_tree :: "read_env \<Rightarrow> dict \<Rightarrow> tool_result res" where
  "show_tree E args = rhandle
     (rbind (directory_of E (dget_or args ''path'' (JStr ''.''))) (\<lambda>(p, rel).
      rbind (int_argument (dget_or args ''max_depth'' (JInt 2)) 1 4) (\<lambda>depth.
      rbind (tree_walk (nat depth) E p [] \<lparr>tv_lines = [tree_title p rel], tv_unreadable = 0, tv_limited = False\<rparr>) (\<lambda>v.
      Inr (tree_answer rel v)))))
     tree_handler"

section \<open>Reading a file\<close>

text \<open>Text mode: every line break is read as a line feed.\<close>

fun universal_newlines :: "string \<Rightarrow> string" where
  "universal_newlines [] = []"
| "universal_newlines (c # s) =
     (if c = CHR 0x0D then CHR 0x0A # (case s of [] \<Rightarrow> [] | d # r \<Rightarrow> if d = CHR 0x0A then universal_newlines r else universal_newlines s)
      else c # universal_newlines s)"

definition text_lines :: "string \<Rightarrow> string list" where
  "text_lines s = (let ls = split_on CHR 0x0A (universal_newlines s) in if last ls = [] then butlast ls else ls)"

text \<open>The loop over the numbered lines: those of the range, until the output is full.\<close>

record line_window =
  lw_selected :: "string list"
  lw_chars :: int
  lw_limited :: bool

definition window_step :: "int \<Rightarrow> int \<Rightarrow> int \<Rightarrow> string \<Rightarrow> line_window \<Rightarrow> line_window" where
  "window_step start hi number line w =
     (if number < start \<or> hi < number \<or> lw_limited w then w
      else if max_output_chars < lw_chars w + int (py_len line) + 1 then w\<lparr>lw_limited := True\<rparr>
      else w\<lparr>lw_selected := lw_selected w @ [line], lw_chars := lw_chars w + int (py_len line) + 1\<rparr>)"

fun window_loop :: "int \<Rightarrow> int \<Rightarrow> int \<Rightarrow> string list \<Rightarrow> line_window \<Rightarrow> line_window" where
  "window_loop start hi number [] w = w"
| "window_loop start hi number (l # ls) w = window_loop start hi (number + 1) ls (window_step start hi number l w)"

definition empty_window :: line_window where
  "empty_window = \<lparr>lw_selected = [], lw_chars = 0, lw_limited = False\<rparr>"

definition read_range :: "dict \<Rightarrow> (int \<times> int) res" where
  "read_range args = rbind (int_argument (dget_or args ''start_line'' (JInt 1)) 1 1000000000) (\<lambda>start.
     rbind (if dget args ''end_line'' \<noteq> JNull then int_argument (dget args ''end_line'') start 1000000000
            else Inr (start + max_read_lines - 1)) (\<lambda>hi.
     if max_read_lines < hi - start + 1 then Inl (Exn ValueError ''too many lines'') else Inr (start, hi)))"

definition range_dict :: "json \<Rightarrow> json \<Rightarrow> json" where
  "range_dict a b = JObj [(''start_line'', a), (''end_line'', b)]"

definition read_answer :: "read_env \<Rightarrow> dict \<Rightarrow> path \<Rightarrow> char list \<Rightarrow> int \<Rightarrow> int \<Rightarrow> tool_result" where
  "read_answer E args p bytes start hi =
     (let ls = text_lines bytes; w = window_loop start hi 1 ls empty_window; content = lines_text (lw_selected w);
          total = int (length ls); stopped = start + int (length (lw_selected w)) - 1; later = (stopped < total) in
      (tool_success content
        [(''path'', JStr (posix_text (drop (length (re_root E)) p))), (''start_line'', JInt start), (''end_line'', JInt stopped),
         (''total_lines'', JInt total), (''content_bytes'', JInt (int (length content))),
         (''requested_range'', range_dict (JInt start) (dget args ''end_line'')), (''returned_range'', range_dict (JInt start) (JInt stopped)),
         (''file_total_lines'', JInt total), (''has_more_before'', JBool (1 < start \<and> 0 < total)), (''has_more_after'', JBool later),
         (''sha256'', JStr (re_sha E bytes))])
       \<lparr>tr_truncated := lw_limited w \<or> dget args ''end_line'' = JNull \<and> later\<rparr>)"

definition file_bytes :: "read_env \<Rightarrow> path \<Rightarrow> char list res" where
  "file_bytes E p = rbind (re_open E p) (\<lambda>u. case node_at (re_fs E) p of
     Some (File m content) \<Rightarrow> Inr content | _ \<Rightarrow> Inl not_found)"

definition read_open_file :: "read_env \<Rightarrow> dict \<Rightarrow> path \<Rightarrow> tool_result res" where
  "read_open_file E args p = rbind (file_bytes E p) (\<lambda>bytes.
     if CHR 0x00 \<in> set (take 8192 bytes) then Inr (tool_failure ''binary files are not readable'' ''unsupported_file_type'')
     else rbind (read_range args) (\<lambda>(start, hi).
       rbind (utf8_decode bytes) (\<lambda>s. Inr (read_answer E args p bytes start hi))))"

definition read_handler :: "exn \<Rightarrow> tool_result res" where
  "read_handler e =
     (if exn_class e = UnicodeDecodeError then Inr (tool_failure ''not UTF-8'' ''unsupported_text_encoding'')
      else if exn_class e = KeyError then Inr (tool_failure (exn_code e) ''invalid_arguments'')
      else if exn_class e = PathGuardError then Inr (tool_failure (exn_code e) ''path_rejected'')
      else if exn_class e \<in> {TypeError, ValueError} then Inr (tool_failure (exn_code e) ''invalid_arguments'')
      else if exn_class e = OSError then Inr (tool_failure (exn_code e) ''internal_error'')
      else Inl e)"

definition read_file :: "read_env \<Rightarrow> dict \<Rightarrow> tool_result res" where
  "read_file E args = rhandle
     (rbind (relative_argument (dget args ''path'') True) (\<lambda>rel.
      if has_link_component (re_fs E) (re_root E) (path_parts rel) then Inr (tool_failure ''link'' ''path_rejected'')
      else rbind (guard_resolve (re_fs E) (ho_links (re_host E)) (re_root E) True rel) (\<lambda>p.
        if \<not> path_exists (re_host E) p then Inr (tool_failure rel ''not_found'')
        else if is_link (re_fs E) p \<or> \<not> is_file (re_fs E) p then Inr (tool_failure ''not a file'' ''unsupported_file_type'')
        else read_open_file E args p)))
     read_handler"

section \<open>The page of a file\<close>

text \<open>How many of the lines fit when \<open>c\<close> characters are there already.\<close>

fun fits :: "int \<Rightarrow> string list \<Rightarrow> nat" where
  "fits c [] = 0"
| "fits c (l # ls) = (if max_output_chars < c + int (py_len l) + 1 then 0 else Suc (fits (c + int (py_len l) + 1) ls))"

lemma fits_le: "fits c ls \<le> length ls"
  by (induction ls arbitrary: c) auto

lemma window_limited: "lw_limited w \<Longrightarrow> window_loop start hi number ls w = w"
  by (induction ls arbitrary: number) (simp_all add: window_step_def)

lemma window_past: "hi < number \<Longrightarrow> window_loop start hi number ls w = w"
  by (induction ls arbitrary: number) (simp_all add: window_step_def)

lemma window_inside:
  assumes "start \<le> number" and "\<not> lw_limited w"
  shows "let page = take (nat (hi - number + 1)) ls in
    lw_selected (window_loop start hi number ls w) = lw_selected w @ take (fits (lw_chars w) page) page
    \<and> (lw_limited (window_loop start hi number ls w) \<longleftrightarrow> fits (lw_chars w) page < length page)"
  using assms unfolding Let_def
proof (induction ls arbitrary: number w)
  case Nil
  then show ?case by simp
next
  case (Cons l ls)
  show ?case
  proof (cases "number \<le> hi")
    case False
    then show ?thesis using Cons.prems(2) by (simp add: window_past window_step_def)
  next
    case True
    then have n: "nat (hi - number + 1) = Suc (nat (hi - (number + 1) + 1))" by simp
    show ?thesis
    proof (cases "max_output_chars < lw_chars w + int (py_len l) + 1")
      case full: True
      then have "window_step start hi number l w = w\<lparr>lw_limited := True\<rparr>"
        using True Cons.prems by (simp add: window_step_def)
      then show ?thesis unfolding n using full by (simp add: window_limited)
    next
      case room: False
      then have "window_step start hi number l w = w\<lparr>lw_selected := lw_selected w @ [l], lw_chars := lw_chars w + int (py_len l) + 1\<rparr>"
        using True Cons.prems by (simp add: window_step_def)
      then show ?thesis unfolding n using room Cons.IH [of "number + 1" "window_step start hi number l w"] Cons.prems by simp
    qed
  qed
qed

lemma window_skip: "number \<le> start \<Longrightarrow> window_loop start hi number ls w = window_loop start hi start (drop (nat (start - number)) ls) w"
proof (induction ls arbitrary: number)
  case (Cons l ls)
  show ?case
  proof (cases "number = start")
    case False
    then have "nat (start - number) = Suc (nat (start - (number + 1)))" "number + 1 \<le> start" using Cons.prems by simp_all
    then show ?thesis using Cons.IH [of "number + 1"] Cons.prems False by (simp add: window_step_def)
  qed simp
qed simp

text \<open>The lines of a range, as many as fit.\<close>

definition page_of :: "int \<Rightarrow> int \<Rightarrow> string list \<Rightarrow> string list" where
  "page_of start hi ls = (let page = take (nat (hi - start + 1)) (drop (nat (start - 1)) ls) in take (fits 0 page) page)"

lemma window_page: "1 \<le> start \<Longrightarrow> lw_selected (window_loop start hi 1 ls empty_window) = page_of start hi ls"
  using window_inside [of start start empty_window hi "drop (nat (start - 1)) ls"]
  by (simp add: window_skip [of 1 start] page_of_def Let_def empty_window_def)

lemma join_len: "ls \<noteq> [] \<Longrightarrow> py_len (lines_text ls) + 1 = sum_list (map (\<lambda>l. py_len l + 1) ls)"
proof (induction ls)
  case (Cons l ls)
  then show ?case by (cases ls) (simp_all add: lines_text_def py_len_def is_cont_def)
qed simp

lemma fits_sum: "c \<le> max_output_chars \<Longrightarrow> c + int (sum_list (map (\<lambda>l. py_len l + 1) (take (fits c ls) ls))) \<le> max_output_chars"
proof (induction ls arbitrary: c)
  case (Cons l ls)
  show ?case
  proof (cases "max_output_chars < c + int (py_len l) + 1")
    case False
    then have "c + int (py_len l) + 1 \<le> max_output_chars" by simp
    from Cons.IH [OF this] False show ?thesis by (simp add: add.assoc)
  qed (use Cons.prems in simp)
qed simp

lemma page_chars: "int (py_len (lines_text (page_of start hi ls))) < max_output_chars"
proof (cases "page_of start hi ls = []")
  case True
  then show ?thesis by (simp add: lines_text_def max_output_chars_def py_len_def)
next
  case False
  then show ?thesis using join_len [OF False] fits_sum [of 0 "take (nat (hi - start + 1)) (drop (nat (start - 1)) ls)"]
    by (simp add: page_of_def Let_def max_output_chars_def)
qed

lemma page_prefix: "\<exists>k. page_of start hi ls = take k (drop (nat (start - 1)) ls) \<and> k = length (page_of start hi ls) \<and> int k \<le> max 0 (hi - start + 1)"
proof -
  let ?page = "take (nat (hi - start + 1)) (drop (nat (start - 1)) ls)"
  have "page_of start hi ls = take (fits 0 ?page) (drop (nat (start - 1)) ls)"
    using fits_le [of 0 ?page] by (simp add: page_of_def Let_def min_absorb1)
  moreover have "length (page_of start hi ls) = fits 0 ?page" "fits 0 ?page \<le> nat (hi - start + 1)"
    using fits_le [of 0 ?page] by (simp_all add: page_of_def Let_def)
  ultimately show ?thesis by (intro exI [of _ "fits 0 ?page"]) linarith
qed

lemma page_advances:
  assumes "1 \<le> start" and "start \<le> hi" and "start \<le> int (length ls)" and "int (py_len (ls ! nat (start - 1))) < max_output_chars"
  shows "page_of start hi ls \<noteq> []"
proof -
  have "nat (start - 1) < length ls" using assms by linarith
  then obtain rest where "drop (nat (start - 1)) ls = ls ! nat (start - 1) # rest" by (metis Cons_nth_drop_Suc)
  moreover have "nat (hi - start + 1) = Suc (nat (hi - start))" using assms(2) by simp
  ultimately show ?thesis using assms(4) by (simp add: page_of_def Let_def)
qed

lemma rhandle_Inr: "rhandle r h = Inr x \<Longrightarrow> (\<And>e. h e = Inr x \<Longrightarrow> \<not> ok x) \<Longrightarrow> ok x \<Longrightarrow> r = Inr x"
  by (cases r) (auto simp: rhandle_def)

lemma handlers_fail:
  "list_handler e = Inr a \<Longrightarrow> \<not> tr_ok a" "tree_handler e = Inr a \<Longrightarrow> \<not> tr_ok a" "read_handler e = Inr a \<Longrightarrow> \<not> tr_ok a"
  by (auto simp: list_handler_def tree_handler_def read_handler_def tool_failure_def split: if_splits)

lemma int_argument_Inr: "int_argument v lo hi = Inr i \<Longrightarrow> v = JInt i \<and> lo \<le> i \<and> i \<le> hi"
  by (cases v) (auto simp: int_argument_def split: if_splits)

lemma read_range_Inr:
  assumes "read_range args = Inr (start, hi)"
  shows "1 \<le> start \<and> start \<le> hi \<and> hi - start < max_read_lines"
proof -
  obtain s where s: "int_argument (dget_or args ''start_line'' (JInt 1)) 1 1000000000 = Inr s"
    using assms by (auto simp: read_range_def rbind_def split: sum.splits)
  obtain h where h: "(if dget args ''end_line'' \<noteq> JNull then int_argument (dget args ''end_line'') s 1000000000
            else Inr (s + max_read_lines - 1)) = Inr h"
    using assms s by (auto simp: read_range_def rbind_def split: sum.splits)
  have "(start, hi) = (s, h) \<and> h - s < max_read_lines"
    using assms unfolding read_range_def s rbind_def sum.case h by (auto split: if_splits)
  moreover have "s \<le> h" using h by (auto dest: int_argument_Inr split: if_splits simp: max_read_lines_def)
  ultimately show ?thesis using int_argument_Inr [OF s] by simp
qed

text \<open>
  C33. A page of a file: what read_file returns is a run of whole lines of a text file inside the
  workspace, from the first requested line on and within the limits of lines and characters, no
  component of whose path is sensitive or a link; its metadata say where the page ends and whether
  lines follow. A page that has a line to start with is not empty unless that line alone exceeds the
  limit, so that reading on at the line after the last one reaches the end of the file.
\<close>

theorem read_file_pages:
  assumes "read_file E args = Inr a" and "tr_ok a"
  shows "\<exists>p m bytes start hi k.
     prefix (re_root E) p \<and> canonical (re_fs E) p \<and> \<not> is_sensitive_path (drop (length (re_root E)) p)
     \<and> node_at (re_fs E) p = Some (File m bytes) \<and> utf8_valid bytes
     \<and> read_range args = Inr (start, hi) \<and> int k \<le> hi - start + 1 \<and> hi - start + 1 \<le> 1000
     \<and> tr_content a = lines_text (take k (drop (nat (start - 1)) (text_lines bytes)))
     \<and> py_len (tr_content a) < 65536
     \<and> dget (tr_metadata a) ''end_line'' = JInt (start + int k - 1)
     \<and> dget (tr_metadata a) ''has_more_after'' = JBool (start + int k - 1 < int (length (text_lines bytes)))
     \<and> (start \<le> int (length (text_lines bytes)) \<and> py_len (text_lines bytes ! nat (start - 1)) < 65536 \<longrightarrow> 0 < k)"
proof -
  have r: "rbind (relative_argument (dget args ''path'') True) (\<lambda>rel.
      if has_link_component (re_fs E) (re_root E) (path_parts rel) then Inr (tool_failure ''link'' ''path_rejected'')
      else rbind (guard_resolve (re_fs E) (ho_links (re_host E)) (re_root E) True rel) (\<lambda>p.
        if \<not> path_exists (re_host E) p then Inr (tool_failure rel ''not_found'')
        else if is_link (re_fs E) p \<or> \<not> is_file (re_fs E) p then Inr (tool_failure ''not a file'' ''unsupported_file_type'')
        else read_open_file E args p)) = Inr a"
    by (rule rhandle_Inr [where ok = tr_ok, OF assms(1) [unfolded read_file_def] handlers_fail(3) assms(2)])
  then obtain rel where "relative_argument (dget args ''path'') True = Inr rel" by (auto simp: rbind_def split: sum.splits)
  with r obtain p where g: "guard_resolve (re_fs E) (ho_links (re_host E)) (re_root E) True rel = Inr p"
    and o: "read_open_file E args p = Inr a"
    using assms(2) by (auto simp: rbind_def tool_failure_def split: sum.splits if_splits)
  then obtain m bytes where f: "node_at (re_fs E) p = Some (File m bytes)" and fb: "file_bytes E p = Inr bytes"
    by (auto simp: read_open_file_def file_bytes_def rbind_def split: sum.splits option.splits node.splits)
  then obtain start hi where rr: "read_range args = Inr (start, hi)" and v: "utf8_valid bytes" and a: "a = read_answer E args p bytes start hi"
    using o assms(2) by (auto simp: read_open_file_def rbind_def tool_failure_def utf8_decode_def split: sum.splits if_splits simp del: utf8_valid.simps)
  note range = read_range_Inr [OF rr]
  let ?ls = "text_lines bytes"
  obtain k where k: "page_of start hi ?ls = take k (drop (nat (start - 1)) ?ls)" "k = length (page_of start hi ?ls)" "int k \<le> max 0 (hi - start + 1)"
    using page_prefix [of start hi ?ls] by blast
  have w: "lw_selected (window_loop start hi 1 ?ls empty_window) = take k (drop (nat (start - 1)) ?ls)"
    using window_page [of start hi ?ls] range k(1) by simp
  have len: "length (take k (drop (nat (start - 1)) ?ls)) = k" using k by simp
  have content: "tr_content a = lines_text (take k (drop (nat (start - 1)) ?ls))"
    and stopped: "dget (tr_metadata a) ''end_line'' = JInt (start + int k - 1)"
    and later: "dget (tr_metadata a) ''has_more_after'' = JBool (start + int k - 1 < int (length ?ls))"
    unfolding a read_answer_def Let_def w len by (simp_all add: tool_success_def dget_or_def)
  have "int (py_len (tr_content a)) < 65536" using page_chars [of start hi ?ls] content k(1) by (simp add: max_output_chars_def)
  moreover have "start \<le> int (length ?ls) \<and> py_len (?ls ! nat (start - 1)) < 65536 \<longrightarrow> 0 < k"
    using page_advances [of start hi ?ls] range k(2) by (auto simp: max_output_chars_def)
  moreover have "prefix (re_root E) p \<and> canonical (re_fs E) p \<and> \<not> is_sensitive_path (drop (length (re_root E)) p)"
    using guard_resolve_Inr [OF g] by simp
  moreover have "int k \<le> hi - start + 1" "hi - start + 1 \<le> 1000" using k(3) range by (simp_all add: max_read_lines_def)
  ultimately show ?thesis using f v rr content stopped later by (intro exI [of _ p] exI [of _ m] exI [of _ bytes] exI [of _ start] exI [of _ hi] exI [of _ k]) simp
qed

definition page_fs :: fs where
  "page_fs p = (if p = [''ws''] then Some Dir
     else if p = [''ws'', ''a.py''] then Some (File 420 (''x'' @ [CHR 0x0D, CHR 0x0A] @ ''y'' @ [CHR 0x0A] @ ''z''))
     else if p = [''ws'', ''.env''] then Some (File 420 ''k'')
     else if p = [''ws'', ''out''] then Some (Link ''/etc'')
     else if p = [''ws'', ''loop''] then Some (Link ''loop'') else None)"

definition page_env :: "string list \<Rightarrow> read_env" where
  "page_env names = \<lparr>re_host = \<lparr>ho_fs = page_fs, ho_links = 5, ho_stat = (\<lambda>p. \<lparr>ri_device = 0, ri_inode = 0, ri_mode = 0, ri_size = 0, ri_mtime = 0\<rparr>), ho_home = (\<lambda>u. None)\<rparr>,
     re_root = [''ws''], re_names = (\<lambda>p. Inr names), re_open = (\<lambda>p. Inr ()), re_mode = RedactName, re_sha = id\<rparr>"

definition page_arguments :: dict where
  "page_arguments = [(''path'', JStr ''./a.py''), (''start_line'', JInt 2)]"

lemma page_run: "case read_file (page_env []) page_arguments of Inl e \<Rightarrow> False
    | Inr a \<Rightarrow> tr_ok a \<and> tr_content a = ''y'' @ [CHR 0x0A] @ ''z'' \<and> dget (tr_metadata a) ''has_more_after'' = JBool False"
  by code_simp

theorem read_file_pages_witness:
  "\<exists>a p m bytes. read_file (page_env []) page_arguments = Inr a \<and> tr_content a = ''y'' @ [CHR 0x0A] @ ''z''
     \<and> prefix [''ws''] p \<and> node_at page_fs p = Some (File m bytes) \<and> utf8_valid bytes"
proof -
  obtain a where a: "read_file (page_env []) page_arguments = Inr a" "tr_ok a" "tr_content a = ''y'' @ [CHR 0x0A] @ ''z''"
    using page_run by (auto split: sum.splits)
  obtain p m bytes where "prefix (re_root (page_env [])) p" "node_at (re_fs (page_env [])) p = Some (File m bytes)" "utf8_valid bytes"
    using read_file_pages [OF a(1,2)] by blast
  with a show ?thesis by (auto simp: page_env_def simp del: utf8_valid.simps)
qed

section \<open>What a listing shows\<close>

text \<open>The line an entry contributes, if it does.\<close>

definition shown_line :: "read_env \<Rightarrow> path \<Rightarrow> string \<Rightarrow> string list" where
  "shown_line E p n = (case listing_item E (p @ [n]) of Inr (Some t) \<Rightarrow> [t] | _ \<Rightarrow> [])"

lemma list_rows_run:
  "list_rows E p rows ns = Inr (rs, limited) \<Longrightarrow> int (length rows) \<le> max_entries \<Longrightarrow>
    \<exists>j. j \<le> length ns \<and> rs = rows @ concat (map (shown_line E p) (take j ns)) \<and> (limited \<longleftrightarrow> j < length ns) \<and> int (length rs) \<le> max_entries"
proof (induction ns arbitrary: rows)
  case Nil
  then show ?case by simp
next
  case (Cons n ns)
  show ?case
  proof (cases "max_entries \<le> int (length rows)")
    case True
    then show ?thesis using Cons.prems by (intro exI [of _ 0]) auto
  next
    case False
    then obtain r where r: "listing_item E (p @ [n]) = Inr r"
      and run: "list_rows E p (case r of None \<Rightarrow> rows | Some t \<Rightarrow> rows @ [t]) ns = Inr (rs, limited)"
      using Cons.prems(1) by (auto simp: rbind_eq_Inr)
    have rows: "(case r of None \<Rightarrow> rows | Some t \<Rightarrow> rows @ [t]) = rows @ shown_line E p n"
      using r by (cases r) (simp_all add: shown_line_def)
    have "int (length (rows @ shown_line E p n)) \<le> max_entries"
      using False r by (cases r) (simp_all add: shown_line_def)
    from Cons.IH [OF run [unfolded rows] this] obtain j where "j \<le> length ns"
      "rs = (rows @ shown_line E p n) @ concat (map (shown_line E p) (take j ns))" "limited \<longleftrightarrow> j < length ns" "int (length rs) \<le> max_entries"
      by blast
    then show ?thesis by (intro exI [of _ "Suc j"]) simp
  qed
qed

lemma shown_inside: "t \<in> set (shown_line E p n) \<Longrightarrow>
    (\<exists>r. resolve_path (re_host E) (p @ [n]) = Inr r \<and> prefix (re_root E) r)
    \<and> (re_mode E \<noteq> ShowMarked \<and> sensitive_label [n] \<noteq> None \<longrightarrow> (\<exists>label. t = ''<sensitive file hidden>'' @ blocked_text label))"
  by (auto simp: shown_line_def listing_item_def rbind_def is_relative_to_def relative_to_def Let_def
      split: sum.splits option.splits if_splits listing_mode.splits)

lemma directory_inside: "directory_of E v = Inr (p, rel) \<Longrightarrow> prefix (re_root E) p"
  by (auto simp: directory_of_def rbind_eq_Inr split: if_splits dest!: guard_resolve_Inr)

text \<open>
  What list_dir shows: the entries of one directory of the workspace, directories first and then by
  name, all of them unless the answer says that it is truncated, and never more than a thousand; an
  entry that leads outside of the workspace is not shown, and where sensitive names are not to be
  shown their lines do not name them.
\<close>

theorem list_dir_shows_inside:
  assumes "list_dir E args = Inr a" and "tr_ok a"
  shows "\<exists>p ns j. prefix (re_root E) p \<and> re_names E p = Inr ns \<and> (\<not> tr_truncated a \<longrightarrow> j = length ns)
     \<and> (let shown = take j (sort_key (entry_key E p) ns); rows = concat (map (shown_line E p) shown) in
         tr_content a = fst (trim_output (lines_text rows)) \<and> length rows \<le> 1000
         \<and> (\<forall>n \<in> set shown. \<forall>t \<in> set (shown_line E p n).
             (\<exists>r. resolve_path (re_host E) (p @ [n]) = Inr r \<and> prefix (re_root E) r)
             \<and> (re_mode E \<noteq> ShowMarked \<and> sensitive_label [n] \<noteq> None \<longrightarrow> (\<exists>label. t = ''<sensitive file hidden>'' @ blocked_text label))))"
proof -
  have "rbind (directory_of E (dget_or args ''path'' (JStr ''.''))) (\<lambda>(p, rel).
      rbind (sorted_names E p) (\<lambda>ns.
      rbind (list_rows E p [] ns) (\<lambda>(rows, limited). Inr (list_answer rel rows limited)))) = Inr a"
    by (rule rhandle_Inr [where ok = tr_ok, OF assms(1) [unfolded list_dir_def] handlers_fail(1) assms(2)])
  then obtain p rel ns rows limited where d: "directory_of E (dget_or args ''path'' (JStr ''.'')) = Inr (p, rel)"
    and n: "re_names E p = Inr ns" and l: "list_rows E p [] (sort_key (entry_key E p) ns) = Inr (rows, limited)"
    and a: "a = list_answer rel rows limited"
    by (auto simp: rbind_eq_Inr sorted_names_def)
  obtain j where j: "j \<le> length ns" "rows = concat (map (shown_line E p) (take j (sort_key (entry_key E p) ns)))"
      "limited \<longleftrightarrow> j < length ns" "int (length rows) \<le> max_entries"
    using list_rows_run [OF l] by (auto simp: max_entries_def)
  have content: "tr_content a = fst (trim_output (lines_text rows))" and t: "\<not> tr_truncated a \<longrightarrow> j = length ns"
    using a j(1,3) by (auto simp: list_answer_def tool_success_def split: prod.splits)
  show ?thesis
    using directory_inside [OF d] n t content j(2,4) shown_inside
    by (intro exI [of _ p] exI [of _ ns] exI [of _ j]) (auto simp: Let_def max_entries_def)
qed

lemma listing_run: "case list_dir (page_env [''out'', ''.env'', ''a.py'']) [] of Inl e \<Rightarrow> False
    | Inr a \<Rightarrow> tr_ok a \<and> \<not> tr_truncated a \<and> tr_content a = ''<sensitive file hidden> [sensitive, content blocked]'' @ [CHR 0x0A] @ ''a.py''"
  by code_simp

theorem list_dir_shows_inside_witness:
  "\<exists>a p ns. list_dir (page_env [''out'', ''.env'', ''a.py'']) [] = Inr a
     \<and> tr_content a = ''<sensitive file hidden> [sensitive, content blocked]'' @ [CHR 0x0A] @ ''a.py''
     \<and> prefix [''ws''] p \<and> re_names (page_env [''out'', ''.env'', ''a.py'']) p = Inr ns
     \<and> tr_content a = fst (trim_output (lines_text (concat (map (shown_line (page_env [''out'', ''.env'', ''a.py'']) p)
         (sort_key (entry_key (page_env [''out'', ''.env'', ''a.py'']) p) ns)))))"
proof -
  let ?E = "page_env [''out'', ''.env'', ''a.py'']"
  obtain a where a: "list_dir ?E [] = Inr a" "tr_ok a" "\<not> tr_truncated a"
      "tr_content a = ''<sensitive file hidden> [sensitive, content blocked]'' @ [CHR 0x0A] @ ''a.py''"
    using listing_run by (auto split: sum.splits)
  obtain p ns where "prefix (re_root ?E) p" "re_names ?E p = Inr ns"
      "tr_content a = fst (trim_output (lines_text (concat (map (shown_line ?E p) (take (length ns) (sort_key (entry_key ?E p) ns))))))"
    using list_dir_shows_inside [OF a(1,2)] a(3) by (auto simp: Let_def)
  with a show ?thesis by (auto simp: page_env_def)
qed

text \<open>
  A link to itself breaks the listing of its directory: the loop is found while the link is resolved,
  and the exception is none of those that the listing of an entry or the tool handles.
\<close>

theorem link_loop_breaks_listing:
  "list_dir (page_env [''a.py'', ''loop'']) [] = Inl (Exn RuntimeError ''symlink loop'')
   \<and> show_tree (page_env [''a.py'', ''loop'']) [] = Inl (Exn RuntimeError ''symlink loop'')"
  by code_simp

section \<open>The size of a tree\<close>

lemma tree_loop_bounded:
  assumes "\<And>n q u u'. walk n q u = Inr u' \<Longrightarrow> int (length (tv_lines u)) \<le> max_entries \<Longrightarrow> int (length (tv_lines u')) \<le> max_entries"
  shows "tree_loop walk dirs pre es v = Inr v' \<Longrightarrow> int (length (tv_lines v)) \<le> max_entries \<Longrightarrow> int (length (tv_lines v')) \<le> max_entries"
proof (induction es arbitrary: v)
  case (Cons e es)
  obtain n t where e: "e = (n, t)" by (cases e)
  show ?case
  proof (cases "max_entries \<le> int (length (tv_lines v))")
    case True
    then show ?thesis using Cons.prems by (auto simp: e)
  next
    case False
    let ?v = "v\<lparr>tv_lines := tv_lines v @ [pre @ (if es = [] then ''`-- '' else ''|-- '') @ t]\<rparr>"
    obtain w where w: "(if dirs n then walk n (pre @ (if es = [] then ''    '' else ''|   '')) ?v else Inr ?v) = Inr w"
      and run: "tree_loop walk dirs pre es w = Inr v'"
      using Cons.prems(1) False unfolding e tree_loop.simps Let_def by (auto simp: rbind_eq_Inr)
    have "int (length (tv_lines ?v)) \<le> max_entries" using False by simp
    then have "int (length (tv_lines w)) \<le> max_entries"
      using w assms [of n _ ?v w] by (auto split: if_splits)
    then show ?thesis by (rule Cons.IH [OF run])
  qed
qed simp

lemma tree_walk_bounded:
  "tree_walk depth E p pre v = Inr v' \<Longrightarrow> int (length (tv_lines v)) \<le> max_entries \<Longrightarrow> int (length (tv_lines v')) \<le> max_entries"
proof (induction depth arbitrary: p pre v v')
  case (Suc depth)
  show ?case
  proof (cases "tv_limited v")
    case True
    then show ?thesis using Suc.prems by simp
  next
    case False
    then show ?thesis using Suc.prems
      by (auto split: sum.splits if_splits intro: tree_loop_bounded [where walk = "\<lambda>n. tree_walk depth E (p @ [n])", OF Suc.IH])
  qed
qed simp

end
