(* ===== verification/Repository_Search.thy ===== *)
theory Repository_Search
  imports Repository_Reads Json_Reader
begin

text \<open>
  \<^verbatim>\<open>runtime/repository_search.py\<close> and the search tools of \<^verbatim>\<open>tools/fs_read.py\<close>: a search by ripgrep
  with fixed arguments, its output read in records up to a limit. The process is the sequence of what
  its reader sees, and how it ended. Ripgrep reports paths below its argument, without \<^verbatim>\<open>..\<close> components.
\<close>

section \<open>Reading the output of the process\<close>

text \<open>
  One turn of the loop: the deadline has passed, nothing came before it (and the process has ended or
  not), or a chunk came, empty at the end of the output.
\<close>

datatype rg_event = RgDeadline | RgIdle bool | RgChunk "char list"

record rg_process =
  rp_events :: "rg_event list"
  rp_exit :: "int option"
  rp_stderr :: "char list"

record rg_reader =
  gr_records :: "char list list"
  gr_buffer :: "char list"
  gr_total :: int
  gr_stopped :: bool

definition max_raw_output :: int where "max_raw_output = 2097152"
definition max_stderr :: nat where "max_stderr = 8192"

definition search_error :: "string \<Rightarrow> exn" where
  "search_error code = Exn RepositorySearchError code"

function drain_records :: "char \<Rightarrow> int \<Rightarrow> char list list \<Rightarrow> char list \<Rightarrow> char list list \<times> char list \<times> bool" where
  "drain_records d limit rs buffer =
     (if d \<notin> set buffer then (rs, buffer, False)
      else let rs' = rs @ [takeWhile (\<lambda>c. c \<noteq> d) buffer]; rest = tl (dropWhile (\<lambda>c. c \<noteq> d) buffer) in
        if limit \<le> int (length rs') then (rs', rest, True) else drain_records d limit rs' rest)"
  by pat_completeness auto
termination
proof (relation "measure (\<lambda>(d, limit, rs, buffer). length buffer)", goal_cases)
  case (2 d limit rs buffer x y)
  then have "dropWhile (\<lambda>c. c \<noteq> d) buffer \<noteq> []" by (auto simp: dropWhile_eq_Nil_conv)
  moreover have "length (dropWhile (\<lambda>c. c \<noteq> d) buffer) \<le> length buffer" by (rule length_dropWhile_le)
  ultimately show ?case using 2 by (cases "dropWhile (\<lambda>c. c \<noteq> d) buffer") auto
qed simp

declare drain_records.simps [simp del]

fun reader_loop :: "char \<Rightarrow> int \<Rightarrow> rg_event list \<Rightarrow> rg_reader \<Rightarrow> rg_reader res" where
  "reader_loop d limit [] g = Inl (search_error ''timed_out'')"
| "reader_loop d limit (RgDeadline # es) g = Inl (search_error ''timed_out'')"
| "reader_loop d limit (RgIdle ended # es) g = (if ended then Inr g else reader_loop d limit es g)"
| "reader_loop d limit (RgChunk c # es) g =
     (if c = [] then Inr g
      else let g1 = g\<lparr>gr_total := gr_total g + int (length c)\<rparr> in
        if max_raw_output < gr_total g1 then Inr (g1\<lparr>gr_stopped := True\<rparr>)
        else case drain_records d limit (gr_records g) (gr_buffer g @ c) of (rs, buffer, full) \<Rightarrow>
          let g2 = g1\<lparr>gr_records := rs, gr_buffer := buffer, gr_stopped := full\<rparr> in
          if full then Inr g2 else reader_loop d limit es g2)"

definition empty_reader :: rg_reader where
  "empty_reader = \<lparr>gr_records = [], gr_buffer = [], gr_total = 0, gr_stopped = False\<rparr>"

text \<open>The records, the exit code, the text of the errors, and whether reading was stopped.\<close>

definition run_records :: "rg_process res \<Rightarrow> char \<Rightarrow> int \<Rightarrow> (char list list \<times> int \<times> string \<times> bool) res" where
  "run_records started d limit =
     (case started of Inl e \<Rightarrow> Inl (if exn_class e = OSError then search_error ''tool_unavailable'' else e)
      | Inr p \<Rightarrow> rbind (reader_loop d limit (rp_events p) empty_reader) (\<lambda>g.
          case rp_exit p of None \<Rightarrow> Inl (search_error ''timed_out'')
          | Some code \<Rightarrow> Inr (if gr_buffer g \<noteq> [] \<and> \<not> gr_stopped g then gr_records g @ [gr_buffer g] else gr_records g,
              code, strip (utf8_replace (take max_stderr (rp_stderr p))), gr_stopped g)))"

section \<open>The service\<close>

record search_env =
  se_host :: host
  se_root :: path
  se_executable :: "string option"
  se_run :: "string list \<Rightarrow> rg_process res"

record search_outcome =
  so_rows :: "string list"
  so_metadata :: dict
  so_truncated :: bool

definition search_input :: "search_env \<Rightarrow> string \<Rightarrow> path res" where
  "search_input E v =
     (if is_abs v \<or> ''..'' \<in> set (path_parts v) \<or> CHR 0x00 \<in> set v then Inl (search_error ''path_rejected'')
      else case guard_resolve (ho_fs (se_host E)) (ho_links (se_host E)) (se_root E) True v of
        Inl e \<Rightarrow> Inl (if exn_class e \<in> {OSError, PathGuardError} then search_error ''path_rejected'' else e)
      | Inr p \<Rightarrow>
          if \<not> path_exists (se_host E) p then Inl (search_error ''not_found'')
          else if has_link_component (ho_fs (se_host E)) (se_root E) (path_parts v) then Inl (search_error ''path_rejected'')
          else Inr p)"

definition relative_text :: "search_env \<Rightarrow> path \<Rightarrow> string" where
  "relative_text E p = posix_text (drop (length (se_root E)) p)"

text \<open>A reported path, or none if it is not inside the workspace, sensitive, or reached by a link.\<close>

definition safe_result_path :: "search_env \<Rightarrow> string \<Rightarrow> string option res" where
  "safe_result_path E v = (case guard_resolve (ho_fs (se_host E)) (ho_links (se_host E)) (se_root E) False v of
     Inl e \<Rightarrow> if exn_class e \<in> {OSError, ValueError, PathGuardError} then Inr None else Inl e
   | Inr p \<Rightarrow> Inr (if is_sensitive_path (drop (length (se_root E)) p)
        \<or> has_link_component (ho_fs (se_host E)) (if is_abs v then [] else se_root E) (path_parts v)
        then None else Some (relative_text E p)))"

definition require_executable :: "search_env \<Rightarrow> string res" where
  "require_executable E = (case se_executable E of None \<Rightarrow> Inl (search_error ''tool_unavailable'') | Some x \<Rightarrow> Inr x)"

definition glob_arguments :: "string list \<Rightarrow> string list \<Rightarrow> string list" where
  "glob_arguments incl excl = concat (map (\<lambda>p. [''--glob'', p]) incl) @ concat (map (\<lambda>p. [''--glob'', CHR ''!'' # p]) excl)"

section \<open>Finding files\<close>

definition path_of_record :: "search_env \<Rightarrow> char list \<Rightarrow> string list res" where
  "path_of_record E raw =
     (if raw = [] then Inr []
      else if \<not> utf8_valid raw then Inl (search_error ''internal_error'')
      else rbind (safe_result_path E raw) (\<lambda>r. Inr (case r of None \<Rightarrow> [] | Some t \<Rightarrow> [t])))"

definition cut_reason :: "bool \<Rightarrow> json" where
  "cut_reason truncated = (if truncated then JStr ''max_results'' else JNull)"

definition find_outcome :: "string \<Rightarrow> string list \<Rightarrow> bool \<Rightarrow> int \<Rightarrow> search_outcome" where
  "find_outcome root rows stopped limit =
     (let found = sort (remdups rows); truncated = (stopped \<or> limit < int (length found)); kept = take (nat limit) found in
      \<lparr>so_rows = kept, so_metadata = [(''file_count'', JInt (int (length kept))), (''limit_reason'', cut_reason truncated),
         (''search_root'', JStr root)], so_truncated = truncated\<rparr>)"

definition find_files :: "search_env \<Rightarrow> string \<Rightarrow> string list \<Rightarrow> string list \<Rightarrow> bool \<Rightarrow> int \<Rightarrow> search_outcome res" where
  "find_files E path incl excl hidden limit =
     rbind (search_input E path) (\<lambda>root. rbind (require_executable E) (\<lambda>rg.
     rbind (run_records (se_run E ([rg, ''--files'', ''--null'', ''--no-config'', ''--no-follow''] @ glob_arguments incl excl
         @ (if hidden then [''--hidden''] else []) @ [relative_text E root])) (CHR 0x00) (limit + 1)) (\<lambda>(records, code, err, stopped).
     if code \<notin> {0, 1} \<and> \<not> stopped then Inl (search_error ''command_failed'')
     else rbind (rmap (path_of_record E) records) (\<lambda>rows.
       Inr (find_outcome (relative_text E root) (concat rows) stopped limit)))))"

section \<open>Searching text\<close>

text \<open>\<^verbatim>\<open>message.get("type") in {...}\<close>: only texts can be in the set, and lists and dictionaries cannot be looked up.\<close>

definition message_kind :: "json \<Rightarrow> string option res" where
  "message_kind m = (case m of
     JObj d \<Rightarrow> (case dget d ''type'' of
         JStr t \<Rightarrow> Inr (if t \<in> {''match'', ''context''} then Some t else None)
       | JArr xs \<Rightarrow> Inl (Exn TypeError ''unhashable'') | JObj b \<Rightarrow> Inl (Exn TypeError ''unhashable'') | _ \<Rightarrow> Inr None)
   | _ \<Rightarrow> Inl (Exn AttributeError ''get''))"

definition item_of :: "json \<Rightarrow> string \<Rightarrow> json res" where
  "item_of v k = (case v of JObj d \<Rightarrow> dindex d k | _ \<Rightarrow> Inl (Exn TypeError ''subscript''))"

definition json_text :: "json \<Rightarrow> string res" where
  "json_text v = (case v of JObj d \<Rightarrow> (case dget d ''text'' of JStr s \<Rightarrow> Inr s | _ \<Rightarrow> Inl (Exn ValueError ''text''))
     | _ \<Rightarrow> Inl (Exn AttributeError ''get''))"

definition strip_breaks :: "string \<Rightarrow> string" where
  "strip_breaks s = rev (dropWhile (\<lambda>c. c \<in> {CHR 0x0D, CHR 0x0A}) (rev s))"

definition match_column :: "json \<Rightarrow> int res" where
  "match_column v = (if \<not> truthy v then Inr 1
     else case v of
       JArr (x # xs) \<Rightarrow> rbind (item_of x ''start'') (\<lambda>s. rbind (py_int s) (\<lambda>i. Inr (i + 1)))
     | JObj d \<Rightarrow> Inl (Exn KeyError ''0'')
     | _ \<Rightarrow> Inl (Exn TypeError ''subscript''))"

text \<open>A message that is a match or its context: its kind, path, line, line number and column.\<close>

definition parse_message :: "search_env \<Rightarrow> char list \<Rightarrow> (string \<times> string option \<times> string \<times> int \<times> int) option res" where
  "parse_message E raw =
     rbind (utf8_decode raw) (\<lambda>s.
     rbind (case loads s of None \<Rightarrow> Inl (Exn JSONDecodeError ''json'') | Some m \<Rightarrow> Inr m) (\<lambda>m.
     rbind (message_kind m) (\<lambda>kind. case kind of None \<Rightarrow> Inr None
     | Some t \<Rightarrow>
         rbind (item_of m ''data'') (\<lambda>d.
         rbind (rbind (item_of d ''path'') json_text) (\<lambda>p.
         rbind (safe_result_path E p) (\<lambda>relative.
         rbind (rbind (item_of d ''lines'') json_text) (\<lambda>l.
         rbind (py_int (jor (case d of JObj b \<Rightarrow> dget b ''line_number'' | _ \<Rightarrow> JNull) (JInt 0))) (\<lambda>number.
         rbind (match_column (case d of JObj b \<Rightarrow> dget b ''submatches'' | _ \<Rightarrow> JNull)) (\<lambda>column.
         Inr (Some (t, relative, strip_breaks l, number, column)))))))))))"

definition parse_errors :: "exn_class set" where
  "parse_errors = {KeyError, TypeError, ValueError, UnicodeDecodeError, PathGuardError, JSONDecodeError}"

definition message_row :: "search_env \<Rightarrow> char list \<Rightarrow> (string \<times> string \<times> string) option res" where
  "message_row E raw =
     (if raw = [] then Inr None
      else case parse_message E raw of
        Inl e \<Rightarrow> Inl (if exn_class e \<in> parse_errors then search_error ''internal_error'' else e)
      | Inr None \<Rightarrow> Inr None
      | Inr (Some (t, relative, line, number, column)) \<Rightarrow> Inr (case relative of None \<Rightarrow> None
          | Some p \<Rightarrow> Some (t, p, (if t = ''match'' then ''>'' else ''-'') @ '' '' @ p @ '':'' @ show_int number @ '':'' @ show_int column @ '': '' @ line)))"

definition case_argument :: "string \<Rightarrow> string res" where
  "case_argument c = (if c = ''sensitive'' then Inr ''--case-sensitive'' else if c = ''insensitive'' then Inr ''--ignore-case''
     else if c = ''smart'' then Inr ''--smart-case'' else Inl (Exn KeyError c))"

definition search_arguments :: "string \<Rightarrow> string \<Rightarrow> string \<Rightarrow> string \<Rightarrow> string \<Rightarrow> string list \<Rightarrow> string list \<Rightarrow> bool \<Rightarrow> int \<Rightarrow> string list" where
  "search_arguments rg query root mode case_flag incl excl hidden context_lines =
     [rg, ''--json'', ''--no-config'', ''--no-follow''] @ (if mode = ''literal'' then [''--fixed-strings''] else []) @ [case_flag]
     @ glob_arguments incl excl @ (if hidden then [''--hidden''] else [])
     @ (if context_lines \<noteq> 0 then [''--context'', show_int context_lines] else []) @ [''--'', query, root]"

definition text_outcome :: "string \<Rightarrow> string \<Rightarrow> string \<Rightarrow> (string \<times> string \<times> string) list \<Rightarrow> bool \<Rightarrow> int \<Rightarrow> search_outcome" where
  "text_outcome root mode cs rows stopped limit =
     (let truncated = (stopped \<or> limit < int (length rows)); kept = take (nat limit) (map (\<lambda>(t, p, r). r) rows) in
      \<lparr>so_rows = kept,
       so_metadata = [(''match_count'', JInt (int (length (filter (starts_with ''> '') kept)))),
         (''files_with_matches'', JInt (int (length (remdups (map (\<lambda>(t, p, r). p) (filter (\<lambda>(t, p, r). t = ''match'') rows)))))),
         (''limit_reason'', cut_reason truncated), (''search_root'', JStr root), (''mode'', JStr mode), (''case'', JStr cs)],
       so_truncated = truncated\<rparr>)"

definition search_text ::
  "search_env \<Rightarrow> string \<Rightarrow> string \<Rightarrow> string \<Rightarrow> string \<Rightarrow> string list \<Rightarrow> string list \<Rightarrow> bool \<Rightarrow> int \<Rightarrow> int \<Rightarrow> search_outcome res" where
  "search_text E query path mode word_case incl excl hidden context_lines limit =
     rbind (search_input E path) (\<lambda>root. rbind (require_executable E) (\<lambda>rg. rbind (case_argument word_case) (\<lambda>case_flag.
     rbind (run_records (se_run E (search_arguments rg query (relative_text E root) mode case_flag incl excl hidden context_lines))
         (CHR 0x0A) (limit * (2 * context_lines + 4) + 100)) (\<lambda>(records, code, err, stopped).
     if code \<notin> {0, 1} \<and> \<not> stopped
     then Inl (search_error (if contains_str ''regex parse error'' (lower err) then ''invalid_arguments'' else ''command_failed''))
     else rbind (rmap (message_row E) records) (\<lambda>rows.
       Inr (text_outcome (relative_text E root) mode word_case (concat (map (\<lambda>r. case r of None \<Rightarrow> [] | Some x \<Rightarrow> [x]) rows)) stopped limit))))))"

section \<open>The tools\<close>

definition choice_argument :: "json \<Rightarrow> string list \<Rightarrow> string res" where
  "choice_argument v allowed = (case v of JStr s \<Rightarrow> if s \<in> set allowed then Inr s else Inl (Exn ValueError ''choice'')
     | _ \<Rightarrow> Inl (Exn ValueError ''choice''))"

definition boolean_argument :: "json \<Rightarrow> bool res" where
  "boolean_argument v = (case v of JBool b \<Rightarrow> Inr b | _ \<Rightarrow> Inl (Exn TypeError ''boolean''))"

definition pattern_ok :: "string \<Rightarrow> bool" where
  "pattern_ok p = (p \<noteq> [] \<and> py_len p \<le> 256 \<and> CHR 0x00 \<notin> set p \<and> \<not> is_abs p \<and> ''..'' \<notin> set (path_parts p))"

definition patterns_argument :: "json \<Rightarrow> string list res" where
  "patterns_argument v = (case v of
     JArr xs \<Rightarrow>
       if 20 < length xs \<or> \<not> list_all (\<lambda>x. as_str x \<noteq> None) xs then Inl (Exn TypeError ''patterns'')
       else let ps = map (\<lambda>x. the (as_str x)) xs in if list_all pattern_ok ps then Inr ps else Inl (Exn ValueError ''glob'')
   | _ \<Rightarrow> Inl (Exn TypeError ''patterns''))"

definition query_argument :: "json \<Rightarrow> string res" where
  "query_argument v = (case v of JStr s \<Rightarrow> if 1 \<le> py_len s \<and> int (py_len s) \<le> 4096 then Inr s else Inl (Exn ValueError ''query'')
     | _ \<Rightarrow> Inl (Exn ValueError ''query''))"

definition outcome_result :: "search_outcome \<Rightarrow> tool_result" where
  "outcome_result x = (case trim_output (lines_text (so_rows x)) of (content, short) \<Rightarrow>
     (tool_success content (if short then dset ''limit_reason'' (JStr ''output_bytes'') (so_metadata x) else so_metadata x))
       \<lparr>tr_truncated := so_truncated x \<or> short\<rparr>)"

definition search_handler :: "exn \<Rightarrow> tool_result res" where
  "search_handler e =
     (if exn_class e = RepositorySearchError then Inr (tool_failure ''search'' (exn_code e))
      else if exn_class e \<in> {TypeError, ValueError, UnicodeDecodeError, PathGuardError} then Inr (tool_failure (exn_code e) ''invalid_arguments'')
      else Inl e)"

definition query_notes :: "string \<Rightarrow> string \<Rightarrow> dict" where
  "query_notes query mode = [(''query'', JStr query), (''query_mode'', JStr mode), (''query_interpretation'',
     JStr (if mode = ''literal'' then ''exact literal text; regex metacharacters are not interpreted'' else ''ripgrep regular expression''))]"

definition search_tool :: "search_env \<Rightarrow> dict \<Rightarrow> tool_result res" where
  "search_tool E args = rhandle
     (rbind (query_argument (dget args ''query'')) (\<lambda>query.
      rbind (choice_argument (dget_or args ''mode'' (JStr ''literal'')) [''literal'', ''regex'']) (\<lambda>mode.
      rbind (relative_argument (dget_or args ''path'' (JStr ''.'')) False) (\<lambda>path.
      rbind (choice_argument (dget_or args ''case'' (JStr ''smart'')) [''sensitive'', ''insensitive'', ''smart'']) (\<lambda>word_case.
      rbind (patterns_argument (dget_or args ''include'' (JArr []))) (\<lambda>incl.
      rbind (patterns_argument (dget_or args ''exclude'' (JArr []))) (\<lambda>excl.
      rbind (boolean_argument (dget_or args ''include_hidden'' (JBool False))) (\<lambda>hidden.
      rbind (int_argument (dget_or args ''context_lines'' (JInt 0)) 0 3) (\<lambda>context_lines.
      rbind (int_argument (dget_or args ''max_results'' (JInt 100)) 1 200) (\<lambda>limit.
      rbind (search_text E query path mode word_case incl excl hidden context_lines limit) (\<lambda>x.
      let r = outcome_result x in Inr (r\<lparr>tr_metadata := dmerge (tr_metadata r) (query_notes query mode)\<rparr>))))))))))))
     search_handler"

definition find_tool :: "search_env \<Rightarrow> dict \<Rightarrow> tool_result res" where
  "find_tool E args = rhandle
     (rbind (relative_argument (dget_or args ''path'' (JStr ''.'')) False) (\<lambda>path.
      rbind (patterns_argument (dget_or args ''include'' (JArr []))) (\<lambda>incl.
      rbind (patterns_argument (dget_or args ''exclude'' (JArr []))) (\<lambda>excl.
      rbind (boolean_argument (dget_or args ''include_hidden'' (JBool False))) (\<lambda>hidden.
      rbind (int_argument (dget_or args ''max_results'' (JInt 200)) 1 1000) (\<lambda>limit.
      rbind (find_files E path incl excl hidden limit) (\<lambda>x. Inr (outcome_result x))))))))
     search_handler"

section \<open>The records do not depend on the chunks\<close>

text \<open>What is read of a whole output: its complete records, and the rest if there is one.\<close>

definition whole_records :: "char \<Rightarrow> int \<Rightarrow> char list \<Rightarrow> char list list \<times> bool" where
  "whole_records d limit s = (let rs = split_on d s in
     if limit \<le> int (length (butlast rs)) then (take (nat limit) rs, True)
     else (if last rs = [] then butlast rs else rs, False))"

lemma split_on_first: "d \<in> set s \<Longrightarrow> split_on d s = takeWhile (\<lambda>c. c \<noteq> d) s # split_on d (tl (dropWhile (\<lambda>c. c \<noteq> d) s))"
  by (induction s) auto

lemma split_on_append: "split_on d (s @ t) = butlast (split_on d s) @ split_on d (last (split_on d s) @ t)"
proof (induction s)
  case (Cons c s)
  have ne: "split_on d u \<noteq> []" for u by simp
  show ?case
  proof (cases "c = d")
    case True
    then show ?thesis using Cons ne by simp
  next
    case False
    obtain x xs where x: "split_on d s = x # xs" by (cases "split_on d s") (simp_all add: ne)
    show ?thesis
    proof (cases xs)
      case Nil
      then show ?thesis using Cons x False by (simp split: list.splits)
    next
      case (Cons y ys)
      then show ?thesis using Cons.IH x False by simp
    qed
  qed
qed simp

lemma drain_fits:
  "int (length rs) + int (length (butlast (split_on d buffer))) < limit \<Longrightarrow>
     drain_records d limit rs buffer = (rs @ butlast (split_on d buffer), last (split_on d buffer), False)"
proof (induction d limit rs buffer rule: drain_records.induct)
  case (1 d limit rs buffer)
  show ?case
  proof (cases "d \<in> set buffer")
    case False
    then show ?thesis by (simp add: drain_records.simps split_on_plain)
  next
    case True
    let ?rest = "tl (dropWhile (\<lambda>c. c \<noteq> d) buffer)" and ?r = "takeWhile (\<lambda>c. c \<noteq> d) buffer"
    have sp: "split_on d buffer = ?r # split_on d ?rest" by (rule split_on_first [OF True])
    have room: "\<not> limit \<le> int (length (rs @ [?r]))" "int (length (rs @ [?r])) + int (length (butlast (split_on d ?rest))) < limit"
      using "1.prems" unfolding sp by (simp_all del: length_butlast)
    have "drain_records d limit (rs @ [?r]) ?rest = ((rs @ [?r]) @ butlast (split_on d ?rest), last (split_on d ?rest), False)"
      using "1.IH" [OF _ refl refl room(1) room(2)] True by simp
    moreover have "drain_records d limit rs buffer = drain_records d limit (rs @ [?r]) ?rest"
      using True room(1) by (subst drain_records.simps) (simp add: Let_def)
    ultimately show ?thesis unfolding sp by simp
  qed
qed

lemma drain_full:
  "int (length rs) < limit \<Longrightarrow> limit \<le> int (length rs) + int (length (butlast (split_on d buffer))) \<Longrightarrow>
     \<exists>rest. drain_records d limit rs buffer = (rs @ take (nat limit - length rs) (split_on d buffer), rest, True)"
proof (induction d limit rs buffer rule: drain_records.induct)
  case (1 d limit rs buffer)
  have d: "d \<in> set buffer" using "1.prems" by (cases "d \<in> set buffer") (simp_all add: split_on_plain)
  let ?rest = "tl (dropWhile (\<lambda>c. c \<noteq> d) buffer)" and ?r = "takeWhile (\<lambda>c. c \<noteq> d) buffer"
  have sp: "split_on d buffer = ?r # split_on d ?rest" by (rule split_on_first [OF d])
  have n: "nat limit - length rs = Suc (nat limit - Suc (length rs))" using "1.prems"(1) by linarith
  show ?case
  proof (cases "limit \<le> int (length (rs @ [?r]))")
    case True
    then have "nat limit - Suc (length rs) = 0" by simp
    then show ?thesis using True d unfolding n sp by (subst drain_records.simps) (simp add: Let_def)
  next
    case False
    have "limit \<le> int (length (rs @ [?r])) + int (length (butlast (split_on d ?rest)))"
      using "1.prems"(2) unfolding sp by (simp del: length_butlast)
    then obtain rest where "drain_records d limit (rs @ [?r]) ?rest = ((rs @ [?r]) @ take (nat limit - length (rs @ [?r])) (split_on d ?rest), rest, True)"
      using "1.IH" [OF _ refl refl False] False d by (auto simp del: length_butlast)
    moreover have "drain_records d limit rs buffer = drain_records d limit (rs @ [?r]) ?rest"
      using d False by (subst drain_records.simps) (simp add: Let_def)
    ultimately show ?thesis unfolding n sp by simp
  qed
qed

text \<open>A reader that has read \<open>s\<close> and was not stopped.\<close>

definition has_read :: "char \<Rightarrow> int \<Rightarrow> char list \<Rightarrow> rg_reader \<Rightarrow> bool" where
  "has_read d limit s g \<longleftrightarrow> gr_records g = butlast (split_on d s) \<and> gr_buffer g = last (split_on d s)
     \<and> gr_total g = int (length s) \<and> \<not> gr_stopped g \<and> int (length (gr_records g)) < limit"

lemma butlast_append_split: "butlast (butlast xs @ split_on d t) = butlast xs @ butlast (split_on d t)"
  by (simp add: butlast_append)

lemma reader_loop_chunks:
  assumes "has_read d limit s g" and "[] \<notin> set cs" and "int (length (s @ concat cs)) \<le> max_raw_output"
  shows "\<exists>g'. reader_loop d limit (map RgChunk cs @ [RgChunk []]) g = Inr g' \<and>
     (let whole = split_on d (s @ concat cs) in
      if limit \<le> int (length (butlast whole)) then gr_records g' = take (nat limit) whole \<and> gr_stopped g'
      else gr_records g' = butlast whole \<and> gr_buffer g' = last whole \<and> \<not> gr_stopped g')"
  using assms
proof (induction cs arbitrary: s g)
  case Nil
  then have "butlast (split_on d s) = gr_records g" "last (split_on d s) = gr_buffer g" "\<not> gr_stopped g" "int (length (gr_records g)) < limit"
    unfolding has_read_def by metis+
  then show ?case unfolding Let_def by (simp del: length_butlast)
next
  case (Cons c cs)
  let ?g1 = "g\<lparr>gr_total := gr_total g + int (length c)\<rparr>"
  have c: "c \<noteq> []" and small: "\<not> max_raw_output < gr_total ?g1" using Cons.prems by (auto simp: has_read_def)
  have sp: "split_on d (s @ c) = gr_records g @ split_on d (gr_buffer g @ c)"
    using Cons.prems(1) split_on_append [of d s c] by (simp add: has_read_def)
  show ?case
  proof (cases "limit \<le> int (length (gr_records g)) + int (length (butlast (split_on d (gr_buffer g @ c))))")
    case True
    have lt: "int (length (gr_records g)) < limit" using Cons.prems(1) unfolding has_read_def by blast
    obtain rest where dr: "drain_records d limit (gr_records g) (gr_buffer g @ c)
        = (gr_records g @ take (nat limit - length (gr_records g)) (split_on d (gr_buffer g @ c)), rest, True)"
      using drain_full [OF lt True] by blast
    have more: "split_on d (s @ c @ concat cs) = butlast (split_on d (s @ c)) @ split_on d (last (split_on d (s @ c)) @ concat cs)"
      using split_on_append [of d "s @ c" "concat cs"] by simp
    have b: "limit \<le> int (length (butlast (split_on d (s @ c))))" using True sp by (simp add: butlast_append)
    have whole: "limit \<le> int (length (butlast (split_on d (s @ c @ concat cs))))"
      using b unfolding more butlast_append_split by simp
    have "take (nat limit) (split_on d (s @ c @ concat cs)) = take (nat limit) (butlast (split_on d (s @ c)))"
      using b unfolding more by simp
    also have "\<dots> = take (nat limit) (split_on d (s @ c))" using b by (simp add: butlast_conv_take min_absorb1)
    also have "\<dots> = gr_records g @ take (nat limit - length (gr_records g)) (split_on d (gr_buffer g @ c))"
      using lt unfolding sp by simp
    finally have rec: "take (nat limit) (split_on d (s @ c @ concat cs)) = gr_records g @ take (nat limit - length (gr_records g)) (split_on d (gr_buffer g @ c))" .
    show ?thesis using c small dr whole rec by (simp add: Let_def)
  next
    case False
    then have dr: "drain_records d limit (gr_records g) (gr_buffer g @ c)
        = (gr_records g @ butlast (split_on d (gr_buffer g @ c)), last (split_on d (gr_buffer g @ c)), False)"
      by (intro drain_fits) simp
    let ?g2 = "?g1\<lparr>gr_records := gr_records g @ butlast (split_on d (gr_buffer g @ c)), gr_buffer := last (split_on d (gr_buffer g @ c)), gr_stopped := False\<rparr>"
    have "has_read d limit (s @ c) ?g2"
      using Cons.prems(1) False sp by (simp add: has_read_def butlast_append)
    from Cons.IH [OF this] Cons.prems(2,3) show ?thesis using c small dr by (simp add: Let_def)
  qed
qed

text \<open>
  C35. The records of a search do not depend on the chunks in which the output arrives: if the output is
  within the limit of bytes, they are those of the whole output, cut off at the limit of records.
\<close>

theorem records_ignore_chunks:
  assumes "rp_events p = map RgChunk cs @ [RgChunk []]" and "[] \<notin> set cs" and "int (length (concat cs)) \<le> 2097152"
    and "0 < limit" and "rp_exit p = Some code"
  shows "run_records (Inr p) d limit = Inr (fst (whole_records d limit (concat cs)), code,
     strip (utf8_replace (take max_stderr (rp_stderr p))), snd (whole_records d limit (concat cs)))"
proof -
  have "has_read d limit [] empty_reader" using assms(4) by (simp add: has_read_def empty_reader_def)
  from reader_loop_chunks [OF this assms(2)] assms(3) obtain g where
    g: "reader_loop d limit (rp_events p) empty_reader = Inr g" and
    r: "if limit \<le> int (length (butlast (split_on d (concat cs)))) then gr_records g = take (nat limit) (split_on d (concat cs)) \<and> gr_stopped g
      else gr_records g = butlast (split_on d (concat cs)) \<and> gr_buffer g = last (split_on d (concat cs)) \<and> \<not> gr_stopped g"
    unfolding assms(1) by (auto simp: Let_def max_raw_output_def)
  have "split_on d (concat cs) = butlast (split_on d (concat cs)) @ [last (split_on d (concat cs))]" by simp
  then show ?thesis using g r assms(5) by (auto simp: run_records_def rbind_def whole_records_def Let_def split: if_splits)
qed

theorem records_ignore_chunks_witness:
  "run_records (Inr \<lparr>rp_events = [RgChunk ''ab'', RgChunk ''c;d'', RgChunk []], rp_exit = Some 0, rp_stderr = []\<rparr>) CHR '';'' 5
     = Inr ([''abc'', ''d''], 0, [], False)"
proof -
  have "whole_records CHR '';'' 5 (concat [''ab'', ''c;d'']) = ([''abc'', ''d''], False)" by code_simp
  moreover have "strip (utf8_replace (take max_stderr [])) = []" by (simp add: strip_def utf8_replace.simps)
  ultimately show ?thesis
    using records_ignore_chunks [of "\<lparr>rp_events = [RgChunk ''ab'', RgChunk ''c;d'', RgChunk []], rp_exit = Some 0, rp_stderr = []\<rparr>"
        "[''ab'', ''c;d'']" 5 0 "CHR '';''"] by simp
qed

section \<open>What a search shows\<close>










end
