(* ===== verification/Git_Worktree.thy ===== *)
theory Git_Worktree
  imports Host_Paths Session_Store Event_File Git_Status
begin

text \<open>
  \<^verbatim>\<open>workspace/git_worktree.py\<close>: creating, recovering, inspecting and removing the worktree of a session.
  Git and the file system are what they answer at each tick; the calls are recorded. Git prints
  absolute paths.
\<close>

section \<open>The manager\<close>

record worktree_env =
  we_root :: path
  we_host :: "nat \<Rightarrow> host"
  we_git :: "nat \<Rightarrow> path \<Rightarrow> string list \<Rightarrow> process_result res"
  we_mkdir :: "nat \<Rightarrow> unit res"

record worktree_state =
  wt_clock :: nat
  wt_calls :: "(path \<times> string list) list"

type_synonym 'a worktree_prog = "(worktree_state, 'a) prog"

definition wt_tick :: "nat worktree_prog" where
  "wt_tick = (\<lambda>s. (Inr (wt_clock s), s\<lparr>wt_clock := Suc (wt_clock s)\<rparr>))"

definition worktree_error :: "string \<Rightarrow> exn" where
  "worktree_error why = Exn GitWorktreeError why"

text \<open>\<^verbatim>\<open>_git\<close>: the output, or else the errors, without the space around it.\<close>

definition git_answer :: "process_result res \<Rightarrow> string res" where
  "git_answer call = (case call of
     Inl e \<Rightarrow> Inl (if exn_class e \<in> {OSError, FileNotFoundError, SubprocessError} then worktree_error ''git call'' else e)
   | Inr (rc, out, err) \<Rightarrow> rbind (utf8_decode out) (\<lambda>o1. rbind (utf8_decode err) (\<lambda>e1.
       if rc \<noteq> 0 then Inl (worktree_error ''git'') else Inr (strip (if o1 = [] then e1 else o1)))))"

definition wt_git :: "worktree_env \<Rightarrow> path \<Rightarrow> string list \<Rightarrow> string worktree_prog" where
  "wt_git V cwd args = bnd wt_tick (\<lambda>n.
     seq_then (modify (\<lambda>s. s\<lparr>wt_calls := wt_calls s @ [(cwd, args)]\<rparr>)) (lift (git_answer (we_git V n cwd args))))"

definition wt_resolve :: "worktree_env \<Rightarrow> path \<Rightarrow> path worktree_prog" where
  "wt_resolve V p = bnd wt_tick (\<lambda>n. lift (resolve_path (we_host V n) p))"

definition wt_exists :: "worktree_env \<Rightarrow> path \<Rightarrow> bool worktree_prog" where
  "wt_exists V p = bnd wt_tick (\<lambda>n. ret (path_exists (we_host V n) p))"

definition wt_is_dir :: "worktree_env \<Rightarrow> path \<Rightarrow> bool worktree_prog" where
  "wt_is_dir V p = bnd wt_tick (\<lambda>n. ret (path_is_dir (we_host V n) p))"

definition worktrees_root :: "worktree_env \<Rightarrow> path" where
  "worktrees_root V = we_root V @ [''worktrees'']"

definition ensure_managed :: "worktree_env \<Rightarrow> path \<Rightarrow> unit res" where
  "ensure_managed V p = (if is_relative_to p (worktrees_root V) then Inr () else Inl (worktree_error ''not managed''))"

definition status_call :: "string list" where
  "status_call = [''status'', ''--porcelain'', ''--untracked-files=all'']"

definition add_call :: "path \<Rightarrow> string \<Rightarrow> string list" where
  "add_call active commit = [''worktree'', ''add'', ''--detach'', path_text active, commit]"

definition remove_call :: "bool \<Rightarrow> path \<Rightarrow> string list" where
  "remove_call forced p = [''worktree'', ''remove''] @ (if forced then [''--force''] else []) @ [path_text p]"

definition managed_context :: "path \<Rightarrow> path \<Rightarrow> string \<Rightarrow> int \<Rightarrow> workspace_context" where
  "managed_context source active commit revision = \<lparr>source_root = path_text source, active_root = path_text active,
     workspace_kind = ''git_worktree'', base_commit = Some commit, workspace_revision = revision\<rparr>"

section \<open>Recovering and creating\<close>

text \<open>\<^verbatim>\<open>base_commit or actual_commit\<close>: an empty commit is none.\<close>

definition recover_worktree :: "worktree_env \<Rightarrow> path \<Rightarrow> path \<Rightarrow> int \<Rightarrow> string \<Rightarrow> workspace_context worktree_prog" where
  "recover_worktree V source0 active0 revision base =
     bnd (wt_resolve V source0) (\<lambda>source. bnd (wt_resolve V active0) (\<lambda>active.
     seq_then (lift (ensure_managed V active))
     (bnd (wt_is_dir V active) (\<lambda>there.
      if \<not> there then raise (worktree_error ''missing'')
      else bnd (wt_git V active [''rev-parse'', ''HEAD'']) (\<lambda>actual.
        if base \<noteq> [] \<and> actual \<noteq> base then raise (worktree_error ''head'')
        else ret (managed_context source active (if base = [] then actual else base) revision))))))"

definition worktree_name :: "string \<Rightarrow> int \<Rightarrow> string" where
  "worktree_name session revision = session @ ''-r'' @ show_int revision"

definition worktree_path :: "worktree_env \<Rightarrow> string \<Rightarrow> path" where
  "worktree_path V name = (if is_abs name then path_parts name else worktrees_root V @ path_parts name)"

text \<open>The worktree is added; if that fails, what was made of it is removed, without force.\<close>

definition undo_add :: "worktree_env \<Rightarrow> path \<Rightarrow> path \<Rightarrow> exn \<Rightarrow> 'a worktree_prog" where
  "undo_add V source active e =
     (if exn_class e \<noteq> GitWorktreeError then raise e
      else seq_then (try_catch
         (bnd (wt_exists V active) (\<lambda>there. if there then seq_then (wt_git V source (remove_call False active)) (ret ()) else ret ()))
         (\<lambda>d. if exn_class d = GitWorktreeError then raise (worktree_error ''partial worktree'') else raise d))
       (raise e))"

definition add_worktree :: "worktree_env \<Rightarrow> path \<Rightarrow> path \<Rightarrow> string \<Rightarrow> unit worktree_prog" where
  "add_worktree V source active commit =
     bnd wt_tick (\<lambda>n. seq_then (lift (we_mkdir V n))
       (try_catch (seq_then (wt_git V source (add_call active commit)) (ret ())) (undo_add V source active)))"

definition create_worktree :: "worktree_env \<Rightarrow> path \<Rightarrow> string \<Rightarrow> int \<Rightarrow> workspace_context worktree_prog" where
  "create_worktree V source0 session revision =
     bnd (wt_resolve V source0) (\<lambda>source.
     bnd (wt_git V source [''rev-parse'', ''--show-toplevel'']) (\<lambda>top_dir. bnd (wt_resolve V (path_parts top_dir)) (\<lambda>repo.
     if repo \<noteq> source then raise (worktree_error ''not the root'')
     else bnd (wt_git V source status_call) (\<lambda>dirty.
       if dirty \<noteq> [] then raise (worktree_error ''dirty'')
       else bnd (wt_git V source [''rev-parse'', ''HEAD'']) (\<lambda>base.
         bnd (wt_resolve V (worktree_path V (worktree_name session revision))) (\<lambda>active.
         bnd (wt_exists V active) (\<lambda>there.
         if there then recover_worktree V source active revision base
         else seq_then (add_worktree V source active base) (ret (managed_context source active base revision)))))))))"

section \<open>Inspecting\<close>

datatype worktree_status = WtRecoveryRequired | WtReady | WtSourceDirty | WtStale | WtDirty | WtCandidateChanges | WtMissing
  | WtCompleted | WtDiscarded

record worktree_report =
  wr_status :: worktree_status
  wr_source_head :: "string option"
  wr_worktree_head :: "string option"
  wr_source_dirty :: bool
  wr_worktree_dirty :: bool
  wr_registered :: bool
  wr_reason :: string

definition wr_executable :: "worktree_report \<Rightarrow> bool" where
  "wr_executable r = (wr_status r \<in> {WtReady, WtCandidateChanges})"

definition bare_report :: "worktree_status \<Rightarrow> string \<Rightarrow> worktree_report" where
  "bare_report st why = \<lparr>wr_status = st, wr_source_head = None, wr_worktree_head = None, wr_source_dirty = False,
     wr_worktree_dirty = False, wr_registered = False, wr_reason = why\<rparr>"

fun resolve_lines :: "host \<Rightarrow> string list \<Rightarrow> path list res" where
  "resolve_lines h [] = Inr []"
| "resolve_lines h (l # ls) = (if starts_with ''worktree '' l
     then rbind (resolve_path h (path_parts (drop 9 l))) (\<lambda>p. rbind (resolve_lines h ls) (\<lambda>ps. Inr (p # ps)))
     else resolve_lines h ls)"

definition registered_worktrees :: "worktree_env \<Rightarrow> path \<Rightarrow> path list worktree_prog" where
  "registered_worktrees V source = bnd (wt_git V source [''worktree'', ''list'', ''--porcelain'']) (\<lambda>text_out.
     bnd wt_tick (\<lambda>n. lift (resolve_lines (we_host V n) (splitlines text_out))))"

text \<open>What Git says about a session whose directories are there: a report, or the two heads and whether they are dirty.\<close>

definition observe_worktree :: "worktree_env \<Rightarrow> path \<Rightarrow> path \<Rightarrow> (worktree_report + string \<times> string \<times> bool \<times> bool) worktree_prog" where
  "observe_worktree V source active =
     bnd (wt_git V source [''rev-parse'', ''--show-toplevel'']) (\<lambda>top_dir. bnd (wt_resolve V (path_parts top_dir)) (\<lambda>repo.
     if repo \<noteq> source then ret (Inl (bare_report WtMissing ''not the recorded repository''))
     else bnd (registered_worktrees V source) (\<lambda>known.
       if active \<notin> set known then ret (Inl (bare_report WtMissing ''not registered''))
       else bnd (wt_git V source [''rev-parse'', ''HEAD'']) (\<lambda>source_head.
         bnd (wt_git V active [''rev-parse'', ''HEAD'']) (\<lambda>worktree_head.
         bnd (wt_git V source status_call) (\<lambda>source_status.
         bnd (wt_git V active status_call) (\<lambda>worktree_status_text.
         ret (Inr (source_head, worktree_head, source_status \<noteq> [], worktree_status_text \<noteq> [])))))))))"

definition judge_worktree :: "workspace_context \<Rightarrow> bool \<Rightarrow> bool \<Rightarrow> string \<times> string \<times> bool \<times> bool \<Rightarrow> worktree_report" where
  "judge_worktree ctx candidate_changes allow_source_changes seen = (case seen of (sh, wh, sd, wd) \<Rightarrow>
     let report = (\<lambda>st why. \<lparr>wr_status = st, wr_source_head = Some sh, wr_worktree_head = Some wh, wr_source_dirty = sd,
        wr_worktree_dirty = wd, wr_registered = True, wr_reason = why\<rparr>) in
     if sd \<and> \<not> allow_source_changes then report WtSourceDirty ''source dirty''
     else if Some wh \<noteq> base_commit ctx \<or> (Some sh \<noteq> base_commit ctx \<and> \<not> allow_source_changes) then report WtStale ''head''
     else if wd then (if \<not> candidate_changes then report WtDirty ''worktree dirty'' else report WtCandidateChanges ''changes'')
     else report WtReady ''ready'')"

definition inspect_worktree :: "worktree_env \<Rightarrow> workspace_context \<Rightarrow> bool \<Rightarrow> bool \<Rightarrow> bool \<Rightarrow> worktree_report worktree_prog" where
  "inspect_worktree V ctx candidate_changes recovery_required allow_source_changes =
     (if recovery_required then ret (bare_report WtRecoveryRequired ''recovery'')
      else let source = path_parts (source_root ctx); active = path_parts (active_root ctx) in
        bnd (if workspace_kind ctx \<noteq> ''git_worktree'' then ret False
             else bnd (wt_is_dir V source) (\<lambda>a. if \<not> a then ret False else wt_is_dir V active)) (\<lambda>there.
        if \<not> there then ret (bare_report WtMissing ''missing'')
        else bnd (try_catch (observe_worktree V source active)
            (\<lambda>e. if exn_class e = GitWorktreeError then ret (Inl (bare_report WtMissing (exn_code e))) else raise e)) (\<lambda>seen.
          ret (case seen of Inl r \<Rightarrow> r | Inr x \<Rightarrow> judge_worktree ctx candidate_changes allow_source_changes x))))"

section \<open>Removing\<close>

definition remove_worktree :: "worktree_env \<Rightarrow> workspace_context \<Rightarrow> bool \<Rightarrow> unit worktree_prog" where
  "remove_worktree V ctx forced = (let active = path_parts (active_root ctx) in
     seq_then (lift (ensure_managed V active))
     (seq_then (wt_git V (path_parts (source_root ctx)) (remove_call forced active))
     (bnd (wt_exists V active) (\<lambda>there. if there then raise (worktree_error ''not removed'') else ret ()))))"

definition cleanup_worktree :: "worktree_env \<Rightarrow> workspace_context \<Rightarrow> unit worktree_prog" where
  "cleanup_worktree V ctx = (if workspace_kind ctx \<noteq> ''git_worktree'' then ret () else remove_worktree V ctx False)"

definition discard_worktree :: "worktree_env \<Rightarrow> workspace_context \<Rightarrow> unit worktree_prog" where
  "discard_worktree V ctx = (if workspace_kind ctx \<noteq> ''git_worktree'' then raise (worktree_error ''no worktree'') else remove_worktree V ctx True)"


section \<open>Lemmas\<close>

text \<open>Every step that looks at Git or the host takes one tick; only a Git call is recorded.\<close>

lemma wt_git_run [simp]: "wt_git V cwd args s =
    (git_answer (we_git V (wt_clock s) cwd args), s\<lparr>wt_clock := Suc (wt_clock s), wt_calls := wt_calls s @ [(cwd, args)]\<rparr>)"
  by (simp add: wt_git_def wt_tick_def bnd_def seq_then_def modify_def lift_def)

lemma wt_resolve_run [simp]: "wt_resolve V p s = (resolve_path (we_host V (wt_clock s)) p, s\<lparr>wt_clock := Suc (wt_clock s)\<rparr>)"
  by (simp add: wt_resolve_def wt_tick_def bnd_def lift_def)

lemma wt_exists_run [simp]: "wt_exists V p s = (Inr (path_exists (we_host V (wt_clock s)) p), s\<lparr>wt_clock := Suc (wt_clock s)\<rparr>)"
  by (simp add: wt_exists_def wt_tick_def bnd_def ret_def)

lemma wt_is_dir_run [simp]: "wt_is_dir V p s = (Inr (path_is_dir (we_host V (wt_clock s)) p), s\<lparr>wt_clock := Suc (wt_clock s)\<rparr>)"
  by (simp add: wt_is_dir_def wt_tick_def bnd_def ret_def)

lemma registered_run [simp]: "registered_worktrees V source s =
    (rbind (git_answer (we_git V (wt_clock s) source [''worktree'', ''list'', ''--porcelain'']))
       (\<lambda>x. resolve_lines (we_host V (Suc (wt_clock s))) (splitlines x)),
     snd (registered_worktrees V source s))"
  by (auto simp: registered_worktrees_def bnd_def wt_tick_def lift_def split: sum.splits)

lemma registered_effect: "registered_worktrees V source s = (Inr known, t) \<Longrightarrow>
    wt_clock t = wt_clock s + 2 \<and> (\<exists>listing. git_answer (we_git V (wt_clock s) source [''worktree'', ''list'', ''--porcelain'']) = Inr listing
      \<and> resolve_lines (we_host V (Suc (wt_clock s))) (splitlines listing) = Inr known)"
  by (auto simp: registered_worktrees_def bnd_def wt_tick_def lift_def split: sum.splits)

declare registered_run [simp del]

lemma observe_worktree_effect:
  assumes "observe_worktree V source active s = (Inr (Inr (sh, wh, sd, wd)), t)"
  defines "n \<equiv> wt_clock s"
  shows "\<exists>top_dir listing known st ws. git_answer (we_git V n source [''rev-parse'', ''--show-toplevel'']) = Inr top_dir
    \<and> resolve_path (we_host V (n + 1)) (path_parts top_dir) = Inr source
    \<and> git_answer (we_git V (n + 2) source [''worktree'', ''list'', ''--porcelain'']) = Inr listing
    \<and> resolve_lines (we_host V (n + 3)) (splitlines listing) = Inr known \<and> active \<in> set known
    \<and> git_answer (we_git V (n + 4) source [''rev-parse'', ''HEAD'']) = Inr sh
    \<and> git_answer (we_git V (n + 5) active [''rev-parse'', ''HEAD'']) = Inr wh
    \<and> git_answer (we_git V (n + 6) source status_call) = Inr st \<and> sd = (st \<noteq> [])
    \<and> git_answer (we_git V (n + 7) active status_call) = Inr ws \<and> wd = (ws \<noteq> [])"
  using assms(1) unfolding observe_worktree_def n_def
  by (auto simp: bnd_eq_Inr ret_def numeral_eq_Suc split: if_splits dest!: registered_effect)

lemma registered_line: "resolve_lines h ls = Inr ps \<Longrightarrow> p \<in> set ps \<Longrightarrow>
    \<exists>l\<in>set ls. starts_with ''worktree '' l \<and> resolve_path h (path_parts (drop 9 l)) = Inr p"
  by (induction ls arbitrary: ps) (auto simp: rbind_eq_Inr split: if_splits)

lemma observe_worktree_report: "observe_worktree V source active s = (Inr (Inl r), t) \<Longrightarrow> \<not> wr_executable r"
  unfolding observe_worktree_def
  by (auto simp: bnd_eq_Inr ret_def bare_report_def wr_executable_def split: if_splits)

lemma judge_worktree_executable:
  assumes "wr_executable (judge_worktree ctx cc allow (sh, wh, sd, wd))"
  shows "base_commit ctx = Some wh" "\<not> allow \<Longrightarrow> \<not> sd \<and> Some sh = base_commit ctx" "wd \<Longrightarrow> cc"
    "wr_status (judge_worktree ctx cc allow (sh, wh, sd, wd)) = (if wd then WtCandidateChanges else WtReady)"
  using assms by (auto simp: judge_worktree_def wr_executable_def Let_def split: if_splits)

definition worktree_seen :: "worktree_env \<Rightarrow> nat \<Rightarrow> workspace_context \<Rightarrow> string \<Rightarrow> string \<Rightarrow> string \<Rightarrow> bool" where
  "worktree_seen V n ctx sh st ws = (let source = path_parts (source_root ctx); active = path_parts (active_root ctx) in
     path_is_dir (we_host V n) source \<and> path_is_dir (we_host V (n + 1)) active
     \<and> (case git_answer (we_git V (n + 2) source [''rev-parse'', ''--show-toplevel'']) of
          Inr top_dir \<Rightarrow> resolve_path (we_host V (n + 3)) (path_parts top_dir) = Inr source | Inl _ \<Rightarrow> False)
     \<and> (case git_answer (we_git V (n + 4) source [''worktree'', ''list'', ''--porcelain'']) of
          Inr listing \<Rightarrow> list_ex (\<lambda>l. starts_with ''worktree '' l
            \<and> resolve_path (we_host V (n + 5)) (path_parts (drop 9 l)) = Inr active) (splitlines listing) | Inl _ \<Rightarrow> False)
     \<and> git_answer (we_git V (n + 6) source [''rev-parse'', ''HEAD'']) = Inr sh
     \<and> (case git_answer (we_git V (n + 7) active [''rev-parse'', ''HEAD'']) of
          Inr wh \<Rightarrow> base_commit ctx = Some wh | Inl _ \<Rightarrow> False)
     \<and> git_answer (we_git V (n + 8) source status_call) = Inr st
     \<and> git_answer (we_git V (n + 9) active status_call) = Inr ws)"

lemma inspect_executable:
  assumes "inspect_worktree V ctx cc rr allow s = (Inr r, t)" "wr_executable r"
  shows "\<not> rr" "workspace_kind ctx = ''git_worktree''"
    "\<exists>sh st ws. worktree_seen V (wt_clock s) ctx sh st ws \<and> (\<not> allow \<longrightarrow> st = [] \<and> base_commit ctx = Some sh)
       \<and> (ws \<noteq> [] \<longrightarrow> cc) \<and> wr_status r = (if ws = [] then WtReady else WtCandidateChanges)"
proof -
  let ?src = "path_parts (source_root ctx)" and ?act = "path_parts (active_root ctx)" and ?n = "wt_clock s"
  let ?t = "s\<lparr>wt_clock := ?n + 2\<rparr>"
  show rr: "\<not> rr" using assms by (auto simp: inspect_worktree_def bare_report_def wr_executable_def ret_def)
  show kind: "workspace_kind ctx = ''git_worktree''"
    using assms rr by (auto simp: inspect_worktree_def bare_report_def wr_executable_def ret_def bnd_eq_Inr Let_def split: if_splits)
  have dirs: "path_is_dir (we_host V ?n) ?src" "path_is_dir (we_host V (?n + 1)) ?act"
    using assms rr kind by (auto simp: inspect_worktree_def bare_report_def wr_executable_def ret_def bnd_eq_Inr Let_def split: if_splits)
  obtain q t' where q: "observe_worktree V ?src ?act ?t = (q, t')" by fastforce
  obtain sh wh sd wd where seen: "q = Inr (Inr (sh, wh, sd, wd))" and r: "r = judge_worktree ctx cc allow (sh, wh, sd, wd)"
    using assms rr kind dirs q observe_worktree_report [of V ?src ?act ?t]
    by (cases q) (auto simp: inspect_worktree_def try_catch_def raise_def ret_def bnd_def Let_def bare_report_def wr_executable_def
        split: if_splits sum.splits)
  note judged = judge_worktree_executable [OF assms(2) [unfolded r]]
  have sd: "allow \<or> \<not> sd \<and> Some sh = base_commit ctx" and wd: "wd \<longrightarrow> cc" using judged(2,3) by blast+
  show "\<exists>sh st ws. worktree_seen V ?n ctx sh st ws \<and> (\<not> allow \<longrightarrow> st = [] \<and> base_commit ctx = Some sh)
      \<and> (ws \<noteq> [] \<longrightarrow> cc) \<and> wr_status r = (if ws = [] then WtReady else WtCandidateChanges)"
    using observe_worktree_effect [OF q [unfolded seen]] judged(1,4) sd wd dirs
    by (auto simp: worktree_seen_def Let_def r list_ex_iff numeral_eq_Suc dest!: registered_line)
qed


lemma undo_add_raises: "fst (undo_add V source active e s) \<in> range Inl"
  by (auto simp: undo_add_def seq_then_def bnd_def raise_def split: sum.splits prod.splits)

lemma add_worktree_effect:
  "add_worktree V source active commit s = (Inr u, t) \<Longrightarrow>
     git_answer (we_git V (Suc (wt_clock s)) source (add_call active commit)) \<in> range Inr"
proof -
  assume run: "add_worktree V source active commit s = (Inr u, t)"
  obtain e where e: "we_mkdir V (wt_clock s) = Inr ()"
    using run by (cases "we_mkdir V (wt_clock s)") (simp_all add: add_worktree_def bnd_def seq_then_def wt_tick_def lift_def)
  show ?thesis
  proof (cases "git_answer (we_git V (Suc (wt_clock s)) source (add_call active commit))")
    case (Inl d)
    then obtain t' where "undo_add V source active d t' = (Inr u, t)"
      using run e by (simp add: add_worktree_def bnd_def seq_then_def wt_tick_def lift_def try_catch_def)
    then show ?thesis using undo_add_raises [of V source active d t'] by (metis fst_conv image_iff Inl_Inr_False)
  qed simp
qed

lemma recover_effect:
  assumes "recover_worktree V source0 active0 revision base s = (Inr ctx, t)"
  defines "n \<equiv> wt_clock s"
  shows "\<exists>source active actual. resolve_path (we_host V n) source0 = Inr source \<and> resolve_path (we_host V (n + 1)) active0 = Inr active
    \<and> is_relative_to active (worktrees_root V) \<and> path_is_dir (we_host V (n + 2)) active
    \<and> git_answer (we_git V (n + 3) active [''rev-parse'', ''HEAD'']) = Inr actual \<and> (base = [] \<or> actual = base)
    \<and> ctx = managed_context source active actual revision"
  using assms(1) unfolding recover_worktree_def n_def
  by (auto simp: bnd_eq_Inr seq_then_eq_Inr ret_def raise_def lift_def ensure_managed_def numeral_eq_Suc split: if_splits)

lemma create_effect:
  assumes "create_worktree V source0 session revision s = (Inr ctx, t)"
  defines "n \<equiv> wt_clock s"
  shows "\<exists>source top_dir base active. resolve_path (we_host V n) source0 = Inr source
    \<and> git_answer (we_git V (n + 1) source [''rev-parse'', ''--show-toplevel'']) = Inr top_dir
    \<and> resolve_path (we_host V (n + 2)) (path_parts top_dir) = Inr source
    \<and> git_answer (we_git V (n + 3) source status_call) = Inr []
    \<and> git_answer (we_git V (n + 4) source [''rev-parse'', ''HEAD'']) = Inr base
    \<and> resolve_path (we_host V (n + 5)) (worktree_path V (worktree_name session revision)) = Inr active
    \<and> (if path_exists (we_host V (n + 6)) active
       then fst (recover_worktree V source active revision base (s\<lparr>wt_calls := wt_calls s @
           [(source, [''rev-parse'', ''--show-toplevel'']), (source, status_call), (source, [''rev-parse'', ''HEAD''])], wt_clock := n + 7\<rparr>)) = Inr ctx
       else ctx = managed_context source active base revision
         \<and> git_answer (we_git V (n + 8) source (add_call active base)) \<in> range Inr)"
proof -
  let ?s = "\<lambda>source. s\<lparr>wt_calls := wt_calls s @
     [(source, [''rev-parse'', ''--show-toplevel'']), (source, status_call), (source, [''rev-parse'', ''HEAD''])], wt_clock := n + 7\<rparr>"
  obtain source top_dir base active where f: "resolve_path (we_host V n) source0 = Inr source"
      "git_answer (we_git V (n + 1) source [''rev-parse'', ''--show-toplevel'']) = Inr top_dir"
      "resolve_path (we_host V (n + 2)) (path_parts top_dir) = Inr source"
      "git_answer (we_git V (n + 3) source status_call) = Inr []"
      "git_answer (we_git V (n + 4) source [''rev-parse'', ''HEAD'']) = Inr base"
      "resolve_path (we_host V (n + 5)) (worktree_path V (worktree_name session revision)) = Inr active"
    and found: "path_exists (we_host V (n + 6)) active \<longrightarrow> recover_worktree V source active revision base (?s source) = (Inr ctx, t)"
    and fresh: "\<not> path_exists (we_host V (n + 6)) active \<longrightarrow>
        seq_then (add_worktree V source active base) (ret (managed_context source active base revision)) (?s source) = (Inr ctx, t)"
    using assms(1) unfolding create_worktree_def n_def
    by (clarsimp simp: bnd_eq_Inr raise_def numeral_eq_Suc split: if_split_asm) blast
  show ?thesis
    using f found fresh by (cases "path_exists (we_host V (n + 6)) active")
      (auto simp: seq_then_eq_Inr ret_def numeral_eq_Suc dest!: add_worktree_effect)
qed

section \<open>A host with one worktree\<close>

definition demo_worktree_host :: host where
  "demo_worktree_host = \<lparr>ho_fs = [[''src''] \<mapsto> Dir, [''run''] \<mapsto> Dir, [''run'', ''worktrees''] \<mapsto> Dir, [''run'', ''worktrees'', ''s-r1''] \<mapsto> Dir],
     ho_links = 40, ho_stat = (\<lambda>p. \<lparr>ri_device = 0, ri_inode = 0, ri_mode = 0, ri_size = 0, ri_mtime = 0\<rparr>), ho_home = (\<lambda>u. None)\<rparr>"

definition demo_worktree_git :: "nat \<Rightarrow> path \<Rightarrow> string list \<Rightarrow> process_result res" where
  "demo_worktree_git n cwd args = Inr (0,
     if args = [''rev-parse'', ''--show-toplevel''] then ''/src'' @ [CHR 0x0A]
     else if args = [''rev-parse'', ''HEAD''] then ''c0ffee'' @ [CHR 0x0A]
     else if args = [''worktree'', ''list'', ''--porcelain''] then ''worktree /run/worktrees/s-r1'' @ [CHR 0x0A] @ ''HEAD c0ffee'' @ [CHR 0x0A]
     else if args = status_call \<and> cwd \<noteq> [''src''] then '' M a.py'' @ [CHR 0x0A] else [], [])"

definition demo_worktree_env :: worktree_env where
  "demo_worktree_env = \<lparr>we_root = [''run''], we_host = (\<lambda>n. demo_worktree_host), we_git = demo_worktree_git, we_mkdir = (\<lambda>n. Inr ())\<rparr>"

definition demo_worktree_state :: worktree_state where
  "demo_worktree_state = \<lparr>wt_clock = 0, wt_calls = []\<rparr>"

section \<open>Properties\<close>

text \<open>
  C36. A session is given a worktree only of the root of a clean repository, pinned to the commit Git named as its head. The place is
  new and Git added it there, or it was there, lies below the root of the worktrees and has that commit as its head.
\<close>

theorem created_worktree_is_pinned:
  assumes "create_worktree V source0 session revision s = (Inr ctx, t)" and "n = wt_clock s"
  shows "\<exists>source top_dir base active. resolve_path (we_host V n) source0 = Inr source
    \<and> git_answer (we_git V (n + 1) source [''rev-parse'', ''--show-toplevel'']) = Inr top_dir
    \<and> resolve_path (we_host V (n + 2)) (path_parts top_dir) = Inr source
    \<and> git_answer (we_git V (n + 3) source status_call) = Inr []
    \<and> git_answer (we_git V (n + 4) source [''rev-parse'', ''HEAD'']) = Inr base
    \<and> resolve_path (we_host V (n + 5)) (worktree_path V (worktree_name session revision)) = Inr active
    \<and> (if path_exists (we_host V (n + 6)) active
       then \<exists>source' active' actual. resolve_path (we_host V (n + 7)) source = Inr source' \<and> resolve_path (we_host V (n + 8)) active = Inr active'
         \<and> is_relative_to active' (worktrees_root V) \<and> path_is_dir (we_host V (n + 9)) active'
         \<and> git_answer (we_git V (n + 10) active' [''rev-parse'', ''HEAD'']) = Inr actual \<and> (base = [] \<or> actual = base)
         \<and> ctx = managed_context source' active' actual revision
       else git_answer (we_git V (n + 8) source (add_call active base)) \<in> range Inr
         \<and> ctx = managed_context source active base revision)"
proof -
  note recovered = recover_effect [OF prod_eqI [of _ "(Inr ctx, _)", simplified]]
  from create_effect [OF assms(1)] show ?thesis
    unfolding assms(2) by (fastforce simp: eval_nat_numeral dest!: recovered split: if_splits)
qed

lemma created_worktree_is_pinned_witness:
  "\<exists>source base. git_answer (we_git demo_worktree_env 3 source status_call) = Inr [] \<and> base = ''c0ffee''
     \<and> git_answer (we_git demo_worktree_env 4 source [''rev-parse'', ''HEAD'']) = Inr base"
proof -
  have run: "fst (create_worktree demo_worktree_env [''src''] ''s'' 1 demo_worktree_state)
      = Inr (managed_context [''src''] [''run'', ''worktrees'', ''s-r1''] ''c0ffee'' 1)" by code_simp
  have src: "resolve_path (we_host demo_worktree_env 0) [''src''] = Inr [''src'']" by code_simp
  have head: "git_answer (we_git demo_worktree_env 4 [''src''] [''rev-parse'', ''HEAD'']) = Inr ''c0ffee''" by code_simp
  obtain t where t: "create_worktree demo_worktree_env [''src''] ''s'' 1 demo_worktree_state
      = (Inr (managed_context [''src''] [''run'', ''worktrees'', ''s-r1''] ''c0ffee'' 1), t)"
    using run by (metis prod.collapse)
  show ?thesis
    using created_worktree_is_pinned [OF t, of 0] src head by (auto simp: demo_worktree_state_def)
qed

text \<open>
  C37. An inspection calls a worktree executable only when both directories are there, Git knows the worktree as one of the source, its head
  is the commit of the session, its changes are those of the session, and the source is clean at the same commit unless that is waived;
  a session that waits for recovery is never executable.
\<close>

theorem executable_worktree_was_checked:
  assumes "inspect_worktree V ctx candidate_changes recovery allow_source_changes s = (Inr r, t)" and "wr_executable r"
  shows "\<not> recovery \<and> workspace_kind ctx = ''git_worktree''
    \<and> (\<exists>sh st ws. worktree_seen V (wt_clock s) ctx sh st ws \<and> (allow_source_changes \<or> st = [] \<and> base_commit ctx = Some sh)
      \<and> (ws = [] \<or> candidate_changes) \<and> wr_status r = (if ws = [] then WtReady else WtCandidateChanges))"
  using inspect_executable [OF assms] by blast

lemma executable_worktree_was_checked_witness:
  "wr_status (judge_worktree (managed_context [''src''] [''run'', ''worktrees'', ''s-r1''] ''c0ffee'' 1) True False
      (''c0ffee'', ''c0ffee'', False, True)) = WtCandidateChanges
    \<and> (\<exists>sh ws. worktree_seen demo_worktree_env 0 (managed_context [''src''] [''run'', ''worktrees'', ''s-r1''] ''c0ffee'' 1) sh [] ws)"
proof -
  let ?ctx = "managed_context [''src''] [''run'', ''worktrees'', ''s-r1''] ''c0ffee'' 1"
  let ?r = "judge_worktree ?ctx True False (''c0ffee'', ''c0ffee'', False, True)"
  have "fst (inspect_worktree demo_worktree_env ?ctx True False False demo_worktree_state) = Inr ?r" by code_simp
  then obtain t where t: "inspect_worktree demo_worktree_env ?ctx True False False demo_worktree_state = (Inr ?r, t)"
    by (metis prod.collapse)
  have st: "wr_status ?r = WtCandidateChanges" by code_simp
  show ?thesis
    using executable_worktree_was_checked [OF t] st by (auto simp: wr_executable_def demo_worktree_state_def)
qed

end
