(* ===== verification/Product_View.thy ===== *)
theory Product_View
  imports Current_Changes Turn_Budget Execution_Supervisor Workspace_Audit
begin

text \<open>
  \<^verbatim>\<open>product/read_model.py\<close> without its timeline: what the product shows of a session, computed from its metadata, its
  log and the state of its worktree, and the actions it offers.
\<close>

section \<open>Changes\<close>

record changes_view =
  cv_state :: string
  cv_available :: bool
  cv_files :: "string list"
  cv_summary :: dict

text \<open>An entry of the status output, of which the first three code points are the status.\<close>

definition entry_file :: "string \<Rightarrow> string" where
  "entry_file entry = (let p = (if 3 < py_len entry then py_drop 3 entry else entry) in
     case cut_at '' -> '' p of None \<Rightarrow> p | Some (a, b) \<Rightarrow> b)"

definition pending_files :: "char list \<Rightarrow> string list" where
  "pending_files out = map entry_file (filter (\<lambda>e. e \<noteq> []) (split_on (CHR 0x00) (utf8_replace out)))"

definition pending_view :: "json \<Rightarrow> string list \<Rightarrow> changes_view" where
  "pending_view ws files = \<lparr>cv_state = ''pending'', cv_available = True, cv_files = sort (remdups files),
     cv_summary = [(''workspaceState'', ws)]\<rparr>"

definition no_changes :: "string \<Rightarrow> changes_view" where
  "no_changes state = \<lparr>cv_state = state, cv_available = False, cv_files = [], cv_summary = []\<rparr>"

definition applied_view :: "dict \<Rightarrow> changes_view" where
  "applied_view d = \<lparr>cv_state = ''applied'', cv_available = truthy (dget d ''available''), cv_files = files_of (dget d ''files''), cv_summary = d\<rparr>"

definition is_delivery :: "session_event \<Rightarrow> bool" where
  "is_delivery e = (ev_type e \<in> {''changes_accepted'', ''changes_discarded''})"

definition latest_delivery :: "session_event list \<Rightarrow> session_event option" where
  "latest_delivery es = find is_delivery (rev es)"

definition delivered_view :: "session_event list \<Rightarrow> changes_view review_prog" where
  "delivered_view es = (let latest = latest_delivery es;
       rest = no_changes (case latest of None \<Rightarrow> ''none''
         | Some e \<Rightarrow> if ev_type e = ''changes_discarded'' then ''discarded'' else ''none'') in
     case latest of None \<Rightarrow> ret rest
     | Some e \<Rightarrow> (let d = dget (ev_payload e) ''delivery_id'' in
         if ev_type e \<noteq> ''changes_accepted'' \<or> \<not> truthy d then ret rest
         else try_catch (bnd (delivery_summary (JStr (py_str d))) (\<lambda>s. ret (applied_view s)))
           (\<lambda>x. if exn_class x = AppliedChangesError then ret rest else raise x)))"

text \<open>The files of the worktree that Git reports, none if it cannot be asked.\<close>

definition worktree_files :: "review_env \<Rightarrow> string list review_prog" where
  "worktree_files V = (if rv_kind V \<noteq> ''git_worktree'' then ret []
     else bnd rv_tick (\<lambda>n. if \<not> is_dir (rv_fs V n) (rv_active V) then ret []
       else try_catch (bnd (rv_call V (rv_active V) status_arguments []) (\<lambda>(rc, out, err).
           ret (if rc = 0 then pending_files out else [])))
         (\<lambda>e. if exn_class e \<in> {OSError, FileNotFoundError, SubprocessError} then ret [] else raise e)))"

definition inspect_changes :: "review_env \<Rightarrow> changes_view review_prog" where
  "inspect_changes V = bnd (in_store read_meta) (\<lambda>meta. bnd (worktree_files V) (\<lambda>files.
     if files \<noteq> [] then ret (pending_view (dget meta ''workspace_state'') files)
     else bnd (in_store read_events) delivered_view))"

section \<open>Validation\<close>

record validation_view =
  vv_command :: json
  vv_passed :: bool
  vv_exit :: json
  vv_duration :: json
  vv_current :: bool

text \<open>\<^verbatim>\<open>v == 0\<close>, which holds of \<^verbatim>\<open>False\<close> as well.\<close>

definition is_zero :: "json \<Rightarrow> bool" where
  "is_zero v = (v \<in> {JInt 0, JBool False, JFloat ''0.0'', JFloat ''-0.0''})"

definition is_validation_run :: "session_event \<Rightarrow> bool" where
  "is_validation_run e = (ev_type e = ''command_completed'' \<and> dget (ev_payload e) ''purpose'' = JStr ''validation'')"

definition run_passed :: "dict \<Rightarrow> bool" where
  "run_passed p = (dget p ''status'' = JStr ''completed'' \<and> is_zero (dget p ''exit_code''))"

definition evidence_of :: "json \<Rightarrow> session_event list \<Rightarrow> dict option" where
  "evidence_of execution es = map_option ev_payload
     (find (\<lambda>e. ev_type e = ''validation_completed'' \<and> dget (ev_payload e) ''execution_id'' = execution) (rev es))"

definition evidence_current :: "dict option \<Rightarrow> int \<Rightarrow> bool res" where
  "evidence_current evidence revision = (case evidence of None \<Rightarrow> Inr False
     | Some p \<Rightarrow> if p = [] then Inr False
         else rbind (py_int (dget_or p ''candidate_revision'' (JInt (-1)))) (\<lambda>r. Inr (r = revision)))"

definition validation_summary :: "session_event list \<Rightarrow> dict \<Rightarrow> validation_view option res" where
  "validation_summary es meta = (case filter is_validation_run es of [] \<Rightarrow> Inr None
     | run # rest \<Rightarrow> (let p = ev_payload (last (run # rest)) in
         rbind (py_int (dget_or meta ''candidate_revision'' (JInt 0))) (\<lambda>revision.
         rbind (evidence_current (evidence_of (dget p ''execution_id'') es) revision) (\<lambda>current.
         Inr (Some \<lparr>vv_command = dget p ''command'', vv_passed = run_passed p, vv_exit = dget p ''exit_code'',
           vv_duration = dget p ''duration_ms'', vv_current = current\<rparr>)))))"

section \<open>Actions\<close>

text \<open>The budget as \<^const>\<open>store_turn_budget\<close> reads it, with the same default.\<close>

definition turn_budget_view :: "dict \<Rightarrow> session_event list \<Rightarrow> turn_budget res" where
  "turn_budget_view meta es = (case as_obj (jor (dget meta ''runtime_options'') (JObj [])) of
       None \<Rightarrow> Inl (Exn AttributeError ''runtime_options'')
     | Some options \<Rightarrow> rbind (py_int (dget_or options ''max_model_steps_per_user_turn'' (JInt 48))) (current_turn_budget es))"

record actions =
  can_run :: bool
  can_continue :: bool
  can_increase_budget :: bool
  can_stop :: bool
  can_resolve_approval :: bool
  can_view_changes :: bool
  can_accept_changes :: bool
  can_discard_changes :: bool

definition has_turn :: "turn_budget \<Rightarrow> bool" where
  "has_turn b = (case tb_turn b of None \<Rightarrow> False | Some t \<Rightarrow> t \<noteq> [])"

definition unfinished :: "turn_budget \<Rightarrow> bool" where
  "unfinished b = (has_turn b \<and> \<not> tb_closed b \<and> \<not> tb_waiting b)"

definition current_pass :: "validation_view option \<Rightarrow> bool" where
  "current_pass v = (case v of None \<Rightarrow> False | Some w \<Rightarrow> vv_passed w \<and> vv_current w)"

definition offered :: "json \<Rightarrow> turn_budget \<Rightarrow> validation_view option \<Rightarrow> changes_view \<Rightarrow> actions" where
  "offered state budget validation changes =
     (let safe = (state \<in> {JStr (ws_value SourceOnly), JStr (ws_value ChangesActive)}) in
      \<lparr>can_run = tb_closed budget, can_continue = (unfinished budget \<and> safe),
       can_increase_budget = (tb_waiting budget \<and> tb_limit budget < max_user_turn_budget \<and> safe),
       can_stop = (\<not> tb_closed budget), can_resolve_approval = False,
       can_view_changes = (cv_available changes \<and> cv_state changes \<in> {''pending'', ''applied''}),
       can_accept_changes = (cv_state changes = ''pending'' \<and> state = JStr (ws_value ChangesActive) \<and> current_pass validation),
       can_discard_changes = (cv_state changes = ''pending'' \<and> state \<in> {JStr (ws_value ChangesActive), JStr (ws_value WorkspaceTainted)})\<rparr>)"

definition available_actions :: "dict \<Rightarrow> session_event list \<Rightarrow> changes_view \<Rightarrow> actions res" where
  "available_actions meta es changes = rbind (validation_summary es meta) (\<lambda>validation.
     rbind (turn_budget_view meta es) (\<lambda>budget. Inr (offered (dget meta ''workspace_state'') budget validation changes)))"

definition accept_reason :: "json \<Rightarrow> changes_view \<Rightarrow> validation_view option \<Rightarrow> string option" where
  "accept_reason state changes validation =
     (if state = JStr (ws_value RecoveryRequired) then Some ''Manual recovery is required before changes can be applied.''
      else if state = JStr (ws_value WorkspaceTainted) then Some ''Unverified changes cannot be applied safely.''
      else if \<not> cv_available changes then Some ''There are no pending changes to apply.''
      else if \<not> current_pass validation
      then Some ''A successful validation command for the current revision is required before changes can be applied.''
      else None)"

definition action_reasons :: "dict \<Rightarrow> changes_view \<Rightarrow> actions \<Rightarrow> validation_view option \<Rightarrow> (string \<times> string) list" where
  "action_reasons meta changes a validation =
     (if can_continue a then [] else [(''canContinue'', ''There is no unfinished request to continue.'')])
     @ (if cv_available changes then [] else [(''canViewChanges'', ''There are no current pending changes.'')])
     @ (if can_accept_changes a then []
        else case accept_reason (dget meta ''workspace_state'') changes validation of None \<Rightarrow> [] | Some why \<Rightarrow> [(''canAcceptChanges'', why)])
     @ (if can_discard_changes a then [] else [(''canDiscardChanges'', ''There are no managed changes that can be discarded.'')])"

definition attention_summary :: "dict \<Rightarrow> session_event list \<Rightarrow> changes_view \<Rightarrow> string res" where
  "attention_summary meta es changes = (let state = dget meta ''workspace_state'' in
     if state = JStr (ws_value RecoveryRequired) then Inr ''Manual recovery required''
     else if state = JStr (ws_value WorkspaceTainted) then Inr ''Changes need attention''
     else rbind (available_actions meta es changes) (\<lambda>a. rbind (turn_budget_view meta es) (\<lambda>budget.
       if tb_waiting budget then Inr ''Step budget reached''
       else if can_continue a then Inr ''Continue available''
       else rbind (validation_summary es meta) (\<lambda>validation. Inr
         (if (case validation of None \<Rightarrow> False | Some w \<Rightarrow> \<not> vv_passed w) then ''Validation failed''
          else if cv_state changes = ''pending'' then ''Changes ready for review''
          else if cv_state changes = ''applied'' then ''Changes applied'' else ''Ready'')))))"

section \<open>Attention and receipts\<close>

record receipt_view =
  rp_kind :: string
  rp_ts :: string

definition delivery_receipt :: "session_event list \<Rightarrow> receipt_view option" where
  "delivery_receipt es = map_option (\<lambda>e. \<lparr>rp_kind = (if ev_type e = ''changes_accepted'' then ''accepted'' else ''discarded''), rp_ts = ev_ts e\<rparr>)
     (latest_delivery es)"

definition latest_of :: "string \<Rightarrow> session_event list \<Rightarrow> session_event option" where
  "latest_of ty es = find (\<lambda>e. ev_type e = ty) (rev es)"

text \<open>What needs attention and the message of it.\<close>

definition global_attention :: "dict \<Rightarrow> session_event list \<Rightarrow> (string \<times> string) option" where
  "global_attention meta es = (let state = dget meta ''workspace_state'' in
     if state = JStr (ws_value RecoveryRequired) then Some (''recovery'', ''Manual recovery required'')
     else if state = JStr (ws_value WorkspaceTainted) then Some (''tainted'', ''Changes need attention'')
     else case latest_of ''turn_terminated'' es of None \<Rightarrow> None
       | Some e \<Rightarrow> (let why = dget (ev_payload e) ''reason'' in
           if why = JStr ''runtime_error''
           then Some (''execution_error'', py_str (jor (dget (ev_payload e) ''message'') (JStr ''The model or Runtime failed'')))
           else if why = JStr ''context_budget_exceeded'' then Some (''context_limit'', ''Runtime could not build a safe model request'')
           else None))"

section \<open>Conversation and activity\<close>

record conversation_item =
  ci_role :: string
  ci_text :: string
  ci_ts :: string
  ci_seq :: "int option"

definition role_of :: "session_event \<Rightarrow> string option" where
  "role_of e = (if ev_type e = ''user_message'' then Some ''user'' else if ev_type e = ''assistant_message'' then Some ''assistant'' else None)"

definition conversation_view :: "session_event list \<Rightarrow> conversation_item list" where
  "conversation_view es = List.map_filter (\<lambda>e. map_option (\<lambda>r. \<lparr>ci_role = r, ci_text = py_str (dget_or (ev_payload e) ''message'' (JStr [])),
     ci_ts = ev_ts e, ci_seq = ev_seq e\<rparr>) (role_of e)) es"

definition bounded :: "string \<Rightarrow> nat \<Rightarrow> string" where
  "bounded v limit = (if py_len v \<le> limit then v else py_take (limit - 3) v @ ''...'')"

definition payload_keys :: "string list" where
  "payload_keys = [''name'', ''command'', ''cwd'', ''purpose'', ''status'', ''exit_code'', ''duration_ms'', ''reason'', ''changed_paths'']"

definition bounded_payload :: "dict \<Rightarrow> dict" where
  "bounded_payload p = List.map_filter (\<lambda>k. map_option (\<lambda>v. (k, case v of JStr t \<Rightarrow> JStr (bounded t 1000) | _ \<Rightarrow> v)) (map_of p k)) payload_keys"

definition activity_labels :: "(string \<times> string) list" where
  "activity_labels = [(''session_created'', ''Session created''), (''assistant_tool_calls'', ''Agent requested tools''),
     (''tool_requested'', ''Tool requested''), (''tool_result'', ''Tool completed''), (''tool_denied'', ''Tool denied''),
     (''command_requested'', ''Command started''), (''command_completed'', ''Command completed''),
     (''validation_completed'', ''Validation command succeeded''), (''edit_transaction'', ''Workspace edited''),
     (''edit_receipt'', ''Workspace edited''), (''workspace_preparing'', ''Preparing isolated workspace''),
     (''workspace_activated'', ''Isolated workspace ready''), (''workspace_upgrade_failed'', ''Workspace preparation failed''),
     (''changes_frozen'', ''Changes prepared for review''), (''changes_apply_result'', ''Changes review completed''),
     (''changes_accepted'', ''Changes accepted''), (''changes_discarded'', ''Changes discarded''),
     (''workspace_tainted'', ''Changes need attention''), (''recovery_required'', ''Manual recovery required''),
     (''approval_requested'', ''Approval requested''), (''approval_decision'', ''Approval resolved''),
     (''permission_denied'', ''Permission denied''), (''execution_slice_exhausted'', ''Internal execution checkpoint''),
     (''turn_budget_exhausted'', ''Step budget reached''), (''turn_budget_increased'', ''User increased step budget''),
     (''turn_terminated'', ''Execution stopped before completion''), (''model_output_truncated'', ''Model output reached its length limit''),
     (''model_protocol_error'', ''Model response could not be processed'')]"

definition upper_char :: "char \<Rightarrow> char" where
  "upper_char c = (let n = byte_of c in if 97 \<le> n \<and> n \<le> 122 then char_of (n - 32) else c)"

definition capitalize :: "string \<Rightarrow> string" where
  "capitalize s = (case s of [] \<Rightarrow> [] | c # r \<Rightarrow> upper_char c # lower r)"

definition activity_label :: "string \<Rightarrow> string" where
  "activity_label ty = (case map_of activity_labels ty of Some l \<Rightarrow> l
     | None \<Rightarrow> capitalize (map (\<lambda>c. if c = CHR ''_'' then CHR '' '' else c) ty))"

definition activity_text :: "session_event \<Rightarrow> string" where
  "activity_text e = (let l = activity_label (ev_type e); p = ev_payload e in
     if ev_type e \<in> {''tool_requested'', ''tool_result'', ''tool_denied''} \<and> truthy (dget p ''name'') then l @ '': '' @ py_str (dget p ''name'')
     else if ev_type e \<in> {''command_requested'', ''command_completed''} \<and> truthy (dget p ''command'')
     then l @ '': '' @ bounded (py_str (dget p ''command'')) 160 else l)"

record activity =
  ac_seq :: "int option"
  ac_ts :: string
  ac_type :: string
  ac_text :: string
  ac_detail :: dict

definition activity_item :: "session_event \<Rightarrow> activity" where
  "activity_item e = \<lparr>ac_seq = ev_seq e, ac_ts = ev_ts e, ac_type = ev_type e, ac_text = activity_text e, ac_detail = bounded_payload (ev_payload e)\<rparr>"

definition quiet_types :: "string set" where
  "quiet_types = {''user_message'', ''assistant_message'', ''model_usage'', ''context_condensation_attempt'', ''context_condensed''}"

definition visible :: "session_event list \<Rightarrow> session_event list" where
  "visible es = filter (\<lambda>e. ev_type e \<notin> quiet_types) es"

definition last_n :: "nat \<Rightarrow> 'a list \<Rightarrow> 'a list" where
  "last_n n xs = drop (length xs - n) xs"

definition recent_activity :: "session_event list \<Rightarrow> activity list" where
  "recent_activity es = last_n 50 (map activity_item (visible es))"

definition milestone_types :: "string set" where
  "milestone_types = {''edit_transaction'', ''edit_receipt'', ''command_completed'', ''validation_completed'', ''changes_accepted'',
     ''changes_discarded'', ''workspace_tainted'', ''recovery_required''}"

text \<open>The path of a request to read a file; arguments that are no dictionary raise.\<close>

definition inspected_path :: "session_event \<Rightarrow> string option res" where
  "inspected_path e = (if dget (ev_payload e) ''name'' \<noteq> JStr ''read_file'' then Inr None
     else case as_obj (dget_or (ev_payload e) ''arguments'' (JObj [])) of None \<Rightarrow> Inl (Exn AttributeError ''arguments'')
       | Some a \<Rightarrow> Inr (if truthy (dget a ''path'') then Some (py_str (dget a ''path'')) else None))"

record activity_view =
  av_current :: string
  av_milestones :: "activity list"
  av_inspected :: nat
  av_changed :: nat
  av_commands :: nat

definition activity_summary :: "session_event list \<Rightarrow> changes_view \<Rightarrow> activity_view res" where
  "activity_summary es changes =
     rbind (rmap inspected_path (filter (\<lambda>e. ev_type e = ''tool_requested'') es)) (\<lambda>paths. Inr
       \<lparr>av_current = (if visible es = [] then ''No activity yet'' else activity_text (last (visible es))),
        av_milestones = last_n 10 (map activity_item (filter (\<lambda>e. ev_type e \<in> milestone_types) (visible es))),
        av_inspected = length (remdups (List.map_filter id paths)), av_changed = length (cv_files changes),
        av_commands = length (filter (\<lambda>e. ev_type e = ''command_completed'') es)\<rparr>)"

section \<open>Summaries\<close>

record session_summary =
  su_session :: string
  su_title :: string
  su_provider :: string
  su_model :: string
  su_reasoning :: bool
  su_workspace :: string
  su_attention :: string
  su_active_at :: json
  su_changed :: nat
  su_changes :: string

definition unreadable_summary :: "dict \<Rightarrow> session_summary" where
  "unreadable_summary meta = \<lparr>su_session = py_str (dget_or meta ''session_id'' (JStr ''unknown'')), su_title = ''Unreadable session'',
     su_provider = [], su_model = [], su_reasoning = False, su_workspace = [], su_attention = ''Session data needs attention'',
     su_active_at = JNull, su_changed = 0, su_changes = ''none''\<rparr>"

definition summary_of :: "dict \<Rightarrow> session_event list \<Rightarrow> changes_view \<Rightarrow> session_summary res" where
  "summary_of meta es changes = rbind (attention_summary meta es changes) (\<lambda>attention. Inr
     \<lparr>su_session = py_str (dget meta ''session_id''), su_title = py_str (jor (dget meta ''title'') (JStr untitled)),
      su_provider = py_str (dget_or meta ''provider'' (JStr ''fake'')), su_model = py_str (dget_or meta ''model'' (JStr ''fake'')),
      su_reasoning = (dget (options_of meta ''model_options'') ''reasoning_enabled'' = JBool True),
      su_workspace = py_str (jor (jor (dget meta ''source_workspace'') (dget meta ''workspace'')) (JStr [])),
      su_attention = attention, su_active_at = dget meta ''last_active_at'', su_changed = length (cv_files changes),
      su_changes = cv_state changes\<rparr>)"

text \<open>The summary loads the session by itself and inspects its changes once more.\<close>

definition build_session_summary :: "review_env \<Rightarrow> dict \<Rightarrow> session_summary review_prog" where
  "build_session_summary V meta = (if truthy (dget meta ''error'') then ret (unreadable_summary meta)
     else seq_then (lift (dindex meta ''session_id'')) (seq_then (in_store read_meta) (bnd (in_store read_events) (\<lambda>es.
       bnd (inspect_changes V) (\<lambda>changes. lift (summary_of meta es changes))))))"

end
