(* ===== verification/Product_Timeline.thy ===== *)
theory Product_Timeline
  imports Product_View
begin

text \<open>
  \<^verbatim>\<open>timeline_turns\<close> of \<^verbatim>\<open>product/read_model.py\<close>: the log rendered as turns with their items for the client. The dictionaries that the code
  changes after it has put them into an item (tool calls, groups, notices of truncation, summaries) are cells of a store,
  and the items hold their addresses.
\<close>

section \<open>Texts of a tool call\<close>

definition middle_dot :: string where
  "middle_dot = [CHR 0x20, CHR 0xC2, CHR 0xB7, CHR 0x20]"

definition unnamed_label :: "string \<Rightarrow> string" where
  "unnamed_label name = capitalize (map (\<lambda>c. if c = CHR ''_'' then CHR '' '' else c) name)"

definition tool_summary :: "string \<Rightarrow> dict \<Rightarrow> string" where
  "tool_summary name args = (let p = dget args ''path'' in
     if name = ''read_file'' \<and> truthy p then ''Read '' @ py_str p
     else if name \<in> {''list_dir'', ''find_files''} then ''Inspected '' @ py_str (jor p (JStr ''repository''))
     else if name = ''search_text'' then ''Searched '' @ bounded (py_str (dget_or args ''query'' (JStr ''repository''))) 80
     else if name = ''apply_workspace_edit'' then ''Edited workspace''
     else if name = ''run_command'' then ''Ran '' @ bounded (py_str (dget_or args ''command'' (JStr ''command''))) 100
     else unnamed_label name)"

definition line_span :: "dict \<Rightarrow> string list" where
  "line_span args = (let a = dget args ''start_line''; b = dget args ''end_line'' in
     if a = JNull \<and> b = JNull then []
     else [''lines '' @ py_str (jor a (JInt 1)) @ [CHR 0xE2, CHR 0x80, CHR 0x93] @ py_str (jor b (JStr ''end''))])"

definition tool_argument_summary :: "string \<Rightarrow> dict \<Rightarrow> string" where
  "tool_argument_summary name args = (let p = dget args ''path'' in
     if name = ''read_file'' then join middle_dot (py_str (jor p (JStr ''<unknown>'')) # line_span args)
     else if name \<in> {''list_dir'', ''find_files''} then ''path: '' @ py_str (jor p (JStr ''.''))
     else if name = ''search_text'' then ''query: '' @ bounded (py_str (dget_or args ''query'' (JStr []))) 80
       @ (if truthy p then middle_dot @ ''path: '' @ py_str p else [])
     else if name = ''apply_workspace_edit'' then (case dget args ''operations'' of
         JArr ops \<Rightarrow> show_nat (length ops) @ '' operations'' | _ \<Rightarrow> ''workspace edit'')
     else if name = ''run_command'' then bounded (py_str (dget_or args ''command'' (JStr []))) 160
     else join middle_dot (take 3 (map (\<lambda>(k, v). k @ '': '' @ bounded (py_str v) 80)
       (filter (\<lambda>(k, v). k \<notin> {''content'', ''expected_sha256''}) args))))"

section \<open>Failures of a tool call\<close>

record failure_view =
  fv_kind :: string
  fv_title :: string
  fv_summary :: string
  fv_exit :: json
  fv_output :: string
  fv_truncated :: bool

definition important_line :: "string \<Rightarrow> string" where
  "important_line v = (let ls = filter (\<lambda>l. l \<noteq> []) (map strip (splitlines v)) in
     bounded (if ls = [] then ''No error details were reported.'' else last ls) 300)"

definition lstrip :: "string \<Rightarrow> string" where
  "lstrip s = dropWhile is_space s"

definition bounded_output :: "string \<Rightarrow> string \<times> bool" where
  "bounded_output v = (if py_len v \<le> 12000 then (v, False)
     else (rstrip (py_take 4000 v) @ [CHR 0x0A, CHR 0x0A, CHR 0xE2, CHR 0x80, CHR 0xA6] @ '' output truncated '' @ [CHR 0xE2, CHR 0x80, CHR 0xA6, CHR 0x0A, CHR 0x0A]
       @ lstrip (py_drop (py_len v - 7900) v), True))"

definition failure_text :: "json \<Rightarrow> string" where
  "failure_text v = strip (py_str (jor v (JStr [])))"

definition failure_kind :: "string \<Rightarrow> string \<Rightarrow> json \<Rightarrow> string \<times> string" where
  "failure_kind code status exit_code =
     (if code = ''command_exit_nonzero'' \<or> (status = ''completed'' \<and> exit_code \<noteq> JNull \<and> \<not> is_zero exit_code)
      then (''command_exit_nonzero'', ''Command exited with code '' @ py_str exit_code)
      else if code = ''execution_timed_out'' \<or> status = ''execution_timed_out'' then (''timeout'', ''Command timed out'')
      else if code = ''approval_denied'' then (''approval_rejected'', ''Approval rejected'')
      else if code \<in> {''policy_denied'', ''permission_denied''} then (''policy_denied'', ''Operation blocked by policy'')
      else if code \<in> {''sandbox_unavailable'', ''sandbox_setup_failed''} \<or> status \<in> {''sandbox_unavailable'', ''sandbox_setup_failed''}
      then (''sandbox_unavailable'', ''Sandbox unavailable'')
      else (''tool_error'', ''Tool could not run''))"

definition first_text :: "string list \<Rightarrow> string" where
  "first_text ts = (case filter (\<lambda>t. t \<noteq> []) ts of [] \<Rightarrow> [] | t # r \<Rightarrow> t)"

definition tool_failure_details :: "dict \<Rightarrow> dict \<Rightarrow> failure_view option" where
  "tool_failure_details result payload =
     (let error = failure_text (jor (dget result ''error'') (dget payload ''reason'')); code = failure_text (dget result ''error_code'');
          metadata = (case dget result ''metadata'' of JObj d \<Rightarrow> d | _ \<Rightarrow> []);
          status = failure_text (dget metadata ''status''); exit_code = dget metadata ''exit_code'' in
      if \<not> (dget result ''ok'' = JBool False \<or> error \<noteq> [] \<or> truthy (dget payload ''reason'')) then None
      else (let (kind, title) = failure_kind code status exit_code;
              err_tail = failure_text (dget metadata ''stderr_tail''); diagnostic = failure_text (dget metadata ''diagnostic'');
              content = failure_text (dget result ''content'');
              raw = (if content = [] then join [CHR 0x0A] (filter (\<lambda>t. t \<noteq> []) [err_tail, diagnostic, error]) else content);
              (shown, shortened) = bounded_output raw in
         Some \<lparr>fv_kind = kind, fv_title = title, fv_summary = important_line (first_text [err_tail, diagnostic, error, title]), fv_exit = exit_code,
           fv_output = shown, fv_truncated = (truthy (dget result ''truncated'') \<or> shortened)\<rparr>))"

definition tool_result_summary :: "dict \<Rightarrow> dict \<Rightarrow> string option" where
  "tool_result_summary result payload = (case tool_failure_details result payload of Some f \<Rightarrow> Some (fv_summary f)
     | None \<Rightarrow> (let error = jor (dget result ''error'') (dget payload ''reason'') in
         if truthy error then Some (bounded (py_str error) 240) else None))"

section \<open>Cells and turns\<close>

record tool_view =
  tv_call :: string
  tv_tool :: string
  tv_summary :: string
  tv_arguments :: string
  tv_status :: string
  tv_detail :: dict
  tv_result :: "string option"
  tv_failure :: "failure_view option"
  tv_command :: "json \<times> json \<times> json"
  tv_files :: "string list"

record group_view =
  gv_tools :: "nat list"
  gv_expanded :: bool
  gv_seq :: "int option"
  gv_ts :: string

text \<open>A truncated answer: why it ended, the effort asked for, and what the next answer was.\<close>

type_synonym truncation_record = "json \<times> json \<times> (json \<times> json \<times> bool) option"

record truncation_view =
  tc_tone :: string
  tc_text :: string
  tc_count :: nat
  tc_records :: "truncation_record list"
  tc_seq :: "int option"

record summary_item =
  sm_message :: string
  sm_summary :: string
  sm_count :: json
  sm_tokens :: json
  sm_input :: json
  sm_before :: json
  sm_rebuild :: "json option"
  sm_reason :: json
  sm_retries :: nat
  sm_condenser :: "(json \<times> json \<times> json) option"
  sm_seq :: "int option"

datatype timeline_item = MarkdownItem string bool "int option" string | GroupItem nat | TruncationItem nat | SummaryItem nat
  | NoticeItem string string "int option"

record turn_view =
  tw_turn :: string
  tw_seq :: "int option"
  tw_ts :: string
  tw_message :: string
  tw_items :: "timeline_item list"
  tw_files :: "string list"
  tw_validation :: "validation_view option"

text \<open>The variables of the loop; the current turn is the last one.\<close>

record timeline =
  tm_turns :: "turn_view list"
  tm_tools :: "tool_view list"
  tm_groups :: "group_view list"
  tm_truncations :: "truncation_view list"
  tm_summaries :: "summary_item list"
  tm_calls :: "(string \<times> nat) list"
  tm_group :: "nat option"
  tm_truncation :: "nat option"
  tm_condenser :: "(json \<times> json \<times> json) option"
  tm_attempt :: "dict option"
  tm_summary :: "nat option"
  tm_usage :: "dict option"
  tm_pending :: bool
  tm_failures :: nat

definition empty_timeline :: timeline where
  "empty_timeline = \<lparr>tm_turns = [], tm_tools = [], tm_groups = [], tm_truncations = [], tm_summaries = [], tm_calls = [], tm_group = None,
     tm_truncation = None, tm_condenser = None, tm_attempt = None, tm_summary = None, tm_usage = None, tm_pending = False, tm_failures = 0\<rparr>"

definition update_at :: "nat \<Rightarrow> ('a \<Rightarrow> 'a) \<Rightarrow> 'a list \<Rightarrow> 'a list" where
  "update_at i f xs = (if i < length xs then xs[i := f (xs ! i)] else xs)"

definition update_last :: "('a \<Rightarrow> 'a) \<Rightarrow> 'a list \<Rightarrow> 'a list" where
  "update_last f xs = (if xs = [] then [] else butlast xs @ [f (last xs)])"

definition on_turn :: "(turn_view \<Rightarrow> turn_view) \<Rightarrow> timeline \<Rightarrow> timeline" where
  "on_turn f t = t\<lparr>tm_turns := update_last f (tm_turns t)\<rparr>"

definition add_timeline_item :: "timeline_item \<Rightarrow> timeline \<Rightarrow> timeline" where
  "add_timeline_item x = on_turn (\<lambda>w. w\<lparr>tw_items := tw_items w @ [x]\<rparr>)"

definition new_turn :: "string \<Rightarrow> string \<Rightarrow> session_event \<Rightarrow> timeline \<Rightarrow> timeline" where
  "new_turn turn message_text e t = t\<lparr>tm_turns := tm_turns t @ [\<lparr>tw_turn = turn, tw_seq = ev_seq e, tw_ts = ev_ts e, tw_message = message_text,
     tw_items = [], tw_files = [], tw_validation = None\<rparr>]\<rparr>"

definition close_group :: "timeline \<Rightarrow> timeline" where
  "close_group t = t\<lparr>tm_group := None\<rparr>"

definition expand_group :: "timeline \<Rightarrow> timeline" where
  "expand_group t = (case tm_group t of None \<Rightarrow> t
     | Some g \<Rightarrow> t\<lparr>tm_groups := update_at g (\<lambda>v. v\<lparr>gv_expanded := True\<rparr>) (tm_groups t)\<rparr>)"

definition on_tool :: "nat \<Rightarrow> (tool_view \<Rightarrow> tool_view) \<Rightarrow> timeline \<Rightarrow> timeline" where
  "on_tool i f t = t\<lparr>tm_tools := update_at i f (tm_tools t)\<rparr>"

section \<open>Announced calls\<close>

text \<open>Iterating over a JSON value: a text gives its code points, a dictionary its keys.\<close>

function code_points :: "string \<Rightarrow> string list" where
  "code_points [] = []"
| "code_points (c # s) = (c # takeWhile is_cont s) # code_points (dropWhile is_cont s)"
  by pat_completeness auto
termination by (relation "measure length") (auto simp: le_imp_less_Suc length_dropWhile_le)

definition iterated :: "json \<Rightarrow> json list res" where
  "iterated v = (case v of JArr xs \<Rightarrow> Inr xs | JStr s \<Rightarrow> Inr (map JStr (code_points s)) | JObj d \<Rightarrow> Inr (map (\<lambda>(k, x). JStr k) d)
     | _ \<Rightarrow> Inl (Exn TypeError ''iterate''))"

definition raw_arguments :: "dict \<Rightarrow> dict res" where
  "raw_arguments raw = (case jor (dget raw ''arguments'') (JObj []) of JObj d \<Rightarrow> Inr d | _ \<Rightarrow> Inl (Exn TypeError ''arguments''))"

definition call_identity :: "dict \<Rightarrow> string \<times> string" where
  "call_identity raw = (py_str (dget_or raw ''call_id'' (JStr [])), py_str (dget_or raw ''name'' (JStr ''unknown'')))"

definition call_view :: "dict \<Rightarrow> tool_view res" where
  "call_view raw = rbind (raw_arguments raw) (\<lambda>args. case call_identity raw of (i, name) \<Rightarrow> Inr
     \<lparr>tv_call = i, tv_tool = name, tv_summary = tool_summary name args, tv_arguments = tool_argument_summary name args, tv_status = ''running'',
      tv_detail = bounded_payload args, tv_result = None, tv_failure = None, tv_command = (JNull, JNull, JNull), tv_files = []\<rparr>)"

definition add_tool_call :: "nat \<Rightarrow> timeline \<Rightarrow> json \<Rightarrow> timeline res" where
  "add_tool_call g t raw = (case as_obj raw of None \<Rightarrow> Inl (Exn AttributeError ''call'')
     | Some d \<Rightarrow> rbind (call_view d) (\<lambda>v. let i = length (tm_tools t) in Inr (t\<lparr>tm_tools := tm_tools t @ [v],
         tm_groups := update_at g (\<lambda>w. w\<lparr>gv_tools := gv_tools w @ [i]\<rparr>) (tm_groups t),
         tm_calls := (if tv_call v = [] then tm_calls t else AList.update (tv_call v) i (tm_calls t))\<rparr>)))"

definition open_group :: "session_event \<Rightarrow> timeline \<Rightarrow> timeline" where
  "open_group e t = (let g = length (tm_groups t) in
     add_timeline_item (GroupItem g) (t\<lparr>tm_groups := tm_groups t @ [\<lparr>gv_tools = [], gv_expanded = False, gv_seq = ev_seq e, gv_ts = ev_ts e\<rparr>],
       tm_group := Some g\<rparr>))"

definition announce_calls :: "session_event \<Rightarrow> timeline \<Rightarrow> timeline res" where
  "announce_calls e t = (let said = py_str (jor (dget (ev_payload e) ''message'') (JStr []));
       t1 = (if said = [] then t else add_timeline_item (MarkdownItem said False (ev_seq e) (ev_ts e)) (close_group t)) in
     rbind (iterated (dget_or (ev_payload e) ''tool_calls'' (JArr []))) (\<lambda>raws.
     rfold (add_tool_call (length (tm_groups t1))) (open_group e t1) raws))"

section \<open>Outcomes\<close>

definition outcome_status :: "session_event \<Rightarrow> dict \<Rightarrow> string" where
  "outcome_status e result = (if ev_type e = ''tool_denied'' then ''denied''
     else if truthy (dget_or result ''ok'' (JBool True)) then ''succeeded'' else ''failed'')"

definition settle_call :: "session_event \<Rightarrow> timeline \<Rightarrow> timeline" where
  "settle_call e t = (let p = ev_payload e in
     case map_of (tm_calls t) (py_str (dget_or p ''call_id'' (JStr []))) of None \<Rightarrow> t
     | Some i \<Rightarrow> (let result = (case dget p ''result'' of JObj d \<Rightarrow> d | _ \<Rightarrow> []); st = outcome_status e result;
           bad = (st \<in> {''failed'', ''denied''});
           t1 = on_tool i (\<lambda>v. v\<lparr>tv_status := st, tv_result := tool_result_summary result p,
             tv_failure := (if bad then tool_failure_details result p else tv_failure v)\<rparr>) t in
         if bad then expand_group t1 else t1))"

definition latest_tool :: "string \<Rightarrow> timeline \<Rightarrow> nat option" where
  "latest_tool name t = map_option snd (find (\<lambda>(k, i). i < length (tm_tools t) \<and> tv_tool (tm_tools t ! i) = name) (rev (tm_calls t)))"

definition add_changed_files :: "json \<Rightarrow> timeline \<Rightarrow> timeline" where
  "add_changed_files paths = on_turn (\<lambda>w. w\<lparr>tw_files := tw_files w @ (case paths of JArr ps \<Rightarrow> map py_str (filter truthy ps) | _ \<Rightarrow> [])\<rparr>)"

definition run_view :: "dict \<Rightarrow> bool \<Rightarrow> json \<Rightarrow> validation_view" where
  "run_view p passed duration = \<lparr>vv_command = dget p ''command'', vv_passed = passed, vv_exit = dget p ''exit_code'', vv_duration = duration, vv_current = False\<rparr>"

definition settle_command :: "session_event \<Rightarrow> timeline \<Rightarrow> timeline" where
  "settle_command e t = (let p = ev_payload e; good = run_passed p;
       t1 = (case latest_tool ''run_command'' t of None \<Rightarrow> t
         | Some i \<Rightarrow> (let t0 = on_tool i (\<lambda>v. v\<lparr>tv_status := (if good then ''succeeded'' else ''failed''),
               tv_command := (dget p ''command'', dget p ''exit_code'', dget p ''duration_ms'')\<rparr>) t in if good then t0 else expand_group t0));
       t2 = add_changed_files (dget_or p ''changed_paths'' (JArr [])) t1 in
     if dget p ''purpose'' = JStr ''validation''
     then on_turn (\<lambda>w. w\<lparr>tw_validation := Some (run_view p good (dget p ''duration_ms''))\<rparr>) t2 else t2)"

definition settle_validation :: "dict \<Rightarrow> session_event \<Rightarrow> timeline \<Rightarrow> timeline res" where
  "settle_validation meta e t = (let p = ev_payload e in
     rbind (py_int (dget_or p ''candidate_revision'' (JInt (-1)))) (\<lambda>a. rbind (py_int (dget_or meta ''candidate_revision'' (JInt 0))) (\<lambda>b.
     Inr (on_turn (\<lambda>w. w\<lparr>tw_validation := Some ((case tw_validation w of None \<Rightarrow> run_view p True JNull | Some v \<Rightarrow> v)\<lparr>vv_current := (a = b)\<rparr>)\<rparr>) t))))"

definition settle_edit :: "session_event \<Rightarrow> timeline \<Rightarrow> timeline res" where
  "settle_edit e t = (let p = ev_payload e;
       paths = jor (dget p ''changed_files'') (JArr (if truthy (dget p ''path'') then [dget p ''path''] else []));
       t1 = add_changed_files paths t in
     case latest_tool ''apply_workspace_edit'' t1 of None \<Rightarrow> Inr t1
     | Some i \<Rightarrow> rbind (iterated paths) (\<lambda>ps. Inr (on_tool i (\<lambda>v. v\<lparr>tv_files := sort (remdups (tv_files v @ map py_str (filter truthy ps)))\<rparr>) t1)))"

section \<open>Usage, summaries and truncations\<close>

definition settle_summary :: "dict \<Rightarrow> timeline \<Rightarrow> timeline" where
  "settle_summary p t = (case tm_summary t of None \<Rightarrow> t
     | Some i \<Rightarrow> t\<lparr>tm_summary := None, tm_summaries := (case dget p ''context'' of
         JObj c \<Rightarrow> update_at i (\<lambda>v. v\<lparr>sm_rebuild := Some (dget c ''estimated_tokens'')\<rparr>) (tm_summaries t) | _ \<Rightarrow> tm_summaries t)\<rparr>)"

definition settle_truncation :: "dict \<Rightarrow> timeline \<Rightarrow> timeline" where
  "settle_truncation p t = (case tm_truncation t of None \<Rightarrow> t
     | Some i \<Rightarrow> if \<not> tm_pending t then t
         else t\<lparr>tm_pending := False, tm_truncations := update_at i (\<lambda>v. v\<lparr>tc_records := update_last (\<lambda>(a, b, c).
           (a, b, Some (dget p ''reasoning_effort'', dget p ''finish_reason'', dget p ''finish_reason'' \<in> {JStr ''tool_calls'', JStr ''stop''})))
           (tc_records v)\<rparr>) (tm_truncations t)\<rparr>)"

definition note_usage :: "session_event \<Rightarrow> timeline \<Rightarrow> timeline" where
  "note_usage e t = (let p = ev_payload e in
     if dget p ''purpose'' = JStr ''context_condenser'' then t\<lparr>tm_condenser := Some (dget p ''model'', dget p ''usage'', dget p ''finish_reason'')\<rparr>
     else (settle_truncation p (settle_summary p t))\<lparr>tm_usage := Some p\<rparr>)"

definition note_attempt :: "session_event \<Rightarrow> timeline \<Rightarrow> timeline" where
  "note_attempt e t = t\<lparr>tm_attempt := Some (ev_payload e),
     tm_failures := tm_failures t + (if dget (ev_payload e) ''status'' = JStr ''valid_completion'' then 0 else 1)\<rparr>"

fun is_int :: "json \<Rightarrow> bool" where
  "is_int (JInt i) = True"
| "is_int (JBool b) = True"
| "is_int _ = False"

definition add_summary :: "session_event \<Rightarrow> timeline \<Rightarrow> timeline" where
  "add_summary e t0 = (let t = close_group t0; p = ev_payload e;
       count = (case dget p ''newly_covered_event_ids'' of JArr xs \<Rightarrow> JInt (int (length xs)) | _ \<Rightarrow> dget p ''logical_covered_event_count'');
       tokens = dget p ''summary_estimated_tokens'';
       facts = (if is_int count then [py_str count @ '' earlier events''] else []) @ (if is_int tokens then [''~'' @ py_str tokens @ '' token summary''] else []);
       i = length (tm_summaries t) in
     add_timeline_item (SummaryItem i) (t\<lparr>tm_summaries := tm_summaries t @ [
       \<lparr>sm_message = (if facts = [] then ''Older Runtime history was summarized.'' else join middle_dot facts),
        sm_summary = py_str (jor (dget p ''summary'') (JStr [])), sm_count = count, sm_tokens = tokens, sm_input = dget p ''input_estimated_tokens'',
        sm_before = (case tm_attempt t of None \<Rightarrow> JNull | Some a \<Rightarrow> dget a ''request_estimated_tokens_before''), sm_rebuild = None,
        sm_reason = dget p ''reason'', sm_retries = tm_failures t, sm_condenser = tm_condenser t, sm_seq = ev_seq e\<rparr>],
       tm_summary := Some i, tm_failures := 0\<rparr>))"

definition recovered_text :: "nat \<Rightarrow> string" where
  "recovered_text n = ''Runtime recovered from '' @ show_nat n @ '' truncated model outputs.''"

definition count_truncation :: "session_event \<Rightarrow> timeline \<Rightarrow> timeline" where
  "count_truncation e t = (case tm_truncation t of
     None \<Rightarrow> (let i = length (tm_truncations t) in
       add_timeline_item (TruncationItem i) (t\<lparr>tm_truncations := tm_truncations t @ [\<lparr>tc_tone = ''info'',
         tc_text = ''Model output was truncated; Runtime continued automatically.'', tc_count = 1, tc_records = [], tc_seq = ev_seq e\<rparr>],
         tm_truncation := Some i\<rparr>))
   | Some i \<Rightarrow> t\<lparr>tm_truncations := update_at i (\<lambda>v. v\<lparr>tc_count := Suc (tc_count v), tc_text := recovered_text (Suc (tc_count v))\<rparr>) (tm_truncations t)\<rparr>)"

definition add_truncation :: "session_event \<Rightarrow> timeline \<Rightarrow> timeline" where
  "add_truncation e t0 = (let t = count_truncation e (close_group t0);
       entry = (dget (ev_payload e) ''finish_reason'', case tm_usage t of None \<Rightarrow> JNull | Some p \<Rightarrow> dget p ''reasoning_effort'', None) in
     case tm_truncation t of None \<Rightarrow> t
     | Some i \<Rightarrow> t\<lparr>tm_truncations := update_at i (\<lambda>v. v\<lparr>tc_records := tc_records v @ [entry]\<rparr>) (tm_truncations t), tm_pending := True\<rparr>)"

section \<open>Notices\<close>

definition budget_text :: "session_event \<Rightarrow> string" where
  "budget_text e = (let p = ev_payload e in
     if ev_type e = ''turn_budget_exhausted''
     then ''Step budget reached: '' @ py_str (dget p ''steps_used_in_turn'') @ ''/'' @ py_str (dget p ''max_model_steps_per_user_turn'')
     else ''User increased step budget: '' @ py_str (dget p ''previous_limit'') @ [CHR 0x20, CHR 0xE2, CHR 0x86, CHR 0x92, CHR 0x20]
       @ py_str (dget p ''new_limit''))"

definition cancel_running :: "timeline \<Rightarrow> timeline" where
  "cancel_running t = fold (\<lambda>(k, i) u. on_tool i (\<lambda>v. if tv_status v = ''running'' then v\<lparr>tv_status := ''cancelled''\<rparr> else v) u) (tm_calls t) t"

definition warn_truncation :: "timeline \<Rightarrow> timeline" where
  "warn_truncation t = (case tm_truncation t of None \<Rightarrow> t
     | Some i \<Rightarrow> t\<lparr>tm_truncations := update_at i (\<lambda>v. v\<lparr>tc_tone := ''warning'',
         tc_text := ''Runtime attempted recovery from '' @ show_nat (tc_count v) @ '' truncated model outputs.''\<rparr>) (tm_truncations t)\<rparr>)"

definition end_turn :: "session_event \<Rightarrow> timeline \<Rightarrow> timeline" where
  "end_turn e t0 = (let p = ev_payload e; why = dget p ''reason''; t = close_group t0;
       t1 = (if why \<in> {JStr ''user_stop'', JStr ''cancelled''} then cancel_running t else t);
       t2 = (if why = JStr ''output_truncated'' then warn_truncation t1 else t1);
       said = (if why = JStr ''context_budget_exceeded'' then ''Runtime could not build a safe model request after summarizing older context.''
         else if why = JStr ''output_truncated'' then ''Model output remained truncated after automatic recovery; execution stopped.''
         else py_str (jor (dget p ''message'') (JStr ''Execution stopped before completion''))) in
     add_timeline_item (NoticeItem ''warning'' said (ev_seq e)) t2)"

section \<open>The loop\<close>

definition in_turn_event :: "dict \<Rightarrow> timeline \<Rightarrow> session_event \<Rightarrow> timeline res" where
  "in_turn_event meta t e = (let ty = ev_type e in
     if ty = ''assistant_tool_calls'' then announce_calls e t
     else if ty \<in> {''tool_result'', ''tool_denied''} then Inr (settle_call e t)
     else if ty = ''command_completed'' then Inr (settle_command e t)
     else if ty = ''validation_completed'' then settle_validation meta e t
     else if ty \<in> {''edit_transaction'', ''edit_receipt''} then settle_edit e t
     else if ty = ''assistant_message''
     then Inr (add_timeline_item (MarkdownItem (py_str (dget_or (ev_payload e) ''message'' (JStr []))) True (ev_seq e) (ev_ts e)) (close_group t))
     else if ty = ''model_usage'' then Inr (note_usage e t)
     else if ty = ''context_condensation_attempt'' then Inr (note_attempt e t)
     else if ty = ''context_condensed'' then Inr (add_summary e t)
     else if ty = ''model_output_truncated'' then Inr (add_truncation e t)
     else if ty \<in> {''turn_budget_exhausted'', ''turn_budget_increased''}
     then Inr (add_timeline_item (NoticeItem ''info'' (budget_text e) (ev_seq e)) (close_group t))
     else if ty = ''turn_terminated'' then Inr (end_turn e t)
     else if ty \<in> {''workspace_tainted'', ''recovery_required''}
     then Inr (add_timeline_item (NoticeItem ''error'' (activity_label ty) (ev_seq e)) (close_group t))
     else if ty = ''approval_requested'' then Inr (add_timeline_item (NoticeItem ''warning'' ''Approval requested'' (ev_seq e)) (expand_group t))
     else Inr t)"

definition start_turn :: "session_event \<Rightarrow> timeline \<Rightarrow> timeline" where
  "start_turn e t = (new_turn (case ev_turn e of
       Some (c # n) \<Rightarrow> c # n | _ \<Rightarrow> ''legacy-turn-'' @ (case ev_seq e of None \<Rightarrow> ''None'' | Some k \<Rightarrow> show_int k))
     (py_str (dget_or (ev_payload e) ''message'' (JStr []))) e t)\<lparr>tm_calls := [], tm_group := None, tm_truncation := None, tm_condenser := None,
       tm_attempt := None, tm_summary := None, tm_usage := None, tm_pending := False, tm_failures := 0\<rparr>"

text \<open>An event before the first message opens a turn if it names one, and is left out otherwise.\<close>

definition timeline_step :: "dict \<Rightarrow> timeline \<Rightarrow> session_event \<Rightarrow> timeline res" where
  "timeline_step meta t e = (if ev_type e = ''user_message'' then Inr (start_turn e t)
     else if tm_turns t \<noteq> [] then in_turn_event meta t e
     else case ev_turn e of Some (c # n) \<Rightarrow> in_turn_event meta (new_turn (c # n) [] e t) e | _ \<Rightarrow> Inr t)"

definition group_status :: "string list \<Rightarrow> string" where
  "group_status ss = (if ''failed'' \<in> set ss then ''failed'' else if ''denied'' \<in> set ss then ''denied''
     else if ''cancelled'' \<in> set ss then ''cancelled'' else if ''running'' \<in> set ss then ''running'' else ''succeeded'')"

definition counted :: "string \<Rightarrow> string list \<Rightarrow> string list" where
  "counted st ss = (let n = length (filter (\<lambda>s. s = st) ss) in if n = 0 then [] else [show_nat n @ '' '' @ st])"

definition group_summary :: "string list \<Rightarrow> string" where
  "group_summary ss = (let label = show_nat (length ss) @ '' tool call'' @ (if length ss = 1 then [] else ''s'');
       rest = counted ''failed'' ss @ counted ''denied'' ss @ counted ''cancelled'' ss in
     if rest = [] then label else label @ middle_dot @ join middle_dot rest)"

definition group_statuses :: "timeline \<Rightarrow> group_view \<Rightarrow> string list" where
  "group_statuses t g = map (\<lambda>i. tv_status (tm_tools t ! i)) (gv_tools g)"

definition finish_turn :: "turn_view \<Rightarrow> turn_view" where
  "finish_turn w = w\<lparr>tw_files := sort (remdups (tw_files w))\<rparr>"

definition timeline_turns :: "session_event list \<Rightarrow> dict \<Rightarrow> (timeline \<times> (string \<times> string) list) res" where
  "timeline_turns es meta = rbind (rfold (timeline_step meta) empty_timeline es) (\<lambda>t.
     Inr (t\<lparr>tm_turns := map finish_turn (tm_turns t)\<rparr>, map (\<lambda>g. (group_status (group_statuses t g), group_summary (group_statuses t g))) (tm_groups t)))"

end
