(* ===== verification/Timeline_Calls.thy ===== *)
theory Timeline_Calls
  imports Product_Timeline
begin

text \<open>
  Every call that the log announces in a turn has one place in the timeline: what the steps of the loop leave alone of the calls, the
  groups and the items, and the effect of an announcement.
\<close>

section \<open>The shape of a timeline\<close>

definition tool_identity :: "tool_view \<Rightarrow> string \<times> string" where
  "tool_identity v = (tv_call v, tv_tool v)"

definition item_groups :: "timeline_item \<Rightarrow> nat list" where
  "item_groups x = (case x of GroupItem g \<Rightarrow> [g] | _ \<Rightarrow> [])"

definition turn_groups :: "turn_view \<Rightarrow> nat list" where
  "turn_groups w = concat (map item_groups (tw_items w))"

definition shape :: "timeline \<Rightarrow> (string \<times> string) list \<times> nat list list \<times> nat list list" where
  "shape t = (map tool_identity (tm_tools t), map gv_tools (tm_groups t), map turn_groups (tm_turns t))"

definition whole :: "timeline \<Rightarrow> bool" where
  "whole t \<longleftrightarrow> concat (map gv_tools (tm_groups t)) = [0..<length (tm_tools t)] \<and> concat (map turn_groups (tm_turns t)) = [0..<length (tm_groups t)]"

lemma whole_shape: "shape t = shape u \<Longrightarrow> whole u \<Longrightarrow> whole t"
  unfolding shape_def whole_def by (metis Pair_inject length_map)

lemma map_update_at: "(\<And>x. f (h x) = f x) \<Longrightarrow> map f (update_at i h xs) = map f xs"
  by (auto simp: update_at_def map_update intro: list_update_same_conv [THEN iffD2])

lemma update_last_Nil [simp]: "update_last f [] = []"
  by (simp add: update_last_def)

lemma update_last_snoc [simp]: "update_last f (xs @ [x]) = xs @ [f x]"
  by (simp add: update_last_def)

lemma length_update_at [simp]: "length (update_at i f xs) = length xs"
  by (simp add: update_at_def)

lemma length_update_last [simp]: "length (update_last f xs) = length xs"
  by (cases xs rule: rev_cases) simp_all

lemma shape_on_turn:
  assumes "\<And>w. turn_groups (f w) = turn_groups w"
  shows "shape (on_turn f t) = shape t"
  using assms by (cases "tm_turns t" rule: rev_cases) (simp_all add: shape_def on_turn_def)

lemma shape_add_timeline_item: "item_groups x = [] \<Longrightarrow> shape (add_timeline_item x t) = shape t"
  unfolding add_timeline_item_def by (rule shape_on_turn) (simp add: turn_groups_def)

lemma shape_on_tool: "(\<And>v. tool_identity (f v) = tool_identity v) \<Longrightarrow> shape (on_tool i f t) = shape t"
  by (simp add: shape_def on_tool_def map_update_at)

lemma shape_close [simp]: "shape (close_group t) = shape t"
  by (simp add: shape_def close_group_def)

lemma shape_expand [simp]: "shape (expand_group t) = shape t"
  by (simp add: shape_def expand_group_def map_update_at split: option.splits)

lemma item_groups_simps [simp]: "item_groups (MarkdownItem a b c d) = []" "item_groups (TruncationItem i) = []" "item_groups (SummaryItem i) = []"
  "item_groups (NoticeItem tone said sq) = []" "item_groups (GroupItem g) = [g]"
  by (simp_all add: item_groups_def)

section \<open>Steps that announce nothing\<close>

lemma shape_settle_call: "shape (settle_call e t) = shape t"
  by (auto simp: settle_call_def Let_def shape_on_tool tool_identity_def split: option.splits)

lemma shape_add_files [simp]: "shape (add_changed_files p t) = shape t"
  unfolding add_changed_files_def by (rule shape_on_turn) (simp add: turn_groups_def)

lemma shape_settle_command: "shape (settle_command e t) = shape t"
proof -
  have v: "shape (on_turn (\<lambda>w. w\<lparr>tw_validation := x\<rparr>) u) = shape u" for x u
    by (rule shape_on_turn) (simp add: turn_groups_def)
  show ?thesis by (auto simp: settle_command_def Let_def v shape_on_tool tool_identity_def split: option.splits)
qed

lemma shape_settle_validation: "settle_validation meta e t = Inr u \<Longrightarrow> shape u = shape t"
  by (auto simp: settle_validation_def Let_def rbind_eq_Inr turn_groups_def intro!: shape_on_turn)

lemma shape_settle_edit: "settle_edit e t = Inr u \<Longrightarrow> shape u = shape t"
  by (auto simp: settle_edit_def Let_def rbind_eq_Inr shape_on_tool tool_identity_def split: option.splits)

lemma shape_usage: "shape (note_usage e t) = shape t"
  by (auto simp: note_usage_def settle_truncation_def settle_summary_def shape_def Let_def split: option.splits json.splits)

lemma shape_add_summary: "shape (add_summary e t) = shape t"
proof -
  have "shape (add_timeline_item (SummaryItem i) u) = shape u" for i u by (simp add: shape_add_timeline_item)
  then show ?thesis by (simp add: add_summary_def Let_def) (simp add: shape_def close_group_def)
qed

lemma shape_truncation: "shape (add_truncation e t) = shape t"
proof -
  have "shape (count_truncation e u) = shape u" for u
  proof -
    have "shape (add_timeline_item (TruncationItem i) x) = shape x" for i x by (simp add: shape_add_timeline_item)
    then show ?thesis by (cases "tm_truncation u") (simp_all add: count_truncation_def Let_def, simp_all add: shape_def)
  qed
  then have "shape (count_truncation e (close_group t)) = shape t" by simp
  then show ?thesis by (simp add: add_truncation_def Let_def shape_def split: option.splits)
qed

lemma shape_cancel: "shape (cancel_running t) = shape t"
proof -
  have "shape (fold (\<lambda>(k, i) u. on_tool i (\<lambda>v. if tv_status v = ''running'' then v\<lparr>tv_status := ''cancelled''\<rparr> else v) u) cs t) = shape t" for cs
    by (induction cs arbitrary: t) (auto simp: shape_on_tool tool_identity_def)
  then show ?thesis by (simp add: cancel_running_def)
qed

lemma shape_end_turn: "shape (end_turn e t) = shape t"
proof -
  have "shape (warn_truncation u) = shape u" for u by (simp add: warn_truncation_def shape_def split: option.splits)
  then show ?thesis by (auto simp: end_turn_def Let_def shape_add_timeline_item shape_cancel)
qed

lemma quiet_step:
  assumes "in_turn_event meta t e = Inr u" and "ev_type e \<noteq> ''assistant_tool_calls''"
  shows "shape u = shape t"
proof -
  have attempt: "shape (note_attempt e t) = shape t" by (simp add: note_attempt_def shape_def)
  show ?thesis
    using assms unfolding in_turn_event_def Let_def
    by (auto simp: shape_settle_call shape_settle_command shape_usage attempt shape_add_summary shape_truncation shape_end_turn shape_add_timeline_item
        split: if_splits dest: shape_settle_validation shape_settle_edit)
qed

section \<open>Announcements\<close>

definition raw_identity :: "json \<Rightarrow> string \<times> string" where
  "raw_identity raw = (case raw of JObj d \<Rightarrow> call_identity d | _ \<Rightarrow> ([], []))"

definition announced_calls :: "session_event \<Rightarrow> (string \<times> string) list" where
  "announced_calls e = (if ev_type e \<noteq> ''assistant_tool_calls'' then []
     else case iterated (dget_or (ev_payload e) ''tool_calls'' (JArr [])) of Inl x \<Rightarrow> [] | Inr raws \<Rightarrow> map raw_identity raws)"

lemma update_at_snoc: "update_at (length xs) f (xs @ [x]) = xs @ [f x]"
  by (simp add: update_at_def)

lemma add_tool_call_shape:
  assumes "add_tool_call (length gs) t raw = Inr u" and "shape t = (ids, gs @ [k], c)"
  shows "shape u = (ids @ [raw_identity raw], gs @ [k @ [length ids]], c)"
proof -
  obtain d v where d: "raw = JObj d" "call_view d = Inr v"
    using assms(1) by (auto simp: add_tool_call_def rbind_eq_Inr split: option.splits)
  have u: "u = t\<lparr>tm_tools := tm_tools t @ [v], tm_groups := update_at (length gs) (\<lambda>w. w\<lparr>gv_tools := gv_tools w @ [length (tm_tools t)]\<rparr>) (tm_groups t),
      tm_calls := (if tv_call v = [] then tm_calls t else AList.update (tv_call v) (length (tm_tools t)) (tm_calls t))\<rparr>"
    using assms(1) d by (simp add: add_tool_call_def Let_def)
  have v: "tool_identity v = call_identity d"
    using d(2) by (cases "call_identity d") (auto simp: call_view_def rbind_eq_Inr tool_identity_def)
  obtain hs h where g: "tm_groups t = hs @ [h]" "map gv_tools hs = gs" "gv_tools h = k"
    using assms(2) by (cases "tm_groups t" rule: rev_cases) (auto simp: shape_def)
  have "length (tm_tools t) = length ids" "length gs = length hs" using assms(2) g(2) by (auto simp: shape_def)
  then show ?thesis using assms(2) v g d(1) by (simp add: u shape_def raw_identity_def update_at_snoc)
qed

lemma add_calls_shape:
  "rfold (add_tool_call (length gs)) t raws = Inr u \<Longrightarrow> shape t = (ids, gs @ [k], c) \<Longrightarrow>
     shape u = (ids @ map raw_identity raws, gs @ [k @ [length ids..<length ids + length raws]], c)"
proof (induction raws arbitrary: t ids k)
  case (Cons raw raws)
  then obtain t1 where t1: "add_tool_call (length gs) t raw = Inr t1" "rfold (add_tool_call (length gs)) t1 raws = Inr u"
    by (auto simp: rbind_eq_Inr)
  have "[length ids..<length ids + length (raw # raws)] = length ids # [Suc (length ids)..<Suc (length ids) + length raws]"
    by (subst upt_conv_Cons) simp_all
  then show ?case using Cons.IH [OF t1(2) add_tool_call_shape [OF t1(1) Cons.prems(2)]] by (simp del: upt_Suc)
qed simp

lemma open_group_shape:
  assumes "shape t = (ids, gs, ws @ [w])"
  shows "shape (open_group e t) = (ids, gs @ [[]], ws @ [w @ [length gs]])"
proof -
  obtain us y where "tm_turns t = us @ [y]" "map turn_groups us = ws" "turn_groups y = w"
    using assms by (cases "tm_turns t" rule: rev_cases) (auto simp: shape_def)
  then show ?thesis using assms by (auto simp: open_group_def Let_def add_timeline_item_def on_turn_def shape_def turn_groups_def)
qed

lemma announce_shape:
  assumes "announce_calls e t = Inr u" and "ev_type e = ''assistant_tool_calls''" and "shape t = (ids, gs, ws @ [w])"
  shows "shape u = (ids @ announced_calls e, gs @ [[length ids..<length ids + length (announced_calls e)]], ws @ [w @ [length gs]])"
proof -
  define said where "said = py_str (jor (dget (ev_payload e) ''message'') (JStr []))"
  define t1 where "t1 = (if said = [] then t else add_timeline_item (MarkdownItem said False (ev_seq e) (ev_ts e)) (close_group t))"
  have s1: "shape t1 = (ids, gs, ws @ [w])" using assms(3) by (simp add: t1_def shape_add_timeline_item)
  then have g: "length (tm_groups t1) = length gs" by (auto simp: shape_def)
  obtain raws where r: "iterated (dget_or (ev_payload e) ''tool_calls'' (JArr [])) = Inr raws"
      "rfold (add_tool_call (length gs)) (open_group e t1) raws = Inr u"
    using assms(1) by (auto simp: announce_calls_def Let_def rbind_eq_Inr said_def [symmetric] t1_def [symmetric] g)
  show ?thesis using add_calls_shape [OF r(2) open_group_shape [OF s1]] r(1) assms(2) by (simp add: announced_calls_def)
qed

section \<open>The loop\<close>

text \<open>The events that belong to a turn: those from the first message on, or from the first event that names a turn.\<close>

definition opens_turn :: "session_event \<Rightarrow> bool" where
  "opens_turn e = (ev_type e = ''user_message'' \<or> (case ev_turn e of Some (c # n) \<Rightarrow> True | _ \<Rightarrow> False))"

definition turn_events :: "session_event list \<Rightarrow> session_event list" where
  "turn_events es = dropWhile (\<lambda>e. \<not> opens_turn e) es"

text \<open>The calls are the announced ones, and every call and every group has its one place.\<close>

definition faithful :: "(string \<times> string) list \<Rightarrow> timeline \<Rightarrow> bool" where
  "faithful calls t \<longleftrightarrow> map tool_identity (tm_tools t) = calls \<and> whole t"

lemma faithful_shape: "shape u = shape t \<Longrightarrow> faithful calls t \<Longrightarrow> faithful calls u \<and> length (tm_turns u) = length (tm_turns t)"
  using whole_shape [of u t] unfolding faithful_def shape_def by (metis Pair_inject length_map)

lemma faithful_event:
  assumes "in_turn_event meta t e = Inr u" and "faithful calls t" and "tm_turns t \<noteq> []"
  shows "faithful (calls @ announced_calls e) u \<and> tm_turns u \<noteq> []"
proof (cases "ev_type e = ''assistant_tool_calls''")
  case True
  obtain ws w where ws: "map turn_groups (tm_turns t) = ws @ [w]" using assms(3) by (cases "map turn_groups (tm_turns t)" rule: rev_cases) auto
  have run: "announce_calls e t = Inr u" using assms(1) True by (simp add: in_turn_event_def Let_def)
  have "shape t = (calls, map gv_tools (tm_groups t), ws @ [w])" using assms(2) ws by (simp add: shape_def faithful_def)
  from announce_shape [OF run True this] have s: "map tool_identity (tm_tools u) = calls @ announced_calls e"
      "map gv_tools (tm_groups u) = map gv_tools (tm_groups t) @ [[length calls..<length calls + length (announced_calls e)]]"
      "map turn_groups (tm_turns u) = ws @ [w @ [length (tm_groups t)]]"
    by (simp_all add: shape_def)
  have lens: "length (tm_tools u) = length calls + length (announced_calls e)" "length (tm_groups u) = Suc (length (tm_groups t))"
      "length (tm_tools t) = length calls"
    using arg_cong [OF s(1), of length] arg_cong [OF s(2), of length] assms(2) by (auto simp: faithful_def)
  have "concat (map gv_tools (tm_groups u)) = [0..<length (tm_tools u)]"
  proof -
    have "concat (map gv_tools (tm_groups t)) = [0..<length calls]" using assms(2) lens(3) by (simp add: faithful_def whole_def)
    then show ?thesis unfolding s(2) lens by (simp add: upt_add_eq_append [of 0 "length calls" "length (announced_calls e)", symmetric, simplified])
  qed
  moreover have "concat (map turn_groups (tm_turns u)) = [0..<length (tm_groups u)]"
  proof -
    have "concat (ws @ [w]) = [0..<length (tm_groups t)]" using assms(2) unfolding ws [symmetric] by (simp add: faithful_def whole_def)
    then show ?thesis unfolding s(3) lens by simp
  qed
  moreover have "tm_turns u \<noteq> []" using s(3) by auto
  ultimately show ?thesis using s(1) by (simp add: faithful_def whole_def)
next
  case False
  then show ?thesis using faithful_shape [OF quiet_step [OF assms(1) False] assms(2)] assms(3) by (auto simp: announced_calls_def)
qed

lemma faithful_new_turn: "faithful calls t \<Longrightarrow> faithful calls (new_turn turn said e t) \<and> tm_turns (new_turn turn said e t) \<noteq> []"
  by (simp add: faithful_def whole_def new_turn_def turn_groups_def)

lemma faithful_step:
  assumes "timeline_step meta t e = Inr u" and "faithful calls t" and "tm_turns t \<noteq> [] \<or> opens_turn e"
  shows "faithful (calls @ announced_calls e) u \<and> tm_turns u \<noteq> []"
proof (cases "ev_type e = ''user_message''")
  case True
  have "u = start_turn e t" using assms(1) True by (simp add: timeline_step_def)
  then show ?thesis using faithful_new_turn [OF assms(2)] True
    by (auto simp: start_turn_def faithful_def whole_def announced_calls_def)
next
  case False
  show ?thesis
  proof (cases "tm_turns t = []")
    case True
    then obtain c n where "ev_turn e = Some (c # n)" using assms(3) False by (auto simp: opens_turn_def split: option.splits list.splits)
    then have "in_turn_event meta (new_turn (c # n) [] e t) e = Inr u" using assms(1) False True by (simp add: timeline_step_def)
    then show ?thesis using faithful_event faithful_new_turn [OF assms(2)] by blast
  next
    case there: False
    then have "in_turn_event meta t e = Inr u" using assms(1) False by (simp add: timeline_step_def)
    then show ?thesis using faithful_event assms(2) there by blast
  qed
qed

lemma faithful_run:
  "rfold (timeline_step meta) t es = Inr u \<Longrightarrow> faithful calls t \<Longrightarrow> tm_turns t \<noteq> [] \<Longrightarrow> faithful (calls @ concat (map announced_calls es)) u"
proof (induction es arbitrary: t calls)
  case (Cons e es)
  then obtain t1 where t1: "timeline_step meta t e = Inr t1" "rfold (timeline_step meta) t1 es = Inr u" by (auto simp: rbind_eq_Inr)
  then show ?case using Cons.IH [OF t1(2)] faithful_step [OF t1(1) Cons.prems(2)] Cons.prems(3) by fastforce
qed simp

lemma faithful_timeline:
  "rfold (timeline_step meta) empty_timeline es = Inr u \<Longrightarrow> faithful (concat (map announced_calls (turn_events es))) u"
proof (induction es)
  case Nil
  then have "u = empty_timeline" by simp
  then show ?case by (simp add: faithful_def whole_def empty_timeline_def turn_events_def)
next
  case (Cons e es)
  have empty: "faithful [] empty_timeline" "tm_turns empty_timeline = []" by (simp_all add: faithful_def whole_def empty_timeline_def)
  show ?case
  proof (cases "opens_turn e")
    case True
    obtain t1 where t1: "timeline_step meta empty_timeline e = Inr t1" "rfold (timeline_step meta) t1 es = Inr u"
      using Cons.prems by (auto simp: rbind_eq_Inr)
    then show ?thesis using faithful_run [OF t1(2)] faithful_step [OF t1(1) empty(1)] True by (simp add: turn_events_def)
  next
    case False
    then have "timeline_step meta empty_timeline e = Inr empty_timeline"
      using empty(2) by (auto simp: timeline_step_def opens_turn_def split: option.splits list.splits)
    then show ?thesis using Cons False by (simp add: turn_events_def)
  qed
qed

section \<open>Properties\<close>

text \<open>
  C40. The timeline shows every call that the log announces in a turn exactly once and in order: the calls are the announced ones with
  their identities and names, each is in one group, and each group is one item of one turn.
\<close>

theorem timeline_shows_every_call:
  assumes "timeline_turns es meta = Inr (t, statuses)"
  shows "map (\<lambda>v. (tv_call v, tv_tool v)) (tm_tools t) = concat (map announced_calls (turn_events es))
    \<and> concat (map gv_tools (tm_groups t)) = [0..<length (tm_tools t)]
    \<and> concat (map turn_groups (tm_turns t)) = [0..<length (tm_groups t)] \<and> length statuses = length (tm_groups t)"
proof -
  obtain u where u: "rfold (timeline_step meta) empty_timeline es = Inr u" "t = u\<lparr>tm_turns := map finish_turn (tm_turns u)\<rparr>"
      "length statuses = length (tm_groups u)"
    using assms by (auto simp: timeline_turns_def rbind_eq_Inr)
  have "turn_groups \<circ> finish_turn = turn_groups" by (auto simp: turn_groups_def finish_turn_def)
  then show ?thesis
    using faithful_timeline [OF u(1)] u(2,3) by (simp add: faithful_def whole_def tool_identity_def [abs_def])
qed

definition timeline_log :: "session_event list" where
  "timeline_log = [ev0 ''session_created'' [], ev0 ''user_message'' [(''message'', JStr ''go'')],
     ev0 ''assistant_tool_calls'' [(''message'', JStr ''look''), (''tool_calls'', JArr [
       JObj [(''call_id'', JStr ''a''), (''name'', JStr ''read_file''), (''arguments'', JObj [(''path'', JStr ''x.py'')])],
       JObj [(''call_id'', JStr ''b''), (''name'', JStr ''run_command'')]])],
     ev0 ''tool_result'' [(''call_id'', JStr ''a''), (''result'', JObj [(''ok'', JBool False), (''error'', JStr ''missing'')])],
     ev0 ''turn_terminated'' [(''reason'', JStr ''user_stop'')]]"

lemma timeline_shows_every_call_witness:
  "\<exists>t statuses. timeline_turns timeline_log [] = Inr (t, statuses) \<and> map (\<lambda>v. (tv_call v, tv_tool v)) (tm_tools t) = [(''a'', ''read_file''), (''b'', ''run_command'')]
     \<and> map tv_status (tm_tools t) = [''failed'', ''cancelled''] \<and> map fst statuses = [''failed'']"
proof -
  have "(case timeline_turns timeline_log [] of Inl e \<Rightarrow> False
      | Inr (t, statuses) \<Rightarrow> map tv_status (tm_tools t) = [''failed'', ''cancelled''] \<and> map fst statuses = [''failed''])" by code_simp
  then obtain t statuses where t: "timeline_turns timeline_log [] = Inr (t, statuses)"
      "map tv_status (tm_tools t) = [''failed'', ''cancelled'']" "map fst statuses = [''failed'']"
    by (auto split: sum.splits)
  have "concat (map announced_calls (turn_events timeline_log)) = [(''a'', ''read_file''), (''b'', ''run_command'')]" by code_simp
  then show ?thesis using timeline_shows_every_call [OF t(1)] t by auto
qed

end
