(* ===== verification/Product_Detail.thy ===== *)
theory Product_Detail
  imports Product_Timeline
begin

text \<open>
  \<^verbatim>\<open>build_session_detail\<close> of \<^verbatim>\<open>product/read_model.py\<close>: all that a client is shown of a session, put together.
\<close>

section \<open>The detail of a session\<close>

text \<open>The parts that the product service changes; a validation of changes that were applied is history.\<close>

record session_detail =
  sd_summary :: session_summary
  sd_changes :: changes_view
  sd_validation :: "validation_view option"
  sd_historical :: bool
  sd_actions :: actions
  sd_reasons :: "(string \<times> string) list"
  sd_attention :: string
  sd_notice :: "(string \<times> string) option"
  sd_budget :: turn_budget
  sd_activity :: activity_view
  sd_recent :: "activity list"
  sd_conversation :: "conversation_item list"
  sd_receipt :: "receipt_view option"
  sd_last_seq :: int
  sd_turns :: "timeline \<times> (string \<times> string) list"

definition seq_value :: "session_event \<Rightarrow> int" where
  "seq_value e = (case ev_seq e of None \<Rightarrow> 0 | Some n \<Rightarrow> n)"

definition shown_validation :: "changes_view \<Rightarrow> validation_view option \<Rightarrow> validation_view option" where
  "shown_validation changes v = (if cv_state changes = ''applied'' then map_option (\<lambda>w. w\<lparr>vv_current := False\<rparr>) v else v)"

definition detail_of :: "dict \<Rightarrow> session_event list \<Rightarrow> changes_view \<Rightarrow> session_summary \<Rightarrow> session_detail res" where
  "detail_of meta es changes summary =
     rbind (validation_summary es meta) (\<lambda>validation0. let validation = shown_validation changes validation0 in
     rbind (available_actions meta es changes) (\<lambda>a.
     rbind (timeline_turns es meta) (\<lambda>turns. rbind (activity_summary es changes) (\<lambda>activity.
     rbind (turn_budget_view meta es) (\<lambda>budget. Inr
       \<lparr>sd_summary = summary, sd_changes = changes, sd_validation = validation,
        sd_historical = (cv_state changes = ''applied'' \<and> validation \<noteq> None), sd_actions = a,
        sd_reasons = action_reasons meta changes a validation, sd_attention = su_attention summary, sd_notice = global_attention meta es,
        sd_budget = budget, sd_activity = activity, sd_recent = recent_activity es, sd_conversation = conversation_view es,
        sd_receipt = delivery_receipt es, sd_last_seq = max_default 0 (map seq_value es), sd_turns = turns\<rparr>)))))"

definition build_session_detail :: "review_env \<Rightarrow> session_detail review_prog" where
  "build_session_detail V = bnd (in_store read_meta) (\<lambda>meta. bnd (in_store read_events) (\<lambda>es.
     bnd (inspect_changes V) (\<lambda>changes. bnd (build_session_summary V meta) (\<lambda>summary.
     lift (detail_of meta es changes summary)))))"

end
