(* ===== verification/Product_Service.thy ===== *)
theory Product_Service
  imports Product_Detail Repository_Reads
begin

text \<open>
  \<^verbatim>\<open>product/service.py\<close> and the dispatch of \<^verbatim>\<open>product/rpc.py\<close>: the requests a client makes. The service loads sessions by
  identity, shows them as \<^theory_text>\<open>Product_Detail\<close> computes, and hands work to the supervisor and to the resolution of changes. A request
  is one step: a worker moves before it or after it.
\<close>

section \<open>State\<close>

text \<open>
  What creating a session is asked for: the resolved workspace and whether it is a directory, and the temperature as its text with
  the answer to \<^verbatim>\<open>0 <= t <= 2\<close>. The environment gives the identity and the directory of a new session, resolves workspaces, reads
  floats and lists the directory of the sessions.
\<close>

record create_request =
  cr_root :: string
  cr_is_dir :: bool
  cr_title :: "string option"
  cr_model :: model_config
  cr_temperature :: "(bool \<times> string) option"
  cr_steps :: int
  cr_limit :: int

record product_env =
  pv_sup :: supervisor_env
  pv_review :: "string \<Rightarrow> review_env"
  pv_root :: string
  pv_identity :: "nat \<Rightarrow> string \<times> string"
  pv_workspace :: "json \<Rightarrow> (string \<times> bool) res"
  pv_float :: "json \<Rightarrow> (bool \<times> string) res"
  pv_listing :: "json \<Rightarrow> supervisor \<Rightarrow> (string \<times> dict) list"

text \<open>The sessions are the stores of the supervisor; the store of a review state is replaced by the one of the session.\<close>

record product =
  pr_sup :: supervisor
  pr_review :: "string \<Rightarrow> review_state"

type_synonym 'a product_prog = "(product, 'a) prog"

definition product_error :: "string \<Rightarrow> exn" where
  "product_error why = Exn ProductError why"

definition in_sup :: "'a sup_prog \<Rightarrow> 'a product_prog" where
  "in_sup m = (\<lambda>s. case m (pr_sup s) of (r, t) \<Rightarrow> (r, s\<lparr>pr_sup := t\<rparr>))"

definition in_review :: "string \<Rightarrow> 'a review_prog \<Rightarrow> 'a product_prog" where
  "in_review sid m = (\<lambda>s. case sv_stores (pr_sup s) sid of
     None \<Rightarrow> (Inl (product_error ''not found''), s)
   | Some st \<Rightarrow> (case m ((pr_review s sid)\<lparr>rs_store := st\<rparr>) of (r, t) \<Rightarrow>
       (r, s\<lparr>pr_sup := (pr_sup s)\<lparr>sv_stores := (sv_stores (pr_sup s))(sid \<mapsto> rs_store t)\<rparr>, pr_review := (pr_review s)(sid := t)\<rparr>)))"

text \<open>\<^verbatim>\<open>_load\<close>: the identity must be a text of an existing session that can be read.\<close>

definition load_errors :: "exn_class set" where
  "load_errors = {OSError, SessionStoreError, ValueError}"

definition load_session :: "string \<Rightarrow> unit product_prog" where
  "load_session sid = (if strip sid = [] then raise (product_error ''sessionId is required'')
     else bnd (gets (\<lambda>s. sv_stores (pr_sup s) sid)) (\<lambda>st. case st of
        None \<Rightarrow> raise (product_error ''session not found'')
      | Some x \<Rightarrow> if truthy (dget (st_meta x) ''error'') then raise (product_error ''session not found'')
          else (case check_meta (st_meta x) of Inr m \<Rightarrow> ret ()
            | Inl e \<Rightarrow> raise (if exn_class e \<in> load_errors then product_error (exn_code e) else e))))"

text \<open>\<^verbatim>\<open>except ExecutionConflictError\<close> and the errors of a resolution, which become errors of the product.\<close>

definition translated :: "exn_class set \<Rightarrow> 'a product_prog \<Rightarrow> 'a product_prog" where
  "translated classes m = try_catch m (\<lambda>e. raise (if exn_class e \<in> classes then product_error (exn_code e) else e))"

section \<open>Showing a session\<close>

definition gate_actions :: "string \<Rightarrow> bool \<Rightarrow> actions \<Rightarrow> actions" where
  "gate_actions state pending a = (let idle = (state = ''idle'') in
     \<lparr>can_run = (can_run a \<and> idle), can_continue = (can_continue a \<and> idle), can_increase_budget = (can_increase_budget a \<and> idle),
      can_stop = (state \<in> {''running'', ''awaiting_approval''} \<or> idle \<and> can_stop a), can_resolve_approval = pending,
      can_view_changes = can_view_changes a, can_accept_changes = (can_accept_changes a \<and> idle),
      can_discard_changes = (can_discard_changes a \<and> idle)\<rparr>)"

definition gate_reasons :: "string \<Rightarrow> (string \<times> string) list \<Rightarrow> (string \<times> string) list" where
  "gate_reasons state reasons = (if state = ''idle'' then reasons
     else AList.update ''canDiscardChanges'' ''Wait for the current execution to stop before discarding changes.''
       (AList.update ''canAcceptChanges'' ''Wait for the current execution to stop before applying changes.'' reasons))"

definition ids_of :: "string \<Rightarrow> string \<Rightarrow> session_event list \<Rightarrow> json list" where
  "ids_of ty k es = map (\<lambda>e. dget (ev_payload e) k) (filter (\<lambda>e. ev_type e = ty) es)"

text \<open>\<^verbatim>\<open>_interrupted_control\<close>.\<close>

definition interrupted_control :: "session_event list \<Rightarrow> string option" where
  "interrupted_control es =
     (if \<not> set (ids_of ''approval_requested'' ''approval_id'' es) \<subseteq> set (ids_of ''approval_decision'' ''approval_id'' es)
      then Some ''Previous approval was interrupted; permission was not granted''
      else if \<not> set (ids_of ''execution_stop_requested'' ''job_id'' es) \<subseteq> set (ids_of ''execution_stop_acknowledged'' ''job_id'' es)
      then Some ''Previous stop was interrupted before acknowledgement'' else None)"

record shown_session =
  sh_detail :: session_detail
  sh_state :: string
  sh_pending :: "dict option"
  sh_interrupted :: "string option"

definition shown_detail :: "string \<Rightarrow> dict option \<Rightarrow> session_event list \<Rightarrow> session_detail \<Rightarrow> shown_session" where
  "shown_detail state pending es d =
     (let gated = d\<lparr>sd_actions := gate_actions state (pending \<noteq> None) (sd_actions d), sd_reasons := gate_reasons state (sd_reasons d)\<rparr>;
          interrupted = (if pending = None \<and> state = ''idle'' then interrupted_control es else None) in
      \<lparr>sh_detail = (if pending \<noteq> None then gated\<lparr>sd_attention := ''Approval required''\<rparr>
         else case interrupted of None \<Rightarrow> gated
           | Some why \<Rightarrow> gated\<lparr>sd_attention := why, sd_notice := Some (''interrupted'', why)\<rparr>),
       sh_state = state, sh_pending = pending, sh_interrupted = interrupted\<rparr>)"

definition get_session :: "product_env \<Rightarrow> string \<Rightarrow> shown_session product_prog" where
  "get_session V sid = seq_then (load_session sid)
     (bnd (in_review sid (build_session_detail (pv_review V sid))) (\<lambda>d.
      bnd (in_review sid (in_store read_events)) (\<lambda>es.
      bnd (gets (\<lambda>s. (execution_state sid (pr_sup s), pending_approval_view sid (pr_sup s)))) (\<lambda>(state, pending).
      ret (shown_detail state pending es d)))))"

definition list_errors :: "exn_class set" where
  "list_errors = {KeyError, OSError, SessionStoreError, ValueError}"

definition state_attention :: "string \<Rightarrow> string \<Rightarrow> string" where
  "state_attention state shown = (if state = ''awaiting_approval'' then ''Approval required''
     else if state = ''stopping'' then ''Stopping'' else if state = ''running'' then ''Running'' else shown)"

definition list_row :: "product_env \<Rightarrow> string \<Rightarrow> dict \<Rightarrow> (session_summary \<times> string) product_prog" where
  "list_row V sid meta = try_catch
     (bnd (in_review sid (build_session_summary (pv_review V sid) meta)) (\<lambda>u.
      bnd (gets (\<lambda>s. execution_state (su_session u) (pr_sup s))) (\<lambda>state.
      ret (u\<lparr>su_attention := state_attention state (su_attention u)\<rparr>, state))))
     (\<lambda>e. if exn_class e \<in> list_errors
      then ret ((unreadable_summary meta)\<lparr>su_workspace := py_str (dget_or meta ''workspace'' (JStr [])),
         su_attention := ''Session data needs attention: '' @ exn_code e, su_active_at := dget meta ''last_active_at''\<rparr>, ''idle'')
      else raise e)"

fun list_rows_of :: "product_env \<Rightarrow> (string \<times> dict) list \<Rightarrow> (session_summary \<times> string) list product_prog" where
  "list_rows_of V [] = ret []"
| "list_rows_of V ((sid, meta) # ms) = bnd (list_row V sid meta) (\<lambda>r. bnd (list_rows_of V ms) (\<lambda>rs. ret (r # rs)))"

section \<open>Running and deciding\<close>

definition run_session :: "product_env \<Rightarrow> string \<Rightarrow> string \<Rightarrow> string product_prog" where
  "run_session V sid said = (if strip said = [] \<or> 20000 < py_len said then raise (product_error ''message'')
     else translated {ExecutionConflictError} (seq_then (load_session sid) (in_sup (start_job (pv_sup V) sid (Some (strip said)) False None))))"

definition continue_session :: "product_env \<Rightarrow> string \<Rightarrow> string product_prog" where
  "continue_session V sid = bnd (get_session V sid) (\<lambda>d.
     if \<not> can_continue (sd_actions (sh_detail d)) then raise (product_error ''current UserTurn cannot continue'')
     else translated {ExecutionConflictError} (seq_then (load_session sid) (in_sup (start_job (pv_sup V) sid None True None))))"

definition stop_session :: "product_env \<Rightarrow> string \<Rightarrow> bool product_prog" where
  "stop_session V sid = seq_then (load_session sid) (in_sup (stop_job (pv_sup V) sid))"

definition increase_budget :: "product_env \<Rightarrow> string \<Rightarrow> increase_request \<Rightarrow> string product_prog" where
  "increase_budget V sid request =
     translated {ExecutionConflictError} (seq_then (load_session sid) (in_sup (start_job (pv_sup V) sid None True (Some request))))"

definition resolve_request :: "string \<Rightarrow> string \<Rightarrow> json \<Rightarrow> unit product_prog" where
  "resolve_request sid approval allow = (case allow of
     JBool b \<Rightarrow> translated {ExecutionConflictError} (in_sup (resolve_approval sid approval b))
   | _ \<Rightarrow> raise (product_error ''allow must be a boolean''))"

text \<open>The approval that the candidate asks for is given: \<^verbatim>\<open>lambda _manifest, _patch: True\<close>.\<close>

definition approving :: "review_env \<Rightarrow> review_env" where
  "approving V = V\<lparr>rv_approve := (\<lambda>n manifest patch. Inr True)\<rparr>"

definition require_idle :: "string \<Rightarrow> unit product_prog" where
  "require_idle sid = bnd (gets (\<lambda>s. execution_state sid (pr_sup s))) (\<lambda>state.
     if state \<noteq> ''idle'' then raise (product_error ''execution is running'') else ret ())"

definition accept_changes :: "product_env \<Rightarrow> string \<Rightarrow> apply_receipt product_prog" where
  "accept_changes V sid = seq_then (require_idle sid) (translated {CurrentChangesError, CandidateError}
     (seq_then (load_session sid) (in_review sid (accept (approving (pv_review V sid))))))"

definition discard_changes :: "product_env \<Rightarrow> string \<Rightarrow> dict product_prog" where
  "discard_changes V sid = seq_then (require_idle sid) (translated {CurrentChangesError, CandidateError}
     (seq_then (load_session sid) (in_review sid (discard (pv_review V sid)))))"

section \<open>Creating\<close>

definition check_create :: "create_request \<Rightarrow> model_config res" where
  "check_create r = (if \<not> cr_is_dir r then Inl (product_error ''workspace not found'')
     else case check_model_config (cr_model r) of
       Inl e \<Rightarrow> Inl (if exn_class e = ValueError then product_error (exn_code e) else e)
     | Inr c \<Rightarrow>
         if mc_provider c \<notin> {''fake'', ''deepseek'', ''glm''} then Inl (product_error ''unknown provider'')
         else if (case cr_temperature r of None \<Rightarrow> False | Some (inside, t) \<Rightarrow> \<not> inside) then Inl (product_error ''temperature'')
         else if (case mc_max_tokens c of None \<Rightarrow> False | Some n \<Rightarrow> \<not> (1 \<le> n \<and> n \<le> 131072)) then Inl (product_error ''maxTokens'')
         else if \<not> (1 \<le> cr_steps r \<and> cr_steps r \<le> 100) then Inl (product_error ''maxStepsPerTurn'')
         else if \<not> (cr_steps r \<le> cr_limit r \<and> cr_limit r \<le> 1000) then Inl (product_error ''maxModelStepsPerUserTurn'')
         else Inr c)"

definition opt_int_json :: "int option \<Rightarrow> json" where
  "opt_int_json v = (case v of None \<Rightarrow> JNull | Some n \<Rightarrow> JInt n)"

definition created_options :: "create_request \<Rightarrow> model_config \<Rightarrow> dict \<times> dict" where
  "created_options r c = ([(''temperature'', case cr_temperature r of None \<Rightarrow> JNull | Some (inside, t) \<Rightarrow> JFloat t), (''max_tokens'', opt_int_json (mc_max_tokens c)),
      (''reasoning_enabled'', JBool (mc_reasoning_enabled c)), (''reasoning_effort'', opt_str (resolved_reasoning_effort c))],
     [(''max_steps_per_turn'', JInt (cr_steps r)), (''max_model_steps_per_user_turn'', JInt (cr_limit r))])"

text \<open>The directory of the session must be new.\<close>

definition store_session :: "product_env \<Rightarrow> nat \<Rightarrow> create_request \<Rightarrow> model_config \<Rightarrow> string product_prog" where
  "store_session V n r c = (case (pv_identity V n, created_options r c) of ((sid, key), (mo, ro)) \<Rightarrow>
     bnd (gets (\<lambda>s. sv_stores (pr_sup s) sid)) (\<lambda>old. if old \<noteq> None then raise (Exn OSError ''mkdir'')
     else case create_session (se_now (pv_sup V) n) (cr_root r) sid (pv_root V) key (mc_provider c) (resolved_model c) (cr_title r) mo ro of
         (Inl e, st) \<Rightarrow> raise e
       | (Inr u, st) \<Rightarrow> seq_then (in_sup (modify (\<lambda>s. s\<lparr>sv_stores := (sv_stores s)(sid \<mapsto> st)\<rparr>))) (ret sid)))"

definition new_session :: "product_env \<Rightarrow> create_request \<Rightarrow> shown_session product_prog" where
  "new_session V r = bnd (lift (check_create r)) (\<lambda>c. bnd (in_sup sup_tick) (\<lambda>n.
     bnd (store_session V n r c) (get_session V)))"

section \<open>Changes\<close>

text \<open>\<^verbatim>\<open>len(data.splitlines())\<close> of bytes, and the count of a file that Git does not track, if it looks like text.\<close>

definition byte_lines :: "char list \<Rightarrow> nat" where
  "byte_lines b = (let t = universal_newlines b in
     length (filter (\<lambda>c. c = CHR 0x0A) t) + (if t = [] \<or> last t = CHR 0x0A then 0 else 1))"

definition untracked_counts :: "host \<Rightarrow> path \<Rightarrow> json \<times> json" where
  "untracked_counts h p = (case stat_walk (ho_fs h) (ho_links h) [] p of None \<Rightarrow> (JInt 0, JInt 0)
     | Some r \<Rightarrow> (case node_at (ho_fs h) r of
         Some (File m b) \<Rightarrow> if CHR 0x00 \<in> set (take 8192 b) then (JNull, JNull) else (JInt (int (byte_lines b)), JInt 0)
       | _ \<Rightarrow> (JInt 0, JInt 0)))"

text \<open>The rest of a numstat line after its second tab is the name.\<close>

definition numstat_row :: "string \<Rightarrow> (string \<times> (json \<times> json)) option" where
  "numstat_row line = (case split_on CHR 0x09 line of
     a # b # c # others \<Rightarrow> Some (join [CHR 0x09] (c # others), (count_text a, count_text b)) | _ \<Rightarrow> None)"

definition tracked_counts :: "process_result \<Rightarrow> (string \<times> (json \<times> json)) list res" where
  "tracked_counts call = (case call of (rc, out, err) \<Rightarrow> rbind (utf8_decode out) (\<lambda>t. rbind (utf8_decode err) (\<lambda>u.
     Inr (if rc \<noteq> 0 then [] else rev (List.map_filter numstat_row (splitlines t))))))"

definition file_counts :: "host \<Rightarrow> path \<Rightarrow> (string \<times> (json \<times> json)) list \<Rightarrow> string \<Rightarrow> string \<times> json \<times> json" where
  "file_counts h root tracked p = (p, case map_of tracked p of Some c \<Rightarrow> c | None \<Rightarrow> untracked_counts h (root @ split_on CHR ''/'' p))"

definition int_or_zero :: "json \<Rightarrow> int" where
  "int_or_zero v = (case v of JInt n \<Rightarrow> n | _ \<Rightarrow> 0)"

record change_stats =
  cs_additions :: int
  cs_deletions :: int
  cs_rows :: "(string \<times> json \<times> json) list"

definition stats_of :: "(string \<times> json \<times> json) list \<Rightarrow> change_stats" where
  "stats_of rows = \<lparr>cs_additions = sum_list (map (\<lambda>(p, a, d). int_or_zero a) rows),
     cs_deletions = sum_list (map (\<lambda>(p, a, d). int_or_zero d) rows), cs_rows = rows\<rparr>"

definition host_at :: "review_env \<Rightarrow> nat \<Rightarrow> host" where
  "host_at V n = \<lparr>ho_fs = rv_fs V n, ho_links = rv_links V, ho_stat = (\<lambda>p. \<lparr>ri_device = 0, ri_inode = 0, ri_mode = 0, ri_size = 0, ri_mtime = 0\<rparr>),
     ho_home = (\<lambda>u. None)\<rparr>"

definition pending_stats :: "review_env \<Rightarrow> string list \<Rightarrow> change_stats review_prog" where
  "pending_stats V files = (if files = [] \<or> rv_kind V \<noteq> ''git_worktree'' then ret (stats_of [])
     else case rv_base V of None \<Rightarrow> raise (Exn TypeError ''argv'')
       | Some base \<Rightarrow> bnd (rv_call V (rv_active V) ([''diff'', ''--numstat'', base, ''--''] @ files) []) (\<lambda>call.
           bnd (lift (tracked_counts call)) (\<lambda>tracked. bnd rv_tick (\<lambda>n.
           ret (stats_of (map (file_counts (host_at V n) (rv_active V) tracked) files))))))"

definition applied_rows :: "dict \<Rightarrow> (string \<times> json \<times> json) list" where
  "applied_rows d = map (\<lambda>row. (case row_field ''path'' row of JStr p \<Rightarrow> p | _ \<Rightarrow> [], row_field ''additions'' row, row_field ''deletions'' row))
     (case dget d ''fileStats'' of JArr rows \<Rightarrow> rows | _ \<Rightarrow> [])"

record changes_detail =
  cd_changes :: changes_view
  cd_stats :: change_stats
  cd_validation :: "validation_view option"
  cd_can_accept :: bool
  cd_can_discard :: bool

definition get_changes :: "product_env \<Rightarrow> string \<Rightarrow> changes_detail product_prog" where
  "get_changes V sid = bnd (get_session V sid) (\<lambda>d. seq_then (load_session sid)
     (let v = sd_changes (sh_detail d) in
      bnd (if cv_state v = ''applied''
           then ret \<lparr>cs_additions = int_or_zero (dget (cv_summary v) ''additions''), cs_deletions = int_or_zero (dget (cv_summary v) ''deletions''),
                  cs_rows = applied_rows (cv_summary v)\<rparr>
           else in_review sid (pending_stats (pv_review V sid) (cv_files v))) (\<lambda>stats.
      ret \<lparr>cd_changes = v, cd_stats = stats, cd_validation = sd_validation (sh_detail d),
        cd_can_accept = can_accept_changes (sd_actions (sh_detail d)), cd_can_discard = can_discard_changes (sd_actions (sh_detail d))\<rparr>)))"

text \<open>\<^verbatim>\<open>_git_file\<close>: a file that the revision does not have is empty.\<close>

definition baseline_file :: "review_env \<Rightarrow> string \<Rightarrow> char list review_prog" where
  "baseline_file V p = bnd (rv_call V (rv_active V) [''show'', (case rv_base V of None \<Rightarrow> ''None'' | Some b \<Rightarrow> b) @ '':'' @ p] []) (\<lambda>(rc, out, err).
     if rc = 0 then ret out
     else if contains_str ''does not exist'' err \<or> contains_str ''exists on disk'' err \<or> contains_str (''Path '' @ [CHR 0x27]) err then ret []
     else raise (product_error ''failed to read baseline file''))"

definition file_content :: "fs \<Rightarrow> path \<Rightarrow> char list" where
  "file_content fs p = (case node_at fs p of Some (File m b) \<Rightarrow> b | _ \<Rightarrow> [])"

definition max_shown_bytes :: nat where
  "max_shown_bytes = 512000"

definition pending_file :: "review_env \<Rightarrow> string \<Rightarrow> (string \<times> string) review_prog" where
  "pending_file V p = bnd rv_tick (\<lambda>n.
     bnd (lift (case guard_resolve (rv_fs V n) (rv_links V) (rv_active V) True p of
         Inl e \<Rightarrow> Inl (if exn_class e = PathGuardError then product_error (exn_code e) else e) | Inr r \<Rightarrow> Inr r)) (\<lambda>target.
     bnd (baseline_file V p) (\<lambda>before. bnd rv_tick (\<lambda>m. let after = file_content (rv_fs V m) target in
     if max_shown_bytes < length before \<or> max_shown_bytes < length after then raise (product_error ''preview size'')
     else if utf8_valid before \<and> utf8_valid after then ret (before, after)
     else raise (product_error ''binary'')))))"

definition get_change_file :: "product_env \<Rightarrow> string \<Rightarrow> string \<Rightarrow> (string \<times> string) product_prog" where
  "get_change_file V sid p = seq_then (load_session sid) (bnd (get_session V sid) (\<lambda>d. let v = sd_changes (sh_detail d) in
     if p \<notin> set (cv_files v) then raise (product_error ''not part of the changes'')
     else if cv_state v = ''applied''
     then translated {AppliedChangesError} (in_review sid (read_delivery_file (JStr (py_str (dget (cv_summary v) ''deliveryId''))) p))
     else in_review sid (pending_file (pv_review V sid) p)))"

section \<open>Events\<close>

record event_page =
  ep_events :: "session_event list"
  ep_last :: int
  ep_more :: bool

definition events_page :: "int \<Rightarrow> int \<Rightarrow> session_event list \<Rightarrow> event_page" where
  "events_page after limit es = (let later = filter (\<lambda>e. after < seq_value e) es; page = take (nat limit) later in
     \<lparr>ep_events = page, ep_last = (if page = [] then after else seq_value (last page)), ep_more = (length page < length later)\<rparr>)"

definition get_events :: "string \<Rightarrow> int \<Rightarrow> int \<Rightarrow> event_page product_prog" where
  "get_events sid after limit = (if after < 0 then raise (product_error ''afterSeq'')
     else if \<not> (1 \<le> limit \<and> limit \<le> 1000) then raise (product_error ''limit'')
     else seq_then (load_session sid) (bnd (in_sup (in_session sid read_events)) (\<lambda>es. ret (events_page after limit es))))"

section \<open>Requests\<close>

datatype rpc_result = RpcInitialized | RpcSessions "(session_summary \<times> string) list" | RpcSession shown_session | RpcEvents event_page
  | RpcStarted string | RpcStopped bool | RpcResolved | RpcChanges changes_detail | RpcFile "string \<times> string"
  | RpcAccepted apply_receipt | RpcDiscarded dict

definition unknown_method :: string where
  "unknown_method = ''method not found''"

definition text_of_param :: "dict \<Rightarrow> string \<Rightarrow> string res" where
  "text_of_param d k = rbind (dindex d k) (\<lambda>v. Inr (py_str v))"

definition optional_int :: "json \<Rightarrow> int option res" where
  "optional_int v = (if v = JNull then Inr None else rbind (py_int v) (\<lambda>n. Inr (Some n)))"

definition optional_float :: "product_env \<Rightarrow> json \<Rightarrow> (bool \<times> string) option res" where
  "optional_float V v = (if v = JNull then Inr None else rbind (pv_float V v) (\<lambda>x. Inr (Some x)))"

definition optional_bool :: "json \<Rightarrow> bool \<Rightarrow> bool res" where
  "optional_bool v default_value = (case v of JNull \<Rightarrow> Inr default_value | JBool b \<Rightarrow> Inr b | _ \<Rightarrow> Inl (Exn ValueError ''expected boolean''))"

definition optional_string :: "json \<Rightarrow> string option res" where
  "optional_string v = (case v of JNull \<Rightarrow> Inr None
     | JStr t \<Rightarrow> if strip t = [] then Inl (Exn ValueError ''expected non-empty string'') else Inr (Some (strip t))
     | _ \<Rightarrow> Inl (Exn ValueError ''expected non-empty string''))"

text \<open>The arguments of \<^verbatim>\<open>session/create\<close>, read in the order of the call; a title or a model that is no text counts as none.\<close>

definition create_arguments :: "product_env \<Rightarrow> dict \<Rightarrow> create_request res" where
  "create_arguments V d = rbind (dindex d ''workspace'') (\<lambda>w.
     rbind (optional_float V (dget d ''temperature'')) (\<lambda>t. rbind (optional_int (dget d ''maxTokens'')) (\<lambda>tokens.
     rbind (optional_bool (dget d ''reasoningEnabled'') False) (\<lambda>reasoning. rbind (optional_string (dget d ''reasoningEffort'')) (\<lambda>effort.
     rbind (py_int (dget_or d ''maxStepsPerTurn'' (JInt 12))) (\<lambda>steps. rbind (py_int (dget_or d ''maxModelStepsPerUserTurn'' (JInt 48))) (\<lambda>limit.
     rbind (pv_workspace V w) (\<lambda>(root, there). Inr
       \<lparr>cr_root = root, cr_is_dir = there, cr_title = as_str (dget d ''title''),
        cr_model = \<lparr>mc_provider = py_str (dget_or d ''provider'' (JStr ''fake'')), mc_model = as_str (dget d ''model''),
          mc_temperature = map_option snd t, mc_max_tokens = tokens, mc_reasoning_enabled = reasoning, mc_reasoning_effort = effort\<rparr>,
        cr_temperature = t, cr_steps = steps, cr_limit = limit\<rparr>))))))))"

definition with_session :: "dict \<Rightarrow> (string \<Rightarrow> rpc_result product_prog) \<Rightarrow> rpc_result product_prog" where
  "with_session d f = bnd (lift (text_of_param d ''sessionId'')) f"

definition rpc_sessions :: "product_env \<Rightarrow> string \<Rightarrow> dict \<Rightarrow> rpc_result product_prog" where
  "rpc_sessions V method d =
     (if method = ''session/list'' then bnd (gets (\<lambda>s. pv_listing V (dget d ''workspace'') (pr_sup s))) (\<lambda>metas.
         bnd (list_rows_of V metas) (\<lambda>rs. ret (RpcSessions rs)))
      else if method = ''session/get'' then with_session d (\<lambda>sid. bnd (get_session V sid) (\<lambda>r. ret (RpcSession r)))
      else if method = ''session/events'' then with_session d (\<lambda>sid.
         bnd (lift (py_int (dget_or d ''afterSeq'' (JInt 0)))) (\<lambda>after. bnd (lift (py_int (dget_or d ''limit'' (JInt 200)))) (\<lambda>limit.
         bnd (get_events sid after limit) (\<lambda>r. ret (RpcEvents r)))))
      else if method = ''session/create'' then bnd (lift (create_arguments V d)) (\<lambda>r. bnd (new_session V r) (\<lambda>x. ret (RpcSession x)))
      else if method = ''session/run'' then with_session d (\<lambda>sid. bnd (lift (text_of_param d ''message'')) (\<lambda>said.
         bnd (run_session V sid said) (\<lambda>j. ret (RpcStarted j))))
      else if method = ''session/continue'' then with_session d (\<lambda>sid. bnd (continue_session V sid) (\<lambda>j. ret (RpcStarted j)))
      else if method = ''session/stop'' then with_session d (\<lambda>sid. bnd (stop_session V sid) (\<lambda>b. ret (RpcStopped b)))
      else if method = ''session/increaseBudget'' then with_session d (\<lambda>sid. bnd (lift (dindex d ''turnId'')) (\<lambda>turn.
         bnd (lift (dindex d ''expectedLimit'')) (\<lambda>expected.
         bnd (increase_budget V sid (turn, expected, dget d ''newLimit'', dget d ''additionalSteps'')) (\<lambda>j. ret (RpcStarted j)))))
      else raise (product_error unknown_method))"

definition rpc_call :: "product_env \<Rightarrow> string \<Rightarrow> dict \<Rightarrow> rpc_result product_prog" where
  "rpc_call V method d =
     (if method = ''initialize'' then
        (if dget_or d ''protocolVersion'' (JStr ''1.0'') \<noteq> JStr ''1.0'' then raise (product_error ''protocolVersion'') else ret RpcInitialized)
      else if method = ''approval/resolve'' then with_session d (\<lambda>sid. bnd (lift (text_of_param d ''approvalId'')) (\<lambda>a.
         bnd (lift (dindex d ''allow'')) (\<lambda>allow. bnd (resolve_request sid a allow) (\<lambda>u. ret RpcResolved))))
      else if method = ''changes/get'' then with_session d (\<lambda>sid. bnd (get_changes V sid) (\<lambda>r. ret (RpcChanges r)))
      else if method = ''changes/file'' then with_session d (\<lambda>sid. bnd (lift (text_of_param d ''path'')) (\<lambda>p.
         bnd (get_change_file V sid p) (\<lambda>r. ret (RpcFile r))))
      else if method = ''changes/accept'' then with_session d (\<lambda>sid. bnd (accept_changes V sid) (\<lambda>r. ret (RpcAccepted r)))
      else if method = ''changes/discard'' then with_session d (\<lambda>sid. bnd (discard_changes V sid) (\<lambda>r. ret (RpcDiscarded r)))
      else rpc_sessions V method d)"

datatype rpc_response = RpcSilent | RpcError json int | RpcAnswer json rpc_result

definition error_number :: "exn \<Rightarrow> int" where
  "error_number e = (if exn_class e = ProductError then (if exn_code e = unknown_method then -32601 else -32004)
     else if exn_class e \<in> {KeyError, TypeError, ValueError, UnicodeDecodeError, JSONDecodeError} then -32602 else -32603)"

text \<open>A request without an identity is a notification: it is neither run nor answered.\<close>

definition dispatch :: "product_env \<Rightarrow> dict \<Rightarrow> rpc_response product_prog" where
  "dispatch V request = (let i = dget request ''id'' in
     case as_str (dget request ''method'') of
       None \<Rightarrow> ret (RpcError i (-32600))
     | Some method \<Rightarrow>
         if dget request ''jsonrpc'' \<noteq> JStr ''2.0'' then ret (RpcError i (-32600))
         else if \<not> has_key ''id'' request then ret RpcSilent
         else case as_obj (dget_or request ''params'' (JObj [])) of
             None \<Rightarrow> ret (RpcError i (-32602))
           | Some d \<Rightarrow> try_catch (bnd (rpc_call V method d) (\<lambda>r. ret (RpcAnswer i r))) (\<lambda>e. ret (RpcError i (error_number e))))"

end
