(* ===== verification/Product_Properties.thy ===== *)
theory Product_Properties
  imports Product_Service Supervisor_Machine
begin

text \<open>
  The properties of the product service: the actions it offers are the ones the supervisor accepts, and the pages of its
  events are the log.
\<close>

section \<open>Pages of events\<close>

lemma seq_value_nth: "numbered_from n es \<Longrightarrow> i < length es \<Longrightarrow> seq_value (es ! i) = int (n + i)"
  by (simp add: seq_value_def numbered_from_nth)

lemma later_numbered: "numbered_from n es \<Longrightarrow> filter (\<lambda>e. a < seq_value e) es = drop (nat (a + 1 - int n)) es"
proof (induction es arbitrary: n)
  case (Cons e es)
  have v: "seq_value e = int n" and rest: "numbered_from (Suc n) es" using Cons.prems by (simp_all add: seq_value_def)
  show ?case
  proof (cases "a < int n")
    case True
    then have "filter (\<lambda>e. a < seq_value e) es = es" using Cons.IH [OF rest] by simp
    then show ?thesis using True v by simp
  next
    case False
    then have "nat (a + 1 - int n) = Suc (nat (a + 1 - int (Suc n)))" by simp
    then show ?thesis using False v Cons.IH [OF rest] by simp
  qed
qed simp

lemma events_page_numbered:
  assumes "numbered_from 1 es" and "0 \<le> after" and "after \<le> int (length es)" and "1 \<le> limit"
  shows "ep_events (events_page after limit es) = take (nat limit) (drop (nat after) es)
    \<and> ep_last (events_page after limit es) = min (after + limit) (int (length es))
    \<and> ep_more (events_page after limit es) = (after + limit < int (length es))"
proof -
  have later: "filter (\<lambda>e. after < seq_value e) es = drop (nat after) es" using later_numbered [OF assms(1), of after] by simp
  let ?page = "take (nat limit) (drop (nat after) es)"
  have len: "length ?page = nat (min limit (int (length es) - after))" using assms by (simp add: min_def nat_diff_distrib) linarith
  have p: "events_page after limit es = \<lparr>ep_events = ?page, ep_last = (if ?page = [] then after else seq_value (last ?page)),
      ep_more = (length ?page < length (drop (nat after) es))\<rparr>"
    by (simp only: events_page_def later Let_def)
  have "(if ?page = [] then after else seq_value (last ?page)) = min (after + limit) (int (length es))"
  proof (cases "?page = []")
    case True
    then show ?thesis using assms(2-4) by auto
  next
    case False
    let ?i = "nat after + (length ?page - 1)"
    have i: "?i < length es" and last_at: "last ?page = es ! ?i"
      using False assms by (auto simp: last_conv_nth)
    have "seq_value (last ?page) = int (1 + ?i)" unfolding last_at by (rule seq_value_nth [OF assms(1) i])
    also have "\<dots> = after + int (length ?page)" using False assms(2) by (cases "length ?page") auto
    also have "\<dots> = min (after + limit) (int (length es))" using len assms by (simp add: min_def)
    finally show ?thesis using False by simp
  qed
  then show ?thesis using len assms unfolding p by auto
qed

section \<open>Starting and stopping what is idle\<close>

lemma budget_of_view: "turn_budget_view (st_meta st) (st_events st) = Inr b \<Longrightarrow> log_ok st \<Longrightarrow> store_turn_budget st = (Inr b, st)"
  by (auto simp: turn_budget_view_def store_turn_budget_run default_limit_def split: option.splits)

lemma in_session_run: "sv_stores s sid = Some st \<Longrightarrow> m st = (r, st) \<Longrightarrow> in_session sid m s = (r, s)"
  by (cases s) (simp add: in_session_def fun_upd_idem)

lemma start_run:
  assumes "sv_stores s sid = Some st" and "sv_active s sid = None" and "store_turn_budget st = (Inr b, st)"
  shows "fst (start_job V sid said continuation increase s) \<in> range Inr \<longleftrightarrow> fst (check_start V sid said continuation increase b s) \<in> range Inr"
proof -
  note read = in_session_run [of s sid st store_turn_budget, OF assms(1,3)]
  show ?thesis
    by (cases "check_start V sid said continuation increase b s"; cases "fst (check_start V sid said continuation increase b s)")
      (auto simp: start_job_def assms(2) read bnd_def seq_then_def gets_def sup_tick_def modify_def ret_def Let_def)
qed

lemma increase_run:
  assumes "log_ok st" and "store_turn_budget st = (Inr b, st)" and "parse_ws (dget (st_meta st) ''workspace_state'') \<in> {Some SourceOnly, Some ChangesActive}"
    and "tb_waiting b" and "tb_turn b = Some t" and "t \<noteq> []" and "tb_limit b < 1000" and "\<not> tb_closed b"
  shows "fst (increase_turn_budget now (JStr t) (JInt (tb_limit b)) (JInt (tb_limit b + 1)) JNull st) \<in> range Inr"
proof -
  define p where "p = [(''previous_limit'', JInt (tb_limit b)), (''new_limit'', JInt (tb_limit b + 1)), (''additional_steps'', JInt 1),
     (''mode'', JStr ''total_limit''), (''steps_used_in_turn'', JInt (tb_used b)), (''source'', JStr ''user'')]"
  have run: "increase_turn_budget now (JStr t) (JInt (tb_limit b)) (JInt (tb_limit b + 1)) JNull st
      = store_turn_budget (with_event now ''turn_budget_increased'' p st)"
    using assms by (auto simp: increase_turn_budget_def bnd_def seq_then_def workspace_state_run lift_def resolve_limit_def append_event_run
        max_user_turn_budget_def p_def)
  obtain d where d: "default_limit st = Inr d" "current_turn_budget (st_events st) d = Inr b"
    using assms(1,2) by (auto simp: store_turn_budget_run rbind_eq_Inr)
  have "fst (store_turn_budget (with_event now ''turn_budget_increased'' p st)) \<in> range Inr"
    using budget_snoc [OF d(2), of "new_event now ''turn_budget_increased'' p st"] assms(1,5) d(1)
    by (simp add: store_turn_budget_run with_event_ok limit_step_def dindex_def p_def Let_def)
  then show ?thesis by (simp only: run)
qed

lemma safe_state: "v \<in> {JStr (ws_value SourceOnly), JStr (ws_value ChangesActive)} \<Longrightarrow> parse_ws v \<in> {Some SourceOnly, Some ChangesActive}"
  by (auto simp: parse_ws_def all_ws_def)

lemma stop_idle_run:
  assumes "sv_stores s sid = Some st" and "log_ok st" and "sv_active s sid = None" and "store_turn_budget st = (Inr b, st)"
  shows "fst (stop_job V sid s) = Inr (\<not> tb_closed b)"
proof -
  note read = in_session_run [of s sid st store_turn_budget, OF assms(1,4)]
  show ?thesis
    by (simp add: stop_job_def active_job_def assms(1-3) stop_idle_def read bnd_def seq_then_def gets_def sup_tick_def ret_def Let_def
        log_in_run with_event_ok)
qed

section \<open>A product with one idle session that waits for a larger budget\<close>

definition demo_product_env :: supervisor_env where
  "demo_product_env = \<lparr>se_uuid = (\<lambda>n. replicate (Suc n) CHR ''j''), se_now = (\<lambda>n. ''t9'')\<rparr>"

definition demo_product_supervisor :: supervisor where
  "demo_product_supervisor = \<lparr>sv_jobs = Map.empty, sv_owner = Map.empty, sv_active = Map.empty, sv_approvals = Map.empty,
     sv_threads = Map.empty, sv_stores = [''s1'' \<mapsto> demo_waiting], sv_clock = 1\<rparr>"

definition demo_product :: product where
  "demo_product = \<lparr>pr_sup = demo_product_supervisor, pr_review = (\<lambda>sid. \<lparr>rs_store = demo_waiting, rs_clock = 0, rs_frozen = no_frozen,
     rs_calls = [], rs_deliveries = []\<rparr>)\<rparr>"

section \<open>Properties\<close>

text \<open>
  C38. The actions that the product offers of an idle session are the ones the supervisor accepts: a message exactly if a run is offered,
  a stop that does something exactly if a stop is offered, and a continuation or one more step if they are offered.
\<close>

theorem offered_actions_are_accepted:
  assumes "session_reachable st" and "available_actions (st_meta st) (st_events st) changes = Inr a"
    and "sv_stores s sid = Some st" and "sv_active s sid = None"
  shows "(can_run a \<longleftrightarrow> fst (start_job V sid (Some said) False None s) \<in> range Inr)
    \<and> (can_stop a \<longleftrightarrow> fst (stop_job V sid s) = Inr True)
    \<and> (can_continue a \<longrightarrow> fst (start_job V sid None True None s) \<in> range Inr)
    \<and> (can_increase_budget a \<longrightarrow> (\<exists>b. turn_budget_view (st_meta st) (st_events st) = Inr b
        \<and> (has_turn b \<longrightarrow> fst (start_job V sid None True (Some (opt_str (tb_turn b), JInt (tb_limit b), JInt (tb_limit b + 1), JNull)) s) \<in> range Inr)))"
proof -
  have ok: "log_ok st" using assms(1) by (rule session_reachable_ok)
  obtain b v where b: "turn_budget_view (st_meta st) (st_events st) = Inr b"
    and a: "a = offered (dget (st_meta st) ''workspace_state'') b v changes"
    using assms(2) by (auto simp: available_actions_def rbind_eq_Inr)
  note run = budget_of_view [OF b ok]
  note start = start_run [OF assms(3,4) run]
  have waits: "tb_waiting b \<longrightarrow> \<not> tb_closed b"
    using run ok by (cases "last_turn (st_events st)") (auto simp: store_turn_budget_run rbind_eq_Inr current_turn_budget_def Let_def)
  have more: "fst (start_job V sid None True (Some (opt_str (tb_turn b), JInt (tb_limit b), JInt (tb_limit b + 1), JNull)) s) \<in> range Inr"
    if inc: "can_increase_budget a" and has: "has_turn b"
  proof -
    obtain t where t: "tb_turn b = Some t" "t \<noteq> []" using has by (auto simp: has_turn_def split: option.splits)
    have "parse_ws (dget (st_meta st) ''workspace_state'') \<in> {Some SourceOnly, Some ChangesActive}" "tb_waiting b" "tb_limit b < 1000"
      using inc safe_state by (auto simp: a offered_def Let_def max_user_turn_budget_def)
    then have "fst (increase_turn_budget (se_now V (sv_clock s)) (JStr t) (JInt (tb_limit b)) (JInt (tb_limit b + 1)) JNull st) \<in> range Inr"
      using increase_run [OF ok run] t waits by blast
    then show ?thesis unfolding start t
      by (auto simp: check_start_def raise_budget_def try_catch_def bnd_def seq_then_def sup_tick_def in_session_def assms(3) ret_def split: prod.splits)
  qed
  show ?thesis
    using more b stop_idle_run [OF assms(3) ok assms(4) run] waits
    by (auto simp: start check_start_def a offered_def Let_def unfinished_def raise_def ret_def)
qed

lemma offered_actions_are_accepted_witness:
  "\<exists>a. available_actions (st_meta demo_waiting) (st_events demo_waiting) (no_changes ''none'') = Inr a \<and> can_increase_budget a \<and> can_stop a
     \<and> fst (stop_job demo_product_env ''s1'' demo_product_supervisor) = Inr True"
proof -
  have "(case available_actions (st_meta demo_waiting) (st_events demo_waiting) (no_changes ''none'') of Inl e \<Rightarrow> False
      | Inr a \<Rightarrow> can_increase_budget a \<and> can_stop a)"
    unfolding demo_waiting_def demo_session_def demo_created_def by code_simp
  then obtain a where a: "available_actions (st_meta demo_waiting) (st_events demo_waiting) (no_changes ''none'') = Inr a"
      "can_increase_budget a" "can_stop a" by (auto split: sum.splits)
  have "sv_stores demo_product_supervisor ''s1'' = Some demo_waiting" "sv_active demo_product_supervisor ''s1'' = None"
    by (simp_all add: demo_product_supervisor_def)
  from offered_actions_are_accepted [OF demo_waiting_reachable a(1) this] a show ?thesis by blast
qed

text \<open>
  C39. A client that asks for the events after the last number it was given reads the log in order, without gap or repetition: a page is
  the next run of the log, its last number says where it ends, and it says truly whether more is to come. Reading changes nothing.
\<close>

theorem pages_follow_the_log:
  assumes "session_reachable st" and "sv_stores (pr_sup s) sid = Some st" and "strip sid \<noteq> []" and "\<not> truthy (dget (st_meta st) ''error'')"
    and "0 \<le> after" and "after \<le> int (length (st_events st))" and "1 \<le> limit" and "limit \<le> 1000"
  shows "\<exists>page. get_events sid after limit s = (Inr page, s)
    \<and> drop (nat after) (st_events st) = ep_events page @ drop (nat (ep_last page)) (st_events st)
    \<and> int (length (ep_events page)) \<le> limit \<and> ep_last page = after + int (length (ep_events page))
    \<and> (ep_more page \<longleftrightarrow> ep_last page < int (length (st_events st))) \<and> (ep_more page \<longrightarrow> after < ep_last page)"
proof -
  have ok: "log_ok st" using assms(1) by (rule session_reachable_ok)
  then have num: "numbered_from 1 (st_events st)" and meta: "check_meta (st_meta st) = Inr (st_meta st)"
    by (auto simp: log_ok_def log_inv_def check_meta_def)
  have "in_session sid read_events (pr_sup s) = (Inr (st_events st), pr_sup s)"
    by (rule in_session_run [OF assms(2)]) (simp add: read_events_def gets_def)
  then have run: "get_events sid after limit s = (Inr (events_page after limit (st_events st)), s)"
    using assms meta by (simp add: get_events_def load_session_def in_sup_def bnd_def seq_then_def gets_def ret_def)
  note page = events_page_numbered [OF num assms(5-7)]
  have len: "int (length (ep_events (events_page after limit (st_events st)))) = min limit (int (length (st_events st)) - after)"
    using page assms(5-7) by (auto simp: min_def)
  have "drop (nat after) (st_events st) = ep_events (events_page after limit (st_events st))
      @ drop (nat (ep_last (events_page after limit (st_events st)))) (st_events st)"
  proof (cases "after + limit < int (length (st_events st))")
    case True
    then have "nat (ep_last (events_page after limit (st_events st))) = nat after + nat limit" using page assms(5-7) by (simp add: nat_add_distrib)
    moreover have "xs = take k xs @ drop k xs" for xs :: "session_event list" and k by simp
    ultimately show ?thesis using page by (metis add.commute drop_drop)
  next
    case False
    then have "nat (ep_last (events_page after limit (st_events st))) = length (st_events st)" "length (drop (nat after) (st_events st)) \<le> nat limit"
      using page assms(5-7) by auto
    then show ?thesis using page by simp
  qed
  then show ?thesis using run page len assms(5-7) by (intro exI [of _ "events_page after limit (st_events st)"]) (auto simp: min_def)
qed

lemma pages_follow_the_log_witness:
  "\<exists>page. get_events ''s1'' 1 1 demo_product = (Inr page, demo_product) \<and> length (ep_events page) \<le> 1 \<and> ep_more page"
proof -
  have len: "length (st_events demo_waiting) = 3" and clean: "\<not> truthy (dget (st_meta demo_waiting) ''error'')"
    unfolding demo_waiting_def demo_session_def demo_created_def by code_simp+
  have st: "sv_stores (pr_sup demo_product) ''s1'' = Some demo_waiting" by (simp add: demo_product_def demo_product_supervisor_def)
  from pages_follow_the_log [OF demo_waiting_reachable st _ clean, of 1 1] len show ?thesis
    by (force simp: strip_def is_space_def)
qed

end
