(* ===== verification/Spec2Isabelle.thy ===== *)
theory Spec2Isabelle
  imports Summary_Advance Runner_Properties Sandbox_Mounts Atomic_Properties Supervisor_Properties Product_Approvals Command_Properties Review_Properties Repository_Search Git_Worktree Timeline_Calls Product_Properties
begin

text \<open>
  A model of \<^verbatim>\<open>src/codeagent\<close>, an agent that edits a source tree under supervision. A session is a directory with a
  metadata file and an append-only log. A user message opens a turn; the runner asks a model for steps, executes the tools the
  model calls and logs what happened, until the model answers, the user stops it or a budget is used up. Protected tools work in a
  Git worktree of their own; its changes reach the source tree only as a patch that was frozen, checked and accepted. All paths
  below are relative to \<^verbatim>\<open>src/codeagent\<close>.

  \<^bold>\<open>How the code is represented.\<close> A Python value read from JSON is a \<^theory_text>\<open>json\<close>, a dictionary an association list in insertion order, a
  text the \<^typ>\<open>string\<close> of its UTF-8 bytes (\<^theory_text>\<open>py_len\<close> and \<^theory_text>\<open>py_take\<close> count code points; changes of case are those of ASCII), a float
  its text. A call that may raise returns \<^theory_text>\<open>res\<close>, the sum of an exception (its class and a tag that stands for the
  message) and a value; stateful code is a \<^theory_text>\<open>prog\<close>, a function from a state to such a result and the next state, so that what was
  changed before an exception stays changed. Classes are records and enumerations datatypes, with the names of the source.
  What the code asks of the world is an argument: clocks, identities, digests, the answers of the model, of Git, of child processes
  and of the file system. Where such answers change between calls, a component counts its calls and asks an environment
  for the answer at that tick, so that every theorem covers all interleavings with the rest of the world.

  \<^bold>\<open>Foundations.\<close> \<^theory_text>\<open>Runtime_Prelude\<close> has results, programs, dictionaries, the rules that run and preserve programs and the
  collections of facts that the proofs share; \<^theory_text>\<open>Python_Strings\<close>, \<^theory_text>\<open>Python_Json\<close> and \<^theory_text>\<open>Json_Reader\<close> have the operations of the standard library
  that the code uses. The reader of JSON takes fuel, twice the length of the text and two, which is shown to be enough.
  \<^theory_text>\<open>Path_Safety\<close> (\<^verbatim>\<open>safety/\<close>) and \<^theory_text>\<open>Host_Paths\<close> have paths, symbolic links, the path guard and sensitive names; resolution takes the number of
  links that the kernel follows, and a longer chain is the \<^verbatim>\<open>RuntimeError\<close> or \<^verbatim>\<open>OSError\<close> of a loop.

  \<^bold>\<open>Sessions.\<close> \<^theory_text>\<open>Session_Store\<close> (\<^verbatim>\<open>session/store.py\<close>, \<^verbatim>\<open>session/events.py\<close>, \<^verbatim>\<open>workspace/workspace.py\<close>) has the metadata, the log and every operation
  that changes them; \<^theory_text>\<open>Event_File\<close> the file format of the log. \<^theory_text>\<open>Session_Log\<close> states the promise of the store as the interface
  \<open>event_log\<close> and interprets it; \<^theory_text>\<open>Session_Machine\<close> shows it for every session that is reachable by operations: the
  log is numbered, only grows, and the transitions of the workspace fire in their source states only. \<^theory_text>\<open>Turn_Budget\<close>
  (\<^verbatim>\<open>runtime/turn_budget.py\<close>) reads the budget of the turn from the log.

  \<^bold>\<open>Context.\<close> \<^theory_text>\<open>Context_Projector\<close> (\<^verbatim>\<open>context/projector.py\<close>, \<^verbatim>\<open>context/models.py\<close>) reads the log back as turns, steps and exchanges;
  \<^theory_text>\<open>Context_Summary\<close> and \<^theory_text>\<open>Context_Builder\<close> (\<^verbatim>\<open>context/builder.py\<close>) select the rolling summary and build a request within the
  token budget or plan a condensation; \<^theory_text>\<open>Condensation\<close> (from \<^verbatim>\<open>runtime/runner.py\<close>) calls the condenser until a request fits. What that
  loop needs of the builder is the interface \<open>context_renderer\<close>. Its fuel is 6: the measure, at most four calls of the condenser
  and one soft trigger, falls in every iteration. \<^theory_text>\<open>Summary_Advance\<close> spans these parts.

  \<^bold>\<open>The runner.\<close> \<^theory_text>\<open>Model_Gateway\<close> (\<^verbatim>\<open>model_gateway/base.py\<close>, \<^verbatim>\<open>config.py\<close>) has requests, responses and configurations, \<^theory_text>\<open>Agent_Tools\<close> (\<^verbatim>\<open>tools/base.py\<close>,
  \<^verbatim>\<open>tools/registry.py\<close>, \<^verbatim>\<open>runtime/policy.py\<close>, \<^verbatim>\<open>runtime/approval.py\<close>) the tools, their levels and the approval of a call,
  \<^theory_text>\<open>Agent_Runner\<close> (\<^verbatim>\<open>runtime/runner.py\<close>) one slice of a turn, and \<^theory_text>\<open>Workspace_Upgrade\<close> its change to a worktree. \<^theory_text>\<open>Event_Traces\<close> relates what a
  program returns to the events it logs; on it rest \<^theory_text>\<open>Runner_Bounds\<close>, \<^theory_text>\<open>Runner_Protocol\<close> and \<^theory_text>\<open>Runner_Status\<close>, and \<^theory_text>\<open>Runner_Properties\<close>
  states the results: bounded steps, one outcome for every call, no handler behind a denial, a protocol that a stop
  closes, and a status that says what the log says.

  \<^bold>\<open>Editing.\<close> \<^theory_text>\<open>Atomic_Edit\<close> and \<^theory_text>\<open>Atomic_Commit\<close> (\<^verbatim>\<open>runtime/atomic_edit.py\<close>) plan an edit, commit it through a recorded transaction, roll
  back and recover. Each write of the disk may fail. \<^theory_text>\<open>Atomic_Frames\<close> says what the steps leave alone, \<^theory_text>\<open>Atomic_Recovery\<close> what recovery
  leaves behind, \<^theory_text>\<open>Atomic_Properties\<close> that a plan is sound, a commit atomic and a recovery complete, and where a rollback does harm.

  \<^bold>\<open>Commands.\<close> \<^theory_text>\<open>Permissions\<close>, \<^theory_text>\<open>Sandbox_Policy\<close> and \<^theory_text>\<open>Sandbox_Mounts\<close> (\<^verbatim>\<open>runtime/permissions.py\<close>, \<^verbatim>\<open>runtime/sandbox_policy.py\<close>,
  \<^verbatim>\<open>runtime/bubblewrap.py\<close>, \<^verbatim>\<open>runtime/command_environment.py\<close>) have the requested resources, the decision on them and the mounts that enforce it;
  \<^theory_text>\<open>Git_Status\<close> and \<^theory_text>\<open>Workspace_Audit\<close> (\<^verbatim>\<open>tools/git_read.py\<close>, \<^verbatim>\<open>runtime/git_snapshot.py\<close>, \<^verbatim>\<open>runtime/workspace_audit.py\<close>) what Git reports and what changed
  between two observations; \<^theory_text>\<open>Command_Executor\<close> and \<^theory_text>\<open>Command_Service\<close> (\<^verbatim>\<open>runtime/command.py\<close>, \<^verbatim>\<open>runtime/artifacts.py\<close>,
  \<^verbatim>\<open>runtime/sandbox_executor.py\<close>, \<^verbatim>\<open>runtime/command_service.py\<close>, \<^verbatim>\<open>runtime/validation.py\<close>) the run of a command from its request to the evidence of a validation.
  \<^theory_text>\<open>Command_Traces\<close> and \<^theory_text>\<open>Command_Outcomes\<close> follow a run; \<^theory_text>\<open>Command_Properties\<close> says what evidence rests on and what a command had to pass.

  \<^bold>\<open>Review.\<close> \<^theory_text>\<open>Git_Worktree\<close> (\<^verbatim>\<open>workspace/git_worktree.py\<close>) makes, checks and removes the worktree of a session. \<^theory_text>\<open>Candidate\<close>, \<^theory_text>\<open>Applied_Changes\<close>
  and \<^theory_text>\<open>Current_Changes\<close> (\<^verbatim>\<open>runtime/candidate.py\<close>, \<^verbatim>\<open>runtime/applied_changes.py\<close>, \<^verbatim>\<open>runtime/current_changes.py\<close>) freeze its changes, apply or discard
  them and keep what was delivered. \<^theory_text>\<open>Review_Frames\<close>, \<^theory_text>\<open>Review_Outcomes\<close> and \<^theory_text>\<open>Review_Runs\<close> are triples over the steps of a review;
  \<^theory_text>\<open>Review_Properties\<close> says that only the approved patch is applied, how an acceptance ends, and when a session is stranded.

  \<^bold>\<open>Reading.\<close> \<^theory_text>\<open>Repository_Reads\<close> (\<^verbatim>\<open>tools/fs_read.py\<close>) lists directories and reads pages of files, \<^theory_text>\<open>Repository_Search\<close>
  (\<^verbatim>\<open>runtime/repository_search.py\<close>) searches with ripgrep; both show only places inside the workspace. A tree is walked to the depth asked for,
  at most four.

  \<^bold>\<open>The product.\<close> \<^theory_text>\<open>Execution_Supervisor\<close> (\<^verbatim>\<open>product/execution.py\<close>) runs one job per session in a thread of its own; \<^theory_text>\<open>Supervisor_Machine\<close> is
  the step relation of clients and workers with its invariant, \<^theory_text>\<open>Supervisor_Traces\<close> and \<^theory_text>\<open>Supervisor_Properties\<close> what holds of every interleaving,
  \<^theory_text>\<open>Product_Approvals\<close> what a user is shown who is asked to approve. \<^theory_text>\<open>Product_View\<close>, \<^theory_text>\<open>Product_Timeline\<close> and
  \<^theory_text>\<open>Product_Detail\<close> (\<^verbatim>\<open>product/read_model.py\<close>) compute what a client sees of a session; the timeline, whose code changes dictionaries
  it has already handed out, keeps them as cells of a store. \<^theory_text>\<open>Timeline_Calls\<close> says that it shows every call once. \<^theory_text>\<open>Product_Service\<close>
  (\<^verbatim>\<open>product/service.py\<close>, \<^verbatim>\<open>product/rpc.py\<close>) serves the requests; \<^theory_text>\<open>Product_Properties\<close> says that the offered actions are those
  the supervisor accepts, and that pages of events follow the log.

  \<^bold>\<open>Not modelled.\<close>
  The loop over the input stream of \<^verbatim>\<open>product/rpc.py\<close> and the
  listing of session directories, which is an argument; the prompts and progress messages of \<^verbatim>\<open>runtime/approval.py\<close> and
  \<^verbatim>\<open>runtime/runner.py\<close>; the environment snapshot, prompt files and the compatibility wrapper of \<^verbatim>\<open>context/builder.py\<close>;
  the removal of diagnostic files in \<^verbatim>\<open>runtime/command_service.py\<close>; four methods of \<^verbatim>\<open>runtime/candidate.py\<close> that nothing calls or that only
  word an error. The texts of messages to users and models are tags. Whole files that are left out: the text patches of
  \<^verbatim>\<open>runtime/edit_service.py\<close> and \<^verbatim>\<open>tools/text_patch.py\<close>, which nothing builds any more; the schemas of \<^verbatim>\<open>tools/atomic_edit.py\<close>, \<^verbatim>\<open>tools/candidate.py\<close> and
  \<^verbatim>\<open>tools/command.py\<close>, which are data; \<^verbatim>\<open>cli.py\<close>, \<^verbatim>\<open>interface/\<close>, \<^verbatim>\<open>application/\<close> and \<^verbatim>\<open>product/demo.py\<close>, which are console code and wiring; the clients of
  \<^verbatim>\<open>model_gateway/\<close>, which call libraries over the network; and \<^verbatim>\<open>benchmark/\<close>, an evaluation that the agent does not depend on.
  A power failure in the middle of one write, two processes on one session, and file systems other than those of Linux are not considered.
\<close>

end
